(* ===== verification/Prelude.thy ===== *)
theory Prelude
  imports Main "HOL-Library.AList" "HOL-Library.Char_ord" "HOL-Library.List_Lexorder"
begin

text \<open>
  What every component of the model shares: the JSON values the detection runtime reads, the
  exceptions it raises, the error-propagating \<open>bind\<close>, Python dictionaries as association lists in
  insertion order, and \<open>sorted(set(...))\<close>, the canonical form of every set-like array the runtime
  emits. Strings are \<^typ>\<open>string\<close>, ordered by character code as Python orders \<open>str\<close>.
\<close>

named_theorems res_simps "equations of the error-propagating combinators"
named_theorems dict_simps "lookups in updated dictionaries"
named_theorems canon_simps "facts on sorted duplicate-free lists"

section \<open>Exceptions\<close>

text \<open>
  The built-in exceptions the runtime catches by class, and the typed errors of its own modules.
  The string is the diagnostic (abbreviated: no control flow of the runtime reads it); where the
  source gives an exception a stable \<open>.code\<close>, that is the first argument.
\<close>

datatype exc =
    KeyError string
  | ValueError string
  | TypeError string
  | IndexError string
  | AttributeError string
  | EvaluatorError string
  | SuppressionExecutionError string
  | AggregationError string
  | ExplanationError string string
  | DetectionResultError string string

type_synonym 'a res = "exc + 'a"

text \<open>\<open>_PER_RULE_FAULTS\<close> of evaluator.py and suppression.py, and \<open>_AGG_FAULTS\<close> of aggregation.py.\<close>

fun per_rule_fault :: "exc \<Rightarrow> bool" where
  "per_rule_fault (KeyError _) = True"
| "per_rule_fault (ValueError _) = True"
| "per_rule_fault (TypeError _) = True"
| "per_rule_fault (IndexError _) = True"
| "per_rule_fault _ = False"

fun agg_fault :: "exc \<Rightarrow> bool" where
  "agg_fault (AttributeError _) = True"
| "agg_fault e = per_rule_fault e"

fun exc_text :: "exc \<Rightarrow> string" where
  "exc_text (KeyError m) = ''KeyError: '' @ m"
| "exc_text (ValueError m) = ''ValueError: '' @ m"
| "exc_text (TypeError m) = ''TypeError: '' @ m"
| "exc_text (IndexError m) = ''IndexError: '' @ m"
| "exc_text (AttributeError m) = ''AttributeError: '' @ m"
| "exc_text (EvaluatorError m) = m"
| "exc_text (SuppressionExecutionError m) = m"
| "exc_text (AggregationError m) = m"
| "exc_text (ExplanationError _ m) = m"
| "exc_text (DetectionResultError _ m) = m"

section \<open>Error propagation\<close>

definition rbind :: "'e + 'a \<Rightarrow> ('a \<Rightarrow> 'e + 'b) \<Rightarrow> 'e + 'b" where
  "rbind x f = (case x of Inl e \<Rightarrow> Inl e | Inr a \<Rightarrow> f a)"

lemma rbind_simps [simp, res_simps]:
  "rbind (Inl e) f = Inl e"
  "rbind (Inr a) f = f a"
  by (simp_all add: rbind_def)

lemma rbind_Inr_right [simp, res_simps]: "rbind x Inr = x"
  by (cases x) simp_all

lemma rbind_eq_Inr [res_simps]: "rbind x f = Inr b \<longleftrightarrow> (\<exists>a. x = Inr a \<and> f a = Inr b)"
  by (cases x) auto

lemma rbind_eq_Inl [res_simps]:
  "rbind x f = Inl e \<longleftrightarrow> x = Inl e \<or> (\<exists>a. x = Inr a \<and> f a = Inl e)"
  by (cases x) auto

text \<open>A Python loop over a list whose body may raise: the first error ends it.\<close>

fun map_res :: "('a \<Rightarrow> 'e + 'b) \<Rightarrow> 'a list \<Rightarrow> 'e + 'b list" where
  "map_res f [] = Inr []"
| "map_res f (x # xs) = rbind (f x) (\<lambda>y. rbind (map_res f xs) (\<lambda>ys. Inr (y # ys)))"

fun fold_res :: "('a \<Rightarrow> 's \<Rightarrow> 'e + 's) \<Rightarrow> 'a list \<Rightarrow> 's \<Rightarrow> 'e + 's" where
  "fold_res f [] s = Inr s"
| "fold_res f (x # xs) s = rbind (f x s) (fold_res f xs)"

lemma map_res_cong [fundef_cong]:
  "xs = ys \<Longrightarrow> (\<And>x. x \<in> set ys \<Longrightarrow> f x = g x) \<Longrightarrow> map_res f xs = map_res g ys"
  by (induction xs arbitrary: ys) auto

lemma map_res_length: "map_res f xs = Inr ys \<Longrightarrow> length ys = length xs"
  by (induction xs arbitrary: ys) (auto simp: res_simps)

lemma map_res_Inr_iff: "map_res f xs = Inr ys \<longleftrightarrow> list_all2 (\<lambda>x y. f x = Inr y) xs ys"
  by (induction xs arbitrary: ys) (auto simp: res_simps list_all2_Cons1)

lemma map_res_Inr_all: "(\<And>x. x \<in> set xs \<Longrightarrow> f x = Inr (g x)) \<Longrightarrow> map_res f xs = Inr (map g xs)"
  by (induction xs) auto

lemma map_res_Inl_iff:
  "(\<exists>e. map_res f xs = Inl e) \<longleftrightarrow> (\<exists>x\<in>set xs. \<exists>e. f x = Inl e)"
  by (induction xs) (auto simp: res_simps split: sum.splits, (metis sum.exhaust)+)

lemma map_res_set:
  "map_res f xs = Inr ys \<Longrightarrow> y \<in> set ys \<Longrightarrow> \<exists>x\<in>set xs. f x = Inr y"
  by (induction xs arbitrary: ys) (auto simp: res_simps)

lemma map_res_set_ex:
  "map_res f xs = Inr ys \<Longrightarrow> x \<in> set xs \<Longrightarrow> \<exists>y\<in>set ys. f x = Inr y"
  by (induction xs arbitrary: ys) (auto simp: res_simps)

text \<open>A check that raises or lets execution go on.\<close>

definition guard :: "bool \<Rightarrow> exc \<Rightarrow> unit res" where
  "guard ok e = (if ok then Inr () else Inl e)"

lemma guard_eq [simp, res_simps]:
  "guard ok e = Inr u \<longleftrightarrow> ok"
  "guard ok e = Inl e' \<longleftrightarrow> \<not> ok \<and> e' = e"
  by (auto simp: guard_def)

section \<open>JSON values\<close>

text \<open>
  What \<open>json.loads\<close> returns. An object is an association list in insertion order; a missing key
  reads as \<open>None\<close> through \<open>.get\<close>, which is \<open>JNull\<close> here. A finite float is kept as its text: the
  runtime passes such numbers on and computes with none.
\<close>

datatype json =
    JNull
  | JBool bool
  | JInt int
  | JFloat string
  | JStr string
  | JArr "json list"
  | JObj "(string \<times> json) list"

fun type_name :: "json \<Rightarrow> string" where
  "type_name JNull = ''NoneType''"
| "type_name (JBool _) = ''bool''"
| "type_name (JInt _) = ''int''"
| "type_name (JFloat _) = ''float''"
| "type_name (JStr _) = ''str''"
| "type_name (JArr _) = ''list''"
| "type_name (JObj _) = ''dict''"

fun truthy :: "json \<Rightarrow> bool" where
  "truthy JNull = False"
| "truthy (JBool b) = b"
| "truthy (JInt i) = (i \<noteq> 0)"
| "truthy (JFloat t) = (t \<noteq> ''0.0'' \<and> t \<noteq> ''-0.0'')"
| "truthy (JStr s) = (s \<noteq> [])"
| "truthy (JArr xs) = (xs \<noteq> [])"
| "truthy (JObj kvs) = (kvs \<noteq> [])"

fun is_jbool :: "json \<Rightarrow> bool" where
  "is_jbool (JBool _) = True"
| "is_jbool _ = False"

definition jget :: "(string \<times> json) list \<Rightarrow> string \<Rightarrow> json" where
  "jget kvs k = (case map_of kvs k of None \<Rightarrow> JNull | Some v \<Rightarrow> v)"

text \<open>
  A frozen value (a tuple of hashables, a scalar) can be looked up in a set; a mapping proxy over a
  dict cannot, and Python raises \<open>TypeError\<close>.
\<close>

fun hashable :: "json \<Rightarrow> bool" where
  "hashable (JArr xs) = list_all hashable xs"
| "hashable (JObj _) = False"
| "hashable _ = True"

section \<open>Canonical arrays\<close>

definition sorted_unique :: "'a::linorder list \<Rightarrow> 'a list" where
  "sorted_unique xs = sort (remdups xs)"

lemma sorted_unique_props [simp, canon_simps]:
  "set (sorted_unique xs) = set xs"
  "sorted (sorted_unique xs)"
  "distinct (sorted_unique xs)"
  by (simp_all add: sorted_unique_def)

lemma sorted_unique_Nil [simp]: "sorted_unique [] = []"
  by (simp add: sorted_unique_def)

lemma sorted_unique_eq_Nil [simp, canon_simps]: "sorted_unique xs = [] \<longleftrightarrow> xs = []"
  by (metis set_empty sorted_unique_props(1))

lemma sorted_unique_set_eq: "set xs = set ys \<Longrightarrow> sorted_unique xs = sorted_unique ys"
  by (rule sorted_distinct_set_unique) simp_all

lemma sorted_unique_idem [simp, canon_simps]: "sorted_unique (sorted_unique xs) = sorted_unique xs"
  by (rule sorted_unique_set_eq) simp

lemma sorted_unique_id: "sorted xs \<Longrightarrow> distinct xs \<Longrightarrow> sorted_unique xs = xs"
  by (rule sorted_distinct_set_unique) simp_all

lemma hd_sorted_unique_le: "x \<in> set xs \<Longrightarrow> hd (sorted_unique xs) \<le> x"
  by (metis empty_iff list.collapse list.set(1) order_refl set_ConsD sorted_simps(2) sorted_unique_props(1,2))

section \<open>Dictionaries\<close>

text \<open>
  A dict is an association list in insertion order with distinct keys. Assignment overwrites in
  place or appends, which is what \<^const>\<open>AList.update\<close> does.
\<close>

type_synonym 'v dict = "(string \<times> 'v) list"

abbreviation dict_keys :: "'v dict \<Rightarrow> string list" where
  "dict_keys d \<equiv> map fst d"

definition dict_of :: "(string \<times> 'v) list \<Rightarrow> 'v dict" where
  "dict_of kvs = fold (\<lambda>(k, v) d. AList.update k v d) kvs []"

lemma map_of_update [dict_simps]: "map_of (AList.update k v d) = (map_of d)(k \<mapsto> v)"
  by (rule ext) (simp add: update_conv')

lemma distinct_dict_fold:
  "distinct (dict_keys d) \<Longrightarrow> distinct (dict_keys (fold (\<lambda>(k, v) d. AList.update k v d) kvs d))"
  by (induction kvs arbitrary: d) (auto simp: distinct_update)

lemma distinct_dict_of [simp]: "distinct (dict_keys (dict_of kvs))"
  by (simp add: dict_of_def distinct_dict_fold)

lemma map_of_dict_fold:
  "map_of (fold (\<lambda>(k, v) d. AList.update k v d) kvs d) = map_of d ++ map_of (rev kvs)"
  by (induction kvs arbitrary: d) (auto simp: map_of_update)

text \<open>A comprehension keeps the last value of a repeated key.\<close>

lemma map_of_dict_of [dict_simps]: "map_of (dict_of kvs) = map_of (rev kvs)"
  by (simp add: dict_of_def map_of_dict_fold)

lemma map_of_rev_distinct: "distinct (map fst kvs) \<Longrightarrow> map_of (rev kvs) k = map_of kvs k"
  by (metis distinct_rev map_of_eqI map_of_eq_None_iff map_of_is_SomeI map_of_SomeD option.exhaust rev_map set_map set_rev)

lemma map_of_dict_of_distinct: "distinct (map fst kvs) \<Longrightarrow> map_of (dict_of kvs) = map_of kvs"
  by (rule ext) (simp add: map_of_dict_of map_of_rev_distinct)

end
