(* ===== verification/Kleene.thy ===== *)
theory Kleene
  imports Prelude
begin

text \<open>
  knowledge/runtime/kleene.py: the three-valued truth calculus of the rule evaluator. The n-ary
  operators are the source's loops over an iterable whose elements may raise while they are
  produced (the evaluator hands them a generator), so an element is a result, and a value that
  decides the operator ends the loop before a later element is looked at.
\<close>

section \<open>Values\<close>

datatype kleene = TRUE | FALSE | UNKNOWN

fun token :: "kleene \<Rightarrow> string" where
  "token TRUE = ''TRUE''"
| "token FALSE = ''FALSE''"
| "token UNKNOWN = ''UNKNOWN''"

definition VALUES :: "string list" where
  "VALUES = [''TRUE'', ''FALSE'', ''UNKNOWN'']"

definition check_value :: "string \<Rightarrow> kleene res" where
  "check_value v =
     (if v = ''TRUE'' then Inr TRUE
      else if v = ''FALSE'' then Inr FALSE
      else if v = ''UNKNOWN'' then Inr UNKNOWN
      else Inl (ValueError (''not a Kleene value: '' @ v)))"

lemma check_value_token [simp]: "check_value (token v) = Inr v"
  by (cases v) (simp_all add: check_value_def)

lemma check_value_iff: "check_value s = Inr v \<longleftrightarrow> s = token v"
  by (cases v) (auto simp: check_value_def)

section \<open>The n-ary operators\<close>

fun all_of_loop :: "bool \<Rightarrow> kleene res list \<Rightarrow> kleene res" where
  "all_of_loop seen_unknown [] = Inr (if seen_unknown then UNKNOWN else TRUE)"
| "all_of_loop seen_unknown (Inl e # vs) = Inl e"
| "all_of_loop seen_unknown (Inr v # vs) =
     (if v = FALSE then Inr FALSE
      else all_of_loop (if v = UNKNOWN then True else seen_unknown) vs)"

definition all_of :: "kleene res list \<Rightarrow> kleene res" where
  "all_of vs = all_of_loop False vs"

fun any_of_loop :: "bool \<Rightarrow> kleene res list \<Rightarrow> kleene res" where
  "any_of_loop seen_unknown [] = Inr (if seen_unknown then UNKNOWN else FALSE)"
| "any_of_loop seen_unknown (Inl e # vs) = Inl e"
| "any_of_loop seen_unknown (Inr v # vs) =
     (if v = TRUE then Inr TRUE
      else any_of_loop (if v = UNKNOWN then True else seen_unknown) vs)"

definition any_of :: "kleene res list \<Rightarrow> kleene res" where
  "any_of vs = any_of_loop False vs"

fun n_of_loop :: "int \<Rightarrow> int \<Rightarrow> kleene list \<Rightarrow> int \<times> int" where
  "n_of_loop t u [] = (t, u)"
| "n_of_loop t u (v # vs) =
     (if v = TRUE then n_of_loop (t + 1) u vs
      else if v = UNKNOWN then n_of_loop t (u + 1) vs
      else n_of_loop t u vs)"

definition n_of :: "int \<Rightarrow> kleene list \<Rightarrow> kleene res" where
  "n_of n vs =
     (if n < 1 then Inl (ValueError ''n_of requires n >= 1'')
      else let (t, u) = n_of_loop 0 0 vs
           in if n \<le> t then Inr TRUE
              else if t + u < n then Inr FALSE
              else Inr UNKNOWN)"

definition k_and :: "kleene \<Rightarrow> kleene \<Rightarrow> kleene res" where
  "k_and a b = all_of [Inr a, Inr b]"

definition k_or :: "kleene \<Rightarrow> kleene \<Rightarrow> kleene res" where
  "k_or a b = any_of [Inr a, Inr b]"

text \<open>On strings, each element goes through \<^const>\<open>check_value\<close> as the loop reaches it.\<close>

definition all_of_str :: "string list \<Rightarrow> kleene res" where
  "all_of_str vs = all_of (map check_value vs)"

definition any_of_str :: "string list \<Rightarrow> kleene res" where
  "any_of_str vs = any_of (map check_value vs)"

section \<open>The truth order\<close>

instantiation kleene :: linorder
begin

fun rank :: "kleene \<Rightarrow> nat" where
  "rank FALSE = 0"
| "rank UNKNOWN = 1"
| "rank TRUE = 2"

definition less_eq_kleene :: "kleene \<Rightarrow> kleene \<Rightarrow> bool" where
  "less_eq_kleene a b \<longleftrightarrow> rank a \<le> rank b"

definition less_kleene :: "kleene \<Rightarrow> kleene \<Rightarrow> bool" where
  "less_kleene a b \<longleftrightarrow> rank a < rank b"

instance
proof
  fix a b :: kleene
  assume "a \<le> b" "b \<le> a"
  then show "a = b" by (cases a; cases b) (simp_all add: less_eq_kleene_def)
qed (auto simp: less_eq_kleene_def less_kleene_def)

end

lemma kleene_order [simp]:
  "v \<le> TRUE" "FALSE \<le> v"
  "TRUE \<le> v \<longleftrightarrow> v = TRUE" "v \<le> FALSE \<longleftrightarrow> v = FALSE"
  "UNKNOWN \<le> v \<longleftrightarrow> v \<noteq> FALSE" "v \<le> UNKNOWN \<longleftrightarrow> v \<noteq> TRUE"
  by (cases v; simp add: less_eq_kleene_def)+

section \<open>The operators against the tables\<close>

lemma all_of_loop_values:
  "all_of_loop seen (map Inr vs) =
     Inr (if FALSE \<in> set vs then FALSE else if seen \<or> UNKNOWN \<in> set vs then UNKNOWN else TRUE)"
  by (induction vs arbitrary: seen) (auto intro: kleene.exhaust)

lemma any_of_loop_values:
  "any_of_loop seen (map Inr vs) =
     Inr (if TRUE \<in> set vs then TRUE else if seen \<or> UNKNOWN \<in> set vs then UNKNOWN else FALSE)"
  by (induction vs arbitrary: seen) (auto intro: kleene.exhaust)

lemma all_of_values:
  "all_of (map Inr vs) =
     Inr (if FALSE \<in> set vs then FALSE else if UNKNOWN \<in> set vs then UNKNOWN else TRUE)"
  by (simp add: all_of_def all_of_loop_values)

lemma any_of_values:
  "any_of (map Inr vs) =
     Inr (if TRUE \<in> set vs then TRUE else if UNKNOWN \<in> set vs then UNKNOWN else FALSE)"
  by (simp add: any_of_def any_of_loop_values)

lemma kleene_not_TF: "v \<noteq> TRUE \<Longrightarrow> v \<noteq> FALSE \<Longrightarrow> v = UNKNOWN"
  by (cases v) simp_all

lemma nonempty_values: "vs \<noteq> [] \<Longrightarrow> TRUE \<in> set vs \<or> FALSE \<in> set vs \<or> UNKNOWN \<in> set vs"
  by (cases vs) (auto, metis kleene_not_TF)

lemma all_of_Min: "vs \<noteq> [] \<Longrightarrow> all_of (map Inr vs) = Inr (Min (set vs))"
proof -
  assume "vs \<noteq> []"
  note mem = nonempty_values [OF this]
  let ?x = "if FALSE \<in> set vs then FALSE else if UNKNOWN \<in> set vs then UNKNOWN else TRUE"
  have "Min (set vs) = ?x"
  proof (rule Min_eqI)
    fix y assume "y \<in> set vs"
    then show "?x \<le> y" by (cases y rule: kleene.exhaust) auto
  next
    show "?x \<in> set vs" using mem by auto
  qed simp
  then show ?thesis by (simp add: all_of_values)
qed

lemma any_of_Max: "vs \<noteq> [] \<Longrightarrow> any_of (map Inr vs) = Inr (Max (set vs))"
proof -
  assume "vs \<noteq> []"
  note mem = nonempty_values [OF this]
  let ?x = "if TRUE \<in> set vs then TRUE else if UNKNOWN \<in> set vs then UNKNOWN else FALSE"
  have "Max (set vs) = ?x"
  proof (rule Max_eqI)
    fix y assume "y \<in> set vs"
    then show "y \<le> ?x" by (cases y rule: kleene.exhaust) auto
  next
    show "?x \<in> set vs" using mem by auto
  qed simp
  then show ?thesis by (simp add: any_of_values)
qed

lemma n_of_loop_counts:
  "n_of_loop t u vs = (t + int (count_list vs TRUE), u + int (count_list vs UNKNOWN))"
  by (induction vs arbitrary: t u) auto

lemma n_of_counts:
  "1 \<le> n \<Longrightarrow> n_of n vs =
     Inr (if n \<le> int (count_list vs TRUE) then TRUE
          else if int (count_list vs TRUE) + int (count_list vs UNKNOWN) < n then FALSE
          else UNKNOWN)"
  by (simp add: n_of_def n_of_loop_counts)

lemma count_values: "count_list vs TRUE + count_list vs UNKNOWN + count_list vs FALSE = length vs"
  by (induction vs) (auto, metis kleene_not_TF)

lemma count_zero [simp]: "count_list vs v = 0 \<longleftrightarrow> v \<notin> set vs"
  by (induction vs) auto

lemma n_of_one: "n_of 1 vs = any_of (map Inr vs)"
  using count_zero [of vs TRUE] count_zero [of vs UNKNOWN]
  by (auto simp: n_of_counts any_of_values simp del: count_zero split: if_splits)

lemma n_of_length: "vs \<noteq> [] \<Longrightarrow> n_of (int (length vs)) vs = all_of (map Inr vs)"
proof -
  assume "vs \<noteq> []"
  then have n: "1 \<le> int (length vs)" by (cases vs) auto
  show ?thesis
    using count_values [of vs] count_zero [of vs FALSE] count_zero [of vs UNKNOWN]
    by (auto simp: n_of_counts [OF n] all_of_values simp del: count_zero split: if_splits)
qed

section \<open>The information order\<close>

text \<open>\<open>refines v w\<close>: \<open>w\<close> says at least as much as \<open>v\<close>; only \<open>UNKNOWN\<close> may still change.\<close>

definition refines :: "kleene \<Rightarrow> kleene \<Rightarrow> bool" where
  "refines v w \<longleftrightarrow> v = UNKNOWN \<or> v = w"

fun res_refines :: "kleene res \<Rightarrow> kleene res \<Rightarrow> bool" where
  "res_refines (Inr v) (Inr w) = refines v w"
| "res_refines (Inr v) (Inl e) = False"
| "res_refines (Inl e) _ = True"

lemma refines_simps [simp]:
  "refines UNKNOWN w" "refines v v"
  "refines TRUE w \<longleftrightarrow> w = TRUE" "refines FALSE w \<longleftrightarrow> w = FALSE"
  "refines v UNKNOWN \<longleftrightarrow> v = UNKNOWN"
  by (auto simp: refines_def)

lemma res_refines_Inr: "res_refines (Inr v) r \<longleftrightarrow> (\<exists>w. r = Inr w \<and> refines v w)"
  by (cases r) auto

lemma all_of_loop_True: "all_of_loop True vs \<noteq> Inr TRUE"
proof (induction vs)
  case (Cons x vs)
  then show ?case by (cases x) auto
qed simp

lemma any_of_loop_True: "any_of_loop True vs \<noteq> Inr FALSE"
proof (induction vs)
  case (Cons x vs)
  then show ?case by (cases x) auto
qed simp

lemma res_refines_FALSE: "r \<noteq> Inr TRUE \<Longrightarrow> res_refines r (Inr FALSE)"
  by (cases r) (auto simp: refines_def intro: kleene_not_TF)

lemma res_refines_TRUE: "r \<noteq> Inr FALSE \<Longrightarrow> res_refines r (Inr TRUE)"
  by (cases r) (auto simp: refines_def intro: kleene_not_TF)

lemma all_of_loop_refines:
  "list_all2 res_refines vs ws \<Longrightarrow> (s' \<longrightarrow> s) \<Longrightarrow> res_refines (all_of_loop s vs) (all_of_loop s' ws)"
proof (induction vs arbitrary: ws s s')
  case (Cons x vs)
  then obtain y ys where ws: "ws = y # ys" and xy: "res_refines x y" and l: "list_all2 res_refines vs ys"
    by (auto simp: list_all2_Cons1)
  show ?case
  proof (cases x)
    case (Inr v)
    then obtain w where y: "y = Inr w" and vw: "refines v w" using xy by (auto simp: res_refines_Inr)
    show ?thesis using vw Cons.IH [OF l] Cons.prems(2)
      by (cases v; cases w) (simp_all add: ws Inr y res_refines_FALSE all_of_loop_True)
  qed (simp add: ws)
qed auto

lemma any_of_loop_refines:
  "list_all2 res_refines vs ws \<Longrightarrow> (s' \<longrightarrow> s) \<Longrightarrow> res_refines (any_of_loop s vs) (any_of_loop s' ws)"
proof (induction vs arbitrary: ws s s')
  case (Cons x vs)
  then obtain y ys where ws: "ws = y # ys" and xy: "res_refines x y" and l: "list_all2 res_refines vs ys"
    by (auto simp: list_all2_Cons1)
  show ?case
  proof (cases x)
    case (Inr v)
    then obtain w where y: "y = Inr w" and vw: "refines v w" using xy by (auto simp: res_refines_Inr)
    show ?thesis using vw Cons.IH [OF l] Cons.prems(2)
      by (cases v; cases w) (simp_all add: ws Inr y res_refines_TRUE any_of_loop_True)
  qed (simp add: ws)
qed auto

lemma all_of_refines: "list_all2 res_refines vs ws \<Longrightarrow> res_refines (all_of vs) (all_of ws)"
  by (simp add: all_of_def all_of_loop_refines)

lemma any_of_refines: "list_all2 res_refines vs ws \<Longrightarrow> res_refines (any_of vs) (any_of ws)"
  by (simp add: any_of_def any_of_loop_refines)

lemma n_of_count_refines:
  assumes "list_all2 refines vs ws"
  shows "count_list vs TRUE \<le> count_list ws TRUE"
    and "count_list ws TRUE + count_list ws UNKNOWN \<le> count_list vs TRUE + count_list vs UNKNOWN"
  using assms by (induction rule: list_all2_induct) (auto simp: refines_def)

lemma n_of_refines: "list_all2 refines vs ws \<Longrightarrow> res_refines (n_of n vs) (n_of n ws)"
proof -
  assume l: "list_all2 refines vs ws"
  show ?thesis
  proof (cases "n < 1")
    case False
    then show ?thesis using n_of_count_refines [OF l] by (simp add: n_of_counts refines_def)
  qed (simp add: n_of_def)
qed

end
