(* ===== verification/Conditions.thy ===== *)
theory Conditions
  imports Kleene
begin

text \<open>
  The condition trees of rules and overrides: \<open>operands\<close> and \<open>category_of\<close> of
  knowledge/runtime/indexes.py and \<open>_eval_condition\<close> of evaluator.py. A condition is a JSON value
  here, because the code accepts any shape and raises on those it cannot read; \<open>wf_condition\<close> is
  the shape the \<open>condition\<close> definition of rule.schema.json admits.
\<close>

section \<open>Operands\<close>

text \<open>
  \<open>for item in v\<close> visits the elements of a list, the characters of a string, the keys of an object,
  and raises \<open>TypeError\<close> on anything else.
\<close>

fun concat_res :: "'a list res list \<Rightarrow> 'a list res" where
  "concat_res [] = Inr []"
| "concat_res (r # rs) = rbind r (\<lambda>xs. rbind (concat_res rs) (\<lambda>ys. Inr (xs @ ys)))"

text \<open>\<open>operands\<close> walks every entry of an object; \<open>n_of\<close> contributes the items of its \<open>of\<close>.\<close>

fun operands :: "json \<Rightarrow> string list res"
and operand_items :: "string \<Rightarrow> json \<Rightarrow> string list res"
and of_items :: "(string \<times> json) list \<Rightarrow> string list res" where
  "operands (JStr s) = Inr [s]"
| "operands (JObj kvs) = concat_res (map (\<lambda>(op, val). operand_items op val) kvs)"
| "operands _ = Inr []"
| "operand_items op (JObj kvs) = (if op = ''n_of'' then of_items kvs else Inr [])"
| "operand_items op (JArr xs) =
     (if op = ''n_of'' then Inr [] else concat_res (map operands xs))"
| "operand_items op _ = Inr []"
| "of_items [] = Inr []"
| "of_items ((k, v) # kvs) =
     (if k = ''of'' then
        (case v of
           JArr xs \<Rightarrow> concat_res (map operands xs)
         | JStr s \<Rightarrow> Inr (map (\<lambda>c. [c]) s)
         | JObj ps \<Rightarrow> Inr (map fst ps)
         | _ \<Rightarrow> Inl (TypeError (type_name v @ '' object is not iterable'')))
      else of_items kvs)"

text \<open>\<open>category_of\<close>: the match of \<open>^(TAX-\d{2})\<close>, the governed category a taxonomy id lies under.\<close>

fun is_digit :: "char \<Rightarrow> bool" where
  "is_digit c = (CHR ''0'' \<le> c \<and> c \<le> CHR ''9'')"

definition category_of :: "string \<Rightarrow> string option" where
  "category_of t =
     (if take 4 t = ''TAX-'' \<and> 6 \<le> length t \<and> list_all is_digit (take 2 (drop 4 t))
      then Some (take 6 t) else None)"

section \<open>Evaluation\<close>

definition digits_value :: "string \<Rightarrow> int" where
  "digits_value s = foldl (\<lambda>n c. 10 * n + (of_char c - 48)) 0 s"

text \<open>
  \<open>int(v)\<close> on a JSON value: a float is truncated (decimal notation), a string is read if it is a
  run of digits.
\<close>

definition truncate_text :: "string \<Rightarrow> int" where
  "truncate_text t =
     (case t of
        CHR ''-'' # ds \<Rightarrow> - digits_value (takeWhile is_digit ds)
      | _ \<Rightarrow> digits_value (takeWhile is_digit t))"

fun int_of_json :: "json \<Rightarrow> int res" where
  "int_of_json (JInt i) = Inr i"
| "int_of_json (JBool b) = Inr (if b then 1 else 0)"
| "int_of_json (JFloat t) = Inr (truncate_text t)"
| "int_of_json (JStr s) =
     (if s \<noteq> [] \<and> list_all is_digit s then Inr (digits_value s)
      else Inl (ValueError ''invalid literal for int()''))"
| "int_of_json v = Inl (TypeError (''int() argument: '' @ type_name v))"

fun all_values :: "kleene res list \<Rightarrow> kleene list res" where
  "all_values [] = Inr []"
| "all_values (r # rs) = rbind r (\<lambda>v. rbind (all_values rs) (\<lambda>vs. Inr (v # vs)))"

text \<open>Looking a key up yields a smaller value, so the recursion ends.\<close>

lemma size_map_of:
  "map_of kvs k = Some v \<Longrightarrow> size v \<le> size_list (size_prod (\<lambda>_. 0) size) kvs"
  by (induction kvs) (auto split: if_splits)

lemma size_map_of_node:
  "map_of kvs k = Some (JObj node) \<Longrightarrow> map_of node k' = Some v \<Longrightarrow>
     size v \<le> size_list (size_prod (\<lambda>_. 0) size) kvs"
  using size_map_of [of kvs k "JObj node"] size_map_of [of node k' v] by simp

lemma size_list_mem: "x \<in> set xs \<Longrightarrow> size x \<le> size_list size xs"
  by (erule size_list_estimation') simp

function (sequential) eval_condition :: "(string \<Rightarrow> kleene) \<Rightarrow> json \<Rightarrow> kleene res"
and eval_operands :: "(string \<Rightarrow> kleene) \<Rightarrow> json \<Rightarrow> kleene res list res" where
  "eval_condition truth (JStr s) = Inr (truth s)"
| "eval_condition truth (JObj kvs) =
     (case map_of kvs ''all_of'' of
        Some v \<Rightarrow> rbind (eval_operands truth v) all_of
      | None \<Rightarrow>
        (case map_of kvs ''any_of'' of
           Some v \<Rightarrow> rbind (eval_operands truth v) any_of
         | None \<Rightarrow>
           (case map_of kvs ''n_of'' of
              Some (JObj node) \<Rightarrow>
                (case map_of node ''n'' of
                   None \<Rightarrow> Inl (KeyError ''n'')
                 | Some n \<Rightarrow>
                     rbind (int_of_json n) (\<lambda>k.
                       rbind (case map_of node ''of'' of
                                None \<Rightarrow> Inr []
                              | Some v \<Rightarrow> eval_operands truth v)
                         (\<lambda>rs. rbind (all_values rs) (n_of k))))
            | Some v \<Rightarrow> Inl (TypeError (type_name v @ '' indices must be integers''))
            | None \<Rightarrow> Inl (EvaluatorError ''unknown condition operator(s)''))))"
| "eval_condition truth _ =
     Inl (EvaluatorError ''condition node is neither an indicator id nor an operator object'')"
| "eval_operands truth (JArr xs) = Inr (map (eval_condition truth) xs)"
| "eval_operands truth (JStr s) = Inr (map (\<lambda>c. Inr (truth [c])) s)"
| "eval_operands truth (JObj kvs) = Inr (map (\<lambda>(k, _). Inr (truth k)) kvs)"
| "eval_operands truth v = Inl (TypeError (type_name v @ '' object is not iterable''))"
  by pat_completeness auto
termination
proof (relation "measure (\<lambda>x. case x of Inl (_, c) \<Rightarrow> size (c :: json) | Inr (_, v) \<Rightarrow> size v)")
  fix kvs v node w n
  assume "map_of kvs ''n_of'' = Some v" "v = JObj node" "map_of node ''of'' = Some w"
qed (auto simp: less_Suc_eq_le size_map_of size_map_of_node size_list_mem)

section \<open>Governed conditions\<close>

text \<open>One operator per node, as rule.schema.json demands: non-empty operands and a positive threshold.\<close>

fun wf_condition :: "json \<Rightarrow> bool" where
  "wf_condition (JStr s) = True"
| "wf_condition (JObj [(op, JArr xs)]) =
     ((op = ''all_of'' \<or> op = ''any_of'') \<and> xs \<noteq> [] \<and> list_all wf_condition xs)"
| "wf_condition (JObj [(op, JObj [(k, JInt n), (k', JArr xs)])]) =
     (op = ''n_of'' \<and> k = ''n'' \<and> k' = ''of'' \<and> 1 \<le> n \<and> xs \<noteq> [] \<and> list_all wf_condition xs)"
| "wf_condition _ = False"

lemma all_values_Inr: "all_values (map Inr vs) = Inr vs"
  by (induction vs) auto

lemma all_values_map:
  "(\<And>x. x \<in> set xs \<Longrightarrow> f x = Inr (g x)) \<Longrightarrow> all_values (map f xs) = Inr (map g xs)"
  by (induction xs) auto

lemma concat_res_map:
  "(\<And>x. x \<in> set xs \<Longrightarrow> f x = Inr (g x)) \<Longrightarrow> concat_res (map f xs) = Inr (concat (map g xs))"
  by (induction xs) auto

lemma map_Inr_comp: "(\<And>x. x \<in> set xs \<Longrightarrow> f x = Inr (g x)) \<Longrightarrow> map f xs = map Inr (map g xs)"
  by (induction xs) auto

text \<open>A governed condition has a value and a list of operands: no error path is open to it.\<close>

lemma wf_condition_total:
  "wf_condition c \<Longrightarrow> \<exists>v ops. eval_condition truth c = Inr v \<and> operands c = Inr ops"
proof (induction c rule: wf_condition.induct)
  case (2 op xs)
  then have "\<forall>x\<in>set xs. \<exists>v ops. eval_condition truth x = Inr v \<and> operands x = Inr ops"
    by (auto simp: list_all_iff)
  then obtain g h where gh: "\<And>x. x \<in> set xs \<Longrightarrow> eval_condition truth x = Inr (g x) \<and> operands x = Inr (h x)"
    by metis
  have "map (eval_condition truth) xs = map Inr (map g xs)"
    "concat_res (map operands xs) = Inr (concat (map h xs))"
    using gh by (auto intro: concat_res_map)
  with 2 show ?case by (auto simp: all_of_values any_of_values simp del: map_map)
next
  case (3 op k n k' xs)
  then have "\<forall>x\<in>set xs. \<exists>v ops. eval_condition truth x = Inr v \<and> operands x = Inr ops"
    by (auto simp: list_all_iff)
  then obtain g h where gh: "\<And>x. x \<in> set xs \<Longrightarrow> eval_condition truth x = Inr (g x) \<and> operands x = Inr (h x)"
    by metis
  have "all_values (map (eval_condition truth) xs) = Inr (map g xs)"
    "concat_res (map operands xs) = Inr (concat (map h xs))"
    using gh by (auto intro: concat_res_map all_values_map)
  with 3 show ?case by (auto simp: n_of_counts)
qed auto

text \<open>
  Two truth assignments that agree on the operands give a governed condition the same value: the
  operand list that the reverse index is built from misses nothing the evaluation reads.
\<close>

lemma concat_res_Inr_mem:
  "concat_res (map f xs) = Inr ys \<Longrightarrow> x \<in> set xs \<Longrightarrow> \<exists>zs. f x = Inr zs \<and> set zs \<subseteq> set ys"
proof (induction xs arbitrary: ys)
  case (Cons a xs)
  then obtain us vs where "f a = Inr us" "concat_res (map f xs) = Inr vs" "ys = us @ vs"
    by (auto simp: rbind_eq_Inr)
  with Cons show ?case by (cases "x = a") fastforce+
qed simp

lemma eval_operand_list:
  assumes IH: "\<And>x ops. x \<in> set xs \<Longrightarrow> wf_condition x \<Longrightarrow> operands x = Inr ops \<Longrightarrow>
      (\<And>i. i \<in> set ops \<Longrightarrow> t i = t' i) \<Longrightarrow> eval_condition t x = eval_condition t' x"
    and wf: "list_all wf_condition xs"
    and ops: "concat_res (map operands xs) = Inr ops"
    and eq: "\<And>i. i \<in> set ops \<Longrightarrow> t i = t' i"
  shows "map (eval_condition t) xs = map (eval_condition t') xs"
proof (rule map_cong [OF refl])
  fix x assume x: "x \<in> set xs"
  then obtain zs where "operands x = Inr zs" "set zs \<subseteq> set ops"
    using concat_res_Inr_mem [OF ops x] by blast
  then show "eval_condition t x = eval_condition t' x"
    using IH [OF x] wf x eq by (auto simp: list_all_iff)
qed

lemma concat_res_single: "concat_res [r] = Inr ops \<longleftrightarrow> r = Inr ops"
  by (auto simp: rbind_eq_Inr)

lemma eval_condition_operands:
  "wf_condition c \<Longrightarrow> operands c = Inr ops \<Longrightarrow> (\<And>i. i \<in> set ops \<Longrightarrow> t i = t' i) \<Longrightarrow>
     eval_condition t c = eval_condition t' c"
proof (induction c arbitrary: ops rule: wf_condition.induct)
  case (2 op xs)
  have "map (eval_condition t) xs = map (eval_condition t') xs"
    by (rule eval_operand_list [of xs t t' ops])
      (use 2 in \<open>auto simp: list_all_iff rbind_eq_Inr\<close>)
  with 2 show ?case by (auto simp del: map_eq_conv)
next
  case (3 op k n k' xs)
  have "map (eval_condition t) xs = map (eval_condition t') xs"
    by (rule eval_operand_list [of xs t t' ops])
      (use 3 in \<open>auto simp: list_all_iff rbind_eq_Inr\<close>)
  with 3 show ?case by (auto simp del: map_eq_conv)
qed auto

text \<open>
  Information monotonicity: making an assignment more definite never changes a verdict that was
  already definite, and never turns a verdict into an error. No shape of the condition is assumed.
\<close>

lemma list_all2_map_same: "(\<And>x. x \<in> set xs \<Longrightarrow> P (f x) (g x)) \<Longrightarrow> list_all2 P (map f xs) (map g xs)"
  by (induction xs) auto

lemma all_values_refines:
  "list_all2 res_refines rs rs' \<Longrightarrow> all_values rs = Inr vs \<Longrightarrow>
     \<exists>ws. all_values rs' = Inr ws \<and> list_all2 refines vs ws"
  by (induction arbitrary: vs rule: list_all2_induct)
    (auto simp: res_simps res_refines_Inr)

lemma n_of_all_values_refines:
  "list_all2 res_refines rs rs' \<Longrightarrow>
     res_refines (rbind (all_values rs) (n_of k)) (rbind (all_values rs') (n_of k))"
proof (cases "all_values rs")
  case (Inr vs)
  moreover assume "list_all2 res_refines rs rs'"
  ultimately obtain ws where "all_values rs' = Inr ws" "list_all2 refines vs ws"
    using all_values_refines by blast
  with Inr show ?thesis by (simp add: n_of_refines)
qed simp

definition list_refines :: "kleene res list res \<Rightarrow> kleene res list res \<Rightarrow> bool" where
  "list_refines r r' \<longleftrightarrow>
     (case r of Inl e \<Rightarrow> r' = Inl e | Inr xs \<Rightarrow> (\<exists>ys. r' = Inr ys \<and> list_all2 res_refines xs ys))"

lemma list_refines_bind:
  "list_refines r r' \<Longrightarrow> (\<And>xs ys. list_all2 res_refines xs ys \<Longrightarrow> res_refines (f xs) (f ys)) \<Longrightarrow>
     res_refines (rbind r f) (rbind r' f)"
  by (cases r) (auto simp: list_refines_def)

lemma eval_condition_refines_aux:
  "(\<And>i. refines (t i) (t' i)) \<Longrightarrow> res_refines (eval_condition t c) (eval_condition t' c)"
  "(\<And>i. refines (t i) (t' i)) \<Longrightarrow> list_refines (eval_operands t v) (eval_operands t' v)"
proof (induction t c and t v rule: eval_condition_eval_operands.induct)
  case (2 t kvs)
  show ?case
  proof (cases "map_of kvs ''all_of''")
    case (Some v)
    then show ?thesis using 2 by (auto intro!: list_refines_bind all_of_refines)
  next
    case all: None
    show ?thesis
    proof (cases "map_of kvs ''any_of''")
      case (Some v)
      then show ?thesis using 2 all by (auto intro!: list_refines_bind any_of_refines)
    next
      case any: None
      let ?of = "\<lambda>t node. case map_of node ''of'' of None \<Rightarrow> Inr [] | Some v \<Rightarrow> eval_operands t v"
      have of_ref: "list_refines (?of t node) (?of t' node)"
        if "map_of kvs ''n_of'' = Some (JObj node)" "map_of node ''n'' = Some n" "int_of_json n = Inr k"
        for node n k
        using 2 all any that by (cases "map_of node ''of''") (auto simp: list_refines_def [of "Inr []"])
      show ?thesis
      proof (cases "\<exists>node n k. map_of kvs ''n_of'' = Some (JObj node) \<and>
               map_of node ''n'' = Some n \<and> int_of_json n = Inr k")
        case True
        then obtain node n k where n: "map_of kvs ''n_of'' = Some (JObj node)"
          "map_of node ''n'' = Some n" "int_of_json n = Inr k" by blast
        have "res_refines (rbind (?of t node) (\<lambda>rs. rbind (all_values rs) (n_of k)))
                (rbind (?of t' node) (\<lambda>rs. rbind (all_values rs) (n_of k)))"
          by (intro list_refines_bind of_ref [OF n] n_of_all_values_refines)
        then show ?thesis by (simp add: all any n)
      next
        case False
        then show ?thesis using all any
          by (auto simp: rbind_def [of "int_of_json _"] split: option.split json.split sum.split)
      qed
    qed
  qed
qed (auto simp: list_refines_def intro: list_all2_map_same)

lemmas eval_condition_refines = eval_condition_refines_aux(1)

end
