(* ===== verification/Observations.thy ===== *)
theory Observations
  imports Prelude
begin

text \<open>
  knowledge/runtime/observations.py: the governed input boundary. Caller-owned data is captured
  once as plain JSON, validated, decoded into typed observations, checked across objects, and put
  into the context the evaluator reads. The two JSON Schema validators come from the jsonschema
  package, so they are parameters: a predicate on JSON values that says the instance has no error.
  Where the schema fixes the type of a field (a string, an array of strings, a closed vocabulary)
  the decoder below refuses any other value, as the validator would have.
\<close>

section \<open>Vocabularies\<close>

datatype obs_state = O_OBSERVED | O_NOT_OBSERVED | O_UNKNOWN | O_AMBIGUOUS | O_NOT_APPLICABLE

datatype confidence = C_LOW | C_MEDIUM | C_HIGH

datatype polarity = POSITIVE | NEGATIVE

datatype structural_polarity = AFFIRMED | NEGATED

datatype attribution = FIRST_PARTY | REPORTED | QUOTED | HYPOTHETICAL

datatype mood = DIRECTIVE | DESCRIPTIVE | INTERROGATIVE

datatype verdict = LIVE | NON_LIVE | UNRESOLVED

definition MATCHED_STATES :: "(string \<times> obs_state) list" where
  "MATCHED_STATES = [(''OBSERVED'', O_OBSERVED), (''NOT_OBSERVED'', O_NOT_OBSERVED),
     (''UNKNOWN'', O_UNKNOWN), (''AMBIGUOUS'', O_AMBIGUOUS), (''NOT_APPLICABLE'', O_NOT_APPLICABLE)]"

definition CONFIDENCE_LEVELS :: "(string \<times> confidence) list" where
  "CONFIDENCE_LEVELS = [(''HIGH'', C_HIGH), (''MEDIUM'', C_MEDIUM), (''LOW'', C_LOW)]"

definition POLARITIES :: "(string \<times> polarity) list" where
  "POLARITIES = [(''POSITIVE'', POSITIVE), (''NEGATIVE'', NEGATIVE)]"

definition STRUCTURAL_POLARITIES :: "(string \<times> structural_polarity) list" where
  "STRUCTURAL_POLARITIES = [(''AFFIRMED'', AFFIRMED), (''NEGATED'', NEGATED)]"

definition ATTRIBUTIONS :: "(string \<times> attribution) list" where
  "ATTRIBUTIONS = [(''FIRST_PARTY'', FIRST_PARTY), (''REPORTED'', REPORTED),
     (''QUOTED'', QUOTED), (''HYPOTHETICAL'', HYPOTHETICAL)]"

definition MOODS :: "(string \<times> mood) list" where
  "MOODS = [(''DIRECTIVE'', DIRECTIVE), (''DESCRIPTIVE'', DESCRIPTIVE),
     (''INTERROGATIVE'', INTERROGATIVE)]"

lemmas vocabularies = MATCHED_STATES_def CONFIDENCE_LEVELS_def POLARITIES_def
  STRUCTURAL_POLARITIES_def ATTRIBUTIONS_def MOODS_def

section \<open>Capturing caller-owned data\<close>

text \<open>
  A Python value as \<open>_canonical_json_snapshot\<close> tells them apart: \<open>PSeq\<close> is a list or tuple, \<open>PMap\<close>
  any \<open>Mapping\<close> with its items in iteration order, \<open>PNonFinite\<close> a NaN or an infinity, \<open>POther\<close> a
  value of any other type.
\<close>

datatype pyval =
    PNone
  | PBool bool
  | PInt int
  | PFloat string
  | PNonFinite
  | PStr string
  | PSeq "pyval list"
  | PMap "(pyval \<times> pyval) list"
  | POther string

fun canonical_json_snapshot :: "pyval \<Rightarrow> json res"
and snapshot_items :: "(pyval \<times> pyval) list \<Rightarrow> json dict \<Rightarrow> json dict res" where
  "canonical_json_snapshot PNone = Inr JNull"
| "canonical_json_snapshot (PBool b) = Inr (JBool b)"
| "canonical_json_snapshot (PInt i) = Inr (JInt i)"
| "canonical_json_snapshot (PFloat t) = Inr (JFloat t)"
| "canonical_json_snapshot PNonFinite = Inl (ValueError ''non-finite number is not valid JSON'')"
| "canonical_json_snapshot (PStr s) = Inr (JStr s)"
| "canonical_json_snapshot (PSeq xs) =
     rbind (map_res canonical_json_snapshot xs) (\<lambda>js. Inr (JArr js))"
| "canonical_json_snapshot (PMap items) =
     rbind (snapshot_items items []) (\<lambda>kvs. Inr (JObj kvs))"
| "canonical_json_snapshot (POther t) = Inl (ValueError (''not JSON-compatible: '' @ t))"
| "snapshot_items [] out = Inr out"
| "snapshot_items ((k, v) # items) out =
     (case k of
        PStr key \<Rightarrow>
          rbind (canonical_json_snapshot v) (\<lambda>j. snapshot_items items (AList.update key j out))
      | _ \<Rightarrow> Inl (ValueError ''JSON object key must be a string''))"

text \<open>\<open>list(x)\<close>: a value that is not iterable raises \<open>TypeError\<close>.\<close>

fun py_list :: "pyval \<Rightarrow> pyval list res" where
  "py_list (PSeq xs) = Inr xs"
| "py_list (PStr s) = Inr (map (\<lambda>c. PStr [c]) s)"
| "py_list (PMap items) = Inr (map fst items)"
| "py_list _ = Inl (TypeError ''object is not iterable'')"

text \<open>The \<open>try\<close> around both snapshots turns that \<open>TypeError\<close> into a \<open>ValueError\<close>.\<close>

definition snapshot_list :: "pyval \<Rightarrow> json list res" where
  "snapshot_list v =
     (case py_list v of
        Inl (TypeError m) \<Rightarrow> Inl (ValueError (''governed observation input must be iterable: '' @ m))
      | Inl e \<Rightarrow> Inl e
      | Inr xs \<Rightarrow> map_res canonical_json_snapshot xs)"

section \<open>Typed projections\<close>

record indicator_observation =
  io_indicator :: string
  io_matched :: obs_state
  io_polarity :: "polarity option"
  io_confidence :: "confidence option"
  io_refs :: "string list"
  io_spans :: "json list"
  io_method :: "string option"
  io_input :: "string option"

record observation =
  ob_id :: string
  ob_status :: obs_state
  ob_source_input :: "string option"
  ob_polarity :: structural_polarity
  ob_attribution :: attribution
  ob_mood :: mood
  ob_type :: "string option"

definition require_str :: "string \<Rightarrow> json \<Rightarrow> string res" where
  "require_str k v =
     (case v of JStr s \<Rightarrow> Inr s | _ \<Rightarrow> Inl (ValueError (k @ '' must be a string'')))"

definition optional_str :: "json dict \<Rightarrow> string \<Rightarrow> string option res" where
  "optional_str d k =
     (case jget d k of JNull \<Rightarrow> Inr None | v \<Rightarrow> rbind (require_str k v) (\<lambda>s. Inr (Some s)))"

definition require_enum :: "(string \<times> 'a) list \<Rightarrow> string \<Rightarrow> json \<Rightarrow> 'a res" where
  "require_enum table k v =
     (case v of
        JStr s \<Rightarrow> (case map_of table s of Some a \<Rightarrow> Inr a | None \<Rightarrow> Inl (ValueError (''invalid '' @ k)))
      | _ \<Rightarrow> Inl (ValueError (''invalid '' @ k)))"

definition enum_or :: "(string \<times> 'a) list \<Rightarrow> 'a \<Rightarrow> json dict \<Rightarrow> string \<Rightarrow> 'a res" where
  "enum_or table dflt d k =
     (case map_of d k of None \<Rightarrow> Inr dflt | Some v \<Rightarrow> require_enum table k v)"

definition str_array :: "json \<Rightarrow> string list res" where
  "str_array v =
     (case v of
        JArr xs \<Rightarrow> map_res (require_str ''observation_refs'') xs
      | _ \<Rightarrow> if truthy v then Inl (ValueError ''observation_refs must be an array'') else Inr [])"

definition any_array :: "json \<Rightarrow> json list res" where
  "any_array v =
     (case v of
        JArr xs \<Rightarrow> Inr xs
      | _ \<Rightarrow> if truthy v then Inl (ValueError ''supporting_spans must be an array'') else Inr [])"

definition decode_confidence :: "json dict \<Rightarrow> confidence option res" where
  "decode_confidence d =
     (let conf = jget d ''confidence'';
          level = (case conf of JObj c \<Rightarrow> jget c ''level'' | _ \<Rightarrow> conf)
      in case level of
           JNull \<Rightarrow> Inr None
         | _ \<Rightarrow> rbind (require_enum CONFIDENCE_LEVELS ''confidence'' level) (\<lambda>c. Inr (Some c)))"

definition decode_polarity :: "json dict \<Rightarrow> polarity option" where
  "decode_polarity d =
     (case jget d ''polarity'' of JStr s \<Rightarrow> map_of POLARITIES s | _ \<Rightarrow> None)"

definition decode_indicator_observation :: "json dict \<Rightarrow> indicator_observation res" where
  "decode_indicator_observation d =
     (let iid = (if truthy (jget d ''indicator_id'') then jget d ''indicator_id'' else jget d ''id'') in
      rbind (decode_confidence d) (\<lambda>conf.
      rbind (case map_of d ''matched'' of
               None \<Rightarrow> Inl (KeyError ''matched'')
             | Some m \<Rightarrow> require_enum MATCHED_STATES ''matched state'' m) (\<lambda>m.
      rbind (require_str ''indicator_id'' iid) (\<lambda>i.
      rbind (str_array (jget d ''observation_refs'')) (\<lambda>refs.
      rbind (any_array (jget d ''supporting_spans'')) (\<lambda>spans.
      rbind (optional_str d ''extraction_method'') (\<lambda>meth.
      rbind (optional_str d ''input_id'') (\<lambda>inp.
        Inr \<lparr>io_indicator = i, io_matched = m, io_polarity = decode_polarity d,
             io_confidence = conf, io_refs = refs, io_spans = spans,
             io_method = meth, io_input = inp\<rparr>))))))))"

definition observation_from_dict :: "json dict \<Rightarrow> observation res" where
  "observation_from_dict d =
     rbind (case map_of d ''observation_id'' of
              None \<Rightarrow> Inl (KeyError ''observation_id'')
            | Some v \<Rightarrow> require_str ''observation_id'' v) (\<lambda>oid.
     rbind (enum_or MATCHED_STATES O_OBSERVED d ''status'') (\<lambda>st.
     rbind (optional_str d ''source_input_id'') (\<lambda>src.
     rbind (enum_or STRUCTURAL_POLARITIES AFFIRMED d ''polarity'') (\<lambda>pol.
     rbind (enum_or ATTRIBUTIONS FIRST_PARTY d ''attribution'') (\<lambda>att.
     rbind (enum_or MOODS DIRECTIVE d ''mood'') (\<lambda>md.
     rbind (optional_str d ''observation_type'') (\<lambda>ty.
       Inr \<lparr>ob_id = oid, ob_status = st, ob_source_input = src, ob_polarity = pol,
            ob_attribution = att, ob_mood = md, ob_type = ty\<rparr>)))))))"

section \<open>Structural verdict\<close>

text \<open>One backing observation: live only as an observed, affirmed, first-party, non-descriptive act.\<close>

definition observation_verdict :: "observation \<Rightarrow> verdict" where
  "observation_verdict o' =
     (if ob_status o' = O_UNKNOWN \<or> ob_status o' = O_AMBIGUOUS then UNRESOLVED
      else if ob_status o' = O_NOT_OBSERVED \<or> ob_status o' = O_NOT_APPLICABLE then NON_LIVE
      else if ob_polarity o' = NEGATED \<or> ob_attribution o' \<in> {REPORTED, QUOTED, HYPOTHETICAL} then NON_LIVE
      else if ob_polarity o' = AFFIRMED \<and> ob_attribution o' = FIRST_PARTY \<and> ob_mood o' \<noteq> DESCRIPTIVE
      then LIVE
      else NON_LIVE)"

text \<open>Conservative agreement over the references of one indicator occurrence.\<close>

definition structural_verdict :: "observation dict \<Rightarrow> indicator_observation \<Rightarrow> verdict" where
  "structural_verdict obs io =
     (let refs = io_refs io in
      if refs = [] then UNRESOLVED
      else
        let resolved = List.map_filter (map_of obs) refs in
        if length resolved \<noteq> length refs then UNRESOLVED
        else
          let verdicts = set (map observation_verdict resolved) in
          if verdicts = {LIVE} then LIVE
          else if verdicts = {NON_LIVE} then NON_LIVE
          else UNRESOLVED)"

section \<open>The evaluation context\<close>

record eval_context =
  cx_indicators :: "indicator_observation list"
  cx_observations :: "observation dict"
  cx_input :: "string option"
  cx_language :: string
  cx_script :: string
  cx_by_indicator :: "indicator_observation list dict"

definition observations_for :: "eval_context \<Rightarrow> string \<Rightarrow> indicator_observation list" where
  "observations_for ctx iid =
     (case map_of (cx_by_indicator ctx) iid of None \<Rightarrow> [] | Some ios \<Rightarrow> ios)"

definition present_indicator_ids :: "eval_context \<Rightarrow> string list" where
  "present_indicator_ids ctx = sorted_unique (dict_keys (cx_by_indicator ctx))"

text \<open>\<open>setdefault(k, []).append(x)\<close> over the occurrences.\<close>

definition group_by_indicator :: "indicator_observation list \<Rightarrow> indicator_observation list dict" where
  "group_by_indicator ios =
     foldl (\<lambda>d io. AList.update (io_indicator io)
        ((case map_of d (io_indicator io) of None \<Rightarrow> [] | Some g \<Rightarrow> g) @ [io]) d) [] ios"

fun decode_observations ::
    "(json \<Rightarrow> bool) \<Rightarrow> json list \<Rightarrow> observation dict \<Rightarrow> observation dict res" where
  "decode_observations ok [] out = Inr out"
| "decode_observations ok (raw # raws) out =
     (case raw of
        JObj d \<Rightarrow>
          rbind (guard (ok raw) (ValueError ''normalized observation fails schema'')) (\<lambda>_.
          rbind (observation_from_dict d) (\<lambda>o'.
          rbind (guard (map_of out (ob_id o') = None)
                   (ValueError (''duplicate normalized observation_id '' @ ob_id o'))) (\<lambda>_.
            decode_observations ok raws (AList.update (ob_id o') o' out))))
      | _ \<Rightarrow> Inl (ValueError ''normalized observation must be an object''))"

fun decode_indicators :: "(json \<Rightarrow> bool) \<Rightarrow> json list \<Rightarrow> indicator_observation list res" where
  "decode_indicators ok [] = Inr []"
| "decode_indicators ok (raw # raws) =
     (case raw of
        JObj d \<Rightarrow>
          rbind (guard (ok raw) (ValueError ''indicator observation fails schema'')) (\<lambda>_.
          rbind (decode_indicator_observation d) (\<lambda>io.
          rbind (decode_indicators ok raws) (\<lambda>ios. Inr (io # ios))))
      | _ \<Rightarrow> Inl (ValueError ''indicator observation must be an object''))"

definition input_ids :: "indicator_observation list \<Rightarrow> observation dict \<Rightarrow> string list" where
  "input_ids ios obs =
     sorted_unique (List.map_filter io_input ios @ List.map_filter (\<lambda>(_, o'). ob_source_input o') obs)"

text \<open>The checks on one reference of one occurrence, in the order of the loop body.\<close>

definition check_ref :: "observation dict \<Rightarrow> indicator_observation \<Rightarrow> string \<Rightarrow> unit res" where
  "check_ref obs io ref =
     (case map_of obs ref of
        None \<Rightarrow> Inl (ValueError ''dangling ref rejected'')
      | Some o' \<Rightarrow>
          rbind (guard (\<not> (io_input io \<noteq> None \<and> ob_source_input o' \<noteq> None \<and>
                           ob_source_input o' \<noteq> io_input io))
                   (ValueError ''cross-input reference'')) (\<lambda>_.
          guard (\<not> (io_matched io = O_OBSERVED \<and>
                    (ob_status o' = O_NOT_OBSERVED \<or> ob_status o' = O_NOT_APPLICABLE)))
            (ValueError ''contradictory governed pair'')))"

definition build_validated_context ::
    "(json \<Rightarrow> bool) \<Rightarrow> (json \<Rightarrow> bool) \<Rightarrow> pyval \<Rightarrow> pyval \<Rightarrow> string \<Rightarrow> string \<Rightarrow> eval_context res" where
  "build_validated_context io_ok obs_ok indicator_observations observations language script =
     rbind (snapshot_list indicator_observations) (\<lambda>ind_snapshot.
     rbind (snapshot_list observations) (\<lambda>obs_snapshot.
     rbind (decode_observations obs_ok obs_snapshot []) (\<lambda>obs.
     rbind (decode_indicators io_ok ind_snapshot) (\<lambda>ios.
     rbind (guard (length (input_ids ios obs) \<le> 1)
              (ValueError ''cross-input evidence forbidden'')) (\<lambda>_.
     rbind (map_res (\<lambda>io. map_res (check_ref obs io) (io_refs io)) ios) (\<lambda>_.
       Inr \<lparr>cx_indicators = ios, cx_observations = obs,
            cx_input = (case input_ids ios obs of [] \<Rightarrow> None | i # _ \<Rightarrow> Some i),
            cx_language = language, cx_script = script,
            cx_by_indicator = group_by_indicator ios\<rparr>))))))"

section \<open>Grouping keeps every occurrence\<close>

lemma group_fold:
  "map_of (foldl (\<lambda>d io. AList.update (io_indicator io)
      ((case map_of d (io_indicator io) of None \<Rightarrow> [] | Some g \<Rightarrow> g) @ [io]) d) d ios) i =
   (if filter (\<lambda>io. io_indicator io = i) ios = [] then map_of d i
    else Some ((case map_of d i of None \<Rightarrow> [] | Some g \<Rightarrow> g) @ filter (\<lambda>io. io_indicator io = i) ios))"
  by (induction ios arbitrary: d) (auto simp: map_of_update filter_empty_conv split: option.splits)

lemma map_of_group:
  "map_of (group_by_indicator ios) i =
     (case filter (\<lambda>io. io_indicator io = i) ios of [] \<Rightarrow> None | g \<Rightarrow> Some g)"
  by (simp add: group_by_indicator_def group_fold split: list.split)

lemma group_keys: "set (dict_keys (group_by_indicator ios)) = io_indicator ` set ios"
proof -
  have "set (dict_keys (group_by_indicator ios)) = dom (map_of (group_by_indicator ios))"
    by (simp add: dom_map_of_conv_image_fst)
  also have "\<dots> = {i. filter (\<lambda>io. io_indicator io = i) ios \<noteq> []}"
    by (auto simp: dom_def map_of_group split: list.splits)
  also have "\<dots> = io_indicator ` set ios" by (auto simp: filter_empty_conv)
  finally show ?thesis .
qed

section \<open>What a context guarantees\<close>

definition wf_context :: "eval_context \<Rightarrow> bool" where
  "wf_context ctx \<longleftrightarrow>
     cx_by_indicator ctx = group_by_indicator (cx_indicators ctx) \<and>
     length (input_ids (cx_indicators ctx) (cx_observations ctx)) \<le> 1 \<and>
     (\<forall>io\<in>set (cx_indicators ctx). \<forall>ref\<in>set (io_refs io). check_ref (cx_observations ctx) io ref = Inr ())"

lemma wf_context_build:
  "build_validated_context io_ok obs_ok inds obs lang scr = Inr ctx \<Longrightarrow> wf_context ctx"
  by (auto simp: build_validated_context_def wf_context_def rbind_eq_Inr map_res_Inr_iff
      list_all2_conv_all_nth in_set_conv_nth)

lemma observations_for_filter:
  "wf_context ctx \<Longrightarrow> observations_for ctx iid = filter (\<lambda>io. io_indicator io = iid) (cx_indicators ctx)"
  by (auto simp: wf_context_def observations_for_def map_of_group split: list.splits)

lemma present_ids_iff:
  "wf_context ctx \<Longrightarrow> iid \<in> set (present_indicator_ids ctx) \<longleftrightarrow> observations_for ctx iid \<noteq> []"
  using group_keys [of "cx_indicators ctx"]
  by (auto simp: observations_for_filter filter_empty_conv present_indicator_ids_def wf_context_def
      image_iff set_eq_iff)

lemma wf_context_ref:
  assumes "wf_context ctx" "io \<in> set (cx_indicators ctx)" "ref \<in> set (io_refs io)"
  obtains o' where "map_of (cx_observations ctx) ref = Some o'"
    "io_matched io = O_OBSERVED \<Longrightarrow> ob_status o' \<notin> {O_NOT_OBSERVED, O_NOT_APPLICABLE}"
    "io_input io \<noteq> None \<Longrightarrow> ob_source_input o' \<noteq> None \<Longrightarrow> ob_source_input o' = io_input io"
proof -
  have "check_ref (cx_observations ctx) io ref = Inr ()"
    using assms by (auto simp: wf_context_def)
  then show thesis
    by (cases "map_of (cx_observations ctx) ref")
      (auto simp: check_ref_def rbind_eq_Inr intro: that)
qed

section \<open>The verdict depends on the set of references only\<close>

lemma length_filter_all: "length (filter P xs) = length xs \<longleftrightarrow> (\<forall>x\<in>set xs. P x)"
  by (metis filter_True length_filter_less less_irrefl)

lemma map_filter_length:
  "length (List.map_filter f xs) = length xs \<longleftrightarrow> (\<forall>x\<in>set xs. f x \<noteq> None)"
  unfolding List.map_filter_def length_map by (rule length_filter_all)

lemma map_filter_set: "set (List.map_filter f xs) = {y. \<exists>x\<in>set xs. f x = Some y}"
  by (induction xs) (auto simp: List.map_filter_simps split: option.splits)

lemma image_single: "S \<noteq> {} \<Longrightarrow> g ` S = {v} \<longleftrightarrow> (\<forall>x\<in>S. g x = v)"
  by auto

lemma map_filter_agree:
  "xs \<noteq> [] \<and> length (List.map_filter f xs) = length xs \<and> g ` set (List.map_filter f xs) = {v} \<longleftrightarrow>
     xs \<noteq> [] \<and> (\<forall>x\<in>set xs. \<exists>y. f x = Some y \<and> g y = v)"
proof (cases "xs \<noteq> [] \<and> (\<forall>x\<in>set xs. f x \<noteq> None)")
  case True
  define h where "h x = the (f x)" for x
  have h: "f x = Some (h x)" if "x \<in> set xs" for x using True that by (simp add: h_def)
  have "(\<exists>x\<in>set xs. f x = Some y) \<longleftrightarrow> (\<exists>x\<in>set xs. y = h x)" for y
    by (rule bex_cong) (auto simp: h)
  then have img: "set (List.map_filter f xs) = h ` set xs"
    by (simp add: map_filter_set image_def)
  have "h ` set xs \<noteq> {}" using True by simp
  then have "g ` set (List.map_filter f xs) = {v} \<longleftrightarrow> (\<forall>x\<in>set xs. g (h x) = v)"
    unfolding img by (simp add: image_single)
  then show ?thesis using True by (simp add: map_filter_length h)
next
  case False
  then show ?thesis by (auto simp: map_filter_length)
qed

lemma structural_verdict_cases:
  "structural_verdict obs io = LIVE \<longleftrightarrow>
     io_refs io \<noteq> [] \<and> (\<forall>r\<in>set (io_refs io). \<exists>o'. map_of obs r = Some o' \<and> observation_verdict o' = LIVE)"
  "structural_verdict obs io = NON_LIVE \<longleftrightarrow>
     io_refs io \<noteq> [] \<and> (\<forall>r\<in>set (io_refs io). \<exists>o'. map_of obs r = Some o' \<and> observation_verdict o' = NON_LIVE)"
  unfolding map_filter_agree [symmetric] by (simp_all add: structural_verdict_def Let_def)

lemma structural_verdict_refs_set:
  "set (io_refs io) = set (io_refs io') \<Longrightarrow> structural_verdict obs io = structural_verdict obs io'"
  using structural_verdict_cases [of obs io] structural_verdict_cases [of obs io']
  by (cases "structural_verdict obs io"; cases "structural_verdict obs io'") auto

end
