(* ===== verification/Knowledge.thy ===== *)
theory Knowledge
  imports Prelude
begin

text \<open>
  knowledge/runtime/runtime_knowledge.py: the governed records of a published bundle and the
  read-only \<open>RuntimeKnowledge\<close> the detection stages consume. A record holds the fields the runtime
  reads. A field the code itself tests for its type (the condition trees, the language scope, the
  suppression metadata of a negative indicator) is a JSON value; the others have the type the
  loader's schema and shape checks establish.
\<close>

section \<open>Vocabularies\<close>

datatype kind = COMPOSITE | SUPPRESSION

datatype level = NONE | LOW | MEDIUM | HIGH | CRITICAL

datatype strength = NO_STRENGTH | WEAK | MODERATE | STRONG

datatype evidence_verdict = V_SUPPORTED | V_PARTIAL | V_HEURISTIC | V_UNSUPPORTED

datatype support_status =
    S_SUPPORTED | S_PARTIALLY_SUPPORTED | S_UNSUPPORTED | S_INSUFFICIENT_INFORMATION | S_ERROR

datatype classification =
    CL_NO_SCAM_PATTERN | CL_INSUFFICIENT_EVIDENCE | CL_SCAM_PATTERN_SUSPECTED
  | CL_SCAM_PATTERN_DETECTED | CL_UNSUPPORTED | CL_ERROR

datatype trigger =
    T_OVERRIDE string
  | T_RULE string
  | T_TAXONOMY string
  | T_NEGATIVE_INDICATOR string
  | T_RULE_VERIFICATION_POLICY
  | T_SYSTEM_CLASSIFICATION classification
  | T_SYSTEM_SUPPORT_STATUS support_status

instantiation level :: linorder
begin

fun level_rank :: "level \<Rightarrow> nat" where
  "level_rank NONE = 0"
| "level_rank LOW = 1"
| "level_rank MEDIUM = 2"
| "level_rank HIGH = 3"
| "level_rank CRITICAL = 4"

definition less_eq_level :: "level \<Rightarrow> level \<Rightarrow> bool" where
  "less_eq_level a b \<longleftrightarrow> level_rank a \<le> level_rank b"

definition less_level :: "level \<Rightarrow> level \<Rightarrow> bool" where
  "less_level a b \<longleftrightarrow> level_rank a < level_rank b"

instance
proof
  fix a b :: level
  assume "a \<le> b" "b \<le> a"
  then show "a = b" by (cases a; cases b) (simp_all add: less_eq_level_def)
qed (auto simp: less_eq_level_def less_level_def)

end

instantiation strength :: linorder
begin

fun strength_rank :: "strength \<Rightarrow> nat" where
  "strength_rank NO_STRENGTH = 0"
| "strength_rank WEAK = 1"
| "strength_rank MODERATE = 2"
| "strength_rank STRONG = 3"

definition less_eq_strength :: "strength \<Rightarrow> strength \<Rightarrow> bool" where
  "less_eq_strength a b \<longleftrightarrow> strength_rank a \<le> strength_rank b"

definition less_strength :: "strength \<Rightarrow> strength \<Rightarrow> bool" where
  "less_strength a b \<longleftrightarrow> strength_rank a < strength_rank b"

instance
proof
  fix a b :: strength
  assume "a \<le> b" "b \<le> a"
  then show "a = b" by (cases a; cases b) (simp_all add: less_eq_strength_def)
qed (auto simp: less_eq_strength_def less_strength_def)

end

lemmas level_order = less_eq_level_def less_level_def
lemmas strength_order = less_eq_strength_def less_strength_def

section \<open>Governed records\<close>

record source_reference =
  sr_source_id :: "string option"
  sr_issuing_body :: "string option"
  sr_authority :: "string option"
  sr_verification_status :: "string option"
  sr_quote :: "string option"
  sr_manual_class :: "string option"
  sr_manual_ids :: "string list"

record rule =
  ru_id :: string
  ru_rule_version :: "string option"
  ru_schema_version :: "string option"
  ru_name :: string
  ru_kind :: kind
  ru_status :: "string option"
  ru_scope :: json
  ru_logic :: json
  ru_taxonomy_refs :: "string list"
  ru_severity :: "level option"
  ru_verdict :: "evidence_verdict option"
  ru_severity_cap :: "level option"
  ru_sources :: "source_reference list"
  ru_plain :: "string option"
  ru_technical :: "string option"
  ru_why_limited :: "string option"
  ru_steps :: "string list"

record indicator =
  in_id :: string
  in_evidence_class :: "string option"
  in_strength :: "string option"
  in_polarity :: "string option"

record negative =
  ng_id :: string
  ng_status :: "string option"
  ng_effect :: json
  ng_category :: json
  ng_blockable :: json
  ng_cap :: json
  ng_families :: "string list"
  ng_targets :: "string list"
  ng_source_basis :: "string list"

record override =
  ov_id :: string
  ov_condition :: json
  ov_families :: "string list"
  ov_rules :: "string list"
  ov_blocks :: "string list option"

record family =
  fm_id :: string
  fm_outputs :: "string list"
  fm_negatives :: "string list"
  fm_overrides :: "string list"
  fm_dimensions :: "string list dict"

record subcategory =
  sc_id :: string
  sc_dimensions :: "string list dict"

record category =
  ca_id :: string
  ca_subs :: "subcategory list"

record source =
  so_id :: string
  so_evidence_ids :: "string list"

record evidence =
  ev_id :: string
  ev_source_id :: "string option"

record policy_entry =
  ap_id :: string
  ap_trigger :: trigger
  ap_action :: string
  ap_classes :: "classification list option"
  ap_evidence :: "string list"

text \<open>\<open>taxonomy_by_id\<close> holds category and subcategory nodes alike.\<close>

datatype taxonomy_node = Category category | Subcategory subcategory

section \<open>RuntimeKnowledge\<close>

record metadata =
  md_bundle_version :: string
  md_manifest_schema_version :: string
  md_content_digest :: string
  md_commit_sha :: string
  md_gate :: string
  md_component_versions :: "string dict"
  md_counts :: "int dict"

record runtime_knowledge =
  rk_meta :: metadata
  rules_by_id :: "rule dict"
  published_rules_by_id :: "rule dict"
  indicators_by_id :: "indicator dict"
  negative_indicators_by_id :: "negative dict"
  indicator_families_by_id :: "family dict"
  positive_indicators_by_family :: "string list dict"
  taxonomy_by_id :: "taxonomy_node dict"
  dimensions_by_id :: "string dict"
  sources_by_id :: "source dict"
  evidence_by_id :: "evidence dict"
  overrides_by_id :: "override dict"
  rules_by_indicator :: "string list dict"
  rules_by_category :: "string list dict"
  negative_indicators_by_rule :: "string list dict"
  overrides_by_indicator :: "string list dict"
  overrides_by_target :: "string list dict"
  action_policy_by_id :: "policy_entry dict"

text \<open>Point lookups: the record or \<open>None\<close>.\<close>

definition rk_rule :: "runtime_knowledge \<Rightarrow> string \<Rightarrow> rule option" where
  "rk_rule rk rid = map_of (rules_by_id rk) rid"

definition rk_published_rule :: "runtime_knowledge \<Rightarrow> string \<Rightarrow> rule option" where
  "rk_published_rule rk rid = map_of (published_rules_by_id rk) rid"

definition rk_indicator :: "runtime_knowledge \<Rightarrow> string \<Rightarrow> indicator option" where
  "rk_indicator rk iid = map_of (indicators_by_id rk) iid"

definition rk_negative :: "runtime_knowledge \<Rightarrow> string \<Rightarrow> negative option" where
  "rk_negative rk nid = map_of (negative_indicators_by_id rk) nid"

definition rk_family :: "runtime_knowledge \<Rightarrow> string \<Rightarrow> family option" where
  "rk_family rk fid = map_of (indicator_families_by_id rk) fid"

definition rk_override :: "runtime_knowledge \<Rightarrow> string \<Rightarrow> override option" where
  "rk_override rk oid = map_of (overrides_by_id rk) oid"

definition rk_taxonomy_node :: "runtime_knowledge \<Rightarrow> string \<Rightarrow> taxonomy_node option" where
  "rk_taxonomy_node rk tid = map_of (taxonomy_by_id rk) tid"

definition rk_source :: "runtime_knowledge \<Rightarrow> string \<Rightarrow> source option" where
  "rk_source rk sid = map_of (sources_by_id rk) sid"

definition rk_evidence :: "runtime_knowledge \<Rightarrow> string \<Rightarrow> evidence option" where
  "rk_evidence rk eid = map_of (evidence_by_id rk) eid"

definition action_policy_entries :: "runtime_knowledge \<Rightarrow> policy_entry list" where
  "action_policy_entries rk =
     List.map_filter (map_of (action_policy_by_id rk)) (sorted_unique (dict_keys (action_policy_by_id rk)))"

text \<open>Both halves are needed: the version pin and a populated index.\<close>

definition has_action_policy :: "runtime_knowledge \<Rightarrow> bool" where
  "has_action_policy rk \<longleftrightarrow>
     (case map_of (md_component_versions (rk_meta rk)) ''action_policy'' of
        None \<Rightarrow> False | Some v \<Rightarrow> v \<noteq> []) \<and> action_policy_by_id rk \<noteq> []"

definition action_policy_version :: "runtime_knowledge \<Rightarrow> string option" where
  "action_policy_version rk =
     (if has_action_policy rk then map_of (md_component_versions (rk_meta rk)) ''action_policy'' else None)"

definition rule_ids :: "runtime_knowledge \<Rightarrow> string list" where
  "rule_ids rk = sorted_unique (dict_keys (rules_by_id rk))"

definition published_rule_ids :: "runtime_knowledge \<Rightarrow> string list" where
  "published_rule_ids rk = sorted_unique (dict_keys (published_rules_by_id rk))"

definition published_rules :: "runtime_knowledge \<Rightarrow> rule list" where
  "published_rules rk = List.map_filter (rk_published_rule rk) (published_rule_ids rk)"

definition reverse_lookup :: "string list dict \<Rightarrow> string \<Rightarrow> string list" where
  "reverse_lookup idx k = (case map_of idx k of None \<Rightarrow> [] | Some ids \<Rightarrow> ids)"

definition rules_for_indicator :: "runtime_knowledge \<Rightarrow> string \<Rightarrow> string list" where
  "rules_for_indicator rk = reverse_lookup (rules_by_indicator rk)"

definition rules_for_category :: "runtime_knowledge \<Rightarrow> string \<Rightarrow> string list" where
  "rules_for_category rk = reverse_lookup (rules_by_category rk)"

definition negative_indicators_for_rule :: "runtime_knowledge \<Rightarrow> string \<Rightarrow> string list" where
  "negative_indicators_for_rule rk = reverse_lookup (negative_indicators_by_rule rk)"

definition indicators_for_family :: "runtime_knowledge \<Rightarrow> string \<Rightarrow> string list" where
  "indicators_for_family rk = reverse_lookup (positive_indicators_by_family rk)"

definition overrides_for_indicator :: "runtime_knowledge \<Rightarrow> string \<Rightarrow> string list" where
  "overrides_for_indicator rk = reverse_lookup (overrides_by_indicator rk)"

definition overrides_for_target :: "runtime_knowledge \<Rightarrow> string \<Rightarrow> string list" where
  "overrides_for_target rk = reverse_lookup (overrides_by_target rk)"

text \<open>\<open>str(rule.get("rule_version") or rule.get("schema_version") or "0.0.0")\<close>\<close>

definition nonempty :: "string option \<Rightarrow> string option" where
  "nonempty s = (case s of None \<Rightarrow> None | Some t \<Rightarrow> if t = [] then None else Some t)"

definition rule_version_text :: "rule \<Rightarrow> string" where
  "rule_version_text r =
     (case nonempty (ru_rule_version r) of
        Some v \<Rightarrow> v
      | None \<Rightarrow> (case nonempty (ru_schema_version r) of Some v \<Rightarrow> v | None \<Rightarrow> ''0.0.0''))"

section \<open>Consistent knowledge\<close>

text \<open>
  What the loader's index construction guarantees and the stages rely on: every record is filed
  under its own id, and the executable index holds exactly the PUBLISHED rules.
\<close>

definition wf_knowledge :: "runtime_knowledge \<Rightarrow> bool" where
  "wf_knowledge rk \<longleftrightarrow>
     (\<forall>(k, r)\<in>set (rules_by_id rk). ru_id r = k) \<and>
     (\<forall>k. rk_published_rule rk k =
        (case rk_rule rk k of
           Some r \<Rightarrow> if ru_status r = Some ''PUBLISHED'' then Some r else None
         | None \<Rightarrow> None))"

lemma wf_rule_id: "wf_knowledge rk \<Longrightarrow> rk_rule rk k = Some r \<Longrightarrow> ru_id r = k"
  by (auto simp: wf_knowledge_def rk_rule_def dest: map_of_SomeD)

lemma published_is_rule:
  "wf_knowledge rk \<Longrightarrow> rk_published_rule rk k = Some r \<longleftrightarrow>
     rk_rule rk k = Some r \<and> ru_status r = Some ''PUBLISHED''"
  by (auto simp: wf_knowledge_def split: option.splits)

lemma published_rule_ids_iff:
  "wf_knowledge rk \<Longrightarrow> k \<in> set (published_rule_ids rk) \<longleftrightarrow>
     (\<exists>r. rk_rule rk k = Some r \<and> ru_status r = Some ''PUBLISHED'')"
proof -
  assume wf: "wf_knowledge rk"
  have "k \<in> set (published_rule_ids rk) \<longleftrightarrow> rk_published_rule rk k \<noteq> None"
    by (simp add: published_rule_ids_def rk_published_rule_def map_of_eq_None_iff)
  then show ?thesis using published_is_rule [OF wf] by auto
qed

end
