(* ===== verification/Evaluator.thy ===== *)
theory Evaluator
  imports Conditions Observations Knowledge
begin

text \<open>
  knowledge/runtime/evaluator.py: the three-valued rule evaluator. The definitions follow the
  source's methods; \<open>self\<close> is the pair of the loaded knowledge and the evaluation profile. A rule
  result is the dict of rule-evaluation-result.schema.json as a record: an optional scalar key is
  an option, and a list key that is absent and one that is empty are both \<open>[]\<close>, because every
  reader of the result treats them alike (\<open>.get(k, ())\<close>).
\<close>

section \<open>Results\<close>

datatype state = MATCHED | NOT_MATCHED | INDETERMINATE | SUPPRESSED | NOT_APPLICABLE

datatype reason =
    R_observed_live | R_observed | R_not_observed | R_neutralised | R_structural_nonlive
  | R_associated_suppression | R_unresolved_suppression_association | R_ambiguous
  | R_unresolved_structure | R_polarity_mismatch | R_low_confidence | R_confidence_absent
  | R_unknown_extraction

fun reason_text :: "reason \<Rightarrow> string" where
  "reason_text R_observed_live = ''observed_live''"
| "reason_text R_observed = ''observed''"
| "reason_text R_not_observed = ''not_observed''"
| "reason_text R_neutralised = ''neutralised''"
| "reason_text R_structural_nonlive = ''structural_nonlive''"
| "reason_text R_associated_suppression = ''associated_suppression''"
| "reason_text R_unresolved_suppression_association = ''unresolved_suppression_association''"
| "reason_text R_ambiguous = ''ambiguous''"
| "reason_text R_unresolved_structure = ''unresolved_structure''"
| "reason_text R_polarity_mismatch = ''polarity_mismatch''"
| "reason_text R_low_confidence = ''low_confidence''"
| "reason_text R_confidence_absent = ''confidence_absent''"
| "reason_text R_unknown_extraction = ''unknown_extraction''"

text \<open>The \<open>suppression\<close> object: each key may be absent, and WP4 looks at which keys are present.\<close>

record suppression =
  su_suppressed_by :: "string option"
  su_effect :: "string option"
  su_applied :: "string list option"
  su_blocked :: "string list option"
  su_applied_caps :: "string list option"
  su_blocked_caps :: "string list option"
  su_caps_applied :: "level list option"
  su_context :: "string list option"

definition no_suppression :: suppression where
  "no_suppression = \<lparr>su_suppressed_by = None, su_effect = None, su_applied = None,
     su_blocked = None, su_applied_caps = None, su_blocked_caps = None,
     su_caps_applied = None, su_context = None\<rparr>"

record source_echo =
  ec_source_id :: "string option"
  ec_issuing_body :: "string option"
  ec_authority :: "string option"
  ec_verification_status :: "string option"
  ec_evidence_class :: "string option"
  ec_quote :: "string option"

record rule_result =
  rr_rule_id :: string
  rr_rule_version :: string
  rr_kind :: kind
  rr_state :: state
  rr_required :: kleene
  rr_matched_positive :: "string list"
  rr_classes :: "string list"
  rr_min_classes :: "int option"
  rr_diversity :: "bool option"
  rr_verdict :: "evidence_verdict option"
  rr_declared :: "level option"
  rr_effective :: "level option"
  rr_matched_negative :: "string list"
  rr_neutralised :: "string list"
  rr_overrides :: "string list"
  rr_suppression :: "suppression option"
  rr_confidence :: "confidence option dict"
  rr_refs :: "string list"
  rr_provenance :: "string list list dict"
  rr_ambiguities :: "string list"
  rr_unknowns :: "string list"
  rr_sources :: "source_echo list"
  rr_evidence_ids :: "string list"
  rr_fragment :: "(string option \<times> string option \<times> string option) option"
  rr_error :: "(string \<times> string) option"
  rr_governing :: "bool option"
  rr_governing_reason :: "string option"
  rr_strength :: "strength option"
  rr_detection_confidence :: "confidence option"

definition blank_result :: "string \<Rightarrow> string \<Rightarrow> kind \<Rightarrow> state \<Rightarrow> kleene \<Rightarrow> rule_result" where
  "blank_result rid rver k st req =
     \<lparr>rr_rule_id = rid, rr_rule_version = rver, rr_kind = k, rr_state = st, rr_required = req,
      rr_matched_positive = [], rr_classes = [], rr_min_classes = None, rr_diversity = None,
      rr_verdict = None, rr_declared = None, rr_effective = None, rr_matched_negative = [],
      rr_neutralised = [], rr_overrides = [], rr_suppression = None, rr_confidence = [],
      rr_refs = [], rr_provenance = [], rr_ambiguities = [], rr_unknowns = [], rr_sources = [],
      rr_evidence_ids = [], rr_fragment = None, rr_error = None, rr_governing = None,
      rr_governing_reason = None, rr_strength = None, rr_detection_confidence = None\<rparr>"

definition not_applicable :: "string \<Rightarrow> string \<Rightarrow> kind \<Rightarrow> string \<Rightarrow> string \<Rightarrow> rule_result" where
  "not_applicable rid rver k code message =
     (blank_result rid rver k NOT_APPLICABLE UNKNOWN)\<lparr>rr_error := Some (code, message)\<rparr>"

section \<open>Profile and ordinal helpers\<close>

fun conf_rank :: "confidence \<Rightarrow> nat" where
  "conf_rank C_LOW = 1"
| "conf_rank C_MEDIUM = 2"
| "conf_rank C_HIGH = 3"

record profile =
  pf_profile_id :: string
  pf_gate :: confidence
  pf_risk_matrix_id :: string
  pf_confidence_policy_id :: string

definition gate_rank :: "profile \<Rightarrow> nat" where
  "gate_rank pf = conf_rank (pf_gate pf)"

definition DEFAULT_PROFILE :: profile where
  "DEFAULT_PROFILE = \<lparr>pf_profile_id = ''mvp-default'', pf_gate = C_MEDIUM,
     pf_risk_matrix_id = ''risk-matrix-v1'', pf_confidence_policy_id = ''confidence-policy-v1''\<rparr>"

text \<open>\<open>SEVERITY_ORDER.index\<close>: \<open>NONE\<close> is not in the tuple.\<close>

definition SEVERITY_ORDER :: "level list" where
  "SEVERITY_ORDER = [LOW, MEDIUM, HIGH, CRITICAL]"

definition severity_index :: "level \<Rightarrow> nat res" where
  "severity_index l =
     (if l \<in> set SEVERITY_ORDER then Inr (level_rank l - 1) else Inl (ValueError ''not in tuple''))"

definition sev_min_base :: "level \<Rightarrow> level option \<Rightarrow> level res" where
  "sev_min_base a b =
     (case b of
        None \<Rightarrow> Inr a
      | Some b' \<Rightarrow>
          rbind (severity_index a) (\<lambda>i. rbind (severity_index b') (\<lambda>j.
            Inr (if i \<le> j then a else b'))))"

section \<open>The confidence gate and one occurrence\<close>

definition gate_single :: "profile \<Rightarrow> obs_state \<Rightarrow> confidence option \<Rightarrow> kleene \<times> reason" where
  "gate_single pf matched conf =
     (if matched = O_OBSERVED then
        (case conf of
           None \<Rightarrow> (UNKNOWN, R_confidence_absent)
         | Some c \<Rightarrow> if gate_rank pf \<le> conf_rank c then (TRUE, R_observed)
                     else (UNKNOWN, R_low_confidence))
      else if matched = O_NOT_OBSERVED \<or> matched = O_NOT_APPLICABLE then (FALSE, R_not_observed)
      else if matched = O_AMBIGUOUS then (UNKNOWN, R_ambiguous)
      else (UNKNOWN, R_unknown_extraction))"

text \<open>\<open>(associated, unresolved)\<close>: the loop stops at the first suppressor that shares a reference.\<close>

fun association_loop :: "string list \<Rightarrow> bool \<Rightarrow> indicator_observation list \<Rightarrow> bool \<times> bool" where
  "association_loop pos unresolved [] = (False, unresolved)"
| "association_loop pos unresolved (s # ss) =
     (if pos = [] \<or> io_refs s = [] then association_loop pos True ss
      else if set pos \<inter> set (io_refs s) \<noteq> {} then (True, unresolved)
      else association_loop pos unresolved ss)"

definition suppression_association ::
    "indicator_observation \<Rightarrow> indicator_observation list \<Rightarrow> bool \<times> bool" where
  "suppression_association positive suppressors = association_loop (io_refs positive) False suppressors"

text \<open>
  The body of the loop in \<open>_combine_positive\<close>: the occurrence's value and reason, and whether it
  was neutralised (by structure or by an associated suppressor).
\<close>

definition occurrence ::
    "profile \<Rightarrow> eval_context \<Rightarrow> indicator_observation list \<Rightarrow> indicator_observation \<Rightarrow> kleene \<times> reason \<times> bool" where
  "occurrence pf ctx suppressors io =
     (if io_polarity io \<noteq> None \<and> io_polarity io \<noteq> Some POSITIVE then
        (UNKNOWN, R_polarity_mismatch, False)
      else
        let (g, gr) = gate_single pf (io_matched io) (io_confidence io);
            s = structural_verdict (cx_observations ctx) io;
            (value, reason, neutral) =
              (if s = NON_LIVE then (FALSE, R_structural_nonlive, g \<noteq> FALSE)
               else if s = LIVE then (g, gr, False)
               else if g = FALSE then (FALSE, gr, False)
               else (UNKNOWN, R_unresolved_structure, False))
        in if value \<noteq> FALSE \<and> suppressors \<noteq> [] then
             let (associated, unresolved) = suppression_association io suppressors
             in if associated then (FALSE, R_associated_suppression, True)
                else if unresolved then (UNKNOWN, R_unresolved_suppression_association, neutral)
                else (value, reason, neutral)
           else (value, reason, neutral))"

definition positive_preference :: "reason list" where
  "positive_preference =
     [R_unresolved_suppression_association, R_ambiguous, R_unresolved_structure,
      R_polarity_mismatch, R_low_confidence, R_confidence_absent, R_unknown_extraction]"

definition negative_preference :: "reason list" where
  "negative_preference =
     [R_ambiguous, R_polarity_mismatch, R_low_confidence, R_confidence_absent, R_unknown_extraction]"

definition preferred :: "reason list \<Rightarrow> reason set \<Rightarrow> reason" where
  "preferred prefs rs =
     (case List.find (\<lambda>p. p \<in> rs) prefs of Some p \<Rightarrow> p | None \<Rightarrow> R_unknown_extraction)"

definition combine_positive ::
    "profile \<Rightarrow> eval_context \<Rightarrow> string \<Rightarrow> indicator_observation list
     \<Rightarrow> kleene \<times> reason \<times> bool \<times> string list list" where
  "combine_positive pf ctx iid suppressors =
     (let ios = observations_for ctx iid;
          occ = map (occurrence pf ctx suppressors) ios;
          neutral = list_ex (\<lambda>(_, _, n). n) occ;
          live = filter (\<lambda>io. fst (occurrence pf ctx suppressors io) = TRUE \<and> io_refs io \<noteq> []) ios;
          groups = sorted_unique (map (\<lambda>io. sorted_unique (io_refs io)) live);
          unknown_reasons = set (map (\<lambda>(_, r, _). r) (filter (\<lambda>(v, _, _). v = UNKNOWN) occ))
      in if list_ex (\<lambda>(v, _, _). v = TRUE) occ then (TRUE, R_observed_live, neutral, groups)
         else if unknown_reasons \<noteq> {} then
           (UNKNOWN, preferred positive_preference unknown_reasons, neutral, groups)
         else (FALSE, if neutral then R_neutralised else R_not_observed, neutral, groups))"

definition combine_negative :: "profile \<Rightarrow> indicator_observation list \<Rightarrow> kleene \<times> reason" where
  "combine_negative pf occs =
     (let gated = map (\<lambda>io. if io_polarity io \<noteq> None \<and> io_polarity io \<noteq> Some NEGATIVE
                           then (UNKNOWN, R_polarity_mismatch)
                           else gate_single pf (io_matched io) (io_confidence io)) occs;
          vals = set (map fst gated)
      in if TRUE \<in> vals then (TRUE, R_observed)
         else if UNKNOWN \<in> vals then
           (UNKNOWN, preferred negative_preference
                       (set (map snd (filter (\<lambda>(g, _). g = UNKNOWN) gated))))
         else (FALSE, R_not_observed))"

section \<open>Truth maps\<close>

type_synonym truth_map = "(kleene \<times> reason) dict"

definition positive_ids :: "runtime_knowledge \<Rightarrow> string list" where
  "positive_ids rk = dict_keys (indicators_by_id rk)"

definition negative_ids :: "runtime_knowledge \<Rightarrow> string list" where
  "negative_ids rk = dict_keys (negative_indicators_by_id rk)"

text \<open>The three maps \<open>_positive_truth_map\<close> fills: truth, neutralised ids, live provenance.\<close>

definition positive_truth_map ::
    "runtime_knowledge \<Rightarrow> profile \<Rightarrow> eval_context
     \<Rightarrow> truth_map \<times> string list \<times> string list list dict" where
  "positive_truth_map rk pf ctx =
     (let ids = filter (\<lambda>i. i \<in> set (positive_ids rk)) (present_indicator_ids ctx);
          entry = (\<lambda>i. combine_positive pf ctx i [])
      in (map (\<lambda>i. (i, case entry i of (v, r, _, _) \<Rightarrow> (v, r))) ids,
          filter (\<lambda>i. case entry i of (v, _, n, _) \<Rightarrow> v = FALSE \<and> n) ids,
          filter (\<lambda>(_, groups). groups \<noteq> [])
            (map (\<lambda>i. (i, case entry i of (_, _, _, g) \<Rightarrow> g)) ids)))"

definition negative_truth_map :: "runtime_knowledge \<Rightarrow> profile \<Rightarrow> eval_context \<Rightarrow> truth_map" where
  "negative_truth_map rk pf ctx =
     map (\<lambda>i. (i, combine_negative pf (observations_for ctx i)))
       (filter (\<lambda>i. i \<in> set (negative_ids rk)) (present_indicator_ids ctx))"

text \<open>The inner function \<open>truth\<close>: an absent operand is \<open>UNKNOWN\<close>, never \<open>FALSE\<close>.\<close>

definition truth :: "truth_map \<Rightarrow> string \<Rightarrow> kleene" where
  "truth m i = (case map_of m i of Some (v, _) \<Rightarrow> v | None \<Rightarrow> UNKNOWN)"

definition active_negatives :: "runtime_knowledge \<Rightarrow> profile \<Rightarrow> eval_context \<Rightarrow> string list" where
  "active_negatives rk pf ctx =
     map fst (filter (\<lambda>(_, v, _). v = TRUE) (negative_truth_map rk pf ctx))"

section \<open>Rule categories, scope and overrides\<close>

definition rule_categories :: "rule \<Rightarrow> string list" where
  "rule_categories r = sorted_unique (List.map_filter category_of (ru_taxonomy_refs r))"

text \<open>\<open>x in container\<close> for a string and a JSON container: a string container is searched for a substring.\<close>

fun is_prefix :: "string \<Rightarrow> string \<Rightarrow> bool" where
  "is_prefix [] ys = True"
| "is_prefix (x # xs) [] = False"
| "is_prefix (x # xs) (y # ys) = (x = y \<and> is_prefix xs ys)"

fun is_substring :: "string \<Rightarrow> string \<Rightarrow> bool" where
  "is_substring xs [] = (xs = [])"
| "is_substring xs (y # ys) = (is_prefix xs (y # ys) \<or> is_substring xs ys)"

fun member_of :: "string \<Rightarrow> json \<Rightarrow> bool res" where
  "member_of s (JArr xs) = Inr (JStr s \<in> set xs)"
| "member_of s (JStr t) = Inr (is_substring s t)"
| "member_of s (JObj kvs) = Inr (s \<in> set (map fst kvs))"
| "member_of s v = Inl (TypeError (type_name v @ '' is not a container''))"

definition language_in_scope :: "json dict \<Rightarrow> eval_context \<Rightarrow> bool res" where
  "language_in_scope scope ctx =
     (let langs = jget scope ''languages''; scripts = jget scope ''scripts'';
          base_lang = takeWhile (\<lambda>c. c \<noteq> CHR ''-'') (cx_language ctx)
      in if \<not> truthy langs \<and> \<not> truthy scripts then Inr True
         else rbind (if truthy langs then member_of base_lang langs else Inr True) (\<lambda>lang_ok.
              rbind (if truthy scripts then member_of (cx_script ctx) scripts else Inr True) (\<lambda>script_ok.
                Inr (lang_ok \<and> script_ok))))"

definition override_applies :: "override \<Rightarrow> string \<Rightarrow> string list \<Rightarrow> bool" where
  "override_applies ov rid cats \<longleftrightarrow>
     rid \<in> set (ov_rules ov) \<or> set cats \<inter> set (ov_families ov) \<noteq> {}"

text \<open>\<open>_active_overrides\<close>: the loop over the sorted override ids, with \<open>active\<close> and \<open>blocked\<close> as state.\<close>

fun overrides_loop ::
    "runtime_knowledge \<Rightarrow> string \<Rightarrow> string list \<Rightarrow> (string \<Rightarrow> kleene) \<Rightarrow> string list
     \<Rightarrow> string list \<Rightarrow> string list \<Rightarrow> (string list \<times> string list) res" where
  "overrides_loop rk rid cats t [] active blocked = Inr (active, blocked)"
| "overrides_loop rk rid cats t (oid # oids) active blocked =
     (case rk_override rk oid of
        None \<Rightarrow> Inl (KeyError oid)
      | Some ov \<Rightarrow>
          if override_applies ov rid cats then
            rbind (eval_condition t (ov_condition ov)) (\<lambda>v.
              if v = TRUE then
                overrides_loop rk rid cats t oids (active @ [oid])
                  (blocked @ (case ov_blocks ov of None \<Rightarrow> [] | Some cs \<Rightarrow> cs))
              else overrides_loop rk rid cats t oids active blocked)
          else overrides_loop rk rid cats t oids active blocked)"

definition active_overrides ::
    "runtime_knowledge \<Rightarrow> string \<Rightarrow> string list \<Rightarrow> (string \<Rightarrow> kleene) \<Rightarrow> (string list \<times> string list) res" where
  "active_overrides rk rid cats t =
     overrides_loop rk rid cats t (sorted_unique (dict_keys (overrides_by_id rk))) [] []"

definition negative_applies :: "runtime_knowledge \<Rightarrow> string \<Rightarrow> string list \<Rightarrow> bool" where
  "negative_applies rk nid cats =
     (case rk_negative rk nid of
        None \<Rightarrow> False
      | Some ng \<Rightarrow> ''*'' \<in> set (ng_families ng) \<or> set (ng_families ng) \<inter> set cats \<noteq> {})"

text \<open>\<open>v in frozenset(strings)\<close>: an unhashable value raises.\<close>

definition in_string_set :: "json \<Rightarrow> string list \<Rightarrow> bool res" where
  "in_string_set v cats =
     (if hashable v then Inr (\<exists>c\<in>set cats. v = JStr c)
      else Inl (TypeError (''unhashable type: '' @ type_name v)))"

section \<open>Suppressors\<close>

definition suppressor_blocked :: "negative \<Rightarrow> string list \<Rightarrow> string list \<Rightarrow> bool res" where
  "suppressor_blocked ng active blocked =
     (if active \<noteq> [] \<and> truthy (ng_blockable ng) then in_string_set (ng_category ng) blocked
      else Inr False)"

definition active_occurrences :: "profile \<Rightarrow> eval_context \<Rightarrow> string \<Rightarrow> indicator_observation list" where
  "active_occurrences pf ctx nid =
     filter (\<lambda>io. (io_polarity io = None \<or> io_polarity io = Some NEGATIVE) \<and>
                  fst (gate_single pf (io_matched io) (io_confidence io)) = TRUE)
       (observations_for ctx nid)"

definition extend_target ::
    "indicator_observation list \<Rightarrow> string \<Rightarrow> indicator_observation list dict
     \<Rightarrow> indicator_observation list dict" where
  "extend_target occs target d =
     AList.update target ((case map_of d target of None \<Rightarrow> [] | Some g \<Rightarrow> g) @ occs) d"

fun suppressors_loop ::
    "runtime_knowledge \<Rightarrow> profile \<Rightarrow> eval_context \<Rightarrow> string list \<Rightarrow> string list \<Rightarrow> string list
     \<Rightarrow> indicator_observation list dict \<Rightarrow> indicator_observation list dict res" where
  "suppressors_loop rk pf ctx active blocked [] targets = Inr targets"
| "suppressors_loop rk pf ctx active blocked (nid # nids) targets =
     (case rk_negative rk nid of
        None \<Rightarrow> suppressors_loop rk pf ctx active blocked nids targets
      | Some ng \<Rightarrow>
          if ng_effect ng \<noteq> JStr ''SUPPRESS_INDICATOR''
          then suppressors_loop rk pf ctx active blocked nids targets
          else rbind (suppressor_blocked ng active blocked) (\<lambda>b.
            if b then suppressors_loop rk pf ctx active blocked nids targets
            else suppressors_loop rk pf ctx active blocked nids
                   (fold (extend_target (active_occurrences pf ctx nid)) (ng_targets ng) targets)))"

definition active_suppressor_occurrences ::
    "runtime_knowledge \<Rightarrow> profile \<Rightarrow> eval_context \<Rightarrow> string list \<Rightarrow> string list \<Rightarrow> string list
     \<Rightarrow> indicator_observation list dict res" where
  "active_suppressor_occurrences rk pf ctx matched_negative active blocked =
     suppressors_loop rk pf ctx active blocked matched_negative []"

text \<open>The body of step 3 of \<open>_evaluate_composite\<close>: one target of the executed suppression.\<close>

definition suppress_target ::
    "profile \<Rightarrow> eval_context \<Rightarrow> string \<Rightarrow> indicator_observation list
     \<Rightarrow> truth_map \<times> string list \<times> string list list dict
     \<Rightarrow> truth_map \<times> string list \<times> string list list dict" where
  "suppress_target pf ctx tgt suppressors st =
     (case st of (pos_truth, neutralised, live_prov) \<Rightarrow>
        if map_of pos_truth tgt = None then st
        else
          let (v, r, neutral, groups) = combine_positive pf ctx tgt suppressors in
          (AList.update tgt (v, r) pos_truth,
           (if v = FALSE \<and> neutral then neutralised @ [tgt]
            else if v \<noteq> FALSE then filter (\<lambda>n. n \<noteq> tgt) neutralised
            else neutralised),
           (if groups \<noteq> [] then AList.update tgt groups live_prov else AList.delete tgt live_prov)))"

definition execute_suppression ::
    "profile \<Rightarrow> eval_context \<Rightarrow> indicator_observation list dict
     \<Rightarrow> truth_map \<times> string list \<times> string list list dict
     \<Rightarrow> truth_map \<times> string list \<times> string list list dict" where
  "execute_suppression pf ctx targets st =
     fold (\<lambda>tgt. suppress_target pf ctx tgt (case map_of targets tgt of None \<Rightarrow> [] | Some s \<Rightarrow> s))
       (sorted_unique (dict_keys targets)) st"

fun candidates_loop ::
    "runtime_knowledge \<Rightarrow> string list \<Rightarrow> bool \<Rightarrow> string list \<Rightarrow> string list \<Rightarrow> string list
     \<Rightarrow> (string list \<times> string list) res" where
  "candidates_loop rk blocked_cats ov_active [] blocked ctx_only = Inr (blocked, ctx_only)"
| "candidates_loop rk blocked_cats ov_active (nid # nids) blocked ctx_only =
     (case rk_negative rk nid of
        None \<Rightarrow> candidates_loop rk blocked_cats ov_active nids blocked ctx_only
      | Some ng \<Rightarrow>
          if ng_effect ng = JStr ''CONTEXT_ONLY''
          then candidates_loop rk blocked_cats ov_active nids blocked (ctx_only @ [nid])
          else if ov_active \<and> ng_effect ng \<in> {JStr ''SUPPRESS_RULE'', JStr ''CAP_SEVERITY''} then
            rbind (in_string_set (ng_category ng) blocked_cats) (\<lambda>b.
              candidates_loop rk blocked_cats ov_active nids
                (if b then blocked @ [nid] else blocked) ctx_only)
          else candidates_loop rk blocked_cats ov_active nids blocked ctx_only)"

definition suppression_candidates ::
    "runtime_knowledge \<Rightarrow> string list \<Rightarrow> string list \<Rightarrow> bool \<Rightarrow> suppression option res" where
  "suppression_candidates rk matched_negative blocked_cats ov_active =
     rbind (candidates_loop rk blocked_cats ov_active matched_negative [] []) (\<lambda>(blocked, ctx_only).
       Inr (if blocked = [] \<and> ctx_only = [] then None
            else Some (no_suppression
              \<lparr>su_blocked := (if blocked = [] then None else Some (sort blocked)),
               su_context := (if ctx_only = [] then None else Some (sort ctx_only))\<rparr>)))"

section \<open>Small helpers\<close>

text \<open>The ledger of decisive operands that stayed unknown: \<open>(ambiguities, unknowns)\<close>.\<close>

definition uncertainty_entry :: "string \<Rightarrow> reason \<Rightarrow> string + string" where
  "uncertainty_entry o' r =
     (if r = R_ambiguous then Inl (o' @ '': decisive operand AMBIGUOUS'')
      else if r = R_unresolved_structure then
        Inl (o' @ '': decisive operand occurrence association unresolved (live vs negated/reported cannot be established)'')
      else if r = R_unresolved_suppression_association then
        Inl (o' @ '': decisive suppression occurrence association unresolved'')
      else if r = R_polarity_mismatch then
        Inl (o' @ '': decisive operand polarity mismatch vs registry'')
      else Inr (o' @ '': decisive operand UNKNOWN ('' @ reason_text r @ '')''))"

definition uncertainty :: "string list \<Rightarrow> truth_map \<Rightarrow> string list \<times> string list" where
  "uncertainty pos_operands pos_truth =
     (let entries = List.map_filter (\<lambda>o'. case map_of pos_truth o' of
              Some (v, r) \<Rightarrow> if v = UNKNOWN then Some (uncertainty_entry o' r) else None
            | None \<Rightarrow> None) pos_operands
      in (sort (List.map_filter (\<lambda>e. case e of Inl a \<Rightarrow> Some a | Inr _ \<Rightarrow> None) entries),
          sort (List.map_filter (\<lambda>e. case e of Inl _ \<Rightarrow> None | Inr u \<Rightarrow> Some u) entries)))"

text \<open>\<open>max(levels, key=rank)\<close> keeps the first of the highest rank; \<open>None\<close> stands for \<open>"UNKNOWN"\<close>.\<close>

fun max_conf :: "confidence \<Rightarrow> confidence list \<Rightarrow> confidence" where
  "max_conf m [] = m"
| "max_conf m (c # cs) = max_conf (if conf_rank m < conf_rank c then c else m) cs"

definition representative_confidence :: "indicator_observation list \<Rightarrow> confidence option" where
  "representative_confidence occs =
     (case List.map_filter (\<lambda>o'. if io_matched o' = O_OBSERVED then io_confidence o' else None) occs of
        [] \<Rightarrow> None | c # cs \<Rightarrow> Some (max_conf c cs))"

definition extraction_confidence_inputs ::
    "string list \<Rightarrow> eval_context \<Rightarrow> confidence option dict" where
  "extraction_confidence_inputs pos_operands ctx =
     map (\<lambda>o'. (o', representative_confidence (observations_for ctx o')))
       (filter (\<lambda>o'. observations_for ctx o' \<noteq> []) (sorted_unique pos_operands))"

definition collect_refs :: "string list \<Rightarrow> string list \<Rightarrow> eval_context \<Rightarrow> string list" where
  "collect_refs pos_operands matched_negative ctx =
     sorted_unique (concat (map (\<lambda>i. concat (map io_refs (observations_for ctx i)))
       (pos_operands @ matched_negative)))"

definition echo_source :: "source_reference \<Rightarrow> source_echo" where
  "echo_source ref =
     \<lparr>ec_source_id = sr_source_id ref, ec_issuing_body = sr_issuing_body ref,
      ec_authority = nonempty (sr_authority ref), ec_verification_status = sr_verification_status ref,
      ec_evidence_class = nonempty (sr_manual_class ref), ec_quote = nonempty (sr_quote ref)\<rparr>"

definition attach_match_provenance :: "rule_result \<Rightarrow> rule \<Rightarrow> rule_result" where
  "attach_match_provenance result r =
     (let frag = (nonempty (ru_plain r), nonempty (ru_technical r), nonempty (ru_why_limited r))
      in result\<lparr>rr_sources := map echo_source (ru_sources r),
                rr_evidence_ids := sorted_unique (concat (map sr_manual_ids (ru_sources r))),
                rr_fragment := (if frag = (None, None, None) then None else Some frag)\<rparr>)"

end
