(* ===== verification/RuleEvaluation.thy ===== *)
theory RuleEvaluation
  imports Evaluator
begin

text \<open>
  knowledge/runtime/evaluator.py, the rule level: the composite and the suppression path, the
  per-rule isolation, the lifecycle gate and the public entry points. Each definition is the
  method of the same name; a raised exception is \<open>Inl\<close>, and \<open>run_isolated\<close> is where it becomes a
  \<open>NOT_APPLICABLE\<close> result.
\<close>

section \<open>The composite path\<close>

definition min_evidence_classes :: "json dict \<Rightarrow> int res" where
  "min_evidence_classes logic =
     (case map_of logic ''min_evidence_classes'' of None \<Rightarrow> Inr 2 | Some v \<Rightarrow> int_of_json v)"

text \<open>Step 6: the state from the required combination and the class diversity.\<close>

definition composite_state :: "kleene \<Rightarrow> bool \<Rightarrow> state" where
  "composite_state required diversity_met =
     (if required = TRUE then (if diversity_met then MATCHED else NOT_MATCHED)
      else if required = FALSE then NOT_MATCHED
      else INDETERMINATE)"

definition evidence_classes_of :: "runtime_knowledge \<Rightarrow> string list \<Rightarrow> string list" where
  "evidence_classes_of rk matched_positive =
     sorted_unique (List.map_filter
       (\<lambda>o'. case rk_indicator rk o' of None \<Rightarrow> None | Some i \<Rightarrow> nonempty (in_evidence_class i))
       matched_positive)"

text \<open>Step 3: the active negatives that apply to the rule, and the executed suppression.\<close>

definition matched_negatives ::
    "runtime_knowledge \<Rightarrow> profile \<Rightarrow> eval_context \<Rightarrow> string list \<Rightarrow> string list" where
  "matched_negatives rk pf ctx cats =
     sort (filter (\<lambda>n. negative_applies rk n cats) (active_negatives rk pf ctx))"

definition effective_of :: "rule \<Rightarrow> level option res" where
  "effective_of r =
     (case ru_severity r of
        None \<Rightarrow> Inr None
      | Some d \<Rightarrow> rbind (sev_min_base d (ru_severity_cap r)) (\<lambda>l. Inr (Some l)))"

definition evaluate_composite ::
    "runtime_knowledge \<Rightarrow> profile \<Rightarrow> rule \<Rightarrow> string \<Rightarrow> string \<Rightarrow> eval_context \<Rightarrow> rule_result res" where
  "evaluate_composite rk pf r rid rver ctx =
     (case ru_logic r of
        JObj logic \<Rightarrow>
          let require = jget logic ''require''; cats = rule_categories r in
          rbind (min_evidence_classes logic) (\<lambda>min_classes.
          let raw = positive_truth_map rk pf ctx in
          rbind (active_overrides rk rid cats (truth (fst raw))) (\<lambda>(active, blocked).
          let matched_negative = matched_negatives rk pf ctx cats in
          rbind (active_suppressor_occurrences rk pf ctx matched_negative active blocked) (\<lambda>targets.
          let (pos_truth, neutralised, live_prov) = execute_suppression pf ctx targets raw;
              t = truth pos_truth in
          rbind (eval_condition t require) (\<lambda>required.
          rbind (operands require) (\<lambda>ops.
          let pos_operands = filter (\<lambda>o'. o' \<in> set (positive_ids rk)) (sorted_unique ops);
              matched_positive = sort (filter (\<lambda>o'. t o' = TRUE) pos_operands);
              classes = evidence_classes_of rk matched_positive;
              diversity_met = (min_classes \<le> int (length classes));
              st = composite_state required diversity_met;
              (ambiguities, unknowns) = uncertainty pos_operands pos_truth in
          rbind (suppression_candidates rk matched_negative blocked (active \<noteq> [])) (\<lambda>supp.
          rbind (effective_of r) (\<lambda>effective.
          let result = (blank_result rid rver COMPOSITE st required)
                \<lparr>rr_matched_positive := matched_positive, rr_classes := classes,
                 rr_min_classes := Some min_classes, rr_diversity := Some diversity_met,
                 rr_verdict := ru_verdict r, rr_declared := ru_severity r,
                 rr_effective := effective, rr_matched_negative := matched_negative,
                 rr_neutralised := sorted_unique neutralised, rr_overrides := active,
                 rr_suppression := supp,
                 rr_confidence := extraction_confidence_inputs pos_operands ctx,
                 rr_refs := collect_refs pos_operands matched_negative ctx,
                 rr_provenance := List.map_filter (\<lambda>o'. case map_of live_prov o' of
                     Some groups \<Rightarrow> if groups = [] then None else Some (o', groups)
                   | None \<Rightarrow> None) matched_positive,
                 rr_ambiguities := ambiguities, rr_unknowns := unknowns\<rparr>
          in Inr (if st = MATCHED then attach_match_provenance result r else result))))))))
      | _ \<Rightarrow> Inl (EvaluatorError (''rule '' @ rid @ '': 'logic' must be an object'')))"

section \<open>The suppression path\<close>

fun state_of_truth :: "kleene \<Rightarrow> state" where
  "state_of_truth TRUE = MATCHED"
| "state_of_truth FALSE = NOT_MATCHED"
| "state_of_truth UNKNOWN = INDETERMINATE"

definition evaluate_suppression ::
    "runtime_knowledge \<Rightarrow> profile \<Rightarrow> rule \<Rightarrow> string \<Rightarrow> string \<Rightarrow> eval_context \<Rightarrow> rule_result res" where
  "evaluate_suppression rk pf r rid rver ctx =
     (case ru_logic r of
        JObj logic \<Rightarrow>
          let require = jget logic ''require'';
              t = truth (negative_truth_map rk pf ctx) in
          rbind (eval_condition t require) (\<lambda>required.
          rbind (operands require) (\<lambda>ops.
          let st = state_of_truth required;
              matched_negative = filter (\<lambda>o'. t o' = TRUE) (sorted_unique ops);
              result = (blank_result rid rver SUPPRESSION st required)
                \<lparr>rr_verdict := ru_verdict r, rr_matched_negative := matched_negative,
                 rr_refs := collect_refs [] matched_negative ctx\<rparr>
          in Inr (if st = MATCHED then attach_match_provenance result r else result)))
      | _ \<Rightarrow> Inl (EvaluatorError (''rule '' @ rid @ '': 'logic' must be an object'')))"

section \<open>Isolation and the entry points\<close>

text \<open>
  The body of the \<open>try\<close> in \<open>_run_isolated\<close>, and its two handlers: an \<open>EvaluatorError\<close> or a
  per-rule fault becomes the rule's \<open>NOT_APPLICABLE\<close> result, anything else propagates.
\<close>

definition evaluate_rule_body ::
    "runtime_knowledge \<Rightarrow> profile \<Rightarrow> rule \<Rightarrow> string \<Rightarrow> string \<Rightarrow> kind \<Rightarrow> eval_context \<Rightarrow> rule_result res" where
  "evaluate_rule_body rk pf r rid rver k ctx =
     (case ru_scope r of
        JObj scope \<Rightarrow>
          rbind (language_in_scope scope ctx) (\<lambda>ok.
            if \<not> ok then
              Inr (not_applicable rid rver k ''LANGUAGE_OUT_OF_SCOPE'' ''input outside rule language_scope'')
            else if k = SUPPRESSION then evaluate_suppression rk pf r rid rver ctx
            else evaluate_composite rk pf r rid rver ctx)
      | _ \<Rightarrow> Inl (EvaluatorError (''rule '' @ rid @ '': 'language_scope' must be an object'')))"

definition run_isolated ::
    "runtime_knowledge \<Rightarrow> profile \<Rightarrow> rule \<Rightarrow> string \<Rightarrow> string \<Rightarrow> kind \<Rightarrow> eval_context \<Rightarrow> rule_result res" where
  "run_isolated rk pf r rid rver k ctx =
     (case evaluate_rule_body rk pf r rid rver k ctx of
        Inr res \<Rightarrow> Inr res
      | Inl (EvaluatorError m) \<Rightarrow> Inr (not_applicable rid rver k ''RULE_EVALUATION_ERROR'' m)
      | Inl e \<Rightarrow>
          if per_rule_fault e
          then Inr (not_applicable rid rver k ''RULE_EVALUATION_ERROR'' (exc_text e))
          else Inl e)"

definition evaluate_validated ::
    "runtime_knowledge \<Rightarrow> profile \<Rightarrow> string \<Rightarrow> eval_context \<Rightarrow> rule_result res" where
  "evaluate_validated rk pf rule_id ctx =
     (case rk_rule rk rule_id of
        None \<Rightarrow> Inr (not_applicable rule_id ''0.0.0'' COMPOSITE ''RULE_NOT_FOUND''
                       (''no rule '' @ rule_id @ '' in RuntimeKnowledge''))
      | Some r \<Rightarrow>
          if ru_status r \<noteq> Some ''PUBLISHED'' then
            Inr (not_applicable rule_id (rule_version_text r) (ru_kind r) ''RULE_NOT_PUBLISHED''
                   (''rule '' @ rule_id @ '' is not PUBLISHED (not executable live)''))
          else run_isolated rk pf r (ru_id r) (rule_version_text r) (ru_kind r) ctx)"

definition evaluate_rules_from_governed ::
    "(json \<Rightarrow> bool) \<Rightarrow> (json \<Rightarrow> bool) \<Rightarrow> runtime_knowledge \<Rightarrow> profile \<Rightarrow> pyval \<Rightarrow> pyval
     \<Rightarrow> string \<Rightarrow> string \<Rightarrow> rule_result list res" where
  "evaluate_rules_from_governed io_ok obs_ok rk pf inds obs language script =
     rbind (build_validated_context io_ok obs_ok inds obs language script) (\<lambda>ctx.
       map_res (\<lambda>rid. evaluate_validated rk pf rid ctx) (published_rule_ids rk))"

definition evaluate_rule_from_governed ::
    "(json \<Rightarrow> bool) \<Rightarrow> (json \<Rightarrow> bool) \<Rightarrow> runtime_knowledge \<Rightarrow> profile \<Rightarrow> pyval \<Rightarrow> pyval \<Rightarrow> pyval
     \<Rightarrow> string \<Rightarrow> string \<Rightarrow> rule_result res" where
  "evaluate_rule_from_governed io_ok obs_ok rk pf rule_id inds obs language script =
     (case rule_id of
        PStr rid \<Rightarrow>
          rbind (build_validated_context io_ok obs_ok inds obs language script)
            (evaluate_validated rk pf rid)
      | _ \<Rightarrow> Inl (TypeError ''requires a governed rule id (str)''))"

definition evaluate_on_promotion_from_governed ::
    "(json \<Rightarrow> bool) \<Rightarrow> (json \<Rightarrow> bool) \<Rightarrow> runtime_knowledge \<Rightarrow> profile \<Rightarrow> pyval \<Rightarrow> pyval \<Rightarrow> pyval
     \<Rightarrow> string \<Rightarrow> string \<Rightarrow> rule_result res" where
  "evaluate_on_promotion_from_governed io_ok obs_ok rk pf rule_id inds obs language script =
     (case rule_id of
        PStr rid \<Rightarrow>
          rbind (build_validated_context io_ok obs_ok inds obs language script) (\<lambda>ctx.
            case rk_rule rk rid of
              None \<Rightarrow> Inr (not_applicable rid ''0.0.0'' COMPOSITE ''RULE_NOT_FOUND''
                             (''no rule '' @ rid @ '' in RuntimeKnowledge''))
            | Some r \<Rightarrow> run_isolated rk pf r (ru_id r) (rule_version_text r) (ru_kind r) ctx)
      | _ \<Rightarrow> Inl (TypeError ''requires a governed rule id (str)''))"

end
