(* ===== verification/Stage.thy ===== *)
theory Stage
  imports Evaluator
begin

text \<open>
  The contract the per-rule stages share. A stage maps one input to one rule result, never raises,
  and is run over a batch by a plain loop; so one bad element cannot take the batch down or change
  what the others get. A rule stage additionally keeps the identity of the rule and the combination
  truth the evaluator computed. The evaluator (RuleEvaluation) and the suppression executor
  (Suppression) are the two providers.
\<close>

locale isolated_stage =
  fixes stage :: "'a \<Rightarrow> rule_result res"
  assumes total: "\<exists>r. stage x = Inr r"
begin

definition value_of :: "'a \<Rightarrow> rule_result" where
  "value_of x = projr (stage x)"

lemma stage_value: "stage x = Inr (value_of x)"
  using total [of x] by (auto simp: value_of_def)

lemma batch: "map_res stage xs = Inr (map value_of xs)"
  by (rule map_res_Inr_all) (rule stage_value)

lemma batch_total: "\<exists>rs. map_res stage xs = Inr rs \<and> length rs = length xs"
  by (simp add: batch)

lemma batch_nth: "map_res stage xs = Inr rs \<Longrightarrow> i < length xs \<Longrightarrow> stage (xs ! i) = Inr (rs ! i)"
  by (auto simp: batch stage_value)

lemma batch_isolated:
  "map_res stage xs = Inr rs \<Longrightarrow> map_res stage (xs[i := y]) = Inr rs' \<Longrightarrow> j < length xs \<Longrightarrow> j \<noteq> i \<Longrightarrow>
     rs' ! j = rs ! j"
  by (auto simp: batch)

end

locale rule_stage = isolated_stage stage for stage :: "rule_result \<Rightarrow> rule_result res" +
  assumes keeps: "stage r = Inr r' \<Longrightarrow>
    rr_rule_id r' = rr_rule_id r \<and> rr_rule_version r' = rr_rule_version r \<and>
    rr_kind r' = rr_kind r \<and> rr_required r' = rr_required r"
begin

lemma value_keeps:
  "rr_rule_id (value_of r) = rr_rule_id r" "rr_rule_version (value_of r) = rr_rule_version r"
  "rr_kind (value_of r) = rr_kind r" "rr_required (value_of r) = rr_required r"
  using keeps [OF stage_value, of r] by simp_all

lemma batch_ids: "map_res stage xs = Inr rs \<Longrightarrow> map rr_rule_id rs = map rr_rule_id xs"
  by (auto simp: batch value_keeps)

lemma batch_required: "map_res stage xs = Inr rs \<Longrightarrow> map rr_required rs = map rr_required xs"
  by (auto simp: batch value_keeps)

end

end
