(* ===== verification/Suppression.thy ===== *)
theory Suppression
  imports RuleEvaluation Stage
begin

text \<open>
  knowledge/runtime/suppression.py: the executor of the rule-level effects on evaluator results.
  A result is the typed record of Evaluator; the checks of the source that only establish that a
  field has the type of that record are not repeated. What the code tests beyond the types (the
  suppression metadata of a negative indicator, the categories an override blocks, which keys the
  incoming suppression object carries) is modelled in full.
\<close>

section \<open>Canonical representation\<close>

definition canonicalize_suppression :: "suppression \<Rightarrow> suppression" where
  "canonicalize_suppression su =
     su\<lparr>su_applied := map_option sorted_unique (su_applied su),
        su_applied_caps := map_option sorted_unique (su_applied_caps su),
        su_blocked_caps := map_option sorted_unique (su_blocked_caps su),
        su_blocked := map_option sorted_unique (su_blocked su),
        su_context := map_option sorted_unique (su_context su),
        su_caps_applied := (case su_caps_applied su of
            None \<Rightarrow> None
          | Some cs \<Rightarrow> if set cs \<subseteq> {LOW, MEDIUM, HIGH} then Some (sorted_unique cs) else Some cs)\<rparr>"

definition canonicalize_result :: "rule_result \<Rightarrow> rule_result" where
  "canonicalize_result r =
     r\<lparr>rr_matched_positive := sorted_unique (rr_matched_positive r),
       rr_matched_negative := sorted_unique (rr_matched_negative r),
       rr_overrides := sorted_unique (rr_overrides r),
       rr_neutralised := sorted_unique (rr_neutralised r),
       rr_classes := sorted_unique (rr_classes r),
       rr_refs := sorted_unique (rr_refs r),
       rr_ambiguities := sorted_unique (rr_ambiguities r),
       rr_unknowns := sorted_unique (rr_unknowns r),
       rr_evidence_ids := sorted_unique (rr_evidence_ids r),
       rr_suppression := map_option canonicalize_suppression (rr_suppression r)\<rparr>"

section \<open>The input boundary\<close>

definition has_wp5_fields :: "rule_result \<Rightarrow> bool" where
  "has_wp5_fields r \<longleftrightarrow> rr_governing r \<noteq> None \<or> rr_governing_reason r \<noteq> None \<or>
     rr_strength r \<noteq> None \<or> rr_detection_confidence r \<noteq> None"

definition has_wp4_keys :: "suppression \<Rightarrow> bool" where
  "has_wp4_keys su \<longleftrightarrow> su_suppressed_by su \<noteq> None \<or> su_effect su \<noteq> None \<or> su_applied su \<noteq> None \<or>
     su_caps_applied su \<noteq> None \<or> su_applied_caps su \<noteq> None \<or> su_blocked_caps su \<noteq> None"

definition validate_matched_input :: "rule_result \<Rightarrow> unit res" where
  "validate_matched_input r =
     rbind (guard (rr_required r = TRUE)
              (SuppressionExecutionError ''MATCHED result must have required TRUE'')) (\<lambda>_.
     rbind (guard (case rr_effective r of None \<Rightarrow> False | Some l \<Rightarrow> l \<in> set SEVERITY_ORDER)
              (SuppressionExecutionError ''invalid/missing base effective_severity'')) (\<lambda>_.
     guard (case rr_suppression r of None \<Rightarrow> True | Some su \<Rightarrow> \<not> has_wp4_keys su)
       (SuppressionExecutionError ''pre-applied suppression metadata'')))"

section \<open>Override authority\<close>

fun blocked_categories :: "runtime_knowledge \<Rightarrow> string list \<Rightarrow> string list res" where
  "blocked_categories rk [] = Inr []"
| "blocked_categories rk (oid # oids) =
     (case rk_override rk oid of
        None \<Rightarrow> Inl (SuppressionExecutionError (''active override '' @ oid @ '' does not resolve''))
      | Some ov \<Rightarrow>
          (case ov_blocks ov of
             None \<Rightarrow> Inl (SuppressionExecutionError ''invalid blocks_suppression_categories'')
           | Some cs \<Rightarrow>
               if list_ex (\<lambda>c. c = []) cs
               then Inl (SuppressionExecutionError ''invalid blocks_suppression_categories'')
               else rbind (blocked_categories rk oids) (\<lambda>rest. Inr (cs @ rest))))"

definition is_blocked :: "negative \<Rightarrow> string list \<Rightarrow> bool" where
  "is_blocked ng cats \<longleftrightarrow> truthy (ng_blockable ng) \<and> (\<exists>c\<in>set cats. ng_category ng = JStr c)"

section \<open>Resolving the effects\<close>

text \<open>The accumulators of the loop in \<open>_apply\<close>.\<close>

record effects =
  ef_applied :: "string list"
  ef_blocked :: "string list"
  ef_applied_caps :: "string list"
  ef_blocked_caps :: "string list"
  ef_ceilings :: "level list"
  ef_context :: "string list"

definition no_effects :: effects where
  "no_effects = \<lparr>ef_applied = [], ef_blocked = [], ef_applied_caps = [], ef_blocked_caps = [],
     ef_ceilings = [], ef_context = []\<rparr>"

definition KNOWN_EFFECTS :: "string list" where
  "KNOWN_EFFECTS = [''SUPPRESS_RULE'', ''CAP_SEVERITY'', ''CONTEXT_ONLY'', ''SUPPRESS_INDICATOR'']"

fun cap_level :: "json \<Rightarrow> level option" where
  "cap_level (JStr s) =
     (if s = ''LOW'' then Some LOW else if s = ''MEDIUM'' then Some MEDIUM
      else if s = ''HIGH'' then Some HIGH else None)"
| "cap_level _ = None"

fun nonempty_jstr :: "json \<Rightarrow> bool" where
  "nonempty_jstr (JStr s) = (s \<noteq> [])"
| "nonempty_jstr _ = False"

text \<open>The checks on one negative's governed metadata, in the order of the loop body.\<close>

definition check_effect :: "negative \<Rightarrow> unit res" where
  "check_effect ng =
     rbind (in_string_set (ng_effect ng) KNOWN_EFFECTS) (\<lambda>known.
     rbind (guard known (SuppressionExecutionError ''unknown suppression_effect'')) (\<lambda>_.
     rbind (guard (is_jbool (ng_blockable ng))
              (SuppressionExecutionError ''invalid blockable_by_overrides'')) (\<lambda>_.
     guard (nonempty_jstr (ng_category ng))
       (SuppressionExecutionError ''invalid suppression category''))))"

definition resolve_one :: "string list \<Rightarrow> string \<Rightarrow> negative \<Rightarrow> effects \<Rightarrow> effects res" where
  "resolve_one cats nid ng ef =
     rbind (check_effect ng) (\<lambda>_.
       let blocked = is_blocked ng cats in
       if ng_effect ng = JStr ''SUPPRESS_INDICATOR'' then Inr ef
       else if ng_effect ng = JStr ''SUPPRESS_RULE'' then
         Inr (if blocked then ef\<lparr>ef_blocked := ef_blocked ef @ [nid]\<rparr>
              else ef\<lparr>ef_applied := ef_applied ef @ [nid]\<rparr>)
       else if ng_effect ng = JStr ''CAP_SEVERITY'' then
         (case cap_level (ng_cap ng) of
            None \<Rightarrow> Inl (SuppressionExecutionError ''CAP_SEVERITY has invalid severity_cap'')
          | Some c \<Rightarrow>
              Inr (if blocked then ef\<lparr>ef_blocked_caps := ef_blocked_caps ef @ [nid]\<rparr>
                   else ef\<lparr>ef_applied_caps := ef_applied_caps ef @ [nid],
                           ef_ceilings := ef_ceilings ef @ [c]\<rparr>))
       else Inr (ef\<lparr>ef_context := ef_context ef @ [nid]\<rparr>))"

fun resolve_effects ::
    "runtime_knowledge \<Rightarrow> string list \<Rightarrow> string list \<Rightarrow> effects \<Rightarrow> effects res" where
  "resolve_effects rk cats [] ef = Inr ef"
| "resolve_effects rk cats (nid # nids) ef =
     (case rk_negative rk nid of
        None \<Rightarrow> Inl (SuppressionExecutionError (''matched negative '' @ nid @ '' does not resolve''))
      | Some ng \<Rightarrow> rbind (resolve_one cats nid ng ef) (resolve_effects rk cats nids))"

definition cross_check_blocked :: "rule_result \<Rightarrow> effects \<Rightarrow> unit res" where
  "cross_check_blocked r ef =
     (case rr_suppression r of
        None \<Rightarrow> Inr ()
      | Some su \<Rightarrow>
          (case su_blocked su of
             None \<Rightarrow> Inr ()
           | Some ids \<Rightarrow>
               guard (set ids = set (ef_blocked ef) \<union> set (ef_blocked_caps ef))
                 (SuppressionExecutionError ''blocked_suppressors disagree'')))"

text \<open>\<open>_sev_min\<close>, with \<open>None\<close> as the identity.\<close>

definition sev_min :: "level option \<Rightarrow> level option \<Rightarrow> level option res" where
  "sev_min a b =
     (case a of
        None \<Rightarrow> Inr b
      | Some a' \<Rightarrow> rbind (sev_min_base a' b) (\<lambda>l. Inr (Some l)))"

definition some_if_nonempty :: "'a list \<Rightarrow> 'a list option" where
  "some_if_nonempty xs = (if xs = [] then None else Some xs)"

definition attach_suppression :: "effects \<Rightarrow> suppression" where
  "attach_suppression ef =
     (let applied = sorted_unique (ef_applied ef);
          caps = sorted_unique (ef_applied_caps ef);
          context_only = sorted_unique (ef_context ef);
          ceilings = sorted_unique (filter (\<lambda>c. c \<in> {LOW, MEDIUM, HIGH}) (ef_ceilings ef))
      in \<lparr>su_suppressed_by = (if applied = [] then None else Some (hd applied)),
          su_effect = Some (if applied \<noteq> [] then ''SUPPRESS_RULE''
                            else if caps \<noteq> [] then ''CAP_SEVERITY''
                            else if context_only \<noteq> [] then ''CONTEXT_ONLY'' else ''NONE''),
          su_applied = some_if_nonempty applied,
          su_blocked = some_if_nonempty (sorted_unique (ef_blocked ef)),
          su_applied_caps = some_if_nonempty caps,
          su_blocked_caps = some_if_nonempty (sorted_unique (ef_blocked_caps ef)),
          su_caps_applied = (if caps = [] then None else some_if_nonempty ceilings),
          su_context = some_if_nonempty context_only\<rparr>)"

section \<open>Applying the stage\<close>

text \<open>\<open>_apply\<close>: only a matched composite result is touched.\<close>

definition apply_effects :: "runtime_knowledge \<Rightarrow> rule_result \<Rightarrow> rule_result res" where
  "apply_effects rk r =
     (let out = canonicalize_result r in
      rbind (guard (\<not> has_wp5_fields out)
               (SuppressionExecutionError ''pre-populated WP5 fields'')) (\<lambda>_.
      if rr_kind out \<noteq> COMPOSITE \<or> rr_state out \<noteq> MATCHED then Inr out
      else
        rbind (validate_matched_input out) (\<lambda>_.
        rbind (blocked_categories rk (rr_overrides out)) (\<lambda>cats.
        rbind (resolve_effects rk cats (rr_matched_negative out) no_effects) (\<lambda>ef.
        rbind (cross_check_blocked out ef) (\<lambda>_.
        rbind (fold_res (\<lambda>c l. sev_min l (Some c)) (ef_ceilings ef) (rr_effective out)) (\<lambda>effective.
          Inr (out\<lparr>rr_effective := (if effective = None then rr_effective out else effective),
                   rr_state := (if ef_applied ef \<noteq> [] then SUPPRESSED else rr_state out),
                   rr_suppression := Some (attach_suppression ef)\<rparr>))))))))"

text \<open>\<open>apply\<close>: a failure degrades the rule, keeping the combination truth.\<close>

definition degraded_result :: "rule_result \<Rightarrow> string \<Rightarrow> rule_result" where
  "degraded_result r message =
     (blank_result (rr_rule_id r) (rr_rule_version r) (rr_kind r) NOT_APPLICABLE (rr_required r))
       \<lparr>rr_error := Some (''SUPPRESSION_EXECUTION_ERROR'', message)\<rparr>"

definition apply_suppression :: "runtime_knowledge \<Rightarrow> rule_result \<Rightarrow> rule_result res" where
  "apply_suppression rk r =
     (case apply_effects rk r of
        Inr r' \<Rightarrow> Inr r'
      | Inl (SuppressionExecutionError m) \<Rightarrow> Inr (degraded_result r m)
      | Inl e \<Rightarrow> if per_rule_fault e then Inr (degraded_result r (exc_text e)) else Inl e)"

definition apply_all :: "runtime_knowledge \<Rightarrow> rule_result list \<Rightarrow> rule_result list res" where
  "apply_all rk rs = map_res (apply_suppression rk) rs"

definition evaluate_rules_with_suppression_from_governed ::
    "(json \<Rightarrow> bool) \<Rightarrow> (json \<Rightarrow> bool) \<Rightarrow> runtime_knowledge \<Rightarrow> profile \<Rightarrow> pyval \<Rightarrow> pyval
     \<Rightarrow> string \<Rightarrow> string \<Rightarrow> rule_result list res" where
  "evaluate_rules_with_suppression_from_governed io_ok obs_ok rk pf inds obs language script =
     rbind (evaluate_rules_from_governed io_ok obs_ok rk pf inds obs language script) (apply_all rk)"

definition evaluate_rule_with_suppression_from_governed ::
    "(json \<Rightarrow> bool) \<Rightarrow> (json \<Rightarrow> bool) \<Rightarrow> runtime_knowledge \<Rightarrow> profile \<Rightarrow> pyval \<Rightarrow> pyval \<Rightarrow> pyval
     \<Rightarrow> string \<Rightarrow> string \<Rightarrow> rule_result res" where
  "evaluate_rule_with_suppression_from_governed io_ok obs_ok rk pf rule_id inds obs language script =
     rbind (evaluate_rule_from_governed io_ok obs_ok rk pf rule_id inds obs language script)
       (apply_suppression rk)"

end
