(* ===== verification/EvaluatorProps.thy ===== *)
theory EvaluatorProps
  imports RuleEvaluation
begin

text \<open>
  What the evaluator promises: an exception raised inside one rule stays inside it, an indicator
  counts as present only on live evidence, the order of the occurrences does not matter,
  suppression can only lower a truth value, and a match needs both the required combination and
  the diversity of evidence classes.
\<close>

section \<open>Faults stay inside the rule\<close>

fun eval_fault :: "exc \<Rightarrow> bool" where
  "eval_fault (EvaluatorError _) = True"
| "eval_fault e = per_rule_fault e"

definition faults_only :: "'a res \<Rightarrow> bool" where
  "faults_only r \<longleftrightarrow> (\<forall>e. r = Inl e \<longrightarrow> eval_fault e)"

named_theorems fault_intros "operations that raise per-rule faults only"

lemma faults_only_base [simp]:
  "faults_only (Inr x)" "faults_only (Inl e) \<longleftrightarrow> eval_fault e"
  by (simp_all add: faults_only_def)

lemma faults_only_rbind [fault_intros]:
  "faults_only r \<Longrightarrow> (\<And>x. r = Inr x \<Longrightarrow> faults_only (f x)) \<Longrightarrow> faults_only (rbind r f)"
  by (cases r) simp_all

lemma faults_only_concat: "(\<And>r. r \<in> set rs \<Longrightarrow> faults_only r) \<Longrightarrow> faults_only (concat_res rs)"
  by (induction rs) (auto intro!: fault_intros)

lemma faults_only_all_values: "(\<And>r. r \<in> set rs \<Longrightarrow> faults_only r) \<Longrightarrow> faults_only (all_values rs)"
  by (induction rs) (auto intro!: fault_intros)

lemma faults_only_operands [fault_intros]:
  "faults_only (operands c)" "faults_only (operand_items op v)" "faults_only (of_items kvs)"
  by (induction c and op v and kvs rule: operands_operand_items_of_items.induct)
    (auto split: json.split intro!: faults_only_concat)

lemma faults_only_int [fault_intros]: "faults_only (int_of_json v)"
  by (cases v) auto

lemma faults_only_n_of [fault_intros]: "faults_only (n_of k vs)"
  by (auto simp: n_of_def Let_def split: prod.split)

lemma faults_only_all_of: "\<forall>r\<in>set rs. faults_only r \<Longrightarrow> faults_only (all_of rs)"
proof -
  have "\<forall>r\<in>set rs. faults_only r \<Longrightarrow> faults_only (all_of_loop s rs)" for s
    by (induction s rs rule: all_of_loop.induct) auto
  then show "\<forall>r\<in>set rs. faults_only r \<Longrightarrow> faults_only (all_of rs)" by (simp add: all_of_def)
qed

lemma faults_only_any_of: "\<forall>r\<in>set rs. faults_only r \<Longrightarrow> faults_only (any_of rs)"
proof -
  have "\<forall>r\<in>set rs. faults_only r \<Longrightarrow> faults_only (any_of_loop s rs)" for s
    by (induction s rs rule: any_of_loop.induct) auto
  then show "\<forall>r\<in>set rs. faults_only r \<Longrightarrow> faults_only (any_of rs)" by (simp add: any_of_def)
qed

definition faults_list :: "kleene res list res \<Rightarrow> bool" where
  "faults_list r \<longleftrightarrow> faults_only r \<and> (\<forall>xs. r = Inr xs \<longrightarrow> (\<forall>x\<in>set xs. faults_only x))"

lemma faults_only_condition_aux:
  "faults_only (eval_condition t c)" "faults_list (eval_operands t v)"
proof (induction t c and t v rule: eval_condition_eval_operands.induct)
  case (2 t kvs)
  then show ?case
    by (auto simp: faults_list_def split: option.split json.split
        intro!: fault_intros faults_only_all_of faults_only_any_of faults_only_all_values)
qed (auto simp: faults_list_def)

lemmas faults_only_condition [fault_intros] = faults_only_condition_aux(1)

lemma faults_only_in_string_set [fault_intros]: "faults_only (in_string_set v cats)"
  by (simp add: in_string_set_def)

lemma faults_only_overrides [fault_intros]: "faults_only (overrides_loop rk rid cats t oids a b)"
  by (induction oids arbitrary: a b) (auto split: option.split intro!: fault_intros)

lemma faults_only_suppressors [fault_intros]: "faults_only (suppressors_loop rk pf ctx a b nids d)"
  by (induction nids arbitrary: d)
    (auto simp: suppressor_blocked_def split: option.split intro!: fault_intros)

lemma faults_only_candidates [fault_intros]: "faults_only (candidates_loop rk cats ov nids b c)"
  by (induction nids arbitrary: b c) (auto split: option.split intro!: fault_intros)

lemma faults_only_severity [fault_intros]: "faults_only (severity_index l)" "faults_only (sev_min_base a b)"
  by (auto simp: severity_index_def sev_min_base_def split: option.split intro!: fault_intros)

lemma faults_only_member [fault_intros]: "faults_only (member_of s v)"
  by (cases v) auto

lemma faults_only_composite [fault_intros]: "faults_only (evaluate_composite rk pf r rid rver ctx)"
  by (auto simp: evaluate_composite_def min_evidence_classes_def active_overrides_def
      active_suppressor_occurrences_def suppression_candidates_def effective_of_def Let_def
      split: json.split option.split prod.split intro!: fault_intros)

lemma faults_only_suppression [fault_intros]: "faults_only (evaluate_suppression rk pf r rid rver ctx)"
  by (auto simp: evaluate_suppression_def Let_def split: json.split intro!: fault_intros)

lemma faults_only_body [fault_intros]: "faults_only (evaluate_rule_body rk pf r rid rver k ctx)"
  by (auto simp: evaluate_rule_body_def language_in_scope_def Let_def
      split: json.split intro!: fault_intros)

lemma run_isolated_Inr: "\<exists>res. run_isolated rk pf r rid rver k ctx = Inr res"
  using faults_only_body [of rk pf r rid rver k ctx]
  by (cases "evaluate_rule_body rk pf r rid rver k ctx")
    (auto simp: run_isolated_def split: exc.split)

section \<open>Live evidence\<close>

text \<open>
  An occurrence counts as live evidence when the registry's polarity is not contradicted, it was
  observed at a confidence the gate admits, every reference resolves to an observed, affirmed,
  first-party, non-descriptive observation, and no active suppressor shares a reference with it or
  has unknown references.
\<close>

definition live_observation :: "observation \<Rightarrow> bool" where
  "live_observation o' \<longleftrightarrow> ob_status o' = O_OBSERVED \<and> ob_polarity o' = AFFIRMED \<and>
     ob_attribution o' = FIRST_PARTY \<and> ob_mood o' \<noteq> DESCRIPTIVE"

definition gate_admits :: "profile \<Rightarrow> indicator_observation \<Rightarrow> bool" where
  "gate_admits pf io \<longleftrightarrow> io_matched io = O_OBSERVED \<and>
     (case io_confidence io of None \<Rightarrow> False | Some c \<Rightarrow> gate_rank pf \<le> conf_rank c)"

definition undisturbed :: "indicator_observation list \<Rightarrow> indicator_observation \<Rightarrow> bool" where
  "undisturbed suppressors io \<longleftrightarrow>
     (\<forall>s\<in>set suppressors. io_refs s \<noteq> [] \<and> set (io_refs io) \<inter> set (io_refs s) = {})"

definition live_evidence ::
    "profile \<Rightarrow> eval_context \<Rightarrow> indicator_observation list \<Rightarrow> indicator_observation \<Rightarrow> bool" where
  "live_evidence pf ctx suppressors io \<longleftrightarrow>
     (io_polarity io = None \<or> io_polarity io = Some POSITIVE) \<and> gate_admits pf io \<and>
     io_refs io \<noteq> [] \<and>
     (\<forall>ref\<in>set (io_refs io). \<exists>o'. map_of (cx_observations ctx) ref = Some o' \<and> live_observation o') \<and>
     undisturbed suppressors io"

lemma observation_verdict_LIVE: "observation_verdict o' = LIVE \<longleftrightarrow> live_observation o'"
  by (cases "ob_status o'"; cases "ob_polarity o'"; cases "ob_attribution o'"; cases "ob_mood o'")
    (simp_all add: observation_verdict_def live_observation_def)

lemma gate_single_TRUE:
  "fst (gate_single pf (io_matched io) (io_confidence io)) = TRUE \<longleftrightarrow> gate_admits pf io"
  by (auto simp: gate_single_def gate_admits_def split: option.split)

lemma association_loop_cases:
  "fst (association_loop pos u ss) \<longleftrightarrow> (\<exists>s\<in>set ss. set pos \<inter> set (io_refs s) \<noteq> {})"
  "\<not> fst (association_loop pos u ss) \<Longrightarrow>
     snd (association_loop pos u ss) \<longleftrightarrow> u \<or> (\<exists>s\<in>set ss. pos = [] \<or> io_refs s = [])"
  by (induction pos u ss rule: association_loop.induct) (auto split: if_splits)

lemma suppression_association_Nil [simp]: "suppression_association io [] = (False, False)"
  by (simp add: suppression_association_def)

lemma suppression_association_cases:
  "fst (suppression_association io ss) \<longleftrightarrow> (\<exists>s\<in>set ss. set (io_refs io) \<inter> set (io_refs s) \<noteq> {})"
  "\<not> fst (suppression_association io ss) \<Longrightarrow>
     snd (suppression_association io ss) \<longleftrightarrow> (\<exists>s\<in>set ss. io_refs io = [] \<or> io_refs s = [])"
  by (simp_all add: suppression_association_def association_loop_cases)

lemma undisturbed_association:
  "io_refs io \<noteq> [] \<Longrightarrow> undisturbed ss io \<longleftrightarrow>
     \<not> fst (suppression_association io ss) \<and> \<not> snd (suppression_association io ss)"
  using suppression_association_cases [of io ss] by (auto simp: undisturbed_def)

lemma undisturbed_Nil [simp]: "undisturbed [] io"
  by (simp add: undisturbed_def)

lemma occurrence_TRUE:
  "fst (occurrence pf ctx suppressors io) = TRUE \<longleftrightarrow> live_evidence pf ctx suppressors io"
proof (cases "structural_verdict (cx_observations ctx) io")
  case LIVE
  then show ?thesis
    using structural_verdict_cases(1) [of "cx_observations ctx" io]
    by (auto simp: occurrence_def live_evidence_def gate_single_TRUE [symmetric] undisturbed_association
        observation_verdict_LIVE Let_def split: prod.splits)
next
  case NON_LIVE
  then show ?thesis
    using structural_verdict_cases(1) [of "cx_observations ctx" io]
    by (auto simp: occurrence_def live_evidence_def observation_verdict_LIVE Let_def split: prod.splits)
next
  case UNRESOLVED
  then show ?thesis
    using structural_verdict_cases(1) [of "cx_observations ctx" io]
    by (auto simp: occurrence_def live_evidence_def observation_verdict_LIVE Let_def split: prod.splits)
qed

text \<open>The combination is the three-valued OR of the occurrences.\<close>

lemma occ_value_mem:
  "list_ex (\<lambda>(v, _, _). v = w) xs \<longleftrightarrow> w \<in> fst ` set xs"
  "(\<lambda>(_, r, _). r) ` {x \<in> set xs. case x of (v, _, _) \<Rightarrow> v = w} = {} \<longleftrightarrow> w \<notin> fst ` set xs"
  "(\<exists>a b. (w, a, b) \<in> X) \<longleftrightarrow> w \<in> fst ` X"
  "(\<forall>a b. (w, a, b) \<notin> X) \<longleftrightarrow> w \<notin> fst ` X"
  by (force simp: list_ex_iff)+

lemma combine_positive_value:
  "fst (combine_positive pf ctx iid suppressors) =
     (let vs = (\<lambda>io. fst (occurrence pf ctx suppressors io)) ` set (observations_for ctx iid)
      in if TRUE \<in> vs then TRUE else if UNKNOWN \<in> vs then UNKNOWN else FALSE)"
  by (simp add: combine_positive_def Let_def occ_value_mem image_image)
    (auto simp: image_iff eq_commute [of UNKNOWN] eq_commute [of TRUE])

lemma combine_positive_any_of:
  "any_of (map (\<lambda>io. Inr (fst (occurrence pf ctx suppressors io))) (observations_for ctx iid)) =
     Inr (fst (combine_positive pf ctx iid suppressors))"
  using any_of_values [of "map (\<lambda>io. fst (occurrence pf ctx suppressors io)) (observations_for ctx iid)"]
  by (simp add: combine_positive_value Let_def comp_def)

lemma combine_positive_TRUE:
  "fst (combine_positive pf ctx iid suppressors) = TRUE \<longleftrightarrow>
     (\<exists>io\<in>set (observations_for ctx iid). live_evidence pf ctx suppressors io)"
  by (auto simp: combine_positive_value Let_def occurrence_TRUE [symmetric] image_iff
      eq_commute [of TRUE])

text \<open>Suppression can only lower the value of an occurrence, and never touches a structural FALSE.\<close>

lemma occurrence_suppression_lowers:
  "fst (occurrence pf ctx suppressors io) \<le> fst (occurrence pf ctx [] io)"
  by (auto simp: occurrence_def Let_def split: prod.split)

lemma or_mono:
  assumes "\<And>x. x \<in> S \<Longrightarrow> f x \<le> g x"
  shows "(if TRUE \<in> f ` S then TRUE else if UNKNOWN \<in> f ` S then UNKNOWN else FALSE) \<le>
     (if TRUE \<in> g ` S then TRUE else if UNKNOWN \<in> g ` S then UNKNOWN else FALSE)"
proof -
  have "TRUE \<in> g ` S" if "TRUE \<in> f ` S"
  proof -
    obtain x where "x \<in> S" "f x = TRUE" using \<open>TRUE \<in> f ` S\<close> by auto
    then have "g x = TRUE" using assms [of x] by auto
    then show ?thesis using \<open>x \<in> S\<close> by (metis imageI)
  qed
  moreover have "TRUE \<in> g ` S \<or> UNKNOWN \<in> g ` S" if "UNKNOWN \<in> f ` S"
  proof -
    obtain x where "x \<in> S" "f x = UNKNOWN" using \<open>UNKNOWN \<in> f ` S\<close> by auto
    then have "g x = TRUE \<or> g x = UNKNOWN" using assms [of x] kleene_not_TF by auto
    then show ?thesis using \<open>x \<in> S\<close> by (metis imageI)
  qed
  ultimately show ?thesis by auto
qed

lemma combine_positive_suppression_lowers:
  "fst (combine_positive pf ctx iid suppressors) \<le> fst (combine_positive pf ctx iid [])"
  unfolding combine_positive_value Let_def by (rule or_mono) (rule occurrence_suppression_lowers)

section \<open>Order independence\<close>

lemma suppression_association_set:
  assumes "set ss = set ss'"
  shows "(\<exists>a u. suppression_association io ss = (a, u) \<and>
     (\<exists>u'. suppression_association io ss' = (a, u') \<and> (\<not> a \<longrightarrow> u = u')))"
  using suppression_association_cases [of io ss] suppression_association_cases [of io ss'] assms
  by (cases "suppression_association io ss"; cases "suppression_association io ss'") auto

lemma occurrence_order:
  assumes "map_of (cx_observations ctx) = map_of (cx_observations ctx')" "set ss = set ss'"
  shows "occurrence pf ctx ss io = occurrence pf ctx' ss' io"
proof -
  have sv: "structural_verdict (cx_observations ctx) io = structural_verdict (cx_observations ctx') io"
    unfolding structural_verdict_def assms(1) ..
  obtain a u u' where au: "suppression_association io ss = (a, u)"
    "suppression_association io ss' = (a, u')" "\<not> a \<longrightarrow> u = u'"
    using suppression_association_set [OF assms(2)] by metis
  have "(ss = []) = (ss' = [])" using assms(2) by (metis set_empty)
  then show ?thesis using au by (auto simp: occurrence_def Let_def sv split: prod.split)
qed

lemma combine_positive_order:
  assumes "set (observations_for ctx iid) = set (observations_for ctx' iid)"
    "map_of (cx_observations ctx) = map_of (cx_observations ctx')" "set ss = set ss'"
  shows "combine_positive pf ctx iid ss = combine_positive pf ctx' iid ss'"
proof -
  have occ: "occurrence pf ctx ss = occurrence pf ctx' ss'"
    by (rule ext) (rule occurrence_order [OF assms(2,3)])
  have groups: "sorted_unique (map (\<lambda>io. sorted_unique (io_refs io))
        (filter (\<lambda>io. fst (occurrence pf ctx' ss' io) = TRUE \<and> io_refs io \<noteq> []) (observations_for ctx iid))) =
      sorted_unique (map (\<lambda>io. sorted_unique (io_refs io))
        (filter (\<lambda>io. fst (occurrence pf ctx' ss' io) = TRUE \<and> io_refs io \<noteq> []) (observations_for ctx' iid)))"
    by (rule sorted_unique_set_eq) (simp add: assms(1))
  show ?thesis
    unfolding combine_positive_def Let_def occ groups
    by (simp add: list_ex_iff assms(1))
qed

section \<open>Executed suppression\<close>

text \<open>
  After step 3 every present positive indicator carries the value, the reason and the provenance of
  its occurrences under exactly the suppressors collected for it.
\<close>

definition suppressors_of :: "indicator_observation list dict \<Rightarrow> string \<Rightarrow> indicator_observation list" where
  "suppressors_of targets i = (case map_of targets i of None \<Rightarrow> [] | Some s \<Rightarrow> s)"

definition present_positive :: "runtime_knowledge \<Rightarrow> eval_context \<Rightarrow> string set" where
  "present_positive rk ctx = set (present_indicator_ids ctx) \<inter> set (positive_ids rk)"

definition truth_state ::
    "profile \<Rightarrow> eval_context \<Rightarrow> string set \<Rightarrow> (string \<Rightarrow> indicator_observation list)
     \<Rightarrow> truth_map \<times> string list \<times> string list list dict \<Rightarrow> bool" where
  "truth_state pf ctx ids sps st \<longleftrightarrow> (case st of (pos_truth, neutralised, live_prov) \<Rightarrow>
     (\<forall>i. case combine_positive pf ctx i (sps i) of (v, r, neutral, groups) \<Rightarrow>
        map_of pos_truth i = (if i \<in> ids then Some (v, r) else None) \<and>
        (i \<in> set neutralised \<longleftrightarrow> i \<in> ids \<and> v = FALSE \<and> neutral) \<and>
        map_of live_prov i = (if i \<in> ids \<and> groups \<noteq> [] then Some groups else None)))"

lemma map_of_tabulate: "map_of (map (\<lambda>i. (i, f i)) xs) i = (if i \<in> set xs then Some (f i) else None)"
  by (induction xs) auto

lemma map_of_filter_value:
  "distinct (map fst xs) \<Longrightarrow>
     map_of (filter (\<lambda>(_, g). P g) xs) i =
       (case map_of xs i of Some g \<Rightarrow> if P g then Some g else None | None \<Rightarrow> None)"
  by (induction xs) (auto simp: map_of_eq_None_iff image_iff split: option.split)

lemma truth_state_raw: "truth_state pf ctx (present_positive rk ctx) (\<lambda>_. []) (positive_truth_map rk pf ctx)"
proof -
  let ?ids = "filter (\<lambda>i. i \<in> set (positive_ids rk)) (present_indicator_ids ctx)"
  have "distinct ?ids" by (simp add: present_indicator_ids_def)
  then have prov: "map_of (filter (\<lambda>(_, g). g \<noteq> []) (map (\<lambda>i. (i, f i)) ?ids)) i =
      (if i \<in> set ?ids \<and> f i \<noteq> [] then Some (f i) else None)"
    for f :: "string \<Rightarrow> string list list" and i
    by (subst map_of_filter_value) (auto simp: comp_def map_of_tabulate)
  show ?thesis
    unfolding truth_state_def positive_truth_map_def Let_def
    by (auto simp: prov map_of_tabulate present_positive_def split: prod.split)
qed

lemma occurrence_neutral_mono:
  "snd (snd (occurrence pf ctx [] io)) \<Longrightarrow> snd (snd (occurrence pf ctx ss io))"
  by (auto simp: occurrence_def Let_def split: prod.splits if_splits)

lemma combine_neutral_mono:
  assumes "combine_positive pf ctx i [] = (v, r, True, g)" "combine_positive pf ctx i ss = (v', r', n', g')"
  shows n'
proof -
  have n: "fst (snd (snd (combine_positive pf ctx i ss))) =
      list_ex (\<lambda>io. snd (snd (occurrence pf ctx ss io))) (observations_for ctx i)" for ss
    by (simp add: combine_positive_def Let_def list_ex_iff case_prod_unfold)
  show ?thesis
    using n [of "[]"] n [of ss] assms occurrence_neutral_mono [of pf ctx _ ss]
    by (auto simp: list_ex_iff)
qed

lemma truth_state_step:
  assumes st: "truth_state pf ctx ids sps st" and new: "sps tgt = []"
  shows "truth_state pf ctx ids (sps(tgt := ss)) (suppress_target pf ctx tgt ss st)"
proof -
  obtain pt ne lp where st_eq: "st = (pt, ne, lp)" by (cases st) auto
  obtain v r n g where c: "combine_positive pf ctx tgt ss = (v, r, n, g)" by (metis prod_cases4)
  obtain v0 r0 n0 g0 where c0: "combine_positive pf ctx tgt [] = (v0, r0, n0, g0)" by (metis prod_cases4)
  have mono: "n0 \<Longrightarrow> n" using combine_neutral_mono [of pf ctx tgt v0 r0 g0 ss] c c0 by simp
  note inv = st [unfolded truth_state_def st_eq, simplified, rule_format]
  show ?thesis
  proof (cases "tgt \<in> ids")
    case False
    then show ?thesis using inv
      by (fastforce simp: truth_state_def suppress_target_def st_eq split: prod.split)
  next
    case True
    then have pt: "map_of pt tgt \<noteq> None" using inv [of tgt] by (auto split: prod.splits)
    have tgt_ne: "tgt \<in> set ne \<longleftrightarrow> v0 = FALSE \<and> n0" using inv [of tgt] True by (simp add: new c0)
    show ?thesis
      unfolding truth_state_def suppress_target_def st_eq
      using inv True pt tgt_ne mono
      by (auto simp: c map_of_update delete_conv' split: prod.split)
  qed
qed

lemma truth_state_fold:
  "truth_state pf ctx ids sps st \<Longrightarrow> distinct tgts \<Longrightarrow> (\<And>t. t \<in> set tgts \<Longrightarrow> sps t = []) \<Longrightarrow>
     truth_state pf ctx ids (\<lambda>i. if i \<in> set tgts then f i else sps i)
       (fold (\<lambda>t. suppress_target pf ctx t (f t)) tgts st)"
proof (induction tgts arbitrary: sps st)
  case (Cons t tgts)
  have "truth_state pf ctx ids (sps(t := f t)) (suppress_target pf ctx t (f t) st)"
    by (rule truth_state_step) (use Cons.prems in auto)
  then have "truth_state pf ctx ids (\<lambda>i. if i \<in> set tgts then f i else (sps(t := f t)) i)
      (fold (\<lambda>t. suppress_target pf ctx t (f t)) tgts (suppress_target pf ctx t (f t) st))"
    by (rule Cons.IH) (use Cons.prems in auto)
  moreover have "(\<lambda>i. if i \<in> set tgts then f i else (sps(t := f t)) i) =
      (\<lambda>i. if i \<in> set (t # tgts) then f i else sps i)" by auto
  ultimately show ?case by simp
qed simp

lemma truth_state_executed:
  "truth_state pf ctx (present_positive rk ctx) (suppressors_of targets)
     (execute_suppression pf ctx targets (positive_truth_map rk pf ctx))"
proof -
  let ?keys = "sorted_unique (dict_keys targets)"
  have "suppressors_of targets = (\<lambda>i. if i \<in> set ?keys then suppressors_of targets i else [])"
    by (rule ext) (auto simp: suppressors_of_def map_of_eq_None_iff [symmetric] split: option.split)
  moreover have "truth_state pf ctx (present_positive rk ctx)
      (\<lambda>i. if i \<in> set ?keys then suppressors_of targets i else [])
      (fold (\<lambda>t. suppress_target pf ctx t (suppressors_of targets t)) ?keys (positive_truth_map rk pf ctx))"
    by (rule truth_state_fold [OF truth_state_raw]) simp_all
  ultimately show ?thesis by (simp add: execute_suppression_def suppressors_of_def)
qed

end
