(* ===== verification/MatchSafety.thy ===== *)
theory MatchSafety
  imports EvaluatorProps
begin

text \<open>
  The rule level: what a result of the composite path says about the context it was computed from.
  \<open>composite_cases\<close> reads a successful run of \<open>evaluate_composite\<close> as its steps; the properties of
  the evaluator rest on it and on the truth state after the executed suppression.
\<close>

section \<open>The steps behind a composite result\<close>

lemma attach_match_provenance_fields [simp]:
  "rr_rule_id (attach_match_provenance res r) = rr_rule_id res"
  "rr_rule_version (attach_match_provenance res r) = rr_rule_version res"
  "rr_kind (attach_match_provenance res r) = rr_kind res"
  "rr_state (attach_match_provenance res r) = rr_state res"
  "rr_required (attach_match_provenance res r) = rr_required res"
  "rr_matched_positive (attach_match_provenance res r) = rr_matched_positive res"
  "rr_matched_negative (attach_match_provenance res r) = rr_matched_negative res"
  "rr_classes (attach_match_provenance res r) = rr_classes res"
  "rr_verdict (attach_match_provenance res r) = rr_verdict res"
  "rr_diversity (attach_match_provenance res r) = rr_diversity res"
  "rr_min_classes (attach_match_provenance res r) = rr_min_classes res"
  "rr_neutralised (attach_match_provenance res r) = rr_neutralised res"
  "rr_overrides (attach_match_provenance res r) = rr_overrides res"
  "rr_effective (attach_match_provenance res r) = rr_effective res"
  "rr_declared (attach_match_provenance res r) = rr_declared res"
  "rr_provenance (attach_match_provenance res r) = rr_provenance res"
  "rr_suppression (attach_match_provenance res r) = rr_suppression res"
  "rr_confidence (attach_match_provenance res r) = rr_confidence res"
  "rr_refs (attach_match_provenance res r) = rr_refs res"
  "rr_error (attach_match_provenance res r) = rr_error res"
  "rr_governing (attach_match_provenance res r) = rr_governing res"
  "rr_governing_reason (attach_match_provenance res r) = rr_governing_reason res"
  "rr_strength (attach_match_provenance res r) = rr_strength res"
  "rr_detection_confidence (attach_match_provenance res r) = rr_detection_confidence res"
  by (simp_all add: attach_match_provenance_def Let_def)

lemma blank_result_fields [simp]:
  "rr_rule_id (blank_result rid rver k st req) = rid"
  "rr_rule_version (blank_result rid rver k st req) = rver"
  "rr_kind (blank_result rid rver k st req) = k"
  "rr_state (blank_result rid rver k st req) = st"
  "rr_required (blank_result rid rver k st req) = req"
  "rr_suppression (blank_result rid rver k st req) = None"
  "rr_error (blank_result rid rver k st req) = None"
  "rr_governing (blank_result rid rver k st req) = None"
  "rr_governing_reason (blank_result rid rver k st req) = None"
  "rr_strength (blank_result rid rver k st req) = None"
  "rr_detection_confidence (blank_result rid rver k st req) = None"
  by (simp_all add: blank_result_def)

lemma not_applicable_fields [simp]:
  "rr_rule_id (not_applicable rid rver k c m) = rid"
  "rr_rule_version (not_applicable rid rver k c m) = rver"
  "rr_kind (not_applicable rid rver k c m) = k"
  "rr_state (not_applicable rid rver k c m) = NOT_APPLICABLE"
  "rr_required (not_applicable rid rver k c m) = UNKNOWN"
  "rr_error (not_applicable rid rver k c m) = Some (c, m)"
  by (simp_all add: not_applicable_def)

definition groups_entry :: "string list list dict \<Rightarrow> string \<Rightarrow> (string \<times> string list list) option" where
  "groups_entry live_prov o' = (case map_of live_prov o' of
     Some groups \<Rightarrow> if groups = [] then None else Some (o', groups) | None \<Rightarrow> None)"

lemma sort_filter_sorted [canon_simps]:
  "sort (filter P (sorted_unique xs)) = filter P (sorted_unique xs)"
  by (rule sorted_sort_id) (simp add: sorted_wrt_filter)

lemma composite_cases:
  assumes "evaluate_composite rk pf r rid rver ctx = Inr res"
  obtains logic min_classes active blocked targets pt ne lp ops where
    "ru_logic r = JObj logic"
    "min_evidence_classes logic = Inr min_classes"
    "active_overrides rk rid (rule_categories r) (truth (fst (positive_truth_map rk pf ctx))) =
       Inr (active, blocked)"
    "rr_matched_negative res = matched_negatives rk pf ctx (rule_categories r)"
    "active_suppressor_occurrences rk pf ctx (rr_matched_negative res) active blocked = Inr targets"
    "execute_suppression pf ctx targets (positive_truth_map rk pf ctx) = (pt, ne, lp)"
    "eval_condition (truth pt) (jget logic ''require'') = Inr (rr_required res)"
    "operands (jget logic ''require'') = Inr ops"
    "rr_matched_positive res =
       filter (\<lambda>o'. o' \<in> set (positive_ids rk) \<and> truth pt o' = TRUE) (sorted_unique ops)"
    "rr_classes res = evidence_classes_of rk (rr_matched_positive res)"
    "rr_min_classes res = Some min_classes"
    "rr_state res = composite_state (rr_required res) (min_classes \<le> int (length (rr_classes res)))"
    "rr_neutralised res = sorted_unique ne"
    "rr_overrides res = active"
    "rr_declared res = ru_severity r"
    "effective_of r = Inr (rr_effective res)"
    "rr_provenance res = List.map_filter (groups_entry lp) (rr_matched_positive res)"
    "rr_rule_id res = rid" "rr_kind res = COMPOSITE"
    "suppression_candidates rk (rr_matched_negative res) blocked (active \<noteq> []) = Inr (rr_suppression res)"
    "rr_governing res = None" "rr_governing_reason res = None" "rr_strength res = None"
    "rr_detection_confidence res = None" "rr_verdict res = ru_verdict r" "rr_error res = None"
proof (cases "ru_logic r")
  case (JObj logic)
  obtain min_classes where m: "min_evidence_classes logic = Inr min_classes"
    using assms by (auto simp: evaluate_composite_def JObj rbind_eq_Inr Let_def)
  obtain active blocked where a: "active_overrides rk rid (rule_categories r)
      (truth (fst (positive_truth_map rk pf ctx))) = Inr (active, blocked)"
    using assms by (auto simp: evaluate_composite_def JObj m rbind_eq_Inr Let_def)
  let ?neg = "matched_negatives rk pf ctx (rule_categories r)"
  obtain targets where tg: "active_suppressor_occurrences rk pf ctx ?neg active blocked = Inr targets"
    using assms by (auto simp: evaluate_composite_def JObj m a rbind_eq_Inr Let_def)
  obtain pt ne lp where ex: "execute_suppression pf ctx targets (positive_truth_map rk pf ctx) = (pt, ne, lp)"
    by (cases "execute_suppression pf ctx targets (positive_truth_map rk pf ctx)") auto
  obtain required where req: "eval_condition (truth pt) (jget logic ''require'') = Inr required"
    using assms by (auto simp: evaluate_composite_def JObj m a tg ex rbind_eq_Inr Let_def)
  obtain ops where ops: "operands (jget logic ''require'') = Inr ops"
    using assms by (auto simp: evaluate_composite_def JObj m a tg ex req rbind_eq_Inr Let_def)
  obtain supp where su: "suppression_candidates rk ?neg blocked (active \<noteq> []) = Inr supp"
    using assms by (auto simp: evaluate_composite_def JObj m a tg ex req ops rbind_eq_Inr Let_def
        split: prod.splits)
  obtain eff where eff: "effective_of r = Inr eff"
    using assms by (auto simp: evaluate_composite_def JObj m a tg ex req ops su rbind_eq_Inr Let_def
        split: prod.splits)
  show thesis
    by (rule that [OF JObj m a _ _ ex _ ops])
      (use assms in \<open>auto simp: evaluate_composite_def JObj m a tg ex req ops su eff Let_def
         groups_entry_def [abs_def] canon_simps split: prod.splits if_splits\<close>)
qed (use assms in \<open>simp_all add: evaluate_composite_def\<close>)

section \<open>A true condition has a true operand\<close>

lemma wf_condition_values:
  assumes "list_all wf_condition xs"
  obtains g h where "\<And>x. x \<in> set xs \<Longrightarrow> eval_condition t x = Inr (g x)"
    "\<And>x. x \<in> set xs \<Longrightarrow> operands x = Inr (h x)"
    "map (eval_condition t) xs = map Inr (map g xs)"
    "concat_res (map operands xs) = Inr (concat (map h xs))"
proof -
  have "\<forall>x\<in>set xs. \<exists>v ops. eval_condition t x = Inr v \<and> operands x = Inr ops"
    using assms wf_condition_total by (auto simp: list_all_iff)
  then obtain g h where "\<And>x. x \<in> set xs \<Longrightarrow> eval_condition t x = Inr (g x) \<and> operands x = Inr (h x)"
    by metis
  then show thesis by (intro that [of g h] concat_res_map) auto
qed

lemma wf_condition_TRUE_operand:
  "wf_condition c \<Longrightarrow> eval_condition t c = Inr TRUE \<Longrightarrow> operands c = Inr ops \<Longrightarrow> \<exists>i\<in>set ops. t i = TRUE"
proof (induction c arbitrary: ops rule: wf_condition.induct)
  case (2 op xs)
  then have wf: "list_all wf_condition xs" "xs \<noteq> []" "op = ''all_of'' \<or> op = ''any_of''" by auto
  obtain g h where gh: "\<And>x. x \<in> set xs \<Longrightarrow> eval_condition t x = Inr (g x)"
    "\<And>x. x \<in> set xs \<Longrightarrow> operands x = Inr (h x)"
    "map (eval_condition t) xs = map Inr (map g xs)"
    "concat_res (map operands xs) = Inr (concat (map h xs))"
    using wf_condition_values [OF wf(1), of t] by metis
  have "TRUE \<in> set (map g xs)"
    using 2(3) wf(2,3) gh(3) nonempty_values [of "map g xs"]
    by (auto simp: all_of_values any_of_values simp del: map_map set_map split: if_splits)
  then have "\<exists>x\<in>set xs. g x = TRUE" by (metis imageE list.set_map)
  moreover have "ops = concat (map h xs)" using 2(4) wf(3) gh(4) by auto
  then have "set (h x) \<subseteq> set ops" if "x \<in> set xs" for x using that by auto
  ultimately show ?case using 2(1,2) gh(1,2) wf(1) by (fastforce simp: list_all_iff)
next
  case (3 op k n k' xs)
  then have wf: "list_all wf_condition xs" "xs \<noteq> []" "op = ''n_of''" "k = ''n''" "k' = ''of''" "1 \<le> n"
    by auto
  obtain g h where gh: "\<And>x. x \<in> set xs \<Longrightarrow> eval_condition t x = Inr (g x)"
    "\<And>x. x \<in> set xs \<Longrightarrow> operands x = Inr (h x)"
    "map (eval_condition t) xs = map Inr (map g xs)"
    "concat_res (map operands xs) = Inr (concat (map h xs))"
    using wf_condition_values [OF wf(1), of t] by metis
  have "n_of n (map g xs) = Inr TRUE"
    using 3(3) wf gh(3) by (simp add: all_values_Inr del: map_map)
  then have "TRUE \<in> set (map g xs)"
    using wf(6) count_zero [of "map g xs" TRUE] by (auto simp: n_of_counts simp del: count_zero split: if_splits)
  then have "\<exists>x\<in>set xs. g x = TRUE" by (metis imageE list.set_map)
  moreover have "set (h x) \<subseteq> set ops" if "x \<in> set xs" for x
    using 3(4) wf gh(4) that by auto
  ultimately show ?case using 3(1,2) gh(1,2) wf(1) by (fastforce simp: list_all_iff)
qed auto

section \<open>Which suppressors reach an indicator\<close>

lemma suppressors_of_extend1:
  "set (suppressors_of d t) \<subseteq> set (suppressors_of (extend_target occs x d) t)"
  "set occs \<subseteq> set (suppressors_of (extend_target occs x d) x)"
  by (auto simp: suppressors_of_def extend_target_def map_of_update split: option.splits)

lemma suppressors_of_extend:
  "set (suppressors_of d t) \<subseteq> set (suppressors_of (fold (extend_target occs) tgts d) t)"
proof (induction tgts arbitrary: d)
  case (Cons x tgts)
  show ?case using subset_trans [OF suppressors_of_extend1(1) Cons.IH] by simp
qed simp

lemma suppressors_of_extended:
  "t \<in> set tgts \<Longrightarrow> set occs \<subseteq> set (suppressors_of (fold (extend_target occs) tgts d) t)"
proof (induction tgts arbitrary: d)
  case (Cons x tgts)
  then show ?case
    using subset_trans [OF suppressors_of_extend1(2) suppressors_of_extend] by (cases "t = x") auto
qed simp

lemma suppressors_loop_grows:
  "suppressors_loop rk pf ctx active blocked nids d = Inr targets \<Longrightarrow>
     set (suppressors_of d t) \<subseteq> set (suppressors_of targets t)"
proof (induction nids arbitrary: d)
  case (Cons n nids)
  from Cons.prems consider "suppressors_loop rk pf ctx active blocked nids d = Inr targets"
    | ng :: negative where "suppressors_loop rk pf ctx active blocked nids
        (fold (extend_target (active_occurrences pf ctx n)) (ng_targets ng) d) = Inr targets"
    by (cases "rk_negative rk n") (auto simp: rbind_eq_Inr split: if_splits)
  then show ?case
    by cases (use Cons.IH subset_trans [OF suppressors_of_extend Cons.IH] in blast)+
qed simp

lemma suppressors_loop_mem:
  assumes "suppressors_loop rk pf ctx active blocked nids d = Inr targets" "nid \<in> set nids"
    "rk_negative rk nid = Some ng" "ng_effect ng = JStr ''SUPPRESS_INDICATOR''"
    "suppressor_blocked ng active blocked = Inr False" "t \<in> set (ng_targets ng)"
  shows "set (active_occurrences pf ctx nid) \<subseteq> set (suppressors_of targets t)"
  using assms(1,2)
proof (induction nids arbitrary: d)
  case (Cons n nids)
  show ?case
  proof (cases "n = nid")
    case True
    then have "suppressors_loop rk pf ctx active blocked nids
        (fold (extend_target (active_occurrences pf ctx nid)) (ng_targets ng) d) = Inr targets"
      using Cons.prems(1) assms(3-5) by simp
    from suppressors_loop_grows [OF this, of t] suppressors_of_extended [OF assms(6)]
    show ?thesis by blast
  next
    case False
    with Cons.prems obtain d' where "suppressors_loop rk pf ctx active blocked nids d' = Inr targets"
      by (auto simp: rbind_eq_Inr split: option.splits if_splits)
    with Cons.IH Cons.prems(2) False show ?thesis by auto
  qed
qed simp

text \<open>
  The occurrences no override can silence: active occurrences of the matched directional
  suppressors that are not override-blockable and name the indicator as a target.
\<close>

definition hard_suppressors ::
    "runtime_knowledge \<Rightarrow> profile \<Rightarrow> eval_context \<Rightarrow> string list \<Rightarrow> string \<Rightarrow> indicator_observation list" where
  "hard_suppressors rk pf ctx nids t =
     concat (map (\<lambda>nid. case rk_negative rk nid of
         Some ng \<Rightarrow> if ng_effect ng = JStr ''SUPPRESS_INDICATOR'' \<and> \<not> truthy (ng_blockable ng) \<and>
                        t \<in> set (ng_targets ng)
                     then active_occurrences pf ctx nid else []
       | None \<Rightarrow> []) nids)"

lemma hard_suppressors_subset:
  assumes "active_suppressor_occurrences rk pf ctx nids active blocked = Inr targets"
  shows "set (hard_suppressors rk pf ctx nids t) \<subseteq> set (suppressors_of targets t)"
proof -
  have "set (case rk_negative rk nid of
         Some ng \<Rightarrow> if ng_effect ng = JStr ''SUPPRESS_INDICATOR'' \<and> \<not> truthy (ng_blockable ng) \<and>
                        t \<in> set (ng_targets ng)
                     then active_occurrences pf ctx nid else []
       | None \<Rightarrow> []) \<subseteq> set (suppressors_of targets t)" if "nid \<in> set nids" for nid
    using suppressors_loop_mem [of rk pf ctx active blocked nids "[]" targets nid _ t] assms that
    by (cases "rk_negative rk nid") (auto simp: active_suppressor_occurrences_def suppressor_blocked_def)
  then show ?thesis by (auto simp: hard_suppressors_def)
qed

lemma live_evidence_antimono:
  "live_evidence pf ctx ss io \<Longrightarrow> set ss' \<subseteq> set ss \<Longrightarrow> live_evidence pf ctx ss' io"
  by (auto simp: live_evidence_def undisturbed_def)

section \<open>No match without live evidence\<close>

lemma truth_executed:
  assumes "execute_suppression pf ctx targets (positive_truth_map rk pf ctx) = (pt, ne, lp)"
    "combine_positive pf ctx i (suppressors_of targets i) = (v, r, n, g)"
  shows "truth pt i = (if i \<in> present_positive rk ctx then v else UNKNOWN)"
    and "i \<in> set ne \<longleftrightarrow> i \<in> present_positive rk ctx \<and> v = FALSE \<and> n"
    and "map_of lp i = (if i \<in> present_positive rk ctx \<and> g \<noteq> [] then Some g else None)"
proof -
  have "truth_state pf ctx (present_positive rk ctx) (suppressors_of targets) (pt, ne, lp)"
    using truth_state_executed [of pf ctx rk targets] assms(1) by simp
  then have "map_of pt i = (if i \<in> present_positive rk ctx then Some (v, r) else None) \<and>
      (i \<in> set ne \<longleftrightarrow> i \<in> present_positive rk ctx \<and> v = FALSE \<and> n) \<and>
      map_of lp i = (if i \<in> present_positive rk ctx \<and> g \<noteq> [] then Some g else None)"
    unfolding truth_state_def prod.case by (rule allE [of _ i]) (simp add: assms(2))
  then show "truth pt i = (if i \<in> present_positive rk ctx then v else UNKNOWN)"
    "i \<in> set ne \<longleftrightarrow> i \<in> present_positive rk ctx \<and> v = FALSE \<and> n"
    "map_of lp i = (if i \<in> present_positive rk ctx \<and> g \<noteq> [] then Some g else None)"
    by (simp_all add: truth_def)
qed

lemma truth_executed_TRUE:
  assumes "execute_suppression pf ctx targets (positive_truth_map rk pf ctx) = (pt, ne, lp)"
    "truth pt p = TRUE"
  shows "\<exists>io\<in>set (observations_for ctx p). live_evidence pf ctx (suppressors_of targets p) io"
    and "p \<in> set (positive_ids rk)" and "p \<in> present_positive rk ctx"
proof -
  obtain v r n g where c: "combine_positive pf ctx p (suppressors_of targets p) = (v, r, n, g)"
    by (metis prod_cases4)
  from truth_executed(1) [OF assms(1) c] assms(2)
  have "p \<in> present_positive rk ctx" "v = TRUE" by (auto split: if_splits)
  with c show "\<exists>io\<in>set (observations_for ctx p). live_evidence pf ctx (suppressors_of targets p) io"
    "p \<in> set (positive_ids rk)" "p \<in> present_positive rk ctx"
    by (simp_all add: combine_positive_TRUE [symmetric] present_positive_def)
qed

lemma composite_state_MATCHED: "composite_state req d = MATCHED \<longleftrightarrow> req = TRUE \<and> d"
  by (simp add: composite_state_def)

lemma composite_matched:
  assumes ev: "evaluate_composite rk pf r rid rver ctx = Inr res" and st: "rr_state res = MATCHED"
  shows "rr_required res = TRUE \<and>
    (\<exists>m. rr_min_classes res = Some m \<and> m \<le> int (length (rr_classes res)))"
proof (rule composite_cases [OF ev])
  fix m
  assume "rr_min_classes res = Some m"
    "rr_state res = composite_state (rr_required res) (m \<le> int (length (rr_classes res)))"
  then show ?thesis using st composite_state_MATCHED by metis
qed

lemma composite_matched_positive:
  assumes ev: "evaluate_composite rk pf r rid rver ctx = Inr res"
    and p: "p \<in> set (rr_matched_positive res)"
  shows "\<exists>io\<in>set (observations_for ctx p).
     live_evidence pf ctx (hard_suppressors rk pf ctx (rr_matched_negative res) p) io"
proof (rule composite_cases [OF ev])
  fix active blocked targets pt ne lp ops
  assume s: "active_suppressor_occurrences rk pf ctx (rr_matched_negative res) active blocked = Inr targets"
    "execute_suppression pf ctx targets (positive_truth_map rk pf ctx) = (pt, ne, lp)"
    "rr_matched_positive res =
       filter (\<lambda>o'. o' \<in> set (positive_ids rk) \<and> truth pt o' = TRUE) (sorted_unique ops)"
  then have "truth pt p = TRUE" using p by simp
  from truth_executed_TRUE(1) [OF s(2) this]
  show ?thesis by (meson live_evidence_antimono hard_suppressors_subset [OF s(1)])
qed

lemma composite_matched_operand:
  assumes ev: "evaluate_composite rk pf r rid rver ctx = Inr res" and st: "rr_state res = MATCHED"
    and logic: "ru_logic r = JObj logic" and wf: "wf_condition (jget logic ''require'')"
  shows "rr_matched_positive res \<noteq> []"
proof (rule composite_cases [OF ev])
  fix logic' min_classes targets pt ne lp ops
  assume s: "ru_logic r = JObj logic'"
    "execute_suppression pf ctx targets (positive_truth_map rk pf ctx) = (pt, ne, lp)"
    "eval_condition (truth pt) (jget logic' ''require'') = Inr (rr_required res)"
    "operands (jget logic' ''require'') = Inr ops"
    "rr_matched_positive res =
       filter (\<lambda>o'. o' \<in> set (positive_ids rk) \<and> truth pt o' = TRUE) (sorted_unique ops)"
    "rr_state res = composite_state (rr_required res) (min_classes \<le> int (length (rr_classes res)))"
  have "rr_required res = TRUE" using composite_matched [OF ev st] by blast
  then obtain i where "i \<in> set ops" "truth pt i = TRUE"
    using wf_condition_TRUE_operand [OF wf, of "truth pt" ops] s(1,3,4) logic by auto
  then show ?thesis
    using truth_executed_TRUE(2) [OF s(2)] by (auto simp: s(5) filter_empty_conv)
qed

section \<open>Provenance, neutralisation and severity\<close>

lemma map_of_map_filter_entry:
  "map_of (List.map_filter (groups_entry lp) xs) i =
     (if i \<in> set xs then (case map_of lp i of Some g \<Rightarrow> if g = [] then None else Some g | None \<Rightarrow> None) else None)"
  by (induction xs) (auto simp: List.map_filter_simps groups_entry_def split: option.splits)

lemma combine_positive_groups:
  assumes "combine_positive pf ctx i ss = (v, r, n, g)"
  shows "set g = (\<lambda>io. sorted_unique (io_refs io)) ` {io\<in>set (observations_for ctx i). live_evidence pf ctx ss io}"
proof -
  have "{io \<in> set (observations_for ctx i). live_evidence pf ctx ss io \<and> io_refs io \<noteq> []} =
      {io \<in> set (observations_for ctx i). live_evidence pf ctx ss io}"
    by (auto simp: live_evidence_def)
  moreover have "g = sorted_unique (map (\<lambda>io. sorted_unique (io_refs io))
      (filter (\<lambda>io. fst (occurrence pf ctx ss io) = TRUE \<and> io_refs io \<noteq> []) (observations_for ctx i)))"
    using assms by (auto simp: combine_positive_def Let_def split: if_splits)
  ultimately show ?thesis by (simp add: occurrence_TRUE)
qed

text \<open>The provenance of a matched indicator is the references of its live occurrences, no more and no less.\<close>

lemma composite_provenance:
  assumes ev: "evaluate_composite rk pf r rid rver ctx = Inr res"
    and p: "p \<in> set (rr_matched_positive res)"
  obtains ss g where "map_of (rr_provenance res) p = Some g" "g \<noteq> []"
    "set (hard_suppressors rk pf ctx (rr_matched_negative res) p) \<subseteq> set ss"
    "set g = (\<lambda>io. sorted_unique (io_refs io)) ` {io\<in>set (observations_for ctx p). live_evidence pf ctx ss io}"
proof (rule composite_cases [OF ev])
  fix active blocked targets pt ne lp ops
  assume s: "active_suppressor_occurrences rk pf ctx (rr_matched_negative res) active blocked = Inr targets"
    "execute_suppression pf ctx targets (positive_truth_map rk pf ctx) = (pt, ne, lp)"
    "rr_matched_positive res =
       filter (\<lambda>o'. o' \<in> set (positive_ids rk) \<and> truth pt o' = TRUE) (sorted_unique ops)"
    "rr_provenance res = List.map_filter (groups_entry lp) (rr_matched_positive res)"
  let ?ss = "suppressors_of targets p"
  obtain v r n g where c: "combine_positive pf ctx p ?ss = (v, r, n, g)" by (metis prod_cases4)
  have pT: "truth pt p = TRUE" using s(3) p by simp
  note ev = truth_executed_TRUE [OF s(2) pT]
  note g = combine_positive_groups [OF c]
  from ev(1) g have ne: "g \<noteq> []" by (metis (mono_tags, lifting) empty_iff empty_set imageI mem_Collect_eq)
  have "map_of (rr_provenance res) p = Some g"
    using truth_executed(3) [OF s(2) c] ev(3) ne p by (simp add: s(4) map_of_map_filter_entry)
  with ne g show thesis by (intro that [of g ?ss] hard_suppressors_subset [OF s(1)])
qed

text \<open>
  A neutralised indicator has an occurrence that structure or an associated suppressor forced to
  FALSE, and none that counts.
\<close>

lemma composite_neutralised:
  assumes ev: "evaluate_composite rk pf r rid rver ctx = Inr res"
    and i: "i \<in> set (rr_neutralised res)"
  shows "i \<notin> set (rr_matched_positive res)" "observations_for ctx i \<noteq> []"
proof -
  obtain targets pt ne lp ops where s:
    "execute_suppression pf ctx targets (positive_truth_map rk pf ctx) = (pt, ne, lp)"
    "rr_matched_positive res =
       filter (\<lambda>o'. o' \<in> set (positive_ids rk) \<and> truth pt o' = TRUE) (sorted_unique ops)"
    "rr_neutralised res = sorted_unique ne"
    by (rule composite_cases [OF ev]) blast
  obtain v r n g where c: "combine_positive pf ctx i (suppressors_of targets i) = (v, r, n, g)"
    by (metis prod_cases4)
  from truth_executed(2) [OF s(1) c] i s(3)
  have "i \<in> present_positive rk ctx" "v = FALSE" n by simp_all
  with truth_executed(1) [OF s(1) c] s(2) show "i \<notin> set (rr_matched_positive res)" by simp
  show "observations_for ctx i \<noteq> []"
    using c \<open>n\<close> by (auto simp: combine_positive_def Let_def)
qed

lemma sev_min_base_min: "sev_min_base a b = Inr l \<Longrightarrow> l = (case b of None \<Rightarrow> a | Some b' \<Rightarrow> min a b')"
  by (cases a; cases b; simp add: sev_min_base_def severity_index_def SEVERITY_ORDER_def rbind_eq_Inr
      split: if_splits)
    (auto simp: min_def level_order rbind_eq_Inr SEVERITY_ORDER_def split: if_splits)

lemma composite_effective:
  assumes "evaluate_composite rk pf r rid rver ctx = Inr res"
  shows "rr_effective res =
     map_option (\<lambda>d. case ru_severity_cap r of None \<Rightarrow> d | Some c \<Rightarrow> min d c) (rr_declared res)"
  by (rule composite_cases [OF assms])
    (auto simp: effective_of_def rbind_eq_Inr dest!: sev_min_base_min split: option.splits)

section \<open>Every published rule has a result\<close>

lemma evaluate_rule_body_id:
  "evaluate_rule_body rk pf r rid rver k ctx = Inr res \<Longrightarrow> rr_rule_id res = rid"
  by (auto simp: evaluate_rule_body_def evaluate_suppression_def rbind_eq_Inr Let_def
      split: json.splits if_splits elim: composite_cases)

lemma run_isolated_id: "run_isolated rk pf r rid rver k ctx = Inr res \<Longrightarrow> rr_rule_id res = rid"
  by (auto simp: run_isolated_def split: sum.splits exc.splits if_splits dest: evaluate_rule_body_id)

lemma evaluate_validated_total:
  assumes "wf_knowledge rk"
  shows "\<exists>res. evaluate_validated rk pf rid ctx = Inr res \<and> rr_rule_id res = rid"
proof (cases "rk_rule rk rid")
  case (Some r)
  have "ru_id r = rid" by (rule wf_rule_id [OF assms Some])
  with Some run_isolated_Inr run_isolated_id show ?thesis
    by (auto simp: evaluate_validated_def) metis
qed (simp add: evaluate_validated_def)

lemma evaluate_rules_total:
  assumes "wf_knowledge rk" "build_validated_context io_ok obs_ok inds obs lang scr = Inr ctx"
  shows "\<exists>rs. evaluate_rules_from_governed io_ok obs_ok rk pf inds obs lang scr = Inr rs \<and>
     map rr_rule_id rs = published_rule_ids rk"
proof -
  have "\<forall>rid. \<exists>res. evaluate_validated rk pf rid ctx = Inr res \<and> rr_rule_id res = rid"
    using evaluate_validated_total [OF assms(1)] by blast
  from choice [OF this] obtain f where
    f: "\<And>rid. evaluate_validated rk pf rid ctx = Inr (f rid)" "\<And>rid. rr_rule_id (f rid) = rid"
    by blast
  then have "map_res (\<lambda>rid. evaluate_validated rk pf rid ctx) (published_rule_ids rk) =
      Inr (map f (published_rule_ids rk))"
    by (intro map_res_Inr_all) simp
  then show ?thesis using f(2) by (simp add: evaluate_rules_from_governed_def assms(2) comp_def)
qed

section \<open>One rule cannot disturb another\<close>

text \<open>
  What the evaluation of a rule reads besides the rule itself: the indicator, negative-indicator
  and override libraries. Two bundles that agree on them and on the rule give it the same result,
  whatever else they hold.
\<close>

definition same_library :: "runtime_knowledge \<Rightarrow> runtime_knowledge \<Rightarrow> bool" where
  "same_library rk rk' \<longleftrightarrow> indicators_by_id rk = indicators_by_id rk' \<and>
     negative_indicators_by_id rk = negative_indicators_by_id rk' \<and>
     overrides_by_id rk = overrides_by_id rk'"

lemma overrides_loop_library:
  "same_library rk rk' \<Longrightarrow> overrides_loop rk rid cats t oids a b = overrides_loop rk' rid cats t oids a b"
  by (induction oids arbitrary: a b)
    (auto simp: same_library_def rk_override_def rbind_def split: option.split sum.split)

lemma suppressors_loop_library:
  "same_library rk rk' \<Longrightarrow> suppressors_loop rk pf ctx a b nids d = suppressors_loop rk' pf ctx a b nids d"
  by (induction nids arbitrary: d)
    (auto simp: same_library_def rk_negative_def rbind_def split: option.split sum.split)

lemma candidates_loop_library:
  "same_library rk rk' \<Longrightarrow> candidates_loop rk cats ov nids b c = candidates_loop rk' cats ov nids b c"
  by (induction nids arbitrary: b c)
    (auto simp: same_library_def rk_negative_def rbind_def split: option.split sum.split)

lemma run_isolated_library:
  assumes "same_library rk rk'"
  shows "run_isolated rk pf r rid rver k ctx = run_isolated rk' pf r rid rver k ctx"
proof -
  have eqs: "positive_ids rk = positive_ids rk'" "negative_ids rk = negative_ids rk'"
    "rk_negative rk = rk_negative rk'" "rk_indicator rk = rk_indicator rk'"
    "dict_keys (overrides_by_id rk) = dict_keys (overrides_by_id rk')"
    using assms by (auto simp: same_library_def positive_ids_def negative_ids_def
        rk_negative_def rk_indicator_def)
  have "positive_truth_map rk pf ctx = positive_truth_map rk' pf ctx"
    "negative_truth_map rk pf ctx = negative_truth_map rk' pf ctx"
    "evidence_classes_of rk = evidence_classes_of rk'"
    "negative_applies rk = negative_applies rk'"
    by (simp_all add: positive_truth_map_def negative_truth_map_def evidence_classes_of_def
        negative_applies_def eqs fun_eq_iff)
  then show ?thesis
    unfolding run_isolated_def evaluate_rule_body_def evaluate_composite_def evaluate_suppression_def
      active_overrides_def active_suppressor_occurrences_def suppression_candidates_def
      matched_negatives_def active_negatives_def
    by (simp only: eqs overrides_loop_library [OF assms] suppressors_loop_library [OF assms]
        candidates_loop_library [OF assms])
qed

lemma evaluate_validated_library:
  "same_library rk rk' \<Longrightarrow> rk_rule rk rid = rk_rule rk' rid \<Longrightarrow>
     evaluate_validated rk pf rid ctx = evaluate_validated rk' pf rid ctx"
  by (cases "rk_rule rk' rid") (simp_all add: evaluate_validated_def run_isolated_library [of rk rk'])

lemma evaluate_validated_published:
  "evaluate_validated rk pf rid ctx = Inr res \<Longrightarrow> rr_state res \<noteq> NOT_APPLICABLE \<Longrightarrow>
     \<exists>r. rk_rule rk rid = Some r \<and> ru_status r = Some ''PUBLISHED''"
  by (auto simp: evaluate_validated_def split: option.splits if_splits)

end
