(* ===== verification/SuppressionProps.thy ===== *)
theory SuppressionProps
  imports Suppression MatchSafety
begin

text \<open>
  What the suppression stage promises: it never raises and keeps the rule's identity and truth (the
  contract of Stage), severity can only go down, only a matched composite rule can become
  SUPPRESSED, an override blocks exactly the blockable effects of the categories it lists, and a
  result cannot pass the stage twice.
\<close>

section \<open>The stage is total\<close>

fun stage_fault :: "exc \<Rightarrow> bool" where
  "stage_fault (SuppressionExecutionError _) = True"
| "stage_fault e = per_rule_fault e"

definition stage_faults :: "'a res \<Rightarrow> bool" where
  "stage_faults r \<longleftrightarrow> (\<forall>e. r = Inl e \<longrightarrow> stage_fault e)"

named_theorems stage_intros "operations of the suppression stage that raise faults it handles"

lemma stage_faults_base [simp]:
  "stage_faults (Inr x)" "stage_faults (Inl e) \<longleftrightarrow> stage_fault e"
  by (simp_all add: stage_faults_def)

lemma stage_faults_rbind [stage_intros]:
  "stage_faults r \<Longrightarrow> (\<And>x. r = Inr x \<Longrightarrow> stage_faults (f x)) \<Longrightarrow> stage_faults (rbind r f)"
  by (cases r) simp_all

lemma stage_faults_guard [stage_intros]: "stage_fault e \<Longrightarrow> stage_faults (guard ok e)"
  by (simp add: guard_def)

lemma stage_faults_categories [stage_intros]: "stage_faults (blocked_categories rk oids)"
  by (induction oids) (auto split: option.split intro!: stage_intros)

lemma stage_faults_resolve_one [stage_intros]: "stage_faults (resolve_one cats nid ng ef)"
  by (auto simp: resolve_one_def check_effect_def in_string_set_def Let_def
      split: option.split intro!: stage_intros)

lemma stage_faults_resolve [stage_intros]: "stage_faults (resolve_effects rk cats nids ef)"
  by (induction nids arbitrary: ef) (auto split: option.split intro!: stage_intros)

lemma stage_faults_sev [stage_intros]: "stage_faults (sev_min a b)"
  by (auto simp: sev_min_def sev_min_base_def severity_index_def split: option.split intro!: stage_intros)

lemma stage_faults_fold [stage_intros]: "stage_faults (fold_res (\<lambda>c l. sev_min l (Some c)) cs l)"
  by (induction cs arbitrary: l) (auto intro!: stage_intros)

lemma stage_faults_apply: "stage_faults (apply_effects rk r)"
  by (auto simp: apply_effects_def validate_matched_input_def cross_check_blocked_def Let_def
      split: option.split intro!: stage_intros)

lemma apply_suppression_total: "\<exists>r'. apply_suppression rk r = Inr r'"
  using stage_faults_apply [of rk r]
  by (cases "apply_effects rk r") (auto simp: apply_suppression_def split: exc.split)

lemma canonicalize_fields [simp]:
  "rr_rule_id (canonicalize_result r) = rr_rule_id r"
  "rr_rule_version (canonicalize_result r) = rr_rule_version r"
  "rr_kind (canonicalize_result r) = rr_kind r"
  "rr_state (canonicalize_result r) = rr_state r"
  "rr_required (canonicalize_result r) = rr_required r"
  "rr_effective (canonicalize_result r) = rr_effective r"
  "rr_matched_negative (canonicalize_result r) = sorted_unique (rr_matched_negative r)"
  "rr_overrides (canonicalize_result r) = sorted_unique (rr_overrides r)"
  "rr_suppression (canonicalize_result r) = map_option canonicalize_suppression (rr_suppression r)"
  "has_wp5_fields (canonicalize_result r) = has_wp5_fields r"
  by (simp_all add: canonicalize_result_def has_wp5_fields_def)

lemma degraded_fields [simp]:
  "rr_rule_id (degraded_result r m) = rr_rule_id r" "rr_rule_version (degraded_result r m) = rr_rule_version r"
  "rr_kind (degraded_result r m) = rr_kind r" "rr_required (degraded_result r m) = rr_required r"
  "rr_state (degraded_result r m) = NOT_APPLICABLE"
  "rr_error (degraded_result r m) = Some (''SUPPRESSION_EXECUTION_ERROR'', m)"
  by (simp_all add: degraded_result_def)

lemma apply_effects_pass:
  "rr_kind r \<noteq> COMPOSITE \<or> rr_state r \<noteq> MATCHED \<Longrightarrow>
     apply_effects rk r = (if has_wp5_fields r then Inl (SuppressionExecutionError ''pre-populated WP5 fields'')
                           else Inr (canonicalize_result r))"
  by (simp add: apply_effects_def Let_def guard_def)

lemma apply_effects_act:
  assumes "apply_effects rk r = Inr r'" "rr_kind r = COMPOSITE" "rr_state r = MATCHED"
  obtains cats ef eff where
    "\<not> has_wp5_fields r"
    "validate_matched_input (canonicalize_result r) = Inr ()"
    "blocked_categories rk (sorted_unique (rr_overrides r)) = Inr cats"
    "resolve_effects rk cats (sorted_unique (rr_matched_negative r)) no_effects = Inr ef"
    "cross_check_blocked (canonicalize_result r) ef = Inr ()"
    "fold_res (\<lambda>c l. sev_min l (Some c)) (ef_ceilings ef) (rr_effective r) = Inr eff"
    "r' = (canonicalize_result r)\<lparr>rr_effective := (if eff = None then rr_effective r else eff),
       rr_state := (if ef_applied ef \<noteq> [] then SUPPRESSED else MATCHED),
       rr_suppression := Some (attach_suppression ef)\<rparr>"
proof -
  let ?out = "canonicalize_result r"
  have w: "\<not> has_wp5_fields r"
    using assms(1) by (auto simp: apply_effects_def Let_def guard_def)
  have "(rbind (validate_matched_input ?out) (\<lambda>_.
        rbind (blocked_categories rk (rr_overrides ?out)) (\<lambda>cats.
        rbind (resolve_effects rk cats (rr_matched_negative ?out) no_effects) (\<lambda>ef.
        rbind (cross_check_blocked ?out ef) (\<lambda>_.
        rbind (fold_res (\<lambda>c l. sev_min l (Some c)) (ef_ceilings ef) (rr_effective ?out)) (\<lambda>effective.
          Inr (?out\<lparr>rr_effective := (if effective = None then rr_effective ?out else effective),
                   rr_state := (if ef_applied ef \<noteq> [] then SUPPRESSED else rr_state ?out),
                   rr_suppression := Some (attach_suppression ef)\<rparr>)))))))  = Inr r'"
    (is "?run = _") using assms w by (simp add: apply_effects_def Let_def guard_def)
  then obtain cats where 1: "validate_matched_input ?out = Inr ()"
    "blocked_categories rk (sorted_unique (rr_overrides r)) = Inr cats"
    unfolding rbind_eq_Inr by auto
  note run = \<open>?run = Inr r'\<close> [simplified 1 canonicalize_fields rbind_simps]
  from run obtain ef where 2: "resolve_effects rk cats (sorted_unique (rr_matched_negative r)) no_effects = Inr ef"
    unfolding rbind_eq_Inr by auto
  note run = run [simplified 2 canonicalize_fields rbind_simps]
  from run obtain eff where 3: "cross_check_blocked ?out ef = Inr ()"
    "fold_res (\<lambda>c l. sev_min l (Some c)) (ef_ceilings ef) (rr_effective r) = Inr eff"
    unfolding rbind_eq_Inr by auto
  note run = run [simplified 3 canonicalize_fields rbind_simps]
  show thesis by (rule that [OF w 1 2 3]) (use run assms(3) in \<open>simp cong: if_cong\<close>)
qed

lemma apply_effects_keeps:
  assumes "apply_effects rk r = Inr r'"
  shows "rr_rule_id r' = rr_rule_id r \<and> rr_rule_version r' = rr_rule_version r \<and>
     rr_kind r' = rr_kind r \<and> rr_required r' = rr_required r"
proof (cases "rr_kind r \<noteq> COMPOSITE \<or> rr_state r \<noteq> MATCHED")
  case True
  then show ?thesis using assms by (auto simp: apply_effects_pass split: if_splits)
next
  case False
  then have "rr_kind r = COMPOSITE" "rr_state r = MATCHED" by auto
  then show ?thesis by - (rule apply_effects_act [OF assms], simp_all)
qed

lemma apply_suppression_cases:
  assumes "apply_suppression rk r = Inr r'"
  obtains "apply_effects rk r = Inr r'"
  | m e where "apply_effects rk r = Inl e" "r' = degraded_result r m"
  using assms by (auto simp: apply_suppression_def split: sum.splits exc.splits if_splits)

interpretation wp3: isolated_stage "\<lambda>rid. evaluate_validated rk pf rid ctx" for rk pf ctx
proof
  fix rid
  show "\<exists>r. evaluate_validated rk pf rid ctx = Inr r"
    using run_isolated_Inr by (auto simp: evaluate_validated_def split: option.split)
qed

interpretation wp4: rule_stage "apply_suppression rk" for rk
proof
  show "\<exists>r'. apply_suppression rk r = Inr r'" for r by (rule apply_suppression_total)
  show "rr_rule_id r' = rr_rule_id r \<and> rr_rule_version r' = rr_rule_version r \<and>
      rr_kind r' = rr_kind r \<and> rr_required r' = rr_required r"
    if "apply_suppression rk r = Inr r'" for r r'
    using that by (rule apply_suppression_cases) (auto dest: apply_effects_keeps)
qed

section \<open>The resolved effects\<close>

definition has_effect :: "runtime_knowledge \<Rightarrow> string list \<Rightarrow> string \<Rightarrow> bool \<Rightarrow> string \<Rightarrow> bool" where
  "has_effect rk cats eff b nid \<longleftrightarrow>
     (case rk_negative rk nid of None \<Rightarrow> False | Some ng \<Rightarrow> ng_effect ng = JStr eff \<and> is_blocked ng cats = b)"

definition surviving_cap :: "runtime_knowledge \<Rightarrow> string list \<Rightarrow> string \<Rightarrow> level \<Rightarrow> bool" where
  "surviving_cap rk cats nid c \<longleftrightarrow> has_effect rk cats ''CAP_SEVERITY'' False nid \<and>
     (case rk_negative rk nid of None \<Rightarrow> False | Some ng \<Rightarrow> cap_level (ng_cap ng) = Some c)"

lemma resolve_one_sets:
  assumes "resolve_one cats nid ng ef = Inr ef'" "rk_negative rk nid = Some ng"
  shows "set (ef_applied ef') = set (ef_applied ef) \<union> {n. n = nid \<and> has_effect rk cats ''SUPPRESS_RULE'' False n}"
    "set (ef_blocked ef') = set (ef_blocked ef) \<union> {n. n = nid \<and> has_effect rk cats ''SUPPRESS_RULE'' True n}"
    "set (ef_applied_caps ef') = set (ef_applied_caps ef) \<union> {n. n = nid \<and> has_effect rk cats ''CAP_SEVERITY'' False n}"
    "set (ef_blocked_caps ef') = set (ef_blocked_caps ef) \<union> {n. n = nid \<and> has_effect rk cats ''CAP_SEVERITY'' True n}"
    "set (ef_ceilings ef') = set (ef_ceilings ef) \<union> {c. surviving_cap rk cats nid c}"
  using assms by (auto simp: resolve_one_def rbind_eq_Inr Let_def has_effect_def surviving_cap_def
      split: if_splits option.splits)

lemma resolve_effects_sets:
  assumes "resolve_effects rk cats nids ef = Inr ef'"
  shows "set (ef_applied ef') = set (ef_applied ef) \<union> {n\<in>set nids. has_effect rk cats ''SUPPRESS_RULE'' False n}"
    "set (ef_blocked ef') = set (ef_blocked ef) \<union> {n\<in>set nids. has_effect rk cats ''SUPPRESS_RULE'' True n}"
    "set (ef_applied_caps ef') = set (ef_applied_caps ef) \<union> {n\<in>set nids. has_effect rk cats ''CAP_SEVERITY'' False n}"
    "set (ef_blocked_caps ef') = set (ef_blocked_caps ef) \<union> {n\<in>set nids. has_effect rk cats ''CAP_SEVERITY'' True n}"
    "set (ef_ceilings ef') = set (ef_ceilings ef) \<union> {c. \<exists>n\<in>set nids. surviving_cap rk cats n c}"
  using assms
proof (induction nids arbitrary: ef)
  case (Cons n nids)
  case 1
  then show ?case
    using Cons.IH(1) resolve_one_sets(1) [of cats n _ ef _ rk]
    by (fastforce simp: rbind_eq_Inr split: option.splits)
next
  case (Cons n nids)
  case 2
  then show ?case
    using Cons.IH(2) resolve_one_sets(2) [of cats n _ ef _ rk]
    by (fastforce simp: rbind_eq_Inr split: option.splits)
next
  case (Cons n nids)
  case 3
  then show ?case
    using Cons.IH(3) resolve_one_sets(3) [of cats n _ ef _ rk]
    by (fastforce simp: rbind_eq_Inr split: option.splits)
next
  case (Cons n nids)
  case 4
  then show ?case
    using Cons.IH(4) resolve_one_sets(4) [of cats n _ ef _ rk]
    by (fastforce simp: rbind_eq_Inr split: option.splits)
next
  case (Cons n nids)
  case 5
  then show ?case
    using Cons.IH(5) resolve_one_sets(5) [of cats n _ ef _ rk]
    by (fastforce simp: rbind_eq_Inr split: option.splits)
qed simp_all

section \<open>Outcomes\<close>

lemma fold_sev_min:
  "fold_res (\<lambda>c l. sev_min l (Some c)) cs (Some b) = Inr eff \<Longrightarrow> eff = Some (Min (insert b (set cs)))"
proof -
  have "fold_res (\<lambda>c l. sev_min l (Some c)) cs (Some b) = Inr eff \<Longrightarrow> eff = Some (fold min cs b)" for b
    by (induction cs arbitrary: b)
      (auto simp: sev_min_def rbind_eq_Inr dest!: sev_min_base_min simp: min.commute)
  then show "fold_res (\<lambda>c l. sev_min l (Some c)) cs (Some b) = Inr eff \<Longrightarrow> ?thesis"
    using Min.set_eq_fold [of b cs] by simp
qed

lemma no_effects_sets [simp]:
  "ef_applied no_effects = []" "ef_blocked no_effects = []" "ef_applied_caps no_effects = []"
  "ef_blocked_caps no_effects = []" "ef_ceilings no_effects = []" "ef_context no_effects = []"
  by (simp_all add: no_effects_def)

text \<open>The outcome of a successful run on a matched composite result, over the resolved categories.\<close>

lemma apply_effects_outcome:
  assumes "apply_effects rk r = Inr r'" "rr_kind r = COMPOSITE" "rr_state r = MATCHED"
  obtains cats base where
    "blocked_categories rk (sorted_unique (rr_overrides r)) = Inr cats"
    "rr_required r = TRUE" "rr_effective r = Some base"
    "rr_state r' = (if \<exists>n\<in>set (rr_matched_negative r). has_effect rk cats ''SUPPRESS_RULE'' False n
                    then SUPPRESSED else MATCHED)"
    "rr_effective r' =
       Some (Min (insert base {c. \<exists>n\<in>set (rr_matched_negative r). surviving_cap rk cats n c}))"
proof (rule apply_effects_act [OF assms])
  fix cats ef eff
  assume s: "validate_matched_input (canonicalize_result r) = Inr ()"
    "blocked_categories rk (sorted_unique (rr_overrides r)) = Inr cats"
    "resolve_effects rk cats (sorted_unique (rr_matched_negative r)) no_effects = Inr ef"
    "fold_res (\<lambda>c l. sev_min l (Some c)) (ef_ceilings ef) (rr_effective r) = Inr eff"
    "r' = (canonicalize_result r)\<lparr>rr_effective := (if eff = None then rr_effective r else eff),
       rr_state := (if ef_applied ef \<noteq> [] then SUPPRESSED else MATCHED),
       rr_suppression := Some (attach_suppression ef)\<rparr>"
  obtain base where base: "rr_effective r = Some base" "rr_required r = TRUE"
    using s(1) by (auto simp: validate_matched_input_def rbind_eq_Inr split: option.splits)
  note sets = resolve_effects_sets [OF s(3)]
  have eff: "eff = Some (Min (insert base {c. \<exists>n\<in>set (rr_matched_negative r). surviving_cap rk cats n c}))"
    using fold_sev_min [of "ef_ceilings ef" base eff] s(4) base(1) sets(5) by simp
  have "ef_applied ef \<noteq> [] \<longleftrightarrow> (\<exists>n\<in>set (rr_matched_negative r). has_effect rk cats ''SUPPRESS_RULE'' False n)"
    using sets(1) by (auto simp: set_empty [symmetric] simp del: set_empty)
  with eff s(5) show thesis by (intro that [OF s(2) base(2,1)]) simp_all
qed

lemma surviving_caps_finite: "finite {c. \<exists>n\<in>set ns. surviving_cap rk cats n c}"
proof (rule finite_subset)
  show "{c. \<exists>n\<in>set ns. surviving_cap rk cats n c} \<subseteq> {LOW, MEDIUM, HIGH}"
    by (auto simp: surviving_cap_def split: option.splits json.splits if_splits elim!: cap_level.elims)
qed simp

lemma apply_suppression_state:
  assumes "apply_suppression rk r = Inr r'" "rr_state r' \<noteq> rr_state r"
  shows "rr_state r' = NOT_APPLICABLE \<and> (\<exists>m. rr_error r' = Some (''SUPPRESSION_EXECUTION_ERROR'', m)) \<or>
    rr_state r' = SUPPRESSED \<and> rr_state r = MATCHED \<and> rr_kind r = COMPOSITE \<and> rr_required r = TRUE"
  using assms(1)
proof (rule apply_suppression_cases)
  assume ok: "apply_effects rk r = Inr r'"
  show ?thesis
  proof (cases "rr_kind r \<noteq> COMPOSITE \<or> rr_state r \<noteq> MATCHED")
    case True
    then show ?thesis using ok assms(2) by (auto simp: apply_effects_pass split: if_splits)
  next
    case False
    then show ?thesis using assms(2)
      by - (rule apply_effects_outcome [OF ok], auto split: if_splits)
  qed
qed auto

lemma apply_suppression_lowers:
  assumes "apply_suppression rk r = Inr r'" "rr_effective r' = Some e'"
  shows "\<exists>e. rr_effective r = Some e \<and> e' \<le> e"
  using assms(1)
proof (rule apply_suppression_cases)
  assume ok: "apply_effects rk r = Inr r'"
  show ?thesis
  proof (cases "rr_kind r \<noteq> COMPOSITE \<or> rr_state r \<noteq> MATCHED")
    case True
    then show ?thesis using ok assms(2) by (auto simp: apply_effects_pass split: if_splits)
  next
    case False
    then show ?thesis using assms(2)
      by - (rule apply_effects_outcome [OF ok],
        auto simp: surviving_caps_finite intro!: Min_le finite.insertI)
  qed
next
  fix m e assume "r' = degraded_result r m"
  then show ?thesis using assms(2) by (simp add: degraded_result_def blank_result_def)
qed

text \<open>A result that left the stage MATCHED carries the stage's own keys and is refused by it.\<close>

lemma apply_suppression_twice:
  assumes "apply_suppression rk r = Inr r'" "rr_kind r = COMPOSITE" "rr_state r' = MATCHED"
  shows "\<exists>m. apply_suppression rk r' = Inr (degraded_result r' m)"
  using assms(1)
proof (rule apply_suppression_cases)
  assume ok: "apply_effects rk r = Inr r'"
  have m: "rr_state r = MATCHED"
    using apply_suppression_state [OF assms(1)] assms(3) by (cases "rr_state r = MATCHED") auto
  have kind: "rr_kind r' = COMPOSITE" using apply_effects_keeps [OF ok] assms(2) by simp
  have "\<exists>ef. rr_suppression r' = Some (attach_suppression ef)"
    by (rule apply_effects_act [OF ok assms(2) m], simp, blast)
  then have "\<not> (\<exists>u. validate_matched_input (canonicalize_result r') = Inr u)"
    by (auto simp: validate_matched_input_def rbind_eq_Inr has_wp4_keys_def attach_suppression_def
        canonicalize_suppression_def Let_def)
  then have "\<nexists>r''. apply_effects rk r' = Inr r''"
    using apply_effects_act [OF _ kind assms(3)] by metis
  then obtain e where e: "apply_effects rk r' = Inl e" by (cases "apply_effects rk r'") auto
  obtain r2 where r2: "apply_suppression rk r' = Inr r2" using apply_suppression_total by blast
  then show ?thesis by (rule apply_suppression_cases) (use e r2 in auto)
qed (use assms(3) in simp)

section \<open>Overrides only raise\<close>

lemma blocked_categories_set:
  "blocked_categories rk oids = Inr cats \<Longrightarrow>
     c \<in> set cats \<longleftrightarrow> (\<exists>oid\<in>set oids. \<exists>ov cs. rk_override rk oid = Some ov \<and> ov_blocks ov = Some cs \<and> c \<in> set cs)"
  by (induction oids arbitrary: cats) (fastforce simp: rbind_eq_Inr split: option.splits if_splits)+

lemma blocked_categories_mono:
  assumes "blocked_categories rk oids = Inr cats" "blocked_categories rk oids' = Inr cats'"
    "set oids \<subseteq> set oids'"
  shows "set cats \<subseteq> set cats'"
  using assms(3) blocked_categories_set [OF assms(1)] blocked_categories_set [OF assms(2)] by blast

lemma has_effect_mono:
  "set cats \<subseteq> set cats' \<Longrightarrow> has_effect rk cats' eff False n \<Longrightarrow> has_effect rk cats eff False n"
  by (auto simp: has_effect_def is_blocked_def split: option.splits)

lemma apply_effects_overrides_mono:
  assumes r: "apply_effects rk r = Inr r'" "rr_kind r = COMPOSITE" "rr_state r = MATCHED"
    and q: "apply_effects rk (r\<lparr>rr_overrides := os\<rparr>) = Inr q'"
    and sub: "set (rr_overrides r) \<subseteq> set os"
  shows "rr_state r' = MATCHED \<Longrightarrow> rr_state q' = MATCHED" "the (rr_effective r') \<le> the (rr_effective q')"
proof -
  let ?ns = "set (rr_matched_negative r)"
  let ?caps = "\<lambda>cats. {c. \<exists>n\<in>?ns. surviving_cap rk cats n c}"
  obtain cats base where 1: "blocked_categories rk (sorted_unique (rr_overrides r)) = Inr cats"
    "rr_effective r = Some base"
    "rr_state r' = (if \<exists>n\<in>?ns. has_effect rk cats ''SUPPRESS_RULE'' False n then SUPPRESSED else MATCHED)"
    "rr_effective r' = Some (Min (insert base (?caps cats)))"
    by (rule apply_effects_outcome [OF r]) blast
  obtain cats' where 2: "blocked_categories rk (sorted_unique os) = Inr cats'"
    "rr_state q' = (if \<exists>n\<in>?ns. has_effect rk cats' ''SUPPRESS_RULE'' False n then SUPPRESSED else MATCHED)"
    "rr_effective q' = Some (Min (insert base (?caps cats')))"
    by (rule apply_effects_outcome [OF q]) (use r(2,3) 1(2) in simp_all)
  have cats: "set cats \<subseteq> set cats'"
    by (rule blocked_categories_mono [OF 1(1) 2(1)]) (use sub in simp)
  show "rr_state q' = MATCHED" if "rr_state r' = MATCHED"
    using that 1(3) 2(2) has_effect_mono [OF cats] by (auto split: if_splits)
  have "?caps cats' \<subseteq> ?caps cats"
    using has_effect_mono [OF cats] by (auto simp: surviving_cap_def)
  then have "Min (insert base (?caps cats)) \<le> Min (insert base (?caps cats'))"
    by (intro Min_antimono) (auto simp: surviving_caps_finite)
  then show "the (rr_effective r') \<le> the (rr_effective q')" by (simp add: 1(4) 2(3))
qed

section \<open>On a governed library the stage accepts what the evaluator emits\<close>

definition governed_negative :: "negative \<Rightarrow> bool" where
  "governed_negative ng \<longleftrightarrow> list_ex (\<lambda>e. ng_effect ng = JStr e) KNOWN_EFFECTS \<and>
     is_jbool (ng_blockable ng) \<and> nonempty_jstr (ng_category ng) \<and>
     (ng_effect ng = JStr ''CAP_SEVERITY'' \<longrightarrow> cap_level (ng_cap ng) \<noteq> None)"

definition soft_blockable :: "negative \<Rightarrow> bool" where
  "soft_blockable ng \<longleftrightarrow>
     (ng_effect ng \<in> {JStr ''SUPPRESS_RULE'', JStr ''CAP_SEVERITY''} \<longrightarrow> truthy (ng_blockable ng))"

definition governed_library :: "runtime_knowledge \<Rightarrow> bool" where
  "governed_library rk \<longleftrightarrow>
     list_all (\<lambda>(_, ng). governed_negative ng \<and> soft_blockable ng) (negative_indicators_by_id rk) \<and>
     list_all (\<lambda>(_, ov). case ov_blocks ov of None \<Rightarrow> False | Some cs \<Rightarrow> list_all (\<lambda>c. c \<noteq> []) cs)
       (overrides_by_id rk)"

lemma governed_negativeD:
  "governed_library rk \<Longrightarrow> rk_negative rk n = Some ng \<Longrightarrow> governed_negative ng \<and> soft_blockable ng"
  by (auto simp: governed_library_def rk_negative_def list_all_iff dest!: map_of_SomeD)

lemma governed_overrideD:
  "governed_library rk \<Longrightarrow> rk_override rk n = Some ov \<Longrightarrow> \<exists>cs. ov_blocks ov = Some cs \<and> (\<forall>c\<in>set cs. c \<noteq> [])"
  by (auto simp: governed_library_def rk_override_def list_all_iff split: option.splits dest!: map_of_SomeD)

lemma blocked_categories_ok:
  assumes "governed_library rk" "\<And>oid. oid \<in> set oids \<Longrightarrow> rk_override rk oid \<noteq> None"
  shows "\<exists>cats. blocked_categories rk oids = Inr cats"
  using assms(2)
proof (induction oids)
  case (Cons o' oids)
  then obtain ov where "rk_override rk o' = Some ov" by auto
  with Cons governed_overrideD [OF assms(1) this] show ?case by (auto simp: list_ex_iff)
qed simp

lemma resolve_one_ok: "governed_negative ng \<Longrightarrow> \<exists>ef'. resolve_one cats nid ng ef = Inr ef'"
  by (auto simp: governed_negative_def resolve_one_def check_effect_def in_string_set_def KNOWN_EFFECTS_def
      Let_def guard_def split: option.split)

lemma resolve_effects_ok:
  assumes "governed_library rk" "\<And>n. n \<in> set nids \<Longrightarrow> rk_negative rk n \<noteq> None"
  shows "\<exists>ef'. resolve_effects rk cats nids ef = Inr ef'"
  using assms(2)
proof (induction nids arbitrary: ef)
  case (Cons n nids)
  then obtain ng where ng: "rk_negative rk n = Some ng" by auto
  obtain ef1 where "resolve_one cats n ng ef = Inr ef1"
    using resolve_one_ok governed_negativeD [OF assms(1) ng] by blast
  with Cons ng show ?case by simp
qed simp

lemma overrides_loop_spec:
  assumes "overrides_loop rk rid cats t oids a b = Inr (a', b')"
  shows "\<exists>new. a' = a @ new \<and> (\<forall>n\<in>set new. rk_override rk n \<noteq> None) \<and>
    set b' = set b \<union> {c. \<exists>n\<in>set new. \<exists>ov cs. rk_override rk n = Some ov \<and> ov_blocks ov = Some cs \<and> c \<in> set cs}"
  using assms
proof (induction oids arbitrary: a b)
  case (Cons n oids)
  then obtain ov where ov: "rk_override rk n = Some ov" by (auto split: option.splits)
  let ?b = "b @ (case ov_blocks ov of None \<Rightarrow> [] | Some cs \<Rightarrow> cs)"
  from Cons.prems ov consider "overrides_loop rk rid cats t oids a b = Inr (a', b')"
    | "overrides_loop rk rid cats t oids (a @ [n]) ?b = Inr (a', b')"
    by (auto simp: rbind_eq_Inr split: if_splits)
  then show ?case
  proof cases
    case 1
    then show ?thesis by (rule Cons.IH)
  next
    case 2
    from Cons.IH [OF 2] obtain new where new: "a' = a @ n # new" "\<forall>n\<in>set new. rk_override rk n \<noteq> None"
      "set b' = set ?b \<union> {c. \<exists>n\<in>set new. \<exists>ov cs. rk_override rk n = Some ov \<and> ov_blocks ov = Some cs \<and> c \<in> set cs}"
      by auto
    then show ?thesis using ov
      by (intro exI [of _ "n # new"]) (auto split: option.splits)
  qed
qed simp

definition candidate :: "runtime_knowledge \<Rightarrow> string list \<Rightarrow> string \<Rightarrow> bool" where
  "candidate rk cats n \<longleftrightarrow> (case rk_negative rk n of
     None \<Rightarrow> False
   | Some ng \<Rightarrow> (ng_effect ng = JStr ''SUPPRESS_RULE'' \<or> ng_effect ng = JStr ''CAP_SEVERITY'') \<and>
       (\<exists>k\<in>set cats. ng_category ng = JStr k))"

lemma candidates_loop_step:
  assumes "candidates_loop rk cats ov (n # nids) b c = Inr r"
  shows "\<exists>c1. candidates_loop rk cats ov nids (if ov \<and> candidate rk cats n then b @ [n] else b) c1 = Inr r"
proof (cases "rk_negative rk n")
  case (Some ng)
  show ?thesis
  proof (cases "ng_effect ng = JStr ''CONTEXT_ONLY''")
    case False
    show ?thesis
    proof (cases "ov \<and> (ng_effect ng = JStr ''SUPPRESS_RULE'' \<or> ng_effect ng = JStr ''CAP_SEVERITY'')")
      case True
      then obtain bl where bl: "in_string_set (ng_category ng) cats = Inr bl"
        "candidates_loop rk cats ov nids (if bl then b @ [n] else b) c = Inr r"
        using assms Some False by (auto simp: rbind_eq_Inr)
      have "bl \<longleftrightarrow> (\<exists>k\<in>set cats. ng_category ng = JStr k)"
        using bl(1) by (simp add: in_string_set_def split: if_splits)
      then show ?thesis using bl(2) Some True by (intro exI [of _ c]) (simp add: candidate_def)
    next
      case no: False
      have skip: "\<not> (ov \<and> ng_effect ng \<in> {JStr ''SUPPRESS_RULE'', JStr ''CAP_SEVERITY''})"
        "\<not> (ov \<and> candidate rk cats n)" using no by (auto simp: candidate_def Some)
      have "candidates_loop rk cats ov nids b c = Inr r"
        using assms unfolding candidates_loop.simps Some option.case if_not_P [OF False]
          if_not_P [OF skip(1)] .
      then show ?thesis using skip(2) by auto
    qed
  qed (use assms Some in \<open>auto simp: candidate_def\<close>)
qed (use assms in \<open>auto simp: candidate_def\<close>)

lemma candidates_loop_spec:
  "candidates_loop rk cats ov nids b c = Inr (b', c') \<Longrightarrow>
     set b' = set b \<union> {n\<in>set nids. ov \<and> candidate rk cats n}"
proof (induction nids arbitrary: b c)
  case (Cons n nids)
  from candidates_loop_step [OF Cons.prems] Cons.IH show ?case by (fastforce split: if_splits)
qed simp

lemma sev_min_ok:
  "set cs \<subseteq> {LOW, MEDIUM, HIGH} \<Longrightarrow> b \<in> set SEVERITY_ORDER \<Longrightarrow>
     \<exists>eff. fold_res (\<lambda>c l. sev_min l (Some c)) cs (Some b) = Inr eff"
proof (induction cs arbitrary: b)
  case (Cons c cs)
  then have c: "c \<in> set SEVERITY_ORDER" by (auto simp: SEVERITY_ORDER_def)
  then obtain l where "sev_min_base b (Some c) = Inr l" "l \<in> set SEVERITY_ORDER"
    using Cons.prems(2) by (auto simp: sev_min_base_def severity_index_def)
  with Cons show ?case by (simp add: sev_min_def)
qed simp

lemma evaluate_composite_no_wp5:
  assumes "evaluate_composite rk pf r rid rver ctx = Inr res"
  shows "\<not> has_wp5_fields res"
  by (rule composite_cases [OF assms]) (simp add: has_wp5_fields_def)

lemma effective_of_valid:
  assumes "effective_of r = Inr eff" "ru_severity r = Some d" "d \<noteq> NONE"
  shows "\<exists>l. eff = Some l \<and> l \<in> set SEVERITY_ORDER"
proof -
  from assms obtain l where l: "eff = Some l" "sev_min_base d (ru_severity_cap r) = Inr l"
    by (auto simp: effective_of_def rbind_eq_Inr)
  have "d \<in> set SEVERITY_ORDER" using assms(3) by (cases d) (simp_all add: SEVERITY_ORDER_def)
  then have "l \<in> set SEVERITY_ORDER"
    using l(2) by (auto simp: sev_min_base_def severity_index_def rbind_eq_Inr split: option.splits if_splits)
  with l(1) show ?thesis by simp
qed

text \<open>
  The stages agree: on a governed library in which the soft effects are blockable, the suppression
  stage never refuses a match the evaluator produced.
\<close>

lemma stages_agree:
  assumes lib: "governed_library rk" and sev: "ru_severity r = Some d" "d \<noteq> NONE"
    and ev: "evaluate_composite rk pf r rid rver ctx = Inr res" and m: "rr_state res = MATCHED"
  shows "\<exists>r'. apply_effects rk res = Inr r'"
proof (rule composite_cases [OF ev])
  fix logic min_classes active blocked
  assume s: "active_overrides rk rid (rule_categories r) (truth (fst (positive_truth_map rk pf ctx))) =
       Inr (active, blocked)"
    "rr_matched_negative res = matched_negatives rk pf ctx (rule_categories r)"
    "rr_overrides res = active" "effective_of r = Inr (rr_effective res)" "rr_kind res = COMPOSITE"
    "suppression_candidates rk (rr_matched_negative res) blocked (active \<noteq> []) = Inr (rr_suppression res)"
  let ?out = "canonicalize_result res" and ?ns = "rr_matched_negative res"
  obtain l where l: "rr_effective res = Some l" "l \<in> set SEVERITY_ORDER"
    using effective_of_valid [OF s(4) sev] by blast
  obtain bl co where cand: "candidates_loop rk blocked (active \<noteq> []) ?ns [] [] = Inr (bl, co)"
    "rr_suppression res = (if bl = [] \<and> co = [] then None else Some (no_suppression
       \<lparr>su_blocked := (if bl = [] then None else Some (sort bl)),
        su_context := (if co = [] then None else Some (sort co))\<rparr>))"
    using s(6) by (auto simp: suppression_candidates_def rbind_eq_Inr)
  have valid: "validate_matched_input ?out = Inr ()"
    using composite_matched [OF ev m] l
    by (auto simp: validate_matched_input_def guard_def cand(2) has_wp4_keys_def no_suppression_def
        canonicalize_suppression_def)
  obtain new where new: "active = new" "\<forall>n\<in>set new. rk_override rk n \<noteq> None"
    "set blocked = {c. \<exists>n\<in>set new. \<exists>ov cs. rk_override rk n = Some ov \<and> ov_blocks ov = Some cs \<and> c \<in> set cs}"
    using overrides_loop_spec [OF s(1) [unfolded active_overrides_def]] by auto
  obtain cats where cats: "blocked_categories rk (sorted_unique active) = Inr cats"
    using blocked_categories_ok [OF lib, of "sorted_unique active"] new(1,2) by auto
  have cats_set: "set cats = set blocked"
    using blocked_categories_set [OF cats] new by auto
  have neg: "rk_negative rk n \<noteq> None" if "n \<in> set ?ns" for n
    using that by (auto simp: s(2) matched_negatives_def negative_applies_def split: option.splits)
  obtain ef where ef: "resolve_effects rk cats (sorted_unique ?ns) no_effects = Inr ef"
    using resolve_effects_ok [OF lib, of "sorted_unique ?ns" cats no_effects] neg by auto
  note sets = resolve_effects_sets [OF ef]
  have cand_iff: "active \<noteq> [] \<and> candidate rk blocked n \<longleftrightarrow>
      has_effect rk cats ''SUPPRESS_RULE'' True n \<or> has_effect rk cats ''CAP_SEVERITY'' True n" for n
  proof (cases "rk_negative rk n")
    case (Some ng)
    have "truthy (ng_blockable ng)" if "ng_effect ng = JStr ''SUPPRESS_RULE'' \<or> ng_effect ng = JStr ''CAP_SEVERITY''"
      using governed_negativeD [OF lib Some] that by (auto simp: soft_blockable_def)
    moreover have "active \<noteq> []" if "c \<in> set blocked" for c using that new by auto
    ultimately show ?thesis
      by (auto simp: candidate_def has_effect_def is_blocked_def Some cats_set)
  qed (simp add: candidate_def has_effect_def)
  have "set bl = set (ef_blocked ef) \<union> set (ef_blocked_caps ef)"
    using candidates_loop_spec [OF cand(1)] sets(2,4) cand_iff by auto
  then have cross: "cross_check_blocked ?out ef = Inr ()"
    by (auto simp: cross_check_blocked_def cand(2) guard_def canonicalize_suppression_def no_suppression_def)
  have "set (ef_ceilings ef) \<subseteq> {LOW, MEDIUM, HIGH}"
    using sets(5) by (auto simp: surviving_cap_def split: option.splits json.splits if_splits elim!: cap_level.elims)
  then obtain eff where "fold_res (\<lambda>c l. sev_min l (Some c)) (ef_ceilings ef) (rr_effective res) = Inr eff"
    using sev_min_ok [OF _ l(2)] l(1) by auto
  then show ?thesis
    using evaluate_composite_no_wp5 [OF ev] s(3,5) m
    by (simp add: apply_effects_def Let_def guard_def valid cats ef cross)
qed

end
