(* ===== verification/UnionFind.thy ===== *)
theory UnionFind
  imports Prelude
begin

text \<open>
  The disjoint-set structure of knowledge/runtime/aggregation.py (\<open>_UnionFind\<close>): parents in a dict,
  \<open>find\<close> with path compression, \<open>union\<close> that makes the lexically smaller root the parent. The two
  \<open>while\<close> loops are partial functions into \<open>option\<close>: \<open>None\<close> is a loop that does not return (or reads
  a missing key), and on a well-formed parent map it does not occur. The locale states what a client
  may rely on; \<open>merge_groups\<close> is the client's loop, and its result is connectivity.
\<close>

section \<open>The operations\<close>

partial_function (option) root_loop :: "string dict \<Rightarrow> string \<Rightarrow> string option" where
  "root_loop p x =
     (case map_of p x of
        None \<Rightarrow> None
      | Some y \<Rightarrow> if y = x then Some x else root_loop p y)"

partial_function (option) compress_loop :: "string dict \<Rightarrow> string \<Rightarrow> string \<Rightarrow> string dict option" where
  "compress_loop p root x =
     (case map_of p x of
        None \<Rightarrow> None
      | Some y \<Rightarrow> if y = root then Some p else compress_loop (AList.update x root p) root y)"

declare root_loop.simps [code] compress_loop.simps [code]

definition uf_find :: "string dict \<Rightarrow> string \<Rightarrow> (string \<times> string dict) option" where
  "uf_find p x =
     (let p1 = (if map_of p x = None then AList.update x x p else p)
      in case root_loop p1 x of
           None \<Rightarrow> None
         | Some root \<Rightarrow>
             (case compress_loop p1 root x of None \<Rightarrow> None | Some p2 \<Rightarrow> Some (root, p2)))"

definition uf_union :: "string dict \<Rightarrow> string \<Rightarrow> string \<Rightarrow> string dict option" where
  "uf_union p a b =
     (case uf_find p a of
        None \<Rightarrow> None
      | Some (ra, p1) \<Rightarrow>
          (case uf_find p1 b of
             None \<Rightarrow> None
           | Some (rb, p2) \<Rightarrow>
               Some (if ra \<noteq> rb then AList.update (max ra rb) (min ra rb) p2 else p2)))"

text \<open>The client's loop over the groups: every reference is found, then joined to the first one.\<close>

fun find_all :: "('s \<Rightarrow> 'a \<Rightarrow> ('a \<times> 's) option) \<Rightarrow> 'a list \<Rightarrow> 's \<Rightarrow> 's option" where
  "find_all fnd [] s = Some s"
| "find_all fnd (x # xs) s = (case fnd s x of None \<Rightarrow> None | Some (_, s') \<Rightarrow> find_all fnd xs s')"

fun union_all :: "('s \<Rightarrow> 'a \<Rightarrow> 'a \<Rightarrow> 's option) \<Rightarrow> 'a \<Rightarrow> 'a list \<Rightarrow> 's \<Rightarrow> 's option" where
  "union_all uni a [] s = Some s"
| "union_all uni a (x # xs) s = (case uni s a x of None \<Rightarrow> None | Some s' \<Rightarrow> union_all uni a xs s')"

fun merge_groups ::
    "('s \<Rightarrow> 'a \<Rightarrow> ('a \<times> 's) option) \<Rightarrow> ('s \<Rightarrow> 'a \<Rightarrow> 'a \<Rightarrow> 's option) \<Rightarrow> 'a list list \<Rightarrow> 's \<Rightarrow> 's option" where
  "merge_groups fnd uni [] s = Some s"
| "merge_groups fnd uni (refs # groups) s =
     (case find_all fnd refs s of
        None \<Rightarrow> None
      | Some s1 \<Rightarrow>
          (case refs of
             [] \<Rightarrow> merge_groups fnd uni groups s1
           | a # rest \<Rightarrow>
               (case union_all uni a rest s1 of
                  None \<Rightarrow> None
                | Some s2 \<Rightarrow> merge_groups fnd uni groups s2)))"

section \<open>The contract of a disjoint-set structure\<close>

definition group_edges :: "'a list list \<Rightarrow> ('a \<times> 'a) set" where
  "group_edges groups = {(x, y). \<exists>g\<in>set groups. x \<in> set g \<and> y \<in> set g}"

text \<open>Connectivity: a chain of references in which neighbours lie in one group.\<close>

definition connected :: "'a list list \<Rightarrow> 'a \<Rightarrow> 'a \<Rightarrow> bool" where
  "connected groups x y \<longleftrightarrow> (x, y) \<in> (group_edges groups)\<^sup>*"

lemma rtrancl_insert_both:
  assumes "sym r"
  shows "(x, y) \<in> (insert (a, b) (insert (b, a) r))\<^sup>* \<longleftrightarrow>
     (x, y) \<in> r\<^sup>* \<or> (x, a) \<in> r\<^sup>* \<and> (b, y) \<in> r\<^sup>* \<or> (x, b) \<in> r\<^sup>* \<and> (a, y) \<in> r\<^sup>*"
proof -
  have s: "(u, v) \<in> r\<^sup>* \<Longrightarrow> (v, u) \<in> r\<^sup>*" for u v
    using sym_rtrancl [OF assms] by (meson symD)
  show ?thesis
    unfolding rtrancl_insert by (auto intro: rtrancl_trans s)
qed

locale disjoint_sets =
  fixes empty :: 's
    and fnd :: "'s \<Rightarrow> 'a \<Rightarrow> ('a \<times> 's) option"
    and uni :: "'s \<Rightarrow> 'a \<Rightarrow> 'a \<Rightarrow> 's option"
    and invar :: "'s \<Rightarrow> bool"
    and elems :: "'s \<Rightarrow> 'a set"
    and rep :: "'s \<Rightarrow> 'a \<Rightarrow> 'a"
  assumes invar_empty: "invar empty" "elems empty = {}"
    and rep_outside: "invar s \<Longrightarrow> x \<notin> elems s \<Longrightarrow> rep s x = x"
    and rep_inside: "invar s \<Longrightarrow> x \<in> elems s \<Longrightarrow> rep s x \<in> elems s"
    and find_spec: "invar s \<Longrightarrow>
      \<exists>s'. fnd s x = Some (rep s x, s') \<and> invar s' \<and> elems s' = insert x (elems s) \<and> rep s' = rep s"
    and union_spec: "invar s \<Longrightarrow> a \<in> elems s \<Longrightarrow> b \<in> elems s \<Longrightarrow>
      \<exists>s'. uni s a b = Some s' \<and> invar s' \<and> elems s' = elems s \<and>
        (\<forall>x y. rep s' x = rep s' y \<longleftrightarrow> rep s x = rep s y \<or>
           rep s x = rep s a \<and> rep s y = rep s b \<or> rep s x = rep s b \<and> rep s y = rep s a)"
begin

text \<open>\<open>tracks s r\<close>: the state's classes are the classes of the reflexive-transitive closure of \<open>r\<close>.\<close>

definition tracks :: "'s \<Rightarrow> ('a \<times> 'a) set \<Rightarrow> bool" where
  "tracks s r \<longleftrightarrow> invar s \<and> sym r \<and> (\<forall>x y. rep s x = rep s y \<longleftrightarrow> (x, y) \<in> r\<^sup>*)"

lemma find_all_spec:
  "invar s \<Longrightarrow> \<exists>s'. find_all fnd xs s = Some s' \<and> invar s' \<and> elems s' = set xs \<union> elems s \<and> rep s' = rep s"
proof (induction xs arbitrary: s)
  case (Cons x xs)
  from find_spec [OF Cons.prems] obtain s1 where
    s1: "fnd s x = Some (rep s x, s1)" "invar s1" "elems s1 = insert x (elems s)" "rep s1 = rep s"
    by blast
  with Cons.IH [OF s1(2)] show ?case by auto
qed simp

lemma union_tracks:
  assumes "tracks s r" "a \<in> elems s" "b \<in> elems s"
  shows "\<exists>s'. uni s a b = Some s' \<and> tracks s' (insert (a, b) (insert (b, a) r)) \<and> elems s' = elems s"
proof -
  from assms(1) have inv: "invar s" and r: "sym r" and t: "\<And>x y. rep s x = rep s y \<longleftrightarrow> (x, y) \<in> r\<^sup>*"
    by (auto simp: tracks_def)
  from union_spec [OF inv assms(2,3)] obtain s' where s': "uni s a b = Some s'" "invar s'" "elems s' = elems s"
    "\<And>x y. rep s' x = rep s' y \<longleftrightarrow> rep s x = rep s y \<or>
       rep s x = rep s a \<and> rep s y = rep s b \<or> rep s x = rep s b \<and> rep s y = rep s a"
    by blast
  have "rep s' x = rep s' y \<longleftrightarrow> (x, y) \<in> (insert (a, b) (insert (b, a) r))\<^sup>*" for x y
    unfolding s'(4) rtrancl_insert_both [OF r] t [symmetric] by (metis (full_types))
  moreover have "sym (insert (a, b) (insert (b, a) r))" using r by (auto simp: sym_def)
  ultimately show ?thesis using s' by (auto simp: tracks_def)
qed

lemma union_all_tracks:
  assumes "tracks s r" "a \<in> elems s" "set xs \<subseteq> elems s"
  shows "\<exists>s'. union_all uni a xs s = Some s' \<and> elems s' = elems s \<and>
     tracks s' (r \<union> {(a, x) | x. x \<in> set xs} \<union> {(x, a) | x. x \<in> set xs})"
  using assms
proof (induction xs arbitrary: s r)
  case (Cons x xs)
  have "x \<in> elems s" using Cons.prems(3) by simp
  from union_tracks [OF Cons.prems(1,2) this] obtain s1 where
    s1: "uni s a x = Some s1" "tracks s1 (insert (a, x) (insert (x, a) r))" "elems s1 = elems s" by blast
  from Cons.IH [OF s1(2)] s1(3) Cons.prems(2,3) obtain s' where
    s': "union_all uni a xs s1 = Some s'" "elems s' = elems s"
    "tracks s' (insert (a, x) (insert (x, a) r) \<union> {(a, x) | x. x \<in> set xs} \<union> {(x, a) | x. x \<in> set xs})"
    by auto
  have "insert (a, x) (insert (x, a) r) \<union> {(a, x) | x. x \<in> set xs} \<union> {(x, a) | x. x \<in> set xs} =
      r \<union> {(a, y) | y. y \<in> set (x # xs)} \<union> {(y, a) | y. y \<in> set (x # xs)}" by auto
  with s' s1 show ?case by simp
qed simp

lemma star_closure:
  "(r \<union> {(a, x) | x. x \<in> S} \<union> {(x, a) | x. x \<in> S})\<^sup>* =
     (r \<union> {(x, y). x \<in> insert a S \<and> y \<in> insert a S})\<^sup>*"
proof (rule rtrancl_subset [symmetric])
  show "r \<union> {(x, y). x \<in> insert a S \<and> y \<in> insert a S} \<subseteq>
      (r \<union> {(a, x) | x. x \<in> S} \<union> {(x, a) | x. x \<in> S})\<^sup>*" (is "_ \<subseteq> ?R\<^sup>*")
  proof clarify
    fix x y assume xy: "(x, y) \<in> r \<union> {(x, y). x \<in> insert a S \<and> y \<in> insert a S}"
    have "(z, a) \<in> ?R\<^sup>*" "(a, z) \<in> ?R\<^sup>*" if "z \<in> insert a S" for z using that by auto
    with xy show "(x, y) \<in> ?R\<^sup>*" by (auto intro: rtrancl_trans)
  qed
qed auto

theorem merge_groups_connected:
  assumes "tracks s r"
  shows "\<exists>s'. merge_groups fnd uni groups s = Some s' \<and> elems s' = \<Union> (set (map set groups)) \<union> elems s \<and>
     invar s' \<and> (\<forall>x y. rep s' x = rep s' y \<longleftrightarrow> (x, y) \<in> (r \<union> group_edges groups)\<^sup>*)"
  using assms
proof (induction groups arbitrary: s r)
  case Nil
  then show ?case by (auto simp: tracks_def group_edges_def)
next
  case (Cons refs groups)
  from Cons.prems have inv: "invar s" and r: "sym r" by (auto simp: tracks_def)
  obtain s1 where s1: "find_all fnd refs s = Some s1" "invar s1" "elems s1 = set refs \<union> elems s" "rep s1 = rep s"
    using find_all_spec [OF inv] by blast
  then have tr1: "tracks s1 r" using Cons.prems by (simp add: tracks_def)
  let ?here = "{(x, y). x \<in> set refs \<and> y \<in> set refs}"
  have edges: "group_edges (refs # groups) = ?here \<union> group_edges groups" by (auto simp: group_edges_def)
  show ?case
  proof (cases refs)
    case Nil
    then have "group_edges (refs # groups) = group_edges groups" using edges by simp
    with Cons.IH [OF tr1] s1 Nil show ?thesis by simp
  next
    case (Cons a rest)
    have refs_eq: "refs = a # rest" by fact
    from union_all_tracks [OF tr1, of a rest] s1(3) Cons obtain s2 where
      s2: "union_all uni a rest s1 = Some s2" "elems s2 = elems s1"
      "tracks s2 (r \<union> {(a, x) | x. x \<in> set rest} \<union> {(x, a) | x. x \<in> set rest})" by auto
    have here: "?here = {(x, y). x \<in> insert a (set rest) \<and> y \<in> insert a (set rest)}" by (simp add: refs_eq)
    have "sym (r \<union> ?here)" using r by (auto simp: sym_def)
    then have "tracks s2 (r \<union> ?here)"
      using s2(3) unfolding tracks_def star_closure here by blast
    from Cons.IH [OF this] obtain s' where s': "merge_groups fnd uni groups s2 = Some s'"
      "elems s' = \<Union> (set (map set groups)) \<union> elems s2" "invar s'"
      "\<forall>x y. rep s' x = rep s' y \<longleftrightarrow> (x, y) \<in> ((r \<union> ?here) \<union> group_edges groups)\<^sup>*" by blast
    have "merge_groups fnd uni (refs # groups) s = Some s'"
      using s1(1) s2(1) s'(1) by (simp add: refs_eq)
    then show ?thesis
      using s'(2-4) s1(3) s2(2) unfolding edges Un_assoc by auto
  qed
qed

end

section \<open>The parent map provides the contract\<close>

text \<open>The root a parent map leads to, as a relation.\<close>

inductive root_of :: "(string \<Rightarrow> string option) \<Rightarrow> string \<Rightarrow> string \<Rightarrow> bool" for m where
  root_self: "m x = Some x \<Longrightarrow> root_of m x x"
| root_step: "m x = Some y \<Longrightarrow> y \<noteq> x \<Longrightarrow> root_of m y r \<Longrightarrow> root_of m x r"

inductive_cases root_of_elim: "root_of m x r"

lemma root_of_root: "root_of m x r \<Longrightarrow> m r = Some r"
  by (induction rule: root_of.induct)

lemma root_of_det: "root_of m x r \<Longrightarrow> root_of m x s \<Longrightarrow> r = s"
proof (induction arbitrary: s rule: root_of.induct)
  case (root_self x)
  from root_self(2) show ?case by (rule root_of_elim) (use root_self(1) in simp_all)
next
  case (root_step x y r)
  from root_step(5) show ?case by (rule root_of_elim) (use root_step(1,2,4) in simp_all)
qed

lemma root_of_dom: "root_of m x r \<Longrightarrow> x \<in> dom m \<and> r \<in> dom m"
  by (induction rule: root_of.induct) auto

text \<open>Pointing a node at its own root changes no root; pointing a root at another root moves its class.\<close>

lemma root_of_compress:
  assumes "root_of m x r" "root_of m z s"
  shows "root_of (m(x \<mapsto> r)) z s"
  using assms(2)
proof (induction rule: root_of.induct)
  case (root_self z)
  then show ?case
    using root_of_det [OF assms(1)] root_of.root_self [of m z] by (cases "z = x") (auto intro: root_of.intros)
next
  case (root_step z y s)
  show ?case
  proof (cases "z = x")
    case True
    have "r = s" using root_of_det [OF assms(1)] root_of.root_step [OF root_step(1-3)] True by simp
    have "r \<noteq> x" using root_of_root [OF assms(1)] root_step(1,2) True by auto
    have "root_of (m(x \<mapsto> r)) r r"
      using root_of_root [OF assms(1)] \<open>r \<noteq> x\<close> by (intro root_of.root_self) simp
    then have "root_of (m(x \<mapsto> r)) x r" using \<open>r \<noteq> x\<close> by (intro root_of.root_step [of _ x r]) simp_all
    then show ?thesis unfolding True \<open>r = s\<close> .
  next
    case False
    then show ?thesis using root_step by (auto intro: root_of.root_step)
  qed
qed

lemma root_of_link:
  assumes "m ra = Some ra" "m rb = Some rb" "ra \<noteq> rb" "root_of m z s"
  shows "root_of (m(ra \<mapsto> rb)) z (if s = ra then rb else s)"
  using assms(4)
proof (induction rule: root_of.induct)
  case (root_self z)
  have "root_of (m(ra \<mapsto> rb)) rb rb" using assms by (intro root_of.root_self) auto
  then have "root_of (m(ra \<mapsto> rb)) ra rb" using assms(3) by (intro root_of.root_step [of _ ra rb]) simp_all
  moreover have "root_of (m(ra \<mapsto> rb)) z z" if "z \<noteq> ra" using that root_self by (intro root_of.root_self) simp
  ultimately show ?case by (simp del: fun_upd_apply)
next
  case (root_step z y s)
  then have "z \<noteq> ra" using assms(1) by auto
  then show ?case using root_step by (auto intro: root_of.root_step)
qed

text \<open>Well-formed: every parent is a key and lexically no larger, so every walk ends.\<close>

definition uf_ok :: "string dict \<Rightarrow> bool" where
  "uf_ok p \<longleftrightarrow> (\<forall>x y. map_of p x = Some y \<longrightarrow> y \<le> x \<and> map_of p y \<noteq> None)"

lemma uf_induct:
  assumes ok: "uf_ok p" and dom: "map_of p x \<noteq> None"
    and step: "\<And>x y. map_of p x = Some y \<Longrightarrow> (y \<noteq> x \<Longrightarrow> P y) \<Longrightarrow> P x"
  shows "P x"
  using dom
proof (induction "card {z \<in> dom (map_of p). z < x}" arbitrary: x rule: less_induct)
  case less
  then obtain y where y: "map_of p x = Some y" by auto
  show ?case
  proof (rule step [OF y])
    assume "y \<noteq> x"
    then have yx: "y < x" "map_of p y \<noteq> None" using ok y by (auto simp: uf_ok_def less_le)
    have "card {z \<in> dom (map_of p). z < y} < card {z \<in> dom (map_of p). z < x}"
    proof (rule psubset_card_mono)
      show "finite {z \<in> dom (map_of p). z < x}" by (simp add: finite_dom_map_of)
      show "{z \<in> dom (map_of p). z < y} \<subset> {z \<in> dom (map_of p). z < x}"
        using yx by (auto intro: less_trans)
    qed
    from less.hyps [OF this yx(2)] show "P y" .
  qed
qed

lemma uf_root_ex:
  assumes "uf_ok p" "map_of p x \<noteq> None"
  shows "\<exists>r. root_of (map_of p) x r \<and> r \<le> x"
proof (rule uf_induct [OF assms])
  fix x y
  assume s: "map_of p x = Some y" "y \<noteq> x \<Longrightarrow> \<exists>r. root_of (map_of p) y r \<and> r \<le> y"
  show "\<exists>r. root_of (map_of p) x r \<and> r \<le> x"
  proof (cases "y = x")
    case False
    with s obtain r where "root_of (map_of p) y r" "r \<le> y" by auto
    moreover have "y \<le> x" using assms(1) s(1) by (auto simp: uf_ok_def)
    ultimately show ?thesis using s(1) False by (meson order_trans root_of.root_step)
  qed (use s(1) in \<open>auto intro: root_of.root_self\<close>)
qed

definition uf_rep :: "string dict \<Rightarrow> string \<Rightarrow> string" where
  "uf_rep p x = (if map_of p x = None then x else (THE r. root_of (map_of p) x r))"

lemma uf_rep_eq: "root_of (map_of p) x r \<Longrightarrow> uf_rep p x = r"
  using root_of_dom [of "map_of p" x r] root_of_det [of "map_of p" x]
  by (auto simp: uf_rep_def intro!: the_equality)

lemma uf_rep_root: "uf_ok p \<Longrightarrow> map_of p x \<noteq> None \<Longrightarrow> root_of (map_of p) x (uf_rep p x) \<and> uf_rep p x \<le> x"
  using uf_root_ex [of p x] uf_rep_eq by blast

lemma uf_rep_outside: "map_of p x = None \<Longrightarrow> uf_rep p x = x"
  by (simp add: uf_rep_def)

lemma root_loop_root: "root_of (map_of p) x r \<Longrightarrow> root_loop p x = Some r"
  by (induction rule: root_of.induct) (simp_all add: root_loop.simps)

text \<open>Two maps with the same keys and the same roots represent the same classes.\<close>

definition uf_same :: "string dict \<Rightarrow> string dict \<Rightarrow> bool" where
  "uf_same p q \<longleftrightarrow> uf_ok q \<and> dom (map_of q) = dom (map_of p) \<and>
     (\<forall>z s. root_of (map_of p) z s \<longrightarrow> root_of (map_of q) z s)"

lemma uf_same_rep: "uf_ok p \<Longrightarrow> uf_same p q \<Longrightarrow> uf_rep q = uf_rep p"
proof
  fix z assume ok: "uf_ok p" and same: "uf_same p q"
  show "uf_rep q z = uf_rep p z"
  proof (cases "map_of p z")
    case None
    then have "map_of q z = None" using same unfolding uf_same_def by (metis domIff)
    with None show ?thesis by (simp add: uf_rep_outside)
  next
    case (Some y)
    with uf_rep_root [OF ok, of z] same show ?thesis by (auto simp: uf_same_def intro: uf_rep_eq)
  qed
qed

lemma compress_loop_same:
  "uf_ok p \<Longrightarrow> root_of (map_of p) x root \<Longrightarrow> \<exists>q. compress_loop p root x = Some q \<and> uf_same p q"
proof (induction "card {z \<in> dom (map_of p). z < x}" arbitrary: p x rule: less_induct)
  case less
  from root_of_dom [OF less.prems(2)] obtain y where y: "map_of p x = Some y" by auto
  show ?case
  proof (cases "y = root")
    case True
    then show ?thesis using y less.prems(1) by (simp add: compress_loop.simps uf_same_def)
  next
    case False
    have root: "map_of p root = Some root" "root \<le> x"
      using root_of_root [OF less.prems(2)] uf_rep_root [OF less.prems(1), of x] uf_rep_eq [OF less.prems(2)] y
      by auto
    have yx: "y \<noteq> x" "root_of (map_of p) y root"
      using less.prems(2) y False by (auto elim: root_of.cases)
    let ?p = "AList.update x root p"
    have m: "map_of ?p = (map_of p)(x \<mapsto> root)" by (rule map_of_update)
    have ok: "uf_ok ?p" using less.prems(1) root by (auto simp: uf_ok_def m)
    have dom: "dom (map_of ?p) = dom (map_of p)" using y by (auto simp: m)
    have "y < x" using less.prems(1) y yx(1) by (auto simp: uf_ok_def less_le)
    have "y \<in> dom (map_of p)" using root_of_dom [OF yx(2)] by simp
    have "card {z \<in> dom (map_of ?p). z < y} < card {z \<in> dom (map_of p). z < x}"
      unfolding dom
    proof (rule psubset_card_mono)
      show "{z \<in> dom (map_of p). z < y} \<subset> {z \<in> dom (map_of p). z < x}"
        using \<open>y < x\<close> \<open>y \<in> dom (map_of p)\<close> by (auto intro: less_trans)
    qed (simp add: finite_dom_map_of)
    from less.hyps [OF this ok] root_of_compress [OF less.prems(2) yx(2)] m
    obtain q where q: "compress_loop ?p root y = Some q" "uf_same ?p q" by auto
    have "uf_same p q"
      using q(2) root_of_compress [OF less.prems(2)] dom by (auto simp: uf_same_def m)
    then show ?thesis using q(1) y False by (auto simp: compress_loop.simps [of p root x])
  qed
qed

lemma root_of_mono: "root_of m z s \<Longrightarrow> m \<subseteq>\<^sub>m m' \<Longrightarrow> root_of m' z s"
proof (induction rule: root_of.induct)
  case (root_self x)
  then have "m' x = Some x" unfolding map_le_def by (metis domI)
  then show ?case by (rule root_of.root_self)
next
  case (root_step x y s)
  then have "m' x = Some y" unfolding map_le_def by (metis domI)
  then show ?case using root_step by (auto intro: root_of.root_step)
qed

definition uf_add :: "string dict \<Rightarrow> string \<Rightarrow> string dict" where
  "uf_add p x = (if map_of p x = None then AList.update x x p else p)"

lemma uf_add_ok:
  assumes "uf_ok p"
  shows "uf_ok (uf_add p x)" "dom (map_of (uf_add p x)) = insert x (dom (map_of p))"
    "uf_rep (uf_add p x) = uf_rep p" "root_of (map_of (uf_add p x)) x (uf_rep p x)"
proof -
  show ok: "uf_ok (uf_add p x)" using assms by (auto simp: uf_ok_def uf_add_def map_of_update)
  show dom: "dom (map_of (uf_add p x)) = insert x (dom (map_of p))"
    by (auto simp: uf_add_def map_of_update)
  have le: "map_of p \<subseteq>\<^sub>m map_of (uf_add p x)" by (auto simp: uf_add_def map_of_update map_le_def)
  show rep: "uf_rep (uf_add p x) = uf_rep p"
  proof
    fix z show "uf_rep (uf_add p x) z = uf_rep p z"
    proof (cases "map_of p z")
      case None
      then show ?thesis
        by (cases "z = x") (auto simp: uf_add_def map_of_update uf_rep_outside intro!: uf_rep_eq root_of.root_self)
    next
      case (Some y)
      then show ?thesis using uf_rep_root [OF assms, of z] root_of_mono [OF _ le] by (auto intro: uf_rep_eq)
    qed
  qed
  have "x \<in> dom (map_of (uf_add p x))" using dom by blast
  then have "map_of (uf_add p x) x \<noteq> None" by blast
  from uf_rep_root [OF ok this] rep show "root_of (map_of (uf_add p x)) x (uf_rep p x)" by simp
qed

lemma uf_find_spec:
  assumes "uf_ok p"
  shows "\<exists>q. uf_find p x = Some (uf_rep p x, q) \<and> uf_ok q \<and>
    dom (map_of q) = insert x (dom (map_of p)) \<and> uf_rep q = uf_rep p"
proof -
  note add = uf_add_ok [OF assms, of x]
  obtain q where q: "compress_loop (uf_add p x) (uf_rep p x) x = Some q" "uf_same (uf_add p x) q"
    using compress_loop_same [OF add(1,4)] by blast
  have "uf_find p x = Some (uf_rep p x, q)"
    using root_loop_root [OF add(4)] q(1) by (simp add: uf_find_def uf_add_def [symmetric] Let_def)
  then show ?thesis
    using q(2) add uf_same_rep [OF add(1) q(2)] by (auto simp: uf_same_def)
qed

lemma uf_link_spec:
  assumes "uf_ok p" "map_of p hi = Some hi" "map_of p lo = Some lo" "lo < hi"
  shows "uf_ok (AList.update hi lo p)"
    "dom (map_of (AList.update hi lo p)) = dom (map_of p)"
    "uf_rep (AList.update hi lo p) z = (if uf_rep p z = hi then lo else uf_rep p z)"
proof -
  have m: "map_of (AList.update hi lo p) = (map_of p)(hi \<mapsto> lo)" by (rule map_of_update)
  show "uf_ok (AList.update hi lo p)" using assms by (auto simp: uf_ok_def m)
  show "dom (map_of (AList.update hi lo p)) = dom (map_of p)" using assms(2) by (auto simp: m)
  show "uf_rep (AList.update hi lo p) z = (if uf_rep p z = hi then lo else uf_rep p z)"
  proof (cases "map_of p z")
    case None
    then have "z \<noteq> hi" using assms(2) by auto
    then show ?thesis using None by (simp add: uf_rep_outside m)
  next
    case (Some y)
    then have "root_of (map_of p) z (uf_rep p z)" using uf_rep_root [OF assms(1), of z] by simp
    from root_of_link [OF assms(2,3) _ this] assms(4)
    have "root_of ((map_of p)(hi \<mapsto> lo)) z (if uf_rep p z = hi then lo else uf_rep p z)" by blast
    then show ?thesis by (intro uf_rep_eq) (simp only: m)
  qed
qed

lemma link_eq:
  "h \<noteq> l \<Longrightarrow> (if u = h then l else u) = (if v = h then l else v) \<longleftrightarrow> u = v \<or> u = h \<and> v = l \<or> u = l \<and> v = h"
  by auto

lemma uf_union_spec:
  assumes ok: "uf_ok p" and a: "map_of p a \<noteq> None" and b: "map_of p b \<noteq> None"
  shows "\<exists>q. uf_union p a b = Some q \<and> uf_ok q \<and> dom (map_of q) = dom (map_of p) \<and>
    (\<forall>x y. uf_rep q x = uf_rep q y \<longleftrightarrow> uf_rep p x = uf_rep p y \<or>
       uf_rep p x = uf_rep p a \<and> uf_rep p y = uf_rep p b \<or> uf_rep p x = uf_rep p b \<and> uf_rep p y = uf_rep p a)"
proof -
  obtain p1 where p1: "uf_find p a = Some (uf_rep p a, p1)" "uf_ok p1"
    "dom (map_of p1) = insert a (dom (map_of p))" "uf_rep p1 = uf_rep p"
    using uf_find_spec [OF ok] by blast
  obtain p2 where p2: "uf_find p1 b = Some (uf_rep p1 b, p2)" "uf_ok p2"
    "dom (map_of p2) = insert b (dom (map_of p1))" "uf_rep p2 = uf_rep p1"
    using uf_find_spec [OF p1(2)] by blast
  have dom: "dom (map_of p2) = dom (map_of p)" using p1(3) p2(3) a b by auto
  have rep: "uf_rep p2 = uf_rep p" using p1(4) p2(4) by simp
  let ?ra = "uf_rep p a" and ?rb = "uf_rep p b"
  have "map_of p2 a \<noteq> None" "map_of p2 b \<noteq> None" using dom a b by (auto simp: dom_def)
  then have roots: "map_of p2 ?ra = Some ?ra" "map_of p2 ?rb = Some ?rb"
    using uf_rep_root [OF p2(2)] root_of_root rep by metis+
  show ?thesis
  proof (cases "?ra = ?rb")
    case True
    then show ?thesis using p1 p2 dom rep by (auto simp: uf_union_def)
  next
    case False
    let ?hi = "max ?ra ?rb" and ?lo = "min ?ra ?rb"
    have lohi: "?lo < ?hi" "map_of p2 ?hi = Some ?hi" "map_of p2 ?lo = Some ?lo"
      using False roots by (auto simp: max_def min_def less_le)
    note link = uf_link_spec [OF p2(2) lohi(2,3,1)]
    have u: "uf_union p a b = Some (AList.update ?hi ?lo p2)"
      using p1(1,4) p2(1) False by (simp add: uf_union_def)
    let ?q = "AList.update ?hi ?lo p2"
    have q: "uf_rep ?q z = (if uf_rep p z = ?hi then ?lo else uf_rep p z)" for z
      using link(3) [of z] by (simp only: rep)
    have rel: "uf_rep ?q x = uf_rep ?q y \<longleftrightarrow> uf_rep p x = uf_rep p y \<or>
        uf_rep p x = ?ra \<and> uf_rep p y = ?rb \<or> uf_rep p x = ?rb \<and> uf_rep p y = ?ra" for x y
    proof -
      have ne: "?hi \<noteq> ?lo" using lohi(1) by simp
      consider "?hi = ?rb" "?lo = ?ra" | "?hi = ?ra" "?lo = ?rb"
        by (cases "?ra \<le> ?rb") (simp_all add: max_def min_def)
      then show ?thesis unfolding q link_eq [OF ne] by cases (simp_all only:, blast)
    qed
    show ?thesis
    proof (intro exI conjI allI)
      show "uf_union p a b = Some ?q" by (rule u)
      show "uf_ok ?q" by (rule link(1))
      show "dom (map_of ?q) = dom (map_of p)" by (simp only: link(2) dom)
    qed (rule rel)
  qed
qed

interpretation uf: disjoint_sets "[]" uf_find uf_union uf_ok "\<lambda>p. dom (map_of p)" uf_rep
proof
  show "uf_ok []" "dom (map_of []) = {}" by (simp_all add: uf_ok_def)
  show "uf_rep p x = x" if "x \<notin> dom (map_of p)" for p x
    using that by (auto intro: uf_rep_outside)
  show "uf_rep p x \<in> dom (map_of p)" if "uf_ok p" "x \<in> dom (map_of p)" for p x
    using uf_rep_root [OF that(1), of x] root_of_dom that(2) by blast
  show "\<exists>q. uf_find p x = Some (uf_rep p x, q) \<and> uf_ok q \<and>
      dom (map_of q) = insert x (dom (map_of p)) \<and> uf_rep q = uf_rep p" if "uf_ok p" for p x
    by (rule uf_find_spec [OF that])
  show "\<exists>q. uf_union p a b = Some q \<and> uf_ok q \<and> dom (map_of q) = dom (map_of p) \<and>
      (\<forall>x y. uf_rep q x = uf_rep q y \<longleftrightarrow> uf_rep p x = uf_rep p y \<or>
         uf_rep p x = uf_rep p a \<and> uf_rep p y = uf_rep p b \<or> uf_rep p x = uf_rep p b \<and> uf_rep p y = uf_rep p a)"
    if "uf_ok p" "a \<in> dom (map_of p)" "b \<in> dom (map_of p)" for p a b
    by (rule uf_union_spec) (use that in auto)
qed

lemma uf_merge_groups:
  "\<exists>p. merge_groups uf_find uf_union groups [] = Some p \<and> uf_ok p \<and>
     dom (map_of p) = \<Union> (set (map set groups)) \<and>
     (\<forall>x y. uf_rep p x = uf_rep p y \<longleftrightarrow> connected groups x y)"
proof -
  have "uf.tracks [] {}"
    by (simp add: uf.tracks_def uf_ok_def sym_def uf_rep_outside)
  from uf.merge_groups_connected [OF this, of groups] show ?thesis by (auto simp: connected_def)
qed

end
