(* ===== verification/Matching.thy ===== *)
theory Matching
  imports Prelude
begin

text \<open>
  \<open>_max_bipartite_matching\<close> of knowledge/runtime/aggregation.py: a maximum matching between evidence
  classes and provenance components by augmenting paths. \<open>augment\<close> recurses one level per component
  it marks as seen, so the number of components bounds its depth: that is the fuel, and
  \<open>augment_enough\<close> shows it never runs out. The result is a maximum matching: a set of components
  and classes collected from the failed searches covers every edge and is as large as the matching.
\<close>

section \<open>The algorithm\<close>

text \<open>
  The loop of \<open>augment(cls, seen)\<close> over the components not yet tried; \<open>seen\<close> and \<open>match_comp\<close> are
  the mutable state, returned with the verdict. \<open>None\<close>: out of fuel.
\<close>

fun augment_loop ::
    "nat \<Rightarrow> ('a \<Rightarrow> 'b list) \<Rightarrow> 'a \<Rightarrow> 'b list \<Rightarrow> 'b list \<Rightarrow> ('b \<times> 'a) list
     \<Rightarrow> (bool \<times> 'b list \<times> ('b \<times> 'a) list) option" where
  "augment_loop n adj cls [] seen m = Some (False, seen, m)"
| "augment_loop n adj cls (c # cs) seen m =
     (if c \<in> set seen then augment_loop n adj cls cs seen m
      else
        (case map_of m c of
           None \<Rightarrow> Some (True, c # seen, AList.update c cls m)
         | Some cls' \<Rightarrow>
             (case n of
                0 \<Rightarrow> None
              | Suc n' \<Rightarrow>
                  (case augment_loop n' adj cls' (adj cls') (c # seen) m of
                     None \<Rightarrow> None
                   | Some (True, seen', m') \<Rightarrow> Some (True, seen', AList.update c cls m')
                   | Some (False, seen', m') \<Rightarrow> augment_loop n adj cls cs seen' m'))))"

definition augment ::
    "nat \<Rightarrow> ('a \<Rightarrow> 'b list) \<Rightarrow> 'a \<Rightarrow> ('b \<times> 'a) list \<Rightarrow> (bool \<times> 'b list \<times> ('b \<times> 'a) list) option" where
  "augment n adj cls m = augment_loop n adj cls (adj cls) [] m"

fun match_all :: "nat \<Rightarrow> ('a \<Rightarrow> 'b list) \<Rightarrow> 'a list \<Rightarrow> ('b \<times> 'a) list \<Rightarrow> ('b \<times> 'a) list option" where
  "match_all n adj [] m = Some m"
| "match_all n adj (cls # classes) m =
     (case augment n adj cls m of None \<Rightarrow> None | Some (_, _, m') \<Rightarrow> match_all n adj classes m')"

text \<open>The graph is a dict from classes to sets of components, iterated in sorted order.\<close>

definition adjacent :: "('a \<times> 'b::linorder list) list \<Rightarrow> 'a \<Rightarrow> 'b list" where
  "adjacent g cls = (case map_of g cls of None \<Rightarrow> [] | Some cs \<Rightarrow> sorted_unique cs)"

definition max_bipartite_matching ::
    "('a::linorder \<times> 'b::linorder list) list \<Rightarrow> (nat \<times> 'a list) option" where
  "max_bipartite_matching g =
     (let fuel = length (remdups (concat (map snd g))) in
      case match_all fuel (adjacent g) (sorted_unique (map fst g)) [] of
        None \<Rightarrow> None
      | Some m \<Rightarrow> Some (length m, sorted_unique (map snd m)))"

section \<open>Fuel\<close>

text \<open>The recursion marks a fresh component at each level.\<close>

lemma augment_loop_seen:
  "augment_loop n adj cls cs seen m = Some (b, seen', m') \<Longrightarrow> set seen \<subseteq> set seen'"
  by (induction n adj cls cs seen m arbitrary: b seen' m' rule: augment_loop.induct)
    (fastforce split: if_splits option.splits nat.splits bool.splits)+

lemma augment_loop_enough:
  assumes "finite U"
  shows "\<forall>c. set (adj c) \<subseteq> U \<Longrightarrow> set cs \<subseteq> U \<Longrightarrow> card (U - set seen) \<le> n \<Longrightarrow> augment_loop n adj cls cs seen m \<noteq> None"
proof (induction n adj cls cs seen m rule: augment_loop.induct)
  case (2 n adj cls c cs seen m)
  show ?case
  proof (cases "c \<in> set seen \<or> map_of m c = None")
    case False
    then obtain cls' where cls': "map_of m c = Some cls'" "c \<notin> set seen" by auto
    have "c \<in> U - set seen" using 2(5) cls'(2) by auto
    then have pos: "card (U - set (c # seen)) < card (U - set seen)"
      using assms(1) by (intro psubset_card_mono) auto
    then obtain n' where n: "n = Suc n'" using 2(6) by (cases n) auto
    have "card (U - set (c # seen)) \<le> n'" using pos 2(6) n by simp
    from 2(2) [OF cls'(2,1) n 2(4) _ this] 2(4) obtain b seen' m' where r: "augment_loop n' adj cls' (adj cls') (c # seen) m = Some (b, seen', m')"
      by auto
    have "card (U - set seen') \<le> card (U - set seen)"
      using augment_loop_seen [OF r] assms(1) by (intro card_mono) auto
    then show ?thesis using 2(3) [OF cls'(2,1) n r] 2(4,5,6) r n cls' by (cases b) auto
  qed (use 2 in auto)
qed simp

section \<open>The search as a relation\<close>

inductive search ::
    "('a \<Rightarrow> 'b list) \<Rightarrow> 'a \<Rightarrow> 'b list \<Rightarrow> 'b list \<Rightarrow> ('b \<times> 'a) list
     \<Rightarrow> bool \<Rightarrow> 'b list \<Rightarrow> ('b \<times> 'a) list \<Rightarrow> bool" for adj where
  search_end: "search adj cls [] seen m False seen m"
| search_skip: "c \<in> set seen \<Longrightarrow> search adj cls cs seen m b s' m' \<Longrightarrow> search adj cls (c # cs) seen m b s' m'"
| search_free: "c \<notin> set seen \<Longrightarrow> map_of m c = None \<Longrightarrow>
    search adj cls (c # cs) seen m True (c # seen) (AList.update c cls m)"
| search_deep: "c \<notin> set seen \<Longrightarrow> map_of m c = Some cls' \<Longrightarrow>
    search adj cls' (adj cls') (c # seen) m True s1 m1 \<Longrightarrow>
    search adj cls (c # cs) seen m True s1 (AList.update c cls m1)"
| search_back: "c \<notin> set seen \<Longrightarrow> map_of m c = Some cls' \<Longrightarrow>
    search adj cls' (adj cls') (c # seen) m False s1 m1 \<Longrightarrow> search adj cls cs s1 m1 b s' m' \<Longrightarrow>
    search adj cls (c # cs) seen m b s' m'"

lemma augment_loop_search:
  "augment_loop n adj cls cs seen m = Some (b, s', m') \<Longrightarrow> search adj cls cs seen m b s' m'"
proof (induction n adj cls cs seen m arbitrary: b s' m' rule: augment_loop.induct)
  case (2 n adj cls c cs seen m)
  show ?case
  proof (cases "c \<in> set seen")
    case True
    then show ?thesis using 2(1,4) by (auto intro: search_skip)
  next
    case c: False
    show ?thesis
    proof (cases "map_of m c")
      case None
      then show ?thesis using 2(4) c by (auto intro: search_free)
    next
      case (Some cls')
      with 2(4) c obtain n' b1 s1 m1 where r: "n = Suc n'"
        "augment_loop n' adj cls' (adj cls') (c # seen) m = Some (b1, s1, m1)"
        by (auto split: nat.splits option.splits)
      note inner = 2(2) [OF c Some r]
      show ?thesis
      proof (cases b1)
        case True
        then show ?thesis using 2(4) c Some r inner by (auto intro: search_deep)
      next
        case False
        then have "augment_loop n adj cls cs s1 m1 = Some (b, s', m')" using 2(4) c Some r by simp
        from 2(3) [OF c Some r(1) r(2) _ _ _ this] False inner
        show ?thesis using c Some by (auto intro: search_back)
      qed
    qed
  qed
qed (auto intro: search_end)

lemma search_seen: "search adj cls cs seen m b s' m' \<Longrightarrow> set seen \<subseteq> set s'"
  by (induction rule: search.induct) auto

lemma search_fail_same: "search adj cls cs seen m b s' m' \<Longrightarrow> \<not> b \<Longrightarrow> m' = m"
  by (induction rule: search.induct) auto

lemma search_distinct: "search adj cls cs seen m b s' m' \<Longrightarrow> distinct (map fst m) \<Longrightarrow> distinct (map fst m')"
  by (induction rule: search.induct) (auto simp: distinct_update)

text \<open>A failed search is closed: what it saw is matched to classes whose components it saw.\<close>

lemma search_fail_closed:
  "search adj cls cs seen m b s' m' \<Longrightarrow> \<not> b \<Longrightarrow>
     set cs \<subseteq> set s' \<and> (\<forall>c\<in>set s' - set seen. \<exists>v. map_of m c = Some v \<and> set (adj v) \<subseteq> set s')"
proof (induction rule: search.induct)
  case (search_skip c seen cls cs m b s' m')
  then show ?case using search_seen [OF search_skip(2)] by auto
next
  case (search_back c seen m cls' s1 m1 cls cs b s' m')
  have m1: "m1 = m" using search_fail_same [OF search_back(3)] by simp
  have sub: "set (c # seen) \<subseteq> set s1" "set s1 \<subseteq> set s'"
    using search_seen [OF search_back(3)] search_seen [OF search_back(4)] by auto
  have inner: "set (adj cls') \<subseteq> set s1"
    "\<And>d. d \<in> set s1 - set (c # seen) \<Longrightarrow> \<exists>v. map_of m d = Some v \<and> set (adj v) \<subseteq> set s1"
    using search_back(5) by simp_all
  have outer: "set cs \<subseteq> set s'"
    "\<And>d. d \<in> set s' - set s1 \<Longrightarrow> \<exists>v. map_of m d = Some v \<and> set (adj v) \<subseteq> set s'"
    using search_back(6,7) m1 by simp_all
  have "\<exists>v. map_of m d = Some v \<and> set (adj v) \<subseteq> set s'" if d: "d \<in> set s' - set seen" for d
  proof -
    consider "d = c" | "d \<in> set s1 - set (c # seen)" | "d \<in> set s' - set s1" using d by auto
    then show ?thesis
    proof cases
      case 1
      then show ?thesis using search_back(2) inner(1) sub(2) by auto
    next
      case 2
      with inner(2) sub(2) show ?thesis by (meson order_trans)
    qed (rule outer(2))
  qed
  then show ?case using outer(1) sub by auto
qed auto

text \<open>
  A closed set of classes and components is a trap: a search that starts on its components fails,
  and a successful search from outside leaves its matches alone.
\<close>

definition trap :: "('a \<Rightarrow> 'b list) \<Rightarrow> ('b \<Rightarrow> 'a option) \<Rightarrow> 'a set \<Rightarrow> 'b set \<Rightarrow> bool" where
  "trap adj m A S \<longleftrightarrow> (\<forall>a\<in>A. set (adj a) \<subseteq> S) \<and> (\<forall>c\<in>S. \<exists>a\<in>A. m c = Some a)"

lemma trapD:
  "trap adj m A S \<Longrightarrow> c \<in> S \<Longrightarrow> m c = Some a \<Longrightarrow> set (adj a) \<subseteq> S"
  "trap adj m A S \<Longrightarrow> c \<in> S \<Longrightarrow> m c \<noteq> None"
  unfolding trap_def by force+

lemma search_trap_fails:
  "search adj cls cs seen m b s' m' \<Longrightarrow> trap adj (map_of m) A S \<Longrightarrow> set cs \<subseteq> S \<Longrightarrow> \<not> b"
proof (induction rule: search.induct)
  case (search_free c seen m cls cs)
  then show ?case using trapD(2) [OF search_free(3), of c] by simp
next
  case (search_deep c seen m cls' s1 m1 cls cs)
  then show ?case using trapD(1) [OF search_deep(5) _ search_deep(2)] by simp
next
  case (search_back c seen m cls' s1 m1 cls cs b s' m')
  then show ?case using search_fail_same [OF search_back(3)] by simp
qed simp_all

lemma search_trap_keeps:
  "search adj cls cs seen m b s' m' \<Longrightarrow> trap adj (map_of m) A S \<Longrightarrow> c0 \<in> S \<Longrightarrow> map_of m' c0 = map_of m c0"
proof (induction rule: search.induct)
  case (search_free c seen m cls cs)
  then show ?case using trapD(2) [OF search_free(3,4)] by (cases "c0 = c") (simp_all add: update_conv)
next
  case (search_deep c seen m cls' s1 m1 cls cs)
  have "c \<notin> S"
    using trapD(1) [OF search_deep(5) _ search_deep(2)]
      search_trap_fails [OF search_deep(3) search_deep(5)] by blast
  then show ?case using search_deep by (cases "c0 = c") (simp_all add: update_conv)
next
  case (search_back c seen m cls' s1 m1 cls cs b s' m')
  then show ?case using search_fail_same [OF search_back(3)] by simp
qed simp_all

lemma search_seen_keeps:
  "search adj cls cs seen m b s' m' \<Longrightarrow> c0 \<in> set seen \<Longrightarrow> map_of m' c0 = map_of m c0"
proof (induction rule: search.induct)
  case (search_back c seen m cls' s1 m1 cls cs b s' m')
  then show ?case using search_seen [OF search_back(3)] search_fail_same [OF search_back(3)] by auto
qed (auto simp: map_of_update)

lemma search_edges:
  "search adj cls cs seen m b s' m' \<Longrightarrow> (\<forall>c v. map_of m c = Some v \<longrightarrow> c \<in> set (adj v)) \<Longrightarrow>
     set cs \<subseteq> set (adj cls) \<Longrightarrow> (\<forall>c v. map_of m' c = Some v \<longrightarrow> c \<in> set (adj v))"
  by (induction rule: search.induct) (auto simp: map_of_update)

text \<open>A successful search gives its class one more component and every other class as many as before.\<close>

definition cnt :: "('b \<Rightarrow> 'a option) \<Rightarrow> 'a \<Rightarrow> nat" where
  "cnt m v = card {c. m c = Some v}"

lemma finite_map_of_value: "finite {c. map_of m c = Some v}"
  by (rule finite_subset [OF _ finite_dom_map_of [of m]]) auto

lemma cnt_update:
  assumes "finite {c. m c = Some v}"
  shows "cnt (m(c \<mapsto> u)) v = (if v = u then cnt m v + (if m c = Some u then 0 else 1)
     else cnt m v - (if m c = Some v then 1 else 0))"
proof (cases "v = u")
  case True
  have "{d. (m(c \<mapsto> u)) d = Some u} = insert c {d. m d = Some u}" by auto
  with True assms show ?thesis by (auto simp: cnt_def insert_absorb)
next
  case False
  then have "{d. (m(c \<mapsto> u)) d = Some v} = {d. m d = Some v} - {c}" by auto
  with False assms show ?thesis by (auto simp: cnt_def)
qed

lemma cnt_map_update:
  "cnt (map_of (AList.update c u m)) v =
     (if v = u then cnt (map_of m) v + (if map_of m c = Some u then 0 else 1)
      else cnt (map_of m) v - (if map_of m c = Some v then 1 else 0))"
  unfolding map_of_update by (rule cnt_update) (rule finite_map_of_value)

lemma search_success_cnt:
  "search adj cls cs seen m b s' m' \<Longrightarrow> b \<Longrightarrow>
     cnt (map_of m') v = cnt (map_of m) v + (if v = cls then 1 else 0)"
proof (induction rule: search.induct)
  case (search_free c seen m cls cs)
  then show ?case by (auto simp: cnt_map_update)
next
  case (search_deep c seen m cls' s1 m1 cls cs)
  have m1: "map_of m1 c = Some cls'" using search_seen_keeps [OF search_deep(3), of c] search_deep(2) by simp
  have "cnt (map_of m1) cls' \<ge> 1"
    using m1 finite_map_of_value [of m1 cls'] by (auto simp: cnt_def Suc_le_eq card_gt_0_iff)
  then show ?case
    using search_deep(4) m1 by (auto simp: cnt_map_update)
next
  case (search_back c seen m cls' s1 m1 cls cs b s' m')
  then show ?case using search_fail_same [OF search_back(3)] by simp
qed auto

section \<open>The invariant of the main loop\<close>

text \<open>
  \<open>P\<close> are the classes processed so far, \<open>F \<subseteq> P\<close> those whose search failed. The failed searches have
  built a trap that contains them, and every other processed class holds exactly one component.
\<close>

definition kuhn :: "('a \<Rightarrow> 'b list) \<Rightarrow> 'a set \<Rightarrow> ('b \<times> 'a) list \<Rightarrow> 'a set \<Rightarrow> 'a set \<Rightarrow> 'b set \<Rightarrow> bool" where
  "kuhn adj P m F A S \<longleftrightarrow> F \<subseteq> A \<and> A \<subseteq> P \<and> trap adj (map_of m) A S \<and>
     (\<forall>v. cnt (map_of m) v = (if v \<in> P - F then 1 else 0)) \<and>
     (\<forall>c v. map_of m c = Some v \<longrightarrow> c \<in> set (adj v)) \<and> distinct (map fst m)"

lemma cnt_pos: "map_of m c = Some v \<Longrightarrow> 0 < cnt (map_of m) v"
  using finite_map_of_value [of m v] by (auto simp: cnt_def card_gt_0_iff)

lemma kuhn_value: "kuhn adj P m F A S \<Longrightarrow> map_of m c = Some v \<Longrightarrow> v \<in> P - F"
  using cnt_pos [of m c v] by (auto simp: kuhn_def split: if_splits)

lemma kuhn_step:
  assumes k: "kuhn adj P m F A S" and new: "cls \<notin> P"
    and sr: "search adj cls (adj cls) [] m b s' m'"
  shows "\<exists>F' A' S'. kuhn adj (insert cls P) m' F' A' S'"
proof (cases b)
  case True
  have trap: "trap adj (map_of m') A S"
    using k search_trap_keeps [OF sr, of A S] by (auto simp: kuhn_def trap_def)
  have "cnt (map_of m') v = (if v \<in> insert cls P - F then 1 else 0)" for v
    using search_success_cnt [OF sr True, of v] k new by (auto simp: kuhn_def)
  moreover have "\<forall>c v. map_of m' c = Some v \<longrightarrow> c \<in> set (adj v)"
    by (rule search_edges [OF sr]) (use k in \<open>auto simp: kuhn_def\<close>)
  ultimately have "kuhn adj (insert cls P) m' F A S"
    using k trap search_distinct [OF sr] unfolding kuhn_def by blast
  then show ?thesis by blast
next
  case False
  have m: "m' = m" using search_fail_same [OF sr] False by simp
  have closed: "set (adj cls) \<subseteq> set s'"
    "\<And>c. c \<in> set s' \<Longrightarrow> \<exists>v. map_of m c = Some v \<and> set (adj v) \<subseteq> set s'"
    using search_fail_closed [OF sr] False by auto
  let ?V = "{v. \<exists>c\<in>set s'. map_of m c = Some v}"
  have "trap adj (map_of m) (insert cls (A \<union> ?V)) (S \<union> set s')"
    unfolding trap_def
  proof (intro conjI ballI)
    fix a assume "a \<in> insert cls (A \<union> ?V)"
    then show "set (adj a) \<subseteq> S \<union> set s'"
      using closed k unfolding kuhn_def trap_def by (fastforce dest: closed(2))
  next
    fix c assume "c \<in> S \<union> set s'"
    then show "\<exists>a\<in>insert cls (A \<union> ?V). map_of m c = Some a"
      using closed(2) k unfolding kuhn_def trap_def by blast
  qed
  moreover have "?V \<subseteq> P" using kuhn_value [OF k] by auto
  ultimately have "kuhn adj (insert cls P) m (insert cls F) (insert cls (A \<union> ?V)) (S \<union> set s')"
    using k new unfolding kuhn_def by auto
  then show ?thesis unfolding m by blast
qed

lemma match_all_kuhn:
  assumes "match_all n adj classes m = Some m'" "kuhn adj P m F A S" "distinct classes" "set classes \<inter> P = {}"
  shows "\<exists>F' A' S'. kuhn adj (set classes \<union> P) m' F' A' S'"
  using assms
proof (induction classes arbitrary: m P F A S)
  case (Cons cls classes)
  from Cons.prems(1) obtain b s1 m1 where r: "augment n adj cls m = Some (b, s1, m1)"
    "match_all n adj classes m1 = Some m'" by (auto split: option.splits)
  have "search adj cls (adj cls) [] m b s1 m1" using r(1) by (auto simp: augment_def dest: augment_loop_search)
  with kuhn_step [OF Cons.prems(2)] Cons.prems(4) obtain F1 A1 S1 where
    "kuhn adj (insert cls P) m1 F1 A1 S1" by fastforce
  from Cons.IH [OF r(2) this] Cons.prems(3,4) show ?case by auto
qed auto

section \<open>The matching is maximum\<close>

definition matching :: "('a \<Rightarrow> 'b list) \<Rightarrow> 'a set \<Rightarrow> ('a \<times> 'b) set \<Rightarrow> bool" where
  "matching adj P M \<longleftrightarrow> (\<forall>(a, c)\<in>M. a \<in> P \<and> c \<in> set (adj a)) \<and> inj_on fst M \<and> inj_on snd M"

lemma card_inj_le: "inj_on f X \<Longrightarrow> f ` X \<subseteq> Y \<Longrightarrow> finite Y \<Longrightarrow> card X \<le> card Y"
  by (metis card_image card_mono)

lemma kuhn_inj:
  assumes "kuhn adj P m F A S" "map_of m c = Some v" "map_of m d = Some v"
  shows "c = d"
proof -
  have "card {x. map_of m x = Some v} = 1"
    using assms kuhn_value [OF assms(1,2)] by (auto simp: kuhn_def cnt_def)
  then obtain x where x: "{x. map_of m x = Some v} = {x}" by (auto simp: card_1_singleton_iff)
  have "c \<in> {x}" "d \<in> {x}" unfolding x [symmetric] using assms(2,3) by simp_all
  then show ?thesis by simp
qed

lemma kuhn_bound:
  assumes k: "kuhn adj P m F A S" and fin: "finite P" and M: "matching adj P M"
  shows "card M \<le> card (P - F)"
proof -
  have sub: "F \<subseteq> A" "A \<subseteq> P" and trap: "trap adj (map_of m) A S" using k by (auto simp: kuhn_def)
  have finA: "finite A" by (rule finite_subset [OF sub(2) fin])
  have "S \<subseteq> dom (map_of m)" using trap by (auto simp: trap_def dom_def)
  then have finS: "finite S" using finite_dom_map_of finite_subset by blast
  have "card S \<le> card (A - F)"
  proof (rule card_inj_le)
    show "inj_on (\<lambda>c. the (map_of m c)) S"
    proof (rule inj_onI)
      fix c d assume "c \<in> S" "d \<in> S" "the (map_of m c) = the (map_of m d)"
      then show "c = d" using trap kuhn_inj [OF k, of c _ d] unfolding trap_def by fastforce
    qed
    show "(\<lambda>c. the (map_of m c)) ` S \<subseteq> A - F"
      using trap kuhn_value [OF k] unfolding trap_def by fastforce
  qed (use finA in simp)
  moreover have "card {p\<in>M. fst p \<in> A} \<le> card S"
  proof (rule card_inj_le)
    show "inj_on snd {p\<in>M. fst p \<in> A}" using M by (auto simp: matching_def intro: inj_on_subset)
    show "snd ` {p\<in>M. fst p \<in> A} \<subseteq> S" using M trap by (fastforce simp: matching_def trap_def)
  qed (rule finS)
  moreover have "card {p\<in>M. fst p \<notin> A} \<le> card (P - A)"
  proof (rule card_inj_le)
    show "inj_on fst {p\<in>M. fst p \<notin> A}" using M by (auto simp: matching_def intro: inj_on_subset)
    show "fst ` {p\<in>M. fst p \<notin> A} \<subseteq> P - A" using M by (auto simp: matching_def)
  qed (use fin in simp)
  moreover have "finite M"
  proof (rule finite_imageD)
    show "finite (fst ` M)" using M fin by (auto simp: matching_def intro!: finite_subset [OF _ fin])
    show "inj_on fst M" using M by (simp add: matching_def)
  qed
  then have "card M = card {p\<in>M. fst p \<in> A} + card {p\<in>M. fst p \<notin> A}"
    by (subst card_Un_disjoint [symmetric]) (auto intro: arg_cong [where f = card])
  moreover have "card (P - F) = card (A - F) + card (P - A)"
    using sub fin finA by (subst card_Un_disjoint [symmetric]) (auto intro: arg_cong [where f = card])
  ultimately show ?thesis by linarith
qed

lemma kuhn_result:
  assumes k: "kuhn adj P m F A S" and fin: "finite P"
  shows "length m = card (P - F)" "set (map snd m) = P - F"
    "matching adj P ((\<lambda>(c, v). (v, c)) ` set m)" "card ((\<lambda>(c, v). (v, c)) ` set m) = length m"
proof -
  have d: "distinct (map fst m)" using k by (simp add: kuhn_def)
  have mem: "(c, v) \<in> set m \<longleftrightarrow> map_of m c = Some v" for c v using d by (simp add: map_of_eq_Some_iff)
  show snd: "set (map snd m) = P - F"
  proof (intro equalityI subsetI)
    fix v assume "v \<in> set (map snd m)"
    then show "v \<in> P - F" using mem kuhn_value [OF k] by auto
  next
    fix v assume "v \<in> P - F"
    then have "cnt (map_of m) v = 1" using k by (simp add: kuhn_def)
    then obtain c where "map_of m c = Some v" by (auto simp: cnt_def card_1_singleton_iff)
    then show "v \<in> set (map snd m)" using mem by force
  qed
  have "inj_on snd (set m)"
    using kuhn_inj [OF k] mem by (force intro!: inj_onI)
  moreover have dm: "distinct m" using d by (simp add: distinct_map)
  ultimately have "card (snd ` set m) = length m" by (simp add: card_image distinct_card)
  with snd show "length m = card (P - F)" by simp
  have inj: "inj_on (\<lambda>(c, v). (v, c)) (set m)" by (auto intro: inj_onI)
  with dm show "card ((\<lambda>(c, v). (v, c)) ` set m) = length m" by (simp add: card_image distinct_card)
  show "matching adj P ((\<lambda>(c, v). (v, c)) ` set m)"
    unfolding matching_def
  proof (intro conjI)
    show "\<forall>(a, c)\<in>(\<lambda>(c, v). (v, c)) ` set m. a \<in> P \<and> c \<in> set (adj a)"
      using k mem kuhn_value [OF k] by (auto simp: kuhn_def)
    show "inj_on fst ((\<lambda>(c, v). (v, c)) ` set m)"
      using kuhn_inj [OF k] mem by (force intro!: inj_onI)
    show "inj_on snd ((\<lambda>(c, v). (v, c)) ` set m)"
      using mem by (force intro!: inj_onI)
  qed
qed

lemma match_all_enough:
  assumes "finite U" "\<forall>c. set (adj c) \<subseteq> U" "card U \<le> n"
  shows "match_all n adj classes m \<noteq> None"
proof (induction classes arbitrary: m)
  case (Cons cls classes)
  have "augment n adj cls m \<noteq> None"
    unfolding augment_def by (rule augment_loop_enough [OF assms(1,2)]) (use assms(2,3) in auto)
  with Cons show ?case by auto
qed simp

lemma max_bipartite_matching_correct:
  obtains k classes where "max_bipartite_matching g = Some (k, classes)"
    "length classes = k" "sorted classes" "distinct classes" "set classes \<subseteq> fst ` set g"
    "\<exists>M. matching (adjacent g) (fst ` set g) M \<and> card M = k \<and> fst ` M = set classes"
    "\<And>M. matching (adjacent g) (fst ` set g) M \<Longrightarrow> card M \<le> k"
proof -
  let ?U = "set (concat (map snd g))" and ?P = "fst ` set g"
  let ?n = "length (remdups (concat (map snd g)))"
  have adj: "\<forall>c. set (adjacent g c) \<subseteq> ?U"
  proof
    fix c show "set (adjacent g c) \<subseteq> ?U"
      by (cases "map_of g c") (force simp: adjacent_def dest: map_of_SomeD)+
  qed
  have "card ?U \<le> ?n" by (metis distinct_card distinct_remdups order_refl set_remdups)
  from match_all_enough [OF _ adj this] obtain m where
    m: "match_all ?n (adjacent g) (sorted_unique (map fst g)) [] = Some m" by auto
  have "kuhn (adjacent g) {} [] {} {} {}" by (auto simp: kuhn_def trap_def cnt_def)
  from match_all_kuhn [OF m this] obtain F A S where k: "kuhn (adjacent g) ?P m F A S" by auto
  note r = kuhn_result [OF k]
  have fin: "finite ?P" by simp
  show thesis
  proof (rule that [of "length m" "sorted_unique (map snd m)"])
    show "max_bipartite_matching g = Some (length m, sorted_unique (map snd m))"
      using m by (simp add: max_bipartite_matching_def Let_def)
    show "length (sorted_unique (map snd m)) = length m"
      using r(1,2) fin distinct_card [of "sorted_unique (map snd m)"] by simp
    show "set (sorted_unique (map snd m)) \<subseteq> ?P" using r(2) fin by auto
    show "\<exists>M. matching (adjacent g) ?P M \<and> card M = length m \<and> fst ` M = set (sorted_unique (map snd m))"
      using r(3,4) fin by (intro exI [of _ "(\<lambda>(c, v). (v, c)) ` set m"]) (force simp: image_iff)
    show "card M \<le> length m" if "matching (adjacent g) ?P M" for M
      using kuhn_bound [OF k fin that] r(1) fin by simp
  qed simp_all
qed

end
