(* ===== verification/Aggregation.thy ===== *)
theory Aggregation
  imports Suppression UnionFind Matching "HOL-Library.Product_Lexorder"
begin

text \<open>
  knowledge/runtime/aggregation.py: the fold of the rule results into one decision. The JSON Schema
  validators are parameters (a predicate on rule results, one on whole-evaluation errors); every
  check the code makes itself is modelled. \<open>None\<close> as a detection confidence is the level
  \<open>NOT_APPLICABLE\<close>. The disjoint-set walk and the matching return options; \<open>proven_independence\<close>
  turns a walk that does not return into an exception, and the properties show there is none.
\<close>

section \<open>Decisions\<close>

datatype error_scope = WHOLE_EVALUATION | SINGLE_RULE

record eval_error =
  ee_scope :: error_scope
  ee_stage :: "string option"
  ee_code :: string
  ee_message :: string
  ee_rule_id :: "string option"

fun scope_text :: "error_scope \<Rightarrow> string" where
  "scope_text WHOLE_EVALUATION = ''WHOLE_EVALUATION''"
| "scope_text SINGLE_RULE = ''SINGLE_RULE''"

record corroboration =
  co_classes :: "string list"
  co_count :: nat
  co_band :: level
  co_shared :: "string list"

record decision =
  dr_support :: support_status
  dr_classification :: classification
  dr_severity :: level
  dr_strength :: strength
  dr_risk :: level
  dr_confidence :: "confidence option"
  dr_corroboration :: corroboration
  dr_governing :: "string option"
  dr_reason :: "string option"
  dr_matched_rules :: "string list"
  dr_positive :: "string list"
  dr_negative :: "string list"
  dr_suppressed :: "string list"
  dr_overrides :: "string list"
  dr_ambiguities :: "string list"
  dr_unknowns :: "string list"
  dr_degraded :: bool
  dr_errors :: "eval_error list"
  dr_results :: "rule_result list"
  dr_profile :: profile

section \<open>Ordinal scales and text\<close>

definition verdict_rank :: "evidence_verdict option \<Rightarrow> int" where
  "verdict_rank v = (case v of
     Some V_SUPPORTED \<Rightarrow> 3 | Some V_PARTIAL \<Rightarrow> 2 | Some V_HEURISTIC \<Rightarrow> 1 | _ \<Rightarrow> 0)"

definition verdict_strength_cap :: "evidence_verdict option \<Rightarrow> strength" where
  "verdict_strength_cap v = (case v of
     Some V_SUPPORTED \<Rightarrow> STRONG | Some V_PARTIAL \<Rightarrow> MODERATE | _ \<Rightarrow> WEAK)"

definition indicator_strength :: "string option \<Rightarrow> strength option" where
  "indicator_strength s =
     (if s = Some ''WEAK'' then Some WEAK else if s = Some ''MODERATE'' then Some MODERATE
      else if s = Some ''STRONG'' then Some STRONG else None)"

fun RISK_MATRIX :: "level \<Rightarrow> strength \<Rightarrow> level option" where
  "RISK_MATRIX NONE NO_STRENGTH = Some NONE"
| "RISK_MATRIX LOW WEAK = Some LOW"
| "RISK_MATRIX LOW MODERATE = Some LOW"
| "RISK_MATRIX LOW STRONG = Some MEDIUM"
| "RISK_MATRIX MEDIUM WEAK = Some LOW"
| "RISK_MATRIX MEDIUM MODERATE = Some MEDIUM"
| "RISK_MATRIX MEDIUM STRONG = Some MEDIUM"
| "RISK_MATRIX HIGH WEAK = Some MEDIUM"
| "RISK_MATRIX HIGH MODERATE = Some HIGH"
| "RISK_MATRIX HIGH STRONG = Some HIGH"
| "RISK_MATRIX CRITICAL WEAK = Some HIGH"
| "RISK_MATRIX CRITICAL MODERATE = Some HIGH"
| "RISK_MATRIX CRITICAL STRONG = Some CRITICAL"
| "RISK_MATRIX _ _ = None"

definition risk_level :: "level \<Rightarrow> strength \<Rightarrow> level res" where
  "risk_level sev st =
     (if sev = NONE then Inr NONE
      else case RISK_MATRIX sev st of
             None \<Rightarrow> Inl (AggregationError ''illegal severity and strength for the risk matrix'')
           | Some r \<Rightarrow> Inr r)"

fun level_text :: "level \<Rightarrow> string" where
  "level_text NONE = ''NONE''"
| "level_text LOW = ''LOW''"
| "level_text MEDIUM = ''MEDIUM''"
| "level_text HIGH = ''HIGH''"
| "level_text CRITICAL = ''CRITICAL''"

fun verdict_text :: "evidence_verdict option \<Rightarrow> string" where
  "verdict_text None = ''None''"
| "verdict_text (Some V_SUPPORTED) = ''SUPPORTED''"
| "verdict_text (Some V_PARTIAL) = ''PARTIAL''"
| "verdict_text (Some V_HEURISTIC) = ''HEURISTIC''"
| "verdict_text (Some V_UNSUPPORTED) = ''UNSUPPORTED''"

fun nat_text :: "nat \<Rightarrow> string" where
  "nat_text n = (if n < 10 then [char_of (48 + n)] else nat_text (n div 10) @ [char_of (48 + n mod 10)])"

section \<open>Predicates on rule results\<close>

definition is_composite :: "rule_result \<Rightarrow> bool" where
  "is_composite r \<longleftrightarrow> rr_kind r = COMPOSITE"

definition is_eligible_matched :: "rule_result \<Rightarrow> bool" where
  "is_eligible_matched r \<longleftrightarrow> is_composite r \<and> rr_state r = MATCHED \<and> rr_required r = TRUE \<and>
     (case rr_effective r of None \<Rightarrow> False | Some l \<Rightarrow> l \<in> set SEVERITY_ORDER)"

definition is_unresolved_harmful :: "rule_result \<Rightarrow> bool" where
  "is_unresolved_harmful r \<longleftrightarrow> is_composite r \<and> rr_state r = INDETERMINATE \<and> rr_required r = UNKNOWN \<and>
     (rr_ambiguities r \<noteq> [] \<or> rr_unknowns r \<noteq> [])"

definition has_unresolved_harmful :: "rule_result list \<Rightarrow> bool" where
  "has_unresolved_harmful rs \<longleftrightarrow> list_ex is_unresolved_harmful rs"

definition is_benign_clear :: "rule_result \<Rightarrow> bool" where
  "is_benign_clear r \<longleftrightarrow> is_composite r \<and>
     (rr_state r = SUPPRESSED \<or> rr_state r = NOT_MATCHED \<and> rr_required r = FALSE)"

definition has_affirmative_benign_clear :: "rule_result list \<Rightarrow> bool" where
  "has_affirmative_benign_clear rs \<longleftrightarrow> list_ex is_benign_clear rs"

definition has_residual_observed_positive :: "rule_result list \<Rightarrow> bool" where
  "has_residual_observed_positive rs \<longleftrightarrow> list_ex (\<lambda>r. is_composite r \<and> rr_matched_positive r \<noteq> []) rs"

section \<open>Strength and the governing rule\<close>

definition governed_strength :: "runtime_knowledge \<Rightarrow> string \<Rightarrow> strength res" where
  "governed_strength rk iid =
     (case rk_indicator rk iid of
        None \<Rightarrow> Inl (AggregationError (''matched positive '' @ iid @ '' does not resolve''))
      | Some i \<Rightarrow>
          (case indicator_strength (in_strength i) of
             None \<Rightarrow> Inl (AggregationError (''indicator '' @ iid @ '' has invalid governed strength''))
           | Some s \<Rightarrow> Inr s))"

definition rule_evidence_strength :: "runtime_knowledge \<Rightarrow> rule_result \<Rightarrow> strength res" where
  "rule_evidence_strength rk r =
     rbind (map_res (governed_strength rk) (rr_matched_positive r)) (\<lambda>strengths.
       let max_indicator = fold max strengths WEAK;
           composite = min max_indicator (verdict_strength_cap (rr_verdict r))
       in Inr (if rr_overrides r \<noteq> [] then max composite MODERATE else composite))"

definition severity_rank :: "level option \<Rightarrow> int" where
  "severity_rank l = (case l of None \<Rightarrow> 0 | Some l' \<Rightarrow> int (level_rank l') - 1)"

definition governing_key :: "rule_result \<Rightarrow> int \<times> int \<times> int \<times> string" where
  "governing_key r =
     (- severity_rank (rr_effective r), - verdict_rank (rr_verdict r),
      - int (length (rr_classes r)), rr_rule_id r)"

definition select_governing :: "rule_result list \<Rightarrow> rule_result" where
  "select_governing eligible = hd (sort_key governing_key eligible)"

definition governing_reason :: "rule_result \<Rightarrow> nat \<Rightarrow> string" where
  "governing_reason gov n =
     ''highest effective severity '' @ (case rr_effective gov of None \<Rightarrow> ''None'' | Some l \<Rightarrow> level_text l) @
     ''; evidence verdict '' @ verdict_text (rr_verdict gov) @
     ''; '' @ nat_text (length (rr_classes gov)) @ '' independent evidence class(es)'' @
     (if 1 < n then
        ''; selected over ties by severity > verdict (SUPPORTED>PARTIAL) > class breadth > lexical rule id''
      else [])"

section \<open>Proven independence and corroboration\<close>

text \<open>One entry per live group: the indicator's evidence class and the group's references.\<close>

definition indicator_entries ::
    "runtime_knowledge \<Rightarrow> rule_result \<Rightarrow> string \<Rightarrow> (string \<times> string list) list res" where
  "indicator_entries rk r iid =
     (case rk_indicator rk iid of
        None \<Rightarrow> Inl (AggregationError (''matched positive '' @ iid @ '' does not resolve''))
      | Some i \<Rightarrow>
          (case nonempty (in_evidence_class i) of
             None \<Rightarrow> Inr []
           | Some cls \<Rightarrow>
               Inr (map (\<lambda>refs. (cls, refs))
                 (filter (\<lambda>refs. refs \<noteq> [])
                   (map sorted_unique (case map_of (rr_provenance r) iid of None \<Rightarrow> [] | Some g \<Rightarrow> g))))))"

definition independence_entries ::
    "runtime_knowledge \<Rightarrow> rule_result list \<Rightarrow> (string \<times> string list) list res" where
  "independence_entries rk eligible =
     rbind (map_res (\<lambda>r. map_res (indicator_entries rk r) (rr_matched_positive r)) eligible)
       (\<lambda>ess. Inr (concat (concat ess)))"

fun class_components ::
    "(string \<times> string list) list \<Rightarrow> string dict \<Rightarrow> string list dict \<Rightarrow> string list dict option" where
  "class_components [] p d = Some d"
| "class_components ((cls, refs) # entries) p d =
     (case uf_find p (hd refs) of
        None \<Rightarrow> None
      | Some (root, p') \<Rightarrow>
          class_components entries p'
            (AList.update cls ((case map_of d cls of None \<Rightarrow> [] | Some cs \<Rightarrow> cs) @ [root]) d))"

definition shared_refs :: "(string \<times> string list) list \<Rightarrow> string list" where
  "shared_refs entries =
     (let uses = concat (map snd entries)
      in sorted_unique (filter (\<lambda>ref. 1 < count_list uses ref) uses))"

definition proven_independence ::
    "runtime_knowledge \<Rightarrow> rule_result list \<Rightarrow> (nat \<times> string list \<times> string list) res" where
  "proven_independence rk eligible =
     rbind (independence_entries rk eligible) (\<lambda>entries.
       case merge_groups uf_find uf_union (map snd entries) [] of
         None \<Rightarrow> Inl (KeyError ''disjoint-set walk'')
       | Some p \<Rightarrow>
           (case class_components entries p [] of
              None \<Rightarrow> Inl (KeyError ''disjoint-set walk'')
            | Some graph \<Rightarrow>
                if graph = [] then Inr (0, [], shared_refs entries)
                else
                  (case max_bipartite_matching graph of
                     None \<Rightarrow> Inl (KeyError ''matching'')
                   | Some (count, classes) \<Rightarrow> Inr (count, classes, shared_refs entries))))"

definition corroboration_band :: "nat \<Rightarrow> level" where
  "corroboration_band n = (if n = 0 then NONE else if n = 1 then LOW else if n = 2 then MEDIUM else HIGH)"

definition corroborate :: "nat \<Rightarrow> string list \<Rightarrow> string list \<Rightarrow> evidence_verdict option \<Rightarrow> corroboration" where
  "corroborate n classes shared verdict =
     (let band = corroboration_band n in
      \<lparr>co_classes = sorted_unique classes, co_count = n,
       co_band = (if verdict \<in> {Some V_PARTIAL, Some V_HEURISTIC} \<and> MEDIUM < band then MEDIUM else band),
       co_shared = shared\<rparr>)"

definition no_corroboration :: "level \<Rightarrow> corroboration" where
  "no_corroboration band = \<lparr>co_classes = [], co_count = 0, co_band = band, co_shared = []\<rparr>"

definition corroboration_no_fire :: "rule_result list \<Rightarrow> classification \<Rightarrow> corroboration" where
  "corroboration_no_fire rs cl =
     no_corroboration (if cl = CL_INSUFFICIENT_EVIDENCE \<and> \<not> has_unresolved_harmful rs \<and>
                          has_residual_observed_positive rs
                       then LOW else NONE)"

section \<open>Confidence and classification\<close>

definition confidence_ge :: "confidence option \<Rightarrow> nat" where
  "confidence_ge c = (case c of None \<Rightarrow> 0 | Some c' \<Rightarrow> conf_rank c')"

text \<open>\<open>min((\<dots>), default=0)\<close> over the matched indicators' extraction levels.\<close>

definition min_extraction :: "rule_result \<Rightarrow> nat" where
  "min_extraction r =
     (case map (\<lambda>iid. confidence_ge (case map_of (rr_confidence r) iid of None \<Rightarrow> None | Some c \<Rightarrow> c))
             (rr_matched_positive r) of
        [] \<Rightarrow> 0 | x # xs \<Rightarrow> fold min xs x)"

definition context_only_present :: "rule_result \<Rightarrow> bool" where
  "context_only_present r =
     (case rr_suppression r of
        None \<Rightarrow> False
      | Some su \<Rightarrow> (case su_context su of None \<Rightarrow> False | Some ids \<Rightarrow> ids \<noteq> []))"

definition detection_confidence :: "rule_result \<Rightarrow> nat \<Rightarrow> confidence" where
  "detection_confidence gov n =
     (if rr_verdict gov = Some V_SUPPORTED \<and> rr_ambiguities gov = [] \<and>
         conf_rank C_MEDIUM \<le> min_extraction gov \<and> (3 \<le> n \<or> rr_overrides gov \<noteq> [])
      then C_HIGH
      else if context_only_present gov \<or> rr_verdict gov \<in> {Some V_HEURISTIC, Some V_UNSUPPORTED}
      then C_LOW
      else C_MEDIUM)"

definition classify ::
    "support_status \<Rightarrow> rule_result list \<Rightarrow> rule_result list \<Rightarrow> confidence option \<Rightarrow> bool \<Rightarrow> bool
     \<Rightarrow> classification" where
  "classify support eligible all_results conf degraded whole_error =
     (if whole_error \<or> support = S_ERROR then CL_ERROR
      else if support = S_UNSUPPORTED then CL_UNSUPPORTED
      else if support = S_INSUFFICIENT_INFORMATION then CL_INSUFFICIENT_EVIDENCE
      else if eligible \<noteq> [] then
        (if conf = Some C_LOW then CL_SCAM_PATTERN_SUSPECTED else CL_SCAM_PATTERN_DETECTED)
      else if degraded then CL_INSUFFICIENT_EVIDENCE
      else if has_unresolved_harmful all_results then CL_INSUFFICIENT_EVIDENCE
      else if has_affirmative_benign_clear all_results then CL_NO_SCAM_PATTERN
      else CL_INSUFFICIENT_EVIDENCE)"

section \<open>The input boundary\<close>

definition canonical_provenance :: "string list list dict \<Rightarrow> string list list dict" where
  "canonical_provenance prov =
     map (\<lambda>k. (k, sorted_unique (map sorted_unique (case map_of prov k of None \<Rightarrow> [] | Some g \<Rightarrow> g))))
       (sorted_unique (dict_keys prov))"

definition canonical_caps :: "suppression option \<Rightarrow> suppression option res" where
  "canonical_caps su =
     (case su of
        None \<Rightarrow> Inr None
      | Some s \<Rightarrow>
          (case su_caps_applied s of
             None \<Rightarrow> Inr (Some s)
           | Some cs \<Rightarrow>
               if NONE \<in> set cs then Inl (ValueError ''not in tuple'')
               else Inr (Some (s\<lparr>su_caps_applied := Some (sorted_unique cs)\<rparr>))))"

definition validate_and_canonical_copy :: "(rule_result \<Rightarrow> bool) \<Rightarrow> rule_result \<Rightarrow> rule_result res" where
  "validate_and_canonical_copy schema_ok r =
     rbind (guard (schema_ok r) (AggregationError ''result fails rule-evaluation-result.schema.json'')) (\<lambda>_.
     rbind (guard (\<not> has_wp5_fields r) (AggregationError ''pre-populated WP5 fields'')) (\<lambda>_.
     rbind (canonical_caps (rr_suppression r)) (\<lambda>su.
       Inr ((canonicalize_result (r\<lparr>rr_suppression := su\<rparr>))
              \<lparr>rr_provenance := canonical_provenance (rr_provenance r)\<rparr>))))"

fun required_for_state :: "state \<Rightarrow> kleene list" where
  "required_for_state MATCHED = [TRUE]"
| "required_for_state SUPPRESSED = [TRUE]"
| "required_for_state INDETERMINATE = [UNKNOWN]"
| "required_for_state NOT_MATCHED = [TRUE, FALSE]"
| "required_for_state NOT_APPLICABLE = [TRUE, FALSE, UNKNOWN]"

definition check_semantic_invariants :: "runtime_knowledge \<Rightarrow> rule_result \<Rightarrow> unit res" where
  "check_semantic_invariants rk r =
     rbind (guard (rr_required r \<in> set (required_for_state (rr_state r)))
              (AggregationError ''state with illegal required_combination_result'')) (\<lambda>_.
     rbind (guard (if rr_state r = NOT_APPLICABLE
                   then (case rr_error r of None \<Rightarrow> False | Some (code, _) \<Rightarrow> code \<noteq> [])
                   else rr_error r = None)
              (AggregationError ''evaluation_error placement'')) (\<lambda>_.
     rbind (guard (\<not> is_composite r \<or> rr_state r = NOT_APPLICABLE \<or> rr_verdict r \<noteq> None)
              (AggregationError ''missing rule_evidence_verdict'')) (\<lambda>_.
     rbind (guard (\<not> is_composite r \<or> rr_state r \<noteq> MATCHED \<or>
                   (case rr_effective r of None \<Rightarrow> False | Some l \<Rightarrow> l \<in> set SEVERITY_ORDER))
              (AggregationError ''MATCHED composite has invalid effective_severity'')) (\<lambda>_.
     rbind (guard (list_all (\<lambda>i. rk_indicator rk i \<noteq> None) (rr_matched_positive r))
              (AggregationError ''matched positive indicator does not resolve'')) (\<lambda>_.
     rbind (guard (list_all (\<lambda>i. rk_indicator rk i \<noteq> None) (rr_neutralised r))
              (AggregationError ''neutralised indicator does not resolve'')) (\<lambda>_.
     rbind (guard (list_all (\<lambda>n. rk_negative rk n \<noteq> None) (rr_matched_negative r))
              (AggregationError ''matched negative indicator does not resolve'')) (\<lambda>_.
     rbind (guard (list_all (\<lambda>o'. rk_override rk o' \<noteq> None) (rr_overrides r))
              (AggregationError ''active override does not resolve'')) (\<lambda>_.
     guard (list_all (\<lambda>k. k \<in> set (rr_matched_positive r)) (dict_keys (rr_provenance r)))
       (AggregationError ''live_positive_provenance key not in matched_positive_indicators'')))))))))"

text \<open>The two \<open>try\<close> blocks: a fault of the listed classes becomes an \<open>AggregationError\<close>.\<close>

definition agg_boundary :: "'a res \<Rightarrow> 'a res" where
  "agg_boundary r =
     (case r of
        Inr x \<Rightarrow> Inr x
      | Inl e \<Rightarrow> if agg_fault e then Inl (AggregationError (''malformed input: '' @ exc_text e)) else Inl e)"

fun check_duplicates :: "rule_result list \<Rightarrow> string list \<Rightarrow> unit res" where
  "check_duplicates [] seen = Inr ()"
| "check_duplicates (r # rs) seen =
     (if rr_rule_id r \<in> set seen then Inl (AggregationError (''duplicate rule_id '' @ rr_rule_id r))
      else check_duplicates rs (rr_rule_id r # seen))"

section \<open>Aggregation\<close>

definition is_degraded :: "rule_result \<Rightarrow> bool" where
  "is_degraded r \<longleftrightarrow> rr_state r = NOT_APPLICABLE \<and> rr_error r \<noteq> None"

definition rule_error :: "rule_result \<Rightarrow> eval_error option" where
  "rule_error r =
     (if rr_state r = NOT_APPLICABLE then
        (case rr_error r of
           None \<Rightarrow> None
         | Some (code, message) \<Rightarrow>
             Some \<lparr>ee_scope = SINGLE_RULE, ee_stage = Some ''RULE_EVALUATION'', ee_code = code,
                   ee_message = message, ee_rule_id = Some (rr_rule_id r)\<rparr>)
      else None)"

definition error_key :: "eval_error \<Rightarrow> string \<times> string \<times> string \<times> string \<times> string" where
  "error_key e =
     (scope_text (ee_scope e), (case ee_stage e of None \<Rightarrow> [] | Some s \<Rightarrow> s), ee_code e,
      (case ee_rule_id e of None \<Rightarrow> [] | Some i \<Rightarrow> i), ee_message e)"

definition collect :: "(rule_result \<Rightarrow> string list) \<Rightarrow> rule_result list \<Rightarrow> string list" where
  "collect f rs = sorted_unique (concat (map f rs))"

definition assemble ::
    "support_status \<Rightarrow> classification \<Rightarrow> level \<Rightarrow> strength \<Rightarrow> level \<Rightarrow> confidence option \<Rightarrow> corroboration
     \<Rightarrow> string option \<Rightarrow> string option \<Rightarrow> rule_result list \<Rightarrow> rule_result list \<Rightarrow> bool
     \<Rightarrow> eval_error list \<Rightarrow> profile \<Rightarrow> decision" where
  "assemble support cl sev st risk conf corr gov reason eligible all_results degraded errors pf =
     (let comp = filter is_composite all_results in
      \<lparr>dr_support = support, dr_classification = cl, dr_severity = sev, dr_strength = st,
       dr_risk = risk, dr_confidence = conf, dr_corroboration = corr, dr_governing = gov,
       dr_reason = reason, dr_matched_rules = sorted_unique (map rr_rule_id eligible),
       dr_positive = collect rr_matched_positive eligible,
       dr_negative = collect rr_matched_negative comp,
       dr_suppressed = collect rr_neutralised comp,
       dr_overrides = collect rr_overrides comp,
       dr_ambiguities = collect rr_ambiguities comp,
       dr_unknowns = collect rr_unknowns comp,
       dr_degraded = degraded, dr_errors = sort_key error_key errors,
       dr_results = sort_key rr_rule_id all_results, dr_profile = pf\<rparr>)"

text \<open>\<open>r["rule_evidence_strength"] = \<dots>\<close> on the eligible results, then the governing rule's fields.\<close>

definition attach_strength :: "runtime_knowledge \<Rightarrow> rule_result \<Rightarrow> rule_result res" where
  "attach_strength rk r =
     (if is_eligible_matched r
      then rbind (rule_evidence_strength rk r) (\<lambda>s. Inr (r\<lparr>rr_strength := Some s\<rparr>))
      else Inr r)"

definition mark_governing :: "string \<Rightarrow> string \<Rightarrow> confidence \<Rightarrow> rule_result \<Rightarrow> rule_result" where
  "mark_governing gid reason conf r =
     (if rr_rule_id r = gid \<and> is_eligible_matched r
      then r\<lparr>rr_governing := Some True, rr_governing_reason := Some reason,
             rr_detection_confidence := Some conf\<rparr>
      else r)"

definition decision_severity :: "rule_result list \<Rightarrow> level" where
  "decision_severity eligible = fold max (List.map_filter rr_effective eligible) NONE"

definition aggregate_eligible ::
    "runtime_knowledge \<Rightarrow> profile \<Rightarrow> support_status \<Rightarrow> rule_result list \<Rightarrow> bool \<Rightarrow> eval_error list
     \<Rightarrow> decision res" where
  "aggregate_eligible rk pf support materialised degraded errors =
     rbind (map_res (attach_strength rk) materialised) (\<lambda>rs.
     let eligible = filter is_eligible_matched rs;
         gov = select_governing eligible;
         sev = decision_severity eligible;
         st = (case rr_strength gov of None \<Rightarrow> NO_STRENGTH | Some s \<Rightarrow> s) in
     rbind (proven_independence rk eligible) (\<lambda>(n, classes, shared).
     let corr = corroborate n classes shared (rr_verdict gov);
         conf0 = detection_confidence gov n;
         conf = (if degraded \<and> conf0 = C_HIGH then C_MEDIUM else conf0) in
     rbind (risk_level sev st) (\<lambda>risk.
     let cl = classify support eligible rs (Some conf) degraded False;
         reason = governing_reason gov (length eligible);
         marked = map (mark_governing (rr_rule_id gov) reason conf) rs in
     Inr (assemble support cl sev st risk (Some conf) corr (Some (rr_rule_id gov)) (Some reason)
            (filter is_eligible_matched marked) marked degraded errors pf))))"

definition aggregate_decision ::
    "(rule_result \<Rightarrow> bool) \<Rightarrow> (eval_error \<Rightarrow> bool) \<Rightarrow> runtime_knowledge \<Rightarrow> profile \<Rightarrow> support_status
     \<Rightarrow> rule_result list \<Rightarrow> eval_error list \<Rightarrow> decision res" where
  "aggregate_decision schema_ok error_ok rk pf support rule_results whole_errors =
     rbind (guard (list_all error_ok whole_errors)
              (AggregationError ''malformed whole_evaluation_errors entry'')) (\<lambda>_.
     rbind (agg_boundary (rbind (map_res (validate_and_canonical_copy schema_ok) rule_results)
              (\<lambda>rs. rbind (map_res (check_semantic_invariants rk) rs) (\<lambda>_. Inr rs)))) (\<lambda>materialised.
     rbind (check_duplicates materialised []) (\<lambda>_.
     let degraded = list_ex is_degraded materialised;
         errors = whole_errors @ List.map_filter rule_error materialised;
         whole_error = (whole_errors \<noteq> []);
         eligible = filter is_eligible_matched materialised in
     if whole_error \<or> support \<notin> {S_SUPPORTED, S_PARTIALLY_SUPPORTED} then
       Inr (assemble support (classify support [] materialised None degraded whole_error)
              NONE NO_STRENGTH NONE None (no_corroboration NONE) None None [] materialised degraded errors pf)
     else if eligible = [] then
       (let cl = classify support [] materialised None degraded whole_error in
        Inr (assemble support cl NONE NO_STRENGTH NONE None (corroboration_no_fire materialised cl)
               None None [] materialised degraded errors pf))
     else aggregate_eligible rk pf support materialised degraded errors)))"

definition evaluate_decision_from_governed ::
    "(json \<Rightarrow> bool) \<Rightarrow> (json \<Rightarrow> bool) \<Rightarrow> (rule_result \<Rightarrow> bool) \<Rightarrow> (eval_error \<Rightarrow> bool)
     \<Rightarrow> runtime_knowledge \<Rightarrow> profile \<Rightarrow> pyval \<Rightarrow> pyval \<Rightarrow> support_status \<Rightarrow> string \<Rightarrow> string
     \<Rightarrow> eval_error list \<Rightarrow> decision res" where
  "evaluate_decision_from_governed io_ok obs_ok schema_ok error_ok rk pf inds obs support language script
       whole_errors =
     rbind (evaluate_rules_with_suppression_from_governed io_ok obs_ok rk pf inds obs language script)
       (\<lambda>wp4. aggregate_decision schema_ok error_ok rk pf support wp4 whole_errors)"

end
