(* ===== verification/CanonicalJson.thy ===== *)
theory CanonicalJson
  imports Aggregation "HOL-Library.Multiset"
begin

text \<open>
  \<open>json.dumps(value, sort_keys=True, separators=(",", ":"))\<close>, the canonical text that the explanation
  (\<open>_canon\<close> of explanation.py), the AI boundary (\<open>canonical_json\<close> of governance.py) and, through it, the
  audit chain and the idempotency fingerprints compare and hash. Non-printable and non-ASCII
  characters are escaped as \<open>json\<close> does with \<open>ensure_ascii\<close>. The lemmas show that the text identifies
  the value: equal texts come only from values equal up to the order of keys.
\<close>

section \<open>Text\<close>

definition hex_digit :: "nat \<Rightarrow> char" where
  "hex_digit n = (if n < 10 then char_of (48 + n) else char_of (87 + n))"

definition escape_char :: "char \<Rightarrow> string" where
  "escape_char c =
     (let n = (of_char c :: nat) in
      if c = CHR 0x22 then [CHR 0x5C, CHR 0x22]
      else if c = CHR 0x5C then [CHR 0x5C, CHR 0x5C]
      else if c = CHR 0x0A then [CHR 0x5C, CHR ''n'']
      else if c = CHR 0x0D then [CHR 0x5C, CHR ''r'']
      else if c = CHR 0x09 then [CHR 0x5C, CHR ''t'']
      else if c = CHR 0x0C then [CHR 0x5C, CHR ''f'']
      else if c = CHR 0x08 then [CHR 0x5C, CHR ''b'']
      else if 32 \<le> n \<and> n \<le> 126 then [c]
      else [CHR 0x5C, CHR ''u'', CHR ''0'', CHR ''0'', hex_digit (n div 16), hex_digit (n mod 16)])"

definition quote :: "string \<Rightarrow> string" where
  "quote s = [CHR 0x22] @ concat (map escape_char s) @ [CHR 0x22]"

definition int_text :: "int \<Rightarrow> string" where
  "int_text i = (if i < 0 then CHR ''-'' # nat_text (nat (- i)) else nat_text (nat i))"

fun comma_join :: "string list \<Rightarrow> string" where
  "comma_join [] = []"
| "comma_join [x] = x"
| "comma_join (x # y # zs) = x @ [CHR '',''] @ comma_join (y # zs)"

fun dumps :: "json \<Rightarrow> string" where
  "dumps JNull = ''null''"
| "dumps (JBool b) = (if b then ''true'' else ''false'')"
| "dumps (JInt i) = int_text i"
| "dumps (JFloat t) = t"
| "dumps (JStr s) = quote s"
| "dumps (JArr xs) = ''['' @ comma_join (map dumps xs) @ '']''"
| "dumps (JObj kvs) = ''{'' @ comma_join (map (\<lambda>(k, v). quote k @ '':'' @ dumps v) kvs) @ ''}''"

fun sort_keys :: "json \<Rightarrow> json" where
  "sort_keys (JArr xs) = JArr (map sort_keys xs)"
| "sort_keys (JObj kvs) = JObj (sort_key fst (map (\<lambda>(k, v). (k, sort_keys v)) kvs))"
| "sort_keys j = j"

definition canonical_text :: "json \<Rightarrow> string" where
  "canonical_text j = dumps (sort_keys j)"

text \<open>
  A finite float prints as digits, signs, a point and an exponent, with a point or an exponent, which no
  integer has.
\<close>

definition number_char :: "char \<Rightarrow> bool" where
  "number_char c \<longleftrightarrow> CHR ''0'' \<le> c \<and> c \<le> CHR ''9'' \<or> c \<in> set ''+-.e''"

definition float_text :: "string \<Rightarrow> bool" where
  "float_text t \<longleftrightarrow> list_all number_char t \<and> (CHR ''.'' \<in> set t \<or> CHR ''e'' \<in> set t)"

fun printed_floats :: "json \<Rightarrow> bool" where
  "printed_floats (JFloat t) = float_text t"
| "printed_floats (JArr xs) = list_all printed_floats xs"
| "printed_floats (JObj kvs) = list_all (\<lambda>(_, v). printed_floats v) kvs"
| "printed_floats _ = True"

section \<open>The text determines the value\<close>

subsection \<open>Characters and strings\<close>

definition hex_value :: "char \<Rightarrow> nat" where
  "hex_value c = (let n = of_char c in if n < 58 then n - 48 else n - 87)"

lemma hex_value_digit [simp]: "n < 16 \<Longrightarrow> hex_value (hex_digit n) = n"
  by (simp add: hex_value_def hex_digit_def Let_def)

definition unescape :: "string \<Rightarrow> char" where
  "unescape e =
     (if length e = 1 then hd e
      else if length e = 2 then
        (let c = e ! 1 in
         if c = CHR ''n'' then CHR 0x0A else if c = CHR ''r'' then CHR 0x0D
         else if c = CHR ''t'' then CHR 0x09 else if c = CHR ''f'' then CHR 0x0C
         else if c = CHR ''b'' then CHR 0x08 else c)
      else char_of (16 * hex_value (e ! 4) + hex_value (e ! 5)))"

lemma unescape_escape: "unescape (escape_char c) = c"
proof -
  have b: "(of_char c :: nat) < 256" by (rule nat_of_char_less_256)
  have "hex_value (hex_digit (of_char c div 16)) = of_char c div 16"
    "hex_value (hex_digit (of_char c mod 16)) = of_char c mod 16"
    using less_mult_imp_div_less [of "of_char c" 16 16] b by simp_all
  moreover have "16 * (of_char c div 16) + of_char c mod 16 = (of_char c :: nat)" by simp
  ultimately show ?thesis
    by (simp add: escape_char_def unescape_def Let_def)
qed

lemma escape_char_code: 
  "\<exists>e. escape_char c = [e] \<and> e \<noteq> CHR 0x5C \<and> e \<noteq> CHR 0x22 \<or>
     (\<exists>f. escape_char c = [CHR 0x5C, f] \<and> f \<noteq> CHR ''u'') \<or>
     (\<exists>a b. escape_char c = [CHR 0x5C, CHR ''u'', CHR ''0'', CHR ''0'', a, b])"
  by (simp add: escape_char_def Let_def)

lemma escape_char_prefix:
  assumes "escape_char c @ r = escape_char d @ s"
  shows "c = d \<and> r = s"
proof -
  have "escape_char c = escape_char d \<and> r = s"
    using assms escape_char_code [of c] escape_char_code [of d] by auto
  then show ?thesis by (metis unescape_escape)
qed

lemma escape_char_start [simp]: "escape_char c @ r \<noteq> CHR 0x22 # s" "CHR 0x22 # s \<noteq> escape_char c @ r"
  using escape_char_code [of c] by auto

lemma escaped_prefix:
  "concat (map escape_char s) @ CHR 0x22 # q = concat (map escape_char t) @ CHR 0x22 # r \<Longrightarrow> s = t \<and> q = r"
proof (induction s arbitrary: t)
  case Nil
  then show ?case by (cases t) simp_all
next
  case (Cons c s)
  show ?case
  proof (cases t)
    case Nil
    with Cons.prems show ?thesis by simp
  next
    case (Cons d t')
    from Cons.prems [unfolded Cons] have "escape_char c @ (concat (map escape_char s) @ CHR 0x22 # q) =
        escape_char d @ (concat (map escape_char t') @ CHR 0x22 # r)" by simp
    from escape_char_prefix [OF this] Cons.IH [of t'] Cons show ?thesis by simp
  qed
qed

lemma quote_prefix: "quote s @ q = quote t @ r \<Longrightarrow> s = t \<and> q = r"
  using escaped_prefix [of s q t r] by (simp add: quote_def)

subsection \<open>Numbers\<close>

definition is_digit :: "char \<Rightarrow> bool" where
  "is_digit c \<longleftrightarrow> 48 \<le> (of_char c :: nat) \<and> (of_char c :: nat) \<le> 57"

definition digits_value :: "string \<Rightarrow> nat" where
  "digits_value s = foldl (\<lambda>a c. 10 * a + (of_char c - 48)) 0 s"

declare nat_text.simps [simp del]

lemma nat_text_digits: "list_all is_digit (nat_text n) \<and> nat_text n \<noteq> [] \<and> digits_value (nat_text n) = n"
proof (induction n rule: nat_text.induct)
  case (1 n)
  show ?case
  proof (cases "n < 10")
    case True
    then show ?thesis by (simp add: nat_text.simps [of n] is_digit_def digits_value_def)
  next
    case False
    have "n mod 10 < 10" by simp
    with False 1 [OF False] show ?thesis
      by (simp add: nat_text.simps [of n] is_digit_def digits_value_def)
  qed
qed

lemma nat_text_inj: "nat_text m = nat_text n \<longleftrightarrow> m = n"
  by (metis nat_text_digits)

text \<open>What may follow a number in the text of a larger value.\<close>

definition ends_number :: "string \<Rightarrow> bool" where
  "ends_number r \<longleftrightarrow> (r = [] \<or> \<not> number_char (hd r))"

lemma takeWhile_number:
  "list_all number_char d \<Longrightarrow> ends_number r \<Longrightarrow> takeWhile number_char (d @ r) = d"
  by (induction d) (auto simp: ends_number_def, cases r, auto)

lemma number_prefix:
  assumes "list_all number_char d" "list_all number_char e" "d @ q = e @ r" "ends_number q" "ends_number r"
  shows "d = e \<and> q = r"
proof -
  have "d = e" using takeWhile_number [OF assms(1,4)] takeWhile_number [OF assms(2,5)] assms(3) by simp
  with assms(3) show ?thesis by simp
qed

lemma digit_number: "is_digit c \<Longrightarrow> number_char c \<and> c \<noteq> CHR ''.'' \<and> c \<noteq> CHR ''e'' \<and> c \<noteq> CHR ''-''"
  by (auto simp: is_digit_def number_char_def less_eq_char_def)

lemma int_text_number:
  "list_all number_char (int_text i)" "CHR ''.'' \<notin> set (int_text i)" "CHR ''e'' \<notin> set (int_text i)"
proof -
  have n: "list_all number_char (nat_text k) \<and> CHR ''.'' \<notin> set (nat_text k) \<and> CHR ''e'' \<notin> set (nat_text k)" for k
    using nat_text_digits [of k] digit_number unfolding list_all_iff by blast
  have "number_char (CHR ''-'')" by (simp add: number_char_def)
  with n show "list_all number_char (int_text i)" "CHR ''.'' \<notin> set (int_text i)" "CHR ''e'' \<notin> set (int_text i)"
    by (simp_all add: int_text_def)
qed

lemma nat_text_start: "\<exists>c cs. nat_text n = c # cs \<and> is_digit c"
  using nat_text_digits [of n] by (cases "nat_text n") auto

lemma nat_text_minus: "nat_text n \<noteq> CHR ''-'' # s"
  using nat_text_start [of n] digit_number by force

lemma int_text_inj: "int_text i = int_text j \<longleftrightarrow> i = j"
proof
  assume e: "int_text i = int_text j"
  then show "i = j"
    using nat_text_minus nat_text_minus [symmetric]
    by (cases "i < 0"; cases "j < 0") (auto simp: int_text_def nat_text_inj eq_nat_nat_iff)
qed simp

lemma int_text_prefix:
  assumes "int_text i @ q = int_text j @ r" "ends_number q" "ends_number r"
  shows "i = j \<and> q = r"
  using number_prefix [OF int_text_number(1) int_text_number(1) assms] by (simp add: int_text_inj)

text \<open>The text of an integer and of a float differ, and neither is the start of the other.\<close>

lemma int_float_prefix:
  assumes "float_text t" "ends_number q" "ends_number r"
  shows "int_text i @ q \<noteq> t @ r"
proof
  assume "int_text i @ q = t @ r"
  then have "int_text i = t"
    using number_prefix [OF int_text_number(1) _ _ assms(2,3)] assms(1) by (simp add: float_text_def)
  then show False using int_text_number(2,3) [of i] assms(1) by (auto simp: float_text_def)
qed

subsection \<open>Values\<close>

text \<open>The first character of a text tells the kind of the value.\<close>

fun start_class :: "json \<Rightarrow> nat" where
  "start_class JNull = 0"
| "start_class (JBool b) = (if b then 1 else 2)"
| "start_class (JInt _) = 3"
| "start_class (JFloat _) = 3"
| "start_class (JStr _) = 5"
| "start_class (JArr _) = 6"
| "start_class (JObj _) = 7"

definition char_class :: "char \<Rightarrow> nat" where
  "char_class c =
     (if c = CHR ''n'' then 0 else if c = CHR ''t'' then 1 else if c = CHR ''f'' then 2
      else if c = CHR 0x22 then 5 else if c = CHR ''['' then 6 else if c = CHR ''{'' then 7
      else if c = CHR '']'' \<or> c = CHR ''}'' then 8 else 3)"

lemma char_class_eval [simp]:
  "char_class (CHR ''n'') = 0" "char_class (CHR ''t'') = 1" "char_class (CHR ''f'') = 2"
  "char_class (CHR 0x22) = 5" "char_class (CHR ''['') = 6" "char_class (CHR ''{'') = 7"
  "char_class (CHR '']'') = 8" "char_class (CHR ''}'') = 8" "char_class (CHR ''-'') = 3"
  by (simp_all add: char_class_def)

lemma number_char_eval:
  "number_char (CHR ''n'') = False" "number_char (CHR ''t'') = False" "number_char (CHR ''f'') = False"
  "number_char (CHR 0x22) = False" "number_char (CHR ''['') = False" "number_char (CHR ''{'') = False"
  "number_char (CHR '']'') = False" "number_char (CHR ''}'') = False" "number_char (CHR '','') = False"
  by (simp_all add: number_char_def less_eq_char_def)

lemma number_class: "number_char c \<Longrightarrow> char_class c = 3"
proof -
  assume "number_char c"
  then have ne: "(c = x) = False" if "number_char x = False" for x using that by auto
  show ?thesis by (simp only: char_class_def ne [OF number_char_eval(1)] ne [OF number_char_eval(2)]
      ne [OF number_char_eval(3)] ne [OF number_char_eval(4)] ne [OF number_char_eval(5)] ne [OF number_char_eval(6)]
      ne [OF number_char_eval(7)] ne [OF number_char_eval(8)] if_False simp_thms)
qed

lemma number_start: "list_all number_char t \<Longrightarrow> t \<noteq> [] \<Longrightarrow> \<exists>c cs. t = c # cs \<and> char_class c = 3"
  using number_class by (cases t) auto

lemma int_text_start: "\<exists>c cs. int_text i = c # cs \<and> char_class c = 3"
  using number_start [OF int_text_number(1) [of i]] nat_text_start [of "nat i"] by (auto simp: int_text_def)

lemma float_text_start: "float_text t \<Longrightarrow> \<exists>c cs. t = c # cs \<and> char_class c = 3"
  by (cases t) (auto simp: float_text_def number_class)

lemma dumps_start: "printed_floats j \<Longrightarrow> \<exists>c cs. dumps j = c # cs \<and> char_class c = start_class j"
  using int_text_start float_text_start by (cases j) (simp_all add: quote_def)

lemma dumps_same_class:
  assumes "printed_floats a" "printed_floats b" "dumps a @ q = dumps b @ r"
  shows "start_class a = start_class b"
  using dumps_start [OF assms(1)] dumps_start [OF assms(2)] assms(3) by auto

lemma start_class_less: "printed_floats j \<Longrightarrow> start_class j < 8"
  by (cases j) simp_all

lemma dumps_no_close:
  assumes "printed_floats j" "c = CHR '']'' \<or> c = CHR ''}''"
  shows "dumps j @ q \<noteq> c # r"
proof
  assume "dumps j @ q = c # r"
  with dumps_start [OF assms(1)] have "char_class c = start_class j" by auto
  moreover have "char_class c = 8" using assms(2) by (elim disjE) simp_all
  ultimately show False using start_class_less [OF assms(1)] by simp
qed

lemma join_Cons: "comma_join (x # ys) = x @ (if ys = [] then [] else CHR '','' # comma_join ys)"
  by (cases ys) simp_all

text \<open>Items that are each uniquely readable before a comma or the closing character.\<close>

lemma items_prefix:
  fixes f :: "'a \<Rightarrow> string"
  assumes item: "\<And>x y q r. x \<in> set xs \<Longrightarrow> y \<in> set ys \<Longrightarrow> hd q \<in> {CHR '','', c} \<Longrightarrow> hd r \<in> {CHR '','', c} \<Longrightarrow>
      q \<noteq> [] \<Longrightarrow> r \<noteq> [] \<Longrightarrow> f x @ q = f y @ r \<Longrightarrow> x = y \<and> q = r"
    and start: "\<And>x q r. x \<in> set xs \<union> set ys \<Longrightarrow> f x @ q \<noteq> c # r"
    and c: "c \<noteq> CHR '',''"
    and eq: "comma_join (map f xs) @ c # q = comma_join (map f ys) @ c # r"
  shows "xs = ys \<and> q = r"
  using item start eq
proof (induction xs arbitrary: ys)
  case Nil
  then show ?case by (cases ys) (auto simp: join_Cons dest: sym)
next
  case (Cons x xs)
  show ?case
  proof (cases ys)
    case Nil
    then show ?thesis using Cons.prems(2) [of x] Cons.prems(3) by (simp add: join_Cons)
  next
    case (Cons y ys')
    let ?rest = "\<lambda>zs q. (if zs = [] then [] else CHR '','' # comma_join (map f zs)) @ c # q"
    have e: "f x @ ?rest xs q = f y @ ?rest ys' r" using Cons.prems(3) Cons by (simp add: join_Cons)
    have h: "hd (?rest zs q) \<in> {CHR '','', c}" "?rest zs q \<noteq> []" for zs q by auto
    have xy: "x = y" "?rest xs q = ?rest ys' r"
      using Cons.prems(1) [of x y, OF _ _ h(1) h(1) h(2) h(2) e] Cons by simp_all
    show ?thesis
    proof (cases "xs = [] \<or> ys' = []")
      case True
      then show ?thesis using xy c Cons by (auto split: if_splits)
    next
      case False
      then have "comma_join (map f xs) @ c # q = comma_join (map f ys') @ c # r" using xy(2) by simp
      then have "xs = ys' \<and> q = r"
      proof (rule Cons.IH [rotated 2])
        fix x y q r
        assume "x \<in> set xs" "y \<in> set ys'" "hd q \<in> {CHR '','', c}" "hd r \<in> {CHR '','', c}" "q \<noteq> []" "r \<noteq> []"
          "f x @ q = f y @ r"
        then show "x = y \<and> q = r" by (intro Cons.prems(1)) (simp_all add: Cons)
      next
        fix x q r
        assume "x \<in> set xs \<union> set ys'"
        then show "f x @ q \<noteq> c # r" by (intro Cons.prems(2)) (auto simp: Cons)
      qed
      with xy(1) Cons show ?thesis by simp
    qed
  qed
qed

lemma ends_number_sep: "hd q \<in> {CHR '','', c} \<Longrightarrow> c \<in> {CHR '']'', CHR ''}''} \<Longrightarrow> ends_number q"
  unfolding ends_number_def using number_char_eval(7-9) by auto

theorem dumps_prefix:
  "printed_floats a \<Longrightarrow> printed_floats b \<Longrightarrow> ends_number q \<Longrightarrow> ends_number r \<Longrightarrow> dumps a @ q = dumps b @ r \<Longrightarrow> a = b \<and> q = r"
proof (induction a arbitrary: b q r)
  case (JArr xs)
  from dumps_same_class [OF JArr.prems(1,2,5)] obtain ys where b: "b = JArr ys" by (cases b) (simp_all split: if_splits)
  have "comma_join (map dumps xs) @ CHR '']'' # q = comma_join (map dumps ys) @ CHR '']'' # r"
    using JArr.prems(5) b by simp
  then have "xs = ys \<and> q = r"
  proof (rule items_prefix [rotated 3])
    fix x y q' r'
    assume "x \<in> set xs" "y \<in> set ys" "hd q' \<in> {CHR '','', CHR '']''}" "hd r' \<in> {CHR '','', CHR '']''}"
      "dumps x @ q' = dumps y @ r'"
    then show "x = y \<and> q' = r'"
      using JArr.IH [of x y q' r'] JArr.prems(1,2) b by (simp add: list_all_iff ends_number_sep)
  next
    fix x q' r'
    assume "x \<in> set xs \<union> set ys"
    then show "dumps x @ q' \<noteq> CHR '']'' # r'"
      using dumps_no_close JArr.prems(1,2) b by (auto simp: list_all_iff)
  qed simp
  then show ?case using b by simp
next
  case (JObj kvs)
  from dumps_same_class [OF JObj.prems(1,2,5)] obtain kvs' where b: "b = JObj kvs'" by (cases b) (simp_all split: if_splits)
  let ?f = "\<lambda>(k, v). quote k @ '':'' @ dumps v"
  have "comma_join (map ?f kvs) @ CHR ''}'' # q = comma_join (map ?f kvs') @ CHR ''}'' # r"
    using JObj.prems(5) b by simp
  then have "kvs = kvs' \<and> q = r"
  proof (rule items_prefix [rotated 3])
    fix x y :: "string \<times> json" and q' r'
    assume a: "x \<in> set kvs" "y \<in> set kvs'" "hd q' \<in> {CHR '','', CHR ''}''}" "hd r' \<in> {CHR '','', CHR ''}''}"
      "?f x @ q' = ?f y @ r'"
    obtain k v k' v' where xy: "x = (k, v)" "y = (k', v')" by (cases x; cases y)
    from a(5) xy have "quote k @ (CHR '':'' # dumps v @ q') = quote k' @ (CHR '':'' # dumps v' @ r')" by simp
    from quote_prefix [OF this] have k: "k = k'" "dumps v @ q' = dumps v' @ r'" by simp_all
    have "printed_floats v" "printed_floats v'"
      using JObj.prems(1,2) a(1,2) b xy by (auto simp: list_all_iff)
    from JObj.IH [of x v v' q' r', OF a(1) _ this _ _ k(2)] a(3,4) xy k(1)
    show "x = y \<and> q' = r'" by (simp add: ends_number_sep snds.simps)
  next
    fix x :: "string \<times> json" and q' r'
    show "?f x @ q' \<noteq> CHR ''}'' # r'" by (cases x) (simp add: quote_def)
  qed simp
  then show ?case using b by simp
next
  case JNull
  from dumps_same_class [OF JNull.prems(1,2,5)] have "b = JNull" by (cases b) (simp_all split: if_splits)
  then show ?case using JNull.prems by simp
next
  case (JBool x)
  from dumps_same_class [OF JBool.prems(1,2,5)] obtain y where "b = JBool y" "y = x"
    by (cases b) (simp_all split: if_splits)
  then show ?case using JBool.prems(5) by (simp split: if_splits)
next
  case (JInt i)
  from dumps_same_class [OF JInt.prems(1,2,5)] consider j where "b = JInt j" | t where "b = JFloat t"
    by (cases b) (simp_all split: if_splits)
  then show ?case
  proof cases
    case 1
    then show ?thesis using JInt.prems int_text_prefix by simp
  next
    case 2
    then show ?thesis using JInt.prems int_float_prefix [of t q r i] by simp
  qed
next
  case (JFloat t)
  from dumps_same_class [OF JFloat.prems(1,2,5)] consider j where "b = JInt j" | u where "b = JFloat u"
    by (cases b) (simp_all split: if_splits)
  then show ?case
  proof cases
    case 1
    then show ?thesis using JFloat.prems int_float_prefix [of t r q j] by (simp add: eq_commute)
  next
    case 2
    then show ?thesis using JFloat.prems number_prefix [of t u q r] by (simp add: float_text_def)
  qed
next
  case (JStr s)
  from dumps_same_class [OF JStr.prems(1,2,5)] obtain t where "b = JStr t" by (cases b) (simp_all split: if_splits)
  then show ?case using JStr.prems quote_prefix [of s q t r] by simp
qed

lemma dumps_inj: "printed_floats a \<Longrightarrow> printed_floats b \<Longrightarrow> dumps a = dumps b \<longleftrightarrow> a = b"
  using dumps_prefix [of a b "[]" "[]"] by (auto simp: ends_number_def)

section \<open>Canonical form\<close>

lemma sort_keys_printed: "printed_floats (sort_keys j) = printed_floats j"
proof (induction j rule: sort_keys.induct)
  case (2 kvs)
  then have "\<forall>(k, v)\<in>set kvs. printed_floats (sort_keys v) = printed_floats v" by auto
  then show ?case by (auto simp: list_all_iff)
qed (auto simp: list_all_iff)

lemma canonical_text_inj:
  "printed_floats a \<Longrightarrow> printed_floats b \<Longrightarrow> canonical_text a = canonical_text b \<longleftrightarrow> sort_keys a = sort_keys b"
  by (simp add: canonical_text_def dumps_inj sort_keys_printed)

lemma canonical_text_key_order:
  assumes "mset kvs = mset kvs'" "distinct (map fst kvs)"
  shows "canonical_text (JObj kvs) = canonical_text (JObj kvs')"
proof -
  let ?g = "\<lambda>(k, v). (k, sort_keys v)"
  have fst: "map fst (map ?g xs) = map fst xs" for xs :: "json dict" by (induction xs) auto
  have "distinct (map fst (map ?g kvs))" unfolding fst by (rule assms(2))
  then have i: "inj_on fst (set (map ?g kvs))" by (simp only: distinct_map)
  have m: "mset (map ?g kvs) = mset (map ?g kvs')" using assms(1) by simp
  have "sort_key fst (map ?g kvs) = sort_key fst (map ?g kvs')"
    by (rule sort_key_inj_key_eq) (use m i in simp_all)
  then show ?thesis by (simp add: canonical_text_def)
qed

end
