(* ===== verification/Explanation.thy ===== *)
theory Explanation
  imports CanonicalJson
begin

text \<open>
  knowledge/runtime/explanation.py: the deterministic explanation and the recommended actions of one
  decision, behind a boundary that re-checks the decision against the loaded knowledge. A decision is
  the record of Aggregation, so the checks that a field has the type of that record (axis
  vocabularies, tuples, mappings) cannot fail here; every check of content is modelled, in the order
  of the source. The two JSON Schema validators are parameters, as in Aggregation. A list key of the
  explanation that the source leaves out when it is empty is \<open>[]\<close>.
\<close>

section \<open>Results\<close>

record action =
  ac_code :: string
  ac_rules :: "string list"
  ac_indicators :: "string list"
  ac_overrides :: "string list"
  ac_evidence :: "string list"

datatype outcome = APPLIED | BLOCKED_BY_OVERRIDE | RECORDED_CONTEXT_ONLY

record supporting_observation =
  so_ref :: string
  so_span :: "(json \<times> json) option"

record explanation =
  ex_what :: string
  ex_why :: string
  ex_summary :: string
  ex_confidence_reason :: string
  ex_matched :: "string list"
  ex_fired :: "string list"
  ex_overrides :: "(string \<times> string list) list"
  ex_suppression :: "(string \<times> outcome) list"
  ex_evidence :: "source_echo list"
  ex_observations :: "supporting_observation list"
  ex_steps :: "string list"
  ex_unknowns :: "string list"
  ex_limitations :: "string list"

record explanation_result =
  er_explanation :: explanation
  er_actions :: "action list"
  er_policy_version :: "string option"

definition ACTION_ORDER :: "string list" where
  "ACTION_ORDER =
     [''DO_NOT_SHARE_CREDENTIALS'', ''DO_NOT_ENTER_PIN'', ''DO_NOT_TRANSFER_MONEY'', ''DO_NOT_INSTALL_APP'',
      ''DO_NOT_CONNECT_WALLET'', ''DO_NOT_DIAL_CODE'', ''DISCONNECT_REMOTE_ACCESS'', ''VERIFY_INDEPENDENTLY'',
      ''CONTACT_BANK'', ''CONTACT_OFFICIAL_CHANNEL'', ''REPORT_CYBERCRIME'', ''PRESERVE_EVIDENCE'',
      ''PROCEED_WITH_CAUTION'', ''SEEK_HUMAN_REVIEW'', ''RESUBMIT_IN_SUPPORTED_LANGUAGE'']"

definition SCAM_CLASSES :: "classification list" where
  "SCAM_CLASSES = [CL_SCAM_PATTERN_DETECTED, CL_SCAM_PATTERN_SUSPECTED]"

definition EVALUABLE_SUPPORT :: "support_status list" where
  "EVALUABLE_SUPPORT = [S_SUPPORTED, S_PARTIALLY_SUPPORTED]"

section \<open>Small helpers\<close>

definition some_field :: "string \<Rightarrow> string option \<Rightarrow> json dict" where
  "some_field k v = (case v of None \<Rightarrow> [] | Some s \<Rightarrow> [(k, JStr s)])"

text \<open>\<open>{k: item[k] for k in _ECHO_KEYS if item.get(k) is not None}\<close>, and its \<open>_canon\<close>.\<close>

definition echo_json :: "source_echo \<Rightarrow> json" where
  "echo_json e = JObj
     (some_field ''source_id'' (ec_source_id e) @ some_field ''issuing_body'' (ec_issuing_body e) @
      some_field ''authority'' (ec_authority e) @
      some_field ''verification_status'' (ec_verification_status e) @
      some_field ''evidence_class'' (ec_evidence_class e) @ some_field ''quote'' (ec_quote e))"

definition canon_echo :: "source_echo \<Rightarrow> string" where
  "canon_echo e = canonical_text (echo_json e)"

definition error_json :: "eval_error \<Rightarrow> json" where
  "error_json e = JObj
     ([(''scope'', JStr (scope_text (ee_scope e)))] @ some_field ''stage'' (ee_stage e) @
      [(''code'', JStr (ee_code e)), (''message'', JStr (ee_message e))] @
      some_field ''rule_id'' (ee_rule_id e))"

definition canon_error :: "eval_error \<Rightarrow> string" where
  "canon_error e = canonical_text (error_json e)"

text \<open>Subcategory to parent category, from the governed structure; a later node overwrites.\<close>

fun parent_entries :: "taxonomy_node \<Rightarrow> (string \<times> string) list" where
  "parent_entries (Category c) = map (\<lambda>s. (sc_id s, ca_id c)) (ca_subs c)"
| "parent_entries (Subcategory s) = []"

definition taxonomy_parent_map :: "runtime_knowledge \<Rightarrow> string dict" where
  "taxonomy_parent_map rk = dict_of (concat (map (\<lambda>(_, n). parent_entries n) (taxonomy_by_id rk)))"

definition rule_taxonomy_ids :: "rule option \<Rightarrow> string dict \<Rightarrow> string list" where
  "rule_taxonomy_ids r parent =
     (let refs = (case r of None \<Rightarrow> [] | Some r' \<Rightarrow> ru_taxonomy_refs r')
      in refs @ List.map_filter (map_of parent) refs)"

definition eligible_matched :: "rule_result \<Rightarrow> bool" where
  "eligible_matched r \<longleftrightarrow> rr_kind r = COMPOSITE \<and> rr_state r = MATCHED \<and> rr_required r = TRUE"

definition decisive_unresolved :: "rule_result \<Rightarrow> bool" where
  "decisive_unresolved r \<longleftrightarrow> rr_kind r = COMPOSITE \<and> rr_state r = INDETERMINATE \<and>
     rr_required r = UNKNOWN \<and> (rr_ambiguities r \<noteq> [] \<or> rr_unknowns r \<noteq> [])"

definition authoritative_source_refs :: "rule option \<Rightarrow> source_echo list" where
  "authoritative_source_refs r = (case r of None \<Rightarrow> [] | Some r' \<Rightarrow> map echo_source (ru_sources r'))"

definition contributing_rule_ids :: "decision \<Rightarrow> string list" where
  "contributing_rule_ids d =
     sorted_unique (dr_matched_rules d @ (case dr_governing d of None \<Rightarrow> [] | Some g \<Rightarrow> [g]) @
       (if dr_classification d = CL_INSUFFICIENT_EVIDENCE
        then map rr_rule_id (filter decisive_unresolved (dr_results d)) else []))"

text \<open>\<open>rk.published_rule if live else rk.rule\<close>\<close>

definition rule_lookup :: "runtime_knowledge \<Rightarrow> bool \<Rightarrow> string \<Rightarrow> rule option" where
  "rule_lookup rk live = (if live then rk_published_rule rk else rk_rule rk)"

section \<open>The trust boundary\<close>

text \<open>A run of \<open>if \<dots>: _fail(\<dots>)\<close> statements with one code: the first that fails ends it.\<close>

fun all_checks :: "string \<Rightarrow> (bool \<times> string) list \<Rightarrow> unit res" where
  "all_checks code [] = Inr ()"
| "all_checks code ((ok, msg) # cs) = (if ok then all_checks code cs else Inl (ExplanationError code msg))"

lemma all_checks_eq [simp, res_simps]: "all_checks code cs = Inr u \<longleftrightarrow> list_all fst cs"
  by (induction code cs rule: all_checks.induct) auto

definition canonical_rollup :: "string \<Rightarrow> string list \<Rightarrow> string list res" where
  "canonical_rollup field v =
     (if distinct v then Inr (sort v)
      else Inl (ExplanationError ''ROLLUP_MISMATCH'' (field @ '' contains duplicate members'')))"

fun check_rollups :: "(string \<times> string list \<times> string list) list \<Rightarrow> unit res" where
  "check_rollups [] = Inr ()"
| "check_rollups ((field, v, wanted) # rest) =
     rbind (canonical_rollup field v) (\<lambda>got.
       if got = wanted then check_rollups rest
       else Inl (ExplanationError ''ROLLUP_MISMATCH'' (field @ '' does not match the WP5 rollup'')))"

definition expected_rollups :: "decision \<Rightarrow> (string \<times> string list \<times> string list) list" where
  "expected_rollups d =
     (let eligible = filter is_eligible_matched (dr_results d);
          composites = filter is_composite (dr_results d)
      in [(''matched_rules'', dr_matched_rules d, sorted_unique (map rr_rule_id eligible)),
          (''matched_positive_indicators'', dr_positive d, collect rr_matched_positive eligible),
          (''matched_negative_indicators'', dr_negative d, collect rr_matched_negative composites),
          (''suppressed_indicators'', dr_suppressed d, collect rr_neutralised composites),
          (''active_overrides'', dr_overrides d, collect rr_overrides composites),
          (''ambiguities'', dr_ambiguities d, collect rr_ambiguities composites),
          (''unknowns'', dr_unknowns d, collect rr_unknowns composites)])"

definition validate_wp5_rollups :: "(eval_error \<Rightarrow> bool) \<Rightarrow> decision \<Rightarrow> unit res" where
  "validate_wp5_rollups error_ok d =
     rbind (check_rollups (expected_rollups d)) (\<lambda>_.
     rbind (all_checks ''ROLLUP_MISMATCH''
       [(dr_degraded d = list_ex is_degraded (dr_results d), ''degraded does not match rule_results'')]) (\<lambda>_.
     rbind (all_checks ''INVALID_DECISION''
       [(list_all error_ok (dr_errors d), ''malformed decision error'')]) (\<lambda>_.
     let actual_single = map canon_error (filter (\<lambda>e. ee_scope e = SINGLE_RULE) (dr_errors d));
         expected_single = sort (map canon_error (List.map_filter rule_error (dr_results d))) in
     all_checks ''ROLLUP_MISMATCH''
       [(sort actual_single = expected_single, ''SINGLE_RULE errors do not match NOT_APPLICABLE rule_results'')])))"

definition none_axes :: "decision \<Rightarrow> bool" where
  "none_axes d \<longleftrightarrow> dr_severity d = NONE \<and> dr_strength d = NO_STRENGTH \<and> dr_risk d = NONE \<and>
     dr_confidence d = None"

text \<open>The branch of \<open>_validate_classification\<close> for each classification.\<close>

fun classification_checks :: "decision \<Rightarrow> classification \<Rightarrow> (bool \<times> string) list" where
  "classification_checks d CL_NO_SCAM_PATTERN =
     [(dr_support d \<in> set EVALUABLE_SUPPORT, ''non-evaluable input_support_status''),
      (dr_governing d = None, ''NO_SCAM_PATTERN with a governing rule''),
      (filter is_eligible_matched (dr_results d) = [], ''NO_SCAM_PATTERN with an eligible rule''),
      (none_axes d, ''decision axes must be NONE'')]"
| "classification_checks d CL_INSUFFICIENT_EVIDENCE =
     [(dr_governing d = None, ''INSUFFICIENT_EVIDENCE with a governing rule''),
      (filter is_eligible_matched (dr_results d) = [], ''INSUFFICIENT_EVIDENCE with an eligible rule''),
      (none_axes d, ''decision axes must be NONE'')]"
| "classification_checks d CL_UNSUPPORTED =
     [(dr_support d = S_UNSUPPORTED, ''requires input_support_status UNSUPPORTED''),
      (dr_governing d = None \<and> filter is_eligible_matched (dr_results d) = [], ''UNSUPPORTED with a rule''),
      (none_axes d, ''decision axes must be NONE'')]"
| "classification_checks d CL_ERROR =
     [(dr_support d = S_ERROR \<or> list_ex (\<lambda>e. ee_scope e = WHOLE_EVALUATION) (dr_errors d),
       ''ERROR requires support ERROR or a WHOLE_EVALUATION error''),
      (dr_governing d = None \<and> filter is_eligible_matched (dr_results d) = [], ''ERROR with a rule''),
      (none_axes d, ''decision axes must be NONE'')]"
| "classification_checks d c =
     [(dr_support d \<in> set EVALUABLE_SUPPORT, ''non-evaluable input_support_status''),
      (dr_governing d \<noteq> None, ''no governing rule''),
      (\<exists>g\<in>set (dr_matched_rules d). dr_governing d = Some g, ''governing rule not in matched_rules''),
      (filter is_eligible_matched (dr_results d) \<noteq> [], ''no eligible MATCHED composite rule''),
      (case List.find (\<lambda>r. Some (rr_rule_id r) = dr_governing d) (dr_results d) of
         None \<Rightarrow> False | Some gov \<Rightarrow> is_eligible_matched gov, ''governing rule is not an eligible result''),
      (dr_severity d \<noteq> NONE \<and> dr_strength d \<noteq> NO_STRENGTH \<and> dr_risk d \<noteq> NONE, ''axes must be non-NONE''),
      (dr_confidence d \<noteq> None, ''detection_confidence must be applicable''),
      (c \<noteq> CL_SCAM_PATTERN_DETECTED \<or> dr_confidence d \<noteq> Some C_LOW, ''DETECTED with LOW confidence''),
      (c \<noteq> CL_SCAM_PATTERN_SUSPECTED \<or> dr_confidence d = Some C_LOW, ''SUSPECTED requires LOW confidence'')]"

definition validate_classification :: "decision \<Rightarrow> unit res" where
  "validate_classification d =
     rbind (all_checks ''CLASSIFICATION_INCONSISTENT''
       [(dr_classification d = CL_ERROR \<or> \<not> list_ex (\<lambda>e. ee_scope e = WHOLE_EVALUATION) (dr_errors d),
         ''cannot carry a WHOLE_EVALUATION error'')]) (\<lambda>_.
     all_checks ''CLASSIFICATION_INCONSISTENT'' (classification_checks d (dr_classification d)))"

text \<open>The loop over \<open>rule_results\<close>: schema, semantic invariants, resolution, no duplicate.\<close>

fun check_rule_results ::
    "(rule_result \<Rightarrow> bool) \<Rightarrow> runtime_knowledge \<Rightarrow> rule_result list \<Rightarrow> string list \<Rightarrow> unit res" where
  "check_rule_results schema_ok rk [] seen = Inr ()"
| "check_rule_results schema_ok rk (r # rs) seen =
     rbind (all_checks ''RULE_RESULT_INVALID'' [(schema_ok r, ''fails the rule-result schema'')]) (\<lambda>_.
     rbind (case check_semantic_invariants rk r of
              Inl (AggregationError m) \<Rightarrow> Inl (ExplanationError ''RULE_RESULT_INVALID'' m)
            | res \<Rightarrow> res) (\<lambda>_.
     rbind (all_checks ''REFERENCE_INVALID'' [(rk_rule rk (rr_rule_id r) \<noteq> None, ''rule_id does not resolve'')]) (\<lambda>_.
     rbind (all_checks ''RULE_RESULT_INVALID'' [(rr_rule_id r \<notin> set seen, ''duplicate rule_id'')]) (\<lambda>_.
       check_rule_results schema_ok rk rs (rr_rule_id r # seen)))))"

fun check_contributing :: "runtime_knowledge \<Rightarrow> bool \<Rightarrow> string list \<Rightarrow> unit res" where
  "check_contributing rk live [] = Inr ()"
| "check_contributing rk live (rid # rids) =
     (if rule_lookup rk live rid = None then
        (if live \<and> rk_rule rk rid \<noteq> None
         then Inl (ExplanationError ''UNPUBLISHED_RULE'' rid)
         else Inl (ExplanationError ''REFERENCE_INVALID'' rid))
      else check_contributing rk live rids)"

fun check_echoes :: "runtime_knowledge \<Rightarrow> bool \<Rightarrow> rule_result list \<Rightarrow> unit res" where
  "check_echoes rk live [] = Inr ()"
| "check_echoes rk live (r # rs) =
     (if \<not> is_eligible_matched r then check_echoes rk live rs
      else if sort (map canon_echo (rr_sources r)) \<noteq>
              sort (map canon_echo (authoritative_source_refs (rule_lookup rk live (rr_rule_id r))))
      then Inl (ExplanationError ''SOURCE_REFERENCE_MISMATCH'' (rr_rule_id r))
      else check_echoes rk live rs)"

definition validate_explanation_input ::
    "(rule_result \<Rightarrow> bool) \<Rightarrow> (eval_error \<Rightarrow> bool) \<Rightarrow> runtime_knowledge \<Rightarrow> bool \<Rightarrow> decision \<Rightarrow> unit res" where
  "validate_explanation_input schema_ok error_ok rk live d =
     rbind (all_checks ''ACTION_POLICY_UNAVAILABLE'' [(has_action_policy rk, ''no governed action policy'')]) (\<lambda>_.
     rbind (check_rule_results schema_ok rk (dr_results d) []) (\<lambda>_.
     rbind (validate_wp5_rollups error_ok d) (\<lambda>_.
     rbind (validate_classification d) (\<lambda>_.
     rbind (check_contributing rk live (contributing_rule_ids d)) (\<lambda>_.
     rbind (all_checks ''REFERENCE_INVALID''
       [(list_all (\<lambda>oid. rk_override rk oid \<noteq> None) (dr_overrides d), ''active override does not resolve'')]) (\<lambda>_.
     check_echoes rk live (dr_results d)))))))"

section \<open>Recommended actions\<close>

definition has_steps :: "runtime_knowledge \<Rightarrow> bool \<Rightarrow> string \<Rightarrow> bool" where
  "has_steps rk live rid = (case rule_lookup rk live rid of None \<Rightarrow> False | Some r \<Rightarrow> ru_steps r \<noteq> [])"

definition verification_rules :: "runtime_knowledge \<Rightarrow> bool \<Rightarrow> decision \<Rightarrow> string list" where
  "verification_rules rk live d =
     filter (has_steps rk live) (dr_matched_rules d) @
     (if dr_classification d = CL_INSUFFICIENT_EVIDENCE
      then filter (has_steps rk live) (map rr_rule_id (filter decisive_unresolved (dr_results d))) else [])"

definition applies_when :: "policy_entry \<Rightarrow> decision \<Rightarrow> bool" where
  "applies_when e d = (case ap_classes e of None \<Rightarrow> True | Some cs \<Rightarrow> dr_classification d \<in> set cs)"

text \<open>
  What one policy entry adds: nothing, or its (rule, indicator, override) reasons; the entry's
  evidence references go with them.
\<close>

fun trigger_reasons ::
    "runtime_knowledge \<Rightarrow> bool \<Rightarrow> decision \<Rightarrow> trigger \<Rightarrow> (string list \<times> string list \<times> string list) option" where
  "trigger_reasons rk live d (T_OVERRIDE tid) =
     (if tid \<in> set (dr_overrides d) then Some ([], [], [tid]) else None)"
| "trigger_reasons rk live d (T_RULE tid) =
     (if tid \<in> set (dr_matched_rules d) then Some ([tid], [], []) else None)"
| "trigger_reasons rk live d (T_TAXONOMY tid) =
     (let matched = filter (\<lambda>rid. tid \<in> set (rule_taxonomy_ids (rule_lookup rk live rid) (taxonomy_parent_map rk)))
                      (dr_matched_rules d)
      in if matched = [] then None else Some (matched, [], []))"
| "trigger_reasons rk live d (T_NEGATIVE_INDICATOR tid) =
     (if tid \<in> set (dr_negative d) then Some ([], [tid], []) else None)"
| "trigger_reasons rk live d T_RULE_VERIFICATION_POLICY =
     (let rules = verification_rules rk live d in if rules = [] then None else Some (rules, [], []))"
| "trigger_reasons rk live d (T_SYSTEM_CLASSIFICATION c) =
     (if dr_classification d = c then Some ([], [], []) else None)"
| "trigger_reasons rk live d (T_SYSTEM_SUPPORT_STATUS s) =
     (if dr_support d = s then Some ([], [], []) else None)"

text \<open>\<open>acc.setdefault(code, \<dots>)\<close> and the four \<open>update\<close> calls.\<close>

definition add_reasons ::
    "string \<Rightarrow> string list \<times> string list \<times> string list \<Rightarrow> string list \<Rightarrow> action dict \<Rightarrow> action dict" where
  "add_reasons code reasons evs acc =
     (let a = (case map_of acc code of
                 Some a \<Rightarrow> a
               | None \<Rightarrow> \<lparr>ac_code = code, ac_rules = [], ac_indicators = [], ac_overrides = [], ac_evidence = []\<rparr>)
      in case reasons of (rules, inds, ovrs) \<Rightarrow>
        AList.update code
          (a\<lparr>ac_rules := ac_rules a @ rules, ac_indicators := ac_indicators a @ inds,
             ac_overrides := ac_overrides a @ ovrs, ac_evidence := ac_evidence a @ evs\<rparr>) acc)"

definition policy_step ::
    "runtime_knowledge \<Rightarrow> bool \<Rightarrow> decision \<Rightarrow> policy_entry \<Rightarrow> action dict \<Rightarrow> action dict" where
  "policy_step rk live d e acc =
     (if applies_when e d then
        (case trigger_reasons rk live d (ap_trigger e) of
           None \<Rightarrow> acc
         | Some reasons \<Rightarrow> add_reasons (ap_action e) reasons (ap_evidence e) acc)
      else acc)"

definition canonical_action :: "action \<Rightarrow> action" where
  "canonical_action a =
     a\<lparr>ac_rules := sorted_unique (ac_rules a), ac_indicators := sorted_unique (ac_indicators a),
       ac_overrides := sorted_unique (ac_overrides a), ac_evidence := sorted_unique (ac_evidence a)\<rparr>"

definition recommended_actions :: "runtime_knowledge \<Rightarrow> bool \<Rightarrow> decision \<Rightarrow> action list" where
  "recommended_actions rk live d =
     (let acc = fold (policy_step rk live d) (action_policy_entries rk) []
      in List.map_filter (\<lambda>code. map_option canonical_action (map_of acc code)) ACTION_ORDER)"

section \<open>The text of the explanation\<close>

text \<open>The em dash of two summaries, as its UTF-8 bytes.\<close>

definition EM_DASH :: string where
  "EM_DASH = [CHR 0xE2, CHR 0x80, CHR 0x94]"

fun WHAT :: "classification \<Rightarrow> string" where
  "WHAT CL_NO_SCAM_PATTERN = ''No governed scam pattern was established from the evidence evaluated.''"
| "WHAT CL_INSUFFICIENT_EVIDENCE = ''The available evidence does not support a definitive conclusion.''"
| "WHAT CL_UNSUPPORTED =
     ''This input was not evaluated: its language/script is outside the supported scope (en/Latn).''"
| "WHAT _ = ''The evaluation could not be completed.''"

fun SUMMARY :: "classification \<Rightarrow> string" where
  "SUMMARY CL_NO_SCAM_PATTERN = ''No governed scam pattern was established from the evidence evaluated.''"
| "SUMMARY CL_INSUFFICIENT_EVIDENCE =
     ''Insufficient evidence for a definitive conclusion; routed to human review.''"
| "SUMMARY CL_UNSUPPORTED =
     ''Input not evaluated '' @ EM_DASH @ '' unsupported language/script; resubmit in a supported language.''"
| "SUMMARY _ = ''Evaluation could not be completed; routed to human review.''"

fun WHY :: "classification \<Rightarrow> string" where
  "WHY CL_NO_SCAM_PATTERN =
     ''No governed composite rule matched, or every matched rule was cancelled by governed benign context.''"
| "WHY CL_INSUFFICIENT_EVIDENCE =
     ''No governed rule combination was satisfied, and/or a decisive question remained unresolved.''"
| "WHY CL_UNSUPPORTED =
     ''Deterministic detection runs only within the supported language/script scope; this input is out of scope.''"
| "WHY _ = ''A fail-closed integrity or runtime condition prevented a decision.''"

fun confidence_text :: "confidence option \<Rightarrow> string" where
  "confidence_text None = ''NOT_APPLICABLE''"
| "confidence_text (Some C_LOW) = ''LOW''"
| "confidence_text (Some C_MEDIUM) = ''MEDIUM''"
| "confidence_text (Some C_HIGH) = ''HIGH''"

fun classification_text :: "classification \<Rightarrow> string" where
  "classification_text CL_NO_SCAM_PATTERN = ''NO_SCAM_PATTERN''"
| "classification_text CL_INSUFFICIENT_EVIDENCE = ''INSUFFICIENT_EVIDENCE''"
| "classification_text CL_SCAM_PATTERN_SUSPECTED = ''SCAM_PATTERN_SUSPECTED''"
| "classification_text CL_SCAM_PATTERN_DETECTED = ''SCAM_PATTERN_DETECTED''"
| "classification_text CL_UNSUPPORTED = ''UNSUPPORTED''"
| "classification_text CL_ERROR = ''ERROR''"

definition join_text :: "string \<Rightarrow> string list \<Rightarrow> string" where
  "join_text sep parts = (case parts of [] \<Rightarrow> [] | p # ps \<Rightarrow> p @ concat (map (\<lambda>q. sep @ q) ps))"

definition limited_verdict :: "rule_result option \<Rightarrow> bool" where
  "limited_verdict gov \<longleftrightarrow>
     (case gov of None \<Rightarrow> False | Some g \<Rightarrow> rr_verdict g \<in> {Some V_PARTIAL, Some V_HEURISTIC})"

definition gov_verdict_text :: "rule_result option \<Rightarrow> string" where
  "gov_verdict_text gov = verdict_text (case gov of None \<Rightarrow> None | Some g \<Rightarrow> rr_verdict g)"

definition confidence_reason :: "decision \<Rightarrow> rule_result option \<Rightarrow> string" where
  "confidence_reason d gov =
     (if dr_confidence d = None then
        ''Detection confidence is not applicable for classification '' @
        classification_text (dr_classification d) @ ''.''
      else
        join_text ''; ''
          ([''Detection confidence is '' @ confidence_text (dr_confidence d),
            ''governing evidence verdict '' @ gov_verdict_text gov] @
           (case gov of None \<Rightarrow> [] | Some g \<Rightarrow>
              if rr_overrides g \<noteq> [] then [''an active governed hard-risk override supports the finding''] else []) @
           (if limited_verdict gov
            then [''evidence verdict '' @ gov_verdict_text gov @ '' caps confidence at MEDIUM''] else []) @
           (if dr_degraded d then [''a degraded per-rule evaluation caps confidence at MEDIUM''] else [])) @
        ''. Categorical, not a probability.'')"

text \<open>\<open>seen\<close>: an applied suppressor overwrites, the other outcomes only fill a gap.\<close>

definition set_default :: "outcome \<Rightarrow> string \<Rightarrow> outcome dict \<Rightarrow> outcome dict" where
  "set_default v k seen = (if map_of seen k = None then AList.update k v seen else seen)"

definition opt_list :: "'a list option \<Rightarrow> 'a list" where
  "opt_list x = (case x of None \<Rightarrow> [] | Some xs \<Rightarrow> xs)"

definition record_suppression :: "rule_result \<Rightarrow> outcome dict \<Rightarrow> outcome dict" where
  "record_suppression r seen =
     (case rr_suppression r of
        None \<Rightarrow> seen
      | Some su \<Rightarrow>
          fold (set_default RECORDED_CONTEXT_ONLY) (opt_list (su_context su))
            (fold (set_default BLOCKED_BY_OVERRIDE) (opt_list (su_blocked su) @ opt_list (su_blocked_caps su))
              (fold (\<lambda>sid. AList.update sid APPLIED) (opt_list (su_applied su)) seen)))"

fun outcome_rank :: "outcome \<Rightarrow> nat" where
  "outcome_rank APPLIED = 0"
| "outcome_rank BLOCKED_BY_OVERRIDE = 1"
| "outcome_rank RECORDED_CONTEXT_ONLY = 2"

definition suppression_considered :: "decision \<Rightarrow> (string \<times> outcome) list" where
  "suppression_considered d =
     (let seen = fold record_suppression (sort_key rr_rule_id (dr_results d)) []
      in sort_key (\<lambda>(sid, v). (outcome_rank v, sid)) seen)"

definition evidence_basis :: "rule_result list \<Rightarrow> (string \<Rightarrow> rule option) \<Rightarrow> source_echo list" where
  "evidence_basis eligible rule_of =
     (let items = fold (\<lambda>item. AList.update (canon_echo item) item)
                    (concat (map (\<lambda>r. authoritative_source_refs (rule_of (rr_rule_id r))) eligible)) []
      in map snd (sort_key fst items))"

text \<open>
  A mapping with a true \<open>observation_id\<close> is filed under it; an unhashable id raises. Only string ids
  can be looked up, so the others are not kept.
\<close>

fun raw_hashable :: "json \<Rightarrow> bool" where
  "raw_hashable (JArr _) = False"
| "raw_hashable (JObj _) = False"
| "raw_hashable _ = True"

fun index_observations :: "json list \<Rightarrow> json dict dict \<Rightarrow> json dict dict res" where
  "index_observations [] d = Inr d"
| "index_observations (JObj kvs # os) d =
     (let oid = jget kvs ''observation_id'' in
      if \<not> truthy oid then index_observations os d
      else if \<not> raw_hashable oid then Inl (TypeError (''unhashable type: '' @ type_name oid))
      else case oid of JStr s \<Rightarrow> index_observations os (AList.update s kvs d)
                     | _ \<Rightarrow> index_observations os d)"
| "index_observations (_ # os) d = index_observations os d"

fun is_jint :: "json \<Rightarrow> bool" where
  "is_jint (JInt _) = True"
| "is_jint (JBool _) = True"
| "is_jint _ = False"

definition observation_span :: "json dict dict \<Rightarrow> string \<Rightarrow> (json \<times> json) option" where
  "observation_span obs_by_id ref =
     (case map_of obs_by_id ref of
        None \<Rightarrow> None
      | Some o' \<Rightarrow>
          (case jget o' ''offsets'' of
             JObj off \<Rightarrow>
               if is_jint (jget off ''start'') \<and> is_jint (jget off ''end'')
               then Some (jget off ''start'', jget off ''end'') else None
           | _ \<Rightarrow> None))"

definition live_refs :: "rule_result list \<Rightarrow> string list" where
  "live_refs eligible = concat (map (\<lambda>r. concat (map (\<lambda>(_, groups). concat groups) (rr_provenance r))) eligible)"

definition supporting_observations ::
    "rule_result list \<Rightarrow> json list option \<Rightarrow> supporting_observation list res" where
  "supporting_observations eligible observations =
     rbind (index_observations (opt_list observations) []) (\<lambda>obs_by_id.
       Inr (map (\<lambda>ref. \<lparr>so_ref = ref, so_span = observation_span obs_by_id ref\<rparr>)
              (sorted_unique (live_refs eligible))))"

definition ordered_rule_ids :: "decision \<Rightarrow> string list" where
  "ordered_rule_ids d =
     (case dr_governing d of None \<Rightarrow> [] | Some g \<Rightarrow> if g = [] then [] else [g]) @
     sort (filter (\<lambda>rid. Some rid \<noteq> dr_governing d) (dr_matched_rules d)) @
     (if dr_classification d = CL_INSUFFICIENT_EVIDENCE
      then sorted_unique (map rr_rule_id (filter decisive_unresolved (dr_results d))) else [])"

text \<open>The steps in order, each once, where it first occurs.\<close>

fun dedup_first :: "string list \<Rightarrow> string list \<Rightarrow> string list" where
  "dedup_first seen [] = []"
| "dedup_first seen (s # ss) =
     (if s \<in> set seen then dedup_first seen ss else s # dedup_first (s # seen) ss)"

definition verification_steps :: "decision \<Rightarrow> (string \<Rightarrow> rule option) \<Rightarrow> string list" where
  "verification_steps d rule_of =
     dedup_first []
       (concat (map (\<lambda>rid. case rule_of rid of None \<Rightarrow> [] | Some r \<Rightarrow> ru_steps r) (ordered_rule_ids d)))"

definition limitations :: "decision \<Rightarrow> rule_result option \<Rightarrow> string list" where
  "limitations d gov =
     dr_ambiguities d @
     (if dr_degraded d
      then [''Evaluation was degraded: a per-rule error occurred; the case is routed to review.''] else []) @
     (if limited_verdict gov
      then [''The governing rule's evidence verdict is '' @ gov_verdict_text gov @
            ''; severity and confidence are capped accordingly.''] else []) @
     [''Synthetic-only validation; no accuracy/precision/recall claim (G-09).'']"

definition headline :: "decision \<Rightarrow> rule option \<Rightarrow> (string \<times> string \<times> string) res" where
  "headline d gov_rule =
     (if dr_classification d \<in> set SCAM_CLASSES then
        (case gov_rule of
           None \<Rightarrow> Inl (AttributeError ''NoneType has no attribute get'')
         | Some g \<Rightarrow> Inr
             (''TrustLens identified the governed scam pattern: '' @ ru_name g @ ''.'',
              ''The required indicator combination for this governed pattern matched.'',
              (if dr_classification d = CL_SCAM_PATTERN_DETECTED then ''Scam pattern detected''
               else ''Scam pattern suspected'') @ '': '' @ ru_name g @ '' '' @ EM_DASH @ '' risk '' @
              level_text (dr_risk d) @ '', confidence '' @ confidence_text (dr_confidence d) @ ''.''))
      else Inr (WHAT (dr_classification d), WHY (dr_classification d), SUMMARY (dr_classification d)))"

definition overrides_applied :: "runtime_knowledge \<Rightarrow> decision \<Rightarrow> (string \<times> string list) list" where
  "overrides_applied rk d =
     map (\<lambda>oid. (oid, case rk_override rk oid of None \<Rightarrow> [] | Some ov \<Rightarrow> sort (opt_list (ov_blocks ov))))
       (sort (dr_overrides d))"

section \<open>Building\<close>

definition render_explanation ::
    "runtime_knowledge \<Rightarrow> bool \<Rightarrow> decision \<Rightarrow> json list option \<Rightarrow> explanation_result res" where
  "render_explanation rk live d observations =
     (let rule_of = rule_lookup rk live;
          gov_rule = (case dr_governing d of None \<Rightarrow> None | Some g \<Rightarrow> rule_of g);
          gov_result = (case dr_governing d of
             None \<Rightarrow> None | Some g \<Rightarrow> List.find (\<lambda>r. rr_rule_id r = g) (dr_results d));
          eligible = sort_key rr_rule_id (filter eligible_matched (dr_results d)) in
      rbind (headline d gov_rule) (\<lambda>(what, why, summary).
      rbind (supporting_observations eligible observations) (\<lambda>supporting.
        Inr \<lparr>er_explanation =
               \<lparr>ex_what = what, ex_why = why, ex_summary = summary,
                ex_confidence_reason = confidence_reason d gov_result,
                ex_matched = sort (dr_positive d), ex_fired = sort (dr_matched_rules d),
                ex_overrides = overrides_applied rk d,
                ex_suppression = suppression_considered d,
                ex_evidence = evidence_basis eligible rule_of,
                ex_observations = supporting,
                ex_steps = verification_steps d rule_of,
                ex_unknowns = dr_unknowns d,
                ex_limitations = limitations d gov_result\<rparr>,
             er_actions = recommended_actions rk live d,
             er_policy_version = action_policy_version rk\<rparr>)))"

definition explanation_boundary :: "'a res \<Rightarrow> 'a res" where
  "explanation_boundary r =
     (case r of
        Inr x \<Rightarrow> Inr x
      | Inl (ExplanationError code m) \<Rightarrow> Inl (ExplanationError code m)
      | Inl e \<Rightarrow> if agg_fault e
                 then Inl (ExplanationError ''EXPLANATION_ERROR''
                             (''malformed decision/knowledge for explanation: '' @ exc_text e))
                 else Inl e)"

definition build_explanation_core ::
    "(rule_result \<Rightarrow> bool) \<Rightarrow> (eval_error \<Rightarrow> bool) \<Rightarrow> runtime_knowledge \<Rightarrow> bool \<Rightarrow> decision
     \<Rightarrow> json list option \<Rightarrow> explanation_result res" where
  "build_explanation_core schema_ok error_ok rk live d observations =
     explanation_boundary
       (rbind (validate_explanation_input schema_ok error_ok rk live d) (\<lambda>_.
          render_explanation rk live d observations))"

definition build_explanation ::
    "(rule_result \<Rightarrow> bool) \<Rightarrow> (eval_error \<Rightarrow> bool) \<Rightarrow> runtime_knowledge \<Rightarrow> decision
     \<Rightarrow> json list option \<Rightarrow> explanation_result res" where
  "build_explanation schema_ok error_ok rk d observations =
     build_explanation_core schema_ok error_ok rk True d observations"

end
