(* ===== verification/Independence.thy ===== *)
theory Independence
  imports Aggregation
begin

text \<open>
  The independence count of the aggregation is the size of a largest family of live groups with
  pairwise different evidence classes and pairwise unconnected references: the disjoint-set walk
  yields connectivity (UnionFind), the graph of classes and roots has exactly the families as its
  matchings, and the matching is maximum (Matching).
\<close>

section \<open>Proven independence\<close>

lemma uf_rep_le: "uf_ok p \<Longrightarrow> uf_rep p x \<le> x"
  using uf_rep_root [of p x] uf_rep_outside [of p x] by (cases "map_of p x") auto

text \<open>The root of a reference is the least reference of its class, whatever the order of the unions.\<close>

lemma uf_rep_least:
  assumes "uf_ok p" "uf_rep p x = uf_rep p y"
  shows "uf_rep p x \<le> y"
  using uf_rep_le [OF assms(1), of y] assms(2) by simp

lemma uf_rep_idem:
  assumes "uf_ok p"
  shows "uf_rep p (uf_rep p x) = uf_rep p x"
proof (cases "map_of p x")
  case (Some y)
  then have "root_of (map_of p) x (uf_rep p x)" using uf_rep_root [OF assms, of x] by simp
  from root_of_root [OF this] show ?thesis by (intro uf_rep_eq root_of.root_self)
qed (simp add: uf_rep_outside)

lemma uf_rep_unique:
  assumes "uf_ok p" "uf_ok q" "\<And>x y. uf_rep p x = uf_rep p y \<longleftrightarrow> uf_rep q x = uf_rep q y"
  shows "uf_rep p = uf_rep q"
proof
  fix x
  have "uf_rep p (uf_rep q x) = uf_rep p x" using assms(3) uf_rep_idem [OF assms(2)] by metis
  then have "uf_rep p x \<le> uf_rep q x" using uf_rep_least [OF assms(1)] by metis
  moreover have "uf_rep q (uf_rep p x) = uf_rep q x" using assms(3) uf_rep_idem [OF assms(1)] by metis
  then have "uf_rep q x \<le> uf_rep p x" using uf_rep_least [OF assms(2)] by metis
  ultimately show "uf_rep p x = uf_rep q x" by simp
qed

text \<open>The class graph: which roots each evidence class reaches.\<close>

definition reached :: "string list dict \<Rightarrow> string \<Rightarrow> string set" where
  "reached d cls = (case map_of d cls of None \<Rightarrow> {} | Some cs \<Rightarrow> set cs)"

lemma class_components_spec:
  assumes "uf_ok p"
  shows "\<exists>g. class_components entries p d = Some g \<and>
     set (dict_keys g) = set (dict_keys d) \<union> fst ` set entries \<and>
     (\<forall>cls. reached g cls = reached d cls \<union> {uf_rep p (hd refs) | refs. (cls, refs) \<in> set entries})"
  using assms
proof (induction entries arbitrary: p d)
  case (Cons e entries)
  obtain cls refs where e: "e = (cls, refs)" by (cases e)
  obtain p' where p': "uf_find p (hd refs) = Some (uf_rep p (hd refs), p')" "uf_ok p'" "uf_rep p' = uf_rep p"
    using uf_find_spec [OF Cons.prems] by blast
  let ?d = "AList.update cls ((case map_of d cls of None \<Rightarrow> [] | Some cs \<Rightarrow> cs) @ [uf_rep p (hd refs)]) d"
  have r: "reached ?d c = reached d c \<union> (if c = cls then {uf_rep p (hd refs)} else {})" for c
    by (auto simp: reached_def map_of_update split: option.splits)
  have k: "set (dict_keys ?d) = insert cls (set (dict_keys d))"
    by (auto simp: dom_map_of_conv_image_fst [symmetric] map_of_update)
  from Cons.IH [OF p'(2), of ?d] obtain g where g: "class_components entries p' ?d = Some g"
    "set (dict_keys g) = set (dict_keys ?d) \<union> fst ` set entries"
    "\<forall>c. reached g c = reached ?d c \<union> {uf_rep p (hd refs) | refs. (c, refs) \<in> set entries}"
    unfolding p'(3) by blast
  have "reached g c = reached d c \<union> {uf_rep p (hd refs) | refs. (c, refs) \<in> set (e # entries)}" for c
    using g(3) r [of c] by (auto simp: e)
  then show ?case using g(1,2) k p'(1) by (auto simp: e)
qed simp

lemma adjacent_reached: "set (adjacent g cls) = reached g cls"
  by (simp add: adjacent_def reached_def split: option.split)

text \<open>
  A family of live groups is independent when no two share an evidence class and no two are
  connected by shared references.
\<close>

definition independent :: "(string \<times> string list) list \<Rightarrow> (string \<times> string list) set \<Rightarrow> bool" where
  "independent entries M \<longleftrightarrow> M \<subseteq> set entries \<and> inj_on fst M \<and>
     (\<forall>e\<in>M. \<forall>e'\<in>M. connected (map snd entries) (hd (snd e)) (hd (snd e')) \<longrightarrow> e = e')"

lemma proven_independence_graph:
  assumes "independence_entries rk eligible = Inr entries"
  obtains p g n classes where
    "merge_groups uf_find uf_union (map snd entries) [] = Some p" "uf_ok p"
    "\<And>x y. uf_rep p x = uf_rep p y \<longleftrightarrow> connected (map snd entries) x y"
    "class_components entries p [] = Some g"
    "fst ` set g = fst ` set entries"
    "\<And>cls. set (adjacent g cls) = {uf_rep p (hd refs) | refs. (cls, refs) \<in> set entries}"
    "max_bipartite_matching g = Some (n, classes)"
    "proven_independence rk eligible = Inr (n, classes, shared_refs entries)"
proof -
  obtain p where p: "merge_groups uf_find uf_union (map snd entries) [] = Some p" "uf_ok p"
    "\<And>x y. uf_rep p x = uf_rep p y \<longleftrightarrow> connected (map snd entries) x y"
    using uf_merge_groups [of "map snd entries"] by blast
  obtain g where g: "class_components entries p [] = Some g" "set (dict_keys g) = fst ` set entries"
    "\<And>cls. reached g cls = {uf_rep p (hd refs) | refs. (cls, refs) \<in> set entries}"
    using class_components_spec [OF p(2), of entries "[]"] by (auto simp: reached_def)
  obtain n classes where m: "max_bipartite_matching g = Some (n, classes)"
    by (rule max_bipartite_matching_correct [of g]) blast
  have "proven_independence rk eligible = Inr (n, classes, shared_refs entries)"
  proof (cases "g = []")
    case True
    then have "max_bipartite_matching g = Some (0, [])"
      by (simp add: max_bipartite_matching_def)
    with m True show ?thesis by (simp add: proven_independence_def assms p(1) g(1))
  qed (simp add: proven_independence_def assms p(1) g(1) m)
  with p g m show thesis by (intro that) (simp_all add: adjacent_reached)
qed

theorem proven_independence_maximum:
  assumes "independence_entries rk eligible = Inr entries"
  shows "\<exists>n classes. proven_independence rk eligible = Inr (n, classes, shared_refs entries) \<and>
     length classes = n \<and> sorted classes \<and> distinct classes \<and>
     (\<exists>M. independent entries M \<and> card M = n \<and> fst ` M = set classes) \<and>
     (\<forall>M. independent entries M \<longrightarrow> card M \<le> n)"
proof (rule proven_independence_graph [OF assms])
  fix p g n classes
  assume p: "uf_ok p" "\<And>x y. uf_rep p x = uf_rep p y \<longleftrightarrow> connected (map snd entries) x y"
    and g: "fst ` set g = fst ` set entries"
      "\<And>cls. set (adjacent g cls) = {uf_rep p (hd refs) | refs. (cls, refs) \<in> set entries}"
    and m: "max_bipartite_matching g = Some (n, classes)"
    and r: "proven_independence rk eligible = Inr (n, classes, shared_refs entries)"
  obtain N where c: "length classes = n" "sorted classes" "distinct classes"
    and N: "matching (adjacent g) (fst ` set g) N" "card N = n" "fst ` N = set classes"
    and max: "\<And>M. matching (adjacent g) (fst ` set g) M \<Longrightarrow> card M \<le> n"
    by (rule max_bipartite_matching_correct [of g]) (use m in auto)
  define e where "e = (\<lambda>(cls, root). SOME e. e \<in> set entries \<and> fst e = cls \<and> uf_rep p (hd (snd e)) = root)"
  have e: "e x \<in> set entries \<and> fst (e x) = fst x \<and> uf_rep p (hd (snd (e x))) = snd x" if "x \<in> N" for x
  proof -
    obtain cls root where x: "x = (cls, root)" by (cases x)
    have "root \<in> set (adjacent g cls)" using N(1) that by (auto simp: matching_def x)
    then obtain refs where refs: "(cls, refs) \<in> set entries" "uf_rep p (hd refs) = root" by (auto simp: g(2))
    have "\<exists>e. e \<in> set entries \<and> fst e = cls \<and> uf_rep p (hd (snd e)) = root"
      by (rule exI [of _ "(cls, refs)"]) (use refs in simp)
    from someI_ex [OF this] show ?thesis by (simp add: e_def x)
  qed
  have inj: "inj_on e N"
    using e N(1) by (intro inj_onI) (metis inj_onD matching_def)
  have "independent entries (e ` N)"
    unfolding independent_def
  proof (intro conjI ballI impI)
    show "e ` N \<subseteq> set entries" using e by auto
    show "inj_on fst (e ` N)"
    proof (rule inj_onI)
      fix a b assume "a \<in> e ` N" "b \<in> e ` N" "fst a = fst b"
      then obtain x y where "x \<in> N" "y \<in> N" "a = e x" "b = e y" "fst x = fst y" using e by auto
      then show "a = b" using N(1) unfolding matching_def by (metis inj_onD)
    qed
    fix a b assume "a \<in> e ` N" "b \<in> e ` N" and c: "connected (map snd entries) (hd (snd a)) (hd (snd b))"
    then obtain x y where xy: "x \<in> N" "y \<in> N" "a = e x" "b = e y" by blast
    have "snd x = snd y" using c unfolding p(2) [symmetric] xy using e xy(1,2) by metis
    with xy show "a = b" using N(1) unfolding matching_def by (metis inj_onD)
  qed
  moreover have "card (e ` N) = n" using inj N(2) by (simp add: card_image)
  moreover have "fst ` e ` N = set classes" using e unfolding N(3) [symmetric] image_image by (intro image_cong) simp_all
  ultimately have ex: "\<exists>M. independent entries M \<and> card M = n \<and> fst ` M = set classes" by blast
  have le: "card M \<le> n" if M: "independent entries M" for M
  proof -
    let ?f = "\<lambda>e. (fst e, uf_rep p (hd (snd e)))"
    have "matching (adjacent g) (fst ` set g) (?f ` M)"
      unfolding matching_def
    proof (intro conjI)
      show "\<forall>(a, c)\<in>?f ` M. a \<in> fst ` set g \<and> c \<in> set (adjacent g a)"
      proof clarify
        fix cls refs assume "(cls, refs) \<in> M"
        then have mem: "(cls, refs) \<in> set entries" using M by (auto simp: independent_def)
        then have "cls \<in> fst ` set g" using g(1) by force
        then show "fst (cls, refs) \<in> fst ` set g \<and>
            uf_rep p (hd (snd (cls, refs))) \<in> set (adjacent g (fst (cls, refs)))"
          using mem by (auto simp: g(2))
      qed
      show "inj_on fst (?f ` M)"
        by (rule inj_on_imageI) (use M in \<open>simp add: independent_def comp_def\<close>)
      show "inj_on snd (?f ` M)"
        by (rule inj_on_imageI) (use M in \<open>simp add: independent_def comp_def inj_on_def p(2)\<close>)
    qed
    then have "card (?f ` M) \<le> n" by (rule max)
    moreover have "inj_on ?f M" using M by (simp add: independent_def inj_on_def)
    then have "card (?f ` M) = card M" by (rule card_image)
    ultimately show ?thesis by simp
  qed
  from r c ex le show ?thesis by blast
qed

end
