(* ===== verification/DecisionProps.thy ===== *)
theory DecisionProps
  imports Independence SuppressionProps
begin

text \<open>
  What the aggregation promises of its decision: every exception is an \<open>AggregationError\<close>, the
  classification follows its precedence and never clears a message while a rule matched, failed or
  stayed unresolved, risk is the matrix entry of the worst matched severity, and HIGH confidence
  needs a supported verdict, sound extraction and independent evidence or an override.
\<close>

section \<open>The canonical copies\<close>

lemma canonical_caps_context:
  "canonical_caps su = Inr su' \<Longrightarrow> map_option su_context su' = map_option su_context su"
  by (auto simp: canonical_caps_def split: option.splits if_splits)

lemma copy_fields:
  assumes "validate_and_canonical_copy ok r = Inr r'"
  shows "rr_rule_id r' = rr_rule_id r" "rr_kind r' = rr_kind r" "rr_state r' = rr_state r"
    "rr_required r' = rr_required r" "rr_verdict r' = rr_verdict r" "rr_effective r' = rr_effective r"
    "rr_error r' = rr_error r" "rr_confidence r' = rr_confidence r"
    "rr_matched_positive r' = sorted_unique (rr_matched_positive r)"
    "rr_matched_negative r' = sorted_unique (rr_matched_negative r)"
    "rr_overrides r' = sorted_unique (rr_overrides r)"
    "rr_classes r' = sorted_unique (rr_classes r)"
    "rr_ambiguities r' = sorted_unique (rr_ambiguities r)"
    "rr_unknowns r' = sorted_unique (rr_unknowns r)"
    "rr_neutralised r' = sorted_unique (rr_neutralised r)"
    "rr_provenance r' = canonical_provenance (rr_provenance r)"
    "\<not> has_wp5_fields r" "\<not> has_wp5_fields r'" "ok r" "context_only_present r' = context_only_present r"
proof -
  from assms obtain su where r1: "ok r" "\<not> has_wp5_fields r" "canonical_caps (rr_suppression r) = Inr su"
    "r' = (canonicalize_result (r\<lparr>rr_suppression := su\<rparr>))
       \<lparr>rr_provenance := canonical_provenance (rr_provenance r)\<rparr>"
    by (auto simp: validate_and_canonical_copy_def rbind_eq_Inr)
  show "context_only_present r' = context_only_present r"
    using canonical_caps_context [OF r1(3)]
    by (cases su; cases "rr_suppression r")
      (auto simp: r1(4) context_only_present_def canonicalize_result_def canonicalize_suppression_def
        split: option.splits)
  show "rr_rule_id r' = rr_rule_id r" "rr_kind r' = rr_kind r" "rr_state r' = rr_state r"
    "rr_required r' = rr_required r" "rr_verdict r' = rr_verdict r" "rr_effective r' = rr_effective r"
    "rr_error r' = rr_error r" "rr_confidence r' = rr_confidence r"
    "rr_matched_positive r' = sorted_unique (rr_matched_positive r)"
    "rr_matched_negative r' = sorted_unique (rr_matched_negative r)"
    "rr_overrides r' = sorted_unique (rr_overrides r)"
    "rr_classes r' = sorted_unique (rr_classes r)"
    "rr_ambiguities r' = sorted_unique (rr_ambiguities r)"
    "rr_unknowns r' = sorted_unique (rr_unknowns r)"
    "rr_neutralised r' = sorted_unique (rr_neutralised r)"
    "rr_provenance r' = canonical_provenance (rr_provenance r)"
    "\<not> has_wp5_fields r" "\<not> has_wp5_fields r'" "ok r"
    using r1 by (simp_all add: canonicalize_result_def has_wp5_fields_def)
qed

lemma copy_predicates:
  assumes "validate_and_canonical_copy ok r = Inr r'"
  shows "is_composite r' = is_composite r" "is_eligible_matched r' = is_eligible_matched r"
    "is_unresolved_harmful r' = is_unresolved_harmful r" "is_benign_clear r' = is_benign_clear r"
    "is_degraded r' = is_degraded r" "rule_error r' = rule_error r"
  unfolding is_composite_def is_eligible_matched_def is_unresolved_harmful_def is_benign_clear_def
    is_degraded_def rule_error_def copy_fields [OF assms] by simp_all

lemma list_ex_copies:
  assumes "map_res (validate_and_canonical_copy ok) rs = Inr ms"
    "\<And>r r'. validate_and_canonical_copy ok r = Inr r' \<Longrightarrow> P r' = P r"
  shows "list_ex P ms = list_ex P rs"
proof -
  have "list_all2 (\<lambda>r r'. validate_and_canonical_copy ok r = Inr r') rs ms"
    using assms(1) by (simp add: map_res_Inr_iff)
  then show ?thesis by (induction rule: list_all2_induct) (simp_all add: assms(2))
qed

section \<open>The shape of a run\<close>

definition prepared ::
    "(rule_result \<Rightarrow> bool) \<Rightarrow> runtime_knowledge \<Rightarrow> rule_result list \<Rightarrow> rule_result list \<Rightarrow> bool" where
  "prepared ok rk rs ms \<longleftrightarrow> map_res (validate_and_canonical_copy ok) rs = Inr ms \<and>
     (\<forall>m\<in>set ms. check_semantic_invariants rk m = Inr ()) \<and> distinct (map rr_rule_id ms)"

lemma check_duplicates_distinct:
  "check_duplicates rs seen = Inr u \<longleftrightarrow> distinct (map rr_rule_id rs) \<and> set (map rr_rule_id rs) \<inter> set seen = {}"
  by (induction rs arbitrary: seen) auto

lemma agg_boundary_Inr: "agg_boundary r = Inr x \<longleftrightarrow> r = Inr x"
  by (auto simp: agg_boundary_def split: sum.splits if_splits)

lemma map_res_unit: "(\<exists>us. map_res f xs = Inr us) \<longleftrightarrow> (\<forall>x\<in>set xs. f x = Inr ())" for f :: "'a \<Rightarrow> unit res"
  by (induction xs) (auto simp: rbind_eq_Inr)

abbreviation evaluable :: "support_status \<Rightarrow> bool" where
  "evaluable s \<equiv> s \<in> {S_SUPPORTED, S_PARTIALLY_SUPPORTED}"

lemma aggregate_cases:
  assumes "aggregate_decision ok eok rk pf support rs we = Inr d"
  obtains ms where "list_all eok we" "prepared ok rk rs ms"
    "we \<noteq> [] \<or> \<not> evaluable support"
    "d = assemble support (classify support [] ms None (list_ex is_degraded ms) (we \<noteq> []))
       NONE NO_STRENGTH NONE None (no_corroboration NONE) None None [] ms (list_ex is_degraded ms)
       (we @ List.map_filter rule_error ms) pf"
  | ms where "list_all eok we" "prepared ok rk rs ms" "we = []" "evaluable support"
    "filter is_eligible_matched ms = []"
    "d = assemble support (classify support [] ms None (list_ex is_degraded ms) False)
       NONE NO_STRENGTH NONE None
       (corroboration_no_fire ms (classify support [] ms None (list_ex is_degraded ms) False))
       None None [] ms (list_ex is_degraded ms) (List.map_filter rule_error ms) pf"
  | ms where "list_all eok we" "prepared ok rk rs ms" "we = []" "evaluable support"
    "filter is_eligible_matched ms \<noteq> []"
    "aggregate_eligible rk pf support ms (list_ex is_degraded ms) (List.map_filter rule_error ms) = Inr d"
proof -
  from assms obtain ms us where e: "list_all eok we"
    and ms: "map_res (validate_and_canonical_copy ok) rs = Inr ms"
    and us: "map_res (check_semantic_invariants rk) ms = Inr us"
    and dup: "check_duplicates ms [] = Inr ()"
    by (auto simp: aggregate_decision_def rbind_eq_Inr agg_boundary_Inr Let_def)
  have p: "prepared ok rk rs ms"
    using ms us dup map_res_unit [of "check_semantic_invariants rk" ms]
    by (auto simp: prepared_def check_duplicates_distinct)
  note run = assms [unfolded aggregate_decision_def, simplified e ms us dup agg_boundary_Inr,
      simplified guard_def agg_boundary_def, simplified, simplified ms us dup, simplified dup Let_def]
  show thesis
  proof (cases "we \<noteq> [] \<or> \<not> evaluable support")
    case True
    with run show thesis by (intro that(1) [OF e p]) (auto simp: ms us dup Let_def)
  next
    case False
    then have s: "we = []" "evaluable support" by auto
    show thesis
    proof (cases "filter is_eligible_matched ms = []")
      case True
      with run s show thesis by (intro that(2) [OF e p s True]) (auto simp: ms us dup Let_def)
    next
      case F: False
      with run s show thesis by (intro that(3) [OF e p s F]) (auto simp: ms us dup Let_def)
    qed
  qed
qed

section \<open>Every exception is an AggregationError\<close>

definition agg_errors :: "'a res \<Rightarrow> bool" where
  "agg_errors r \<longleftrightarrow> (\<forall>e. r = Inl e \<longrightarrow> (\<exists>m. e = AggregationError m))"

named_theorems agg_intros "operations whose exceptions are aggregation errors"

lemma agg_errors_base [simp]:
  "agg_errors (Inr x)" "agg_errors (Inl (AggregationError m))"
  by (simp_all add: agg_errors_def)

lemma agg_errors_guard [agg_intros]: "agg_errors (guard b (AggregationError m))"
  by (simp add: guard_def)

lemma agg_errors_rbind [agg_intros]:
  "agg_errors r \<Longrightarrow> (\<And>x. r = Inr x \<Longrightarrow> agg_errors (f x)) \<Longrightarrow> agg_errors (rbind r f)"
  by (cases r) (auto simp: agg_errors_def)

lemma agg_errors_map_res [agg_intros]: "(\<And>x. agg_errors (f x)) \<Longrightarrow> agg_errors (map_res f xs)"
  by (induction xs) (auto intro!: agg_intros)

lemma agg_errors_boundary [agg_intros]:
  "(\<And>e. r = Inl e \<Longrightarrow> agg_fault e \<or> (\<exists>m. e = AggregationError m)) \<Longrightarrow> agg_errors (agg_boundary r)"
  by (auto simp: agg_boundary_def agg_errors_def split: sum.split)

lemma agg_errors_check [agg_intros]: "agg_errors (check_semantic_invariants rk r)"
  unfolding check_semantic_invariants_def by (intro agg_intros)

lemma agg_errors_duplicates [agg_intros]: "agg_errors (check_duplicates rs seen)"
  by (induction rs arbitrary: seen) simp_all

lemma agg_errors_entries [agg_intros]: "agg_errors (independence_entries rk rs)"
  unfolding independence_entries_def indicator_entries_def
  by (intro agg_intros) (auto split: option.split)

lemma agg_errors_independence [agg_intros]: "agg_errors (proven_independence rk rs)"
proof (cases "independence_entries rk rs")
  case (Inl e)
  then show ?thesis
    using agg_errors_entries [of rk rs] by (simp add: proven_independence_def agg_errors_def)
next
  case (Inr entries)
  show ?thesis by (rule proven_independence_graph [OF Inr]) simp
qed

lemma agg_errors_attach [agg_intros]: "agg_errors (attach_strength rk r)"
  unfolding attach_strength_def rule_evidence_strength_def governed_strength_def
  by (auto simp: Let_def split: option.split intro!: agg_intros)

lemma agg_errors_risk [agg_intros]: "agg_errors (risk_level sev st)"
  by (auto simp: risk_level_def split: option.split)

lemma agg_errors_aggregate_eligible [agg_intros]: "agg_errors (aggregate_eligible rk pf support ms b es)"
  unfolding aggregate_eligible_def Let_def by (auto intro!: agg_intros split: prod.split)

lemma copy_errors:
  "map_res (validate_and_canonical_copy ok) rs = Inl e \<Longrightarrow> agg_fault e \<or> (\<exists>m. e = AggregationError m)"
  by (induction rs)
    (auto simp: rbind_eq_Inl validate_and_canonical_copy_def canonical_caps_def guard_def
      split: option.splits if_splits)

lemma aggregate_decision_errors: "agg_errors (aggregate_decision ok eok rk pf support rs we)"
proof -
  have "agg_errors (agg_boundary (rbind (map_res (validate_and_canonical_copy ok) rs)
      (\<lambda>rs. rbind (map_res (check_semantic_invariants rk) rs) (\<lambda>_. Inr rs))))"
  proof (rule agg_errors_boundary)
    fix e
    assume "rbind (map_res (validate_and_canonical_copy ok) rs)
      (\<lambda>rs. rbind (map_res (check_semantic_invariants rk) rs) (\<lambda>_. Inr rs)) = Inl e"
    then consider "map_res (validate_and_canonical_copy ok) rs = Inl e"
      | ms where "map_res (check_semantic_invariants rk) ms = Inl e"
      by (auto simp: rbind_eq_Inl)
    then show "agg_fault e \<or> (\<exists>m. e = AggregationError m)"
    proof cases
      case 2
      then show ?thesis using agg_errors_map_res [of "check_semantic_invariants rk" ms, OF agg_errors_check] by (simp add: agg_errors_def)
    qed (rule copy_errors)
  qed
  then show ?thesis
    unfolding aggregate_decision_def Let_def by (auto intro!: agg_intros)
qed

section \<open>The eligible case\<close>

lemma attach_strength_fields:
  assumes "attach_strength rk r = Inr r'"
  shows "r' = (if is_eligible_matched r then r\<lparr>rr_strength := rr_strength r'\<rparr> else r)"
    "is_eligible_matched r \<Longrightarrow> \<exists>s. rule_evidence_strength rk r = Inr s \<and> rr_strength r' = Some s"
  using assms by (auto simp: attach_strength_def rbind_eq_Inr split: if_splits)

lemma attach_strength_same:
  assumes "attach_strength rk r = Inr r'"
  shows "is_eligible_matched r' = is_eligible_matched r" "rr_rule_id r' = rr_rule_id r"
    "rr_effective r' = rr_effective r" "rr_verdict r' = rr_verdict r" "rr_classes r' = rr_classes r"
    "rr_matched_positive r' = rr_matched_positive r" "rr_provenance r' = rr_provenance r"
    "rr_overrides r' = rr_overrides r" "rr_ambiguities r' = rr_ambiguities r"
    "rr_confidence r' = rr_confidence r" "is_composite r' = is_composite r"
    "is_unresolved_harmful r' = is_unresolved_harmful r" "is_benign_clear r' = is_benign_clear r"
    "context_only_present r' = context_only_present r"
  by (subst attach_strength_fields(1) [OF assms],
      simp add: is_eligible_matched_def is_composite_def is_unresolved_harmful_def is_benign_clear_def
        context_only_present_def)+

lemma mark_governing_same [simp]:
  "is_eligible_matched (mark_governing g w c r) = is_eligible_matched r"
  "rr_rule_id (mark_governing g w c r) = rr_rule_id r"
  "rr_matched_positive (mark_governing g w c r) = rr_matched_positive r"
  "rr_matched_negative (mark_governing g w c r) = rr_matched_negative r"
  "is_composite (mark_governing g w c r) = is_composite r"
  by (simp_all add: mark_governing_def is_eligible_matched_def is_composite_def)

lemma fold_max_level: "fold max xs (a :: level) = Max (insert a (set xs))"
  using Max.set_eq_fold [of a xs] by simp

lemma decision_severity_Max:
  assumes "\<forall>r\<in>set rs. is_eligible_matched r" "rs \<noteq> []"
  shows "decision_severity rs = Max ((\<lambda>r. the (rr_effective r)) ` set rs)"
    "decision_severity rs \<noteq> NONE"
proof -
  have eff: "\<exists>l. rr_effective r = Some l \<and> l \<noteq> NONE" if "r \<in> set rs" for r
    using assms(1) that by (auto simp: is_eligible_matched_def SEVERITY_ORDER_def split: option.splits)
  have set: "set (List.map_filter rr_effective rs) = (\<lambda>r. the (rr_effective r)) ` set rs"
  proof (intro equalityI subsetI)
    fix l assume "l \<in> set (List.map_filter rr_effective rs)"
    then obtain r where "r \<in> set rs" "rr_effective r = Some l" by (auto simp: map_filter_set)
    then show "l \<in> (\<lambda>r. the (rr_effective r)) ` set rs" by force
  next
    fix l assume "l \<in> (\<lambda>r. the (rr_effective r)) ` set rs"
    then obtain r where r: "r \<in> set rs" "l = the (rr_effective r)" by auto
    with eff [OF r(1)] have "rr_effective r = Some l" by auto
    with r(1) show "l \<in> set (List.map_filter rr_effective rs)" by (auto simp: map_filter_set)
  qed
  have "NONE \<le> l" for l by (cases l) (simp_all add: level_order)
  moreover have ne: "(\<lambda>r. the (rr_effective r)) ` set rs \<noteq> {}" using assms(2) by simp
  ultimately have "Max (insert NONE ((\<lambda>r. the (rr_effective r)) ` set rs)) = Max ((\<lambda>r. the (rr_effective r)) ` set rs)"
    by (simp add: max_def)
  then show eq: "decision_severity rs = Max ((\<lambda>r. the (rr_effective r)) ` set rs)"
    by (simp add: decision_severity_def fold_max_level set)
  have "Max ((\<lambda>r. the (rr_effective r)) ` set rs) \<in> (\<lambda>r. the (rr_effective r)) ` set rs"
    by (rule Max_in) (use ne in auto)
  then show "decision_severity rs \<noteq> NONE" unfolding eq using eff by fastforce
qed

lemma select_governing_min:
  assumes "rs \<noteq> []"
  shows "select_governing rs \<in> set rs" "r \<in> set rs \<Longrightarrow> governing_key (select_governing rs) \<le> governing_key r"
proof -
  obtain g gs where g: "sort_key governing_key rs = g # gs"
    using assms by (metis length_sort list.exhaust length_0_conv)
  have "set (g # gs) = set rs" by (metis g set_sort)
  moreover have "sorted (map governing_key (g # gs))" by (metis g sorted_sort_key)
  ultimately show "select_governing rs \<in> set rs"
    "r \<in> set rs \<Longrightarrow> governing_key (select_governing rs) \<le> governing_key r"
    by (auto simp: select_governing_def g)
qed

text \<open>The steps of an aggregation with an eligible match, over the prepared results.\<close>

lemma aggregate_eligible_cases:
  assumes run: "aggregate_eligible rk pf support ms b es = Inr d"
    and elig: "filter is_eligible_matched ms \<noteq> []" and ev: "evaluable support"
  obtains rs gov g0 s n classes shared entries conf where
    "map_res (attach_strength rk) ms = Inr rs"
    "gov = select_governing (filter is_eligible_matched rs)"
    "g0 \<in> set ms" "is_eligible_matched g0" "attach_strength rk g0 = Inr gov"
    "gov \<in> set (filter is_eligible_matched rs)"
    "rule_evidence_strength rk g0 = Inr s" "rr_strength gov = Some s"
    "independence_entries rk (filter is_eligible_matched rs) = Inr entries"
    "proven_independence rk (filter is_eligible_matched rs) = Inr (n, classes, shared)"
    "conf = (if b \<and> detection_confidence gov n = C_HIGH then C_MEDIUM else detection_confidence gov n)"
    "dr_confidence d = Some conf"
    "dr_classification d = (if conf = C_LOW then CL_SCAM_PATTERN_SUSPECTED else CL_SCAM_PATTERN_DETECTED)"
    "dr_severity d = decision_severity (filter is_eligible_matched rs)"
    "dr_strength d = s" "risk_level (dr_severity d) s = Inr (dr_risk d)"
    "dr_corroboration d = corroborate n classes shared (rr_verdict gov)"
    "dr_governing d = Some (rr_rule_id gov)"
    "dr_matched_rules d = sorted_unique (map rr_rule_id (filter is_eligible_matched rs))"
    "dr_positive d = collect rr_matched_positive (filter is_eligible_matched rs)"
    "dr_degraded d = b"
proof -
  from run obtain rs where rs: "map_res (attach_strength rk) ms = Inr rs"
    by (auto simp: aggregate_eligible_def rbind_eq_Inr)
  let ?el = "filter is_eligible_matched rs"
  define gov where "gov = select_governing ?el"
  have l2: "list_all2 (\<lambda>r r'. attach_strength rk r = Inr r') ms rs" using rs by (simp add: map_res_Inr_iff)
  then have "filter is_eligible_matched rs = [] \<longleftrightarrow> filter is_eligible_matched ms = []"
    by (induction rule: list_all2_induct) (auto dest: attach_strength_same(1))
  with elig have el: "?el \<noteq> []" by simp
  have gin: "gov \<in> set ?el" unfolding gov_def by (rule select_governing_min(1) [OF el])
  then obtain g0 where g0: "g0 \<in> set ms" "attach_strength rk g0 = Inr gov"
    using map_res_set [OF rs] by auto
  have g0e: "is_eligible_matched g0" using attach_strength_same(1) [OF g0(2)] gin by simp
  from attach_strength_fields(2) [OF g0(2) g0e] obtain s where
    s: "rule_evidence_strength rk g0 = Inr s" "rr_strength gov = Some s" by blast
  from run obtain n classes shared where pi: "proven_independence rk ?el = Inr (n, classes, shared)"
    by (auto simp: aggregate_eligible_def rs rbind_eq_Inr Let_def)
  then obtain entries where en: "independence_entries rk ?el = Inr entries"
    by (auto simp: proven_independence_def rbind_eq_Inr)
  define conf where "conf = (if b \<and> detection_confidence gov n = C_HIGH then C_MEDIUM else detection_confidence gov n)"
  from run obtain risk where risk: "risk_level (decision_severity ?el) s = Inr risk"
    by (auto simp: aggregate_eligible_def rs pi rbind_eq_Inr Let_def gov_def [symmetric] s(2))
  let ?mark = "mark_governing (rr_rule_id gov) (governing_reason gov (length ?el)) conf"
  have fm: "filter is_eligible_matched (map ?mark rs) = map ?mark ?el"
    by (simp add: filter_map comp_def)
  have d: "d = assemble support (classify support ?el rs (Some conf) b False)
      (decision_severity ?el) s risk (Some conf) (corroborate n classes shared (rr_verdict gov))
      (Some (rr_rule_id gov)) (Some (governing_reason gov (length ?el)))
      (map ?mark ?el) (map ?mark rs) b es pf"
    using run unfolding fm [symmetric] aggregate_eligible_def rs rbind_simps Let_def gov_def [symmetric]
      pi prod.case s(2) option.case risk conf_def [symmetric] by simp
  show thesis
  proof (rule that [OF rs gov_def g0(1) g0e g0(2) gin s en pi conf_def])
    show "dr_classification d = (if conf = C_LOW then CL_SCAM_PATTERN_SUSPECTED else CL_SCAM_PATTERN_DETECTED)"
      using ev el by (auto simp: d assemble_def classify_def Let_def)
  qed (simp_all add: d assemble_def Let_def risk collect_def comp_def)
qed

end
