(* ===== verification/DecisionSafety.thy ===== *)
theory DecisionSafety
  imports DecisionProps
begin

text \<open>
  The decision in terms of the rule results that came in: classification, risk, confidence, the
  governing rule, and the independence of the result order.
\<close>

section \<open>Classification\<close>

lemma prepared_ex:
  assumes "prepared ok rk rs ms"
  shows "list_ex is_degraded ms = list_ex is_degraded rs"
    "has_unresolved_harmful ms = has_unresolved_harmful rs"
    "has_affirmative_benign_clear ms = has_affirmative_benign_clear rs"
    "list_ex is_eligible_matched ms = list_ex is_eligible_matched rs"
  using assms list_ex_copies [of ok rs ms] copy_predicates
  by (auto simp: prepared_def has_unresolved_harmful_def has_affirmative_benign_clear_def)

definition expected_classification ::
    "support_status \<Rightarrow> rule_result list \<Rightarrow> confidence option \<Rightarrow> bool \<Rightarrow> classification" where
  "expected_classification support rs conf whole_error =
     (if whole_error \<or> support = S_ERROR then CL_ERROR
      else if support = S_UNSUPPORTED then CL_UNSUPPORTED
      else if support = S_INSUFFICIENT_INFORMATION then CL_INSUFFICIENT_EVIDENCE
      else if list_ex is_eligible_matched rs then
        (if conf = Some C_LOW then CL_SCAM_PATTERN_SUSPECTED else CL_SCAM_PATTERN_DETECTED)
      else if list_ex is_degraded rs \<or> list_ex is_unresolved_harmful rs then CL_INSUFFICIENT_EVIDENCE
      else if list_ex is_benign_clear rs then CL_NO_SCAM_PATTERN
      else CL_INSUFFICIENT_EVIDENCE)"

lemma filter_ex: "filter P xs \<noteq> [] \<longleftrightarrow> list_ex P xs"
  by (induction xs) auto

lemma aggregate_classification:
  assumes "aggregate_decision ok eok rk pf support rs we = Inr d"
  shows "dr_classification d = expected_classification support rs (dr_confidence d) (we \<noteq> [])"
  using assms
proof (cases rule: aggregate_cases)
  case (1 ms)
  then show ?thesis
    by (cases support) (auto simp: assemble_def classify_def expected_classification_def Let_def)
next
  case (2 ms)
  note ex = prepared_ex [OF 2(2)]
  have "\<not> list_ex is_eligible_matched rs" using 2(5) filter_ex [of is_eligible_matched ms] ex(4) by simp
  then show ?thesis
    using 2(3,4) ex(1-3)
    by (auto simp: 2(6) assemble_def classify_def expected_classification_def Let_def
        has_unresolved_harmful_def has_affirmative_benign_clear_def)
next
  case (3 ms)
  have "list_ex is_eligible_matched rs"
    using 3(5) filter_ex [of is_eligible_matched ms] prepared_ex(4) [OF 3(2)] by simp
  then show ?thesis
    using 3(3,4) by - (rule aggregate_eligible_cases [OF 3(6,5,4)], auto simp: expected_classification_def)
qed

section \<open>Risk, severity and confidence\<close>

lemma risk_matrix_matched:
  "sev \<noteq> NONE \<Longrightarrow> risk_level sev st = Inr r \<Longrightarrow> RISK_MATRIX sev st = Some r \<and> r \<noteq> NONE"
  by (cases sev; cases st) (simp_all add: risk_level_def)

text \<open>Worse severity or stronger evidence never lowers the risk.\<close>

lemma risk_matrix_mono:
  "RISK_MATRIX sev st = Some r \<Longrightarrow> RISK_MATRIX sev' st' = Some r' \<Longrightarrow> sev \<le> sev' \<Longrightarrow> st \<le> st' \<Longrightarrow> r \<le> r'"
  by (cases sev; cases st; cases sev'; cases st') (simp_all add: level_order strength_order)

lemma prepared_eligible_effective:
  assumes p: "prepared ok rk rs ms" and a: "map_res (attach_strength rk) ms = Inr as"
  shows "(\<lambda>r. the (rr_effective r)) ` set (filter is_eligible_matched as) =
     (\<lambda>r. the (rr_effective r)) ` set (filter is_eligible_matched rs)"
proof -
  have "list_all2 (\<lambda>r m. validate_and_canonical_copy ok r = Inr m) rs ms"
    "list_all2 (\<lambda>m a. attach_strength rk m = Inr a) ms as"
    using p a by (simp_all add: prepared_def map_res_Inr_iff)
  then have "list_all2 (\<lambda>r a. is_eligible_matched a = is_eligible_matched r \<and> rr_effective a = rr_effective r) rs as"
    by (rule list_all2_trans [rotated 1]) (simp add: copy_fields copy_predicates attach_strength_same)
  then have "map (\<lambda>r. the (rr_effective r)) (filter is_eligible_matched as) =
      map (\<lambda>r. the (rr_effective r)) (filter is_eligible_matched rs)"
    by (induction rule: list_all2_induct) auto
  then show ?thesis by (metis list.set_map)
qed

lemma aggregate_matched_all:
  assumes run: "aggregate_decision ok eok rk pf support rs we = Inr d"
    and g: "dr_governing d \<noteq> None"
  shows "dr_severity d = Max ((\<lambda>r. the (rr_effective r)) ` set (filter is_eligible_matched rs)) \<and>
    RISK_MATRIX (dr_severity d) (dr_strength d) = Some (dr_risk d) \<and> dr_risk d \<noteq> NONE \<and>
    list_ex is_eligible_matched rs \<and> we = [] \<and> evaluable support \<and> dr_confidence d \<noteq> None"
  using run
proof (cases rule: aggregate_cases)
  case (3 ms)
  have ex: "list_ex is_eligible_matched rs"
    using 3(5) filter_ex [of is_eligible_matched ms] prepared_ex(4) [OF 3(2)] by simp
  show ?thesis
  proof (rule aggregate_eligible_cases [OF 3(6,5,4)])
    fix as gov conf s
    assume a: "map_res (attach_strength rk) ms = Inr as"
      "dr_severity d = decision_severity (filter is_eligible_matched as)"
      "gov \<in> set (filter is_eligible_matched as)" "dr_strength d = s"
      "risk_level (dr_severity d) s = Inr (dr_risk d)" "dr_confidence d = Some conf"
    have sev: "dr_severity d = Max ((\<lambda>r. the (rr_effective r)) ` set (filter is_eligible_matched as))"
      "dr_severity d \<noteq> NONE"
    proof -
      have ne: "filter is_eligible_matched as \<noteq> []" using a(3) by (metis empty_iff empty_set)
      have all: "\<forall>r\<in>set (filter is_eligible_matched as). is_eligible_matched r" by simp
      show "dr_severity d = Max ((\<lambda>r. the (rr_effective r)) ` set (filter is_eligible_matched as))"
        unfolding a(2) by (rule decision_severity_Max(1) [OF all ne])
      show "dr_severity d \<noteq> NONE" unfolding a(2) by (rule decision_severity_Max(2) [OF all ne])
    qed
    show ?thesis
      using sev prepared_eligible_effective [OF 3(2) a(1)] risk_matrix_matched [OF sev(2) a(5)]
        a(4,6) ex 3(3,4) by simp
  qed
qed (use g in \<open>auto simp: assemble_def Let_def\<close>)

lemmas aggregate_matched = aggregate_matched_all [THEN conjunct1]
  aggregate_matched_all [THEN conjunct2, THEN conjunct1]
  aggregate_matched_all [THEN conjunct2, THEN conjunct2, THEN conjunct1]
  aggregate_matched_all [THEN conjunct2, THEN conjunct2, THEN conjunct2]

lemma aggregate_unmatched:
  assumes run: "aggregate_decision ok eok rk pf support rs we = Inr d"
    and g: "dr_governing d = None"
  shows "dr_severity d = NONE \<and> dr_strength d = NO_STRENGTH \<and> dr_risk d = NONE \<and> dr_confidence d = None \<and>
     dr_matched_rules d = [] \<and> dr_positive d = []"
  using run
proof (cases rule: aggregate_cases)
  case (3 ms)
  then show ?thesis using g by - (rule aggregate_eligible_cases [OF 3(6,5,4)], simp)
qed (auto simp: assemble_def Let_def collect_def)

text \<open>Which rule governs: a match no other eligible match beats on severity, verdict, breadth and id.\<close>

lemma aggregate_governing:
  assumes run: "aggregate_decision ok eok rk pf support rs we = Inr d"
    and g: "dr_governing d = Some gid"
  obtains r m where "r \<in> set rs" "validate_and_canonical_copy ok r = Inr m" "is_eligible_matched r"
    "rr_rule_id r = gid"
    "\<And>r' m'. r' \<in> set rs \<Longrightarrow> validate_and_canonical_copy ok r' = Inr m' \<Longrightarrow> is_eligible_matched r' \<Longrightarrow>
       governing_key m \<le> governing_key m'"
    "\<exists>n. dr_confidence d = Some (if list_ex is_degraded rs \<and> detection_confidence m n = C_HIGH
                                 then C_MEDIUM else detection_confidence m n) \<and>
         co_count (dr_corroboration d) = n"
  using run
proof (cases rule: aggregate_cases)
  case (3 ms)
  show thesis
  proof (rule aggregate_eligible_cases [OF 3(6,5,4)])
    fix as gov g0 n classes shared conf
    assume s: "map_res (attach_strength rk) ms = Inr as"
      "gov = select_governing (filter is_eligible_matched as)"
      "g0 \<in> set ms" "is_eligible_matched g0" "attach_strength rk g0 = Inr gov"
      "gov \<in> set (filter is_eligible_matched as)"
      "conf = (if list_ex is_degraded ms \<and> detection_confidence gov n = C_HIGH then C_MEDIUM
               else detection_confidence gov n)"
      "dr_confidence d = Some conf" "dr_governing d = Some (rr_rule_id gov)"
      "dr_corroboration d = corroborate n classes shared (rr_verdict gov)"
    have copies: "map_res (validate_and_canonical_copy ok) rs = Inr ms" using 3(2) by (simp add: prepared_def)
    from map_res_set [OF copies s(3)] obtain r where
      r: "r \<in> set rs" "validate_and_canonical_copy ok r = Inr g0" by blast
    have key: "governing_key gov = governing_key g0"
      by (simp add: governing_key_def attach_strength_same [OF s(5)])
    have least: "governing_key g0 \<le> governing_key m'"
      if r': "r' \<in> set rs" "validate_and_canonical_copy ok r' = Inr m'" "is_eligible_matched r'" for r' m'
    proof -
      obtain m2 where "m2 \<in> set ms" "validate_and_canonical_copy ok r' = Inr m2"
        using map_res_set_ex [OF copies r'(1)] by blast
      then have m': "m' \<in> set ms" using r'(2) by simp
      obtain a' where a': "a' \<in> set as" "attach_strength rk m' = Inr a'" using map_res_set_ex [OF s(1) m'] by blast
      have "a' \<in> set (filter is_eligible_matched as)"
        using a' r'(3) copy_predicates(2) [OF r'(2)] attach_strength_same(1) [OF a'(2)] by simp
      then have "governing_key gov \<le> governing_key a'"
        unfolding s(2) using select_governing_min(2) [of "filter is_eligible_matched as"]
        by (metis empty_iff empty_set)
      then show ?thesis using key by (simp add: governing_key_def attach_strength_same [OF a'(2)])
    qed
    have conf: "detection_confidence gov n = detection_confidence g0 n"
      by (simp add: detection_confidence_def min_extraction_def attach_strength_same [OF s(5)])
    show thesis
    proof (rule that [OF r _ _ least])
      show "is_eligible_matched r" using s(4) copy_predicates(2) [OF r(2)] by simp
      show "rr_rule_id r = gid" using g s(9) attach_strength_same(2) [OF s(5)] copy_fields(1) [OF r(2)] by simp
      show "\<exists>n. dr_confidence d = Some (if list_ex is_degraded rs \<and> detection_confidence g0 n = C_HIGH
              then C_MEDIUM else detection_confidence g0 n) \<and> co_count (dr_corroboration d) = n"
        using s(7,8,10) conf prepared_ex(1) [OF 3(2)] by (auto simp: corroborate_def Let_def)
    qed
  qed
qed (use g in \<open>auto simp: assemble_def Let_def\<close>)

end
