(* ===== verification/OrderIndependence.thy ===== *)
theory OrderIndependence
  imports DecisionSafety "HOL-Library.Multiset"
begin

text \<open>
  The documented determinism of the aggregation: a permutation of the rule results gives the same
  decision, field by field. Sorting by a key that is injective on the results, sets, counts, least
  roots and the matching over sorted lists all forget the order.
\<close>

section \<open>Loops and sorting under permutation\<close>

lemma map_res_perm:
  assumes "map_res f xs = Inr ys" "mset xs = mset xs'"
  shows "\<exists>ys'. map_res f xs' = Inr ys' \<and> mset ys' = mset ys"
proof -
  have l: "list_all2 (\<lambda>x y. f x = Inr y) xs ys" using assms(1) by (simp add: map_res_Inr_iff)
  then have ys: "ys = map (\<lambda>x. projr (f x)) xs" by (induction rule: list_all2_induct) auto
  have "f x = Inr (projr (f x))" if "x \<in> set xs" for x
    using l that by (induction rule: list_all2_induct) auto
  then have "map_res f xs' = Inr (map (\<lambda>x. projr (f x)) xs')"
    by (intro map_res_Inr_all) (metis assms(2) mset_eq_setD)
  then show ?thesis using assms(2) ys by simp
qed

lemma sort_key_perm:
  assumes "mset xs = mset ys" "inj_on f (set xs)"
  shows "sort_key f xs = sort_key f ys"
  by (rule sort_key_inj_key_eq) (use assms in simp_all)

lemma sort_key_append_perm:
  assumes "mset es = mset es'" "inj_on f (set es)"
  shows "sort_key f (ws @ es) = sort_key f (ws @ es')"
proof (rule properties_for_sort_key)
  show "mset (sort_key f (ws @ es')) = mset (ws @ es)" using assms(1) by simp
  fix k
  have same: "filter (\<lambda>x. f k = f x) es' = filter (\<lambda>x. f k = f x) es"
  proof (cases "filter (\<lambda>x. f k = f x) es")
    case Nil
    then show ?thesis using assms(1) by (metis mset_filter mset_zero_iff)
  next
    case (Cons e l)
    then have "e \<in> set (filter (\<lambda>x. f k = f x) es)" by simp
    then have e: "e \<in> set es" "f k = f e" by simp_all
    have all: "x = e" if "x \<in> set es" "f k = f x" for x
      using assms(2) e that by (auto dest: inj_onD)
    have r: "filter (\<lambda>x. f k = f x) zs = replicate (length (filter (\<lambda>x. f k = f x) zs)) e"
      if "set zs = set es" for zs
      using all that by (intro replicate_eqI) auto
    have "length (filter (\<lambda>x. f k = f x) es') = length (filter (\<lambda>x. f k = f x) es)"
      using assms(1) by (metis mset_filter size_mset)
    then show ?thesis using r [of es] r [of es'] assms(1) by (metis mset_eq_setD)
  qed
  have "filter (\<lambda>x. f k = f x) (sort_key f (ws @ es')) = filter (\<lambda>x. f k = f x) (ws @ es')"
    using sort_key_stable [of f "f k" "ws @ es'"] by (simp add: eq_commute)
  then show "filter (\<lambda>x. f k = f x) (sort_key f (ws @ es')) = filter (\<lambda>x. f k = f x) (ws @ es)"
    using same by simp
qed simp

lemma perm_ex: "mset xs = mset ys \<Longrightarrow> list_ex P xs = list_ex P ys"
  by (metis list_ex_iff mset_eq_setD)

lemma collect_perm: "mset xs = mset ys \<Longrightarrow> collect f xs = collect f ys"
  unfolding collect_def by (rule sorted_unique_set_eq) (auto dest: mset_eq_setD)

lemma perm_filter: "mset xs = mset ys \<Longrightarrow> mset (filter P xs) = mset (filter P ys)"
  by simp

section \<open>The independence count\<close>

lemma mset_concat_sum: "mset (concat xss) = sum_mset (image_mset mset (mset xss))"
  by (induction xss) simp_all

lemma concat_perm: "mset xss = mset yss \<Longrightarrow> mset (concat xss) = mset (concat yss)"
  by (simp only: mset_concat_sum)

lemma independence_entries_perm:
  assumes "independence_entries rk rs = Inr es" "mset rs = mset rs'"
  shows "\<exists>es'. independence_entries rk rs' = Inr es' \<and> mset es' = mset es"
proof -
  from assms(1) obtain ess where e: "map_res (\<lambda>r. map_res (indicator_entries rk r) (rr_matched_positive r)) rs = Inr ess"
    "es = concat (concat ess)" by (auto simp: independence_entries_def rbind_eq_Inr)
  from map_res_perm [OF e(1) assms(2)] obtain ess' where
    e': "map_res (\<lambda>r. map_res (indicator_entries rk r) (rr_matched_positive r)) rs' = Inr ess'"
    "mset ess' = mset ess" by blast
  have "mset (concat (concat ess')) = mset es"
    unfolding e(2) by (intro concat_perm e'(2))
  then show ?thesis using e'(1) by (simp add: independence_entries_def)
qed

lemma count_list_perm: "mset xs = mset ys \<Longrightarrow> count_list xs x = count_list ys x"
  by (metis count_mset)

lemma shared_refs_perm:
  assumes "mset es = mset es'"
  shows "shared_refs es = shared_refs es'"
proof -
  have "mset (concat (map snd es)) = mset (concat (map snd es'))"
    by (rule concat_perm) (simp add: assms)
  from count_list_perm [OF this] mset_eq_setD [OF this] show ?thesis
    unfolding shared_refs_def Let_def by (intro sorted_unique_set_eq) auto
qed

lemma connected_set: "set gs = set gs' \<Longrightarrow> connected gs = connected gs'"
  by (simp add: connected_def group_edges_def fun_eq_iff)

lemma class_components_distinct:
  "class_components es p d = Some g \<Longrightarrow> distinct (dict_keys d) \<Longrightarrow> distinct (dict_keys g)"
  by (induction es p d rule: class_components.induct)
    (auto simp: distinct_update split: option.splits)

lemma adjacent_union:
  assumes "distinct (map fst h)"
  shows "set (concat (map snd h)) = (\<Union>c\<in>fst ` set h. set (adjacent h c))"
proof -
  have "set (adjacent h (fst e)) = set (snd e)" if "e \<in> set h" for e
    using map_of_is_SomeI [OF assms, of "fst e" "snd e"] that by (simp add: adjacent_def)
  then show ?thesis by auto
qed

lemma max_bipartite_matching_cong:
  assumes "distinct (map fst g)" "distinct (map fst g')" "fst ` set g = fst ` set g'"
    "\<And>c. set (adjacent g c) = set (adjacent g' c)"
  shows "max_bipartite_matching g = max_bipartite_matching g'"
proof -
  have adj: "adjacent g = adjacent g'"
  proof
    fix c
    have "(map_of g c = None) = (map_of g' c = None)" using assms(3) by (simp add: map_of_eq_None_iff)
    then show "adjacent g c = adjacent g' c"
      using assms(4) [of c] by (auto simp: adjacent_def intro!: sorted_unique_set_eq split: option.splits)
  qed
  have "length (remdups (concat (map snd g))) = length (remdups (concat (map snd g')))"
    unfolding length_remdups_card_conv adjacent_union [OF assms(1)] adjacent_union [OF assms(2)] assms(3) adj ..
  moreover have "sorted_unique (map fst g) = sorted_unique (map fst g')"
    by (rule sorted_unique_set_eq) (simp add: assms(3))
  ultimately show ?thesis by (simp add: max_bipartite_matching_def Let_def adj)
qed

lemma proven_independence_perm:
  assumes "proven_independence rk rs = Inr res" "mset rs = mset rs'"
  shows "proven_independence rk rs' = Inr res"
proof -
  from assms(1) obtain es where es: "independence_entries rk rs = Inr es"
    by (auto simp: proven_independence_def rbind_eq_Inr)
  from independence_entries_perm [OF es assms(2)] obtain es' where
    es': "independence_entries rk rs' = Inr es'" "mset es' = mset es" by blast
  have set: "set es' = set es" using es'(2) by (rule mset_eq_setD)
  have conn: "connected (map snd es') = connected (map snd es)"
    by (rule connected_set) (simp add: set)
  obtain p g n cs where 1: "uf_ok p" "\<And>x y. uf_rep p x = uf_rep p y \<longleftrightarrow> connected (map snd es) x y"
    "class_components es p [] = Some g" "fst ` set g = fst ` set es"
    "\<And>cls. set (adjacent g cls) = {uf_rep p (hd refs) | refs. (cls, refs) \<in> set es}"
    "max_bipartite_matching g = Some (n, cs)" "proven_independence rk rs = Inr (n, cs, shared_refs es)"
    by (rule proven_independence_graph [OF es]) blast
  obtain p' g' n' cs' where 2: "uf_ok p'" "\<And>x y. uf_rep p' x = uf_rep p' y \<longleftrightarrow> connected (map snd es') x y"
    "class_components es' p' [] = Some g'" "fst ` set g' = fst ` set es'"
    "\<And>cls. set (adjacent g' cls) = {uf_rep p' (hd refs) | refs. (cls, refs) \<in> set es'}"
    "max_bipartite_matching g' = Some (n', cs')" "proven_independence rk rs' = Inr (n', cs', shared_refs es')"
    by (rule proven_independence_graph [OF es'(1)]) blast
  have rep: "uf_rep p' = uf_rep p"
    by (rule uf_rep_unique [OF 2(1) 1(1)]) (simp only: 1(2) 2(2) conn)
  have "max_bipartite_matching g' = max_bipartite_matching g"
  proof (rule max_bipartite_matching_cong)
    show "distinct (map fst g')" "distinct (map fst g)"
      using class_components_distinct [OF 2(3)] class_components_distinct [OF 1(3)] by simp_all
    show "fst ` set g' = fst ` set g" by (simp add: 1(4) 2(4) set)
    show "set (adjacent g' c) = set (adjacent g c)" for c by (simp only: 1(5) 2(5) rep set)
  qed
  then have "n' = n" "cs' = cs" using 1(6) 2(6) by simp_all
  then show ?thesis using 1(7) 2(7) shared_refs_perm [OF es'(2)] assms(1) by simp
qed


section \<open>The decision\<close>

lemma prepared_perm:
  assumes "prepared ok rk rs ms" "mset rs = mset rs'"
  shows "\<exists>ms'. prepared ok rk rs' ms' \<and> mset ms' = mset ms"
proof -
  from assms(1) have "map_res (validate_and_canonical_copy ok) rs = Inr ms" by (simp add: prepared_def)
  from map_res_perm [OF this assms(2)] obtain ms' where
    ms': "map_res (validate_and_canonical_copy ok) rs' = Inr ms'" "mset ms' = mset ms" by blast
  have "mset (map rr_rule_id ms') = mset (map rr_rule_id ms)" using ms'(2) by simp
  then have "distinct (map rr_rule_id ms') = distinct (map rr_rule_id ms)" by (rule mset_eq_imp_distinct_iff)
  then show ?thesis using ms' assms(1) mset_eq_setD [OF ms'(2)] by (auto simp: prepared_def)
qed

lemma ids_inj: "distinct (map rr_rule_id rs) \<Longrightarrow> inj_on rr_rule_id (set rs)"
  by (simp add: distinct_map)

lemma rule_error_SomeD:
  "rule_error r = Some e \<Longrightarrow> \<exists>c m. e = \<lparr>ee_scope = SINGLE_RULE, ee_stage = Some ''RULE_EVALUATION'',
     ee_code = c, ee_message = m, ee_rule_id = Some (rr_rule_id r)\<rparr>"
  by (auto simp: rule_error_def split: if_splits option.splits)

lemma rule_error_inj: "inj_on error_key (set (List.map_filter rule_error rs))"
proof (rule inj_onI)
  fix e e'
  assume "e \<in> set (List.map_filter rule_error rs)" "e' \<in> set (List.map_filter rule_error rs)"
    "error_key e = error_key e'"
  then show "e = e'" by (auto simp: map_filter_set error_key_def dest!: rule_error_SomeD)
qed

lemma map_filter_perm: "mset xs = mset ys \<Longrightarrow> mset (List.map_filter f xs) = mset (List.map_filter f ys)"
  by (simp add: List.map_filter_def)

lemma classify_perm:
  assumes "mset rs = mset rs'" "(el = []) = (el' = [])"
  shows "classify support el rs conf dg we = classify support el' rs' conf dg we"
  using assms(2) perm_ex [OF assms(1)]
  by (auto simp: classify_def has_unresolved_harmful_def has_affirmative_benign_clear_def)

lemma assemble_perm:
  assumes "mset el = mset el'" "mset rs = mset rs'" "distinct (map rr_rule_id rs)"
    "mset es = mset es'" "inj_on error_key (set es)"
  shows "assemble support cl sev st risk conf corr gov why el rs dg (we @ es) pf =
    assemble support cl sev st risk conf corr gov why el' rs' dg (we @ es') pf"
proof -
  have comp: "mset (filter is_composite rs) = mset (filter is_composite rs')" using assms(2) by simp
  have el: "set el = set el'" by (rule mset_eq_setD [OF assms(1)])
  have "sorted_unique (map rr_rule_id el) = sorted_unique (map rr_rule_id el')"
    by (rule sorted_unique_set_eq) (simp add: el)
  then show ?thesis
    by (simp add: assemble_def Let_def collect_perm [OF assms(1)] collect_perm [OF comp]
        sort_key_perm [OF assms(2) ids_inj [OF assms(3)]] sort_key_append_perm [OF assms(4,5)])
qed

lemma governing_perm:
  assumes "mset el = mset el'" "distinct (map rr_rule_id el)"
  shows "select_governing el = select_governing el'"
proof -
  have "inj_on governing_key (set el)"
    using ids_inj [OF assms(2)] by (auto simp: governing_key_def inj_on_def)
  then show ?thesis by (simp add: select_governing_def sort_key_perm [OF assms(1)])
qed

lemma decision_severity_perm:
  assumes "mset el = mset el'"
  shows "decision_severity el = decision_severity el'"
proof -
  have "set (List.map_filter rr_effective el) = set (List.map_filter rr_effective el')"
    by (rule mset_eq_setD [OF map_filter_perm [OF assms]])
  then show ?thesis by (simp only: decision_severity_def fold_max_level)
qed

lemma attach_ids: "map_res (attach_strength rk) ms = Inr rs \<Longrightarrow> map rr_rule_id rs = map rr_rule_id ms"
  by (induction ms arbitrary: rs) (auto simp: rbind_eq_Inr attach_strength_same(2))

lemma aggregate_eligible_perm:
  assumes run: "aggregate_eligible rk pf support ms b es = Inr d" and ms: "mset ms = mset ms'"
    and ids: "distinct (map rr_rule_id ms)" and es: "mset es = mset es'" "inj_on error_key (set es)"
  shows "aggregate_eligible rk pf support ms' b es' = Inr d"
proof -
  from run obtain rs where rs: "map_res (attach_strength rk) ms = Inr rs"
    by (auto simp: aggregate_eligible_def rbind_eq_Inr)
  from map_res_perm [OF this ms] obtain rs' where
    rs': "map_res (attach_strength rk) ms' = Inr rs'" "mset rs' = mset rs" by blast
  let ?el = "filter is_eligible_matched rs" and ?el' = "filter is_eligible_matched rs'"
  have el: "mset ?el = mset ?el'" using rs'(2) by simp
  have dist: "distinct (map rr_rule_id rs)" using ids by (simp add: attach_ids [OF rs])
  have dist_el: "distinct (map rr_rule_id ?el)" using dist by (simp add: distinct_map_filter)
  from run obtain res where pi: "proven_independence rk ?el = Inr res"
    by (auto simp: aggregate_eligible_def rs rbind_eq_Inr Let_def)
  have gov: "select_governing ?el' = select_governing ?el" by (rule governing_perm [OF el dist_el, symmetric])
  have sev: "decision_severity ?el' = decision_severity ?el" by (rule decision_severity_perm [OF el, symmetric])
  have len: "length ?el' = length ?el" using el by (rule mset_eq_length [symmetric])
  have cls: "classify support ?el' rs' conf b False = classify support ?el rs conf b False" for conf
    by (rule classify_perm [OF rs'(2)]) (metis el mset_zero_iff)
  have asm: "assemble support cl sev st risk conf corr g why
        (filter is_eligible_matched (map (mark_governing i w c) rs')) (map (mark_governing i w c) rs') b es' pf =
      assemble support cl sev st risk conf corr g why
        (filter is_eligible_matched (map (mark_governing i w c) rs)) (map (mark_governing i w c) rs) b es pf"
    for cl sev st risk conf corr g why i w c
    using assemble_perm [of "filter is_eligible_matched (map (mark_governing i w c) rs)"
        "filter is_eligible_matched (map (mark_governing i w c) rs')" "map (mark_governing i w c) rs"
        "map (mark_governing i w c) rs'" es es' support cl sev st risk conf corr g why b "[]" pf]
      rs'(2) dist es by (simp add: filter_map comp_def)
  show ?thesis
    using run unfolding aggregate_eligible_def rs rs'(1) rbind_simps Let_def gov sev len cls asm pi
      proven_independence_perm [OF pi el] .
qed

theorem aggregate_perm:
  assumes run: "aggregate_decision ok eok rk pf support rs we = Inr d" and rs: "mset rs = mset rs'"
  shows "aggregate_decision ok eok rk pf support rs' we = Inr d"
proof -
  have tail: "aggregate_decision ok eok rk pf support zs we =
     (if we \<noteq> [] \<or> \<not> evaluable support then
        Inr (assemble support (classify support [] zm None (list_ex is_degraded zm) (we \<noteq> []))
          NONE NO_STRENGTH NONE None (no_corroboration NONE) None None [] zm (list_ex is_degraded zm)
          (we @ List.map_filter rule_error zm) pf)
      else if filter is_eligible_matched zm = [] then
        Inr (assemble support (classify support [] zm None (list_ex is_degraded zm) False)
          NONE NO_STRENGTH NONE None
          (corroboration_no_fire zm (classify support [] zm None (list_ex is_degraded zm) False))
          None None [] zm (list_ex is_degraded zm) (we @ List.map_filter rule_error zm) pf)
      else aggregate_eligible rk pf support zm (list_ex is_degraded zm) (we @ List.map_filter rule_error zm))"
    if "prepared ok rk zs zm" "list_all eok we" for zs zm
  proof -
    from that(1) obtain us where "map_res (validate_and_canonical_copy ok) zs = Inr zm"
      "map_res (check_semantic_invariants rk) zm = Inr us" "check_duplicates zm [] = Inr ()"
      using map_res_unit [of "check_semantic_invariants rk" zm]
      by (auto simp: prepared_def check_duplicates_distinct)
    then show ?thesis
      using that(2) by (auto simp: aggregate_decision_def guard_def agg_boundary_def Let_def)
  qed
  from run obtain ms where e: "list_all eok we" and p: "prepared ok rk rs ms" by (rule aggregate_cases) blast+
  from prepared_perm [OF p rs] obtain ms' where p': "prepared ok rk rs' ms'" and ms: "mset ms = mset ms'"
    by metis
  have dist: "distinct (map rr_rule_id ms)" using p by (simp add: prepared_def)
  have ex: "list_ex P ms' = list_ex P ms" for P by (rule perm_ex [OF ms, symmetric])
  have el: "(filter is_eligible_matched ms' = []) = (filter is_eligible_matched ms = [])"
    by (metis ms mset_filter mset_zero_iff)
  have es: "mset (List.map_filter rule_error ms) = mset (List.map_filter rule_error ms')"
    by (rule map_filter_perm [OF ms])
  have cls: "classify support [] ms' c dg w = classify support [] ms c dg w" for c dg w
    by (rule classify_perm [OF ms [symmetric]]) simp
  have asm: "assemble support cl sev st risk conf corr g why [] ms' dg (we @ List.map_filter rule_error ms') pf =
      assemble support cl sev st risk conf corr g why [] ms dg (we @ List.map_filter rule_error ms) pf"
    for cl sev st risk conf corr g why dg
    by (rule assemble_perm [OF refl ms dist es rule_error_inj, symmetric])
  have cnf: "corroboration_no_fire ms' c = corroboration_no_fire ms c" for c
    by (simp add: corroboration_no_fire_def has_unresolved_harmful_def has_residual_observed_positive_def ex)
  show ?thesis
  proof (cases "we \<noteq> [] \<or> \<not> evaluable support \<or> filter is_eligible_matched ms = []")
    case True
    then show ?thesis using run unfolding tail [OF p e] tail [OF p' e] ex cls asm el cnf by auto
  next
    case False
    then have we: "we = []" and eg: "aggregate_eligible rk pf support ms (list_ex is_degraded ms)
        (List.map_filter rule_error ms) = Inr d"
      using run unfolding tail [OF p e] by auto
    show ?thesis
      using aggregate_eligible_perm [OF eg ms dist es rule_error_inj] False
      unfolding tail [OF p' e] ex el by auto
  qed
qed

end
