(* ===== verification/Pipeline.thy ===== *)
theory Pipeline
  imports OrderIndependence
begin

text \<open>
  The stages composed. What the evaluator and the suppression stage hand on is always a result the
  aggregation accepts (\<open>sound_result\<close>), so a governed bundle and a valid input always give a
  decision; and a scam decision rests on a published composite rule with live evidence.
\<close>

section \<open>Results the aggregation accepts\<close>

definition sound_result :: "runtime_knowledge \<Rightarrow> rule_result \<Rightarrow> bool" where
  "sound_result rk r \<longleftrightarrow>
     rr_required r \<in> set (required_for_state (rr_state r)) \<and>
     (if rr_state r = NOT_APPLICABLE then \<exists>c m. rr_error r = Some (c, m) \<and> c \<noteq> [] else rr_error r = None) \<and>
     (is_composite r \<longrightarrow> rr_state r \<noteq> NOT_APPLICABLE \<longrightarrow> rr_verdict r \<noteq> None) \<and>
     (is_composite r \<longrightarrow> rr_state r = MATCHED \<longrightarrow> (\<exists>l\<in>set SEVERITY_ORDER. rr_effective r = Some l)) \<and>
     (\<forall>i\<in>set (rr_matched_positive r). rk_indicator rk i \<noteq> None) \<and>
     (\<forall>i\<in>set (rr_neutralised r). rk_indicator rk i \<noteq> None) \<and>
     (\<forall>n\<in>set (rr_matched_negative r). rk_negative rk n \<noteq> None) \<and>
     (\<forall>v\<in>set (rr_overrides r). rk_override rk v \<noteq> None) \<and>
     fst ` set (rr_provenance r) \<subseteq> set (rr_matched_positive r) \<and>
     \<not> has_wp5_fields r \<and>
     (\<forall>su cs. rr_suppression r = Some su \<longrightarrow> su_caps_applied su = Some cs \<longrightarrow> NONE \<notin> set cs)"

lemma check_semantic_iff:
  "check_semantic_invariants rk r = Inr () \<longleftrightarrow>
     rr_required r \<in> set (required_for_state (rr_state r)) \<and>
     (if rr_state r = NOT_APPLICABLE then \<exists>c m. rr_error r = Some (c, m) \<and> c \<noteq> [] else rr_error r = None) \<and>
     (is_composite r \<longrightarrow> rr_state r \<noteq> NOT_APPLICABLE \<longrightarrow> rr_verdict r \<noteq> None) \<and>
     (is_composite r \<longrightarrow> rr_state r = MATCHED \<longrightarrow> (\<exists>l\<in>set SEVERITY_ORDER. rr_effective r = Some l)) \<and>
     (\<forall>i\<in>set (rr_matched_positive r). rk_indicator rk i \<noteq> None) \<and>
     (\<forall>i\<in>set (rr_neutralised r). rk_indicator rk i \<noteq> None) \<and>
     (\<forall>n\<in>set (rr_matched_negative r). rk_negative rk n \<noteq> None) \<and>
     (\<forall>v\<in>set (rr_overrides r). rk_override rk v \<noteq> None) \<and>
     fst ` set (rr_provenance r) \<subseteq> set (rr_matched_positive r)"
proof -
  have e: "(case rr_error r of None \<Rightarrow> False | Some (code, _) \<Rightarrow> code \<noteq> []) =
      (\<exists>c m. rr_error r = Some (c, m) \<and> c \<noteq> [])"
    by (cases "rr_error r") auto
  have l: "(case rr_effective r of None \<Rightarrow> False | Some l \<Rightarrow> l \<in> set SEVERITY_ORDER) =
      (\<exists>l\<in>set SEVERITY_ORDER. rr_effective r = Some l)"
    by (cases "rr_effective r") auto
  show ?thesis
    unfolding check_semantic_invariants_def e l by (auto simp: rbind_eq_Inr list_all_iff)
qed

lemma sound_semantic: "sound_result rk r \<Longrightarrow> check_semantic_invariants rk r = Inr ()"
  unfolding sound_result_def check_semantic_iff by blast

lemma canonical_provenance_keys: "fst ` set (canonical_provenance prov) = fst ` set prov"
  by (simp add: canonical_provenance_def image_image)

lemma sound_copy:
  assumes "sound_result rk r" "ok r"
  shows "\<exists>m. validate_and_canonical_copy ok r = Inr m \<and> check_semantic_invariants rk m = Inr ()"
proof -
  have caps: "\<forall>su cs. rr_suppression r = Some su \<longrightarrow> su_caps_applied su = Some cs \<longrightarrow> NONE \<notin> set cs"
    "\<not> has_wp5_fields r"
    using assms(1) by (simp_all add: sound_result_def)
  have "\<exists>su. canonical_caps (rr_suppression r) = Inr su"
    using caps(1) by (auto simp: canonical_caps_def split: option.split)
  then obtain m where m: "validate_and_canonical_copy ok r = Inr m"
    using assms(2) caps(2) by (auto simp: validate_and_canonical_copy_def guard_def)
  have "check_semantic_invariants rk m = Inr ()"
    using assms(1)
    unfolding check_semantic_iff copy_fields [OF m] copy_predicates [OF m] sound_result_def
      sorted_unique_props canonical_provenance_keys by blast
  with m show ?thesis by blast
qed

section \<open>The evaluator's results are sound\<close>

text \<open>What the schema of rules and indicators demands and the pipeline relies on.\<close>

definition governed_rule :: "rule \<Rightarrow> bool" where
  "governed_rule r \<longleftrightarrow> (ru_kind r = COMPOSITE \<longrightarrow> ru_verdict r \<noteq> None \<and>
     (\<exists>d. ru_severity r = Some d \<and> d \<noteq> NONE))"

definition governed_knowledge :: "runtime_knowledge \<Rightarrow> bool" where
  "governed_knowledge rk \<longleftrightarrow> wf_knowledge rk \<and> list_all (\<lambda>(_, r). governed_rule r) (rules_by_id rk) \<and>
     list_all (\<lambda>(_, i). indicator_strength (in_strength i) \<noteq> None) (indicators_by_id rk)"

lemma positive_ids_resolve: "i \<in> set (positive_ids rk) \<longleftrightarrow> rk_indicator rk i \<noteq> None"
  by (simp add: positive_ids_def rk_indicator_def map_of_eq_None_iff)

lemma negative_ids_resolve: "n \<in> set (negative_ids rk) \<longleftrightarrow> rk_negative rk n \<noteq> None"
  by (simp add: negative_ids_def rk_negative_def map_of_eq_None_iff)

lemma entry_keys: "fst ` set (List.map_filter (groups_entry lp) xs) \<subseteq> set xs"
  by (induction xs) (auto simp: List.map_filter_simps groups_entry_def split: option.splits if_splits)

lemma composite_sound:
  assumes ev: "evaluate_composite rk pf r rid rver ctx = Inr res" and gr: "governed_rule r"
    and k: "ru_kind r = COMPOSITE"
  shows "sound_result rk res"
proof (rule composite_cases [OF ev])
  fix logic min_classes active blocked targets pt ne lp ops
  assume s: "active_overrides rk rid (rule_categories r) (truth (fst (positive_truth_map rk pf ctx))) =
       Inr (active, blocked)"
    "rr_matched_negative res = matched_negatives rk pf ctx (rule_categories r)"
    "execute_suppression pf ctx targets (positive_truth_map rk pf ctx) = (pt, ne, lp)"
    "rr_matched_positive res =
       filter (\<lambda>o'. o' \<in> set (positive_ids rk) \<and> truth pt o' = TRUE) (sorted_unique ops)"
    "rr_state res = composite_state (rr_required res) (min_classes \<le> int (length (rr_classes res)))"
    "rr_neutralised res = sorted_unique ne" "rr_overrides res = active"
    "effective_of r = Inr (rr_effective res)"
    "rr_provenance res = List.map_filter (groups_entry lp) (rr_matched_positive res)"
    "suppression_candidates rk (rr_matched_negative res) blocked (active \<noteq> []) = Inr (rr_suppression res)"
    "rr_governing res = None" "rr_governing_reason res = None" "rr_strength res = None"
    "rr_detection_confidence res = None" "rr_verdict res = ru_verdict r" "rr_error res = None"
  obtain d where d: "ru_verdict r \<noteq> None" "ru_severity r = Some d" "d \<noteq> NONE"
    using gr k by (auto simp: governed_rule_def)
  from effective_of_valid [OF s(8) d(2,3)] obtain l where l: "rr_effective res = Some l" "l \<in> set SEVERITY_ORDER"
    by blast
  have req: "rr_required res \<in> set (required_for_state (rr_state res))" "rr_state res \<noteq> NOT_APPLICABLE"
    unfolding s(5) by (cases "rr_required res"; simp add: composite_state_def)+
  have neu: "rk_indicator rk i \<noteq> None" if "i \<in> set ne" for i
  proof -
    obtain v q n g where "combine_positive pf ctx i (suppressors_of targets i) = (v, q, n, g)"
      by (metis prod_cases4)
    from truth_executed(2) [OF s(3) this] that show ?thesis
      by (simp add: present_positive_def positive_ids_resolve)
  qed
  have neg: "rk_negative rk n \<noteq> None" if "n \<in> set (rr_matched_negative res)" for n
    using that by (auto simp: s(2) matched_negatives_def negative_applies_def split: option.splits)
  have ovr: "\<forall>v\<in>set active. rk_override rk v \<noteq> None"
  proof -
    obtain new where "active = [] @ new" "\<forall>n\<in>set new. rk_override rk n \<noteq> None"
      using overrides_loop_spec [OF s(1) [unfolded active_overrides_def]] by blast
    then show ?thesis by simp
  qed
  have prov: "fst ` set (rr_provenance res) \<subseteq> set (rr_matched_positive res)"
    unfolding s(9) by (rule entry_keys)
  have caps: "su_caps_applied su = None" if "rr_suppression res = Some su" for su
    using s(10) that by (auto simp: suppression_candidates_def rbind_eq_Inr no_suppression_def split: if_splits)
  have pos: "\<forall>i\<in>set (rr_matched_positive res). rk_indicator rk i \<noteq> None"
    unfolding s(4) by (simp add: positive_ids_resolve)
  have neu': "\<forall>i\<in>set (rr_neutralised res). rk_indicator rk i \<noteq> None"
    unfolding s(6) sorted_unique_props using neu by blast
  have sev: "\<exists>l\<in>set SEVERITY_ORDER. rr_effective res = Some l" using l by blast
  have wp5: "\<not> has_wp5_fields res" by (simp add: has_wp5_fields_def s(11-14))
  have err: "if rr_state res = NOT_APPLICABLE then \<exists>c m. rr_error res = Some (c, m) \<and> c \<noteq> []
      else rr_error res = None"
    using req(2) s(16) by simp
  have verd: "is_composite res \<longrightarrow> rr_state res \<noteq> NOT_APPLICABLE \<longrightarrow> rr_verdict res \<noteq> None"
    using d(1) s(15) by simp
  have eff: "is_composite res \<longrightarrow> rr_state res = MATCHED \<longrightarrow> (\<exists>l\<in>set SEVERITY_ORDER. rr_effective res = Some l)"
    using sev by blast
  have neg': "\<forall>n\<in>set (rr_matched_negative res). rk_negative rk n \<noteq> None" using neg by blast
  have caps': "\<forall>su cs. rr_suppression res = Some su \<longrightarrow> su_caps_applied su = Some cs \<longrightarrow> NONE \<notin> set cs"
    using caps by simp
  show ?thesis
    unfolding sound_result_def
    using req(1) err verd eff pos neu' neg' ovr [folded s(7)] prov wp5 caps' by (intro conjI)
qed

lemma suppression_path_sound:
  assumes "evaluate_suppression rk pf r rid rver ctx = Inr res"
  shows "sound_result rk res \<and> rr_kind res = SUPPRESSION"
proof -
  obtain req ops neg where s: "neg = filter (\<lambda>o'. truth (negative_truth_map rk pf ctx) o' = TRUE) (sorted_unique ops)"
    "res = (let result = (blank_result rid rver SUPPRESSION (state_of_truth req) req)
                \<lparr>rr_verdict := ru_verdict r, rr_matched_negative := neg,
                 rr_refs := collect_refs [] neg ctx\<rparr>
            in if state_of_truth req = MATCHED then attach_match_provenance result r else result)"
    using assms by (auto simp: evaluate_suppression_def rbind_eq_Inr Let_def split: json.splits)
  have "rk_negative rk n \<noteq> None" if "n \<in> set neg" for n
  proof -
    have "map_of (negative_truth_map rk pf ctx) n \<noteq> None"
      using that by (auto simp: s(1) truth_def split: option.splits)
    then show ?thesis
      by (auto simp: negative_truth_map_def map_of_tabulate negative_ids_resolve split: if_splits)
  qed
  then show ?thesis
    unfolding s(2) by (cases req) (auto simp: sound_result_def is_composite_def has_wp5_fields_def blank_result_def Let_def)
qed

lemma not_applicable_sound: "c \<noteq> [] \<Longrightarrow> sound_result rk (not_applicable rid rver k c m)"
  by (simp add: sound_result_def not_applicable_def blank_result_def is_composite_def has_wp5_fields_def)

lemma evaluate_validated_sound:
  assumes "governed_knowledge rk" "evaluate_validated rk pf rid ctx = Inr res"
  shows "sound_result rk res"
proof (cases "rk_rule rk rid")
  case None
  then show ?thesis using assms(2) by (auto simp: evaluate_validated_def intro!: not_applicable_sound)
next
  case (Some r)
  have gr: "governed_rule r"
    using assms(1) Some by (auto simp: governed_knowledge_def list_all_iff rk_rule_def dest!: map_of_SomeD)
  have body: "sound_result rk x" if "evaluate_rule_body rk pf r a b (ru_kind r) ctx = Inr x" for x a b
    using that composite_sound [OF _ gr] suppression_path_sound not_applicable_sound
    by (cases "ru_kind r") (auto simp: evaluate_rule_body_def rbind_eq_Inr split: json.splits if_splits)
  then have "sound_result rk x" if "run_isolated rk pf r a b (ru_kind r) ctx = Inr x" for x a b
    using that by (auto simp: run_isolated_def not_applicable_sound split: sum.splits exc.splits if_splits)
  then show ?thesis
    using assms(2) Some by (auto simp: evaluate_validated_def not_applicable_sound split: if_splits)
qed

section \<open>The suppression stage keeps results sound\<close>

lemma canonicalize_caps:
  "su_caps_applied (canonicalize_suppression su) = Some cs \<Longrightarrow>
     \<exists>cs'. su_caps_applied su = Some cs' \<and> set cs = set cs'"
  by (cases "su_caps_applied su") (auto simp: canonicalize_suppression_def split: if_splits)

lemma canonicalize_sound:
  assumes "sound_result rk r"
  shows "sound_result rk (canonicalize_result r)"
proof -
  have caps: "\<forall>su cs. rr_suppression r = Some su \<longrightarrow> su_caps_applied su = Some cs \<longrightarrow> NONE \<notin> set cs"
    using assms by (simp add: sound_result_def)
  have caps': "\<forall>su cs. rr_suppression (canonicalize_result r) = Some su \<longrightarrow> su_caps_applied su = Some cs \<longrightarrow> NONE \<notin> set cs"
    using caps by (fastforce dest: canonicalize_caps)
  have f: "rr_verdict (canonicalize_result r) = rr_verdict r" "rr_error (canonicalize_result r) = rr_error r"
    "set (rr_matched_positive (canonicalize_result r)) = set (rr_matched_positive r)"
    "set (rr_neutralised (canonicalize_result r)) = set (rr_neutralised r)"
    "set (rr_overrides (canonicalize_result r)) = set (rr_overrides r)"
    "rr_provenance (canonicalize_result r) = rr_provenance r"
    by (simp_all add: canonicalize_result_def)
  show ?thesis
    using assms caps'
    unfolding sound_result_def is_composite_def f canonicalize_fields(3-7,10) sorted_unique_props(1)
    by blast
qed

lemma cap_level_order: "cap_level j = Some c \<Longrightarrow> c \<in> set SEVERITY_ORDER"
  by (cases j) (auto simp: SEVERITY_ORDER_def split: if_splits)

lemma surviving_cap_level: "surviving_cap rk cats n c \<Longrightarrow> c \<in> set SEVERITY_ORDER"
  by (auto simp: surviving_cap_def split: option.splits dest: cap_level_order)

lemma apply_effects_sound:
  assumes r: "sound_result rk r" and ap: "apply_effects rk r = Inr r'"
  shows "sound_result rk r'"
proof (cases "rr_kind r = COMPOSITE \<and> rr_state r = MATCHED")
  case False
  then have "r' = canonicalize_result r" using ap apply_effects_pass [of r rk] by (auto split: if_splits)
  then show ?thesis using canonicalize_sound [OF r] by simp
next
  case True
  obtain cats base where o: "rr_required r = TRUE" "rr_effective r = Some base"
    "rr_state r' = SUPPRESSED \<or> rr_state r' = MATCHED"
    "rr_effective r' =
       Some (Min (insert base {c. \<exists>n\<in>set (rr_matched_negative r). surviving_cap rk cats n c}))"
    by (rule apply_effects_outcome [OF ap]) (use True in \<open>auto split: if_splits\<close>)
  obtain ef eff st where r': "r' = (canonicalize_result r)\<lparr>rr_effective := eff, rr_state := st,
       rr_suppression := Some (attach_suppression ef)\<rparr>"
    by (rule apply_effects_act [OF ap]) (use True in auto)
  let ?C = "{c. \<exists>n\<in>set (rr_matched_negative r). surviving_cap rk cats n c}"
  have "base \<in> set SEVERITY_ORDER" using r o(2) True by (simp add: sound_result_def is_composite_def)
  moreover have "Min (insert base ?C) \<in> insert base ?C"
    by (rule Min_in) (simp_all add: surviving_caps_finite)
  ultimately have eff: "Min (insert base ?C) \<in> set SEVERITY_ORDER" using surviving_cap_level by auto
  have caps: "\<forall>su cs. rr_suppression r' = Some su \<longrightarrow> su_caps_applied su = Some cs \<longrightarrow> NONE \<notin> set cs"
    unfolding r' by (auto simp: attach_suppression_def Let_def some_if_nonempty_def split: if_splits)
  have fields: "rr_required r' = rr_required r" "rr_error r' = rr_error r" "rr_verdict r' = rr_verdict r"
    "rr_kind r' = rr_kind r" "set (rr_matched_positive r') = set (rr_matched_positive r)"
    "set (rr_neutralised r') = set (rr_neutralised r)" "set (rr_matched_negative r') = set (rr_matched_negative r)"
    "set (rr_overrides r') = set (rr_overrides r)" "rr_provenance r' = rr_provenance r"
    "has_wp5_fields r' = has_wp5_fields r"
    by (simp_all add: r' canonicalize_result_def has_wp5_fields_def)
  have st: "rr_required r' \<in> set (required_for_state (rr_state r'))" "rr_state r' \<noteq> NOT_APPLICABLE"
    using o(1,3) fields(1) by auto
  have "rr_error r = None" using r True by (simp add: sound_result_def)
  then have err: "if rr_state r' = NOT_APPLICABLE then \<exists>c m. rr_error r' = Some (c, m) \<and> c \<noteq> [] else rr_error r' = None"
    using st(2) fields(2) by simp
  show ?thesis
    using r st(1) err eff o(4) caps unfolding sound_result_def fields is_composite_def
    by (simp add: True)
qed

lemma degraded_sound: "sound_result rk (degraded_result r m)"
  by (cases "rr_required r")
    (simp_all add: sound_result_def degraded_result_def blank_result_def is_composite_def has_wp5_fields_def)

lemma apply_suppression_sound:
  "sound_result rk r \<Longrightarrow> apply_suppression rk r = Inr r' \<Longrightarrow> sound_result rk r'"
  by (erule apply_suppression_cases) (auto intro: apply_effects_sound degraded_sound)

section \<open>A decision is always returned\<close>

lemma governed_strength_total:
  "governed_knowledge rk \<Longrightarrow> rk_indicator rk i \<noteq> None \<Longrightarrow> \<exists>s. governed_strength rk i = Inr s"
  by (auto simp: governed_knowledge_def governed_strength_def rk_indicator_def list_all_iff
      dest!: map_of_SomeD split: option.split)

lemma weak_least: "s \<noteq> NO_STRENGTH \<longleftrightarrow> WEAK \<le> s"
  by (cases s) (simp_all add: strength_order)

lemma rule_strength_total:
  assumes "governed_knowledge rk" "\<forall>i\<in>set (rr_matched_positive r). rk_indicator rk i \<noteq> None"
  shows "\<exists>s. rule_evidence_strength rk r = Inr s \<and> s \<noteq> NO_STRENGTH"
proof -
  have "\<exists>e. map_res (governed_strength rk) (rr_matched_positive r) = Inl e \<Longrightarrow> False"
    using governed_strength_total [OF assms(1)] assms(2) unfolding map_res_Inl_iff by force
  then obtain ss where ss: "map_res (governed_strength rk) (rr_matched_positive r) = Inr ss"
    by (cases "map_res (governed_strength rk) (rr_matched_positive r)") auto
  have "WEAK \<le> fold max ss WEAK" by (simp add: Max.set_eq_fold [symmetric])
  moreover have "WEAK \<le> verdict_strength_cap (rr_verdict r)"
    by (simp add: verdict_strength_cap_def strength_order split: option.split evidence_verdict.split)
  ultimately have "WEAK \<le> min (fold max ss WEAK) (verdict_strength_cap (rr_verdict r))" by simp
  then show ?thesis
    by (auto simp: rule_evidence_strength_def ss Let_def weak_least intro: max.coboundedI1)
qed

lemma entries_total:
  assumes "\<forall>r\<in>set rs. \<forall>i\<in>set (rr_matched_positive r). rk_indicator rk i \<noteq> None"
  shows "\<exists>es. independence_entries rk rs = Inr es"
proof -
  have "\<exists>e. indicator_entries rk r i = Inr e" if "r \<in> set rs" "i \<in> set (rr_matched_positive r)" for r i
    using assms that by (auto simp: indicator_entries_def split: option.split)
  then have "\<not> (\<exists>e. map_res (indicator_entries rk r) (rr_matched_positive r) = Inl e)" if "r \<in> set rs" for r
    using that unfolding map_res_Inl_iff by force
  then have "\<not> (\<exists>e. map_res (\<lambda>r. map_res (indicator_entries rk r) (rr_matched_positive r)) rs = Inl e)"
    unfolding map_res_Inl_iff by blast
  then obtain ess where "map_res (\<lambda>r. map_res (indicator_entries rk r) (rr_matched_positive r)) rs = Inr ess"
    by (cases "map_res (\<lambda>r. map_res (indicator_entries rk r) (rr_matched_positive r)) rs") auto
  then show ?thesis by (simp add: independence_entries_def)
qed

lemma risk_total: "sev \<noteq> NONE \<Longrightarrow> st \<noteq> NO_STRENGTH \<Longrightarrow> \<exists>r. risk_level sev st = Inr r"
  by (cases sev; cases st) (simp_all add: risk_level_def)

lemma aggregate_eligible_total:
  assumes gk: "governed_knowledge rk"
    and pos: "\<forall>m\<in>set ms. \<forall>i\<in>set (rr_matched_positive m). rk_indicator rk i \<noteq> None"
    and elig: "filter is_eligible_matched ms \<noteq> []"
  shows "\<exists>d. aggregate_eligible rk pf support ms b es = Inr d"
proof -
  have "\<exists>r'. attach_strength rk m = Inr r'" if "m \<in> set ms" for m
    using rule_strength_total [OF gk] pos that by (fastforce simp: attach_strength_def)
  then have "\<not> (\<exists>e. map_res (attach_strength rk) ms = Inl e)" unfolding map_res_Inl_iff by force
  then obtain rs where rs: "map_res (attach_strength rk) ms = Inr rs"
    by (cases "map_res (attach_strength rk) ms") auto
  let ?el = "filter is_eligible_matched rs"
  have l2: "list_all2 (\<lambda>r r'. attach_strength rk r = Inr r') ms rs" using rs by (simp add: map_res_Inr_iff)
  then have el: "?el \<noteq> []"
    using elig by (induction rule: list_all2_induct) (auto dest: attach_strength_same(1))
  have orig: "\<exists>m\<in>set ms. attach_strength rk m = Inr r" if "r \<in> set rs" for r
    using map_res_set [OF rs that] by blast
  have "\<forall>r\<in>set ?el. \<forall>i\<in>set (rr_matched_positive r). rk_indicator rk i \<noteq> None"
    using orig pos by (fastforce dest: attach_strength_same(6))
  from entries_total [OF this] obtain entries where en: "independence_entries rk ?el = Inr entries" by blast
  obtain n classes shared where pi: "proven_independence rk ?el = Inr (n, classes, shared)"
    by (rule proven_independence_graph [OF en]) blast
  have gin: "select_governing ?el \<in> set ?el" by (rule select_governing_min(1) [OF el])
  then obtain g0 where g0: "g0 \<in> set ms" "attach_strength rk g0 = Inr (select_governing ?el)"
    using orig by auto
  have "is_eligible_matched g0" using attach_strength_same(1) [OF g0(2)] gin by simp
  from attach_strength_fields(2) [OF g0(2) this] rule_strength_total [OF gk] pos g0(1)
  obtain s where s: "rr_strength (select_governing ?el) = Some s" "s \<noteq> NO_STRENGTH" by force
  have "decision_severity ?el \<noteq> NONE" by (rule decision_severity_Max(2)) (use el in simp_all)
  from risk_total [OF this s(2)] obtain risk where "risk_level (decision_severity ?el) s = Inr risk" by blast
  then show ?thesis by (simp add: aggregate_eligible_def rs pi s(1) Let_def)
qed

lemma aggregate_total:
  assumes gk: "governed_knowledge rk" and ok: "list_all ok rs" and eok: "list_all eok we"
    and sound: "\<forall>r\<in>set rs. sound_result rk r" and ids: "distinct (map rr_rule_id rs)"
  shows "\<exists>d. aggregate_decision ok eok rk pf support rs we = Inr d"
proof -
  have copy: "\<exists>m. validate_and_canonical_copy ok r = Inr m \<and> check_semantic_invariants rk m = Inr ()"
    if "r \<in> set rs" for r
    using sound_copy [of rk r ok] sound ok that by (simp add: list_all_iff)
  then have "\<not> (\<exists>e. map_res (validate_and_canonical_copy ok) rs = Inl e)" unfolding map_res_Inl_iff by force
  then obtain ms where ms: "map_res (validate_and_canonical_copy ok) rs = Inr ms"
    by (cases "map_res (validate_and_canonical_copy ok) rs") auto
  have sem: "\<forall>m\<in>set ms. check_semantic_invariants rk m = Inr ()"
    using copy map_res_set [OF ms] by force
  then obtain us where us: "map_res (check_semantic_invariants rk) ms = Inr us"
    using map_res_unit [of "check_semantic_invariants rk" ms] by blast
  have "list_all2 (\<lambda>r m. validate_and_canonical_copy ok r = Inr m) rs ms" using ms by (simp add: map_res_Inr_iff)
  then have "map rr_rule_id ms = map rr_rule_id rs"
    by (induction rule: list_all2_induct) (simp_all add: copy_fields(1))
  then have dup: "check_duplicates ms [] = Inr ()" using ids by (simp add: check_duplicates_distinct)
  have pos: "\<forall>m\<in>set ms. \<forall>i\<in>set (rr_matched_positive m). rk_indicator rk i \<noteq> None"
    using sem by (simp add: check_semantic_iff)
  show ?thesis
    using aggregate_eligible_total [OF gk pos]
    by (auto simp: aggregate_decision_def eok guard_def ms us dup agg_boundary_def Let_def)
qed

theorem pipeline_total:
  assumes gk: "governed_knowledge rk"
    and ctx: "build_validated_context io_ok obs_ok inds obs lang scr = Inr ctx"
    and ok: "\<And>r. sound_result rk r \<Longrightarrow> ok r" and eok: "list_all eok we"
  shows "\<exists>d. evaluate_decision_from_governed io_ok obs_ok ok eok rk pf inds obs support lang scr we = Inr d"
proof -
  have wf: "wf_knowledge rk" using gk by (simp add: governed_knowledge_def)
  from evaluate_rules_total [OF wf ctx] obtain rs where
    rs: "evaluate_rules_from_governed io_ok obs_ok rk pf inds obs lang scr = Inr rs"
    and ids: "map rr_rule_id rs = published_rule_ids rk" by blast
  have sound: "\<forall>r\<in>set rs. sound_result rk r"
    using rs evaluate_validated_sound [OF gk] by (auto simp: evaluate_rules_from_governed_def ctx dest: map_res_set)
  from wp4.batch_total [of rk rs] obtain qs where qs: "map_res (apply_suppression rk) rs = Inr qs" by blast
  have sound': "\<forall>q\<in>set qs. sound_result rk q"
    using sound map_res_set [OF qs] by (blast intro: apply_suppression_sound)
  have "map rr_rule_id qs = published_rule_ids rk" using wp4.batch_ids [OF qs] ids by simp
  then have "distinct (map rr_rule_id qs)" by (simp add: published_rule_ids_def)
  from aggregate_total [OF gk _ eok sound' this] ok sound' show ?thesis
    by (simp add: evaluate_decision_from_governed_def evaluate_rules_with_suppression_from_governed_def
        rs apply_all_def qs list_all_iff)
qed

section \<open>What a scam decision rests on\<close>

lemma aggregate_scam_governing:
  assumes run: "aggregate_decision ok eok rk pf support rs we = Inr d"
  shows "dr_classification d \<in> {CL_SCAM_PATTERN_SUSPECTED, CL_SCAM_PATTERN_DETECTED} \<longleftrightarrow> dr_governing d \<noteq> None"
  using run
proof (cases rule: aggregate_cases)
  case (3 ms)
  show ?thesis by (rule aggregate_eligible_cases [OF 3(6,5,4)]) simp
qed (auto simp: assemble_def Let_def classify_def)

lemma eligible_collected:
  assumes "list_all2 (\<lambda>r a. is_eligible_matched a = is_eligible_matched r \<and> rr_rule_id a = rr_rule_id r \<and>
      set (rr_matched_positive a) = set (rr_matched_positive r)) rs as"
  shows "rr_rule_id ` set (filter is_eligible_matched as) = rr_rule_id ` set (filter is_eligible_matched rs)"
    "(\<Union>a\<in>set (filter is_eligible_matched as). set (rr_matched_positive a)) =
     (\<Union>r\<in>set (filter is_eligible_matched rs). set (rr_matched_positive r))"
  using assms by (induction rule: list_all2_induct) auto

lemma aggregate_collects:
  assumes run: "aggregate_decision ok eok rk pf support rs we = Inr d" and g: "dr_governing d \<noteq> None"
  shows "set (dr_matched_rules d) = rr_rule_id ` set (filter is_eligible_matched rs) \<and>
    set (dr_positive d) = (\<Union>r\<in>set (filter is_eligible_matched rs). set (rr_matched_positive r))"
  using run
proof (cases rule: aggregate_cases)
  case (3 ms)
  show ?thesis
  proof (rule aggregate_eligible_cases [OF 3(6,5,4)])
    fix as
    assume a: "map_res (attach_strength rk) ms = Inr as"
      "dr_matched_rules d = sorted_unique (map rr_rule_id (filter is_eligible_matched as))"
      "dr_positive d = collect rr_matched_positive (filter is_eligible_matched as)"
    have "list_all2 (\<lambda>r m. validate_and_canonical_copy ok r = Inr m) rs ms"
      "list_all2 (\<lambda>m a. attach_strength rk m = Inr a) ms as"
      using 3(2) a(1) by (simp_all add: prepared_def map_res_Inr_iff)
    then have "list_all2 (\<lambda>r a. is_eligible_matched a = is_eligible_matched r \<and> rr_rule_id a = rr_rule_id r \<and>
      set (rr_matched_positive a) = set (rr_matched_positive r)) rs as"
      by (rule list_all2_trans [rotated 1]) (simp add: copy_fields copy_predicates attach_strength_same)
    note eligible_collected [OF this]
    then show ?thesis by (simp add: a(2,3) collect_def del: set_filter)
  qed
qed (use g in \<open>auto simp: assemble_def Let_def\<close>)

lemma apply_suppression_matched:
  assumes "apply_suppression rk r = Inr r'" "rr_state r' = MATCHED"
  shows "rr_state r = MATCHED \<and> set (rr_matched_positive r') = set (rr_matched_positive r)"
  using assms(1)
proof (cases rule: apply_suppression_cases)
  case 1
  show ?thesis
  proof (cases "rr_kind r = COMPOSITE \<and> rr_state r = MATCHED")
    case True
    then obtain ef eff st where "r' = (canonicalize_result r)\<lparr>rr_effective := eff, rr_state := st,
       rr_suppression := Some (attach_suppression ef)\<rparr>"
      by - (rule apply_effects_act [OF 1], auto)
    then show ?thesis using True by (simp add: canonicalize_result_def)
  next
    case False
    then have "r' = canonicalize_result r" using 1 apply_effects_pass [of r rk] by (auto split: if_splits)
    then show ?thesis using assms(2) by (simp add: canonicalize_result_def)
  qed
qed (use assms(2) in simp)

lemma evaluate_validated_composite:
  assumes "evaluate_validated rk pf rid ctx = Inr res" "rr_state res = MATCHED" "rr_kind res = COMPOSITE"
  shows "\<exists>r. rk_rule rk rid = Some r \<and> ru_status r = Some ''PUBLISHED'' \<and> ru_kind r = COMPOSITE \<and>
    evaluate_composite rk pf r (ru_id r) (rule_version_text r) ctx = Inr res"
proof -
  obtain r where r: "rk_rule rk rid = Some r" "ru_status r = Some ''PUBLISHED''"
    using evaluate_validated_published [OF assms(1)] assms(2) by auto
  then have "run_isolated rk pf r (ru_id r) (rule_version_text r) (ru_kind r) ctx = Inr res"
    using assms(1) by (simp add: evaluate_validated_def)
  then have "evaluate_rule_body rk pf r (ru_id r) (rule_version_text r) (ru_kind r) ctx = Inr res"
    using assms(2) by (auto simp: run_isolated_def split: sum.splits exc.splits if_splits)
  then have "ru_kind r = COMPOSITE \<and> evaluate_composite rk pf r (ru_id r) (rule_version_text r) ctx = Inr res"
    using assms(2,3) suppression_path_sound [of rk pf r "ru_id r" "rule_version_text r" ctx res]
    by (cases "ru_kind r") (auto simp: evaluate_rule_body_def rbind_eq_Inr split: json.splits if_splits)
  with r show ?thesis by blast
qed

definition governed_condition :: "rule \<Rightarrow> bool" where
  "governed_condition r \<longleftrightarrow> (case ru_logic r of JObj logic \<Rightarrow> wf_condition (jget logic ''require'') | _ \<Rightarrow> True)"

lemma wp4_origin:
  assumes run: "evaluate_rules_with_suppression_from_governed io_ok obs_ok rk pf inds obs lang scr = Inr qs"
    and q: "q \<in> set qs"
  obtains ctx rid res where "build_validated_context io_ok obs_ok inds obs lang scr = Inr ctx"
    "rid \<in> set (published_rule_ids rk)" "evaluate_validated rk pf rid ctx = Inr res"
    "apply_suppression rk res = Inr q"
proof -
  from run obtain rs ctx where s: "build_validated_context io_ok obs_ok inds obs lang scr = Inr ctx"
    "map_res (\<lambda>rid. evaluate_validated rk pf rid ctx) (published_rule_ids rk) = Inr rs"
    "map_res (apply_suppression rk) rs = Inr qs"
    by (auto simp: evaluate_rules_with_suppression_from_governed_def evaluate_rules_from_governed_def
        apply_all_def rbind_eq_Inr)
  from map_res_set [OF s(3) q] obtain res where res: "res \<in> set rs" "apply_suppression rk res = Inr q" by blast
  from map_res_set [OF s(2) res(1)] obtain rid where
    "rid \<in> set (published_rule_ids rk)" "evaluate_validated rk pf rid ctx = Inr res" by blast
  with s(1) res(2) that show thesis by blast
qed

lemma eligible_origin:
  assumes wf: "wf_knowledge rk"
    and run: "evaluate_rules_with_suppression_from_governed io_ok obs_ok rk pf inds obs lang scr = Inr qs"
    and q: "q \<in> set qs" "is_eligible_matched q"
  obtains ctx r res where "build_validated_context io_ok obs_ok inds obs lang scr = Inr ctx"
    "rk_rule rk (rr_rule_id q) = Some r" "ru_status r = Some ''PUBLISHED''" "ru_kind r = COMPOSITE"
    "evaluate_composite rk pf r (rr_rule_id q) (rule_version_text r) ctx = Inr res" "rr_state res = MATCHED"
    "set (rr_matched_positive q) = set (rr_matched_positive res)"
proof (rule wp4_origin [OF run q(1)])
  fix ctx rid res
  assume s: "build_validated_context io_ok obs_ok inds obs lang scr = Inr ctx"
    "evaluate_validated rk pf rid ctx = Inr res" "apply_suppression rk res = Inr q"
  have m: "rr_state q = MATCHED" "rr_kind q = COMPOSITE"
    using q(2) by (simp_all add: is_eligible_matched_def is_composite_def)
  note m' = apply_suppression_matched [OF s(3) m(1)]
  have k: "rr_kind res = COMPOSITE" "rr_rule_id q = rr_rule_id res" using wp4.keeps [OF s(3)] m(2) by simp_all
  obtain r where r: "rk_rule rk rid = Some r" "ru_status r = Some ''PUBLISHED''" "ru_kind r = COMPOSITE"
    "evaluate_composite rk pf r (ru_id r) (rule_version_text r) ctx = Inr res"
    using evaluate_validated_composite [OF s(2)] m' k(1) by blast
  have id: "ru_id r = rid" by (rule wf_rule_id [OF wf r(1)])
  have "rr_rule_id res = ru_id r" by (rule composite_cases [OF r(4)]) simp
  then show thesis using that [OF s(1) _ r(2,3)] r(1,4) m' k(2) id by simp
qed

theorem pipeline_scam:
  assumes wf: "wf_knowledge rk" and conds: "list_all (\<lambda>(_, r). governed_condition r) (rules_by_id rk)"
    and run: "evaluate_decision_from_governed io_ok obs_ok ok eok rk pf inds obs support lang scr we = Inr d"
    and scam: "dr_classification d \<in> {CL_SCAM_PATTERN_SUSPECTED, CL_SCAM_PATTERN_DETECTED}"
  shows "\<exists>ctx gid r. build_validated_context io_ok obs_ok inds obs lang scr = Inr ctx \<and>
    dr_governing d = Some gid \<and> rk_rule rk gid = Some r \<and> ru_status r = Some ''PUBLISHED'' \<and>
    ru_kind r = COMPOSITE \<and> dr_positive d \<noteq> [] \<and>
    (\<forall>p\<in>set (dr_positive d). \<exists>io\<in>set (observations_for ctx p). live_evidence pf ctx [] io)"
proof -
  from run obtain qs where wp4: "evaluate_rules_with_suppression_from_governed io_ok obs_ok rk pf inds obs lang scr = Inr qs"
    and agg: "aggregate_decision ok eok rk pf support qs we = Inr d"
    by (auto simp: evaluate_decision_from_governed_def rbind_eq_Inr)
  have g: "dr_governing d \<noteq> None" using scam aggregate_scam_governing [OF agg] by blast
  then obtain gid where gid: "dr_governing d = Some gid" by blast
  obtain q where q: "q \<in> set qs" "is_eligible_matched q" "rr_rule_id q = gid"
    by (rule aggregate_governing [OF agg gid]) blast
  obtain ctx r res where r: "build_validated_context io_ok obs_ok inds obs lang scr = Inr ctx"
    "rk_rule rk gid = Some r" "ru_status r = Some ''PUBLISHED''" "ru_kind r = COMPOSITE"
    "evaluate_composite rk pf r gid (rule_version_text r) ctx = Inr res" "rr_state res = MATCHED"
    "set (rr_matched_positive q) = set (rr_matched_positive res)"
    using eligible_origin [OF wf wp4 q(1,2)] q(3) by metis
  obtain logic where logic: "ru_logic r = JObj logic" by (rule composite_cases [OF r(5)]) blast
  then have "wf_condition (jget logic ''require'')"
    using conds r(2) by (auto simp: list_all_iff governed_condition_def rk_rule_def dest!: map_of_SomeD)
  then have "rr_matched_positive res \<noteq> []" by (rule composite_matched_operand [OF r(5,6) logic])
  then have "set (rr_matched_positive q) \<noteq> {}" using r(7) by simp
  then have pos: "dr_positive d \<noteq> []"
    using aggregate_collects [OF agg g] q(1,2) by force
  have live: "\<exists>io\<in>set (observations_for ctx p). live_evidence pf ctx [] io" if p: "p \<in> set (dr_positive d)" for p
  proof -
    obtain q' where q': "q' \<in> set qs" "is_eligible_matched q'" "p \<in> set (rr_matched_positive q')"
      using aggregate_collects [OF agg g] p by auto
    obtain ctx' r' res' where r': "build_validated_context io_ok obs_ok inds obs lang scr = Inr ctx'"
      "evaluate_composite rk pf r' (rr_rule_id q') (rule_version_text r') ctx' = Inr res'"
      "set (rr_matched_positive q') = set (rr_matched_positive res')"
      using eligible_origin [OF wf wp4 q'(1,2)] by metis
    have "ctx' = ctx" using r(1) r'(1) by simp
    then have ev: "evaluate_composite rk pf r' (rr_rule_id q') (rule_version_text r') ctx = Inr res'"
      using r'(2) by simp
    have "p \<in> set (rr_matched_positive res')" using q'(3) r'(3) by simp
    from composite_matched_positive [OF ev this] obtain io where io: "io \<in> set (observations_for ctx p)"
      "live_evidence pf ctx (hard_suppressors rk pf ctx (rr_matched_negative res') p) io" by blast
    have "live_evidence pf ctx [] io" by (rule live_evidence_antimono [OF io(2)]) simp
    with io(1) show ?thesis by blast
  qed
  show ?thesis using r(1-4) gid pos live by blast
qed

theorem pipeline_clear:
  assumes wf: "wf_knowledge rk"
    and run: "evaluate_decision_from_governed io_ok obs_ok ok eok rk pf inds obs support lang scr we = Inr d"
    and clear: "dr_classification d = CL_NO_SCAM_PATTERN"
  shows "\<exists>qs. evaluate_rules_with_suppression_from_governed io_ok obs_ok rk pf inds obs lang scr = Inr qs \<and>
    map rr_rule_id qs = published_rule_ids rk \<and> we = [] \<and> evaluable support \<and>
    (\<forall>q\<in>set qs. \<not> is_eligible_matched q \<and> \<not> is_degraded q \<and> \<not> is_unresolved_harmful q) \<and>
    (\<exists>q\<in>set qs. is_benign_clear q)"
proof -
  from run obtain qs where wp4: "evaluate_rules_with_suppression_from_governed io_ok obs_ok rk pf inds obs lang scr = Inr qs"
    and agg: "aggregate_decision ok eok rk pf support qs we = Inr d"
    by (auto simp: evaluate_decision_from_governed_def rbind_eq_Inr)
  from wp4 obtain ctx rs where s: "build_validated_context io_ok obs_ok inds obs lang scr = Inr ctx"
    "evaluate_rules_from_governed io_ok obs_ok rk pf inds obs lang scr = Inr rs"
    "map_res (apply_suppression rk) rs = Inr qs"
    by (auto simp: evaluate_rules_with_suppression_from_governed_def evaluate_rules_from_governed_def
        apply_all_def rbind_eq_Inr)
  have "map rr_rule_id qs = published_rule_ids rk"
    using wp4.batch_ids [OF s(3)] evaluate_rules_total [OF wf s(1), of pf] s(2) by simp
  then show ?thesis
    using wp4 aggregate_classification [OF agg] clear
    by (auto simp: expected_classification_def list_ex_iff split: if_splits) (cases support; auto)
qed

end
