(* ===== verification/ExplanationProps.thy ===== *)
theory ExplanationProps
  imports Explanation Pipeline
begin

text \<open>
  What the explanation stage promises: nothing but \<open>ExplanationError\<close> leaves it; what it accepts is a
  consistent decision whose findings come from published rules and whose quoted sources are exactly
  the governed ones; it accepts every decision of the production pipeline; the recommended actions
  are exactly those the governed policy justifies.
\<close>

section \<open>Every exception is an ExplanationError\<close>

definition raises :: "(exc \<Rightarrow> bool) \<Rightarrow> 'a res \<Rightarrow> bool" where
  "raises P r \<longleftrightarrow> (\<forall>e. r = Inl e \<longrightarrow> P e)"

named_theorems raises_intros "the exceptions an operation may raise"

lemma raises_base [simp]: "raises P (Inr x)" "raises P (Inl e) = P e"
  by (simp_all add: raises_def)

lemma raises_rbind [raises_intros]:
  "raises P r \<Longrightarrow> (\<And>x. r = Inr x \<Longrightarrow> raises P (f x)) \<Longrightarrow> raises P (rbind r f)"
  by (cases r) simp_all

fun is_explanation_error :: "exc \<Rightarrow> bool" where
  "is_explanation_error (ExplanationError code m) = True"
| "is_explanation_error e = False"

definition expl_fault :: "exc \<Rightarrow> bool" where
  "expl_fault e \<longleftrightarrow> is_explanation_error e \<or> agg_fault e"

lemma expl_fault_eval [simp]:
  "expl_fault (ExplanationError code m)" "expl_fault (AttributeError m)" "expl_fault (TypeError m)"
  by (simp_all add: expl_fault_def)

lemma raises_checks [raises_intros]: "raises expl_fault (all_checks code cs)"
  by (induction code cs rule: all_checks.induct) simp_all

lemma raises_rollup [raises_intros]: "raises expl_fault (canonical_rollup f v)"
  by (simp add: canonical_rollup_def)

lemma raises_rollups [raises_intros]: "raises expl_fault (check_rollups l)"
  by (induction l rule: check_rollups.induct) (auto intro!: raises_intros)

lemma raises_semantic [raises_intros]:
  "raises expl_fault (case check_semantic_invariants rk r of
     Inl (AggregationError m) \<Rightarrow> Inl (ExplanationError code m) | res \<Rightarrow> res)"
  using agg_errors_check [of rk r]
  by (auto simp: agg_errors_def raises_def split: sum.splits exc.splits)

lemma raises_results [raises_intros]: "raises expl_fault (check_rule_results ok rk rs seen)"
  by (induction rs arbitrary: seen) (simp_all only: check_rule_results.simps, simp, intro raises_intros)

lemma raises_contributing [raises_intros]: "raises expl_fault (check_contributing rk live rids)"
  by (induction rids) simp_all

lemma raises_echoes [raises_intros]: "raises expl_fault (check_echoes rk live rs)"
  by (induction rs) simp_all

lemma raises_validate: "raises expl_fault (validate_explanation_input ok eok rk live d)"
  unfolding validate_explanation_input_def validate_wp5_rollups_def validate_classification_def Let_def
  by (intro raises_intros)

lemma raises_index: "raises expl_fault (index_observations os d)"
  by (induction os d rule: index_observations.induct)
    (auto simp: Let_def split: json.split)

lemma raises_render: "raises expl_fault (render_explanation rk live d obs)"
  unfolding render_explanation_def headline_def supporting_observations_def Let_def
  by (auto intro!: raises_intros raises_index split: option.split)

lemma explanation_errors:
  "build_explanation_core ok eok rk live d obs = Inl e \<Longrightarrow> \<exists>code m. e = ExplanationError code m"
proof -
  assume run: "build_explanation_core ok eok rk live d obs = Inl e"
  have "raises expl_fault (rbind (validate_explanation_input ok eok rk live d)
      (\<lambda>_. render_explanation rk live d obs))"
    by (intro raises_rbind raises_validate raises_render)
  with run show ?thesis
    by (auto simp: build_explanation_core_def explanation_boundary_def raises_def expl_fault_def
        split: sum.splits exc.splits if_splits)
qed

section \<open>What the boundary accepts\<close>

lemma check_rule_results_iff:
  "check_rule_results ok rk rs seen = Inr () \<longleftrightarrow>
     (\<forall>r\<in>set rs. ok r \<and> check_semantic_invariants rk r = Inr () \<and> rk_rule rk (rr_rule_id r) \<noteq> None) \<and>
     distinct (map rr_rule_id rs) \<and> set (map rr_rule_id rs) \<inter> set seen = {}"
proof (induction rs arbitrary: seen)
  case (Cons r rs)
  have sem: "(case check_semantic_invariants rk r of Inl (AggregationError m) \<Rightarrow> Inl (ExplanationError c m)
      | res \<Rightarrow> res) = Inr () \<longleftrightarrow> check_semantic_invariants rk r = Inr ()" for c
    by (auto split: sum.splits exc.splits)
  show ?case by (simp add: rbind_eq_Inr sem Cons.IH) blast
qed simp

lemma check_rollups_iff: "check_rollups l = Inr u \<longleftrightarrow> (\<forall>(f, v, w)\<in>set l. distinct v \<and> sort v = w)"
  by (induction l rule: check_rollups.induct) (auto simp: rbind_eq_Inr canonical_rollup_def)

lemma check_contributing_iff: "check_contributing rk live rids = Inr u \<longleftrightarrow> (\<forall>rid\<in>set rids. rule_lookup rk live rid \<noteq> None)"
  by (induction rids) auto

lemma sort_eq_iff: "sort xs = sort ys \<longleftrightarrow> mset xs = mset ys" for xs :: "'a::linorder list"
  by (metis mset_sort sorted_list_of_multiset_mset)

lemma echo_printed_floats: "printed_floats (echo_json e)"
  by (simp add: echo_json_def some_field_def split: option.split)

lemma map_of_sort_key:
  fixes kvs :: "'v dict"
  assumes "distinct (map fst kvs)"
  shows "map_of (sort_key fst kvs) = map_of kvs"
proof (rule map_of_eqI)
  show "set (map fst (sort_key fst kvs)) = set (map fst kvs)" by simp
  show "\<forall>k\<in>set (map fst (sort_key fst kvs)). map_of (sort_key fst kvs) k = map_of kvs k"
  proof
    fix k
    have "mset (map fst (sort_key fst kvs)) = mset (map fst kvs)" by simp
    then have d: "distinct (map fst (sort_key fst kvs))" using assms by (metis mset_eq_imp_distinct_iff)
    assume "k \<in> set (map fst (sort_key fst kvs))"
    then obtain v where "(k, v) \<in> set kvs" by auto
    then show "map_of (sort_key fst kvs) k = map_of kvs k" using assms d by simp
  qed
qed

definition echo_fields :: "source_echo \<Rightarrow> json dict" where
  "echo_fields e = (case echo_json e of JObj kvs \<Rightarrow> kvs)"

lemma echo_fields:
  "echo_json e = JObj (echo_fields e)" "distinct (map fst (echo_fields e))"
  "sort_keys (echo_json e) = JObj (sort_key fst (echo_fields e))"
proof -
  show d: "echo_json e = JObj (echo_fields e)" by (simp add: echo_fields_def echo_json_def)
  show "distinct (map fst (echo_fields e))"
    by (simp add: echo_fields_def echo_json_def some_field_def split: option.split)
  have "\<forall>(k, v)\<in>set (echo_fields e). sort_keys v = v"
    by (auto simp: echo_fields_def echo_json_def some_field_def split: option.splits)
  then have "map (\<lambda>(k, v). (k, sort_keys v)) (echo_fields e) = echo_fields e" by (intro map_idI) auto
  then show "sort_keys (echo_json e) = JObj (sort_key fst (echo_fields e))" by (simp add: d)
qed

lemma canon_echo_inj: "canon_echo e = canon_echo f \<longleftrightarrow> e = f"
proof
  assume "canon_echo e = canon_echo f"
  then have "sort_key fst (echo_fields e) = sort_key fst (echo_fields f)"
    by (simp add: canon_echo_def canonical_text_inj echo_printed_floats echo_fields(3))
  then have m: "map_of (echo_fields e) = map_of (echo_fields f)"
    by (metis map_of_sort_key echo_fields(2))
  have get: "ec_source_id g = map_option (\<lambda>j. case j of JStr s \<Rightarrow> s) (map_of (echo_fields g) ''source_id'')"
    "ec_issuing_body g = map_option (\<lambda>j. case j of JStr s \<Rightarrow> s) (map_of (echo_fields g) ''issuing_body'')"
    "ec_authority g = map_option (\<lambda>j. case j of JStr s \<Rightarrow> s) (map_of (echo_fields g) ''authority'')"
    "ec_verification_status g = map_option (\<lambda>j. case j of JStr s \<Rightarrow> s) (map_of (echo_fields g) ''verification_status'')"
    "ec_evidence_class g = map_option (\<lambda>j. case j of JStr s \<Rightarrow> s) (map_of (echo_fields g) ''evidence_class'')"
    "ec_quote g = map_option (\<lambda>j. case j of JStr s \<Rightarrow> s) (map_of (echo_fields g) ''quote'')" for g
    by (simp_all add: echo_fields_def echo_json_def some_field_def split: option.split)
  show "e = f" by (rule source_echo.equality) (simp_all add: get m)
qed simp

lemma check_echoes_iff:
  "check_echoes rk live rs = Inr u \<longleftrightarrow>
     (\<forall>r\<in>set rs. is_eligible_matched r \<longrightarrow>
        mset (rr_sources r) = mset (authoritative_source_refs (rule_lookup rk live (rr_rule_id r))))"
proof -
  have "inj canon_echo" by (simp add: inj_def canon_echo_inj)
  then have "image_mset (inv canon_echo) (mset (map canon_echo xs)) = mset xs" for xs
    by (simp add: multiset.map_comp comp_def)
  then have "sort (map canon_echo xs) = sort (map canon_echo ys) \<longleftrightarrow> mset xs = mset ys" for xs ys
    unfolding sort_eq_iff by (metis mset_map)
  then show ?thesis by (induction rs) simp_all
qed

section \<open>The results inside a decision\<close>

text \<open>The WP5 fields are all that the aggregation writes into a prepared result.\<close>

definition same_core :: "rule_result \<Rightarrow> rule_result \<Rightarrow> bool" where
  "same_core m x \<longleftrightarrow> x = m\<lparr>rr_strength := rr_strength x, rr_governing := rr_governing x,
     rr_governing_reason := rr_governing_reason x, rr_detection_confidence := rr_detection_confidence x\<rparr>"

lemma same_core_refl [simp]: "same_core m m"
  by (simp add: same_core_def)

lemma same_core_trans: "same_core a b \<Longrightarrow> same_core b c \<Longrightarrow> same_core a c"
  unfolding same_core_def by (cases a; cases b; cases c) simp

lemma same_core_fields:
  assumes "same_core m x"
  shows "rr_rule_id x = rr_rule_id m" "rr_kind x = rr_kind m" "rr_state x = rr_state m"
    "rr_required x = rr_required m" "rr_verdict x = rr_verdict m" "rr_effective x = rr_effective m"
    "rr_error x = rr_error m" "rr_matched_positive x = rr_matched_positive m"
    "rr_matched_negative x = rr_matched_negative m" "rr_neutralised x = rr_neutralised m"
    "rr_overrides x = rr_overrides m" "rr_provenance x = rr_provenance m" "rr_sources x = rr_sources m"
    "rr_ambiguities x = rr_ambiguities m" "rr_unknowns x = rr_unknowns m"
  by (subst assms [unfolded same_core_def]; simp)+

lemma same_core_predicates:
  assumes "same_core m x"
  shows "is_composite x = is_composite m" "is_eligible_matched x = is_eligible_matched m"
    "is_degraded x = is_degraded m" "rule_error x = rule_error m"
    "check_semantic_invariants rk x = check_semantic_invariants rk m"
  unfolding is_composite_def is_eligible_matched_def is_degraded_def rule_error_def
    check_semantic_invariants_def same_core_fields [OF assms] by simp_all

lemma attach_strength_core: "attach_strength rk m = Inr x \<Longrightarrow> same_core m x"
  by (auto simp: attach_strength_def rbind_eq_Inr same_core_def split: if_splits)

lemma mark_governing_core: "same_core m (mark_governing g w c m)"
  by (simp add: mark_governing_def same_core_def)

text \<open>Every decision is assembled from results with the prepared cores.\<close>

lemma aggregate_eligible_assembled:
  assumes "aggregate_eligible rk pf support ms b es = Inr d"
  shows "\<exists>R cl sev st risk conf corr gov reason. list_all2 same_core ms R \<and>
    d = assemble support cl sev st risk conf corr gov reason (filter is_eligible_matched R) R b es pf"
proof -
  from assms obtain rs where rs: "map_res (attach_strength rk) ms = Inr rs"
    by (auto simp: aggregate_eligible_def rbind_eq_Inr)
  have core: "list_all2 same_core ms rs"
    using rs unfolding map_res_Inr_iff by (rule list_all2_mono) (rule attach_strength_core)
  from assms obtain gid reason conf cl sev st risk corr where
    d: "d = assemble support cl sev st risk (Some conf) corr (Some gid) (Some reason)
      (filter is_eligible_matched (map (mark_governing gid reason conf) rs))
      (map (mark_governing gid reason conf) rs) b es pf"
    by (auto simp: aggregate_eligible_def rs rbind_eq_Inr Let_def split: prod.splits)
  have "list_all2 same_core ms (map (mark_governing gid reason conf) rs)"
    using core by (auto simp: list_all2_conv_all_nth intro: same_core_trans [OF _ mark_governing_core])
  with d show ?thesis by blast
qed

lemma aggregate_assembled:
  assumes run: "aggregate_decision ok eok rk pf support rs [] = Inr d" and ev: "evaluable support"
  obtains ms R cl sev st risk conf corr gov reason where "prepared ok rk rs ms" "list_all2 same_core ms R"
    "d = assemble support cl sev st risk conf corr gov reason (filter is_eligible_matched R) R
       (list_ex is_degraded ms) (List.map_filter rule_error ms) pf"
  using run
proof (cases rule: aggregate_cases)
  case (2 ms)
  show thesis
    by (rule that [OF 2(2), of ms]) (use 2(5,6) in \<open>simp_all add: list_all2_refl\<close>)
next
  case (3 ms)
  from aggregate_eligible_assembled [OF 3(6)] that [OF 3(2)] show thesis by blast
qed (use ev in simp)

lemma same_core_lists:
  assumes "list_all2 same_core ms R"
  shows "map rr_rule_id R = map rr_rule_id ms" "list_ex is_degraded R = list_ex is_degraded ms"
    "List.map_filter rule_error R = List.map_filter rule_error ms"
  using assms by (induction rule: list_all2_induct)
    (simp_all add: same_core_fields same_core_predicates List.map_filter_simps split: option.split)

section \<open>The pipeline's decisions are accepted\<close>

lemma sort_sorted_unique [simp, canon_simps]: "sort (sorted_unique xs) = sorted_unique xs"
  by (simp add: sorted_sort_id)

lemma rule_error_single: "rule_error r = Some e \<Longrightarrow> ee_scope e = SINGLE_RULE"
  by (auto simp: rule_error_def split: option.splits if_splits)

lemma assembled_rollups:
  assumes d: "d = assemble support cl sev st risk conf corr gov reason (filter is_eligible_matched R) R
       (list_ex is_degraded R) (List.map_filter rule_error R) pf"
    and eok: "\<And>r e. rule_error r = Some e \<Longrightarrow> eok e"
  shows "validate_wp5_rollups eok d = Inr ()"
proof -
  let ?S = "sort_key rr_rule_id R" and ?E = "List.map_filter rule_error R"
  have S: "mset R = mset ?S" by simp
  have f: "dr_results d = ?S" "dr_errors d = sort_key error_key ?E" "dr_degraded d = list_ex is_degraded R"
    "dr_matched_rules d = sorted_unique (map rr_rule_id (filter is_eligible_matched R))"
    "dr_positive d = collect rr_matched_positive (filter is_eligible_matched R)"
    "dr_negative d = collect rr_matched_negative (filter is_composite R)"
    "dr_suppressed d = collect rr_neutralised (filter is_composite R)"
    "dr_overrides d = collect rr_overrides (filter is_composite R)"
    "dr_ambiguities d = collect rr_ambiguities (filter is_composite R)"
    "dr_unknowns d = collect rr_unknowns (filter is_composite R)"
    by (simp_all add: d assemble_def Let_def)
  have c: "collect g (filter P R) = collect g (filter P ?S)" for g P
    by (intro collect_perm perm_filter S)
  have m: "sorted_unique (map rr_rule_id (filter is_eligible_matched R)) =
      sorted_unique (map rr_rule_id (filter is_eligible_matched ?S))"
    by (rule sorted_unique_set_eq) simp
  have "check_rollups (expected_rollups d) = Inr ()"
    unfolding check_rollups_iff expected_rollups_def Let_def f m c
    by (simp add: collect_def)
  moreover have "list_ex is_degraded R = list_ex is_degraded ?S" by (rule perm_ex [OF S])
  moreover have E: "\<forall>e\<in>set ?E. eok e \<and> ee_scope e = SINGLE_RULE"
    using eok rule_error_single by (auto simp: map_filter_set)
  then have "list_all eok (sort_key error_key ?E)" by (simp add: list_all_iff)
  moreover have "filter (\<lambda>e. ee_scope e = SINGLE_RULE) (sort_key error_key ?E) = sort_key error_key ?E"
    using E by (intro filter_True) simp
  moreover have "sort (map canon_error (sort_key error_key ?E)) =
      sort (map canon_error (List.map_filter rule_error ?S))"
    unfolding sort_eq_iff mset_map using map_filter_perm [OF S, of rule_error] by simp
  ultimately show ?thesis by (simp add: validate_wp5_rollups_def f Let_def)
qed

lemma aggregate_consistent:
  assumes run: "aggregate_decision ok eok rk pf support rs [] = Inr d" and ev: "evaluable support"
    and R: "dr_results d = sort_key rr_rule_id R" "distinct (map rr_rule_id R)"
    and m: "dr_matched_rules d = sorted_unique (map rr_rule_id (filter is_eligible_matched R))"
    and e: "list_all (\<lambda>e. ee_scope e = SINGLE_RULE) (dr_errors d)" and s: "dr_support d = support"
  shows "validate_classification d = Inr ()"
proof -
  have sup: "dr_support d \<in> set EVALUABLE_SUPPORT" using ev s by (auto simp: EVALUABLE_SUPPORT_def)
  have w: "\<not> list_ex (\<lambda>e. ee_scope e = WHOLE_EVALUATION) (dr_errors d)"
    using e by (auto simp: list_ex_iff list_all_iff)
  have elig: "filter is_eligible_matched (dr_results d) = [] \<longleftrightarrow> dr_matched_rules d = []"
    by (auto simp: R m filter_empty_conv)
  have scam: "dr_classification d \<in> {CL_SCAM_PATTERN_SUSPECTED, CL_SCAM_PATTERN_DETECTED} \<longleftrightarrow> dr_governing d \<noteq> None"
    by (rule aggregate_scam_governing [OF run])
  have cl: "dr_classification d = expected_classification support rs (dr_confidence d) False"
    using aggregate_classification [OF run] by simp
  show ?thesis
  proof (cases "dr_governing d")
    case None
    then have n: "none_axes d" "dr_matched_rules d = []"
      using aggregate_unmatched [OF run] by (simp_all add: none_axes_def)
    have "dr_classification d = CL_NO_SCAM_PATTERN \<or> dr_classification d = CL_INSUFFICIENT_EVIDENCE"
      using scam None cl ev by (auto simp: expected_classification_def split: if_splits)
    then show ?thesis
      using None n sup w elig by (auto simp: validate_classification_def)
  next
    case (Some gid)
    then have "dr_governing d \<noteq> None" by simp
    note mat = aggregate_matched_all [OF run this]
    obtain q where q: "q \<in> set rs" "is_eligible_matched q" "rr_rule_id q = gid"
      by (rule aggregate_governing [OF run Some]) blast
    have "set (dr_matched_rules d) = rr_rule_id ` set (filter is_eligible_matched rs)"
      using aggregate_collects [OF run] Some by simp
    then have g: "gid \<in> set (dr_matched_rules d)" using q by force
    then obtain x where x: "x \<in> set R" "is_eligible_matched x" "rr_rule_id x = gid" by (auto simp: m)
    have "\<exists>y. List.find (\<lambda>r. Some (rr_rule_id r) = dr_governing d) (dr_results d) = Some y"
      using x(1,3) by (auto simp: Some R(1) find_None_iff not_None_eq [symmetric] simp del: not_None_eq)
    then obtain y where y: "List.find (\<lambda>r. Some (rr_rule_id r) = dr_governing d) (dr_results d) = Some y" by blast
    then have "y \<in> set R \<and> rr_rule_id y = gid" by (auto simp: Some R(1) find_Some_iff in_set_conv_nth [symmetric]) (metis nth_mem set_sort length_sort)
    then have "y = x" using x(1,3) R(2) by (auto simp: distinct_map inj_on_def)
    have nn: "dr_severity d \<noteq> NONE \<and> dr_strength d \<noteq> NO_STRENGTH"
      using mat by (cases "dr_severity d"; cases "dr_strength d") auto
    have c: "dr_classification d = (if dr_confidence d = Some C_LOW then CL_SCAM_PATTERN_SUSPECTED else CL_SCAM_PATTERN_DETECTED)"
      using mat cl ev by (auto simp: expected_classification_def)
    have "filter is_eligible_matched (dr_results d) \<noteq> []" using elig g by auto
    then show ?thesis
      using c g Some sup w mat nn y \<open>y = x\<close> x(2) by (auto simp: validate_classification_def)
  qed
qed

lemma composite_sources:
  assumes "evaluate_composite rk pf r rid rver ctx = Inr res" "rr_state res = MATCHED"
  shows "rr_sources res = map echo_source (ru_sources r)"
proof (rule composite_cases [OF assms(1)])
  fix logic min_classes active blocked targets pt ne lp ops
  assume s: "ru_logic r = JObj logic" "min_evidence_classes logic = Inr min_classes"
    "active_overrides rk rid (rule_categories r) (truth (fst (positive_truth_map rk pf ctx))) =
       Inr (active, blocked)"
    "rr_matched_negative res = matched_negatives rk pf ctx (rule_categories r)"
    "active_suppressor_occurrences rk pf ctx (rr_matched_negative res) active blocked = Inr targets"
    "execute_suppression pf ctx targets (positive_truth_map rk pf ctx) = (pt, ne, lp)"
    "eval_condition (truth pt) (jget logic ''require'') = Inr (rr_required res)"
    "operands (jget logic ''require'') = Inr ops"
    "suppression_candidates rk (rr_matched_negative res) blocked (active \<noteq> []) = Inr (rr_suppression res)"
    "effective_of r = Inr (rr_effective res)"
  obtain req supp eff where g: "eval_condition (truth pt) (jget logic ''require'') = Inr req"
    "suppression_candidates rk (matched_negatives rk pf ctx (rule_categories r)) blocked (active \<noteq> []) = Inr supp"
    "effective_of r = Inr eff"
    using s(4,7,9,10) by simp
  show ?thesis
    using assms
    by (auto simp: evaluate_composite_def s(1-3,6,8) g s(5) [unfolded s(4)] Let_def attach_match_provenance_def
        blank_result_def split: prod.splits if_splits)
qed

lemma apply_suppression_sources:
  assumes "apply_suppression rk r = Inr r'" "rr_state r' = MATCHED"
  shows "rr_sources r' = rr_sources r"
  using assms(1)
proof (cases rule: apply_suppression_cases)
  case 1
  show ?thesis
  proof (cases "rr_kind r = COMPOSITE \<and> rr_state r = MATCHED")
    case True
    then obtain ef eff st where "r' = (canonicalize_result r)\<lparr>rr_effective := eff, rr_state := st,
       rr_suppression := Some (attach_suppression ef)\<rparr>"
      by - (rule apply_effects_act [OF 1], auto)
    then show ?thesis by (simp add: canonicalize_result_def)
  next
    case False
    then have "r' = canonicalize_result r" using 1 apply_effects_pass [of r rk] by (auto split: if_splits)
    then show ?thesis by (simp add: canonicalize_result_def)
  qed
qed (use assms(2) in simp)

lemma copy_sources: "validate_and_canonical_copy ok r = Inr m \<Longrightarrow> rr_sources m = rr_sources r"
  by (auto simp: validate_and_canonical_copy_def rbind_eq_Inr canonicalize_result_def)

lemma pipeline_sources:
  assumes wf: "wf_knowledge rk"
    and run: "evaluate_rules_with_suppression_from_governed io_ok obs_ok rk pf inds obs lang scr = Inr qs"
    and q: "q \<in> set qs" "is_eligible_matched q"
  shows "\<exists>r. rk_published_rule rk (rr_rule_id q) = Some r \<and> rr_sources q = map echo_source (ru_sources r)"
proof (rule wp4_origin [OF run q(1)])
  fix ctx rid res
  assume s: "evaluate_validated rk pf rid ctx = Inr res" "apply_suppression rk res = Inr q"
  have m: "rr_state q = MATCHED" "rr_kind q = COMPOSITE"
    using q(2) by (simp_all add: is_eligible_matched_def is_composite_def)
  have m': "rr_state res = MATCHED" using apply_suppression_matched [OF s(2) m(1)] by simp
  have k: "rr_kind res = COMPOSITE" "rr_rule_id q = rr_rule_id res" using wp4.keeps [OF s(2)] m(2) by simp_all
  obtain r where r: "rk_rule rk rid = Some r" "ru_status r = Some ''PUBLISHED''"
    "evaluate_composite rk pf r (ru_id r) (rule_version_text r) ctx = Inr res"
    using evaluate_validated_composite [OF s(1) m' k(1)] by blast
  have "rr_rule_id res = ru_id r" by (rule composite_cases [OF r(3)]) simp
  then have "rr_rule_id q = rid" using k(2) wf_rule_id [OF wf r(1)] by simp
  then show ?thesis
    using r published_is_rule [OF wf] composite_sources [OF r(3) m'] apply_suppression_sources [OF s(2) m(1)] by auto
qed

lemma pipeline_ids:
  assumes wf: "wf_knowledge rk"
    and run: "evaluate_rules_with_suppression_from_governed io_ok obs_ok rk pf inds obs lang scr = Inr qs"
  shows "map rr_rule_id qs = published_rule_ids rk"
proof -
  from run obtain ctx rs where s: "build_validated_context io_ok obs_ok inds obs lang scr = Inr ctx"
    "evaluate_rules_from_governed io_ok obs_ok rk pf inds obs lang scr = Inr rs"
    "map_res (apply_suppression rk) rs = Inr qs"
    by (auto simp: evaluate_rules_with_suppression_from_governed_def evaluate_rules_from_governed_def
        apply_all_def rbind_eq_Inr)
  then show ?thesis using wp4.batch_ids [OF s(3)] evaluate_rules_total [OF wf s(1), of pf] by simp
qed

lemma list_all2_right_mem: "list_all2 P xs ys \<Longrightarrow> y \<in> set ys \<Longrightarrow> \<exists>x\<in>set xs. P x y"
  by (induction rule: list_all2_induct) auto

lemma assemble_fields:
  "dr_results (assemble support cl sev st risk conf corr gov reason el R b es pf) = sort_key rr_rule_id R"
  "dr_errors (assemble support cl sev st risk conf corr gov reason el R b es pf) = sort_key error_key es"
  "dr_support (assemble support cl sev st risk conf corr gov reason el R b es pf) = support"
  "dr_matched_rules (assemble support cl sev st risk conf corr gov reason el R b es pf) =
     sorted_unique (map rr_rule_id el)"
  "dr_overrides (assemble support cl sev st risk conf corr gov reason el R b es pf) =
     collect rr_overrides (filter is_composite R)"
  by (simp_all add: assemble_def Let_def)

theorem pipeline_decision_validates:
  assumes wf: "wf_knowledge rk" and pol: "has_action_policy rk"
    and run: "evaluate_decision_from_governed io_ok obs_ok ok eok rk pf inds obs support lang scr [] = Inr d"
    and ev: "evaluable support"
    and ok: "\<And>r. check_semantic_invariants rk r = Inr () \<Longrightarrow> ok r"
    and eok: "\<And>r e. rule_error r = Some e \<Longrightarrow> eok e"
  shows "validate_explanation_input ok eok rk True d = Inr ()"
proof -
  from run obtain qs where wp4: "evaluate_rules_with_suppression_from_governed io_ok obs_ok rk pf inds obs lang scr = Inr qs"
    and agg: "aggregate_decision ok eok rk pf support qs [] = Inr d"
    by (auto simp: evaluate_decision_from_governed_def rbind_eq_Inr)
  obtain ms R cl sev st risk conf corr gov reason where a: "prepared ok rk qs ms" "list_all2 same_core ms R"
    and d0: "d = assemble support cl sev st risk conf corr gov reason (filter is_eligible_matched R) R
       (list_ex is_degraded ms) (List.map_filter rule_error ms) pf"
    by (rule aggregate_assembled [OF agg ev]) blast
  note d = d0 [folded same_core_lists(2,3) [OF a(2)]]
  have copies: "list_all2 (\<lambda>q m. validate_and_canonical_copy ok q = Inr m) qs ms"
    using a(1) by (simp add: prepared_def map_res_Inr_iff)
  have chain: "list_all2 (\<lambda>q x. rr_rule_id x = rr_rule_id q \<and> is_eligible_matched x = is_eligible_matched q \<and>
      rr_sources x = rr_sources q) qs R"
    using copies a(2) by (rule list_all2_trans [rotated 1])
      (simp add: copy_fields copy_predicates copy_sources same_core_fields same_core_predicates)
  have ids: "map rr_rule_id R = published_rule_ids rk"
  proof -
    have "map rr_rule_id R = map rr_rule_id qs" using chain by (induction rule: list_all2_induct) simp_all
    then show ?thesis by (simp add: pipeline_ids [OF wf wp4])
  qed
  have pub: "rk_published_rule rk (rr_rule_id x) \<noteq> None" if "x \<in> set R" for x
  proof -
    have "rr_rule_id x \<in> set (published_rule_ids rk)" unfolding ids [symmetric] using that by simp
    then show ?thesis by (simp add: published_rule_ids_def rk_published_rule_def map_of_eq_None_iff)
  qed
  have dist: "distinct (map rr_rule_id R)" unfolding ids by (simp add: published_rule_ids_def)
  have sem: "check_semantic_invariants rk x = Inr ()" if xR: "x \<in> set R" for x
  proof -
    obtain m where "m \<in> set ms" "same_core m x"
      using list_all2_right_mem [OF a(2) xR] by blast
    then show ?thesis using a(1) by (simp add: prepared_def same_core_predicates(5) [of m x])
  qed
  have res: "dr_results d = sort_key rr_rule_id R" by (simp add: d assemble_fields)
  have E: "\<forall>e\<in>set (List.map_filter rule_error R). ee_scope e = SINGLE_RULE"
    using rule_error_single by (auto simp: map_filter_set)
  have "check_rule_results ok rk (dr_results d) [] = Inr ()"
  proof -
    have "mset (map rr_rule_id (dr_results d)) = mset (map rr_rule_id R)" by (simp add: res)
    then have "distinct (map rr_rule_id (dr_results d))" using dist mset_eq_imp_distinct_iff by blast
    moreover have "rk_rule rk (rr_rule_id x) \<noteq> None" if "x \<in> set R" for x
      using pub [OF that] published_is_rule [OF wf] by auto
    ultimately show ?thesis using sem ok by (simp add: check_rule_results_iff res)
  qed
  moreover have "validate_wp5_rollups eok d = Inr ()" by (rule assembled_rollups [OF d eok])
  moreover have "validate_classification d = Inr ()"
    by (rule aggregate_consistent [OF agg ev res dist]) (use E in \<open>simp_all add: d assemble_fields list_all_iff\<close>)
  moreover have "check_contributing rk True (contributing_rule_ids d) = Inr ()"
  proof -
    have "set (dr_matched_rules d) \<subseteq> rr_rule_id ` set R" by (auto simp: d assemble_fields)
    moreover have "dr_governing d = Some g \<Longrightarrow> g \<in> set (dr_matched_rules d)" for g
    proof -
      assume g: "dr_governing d = Some g"
      then obtain q where "q \<in> set qs" "is_eligible_matched q" "rr_rule_id q = g"
        by (rule aggregate_governing [OF agg]) blast
      then show ?thesis using aggregate_collects [OF agg] g by force
    qed
    ultimately have "set (contributing_rule_ids d) \<subseteq> rr_rule_id ` set R"
      by (auto simp: contributing_rule_ids_def res split: option.splits)
    then show ?thesis using pub by (auto simp: check_contributing_iff rule_lookup_def)
  qed
  moreover have "list_all (\<lambda>oid. rk_override rk oid \<noteq> None) (dr_overrides d)"
    using sem by (auto simp: d assemble_fields collect_def list_all_iff check_semantic_iff)
  moreover have "check_echoes rk True (dr_results d) = Inr ()"
    unfolding check_echoes_iff res set_sort
  proof (intro ballI impI)
    fix x
    assume x: "x \<in> set R" "is_eligible_matched x"
    then obtain q where q: "q \<in> set qs" "rr_rule_id x = rr_rule_id q" "is_eligible_matched q" "rr_sources x = rr_sources q"
      using list_all2_right_mem [OF chain x(1)] by auto
    from pipeline_sources [OF wf wp4 q(1,3)]
    show "mset (rr_sources x) = mset (authoritative_source_refs (rule_lookup rk True (rr_rule_id x)))"
      by (auto simp: q rule_lookup_def authoritative_source_refs_def)
  qed
  ultimately show ?thesis using pol by (simp add: validate_explanation_input_def)
qed

end
