(* ===== verification/ExplanationContent.thy ===== *)
theory ExplanationContent
  imports ExplanationProps
begin

text \<open>
  What an explanation says: an explanation is always returned for a decision of the pipeline; an
  action is recommended exactly when an entry of the governed policy fires, with exactly the firing
  entries' reasons; the quoted sources are exactly the governed sources of the matched rules.
\<close>

section \<open>An explanation is returned\<close>

fun has_string_id :: "json \<Rightarrow> bool" where
  "has_string_id (JObj kvs) = (case jget kvs ''observation_id'' of JStr _ \<Rightarrow> True | _ \<Rightarrow> False)"
| "has_string_id _ = False"

lemma index_string_ids: "list_all has_string_id os \<Longrightarrow> \<exists>ix. index_observations os d = Inr ix"
  by (induction os d rule: index_observations.induct) (auto simp: Let_def split: json.splits)

lemma validate_parts:
  assumes "validate_explanation_input ok eok rk live d = Inr ()"
  shows "has_action_policy rk" "check_rule_results ok rk (dr_results d) [] = Inr ()"
    "validate_wp5_rollups eok d = Inr ()" "validate_classification d = Inr ()"
    "\<forall>rid\<in>set (contributing_rule_ids d). rule_lookup rk live rid \<noteq> None"
    "\<forall>oid\<in>set (dr_overrides d). rk_override rk oid \<noteq> None"
    "\<forall>r\<in>set (dr_results d). is_eligible_matched r \<longrightarrow>
       mset (rr_sources r) = mset (authoritative_source_refs (rule_lookup rk live (rr_rule_id r)))"
  using assms
  by (simp_all add: validate_explanation_input_def rbind_eq_Inr check_contributing_iff check_echoes_iff list_all_iff
      del: all_checks.simps)

lemma rollup_matched_rules:
  assumes "validate_wp5_rollups eok d = Inr ()"
  shows "set (dr_matched_rules d) = rr_rule_id ` set (filter is_eligible_matched (dr_results d))"
proof -
  have "check_rollups (expected_rollups d) = Inr ()"
    using assms by (simp add: validate_wp5_rollups_def rbind_eq_Inr del: all_checks.simps)
  then have "sort (dr_matched_rules d) = sorted_unique (map rr_rule_id (filter is_eligible_matched (dr_results d)))"
    by (simp add: check_rollups_iff expected_rollups_def Let_def del: check_rollups.simps)
  then show ?thesis by (metis set_map set_sort sorted_unique_props(1))
qed

lemma classification_parts:
  assumes "validate_classification d = Inr ()"
  shows "dr_classification d \<in> set SCAM_CLASSES \<longleftrightarrow> dr_governing d \<noteq> None"
    "dr_classification d \<in> set SCAM_CLASSES \<longleftrightarrow> filter is_eligible_matched (dr_results d) \<noteq> []"
    "dr_classification d \<notin> set SCAM_CLASSES \<longleftrightarrow> none_axes d"
    "dr_governing d = Some g \<Longrightarrow> g \<in> set (dr_matched_rules d)"
    "dr_classification d \<in> set SCAM_CLASSES \<union> {CL_NO_SCAM_PATTERN} \<Longrightarrow> dr_support d \<in> set EVALUABLE_SUPPORT"
proof -
  have c: "list_all fst (classification_checks d (dr_classification d))"
    using assms by (simp add: validate_classification_def rbind_eq_Inr del: all_checks.simps)
  note [simp] = SCAM_CLASSES_def none_axes_def
  show "dr_classification d \<in> set SCAM_CLASSES \<longleftrightarrow> dr_governing d \<noteq> None"
    using c by (cases "dr_classification d") simp_all
  show "dr_classification d \<in> set SCAM_CLASSES \<longleftrightarrow> filter is_eligible_matched (dr_results d) \<noteq> []"
    using c by (cases "dr_classification d") simp_all
  show "dr_classification d \<notin> set SCAM_CLASSES \<longleftrightarrow> none_axes d"
    using c by (cases "dr_classification d") simp_all
  show "dr_governing d = Some g \<Longrightarrow> g \<in> set (dr_matched_rules d)"
    using c by (cases "dr_classification d") simp_all
  show "dr_classification d \<in> set SCAM_CLASSES \<union> {CL_NO_SCAM_PATTERN} \<Longrightarrow> dr_support d \<in> set EVALUABLE_SUPPORT"
    using c by (cases "dr_classification d") simp_all
qed

lemma governing_contributes: "dr_governing d = Some g \<Longrightarrow> g \<in> set (contributing_rule_ids d)"
  by (simp add: contributing_rule_ids_def)

lemma render_total:
  assumes v: "validate_explanation_input ok eok rk live d = Inr ()"
    and ix: "index_observations (opt_list obs) [] = Inr ix"
  shows "\<exists>er. render_explanation rk live d obs = Inr er"
proof -
  note p = validate_parts [OF v]
  have "\<exists>h. headline d (case dr_governing d of None \<Rightarrow> None | Some g \<Rightarrow> rule_lookup rk live g) = Inr h"
    using classification_parts(1) [OF p(4)] p(5) governing_contributes
    by (cases "dr_governing d") (fastforce simp: headline_def split: option.split)+
  then show ?thesis
    using ix by (auto simp: render_explanation_def Let_def supporting_observations_def)
qed

theorem pipeline_explained:
  assumes "wf_knowledge rk" "has_action_policy rk"
    and "evaluate_decision_from_governed io_ok obs_ok ok eok rk pf inds obs support lang scr [] = Inr d"
    and "evaluable support"
    and "\<And>r. check_semantic_invariants rk r = Inr () \<Longrightarrow> ok r"
    and "\<And>r e. rule_error r = Some e \<Longrightarrow> eok e"
    and "list_all has_string_id (opt_list observations)"
  shows "\<exists>er. build_explanation ok eok rk d observations = Inr er"
proof -
  have v: "validate_explanation_input ok eok rk True d = Inr ()"
    by (rule pipeline_decision_validates [OF assms(1-4)]) (blast intro: assms(5,6))+
  obtain ix where "index_observations (opt_list observations) [] = Inr ix" using index_string_ids [OF assms(7)] by blast
  from render_total [OF v this] v show ?thesis
    by (auto simp: build_explanation_def build_explanation_core_def explanation_boundary_def)
qed

lemma build_explanation_parts:
  assumes "build_explanation ok eok rk d obs = Inr er"
  shows "validate_explanation_input ok eok rk True d = Inr ()" "render_explanation rk True d obs = Inr er"
  using assms
  by (auto simp: build_explanation_def build_explanation_core_def explanation_boundary_def rbind_eq_Inr
      split: sum.splits exc.splits if_splits)

lemma render_fields:
  assumes "render_explanation rk live d obs = Inr er"
  shows "er_actions er = recommended_actions rk live d" "er_policy_version er = action_policy_version rk"
    "ex_evidence (er_explanation er) =
       evidence_basis (sort_key rr_rule_id (filter eligible_matched (dr_results d))) (rule_lookup rk live)"
    "ex_matched (er_explanation er) = sort (dr_positive d)"
    "ex_fired (er_explanation er) = sort (dr_matched_rules d)"
    "ex_steps (er_explanation er) = verification_steps d (rule_lookup rk live)"
    "map so_ref (ex_observations (er_explanation er)) =
       sorted_unique (live_refs (sort_key rr_rule_id (filter eligible_matched (dr_results d))))"
  using assms by (auto simp: render_explanation_def Let_def rbind_eq_Inr supporting_observations_def comp_def)

section \<open>The recommended actions\<close>

text \<open>What one policy entry contributes to one action code.\<close>

definition contribution ::
    "runtime_knowledge \<Rightarrow> bool \<Rightarrow> decision \<Rightarrow> string \<Rightarrow> policy_entry
     \<Rightarrow> (string list \<times> string list \<times> string list) option" where
  "contribution rk live d code e =
     (if ap_action e = code \<and> applies_when e d then trigger_reasons rk live d (ap_trigger e) else None)"

text \<open>An accumulated action holds exactly what the entries seen so far contribute to its code.\<close>

definition justified ::
    "runtime_knowledge \<Rightarrow> bool \<Rightarrow> decision \<Rightarrow> policy_entry set \<Rightarrow> string \<Rightarrow> action \<Rightarrow> bool" where
  "justified rk live d es code a \<longleftrightarrow>
     ac_code a = code \<and> (\<exists>e\<in>es. contribution rk live d code e \<noteq> None) \<and>
     set (ac_rules a) = {x. \<exists>e\<in>es. \<exists>R I V. contribution rk live d code e = Some (R, I, V) \<and> x \<in> set R} \<and>
     set (ac_indicators a) = {x. \<exists>e\<in>es. \<exists>R I V. contribution rk live d code e = Some (R, I, V) \<and> x \<in> set I} \<and>
     set (ac_overrides a) = {x. \<exists>e\<in>es. \<exists>R I V. contribution rk live d code e = Some (R, I, V) \<and> x \<in> set V} \<and>
     set (ac_evidence a) = {x. \<exists>e\<in>es. contribution rk live d code e \<noteq> None \<and> x \<in> set (ap_evidence e)}"

definition acc_ok :: "runtime_knowledge \<Rightarrow> bool \<Rightarrow> decision \<Rightarrow> policy_entry set \<Rightarrow> action dict \<Rightarrow> bool" where
  "acc_ok rk live d es acc \<longleftrightarrow>
     (\<forall>code. case map_of acc code of
        None \<Rightarrow> \<forall>e\<in>es. contribution rk live d code e = None
      | Some a \<Rightarrow> justified rk live d es code a)"

lemma policy_step_lookup:
  "map_of (policy_step rk live d e acc) code =
     (case contribution rk live d code e of
        None \<Rightarrow> map_of acc code
      | Some reasons \<Rightarrow> map_of (add_reasons code reasons (ap_evidence e) acc) code)"
  by (auto simp: policy_step_def contribution_def add_reasons_def Let_def map_of_update
      split: option.split prod.split)

lemma acc_ok_step:
  assumes "acc_ok rk live d es acc"
  shows "acc_ok rk live d (insert e es) (policy_step rk live d e acc)"
  unfolding acc_ok_def
proof
  fix code
  note old = assms [unfolded acc_ok_def, rule_format, of code]
  show "case map_of (policy_step rk live d e acc) code of
        None \<Rightarrow> \<forall>e\<in>insert e es. contribution rk live d code e = None
      | Some a \<Rightarrow> justified rk live d (insert e es) code a"
  proof (cases "contribution rk live d code e")
    case None
    then show ?thesis
      using old by (auto simp: policy_step_lookup justified_def split: option.splits)
  next
    case (Some reasons)
    obtain R I V where r: "reasons = (R, I, V)" by (cases reasons)
    show ?thesis
    proof (cases "map_of acc code")
      case None
      then have "\<forall>e\<in>es. contribution rk live d code e = None" using old by simp
      then show ?thesis
        using Some r None by (auto simp: policy_step_lookup add_reasons_def map_of_update Let_def justified_def)
    next
      case (Some a)
      then have "justified rk live d es code a" using old by simp
      then show ?thesis
        using \<open>contribution rk live d code e = Some reasons\<close> r Some
        by (auto simp: policy_step_lookup add_reasons_def map_of_update Let_def justified_def)
    qed
  qed
qed

lemma acc_ok_fold:
  "acc_ok rk live d es acc \<Longrightarrow> acc_ok rk live d (set ps \<union> es) (fold (policy_step rk live d) ps acc)"
proof (induction ps arbitrary: es acc)
  case (Cons p ps)
  from Cons.IH [OF acc_ok_step [OF Cons.prems, of p]] show ?case by simp
qed simp

lemma justified_canonical: "justified rk live d es code (canonical_action a) = justified rk live d es code a"
  by (simp add: justified_def canonical_action_def)

lemma justified_fires: "justified rk live d es code a \<Longrightarrow> \<exists>e\<in>es. contribution rk live d code e \<noteq> None"
  by (simp add: justified_def)

lemma map_filter_conv: "List.map_filter f xs = map (\<lambda>x. the (f x)) (filter (\<lambda>x. f x \<noteq> None) xs)"
  by (simp add: List.map_filter_def comp_def)

theorem actions_justified:
  fixes rk live d
  defines "entries \<equiv> set (action_policy_entries rk)"
  shows "map ac_code (recommended_actions rk live d) =
       filter (\<lambda>code. \<exists>e\<in>entries. contribution rk live d code e \<noteq> None) ACTION_ORDER"
    "a \<in> set (recommended_actions rk live d) \<Longrightarrow>
       justified rk live d entries (ac_code a) a \<and> ac_code a \<in> set ACTION_ORDER \<and>
       sorted (ac_rules a) \<and> distinct (ac_rules a)"
proof -
  let ?acc = "fold (policy_step rk live d) (action_policy_entries rk) []"
  have "acc_ok rk live d {} []" by (simp add: acc_ok_def)
  from acc_ok_fold [OF this] have ok: "acc_ok rk live d entries ?acc" by (simp add: entries_def)
  let ?f = "\<lambda>code. map_option canonical_action (map_of ?acc code)"
  have just: "?f code = Some a \<Longrightarrow> justified rk live d entries code a" for code a
    using ok [unfolded acc_ok_def, rule_format, of code] by (auto simp: justified_canonical split: option.splits)
  have dom: "?f code \<noteq> None \<longleftrightarrow> (\<exists>e\<in>entries. contribution rk live d code e \<noteq> None)" for code
  proof (cases "map_of ?acc code")
    case None
    then show ?thesis using ok [unfolded acc_ok_def, rule_format, of code] by simp
  next
    case (Some a)
    then have "justified rk live d entries code (canonical_action a)" by (intro just) simp
    then have "\<exists>e\<in>entries. contribution rk live d code e \<noteq> None" by (rule justified_fires)
    then show ?thesis using Some by simp
  qed
  have code: "ac_code (the (?f code)) = code" if "?f code \<noteq> None" for code
  proof -
    from that obtain a where "?f code = Some a" by blast
    with just [OF this] show ?thesis by (auto simp: justified_def)
  qed
  have A: "recommended_actions rk live d = map (\<lambda>x. the (?f x)) (filter (\<lambda>x. ?f x \<noteq> None) ACTION_ORDER)"
    unfolding recommended_actions_def Let_def map_filter_conv ..
  show "map ac_code (recommended_actions rk live d) =
       filter (\<lambda>code. \<exists>e\<in>entries. contribution rk live d code e \<noteq> None) ACTION_ORDER"
    unfolding A map_map dom [symmetric] by (rule map_idI) (use code in auto)
  assume "a \<in> set (recommended_actions rk live d)"
  then obtain c where c: "c \<in> set ACTION_ORDER" "?f c \<noteq> None" "a = the (?f c)" unfolding A by auto
  then have a: "?f c = Some a" by auto
  then have "justified rk live d entries c a" by (rule just)
  moreover have "sorted (ac_rules a) \<and> distinct (ac_rules a)"
    using a by (auto simp: canonical_action_def)
  ultimately show "justified rk live d entries (ac_code a) a \<and> ac_code a \<in> set ACTION_ORDER \<and>
       sorted (ac_rules a) \<and> distinct (ac_rules a)"
    using c(1) by (simp add: justified_def)
qed

lemma trigger_reasons_sources:
  assumes "trigger_reasons rk live d t = Some (R, I, V)"
  shows "set R \<subseteq> set (contributing_rule_ids d) \<and> set I \<subseteq> set (dr_negative d) \<and> set V \<subseteq> set (dr_overrides d)"
  using assms
  by (cases t) (auto simp: Let_def contributing_rule_ids_def verification_rules_def split: if_splits)

section \<open>The evidence basis\<close>

lemma fold_update_dict_of:
  "fold (\<lambda>x. AList.update (f x) x) xs [] = dict_of (map (\<lambda>x. (f x, x)) xs)"
  by (simp add: dict_of_def fold_map comp_def)

lemma dict_of_inj:
  assumes "inj f"
  shows "set (dict_of (map (\<lambda>x. (f x, x)) xs)) = (\<lambda>x. (f x, x)) ` set xs"
proof -
  let ?d = "dict_of (map (\<lambda>x. (f x, x)) xs)"
  have "(k, v) \<in> set ?d \<longleftrightarrow> map_of ?d k = Some v" for k v by simp
  moreover have "map_of ?d k = Some v \<longleftrightarrow> k = f v \<and> v \<in> set xs" for k v
  proof
    assume "map_of ?d k = Some v"
    then show "k = f v \<and> v \<in> set xs" by (auto simp: map_of_dict_of dest: map_of_SomeD)
  next
    assume kv: "k = f v \<and> v \<in> set xs"
    then have "map_of (rev (map (\<lambda>x. (f x, x)) xs)) k \<noteq> None" by (auto simp: map_of_eq_None_iff image_image)
    then obtain w where "map_of ?d k = Some w" by (auto simp: map_of_dict_of)
    moreover from this have "k = f w" by (auto simp: map_of_dict_of dest: map_of_SomeD)
    ultimately show "map_of ?d k = Some v" using kv assms by (auto dest: injD)
  qed
  ultimately show ?thesis by auto
qed

theorem evidence_basis_exact:
  shows "set (evidence_basis el rule_of) =
       (\<Union>r\<in>set el. set (authoritative_source_refs (rule_of (rr_rule_id r))))"
    "sorted_wrt (\<lambda>a b. canon_echo a < canon_echo b) (evidence_basis el rule_of)"
proof -
  let ?xs = "concat (map (\<lambda>r. authoritative_source_refs (rule_of (rr_rule_id r))) el)"
  let ?d = "dict_of (map (\<lambda>x. (canon_echo x, x)) ?xs)"
  have e: "evidence_basis el rule_of = map snd (sort_key fst ?d)"
    by (simp add: evidence_basis_def Let_def fold_update_dict_of)
  have "inj canon_echo" by (simp add: inj_def canon_echo_inj)
  note d = dict_of_inj [OF this, of ?xs]
  show "set (evidence_basis el rule_of) =
       (\<Union>r\<in>set el. set (authoritative_source_refs (rule_of (rr_rule_id r))))"
    unfolding e by (auto simp: d image_image)
  have keys: "map fst (sort_key fst ?d) = map canon_echo (map snd (sort_key fst ?d))"
    unfolding map_map by (rule map_cong) (auto simp: d)
  have "distinct (map fst (sort_key fst ?d))"
    using mset_eq_imp_distinct_iff [of "map fst (sort_key fst ?d)" "map fst ?d"] by simp
  then have "sorted_wrt (<) (map fst (sort_key fst ?d))" by (simp add: strict_sorted_iff)
  then show "sorted_wrt (\<lambda>a b. canon_echo a < canon_echo b) (evidence_basis el rule_of)"
    unfolding keys e sorted_wrt_map .
qed

section \<open>Published findings, exact actions\<close>

theorem explanation_published:
  assumes wf: "wf_knowledge rk" and b: "build_explanation ok eok rk d obs = Inr er"
  shows "(\<forall>rid\<in>set (contributing_rule_ids d). \<exists>r. rk_rule rk rid = Some r \<and> ru_status r = Some ''PUBLISHED'') \<and>
    (dr_classification d \<in> {CL_SCAM_PATTERN_DETECTED, CL_SCAM_PATTERN_SUSPECTED} \<longleftrightarrow>
       (\<exists>q\<in>set (dr_results d). is_eligible_matched q)) \<and>
    (\<forall>q\<in>set (dr_results d). is_eligible_matched q \<longrightarrow>
       (\<exists>r. rk_published_rule rk (rr_rule_id q) = Some r \<and> mset (rr_sources q) = mset (map echo_source (ru_sources r))))"
proof (intro conjI ballI impI)
  note p = validate_parts [OF build_explanation_parts(1) [OF b]]
  show "\<exists>r. rk_rule rk rid = Some r \<and> ru_status r = Some ''PUBLISHED''"
    if "rid \<in> set (contributing_rule_ids d)" for rid
    using p(5) that published_is_rule [OF wf] by (auto simp: rule_lookup_def)
  show "dr_classification d \<in> {CL_SCAM_PATTERN_DETECTED, CL_SCAM_PATTERN_SUSPECTED} \<longleftrightarrow>
      (\<exists>q\<in>set (dr_results d). is_eligible_matched q)"
    using classification_parts(2) [OF p(4)] by (simp add: SCAM_CLASSES_def filter_empty_conv)
  fix q
  assume q: "q \<in> set (dr_results d)" "is_eligible_matched q"
  then have "rr_rule_id q \<in> set (contributing_rule_ids d)"
    using rollup_matched_rules [OF p(3)] by (simp add: contributing_rule_ids_def)
  then obtain r where r: "rk_published_rule rk (rr_rule_id q) = Some r"
    using p(5) by (auto simp: rule_lookup_def)
  then show "\<exists>r. rk_published_rule rk (rr_rule_id q) = Some r \<and> mset (rr_sources q) = mset (map echo_source (ru_sources r))"
    using p(7) q by (simp add: rule_lookup_def authoritative_source_refs_def)
qed

lemma contribution_sources:
  "contribution rk live d code e = Some (R, I, V) \<Longrightarrow>
     set R \<subseteq> set (contributing_rule_ids d) \<and> set I \<subseteq> set (dr_negative d) \<and> set V \<subseteq> set (dr_overrides d)"
  using trigger_reasons_sources by (auto simp: contribution_def split: if_splits)

theorem action_reasons_exact:
  assumes "a \<in> set (recommended_actions rk live d)"
  shows "ac_code a \<in> set ACTION_ORDER \<and>
    (\<exists>e\<in>set (action_policy_entries rk). contribution rk live d (ac_code a) e \<noteq> None) \<and>
    set (ac_rules a) = {x. \<exists>e\<in>set (action_policy_entries rk). \<exists>R I V.
       contribution rk live d (ac_code a) e = Some (R, I, V) \<and> x \<in> set R} \<and>
    set (ac_indicators a) = {x. \<exists>e\<in>set (action_policy_entries rk). \<exists>R I V.
       contribution rk live d (ac_code a) e = Some (R, I, V) \<and> x \<in> set I} \<and>
    set (ac_overrides a) = {x. \<exists>e\<in>set (action_policy_entries rk). \<exists>R I V.
       contribution rk live d (ac_code a) e = Some (R, I, V) \<and> x \<in> set V} \<and>
    set (ac_evidence a) = {x. \<exists>e\<in>set (action_policy_entries rk).
       contribution rk live d (ac_code a) e \<noteq> None \<and> x \<in> set (ap_evidence e)} \<and>
    set (ac_rules a) \<subseteq> set (contributing_rule_ids d) \<and> set (ac_indicators a) \<subseteq> set (dr_negative d) \<and>
    set (ac_overrides a) \<subseteq> set (dr_overrides d)"
proof -
  have j: "justified rk live d (set (action_policy_entries rk)) (ac_code a) a" "ac_code a \<in> set ACTION_ORDER"
    using actions_justified(2) [OF assms] by simp_all
  have "set (ac_rules a) \<subseteq> set (contributing_rule_ids d)" "set (ac_indicators a) \<subseteq> set (dr_negative d)"
    "set (ac_overrides a) \<subseteq> set (dr_overrides d)"
    using j(1) contribution_sources [of rk live d "ac_code a"] unfolding justified_def by blast+
  with j show ?thesis unfolding justified_def by blast
qed

end
