(* ===== verification/Result.thy ===== *)
theory Result
  imports Explanation
begin

text \<open>
  knowledge/runtime/result.py: the production entry point and the assembly of the final result. The
  envelope is a record whose decision part has the fields of \<open>DecisionResult.as_decision_dict\<close>.
  Parameters: the JSON Schema validators (also one on the assembled result) and the standard
  library's timestamp parser, which returns nothing for a \<open>ValueError\<close> and otherwise whether the
  instant carries an offset.
\<close>

section \<open>Constants\<close>

definition ENGINE_VERSION :: string where
  "ENGINE_VERSION = ''1.0.0''"

definition RESULT_CONTRACT_VERSION :: string where
  "RESULT_CONTRACT_VERSION = ''1.1.0''"

definition RISK_MATRIX_ID :: string where
  "RISK_MATRIX_ID = ''risk-matrix-v1''"

definition CONFIDENCE_POLICY_ID :: string where
  "CONFIDENCE_POLICY_ID = ''confidence-policy-v1''"

definition SUPPORT_VALUES :: "(string \<times> support_status) list" where
  "SUPPORT_VALUES =
     [(''SUPPORTED'', S_SUPPORTED), (''PARTIALLY_SUPPORTED'', S_PARTIALLY_SUPPORTED),
      (''UNSUPPORTED'', S_UNSUPPORTED), (''INSUFFICIENT_INFORMATION'', S_INSUFFICIENT_INFORMATION),
      (''ERROR'', S_ERROR)]"

definition is_real_iso8601_instant :: "(string \<Rightarrow> bool option) \<Rightarrow> pyval \<Rightarrow> bool" where
  "is_real_iso8601_instant fromisoformat v =
     (case v of
        PStr s \<Rightarrow>
          s \<noteq> [] \<and>
          (let text = (if last s = CHR ''Z'' then butlast s @ ''+00:00'' else s)
           in fromisoformat text = Some True)
      | _ \<Rightarrow> False)"

section \<open>The envelope\<close>

record provenance =
  pv_bundle_version :: string
  pv_content_digest :: string
  pv_commit_sha :: string
  pv_engine_version :: string
  pv_profile :: profile
  pv_components :: "string dict"

record detection_result =
  de_support :: support_status
  de_classification :: classification
  de_severity :: level
  de_strength :: strength
  de_risk :: level
  de_confidence :: "confidence option"
  de_corroboration :: corroboration
  de_matched_rules :: "string list"
  de_positive :: "string list"
  de_negative :: "string list"
  de_suppressed :: "string list"
  de_overrides :: "string list"
  de_results :: "rule_result list"
  de_degraded :: bool
  de_ambiguities :: "string list"
  de_unknowns :: "string list"
  de_errors :: "eval_error list"
  de_contract_version :: string
  de_evaluation_id :: string
  de_timestamp :: string
  de_input_id :: string
  de_language :: "string list"
  de_script :: "string list"
  de_provenance :: provenance
  de_explanation :: explanation
  de_actions :: "action list"
  de_limitations :: "string list"

section \<open>Semantic invariants\<close>

definition matched_rule_ids :: "detection_result \<Rightarrow> string list" where
  "matched_rule_ids r = sort (map rr_rule_id (filter (\<lambda>x. rr_state x = MATCHED) (de_results r)))"

text \<open>\<open>re.search("probab|likelihood|percent", k, re.I) or k.lower() == "score"\<close>\<close>

definition lower :: "string \<Rightarrow> string" where
  "lower s = map (\<lambda>c. let n = (of_char c :: nat) in if 65 \<le> n \<and> n \<le> 90 then char_of (n + 32) else c) s"

definition probability_key :: "string \<Rightarrow> bool" where
  "probability_key k \<longleftrightarrow>
     list_ex (\<lambda>w. is_substring w (lower k)) [''probab'', ''likelihood'', ''percent''] \<or> lower k = ''score''"

fun probability_keys :: "json \<Rightarrow> string \<Rightarrow> string list"
and probability_members :: "json dict \<Rightarrow> string \<Rightarrow> string list"
and probability_elements :: "json list \<Rightarrow> nat \<Rightarrow> string \<Rightarrow> string list" where
  "probability_keys (JObj kvs) path = probability_members kvs path"
| "probability_keys (JArr xs) path = probability_elements xs 0 path"
| "probability_keys _ path = []"
| "probability_members [] path = []"
| "probability_members ((k, v) # kvs) path =
     (if probability_key k then [path @ ''/'' @ k] else []) @ probability_keys v (path @ ''/'' @ k) @
     probability_members kvs path"
| "probability_elements [] i path = []"
| "probability_elements (x # xs) i path =
     probability_keys x (path @ ''/'' @ nat_text i) @ probability_elements xs (Suc i) path"

text \<open>
  The part of the assembled document whose keys come from data: per rule result the two maps keyed by
  indicator ids. Every other key is a fixed name of the result contract, and none of those matches.
\<close>

definition keyed_maps :: "rule_result \<Rightarrow> json" where
  "keyed_maps r = JObj
     [(''extraction_confidence_inputs'', JObj (map (\<lambda>(i, c). (i, JStr (confidence_text c))) (rr_confidence r))),
      (''live_positive_provenance'',
       JObj (map (\<lambda>(i, gs). (i, JArr (map (\<lambda>g. JArr (map JStr g)) gs))) (rr_provenance r)))]"

definition keyed_document :: "detection_result \<Rightarrow> json" where
  "keyed_document r = JObj [(''rule_results'', JArr (map keyed_maps (de_results r)))]"

text \<open>\<open>re.match("^\\d+\\.\\d+\\.\\d+$", s)\<close>; the dollar also matches before a final newline.\<close>

definition semver_match :: "string \<Rightarrow> bool" where
  "semver_match s \<longleftrightarrow>
     (let a = takeWhile is_digit s; r1 = dropWhile is_digit s;
          b = takeWhile is_digit (tl r1); r2 = dropWhile is_digit (tl r1);
          c = takeWhile is_digit (tl r2); r3 = dropWhile is_digit (tl r2)
      in a \<noteq> [] \<and> r1 \<noteq> [] \<and> hd r1 = CHR ''.'' \<and> b \<noteq> [] \<and> r2 \<noteq> [] \<and> hd r2 = CHR ''.'' \<and> c \<noteq> [] \<and>
         (r3 = [] \<or> r3 = [CHR 0x0A]))"

definition flag :: "bool \<Rightarrow> string \<Rightarrow> string list" where
  "flag bad msg = (if bad then [msg] else [])"

definition risk_violation :: "detection_result \<Rightarrow> string list" where
  "risk_violation r =
     (case RISK_MATRIX (de_severity r) (de_strength r) of
        None \<Rightarrow> [''illegal severity and strength for the risk matrix'']
      | Some expected \<Rightarrow> flag (de_risk r \<noteq> expected) ''risk_level is not the matrix entry'')"

definition support_violations :: "detection_result \<Rightarrow> string list" where
  "support_violations r =
     flag (de_support r = S_UNSUPPORTED \<and> de_classification r \<noteq> CL_UNSUPPORTED)
       ''UNSUPPORTED input must have classification UNSUPPORTED'' @
     flag (de_support r = S_ERROR \<and> de_classification r \<noteq> CL_ERROR)
       ''ERROR input must have classification ERROR'' @
     flag (de_support r = S_INSUFFICIENT_INFORMATION \<and> de_classification r \<noteq> CL_INSUFFICIENT_EVIDENCE)
       ''INSUFFICIENT_INFORMATION input must classify as INSUFFICIENT_EVIDENCE''"

definition fired_violations :: "detection_result \<Rightarrow> string list" where
  "fired_violations r =
     (if matched_rule_ids r \<noteq> [] then
        flag (de_classification r \<notin> set SCAM_CLASSES) ''fired rules present without a scam classification'' @
        flag (de_confidence r = Some C_LOW \<and> de_classification r \<noteq> CL_SCAM_PATTERN_SUSPECTED)
          ''LOW confidence with a fired rule must be SUSPECTED'' @
        flag (de_confidence r \<in> {Some C_MEDIUM, Some C_HIGH} \<and> de_classification r \<noteq> CL_SCAM_PATTERN_DETECTED)
          ''MEDIUM or HIGH confidence with a fired rule must be DETECTED'' @
        flag (de_severity r = NONE) ''fired rules present but decision_severity is NONE''
      else
        flag (de_classification r \<in> set SCAM_CLASSES) ''no fired rules but a scam classification'' @
        flag (de_severity r \<noteq> NONE \<or> de_risk r \<noteq> NONE \<or> de_confidence r \<noteq> None)
          ''no fired rules must yield severity and risk NONE'')"

definition policy_pin_violations :: "detection_result \<Rightarrow> string list" where
  "policy_pin_violations r =
     (if de_contract_version r = ''1.1.0'' then
        (case map_of (pv_components (de_provenance r)) ''action_policy'' of
           None \<Rightarrow> [''no provenance.component_versions.action_policy pin'']
         | Some ap \<Rightarrow> flag (\<not> semver_match ap) ''malformed action_policy pin'')
      else [])"

definition semantic_violations :: "detection_result \<Rightarrow> string list" where
  "semantic_violations r =
     flag (set (de_matched_rules r) \<noteq> set (matched_rule_ids r)) ''matched_rules != MATCHED rule_results'' @
     risk_violation r @ support_violations r @ fired_violations r @
     concat (map (\<lambda>a. flag (ac_code a \<notin> set ACTION_ORDER) ''action not in the controlled vocabulary'')
       (de_actions r)) @
     policy_pin_violations r"

section \<open>Provenance and assembly\<close>

definition COMPONENT_KEY_MAP :: "(string \<times> string) list" where
  "COMPONENT_KEY_MAP =
     [(''rule_schema'', ''rule_schema''), (''indicator_registry'', ''indicator_registry''),
      (''indicator_families'', ''indicator_families''), (''negative_library'', ''negative_library''),
      (''taxonomy'', ''taxonomy''), (''dimensions'', ''dimensions''),
      (''extraction_schemas'', ''extraction_contracts''), (''action_policy'', ''action_policy'')]"

fun translate_required :: "(string \<times> string) list \<Rightarrow> string dict \<Rightarrow> string dict res" where
  "translate_required [] cv = Inr []"
| "translate_required ((src, dst) # ks) cv =
     (case map_of cv src of
        None \<Rightarrow> Inl (DetectionResultError ''PROVENANCE_MISMATCH'' (''missing required key '' @ src))
      | Some v \<Rightarrow> rbind (translate_required ks cv) (\<lambda>rest. Inr ((dst, v) # rest)))"

definition translate_component_versions :: "string dict \<Rightarrow> string dict res" where
  "translate_component_versions cv =
     rbind (translate_required (filter (\<lambda>(src, _). src \<noteq> ''action_policy'') COMPONENT_KEY_MAP) cv) (\<lambda>out.
       Inr (case nonempty (map_of cv ''action_policy'') of
              None \<Rightarrow> out
            | Some v \<Rightarrow> out @ [(''action_policy'', v)]))"

definition build_provenance ::
    "runtime_knowledge \<Rightarrow> decision \<Rightarrow> explanation_result \<Rightarrow> provenance res" where
  "build_provenance rk d er =
     rbind (translate_component_versions (md_component_versions (rk_meta rk))) (\<lambda>cv.
     let ap_comp = map_of cv ''action_policy'' in
     if ap_comp = None \<or> action_policy_version rk \<noteq> er_policy_version er \<or> er_policy_version er \<noteq> ap_comp
     then Inl (DetectionResultError ''ACTION_POLICY_MISMATCH'' ''action-policy pin disagreement'')
     else Inr
       \<lparr>pv_bundle_version = md_bundle_version (rk_meta rk), pv_content_digest = md_content_digest (rk_meta rk),
        pv_commit_sha = md_commit_sha (rk_meta rk), pv_engine_version = ENGINE_VERSION,
        pv_profile = dr_profile d, pv_components = cv\<rparr>)"

definition assemble_result_dict ::
    "runtime_knowledge \<Rightarrow> decision \<Rightarrow> explanation_result \<Rightarrow> string \<Rightarrow> string \<Rightarrow> string
     \<Rightarrow> string list \<Rightarrow> string list \<Rightarrow> detection_result res" where
  "assemble_result_dict rk d er eid ts iid language script =
     rbind (build_provenance rk d er) (\<lambda>prov. Inr
       \<lparr>de_support = dr_support d, de_classification = dr_classification d, de_severity = dr_severity d,
        de_strength = dr_strength d, de_risk = dr_risk d, de_confidence = dr_confidence d,
        de_corroboration = dr_corroboration d, de_matched_rules = dr_matched_rules d,
        de_positive = dr_positive d, de_negative = dr_negative d, de_suppressed = dr_suppressed d,
        de_overrides = dr_overrides d, de_results = dr_results d, de_degraded = dr_degraded d,
        de_ambiguities = dr_ambiguities d, de_unknowns = dr_unknowns d, de_errors = dr_errors d,
        de_contract_version = RESULT_CONTRACT_VERSION, de_evaluation_id = eid, de_timestamp = ts,
        de_input_id = iid, de_language = language, de_script = script, de_provenance = prov,
        de_explanation = er_explanation er, de_actions = er_actions er,
        de_limitations = ex_limitations (er_explanation er)\<rparr>)"

fun first_failure :: "(bool \<times> exc) list \<Rightarrow> unit res" where
  "first_failure [] = Inr ()"
| "first_failure ((ok, e) # cs) = (if ok then first_failure cs else Inl e)"

lemma first_failure_eq [simp, res_simps]: "first_failure cs = Inr u \<longleftrightarrow> list_all fst cs"
  by (induction cs rule: first_failure.induct) auto

definition reconcile ::
    "detection_result \<Rightarrow> runtime_knowledge \<Rightarrow> decision \<Rightarrow> explanation_result \<Rightarrow> unit res" where
  "reconcile r rk d er =
     (let inconsistent = DetectionResultError ''ASSEMBLY_INCONSISTENCY'';
          mismatch = DetectionResultError ''PROVENANCE_MISMATCH'';
          profile = DetectionResultError ''PROFILE_MISMATCH'';
          prov = de_provenance r; meta = rk_meta rk in
      rbind (first_failure
        [(de_support r = dr_support d, inconsistent ''input_support_status''),
         (de_classification r = dr_classification d, inconsistent ''classification''),
         (de_severity r = dr_severity d, inconsistent ''decision_severity''),
         (de_strength r = dr_strength d, inconsistent ''matched_evidence_strength''),
         (de_risk r = dr_risk d, inconsistent ''risk_level''),
         (de_confidence r = dr_confidence d, inconsistent ''detection_confidence''),
         (de_results r = dr_results d, inconsistent ''rule_results''),
         (de_matched_rules r = dr_matched_rules d, inconsistent ''matched_rules''),
         (de_positive r = dr_positive d, inconsistent ''matched_positive_indicators''),
         (de_negative r = dr_negative d, inconsistent ''matched_negative_indicators''),
         (de_suppressed r = dr_suppressed d, inconsistent ''suppressed_indicators''),
         (de_overrides r = dr_overrides d, inconsistent ''active_overrides''),
         (de_corroboration r = dr_corroboration d, inconsistent ''corroboration_summary''),
         (de_degraded r = dr_degraded d, inconsistent ''degraded''),
         (de_ambiguities r = dr_ambiguities d, inconsistent ''ambiguities''),
         (de_unknowns r = dr_unknowns d, inconsistent ''unknowns''),
         (de_errors r = dr_errors d, inconsistent ''errors''),
         (de_explanation r = er_explanation er, inconsistent ''explanation''),
         (de_actions r = er_actions er, inconsistent ''recommended_actions''),
         (ex_limitations (er_explanation er) = [] \<or> de_limitations r = ex_limitations (er_explanation er),
          inconsistent ''limitations''),
         (pv_bundle_version prov = md_bundle_version meta \<and> pv_content_digest prov = md_content_digest meta \<and>
          pv_commit_sha prov = md_commit_sha meta, mismatch ''bundle provenance''),
         (pv_engine_version prov = ENGINE_VERSION, mismatch ''engine_version'')]) (\<lambda>_.
      rbind (translate_component_versions (md_component_versions meta)) (\<lambda>cv.
      first_failure
        [(pv_components prov = cv, mismatch ''component_versions''),
         (pv_profile prov = dr_profile d \<and> pv_profile prov = DEFAULT_PROFILE, profile ''evaluation_profile''),
         (pf_risk_matrix_id DEFAULT_PROFILE = RISK_MATRIX_ID \<and>
          pf_confidence_policy_id DEFAULT_PROFILE = CONFIDENCE_POLICY_ID \<and>
          pf_risk_matrix_id (pv_profile prov) = RISK_MATRIX_ID \<and>
          pf_confidence_policy_id (pv_profile prov) = CONFIDENCE_POLICY_ID \<and>
          pf_risk_matrix_id (dr_profile d) = RISK_MATRIX_ID \<and>
          pf_confidence_policy_id (dr_profile d) = CONFIDENCE_POLICY_ID, profile ''policy ids''),
         (map_of (pv_components prov) ''action_policy'' = action_policy_version rk \<and>
          action_policy_version rk = er_policy_version er,
          DetectionResultError ''ACTION_POLICY_MISMATCH'' ''action-policy pin does not reconcile'')])))"

definition validate_and_freeze ::
    "(detection_result \<Rightarrow> bool) \<Rightarrow> detection_result \<Rightarrow> runtime_knowledge \<Rightarrow> decision \<Rightarrow> explanation_result
     \<Rightarrow> detection_result res" where
  "validate_and_freeze det_ok r rk d er =
     rbind (first_failure
       [(det_ok r, DetectionResultError ''RESULT_SCHEMA_INVALID'' ''fails detection-result.schema.json''),
        (semantic_violations r @ probability_keys (keyed_document r) [] = [],
         DetectionResultError ''RESULT_SEMANTIC_INVALID'' ''fails semantic validation'')]) (\<lambda>_.
     rbind (reconcile r rk d er) (\<lambda>_. Inr r))"

section \<open>The input context\<close>

definition identity_string :: "string \<Rightarrow> pyval \<Rightarrow> string res" where
  "identity_string name v =
     (case v of
        PStr s \<Rightarrow> if s = [] then Inl (DetectionResultError ''INVALID_IDENTITY'' name) else Inr s
      | _ \<Rightarrow> Inl (DetectionResultError ''INVALID_IDENTITY'' name))"

text \<open>The checked values come back as strings: evaluation id, timestamp, input id.\<close>

definition validate_identity ::
    "(string \<Rightarrow> bool option) \<Rightarrow> pyval \<Rightarrow> pyval \<Rightarrow> pyval \<Rightarrow> (string \<times> string \<times> string) res" where
  "validate_identity fromisoformat eid ts iid =
     rbind (identity_string ''evaluation_id'' eid) (\<lambda>e.
     rbind (identity_string ''input_id'' iid) (\<lambda>i.
     if is_real_iso8601_instant fromisoformat ts
     then (case ts of PStr t \<Rightarrow> Inr (e, t, i)
                    | _ \<Rightarrow> Inl (DetectionResultError ''INVALID_IDENTITY'' ''evaluation_timestamp''))
     else Inl (DetectionResultError ''INVALID_IDENTITY'' ''evaluation_timestamp'')))"

fun nonempty_strings :: "pyval list \<Rightarrow> string list option" where
  "nonempty_strings [] = Some []"
| "nonempty_strings (PStr s # vs) =
     (if s = [] then None else map_option (\<lambda>ss. s # ss) (nonempty_strings vs))"
| "nonempty_strings _ = None"

definition validate_seq :: "string \<Rightarrow> pyval \<Rightarrow> string list res" where
  "validate_seq name v =
     (case v of
        PSeq vs \<Rightarrow>
          (case nonempty_strings vs of
             Some (s # ss) \<Rightarrow> Inr (s # ss)
           | _ \<Rightarrow> Inl (DetectionResultError ''INVALID_INPUT_CONTEXT'' name))
      | _ \<Rightarrow> Inl (DetectionResultError ''INVALID_INPUT_CONTEXT'' name))"

definition single_scalar :: "string list \<Rightarrow> string list \<Rightarrow> (string \<times> string) res" where
  "single_scalar language script =
     (case (language, script) of
        ([l], [s]) \<Rightarrow> Inr (l, s)
      | _ \<Rightarrow> Inl (DetectionResultError ''INVALID_INPUT_CONTEXT'' ''multi-valued evaluable context''))"

definition assemble_detection_result ::
    "(string \<Rightarrow> bool option) \<Rightarrow> (detection_result \<Rightarrow> bool) \<Rightarrow> runtime_knowledge \<Rightarrow> decision \<Rightarrow> explanation_result
     \<Rightarrow> pyval \<Rightarrow> pyval \<Rightarrow> pyval \<Rightarrow> pyval \<Rightarrow> pyval \<Rightarrow> detection_result res" where
  "assemble_detection_result fromisoformat det_ok rk d er eid ts iid language script =
     rbind (validate_identity fromisoformat eid ts iid) (\<lambda>(e, t, i).
     rbind (validate_seq ''language'' language) (\<lambda>langs.
     rbind (validate_seq ''script'' script) (\<lambda>scripts.
     rbind (assemble_result_dict rk d er e t i langs scripts) (\<lambda>r.
       validate_and_freeze det_ok r rk d er))))"

section \<open>The production entry point\<close>

text \<open>
  The decision of the support-first gate, with the observations the explanation may cite: the rules
  run only for an evaluable support status and no whole-evaluation error.
\<close>

definition gated_decision ::
    "(json \<Rightarrow> bool) \<Rightarrow> (json \<Rightarrow> bool) \<Rightarrow> (rule_result \<Rightarrow> bool) \<Rightarrow> (eval_error \<Rightarrow> bool) \<Rightarrow> runtime_knowledge
     \<Rightarrow> pyval \<Rightarrow> pyval \<Rightarrow> string list \<Rightarrow> string list \<Rightarrow> support_status \<Rightarrow> eval_error list
     \<Rightarrow> (decision \<times> json list option) res" where
  "gated_decision io_ok obs_ok schema_ok error_ok rk inds obs langs scripts support whole_errors =
     (if whole_errors \<noteq> [] then
        rbind (aggregate_decision schema_ok error_ok rk DEFAULT_PROFILE S_ERROR [] whole_errors)
          (\<lambda>d. Inr (d, None))
      else if support \<in> set EVALUABLE_SUPPORT then
        rbind (single_scalar langs scripts) (\<lambda>(l, s).
        rbind (evaluate_decision_from_governed io_ok obs_ok schema_ok error_ok rk DEFAULT_PROFILE
                 inds obs support l s []) (\<lambda>d.
          Inr (d, case snapshot_list obs of Inr os \<Rightarrow> Some os | Inl _ \<Rightarrow> None)))
      else
        rbind (aggregate_decision schema_ok error_ok rk DEFAULT_PROFILE support [] [])
          (\<lambda>d. Inr (d, None)))"

definition evaluate_detection_from_governed ::
    "(string \<Rightarrow> bool option) \<Rightarrow> (json \<Rightarrow> bool) \<Rightarrow> (json \<Rightarrow> bool) \<Rightarrow> (rule_result \<Rightarrow> bool) \<Rightarrow> (eval_error \<Rightarrow> bool)
     \<Rightarrow> (detection_result \<Rightarrow> bool) \<Rightarrow> runtime_knowledge \<Rightarrow> pyval \<Rightarrow> pyval \<Rightarrow> pyval \<Rightarrow> pyval \<Rightarrow> pyval
     \<Rightarrow> pyval \<Rightarrow> pyval \<Rightarrow> string \<Rightarrow> eval_error list \<Rightarrow> detection_result res" where
  "evaluate_detection_from_governed fromisoformat io_ok obs_ok schema_ok error_ok det_ok rk inds obs
       eid ts iid language script support_text whole_errors =
     rbind (validate_identity fromisoformat eid ts iid) (\<lambda>_.
     rbind (validate_seq ''language'' language) (\<lambda>langs.
     rbind (validate_seq ''script'' script) (\<lambda>scripts.
     case map_of SUPPORT_VALUES support_text of
       None \<Rightarrow> Inl (DetectionResultError ''INVALID_INPUT_CONTEXT'' ''unknown input_support_status'')
     | Some support \<Rightarrow>
         if whole_errors \<noteq> [] \<and> support \<noteq> S_ERROR
         then Inl (DetectionResultError ''INVALID_INPUT_CONTEXT''
                     ''whole_evaluation_errors require input_support_status=ERROR'')
         else
           rbind (gated_decision io_ok obs_ok schema_ok error_ok rk inds obs langs scripts support whole_errors)
             (\<lambda>(d, observations).
           rbind (build_explanation schema_ok error_ok rk d observations) (\<lambda>er.
             assemble_detection_result fromisoformat det_ok rk d er eid ts iid language script)))))"

end
