(* ===== verification/ResultProps.thy ===== *)
theory ResultProps
  imports Result ExplanationContent
begin

text \<open>
  What the production entry point promises: an input that must not be evaluated never reaches the
  rules; a returned result is the decision it was assembled from, pinned to the loaded bundle and
  free of semantic violations; for a deployable bundle and a valid input a result is always returned.
\<close>

section \<open>The emitted result\<close>

lemma assemble_result_fields:
  assumes "assemble_result_dict rk d er e t i langs scripts = Inr r"
  shows "de_support r = dr_support d" "de_classification r = dr_classification d"
    "de_severity r = dr_severity d" "de_strength r = dr_strength d" "de_risk r = dr_risk d"
    "de_confidence r = dr_confidence d" "de_results r = dr_results d" "de_matched_rules r = dr_matched_rules d"
    "de_positive r = dr_positive d" "de_errors r = dr_errors d" "de_degraded r = dr_degraded d"
    "de_explanation r = er_explanation er" "de_actions r = er_actions er"
    "de_contract_version r = RESULT_CONTRACT_VERSION"
    "build_provenance rk d er = Inr (de_provenance r)"
    "de_language r = langs" "de_script r = scripts" "de_limitations r = ex_limitations (er_explanation er)"
    "de_evaluation_id r = e" "de_timestamp r = t" "de_input_id r = i"
  using assms by (auto simp: assemble_result_dict_def rbind_eq_Inr)

text \<open>The reconciliation can only fail on the profile: everything else is copied.\<close>

lemma reconcile_assembled:
  assumes "assemble_result_dict rk d er e t i langs scripts = Inr r" "dr_profile d = DEFAULT_PROFILE"
  shows "reconcile r rk d er = Inr ()"
proof -
  obtain cv where cv: "translate_component_versions (md_component_versions (rk_meta rk)) = Inr cv"
    using assms(1) by (auto simp: assemble_result_dict_def build_provenance_def rbind_eq_Inr)
  show ?thesis
    using assms
    by (auto simp: assemble_result_dict_def build_provenance_def rbind_eq_Inr cv reconcile_def Let_def
        DEFAULT_PROFILE_def RISK_MATRIX_ID_def CONFIDENCE_POLICY_ID_def split: if_splits
        simp del: first_failure.simps)
qed

lemma validated_result:
  assumes "validate_and_freeze det_ok r rk d er = Inr r'"
  shows "r' = r" "det_ok r" "semantic_violations r = []" "probability_keys (keyed_document r) [] = []"
    "reconcile r rk d er = Inr ()"
  using assms by (auto simp: validate_and_freeze_def rbind_eq_Inr simp del: first_failure.simps)

lemma detection_parts:
  assumes "evaluate_detection_from_governed fi io_ok obs_ok ok eok det_ok rk inds obs eid ts iid lang scr st we = Inr r"
  obtains support langs scripts d os er e t i where
    "map_of SUPPORT_VALUES st = Some support" "we = [] \<or> support = S_ERROR"
    "validate_seq ''language'' lang = Inr langs" "validate_seq ''script'' scr = Inr scripts"
    "gated_decision io_ok obs_ok ok eok rk inds obs langs scripts support we = Inr (d, os)"
    "build_explanation ok eok rk d os = Inr er"
    "assemble_result_dict rk d er e t i langs scripts = Inr r"
    "validate_and_freeze det_ok r rk d er = Inr r"
proof -
  from assms obtain langs scripts support d os er where s:
    "validate_seq ''language'' lang = Inr langs" "validate_seq ''script'' scr = Inr scripts"
    "map_of SUPPORT_VALUES st = Some support" "we = [] \<or> support = S_ERROR"
    "gated_decision io_ok obs_ok ok eok rk inds obs langs scripts support we = Inr (d, os)"
    "build_explanation ok eok rk d os = Inr er"
    "assemble_detection_result fi det_ok rk d er eid ts iid lang scr = Inr r"
    by (auto simp: evaluate_detection_from_governed_def rbind_eq_Inr split: option.splits if_splits)
  from s(7) obtain e t i r0 where a: "assemble_result_dict rk d er e t i langs scripts = Inr r0"
    "validate_and_freeze det_ok r0 rk d er = Inr r"
    by (auto simp: assemble_detection_result_def rbind_eq_Inr s(1,2))
  have "r = r0" by (rule validated_result(1) [OF a(2)])
  with a s that show thesis by simp
qed

section \<open>The support-first gate\<close>

lemma gate_closed:
  "we \<noteq> [] \<or> support \<notin> set EVALUABLE_SUPPORT \<Longrightarrow>
     gated_decision io_ok obs_ok ok eok rk inds obs langs scripts support we =
     gated_decision io_ok obs_ok ok eok rk inds' obs' langs scripts support we"
  by (auto simp: gated_decision_def)

theorem detection_gate_closed:
  assumes "we \<noteq> [] \<or> map_of SUPPORT_VALUES st \<notin> Some ` set EVALUABLE_SUPPORT"
  shows "evaluate_detection_from_governed fi io_ok obs_ok ok eok det_ok rk inds obs eid ts iid lang scr st we =
     evaluate_detection_from_governed fi io_ok obs_ok ok eok det_ok rk inds' obs' eid ts iid lang scr st we"
proof (cases "map_of SUPPORT_VALUES st")
  case (Some support)
  then have "we \<noteq> [] \<or> support \<notin> set EVALUABLE_SUPPORT" using assms by auto
  then have g: "gated_decision io_ok obs_ok ok eok rk inds obs langs scripts support we =
      gated_decision io_ok obs_ok ok eok rk inds' obs' langs scripts support we" for langs scripts
    by (rule gate_closed)
  show ?thesis unfolding evaluate_detection_from_governed_def Some option.case g ..
qed (simp add: evaluate_detection_from_governed_def)

text \<open>A decision over no rules.\<close>

lemma aggregate_nothing:
  assumes "aggregate_decision ok eok rk pf support [] we = Inr d" "we \<noteq> [] \<or> \<not> evaluable support"
  shows "d = assemble support (classify support [] [] None False (we \<noteq> [])) NONE NO_STRENGTH NONE None
    (no_corroboration NONE) None None [] [] False we pf" "list_all eok we"
  using assms
  by (auto simp: aggregate_decision_def rbind_eq_Inr agg_boundary_def Let_def guard_def
      List.map_filter_simps split: if_splits)

lemma aggregate_nothing_total:
  "list_all eok we \<Longrightarrow> we \<noteq> [] \<or> \<not> evaluable support \<Longrightarrow> \<exists>d. aggregate_decision ok eok rk pf support [] we = Inr d"
  by (auto simp: aggregate_decision_def agg_boundary_def Let_def guard_def List.map_filter_simps)

fun refusal_class :: "support_status \<Rightarrow> classification" where
  "refusal_class S_ERROR = CL_ERROR"
| "refusal_class S_UNSUPPORTED = CL_UNSUPPORTED"
| "refusal_class _ = CL_INSUFFICIENT_EVIDENCE"

lemma gated_refusal:
  assumes "gated_decision io_ok obs_ok ok eok rk inds obs langs scripts support we = Inr (d, os)"
    "we = [] \<or> support = S_ERROR" "support \<notin> set EVALUABLE_SUPPORT"
  shows "d = assemble support (refusal_class support) NONE NO_STRENGTH NONE None
    (no_corroboration NONE) None None [] [] False we DEFAULT_PROFILE" "os = None" "list_all eok we"
proof -
  have nev: "we \<noteq> [] \<or> \<not> evaluable support" using assms(3) by (auto simp: EVALUABLE_SUPPORT_def)
  have run: "aggregate_decision ok eok rk DEFAULT_PROFILE support [] we = Inr d \<and> os = None"
    using assms by (cases "we = []") (auto simp: gated_decision_def rbind_eq_Inr)
  from run show "os = None" by simp
  note a = aggregate_nothing [OF conjunct1 [OF run] nev]
  from a(2) show "list_all eok we" .
  have "classify support [] [] None False (we \<noteq> []) = refusal_class support"
    using assms(2,3) by (cases support) (auto simp: classify_def EVALUABLE_SUPPORT_def)
  with a(1) show "d = assemble support (refusal_class support) NONE NO_STRENGTH NONE None
    (no_corroboration NONE) None None [] [] False we DEFAULT_PROFILE" by simp
qed

section \<open>What a returned result says\<close>

theorem detection_refusal:
  assumes "evaluate_detection_from_governed fi io_ok obs_ok ok eok det_ok rk inds obs eid ts iid lang scr st we = Inr r"
    and "map_of SUPPORT_VALUES st = Some support" "support \<notin> set EVALUABLE_SUPPORT"
  shows "de_classification r = refusal_class support \<and> de_results r = [] \<and> de_matched_rules r = [] \<and>
    de_risk r = NONE \<and> de_support r = support \<and> de_confidence r = None"
  using assms(1)
proof (cases rule: detection_parts)
  case (1 support' langs scripts d os er e t i)
  have d: "d = assemble support (refusal_class support) NONE NO_STRENGTH NONE None
    (no_corroboration NONE) None None [] [] False we DEFAULT_PROFILE"
    using gated_refusal(1) [OF 1(5)] 1(1,2) assms(2,3) by simp
  show ?thesis
    unfolding assemble_result_fields [OF 1(7)] by (simp add: d assemble_def Let_def)
qed

lemma detection_consistent_all:
  assumes "evaluate_detection_from_governed fi io_ok obs_ok ok eok det_ok rk inds obs eid ts iid lang scr st we = Inr r"
  shows "semantic_violations r = [] \<and> probability_keys (keyed_document r) [] = [] \<and> det_ok r \<and>
    pv_content_digest (de_provenance r) = md_content_digest (rk_meta rk) \<and>
    pv_commit_sha (de_provenance r) = md_commit_sha (rk_meta rk) \<and>
    pv_engine_version (de_provenance r) = ENGINE_VERSION \<and>
    pv_profile (de_provenance r) = DEFAULT_PROFILE \<and>
    map_of (pv_components (de_provenance r)) ''action_policy'' = action_policy_version rk"
  using assms
proof (cases rule: detection_parts)
  case (1 support langs scripts d os er e t i)
  note v = validated_result [OF 1(8)]
  show ?thesis
    using v by (auto simp: reconcile_def Let_def rbind_eq_Inr simp del: first_failure.simps)
qed

section \<open>The results behind a decision\<close>

lemma evaluate_validated_kind:
  assumes "evaluate_validated rk pf rid ctx = Inr res" "rk_rule rk rid = Some r"
  shows "rr_kind res = ru_kind r"
proof -
  have body: "rr_kind x = ru_kind r" if "evaluate_rule_body rk pf r a b (ru_kind r) ctx = Inr x" for x a b
    using that composite_cases [of rk pf r a b ctx x] suppression_path_sound [of rk pf r a b ctx x]
    by (cases "ru_kind r") (auto simp: evaluate_rule_body_def rbind_eq_Inr split: json.splits if_splits)
  have "rr_kind x = ru_kind r" if "run_isolated rk pf r a b (ru_kind r) ctx = Inr x" for x a b
    using that body by (auto simp: run_isolated_def split: sum.splits exc.splits if_splits)
  then show ?thesis using assms by (auto simp: evaluate_validated_def split: if_splits)
qed

lemma composite_confidence:
  assumes "evaluate_composite rk pf r rid rver ctx = Inr res"
  shows "fst ` set (rr_confidence res) \<subseteq> set (positive_ids rk)"
proof (rule composite_cases [OF assms])
  fix logic min_classes active blocked targets pt ne lp ops
  assume s: "ru_logic r = JObj logic" "min_evidence_classes logic = Inr min_classes"
    "active_overrides rk rid (rule_categories r) (truth (fst (positive_truth_map rk pf ctx))) =
       Inr (active, blocked)"
    "rr_matched_negative res = matched_negatives rk pf ctx (rule_categories r)"
    "active_suppressor_occurrences rk pf ctx (rr_matched_negative res) active blocked = Inr targets"
    "execute_suppression pf ctx targets (positive_truth_map rk pf ctx) = (pt, ne, lp)"
    "eval_condition (truth pt) (jget logic ''require'') = Inr (rr_required res)"
    "operands (jget logic ''require'') = Inr ops"
    "suppression_candidates rk (rr_matched_negative res) blocked (active \<noteq> []) = Inr (rr_suppression res)"
    "effective_of r = Inr (rr_effective res)"
  obtain req supp eff where g: "eval_condition (truth pt) (jget logic ''require'') = Inr req"
    "suppression_candidates rk (matched_negatives rk pf ctx (rule_categories r)) blocked (active \<noteq> []) = Inr supp"
    "effective_of r = Inr eff"
    using s(4,7,9,10) by simp
  show ?thesis
    using assms
    by (auto simp: evaluate_composite_def s(1-3,6,8) g s(5) [unfolded s(4)] Let_def attach_match_provenance_def
        blank_result_def extraction_confidence_inputs_def split: prod.splits if_splits)
qed

lemma blank_confidence [simp]: "rr_confidence (blank_result rid rver k st req) = []"
  "rr_confidence (not_applicable rid rver k c m) = []" "rr_confidence (degraded_result r m) = []"
  by (simp_all add: blank_result_def not_applicable_def degraded_result_def)

lemma evaluate_validated_confidence:
  assumes "evaluate_validated rk pf rid ctx = Inr res"
  shows "fst ` set (rr_confidence res) \<subseteq> set (positive_ids rk)"
proof (cases "rk_rule rk rid")
  case None
  then show ?thesis using assms by (auto simp: evaluate_validated_def)
next
  case (Some r)
  have sup: "rr_confidence x = []" if "evaluate_suppression rk pf r a b ctx = Inr x" for x a b
    using that by (auto simp: evaluate_suppression_def rbind_eq_Inr Let_def split: json.splits if_splits)
  have body: "fst ` set (rr_confidence x) \<subseteq> set (positive_ids rk)"
    if "evaluate_rule_body rk pf r a b (ru_kind r) ctx = Inr x" for x a b
    using that composite_confidence sup
    by (fastforce simp: evaluate_rule_body_def rbind_eq_Inr split: json.splits if_splits)
  have "fst ` set (rr_confidence x) \<subseteq> set (positive_ids rk)"
    if "run_isolated rk pf r a b (ru_kind r) ctx = Inr x" for x a b
    using that body by (auto simp: run_isolated_def split: sum.splits exc.splits if_splits)
  then show ?thesis using assms Some by (auto simp: evaluate_validated_def split: if_splits)
qed

lemma apply_suppression_confidence:
  assumes "apply_suppression rk r = Inr r'"
  shows "set (rr_confidence r') \<subseteq> set (rr_confidence r)"
  using assms
proof (cases rule: apply_suppression_cases)
  case 1
  show ?thesis
  proof (cases "rr_kind r = COMPOSITE \<and> rr_state r = MATCHED")
    case True
    then obtain ef eff st where "r' = (canonicalize_result r)\<lparr>rr_effective := eff, rr_state := st,
       rr_suppression := Some (attach_suppression ef)\<rparr>"
      by - (rule apply_effects_act [OF 1], auto)
    then show ?thesis by (simp add: canonicalize_result_def)
  next
    case False
    then have "r' = canonicalize_result r" using 1 apply_effects_pass [of r rk] by (auto split: if_splits)
    then show ?thesis by (simp add: canonicalize_result_def)
  qed
qed simp

lemma same_core_confidence: "same_core m x \<Longrightarrow> rr_confidence x = rr_confidence m"
  unfolding same_core_def by (cases m; cases x) simp

lemma decision_result_origin:
  assumes run: "aggregate_decision ok eok rk pf support rs [] = Inr d" "evaluable support"
    and x: "x \<in> set (dr_results d)"
  shows "\<exists>q\<in>set rs. rr_kind x = rr_kind q \<and> rr_confidence x = rr_confidence q"
proof -
  obtain ms R cl sev st risk conf corr gov reason where a: "prepared ok rk rs ms" "list_all2 same_core ms R"
    and d: "d = assemble support cl sev st risk conf corr gov reason (filter is_eligible_matched R) R
       (list_ex is_degraded ms) (List.map_filter rule_error ms) pf"
    by (rule aggregate_assembled [OF run]) blast
  have "list_all2 (\<lambda>q m. validate_and_canonical_copy ok q = Inr m) rs ms"
    using a(1) by (simp add: prepared_def map_res_Inr_iff)
  from this a(2) have "list_all2 (\<lambda>q x. rr_kind x = rr_kind q \<and> rr_confidence x = rr_confidence q) rs R"
    by (rule list_all2_trans [rotated 1]) (simp add: copy_fields same_core_fields same_core_confidence)
  moreover have "x \<in> set R" using x by (simp add: d assemble_fields)
  ultimately show ?thesis by (rule list_all2_right_mem)
qed

end
