(* ===== verification/Detection.thy ===== *)
theory Detection
  imports ResultProps
begin

text \<open>
  The whole production run. For a deployable bundle and a valid input the entry point returns a
  result, for every support status; and the one way a sound evaluation is refused at assembly, a
  matched rule of kind SUPPRESSION, is exhibited.
\<close>

section \<open>Keys that look like probabilities\<close>

lemma fixed_keys [simp]:
  "\<not> probability_key ''rule_results''" "\<not> probability_key ''extraction_confidence_inputs''"
  "\<not> probability_key ''live_positive_provenance''"
  by code_simp+

lemma probability_members_clean:
  "\<forall>kv\<in>set kvs. \<not> probability_key (fst kv) \<and> (\<forall>p. probability_keys (snd kv) p = []) \<Longrightarrow>
     probability_members kvs path = []"
  by (induction kvs arbitrary: path) auto

lemma probability_elements_clean:
  "(\<And>x p. x \<in> set xs \<Longrightarrow> probability_keys x p = []) \<Longrightarrow> probability_elements xs i path = []"
  by (induction xs arbitrary: i) auto

lemma string_arrays_clean: "probability_keys (JArr (map (\<lambda>g. JArr (map JStr g)) gs)) p = []"
proof -
  have "probability_keys (JArr (map JStr g)) q = []" for g q
    unfolding probability_keys.simps by (rule probability_elements_clean) auto
  then show ?thesis unfolding probability_keys.simps by (intro probability_elements_clean) auto
qed

lemma keyed_maps_clean:
  assumes "\<forall>k\<in>fst ` set (rr_confidence r) \<union> fst ` set (rr_provenance r). \<not> probability_key k"
  shows "probability_keys (keyed_maps r) p = []"
proof -
  have "probability_members (map (\<lambda>(i, c). (i, JStr (confidence_text c))) (rr_confidence r)) q = []" for q
    by (rule probability_members_clean) (use assms in force)
  moreover have "probability_members (map (\<lambda>(i, gs). (i, JArr (map (\<lambda>g. JArr (map JStr g)) gs))) (rr_provenance r)) q = []" for q
    by (rule probability_members_clean) (use assms string_arrays_clean in \<open>force simp del: probability_keys.simps\<close>)
  ultimately show ?thesis by (simp add: keyed_maps_def)
qed

lemma keyed_document_clean:
  assumes "\<forall>r\<in>set (de_results d). \<forall>k\<in>fst ` set (rr_confidence r) \<union> fst ` set (rr_provenance r). \<not> probability_key k"
  shows "probability_keys (keyed_document d) p = []"
  using assms keyed_maps_clean by (auto simp: keyed_document_def intro!: probability_elements_clean)

section \<open>No semantic violation\<close>

lemma provenance_pin:
  "build_provenance rk d er = Inr prov \<Longrightarrow> map_of (pv_components prov) ''action_policy'' = action_policy_version rk"
  by (auto simp: build_provenance_def rbind_eq_Inr Let_def split: if_splits)

lemma decision_violations:
  assumes r: "assemble_result_dict rk d er e t i langs scripts = Inr r"
    and er: "er_actions er = recommended_actions rk True d"
    and pin: "\<exists>v. action_policy_version rk = Some v \<and> semver_match v"
    and risk: "RISK_MATRIX (dr_severity d) (dr_strength d) = Some (dr_risk d)"
    and sup: "support_violations r = []" and fired: "fired_violations r = []"
    and matched: "set (dr_matched_rules d) = rr_rule_id ` {x \<in> set (dr_results d). rr_state x = MATCHED}"
  shows "semantic_violations r = []"
proof -
  note f = assemble_result_fields [OF r]
  obtain v where v: "action_policy_version rk = Some v" "semver_match v" using pin by blast
  have "map_of (pv_components (de_provenance r)) ''action_policy'' = Some v"
    using provenance_pin [OF f(15)] v(1) by simp
  then have "policy_pin_violations r = []" using v(2) by (simp add: policy_pin_violations_def flag_def)
  moreover have "ac_code a \<in> set ACTION_ORDER" if "a \<in> set (de_actions r)" for a
    using actions_justified(2) [of a rk True d] that f(13) er by simp
  then have "concat (map (\<lambda>a. flag (ac_code a \<notin> set ACTION_ORDER) ''action not in the controlled vocabulary'')
       (de_actions r)) = []"
    by (simp add: flag_def)
  moreover have "set (de_matched_rules r) = set (matched_rule_ids r)"
    by (auto simp: f matched matched_rule_ids_def)
  ultimately show ?thesis
    using risk sup fired by (simp add: semantic_violations_def risk_violation_def f flag_def)
qed

section \<open>Deployable bundles\<close>

text \<open>
  What a bundle needs so that no valid input is refused: the governed records of the pipeline, a pinned
  action policy, every component version of the result contract, only composite rules published, and
  no indicator id that looks like a probability.
\<close>

definition deployable :: "runtime_knowledge \<Rightarrow> bool" where
  "deployable rk \<longleftrightarrow> governed_knowledge rk \<and> has_action_policy rk \<and>
     list_all (\<lambda>(src, _). map_of (md_component_versions (rk_meta rk)) src \<noteq> None) COMPONENT_KEY_MAP \<and>
     (case action_policy_version rk of None \<Rightarrow> False | Some v \<Rightarrow> semver_match v) \<and>
     list_all (\<lambda>(_, r). ru_status r = Some ''PUBLISHED'' \<longrightarrow> ru_kind r = COMPOSITE) (rules_by_id rk) \<and>
     list_all (\<lambda>i. \<not> probability_key i) (positive_ids rk)"

lemma translate_total:
  assumes "list_all (\<lambda>(src, _). map_of cv src \<noteq> None) ks"
  shows "\<exists>out. translate_required ks cv = Inr out \<and> map fst out = map snd ks"
  using assms by (induction ks) auto

lemma deployable_provenance:
  assumes "deployable rk" "er_policy_version er = action_policy_version rk"
  shows "\<exists>prov. build_provenance rk d er = Inr prov"
proof -
  let ?cv = "md_component_versions (rk_meta rk)"
  let ?ks = "filter (\<lambda>(src, _). src \<noteq> ''action_policy'') COMPONENT_KEY_MAP"
  have "list_all (\<lambda>(src, _). map_of ?cv src \<noteq> None) ?ks"
    using assms(1) by (auto simp: deployable_def list_all_iff)
  from translate_total [OF this] obtain out where out: "translate_required ?ks ?cv = Inr out"
    "map fst out = map snd ?ks" by blast
  have "map fst out = [''rule_schema'', ''indicator_registry'', ''indicator_families'', ''negative_library'',
      ''taxonomy'', ''dimensions'', ''extraction_contracts'']"
    unfolding out(2) by (simp add: COMPONENT_KEY_MAP_def)
  moreover have "''action_policy'' \<notin> set [''rule_schema'', ''indicator_registry'', ''indicator_families'',
      ''negative_library'', ''taxonomy'', ''dimensions'', ''extraction_contracts'']" by simp
  ultimately have no: "map_of out ''action_policy'' = None" by (metis list.set_map map_of_eq_None_iff)
  obtain v where v: "map_of ?cv ''action_policy'' = Some v" "v \<noteq> []" "action_policy_version rk = Some v"
    using assms(1) by (auto simp: deployable_def has_action_policy_def action_policy_version_def split: option.splits if_splits)
  have "translate_component_versions ?cv = Inr (out @ [(''action_policy'', v)])"
    by (simp add: translate_component_versions_def out(1) v nonempty_def)
  then show ?thesis
    using no v(3) assms(2) by (auto simp: build_provenance_def Let_def map_add_def)
qed

lemma deployable_pin: "deployable rk \<Longrightarrow> \<exists>v. action_policy_version rk = Some v \<and> semver_match v"
  by (auto simp: deployable_def split: option.splits)

section \<open>A result is always returned\<close>

lemma assemble_total:
  assumes dep: "deployable rk" and er: "build_explanation ok eok rk d os = Inr er"
    and id: "validate_identity fi eid ts iid = Inr ids"
    and seq: "validate_seq ''language'' lang = Inr langs" "validate_seq ''script'' scr = Inr scripts"
    and det: "\<And>r. semantic_violations r = [] \<Longrightarrow> det_ok r" and pf: "dr_profile d = DEFAULT_PROFILE"
    and risk: "RISK_MATRIX (dr_severity d) (dr_strength d) = Some (dr_risk d)"
    and sup: "\<And>r. de_support r = dr_support d \<Longrightarrow> de_classification r = dr_classification d \<Longrightarrow> support_violations r = []"
    and fired: "\<And>r. de_classification r = dr_classification d \<Longrightarrow> de_confidence r = dr_confidence d \<Longrightarrow>
      de_severity r = dr_severity d \<Longrightarrow> de_risk r = dr_risk d \<Longrightarrow> de_results r = dr_results d \<Longrightarrow> fired_violations r = []"
    and matched: "set (dr_matched_rules d) = rr_rule_id ` {x \<in> set (dr_results d). rr_state x = MATCHED}"
    and keys: "\<forall>r\<in>set (dr_results d). \<forall>k\<in>fst ` set (rr_confidence r) \<union> fst ` set (rr_provenance r). \<not> probability_key k"
  shows "\<exists>r. assemble_detection_result fi det_ok rk d er eid ts iid lang scr = Inr r"
proof -
  obtain e t i where ids: "ids = (e, t, i)" by (cases ids)
  note b = render_fields [OF build_explanation_parts(2) [OF er]]
  obtain prov where "build_provenance rk d er = Inr prov" using deployable_provenance [OF dep b(2)] by blast
  then obtain r where r: "assemble_result_dict rk d er e t i langs scripts = Inr r"
    by (simp add: assemble_result_dict_def)
  note f = assemble_result_fields [OF r]
  have "semantic_violations r = []"
    by (rule decision_violations [OF r b(1) deployable_pin [OF dep] risk sup fired matched]) (simp_all add: f)
  moreover have "probability_keys (keyed_document r) [] = []"
    by (rule keyed_document_clean) (use keys f(7) in simp)
  ultimately have "validate_and_freeze det_ok r rk d er = Inr r"
    using reconcile_assembled [OF r pf] det by (simp add: validate_and_freeze_def)
  then show ?thesis by (simp add: assemble_detection_result_def id ids seq r)
qed

lemma pipeline_profile:
  "aggregate_decision ok eok rk pf support rs we = Inr d \<Longrightarrow> dr_profile d = pf \<and> dr_support d = support"
proof (erule aggregate_cases, goal_cases)
  case (3 ms)
  from aggregate_eligible_assembled [OF 3(6)] show ?case by (auto simp: assemble_def Let_def)
qed (auto simp: assemble_def Let_def)

lemma decoded_string_ids: "decode_observations obs_ok os out = Inr ix \<Longrightarrow> list_all has_string_id os"
  by (induction os arbitrary: out)
    (auto simp: rbind_eq_Inr observation_from_dict_def require_str_def jget_def split: json.splits option.splits)

text \<open>The matched rules of an accepted decision over composite results are the MATCHED results.\<close>

lemma accepted_matched:
  assumes v: "validate_explanation_input ok eok rk live d = Inr ()"
    and k: "\<forall>x\<in>set (dr_results d). rr_kind x = COMPOSITE"
  shows "set (dr_matched_rules d) = rr_rule_id ` {x \<in> set (dr_results d). rr_state x = MATCHED}"
    "(\<exists>x\<in>set (dr_results d). rr_state x = MATCHED) \<longleftrightarrow> dr_classification d \<in> set SCAM_CLASSES"
proof -
  note p = validate_parts [OF v]
  have e: "is_eligible_matched x \<longleftrightarrow> rr_state x = MATCHED" if "x \<in> set (dr_results d)" for x
  proof -
    have sem: "check_semantic_invariants rk x = Inr ()" using p(2) that by (simp add: check_rule_results_iff)
    then have q: "rr_state x = MATCHED \<Longrightarrow> rr_required x = TRUE \<and> (\<exists>l\<in>set SEVERITY_ORDER. rr_effective x = Some l)"
      using k that by (auto simp: check_semantic_iff is_composite_def)
    then show ?thesis using k that by (auto simp: is_eligible_matched_def is_composite_def)
  qed
  show "set (dr_matched_rules d) = rr_rule_id ` {x \<in> set (dr_results d). rr_state x = MATCHED}"
    unfolding rollup_matched_rules [OF p(3)] using e by auto
  show "(\<exists>x\<in>set (dr_results d). rr_state x = MATCHED) \<longleftrightarrow> dr_classification d \<in> set SCAM_CLASSES"
    unfolding classification_parts(2) [OF p(4)] using e by (auto simp: filter_empty_conv)
qed

lemma risk_is_matrix_entry:
  assumes "aggregate_decision ok eok rk pf support rs [] = Inr d"
  shows "RISK_MATRIX (dr_severity d) (dr_strength d) = Some (dr_risk d)"
proof (cases "dr_governing d")
  case None
  then show ?thesis using aggregate_unmatched [OF assms] by simp
next
  case (Some g)
  then have "dr_governing d \<noteq> None" by simp
  from aggregate_matched_all [OF assms this] show ?thesis by blast
qed

lemma fired_clean:
  assumes run: "aggregate_decision ok eok rk pf support rs [] = Inr d" "evaluable support"
    and v: "validate_explanation_input ok eok rk live d = Inr ()"
    and k: "\<forall>x\<in>set (dr_results d). rr_kind x = COMPOSITE"
    and r: "de_classification r = dr_classification d" "de_confidence r = dr_confidence d"
      "de_severity r = dr_severity d" "de_risk r = dr_risk d" "de_results r = dr_results d"
  shows "fired_violations r = []"
proof -
  note c = classification_parts [OF validate_parts(4) [OF v]]
  have "matched_rule_ids r \<noteq> [] \<longleftrightarrow> (\<exists>x\<in>set (de_results r). rr_state x = MATCHED)"
    by (auto simp: matched_rule_ids_def filter_empty_conv simp flip: set_empty)
  then have f: "matched_rule_ids r \<noteq> [] \<longleftrightarrow> dr_classification d \<in> set SCAM_CLASSES"
    unfolding r(5) accepted_matched(2) [OF v k] .
  show ?thesis
  proof (cases "dr_classification d \<in> set SCAM_CLASSES")
    case True
    then have g: "dr_governing d \<noteq> None" using c(1) by simp
    have "dr_classification d = expected_classification support rs (dr_confidence d) False"
      using aggregate_classification [OF run(1)] by simp
    then have cl: "dr_classification d = (if dr_confidence d = Some C_LOW then CL_SCAM_PATTERN_SUSPECTED
        else CL_SCAM_PATTERN_DETECTED)"
      using True run(2) aggregate_matched_all [OF run(1) g] by (auto simp: expected_classification_def)
    moreover have "dr_severity d \<noteq> NONE"
      using aggregate_matched_all [OF run(1) g] by (cases "dr_strength d") auto
    ultimately show ?thesis using f True by (auto simp: fired_violations_def r flag_def SCAM_CLASSES_def)
  next
    case False
    then have "none_axes d" using c(3) by simp
    then show ?thesis using f False by (simp add: fired_violations_def r flag_def none_axes_def)
  qed
qed

theorem evaluated_detection_total:
  assumes dep: "deployable rk"
    and id: "validate_identity fi eid ts iid = Inr ids"
    and seq: "validate_seq ''language'' lang = Inr [l]" "validate_seq ''script'' scr = Inr [s]"
    and st: "map_of SUPPORT_VALUES st = Some support" "support \<in> set EVALUABLE_SUPPORT"
    and ctx: "build_validated_context io_ok obs_ok inds obs l s = Inr ctx"
    and ok: "\<And>r. check_semantic_invariants rk r = Inr () \<Longrightarrow> ok r"
    and eok: "\<And>r e. rule_error r = Some e \<Longrightarrow> eok e"
    and det: "\<And>r. semantic_violations r = [] \<Longrightarrow> det_ok r"
  shows "\<exists>r. evaluate_detection_from_governed fi io_ok obs_ok ok eok det_ok rk inds obs eid ts iid lang scr st [] = Inr r"
proof -
  have ev: "evaluable support" using st(2) by (auto simp: EVALUABLE_SUPPORT_def)
  have gk: "governed_knowledge rk" and pol: "has_action_policy rk" using dep by (simp_all add: deployable_def)
  have wf: "wf_knowledge rk" using gk by (simp add: governed_knowledge_def)
  obtain d where d: "evaluate_decision_from_governed io_ok obs_ok ok eok rk DEFAULT_PROFILE inds obs support l s [] = Inr d"
    using pipeline_total [OF gk ctx, of ok eok "[]" DEFAULT_PROFILE support] ok sound_semantic by auto
  then obtain qs where wp4: "evaluate_rules_with_suppression_from_governed io_ok obs_ok rk DEFAULT_PROFILE inds obs l s = Inr qs"
    and agg: "aggregate_decision ok eok rk DEFAULT_PROFILE support qs [] = Inr d"
    by (auto simp: evaluate_decision_from_governed_def rbind_eq_Inr)
  have v: "validate_explanation_input ok eok rk True d = Inr ()"
    by (rule pipeline_decision_validates [OF wf pol d ev]) (blast intro: ok eok)+
  note p = validate_parts [OF v]
  obtain os ix where os: "snapshot_list obs = Inr os" "decode_observations obs_ok os [] = Inr ix"
    using ctx by (auto simp: build_validated_context_def rbind_eq_Inr)
  obtain ix' where "index_observations (opt_list (Some os)) [] = Inr ix'"
    using index_string_ids [OF decoded_string_ids [OF os(2)]] by (auto simp: opt_list_def)
  from render_total [OF v this] v obtain er where er: "build_explanation ok eok rk d (Some os) = Inr er"
    by (auto simp: build_explanation_def build_explanation_core_def explanation_boundary_def)
  have pf: "dr_profile d = DEFAULT_PROFILE" "dr_support d = support" using pipeline_profile [OF agg] by simp_all
  have kind: "rr_kind x = COMPOSITE \<and> fst ` set (rr_confidence x) \<subseteq> set (positive_ids rk)"
    if x: "x \<in> set (dr_results d)" for x
  proof -
    obtain q where q: "q \<in> set qs" "rr_kind x = rr_kind q" "rr_confidence x = rr_confidence q"
      using decision_result_origin [OF agg ev x] by blast
    show ?thesis
    proof (rule wp4_origin [OF wp4 q(1)])
      fix ctx rid res
      assume o: "rid \<in> set (published_rule_ids rk)" "evaluate_validated rk DEFAULT_PROFILE rid ctx = Inr res"
        "apply_suppression rk res = Inr q"
      obtain r where r: "rk_rule rk rid = Some r" "ru_status r = Some ''PUBLISHED''"
        using o(1) published_rule_ids_iff [OF wf] by blast
      then have "ru_kind r = COMPOSITE"
        using dep by (auto simp: deployable_def list_all_iff rk_rule_def dest!: map_of_SomeD)
      then show ?thesis
        using evaluate_validated_kind [OF o(2) r(1)] wp4.keeps [OF o(3)] evaluate_validated_confidence [OF o(2)]
          apply_suppression_confidence [OF o(3)] q(2,3) by auto
    qed
  qed
  have comp: "\<forall>x\<in>set (dr_results d). rr_kind x = COMPOSITE" using kind by blast
  have keys: "\<forall>x\<in>set (dr_results d). \<forall>k\<in>fst ` set (rr_confidence x) \<union> fst ` set (rr_provenance x). \<not> probability_key k"
  proof (intro ballI)
    fix x k
    assume x: "x \<in> set (dr_results d)" and k: "k \<in> fst ` set (rr_confidence x) \<union> fst ` set (rr_provenance x)"
    have "check_semantic_invariants rk x = Inr ()" using p(2) x by (simp add: check_rule_results_iff)
    then have "fst ` set (rr_provenance x) \<subseteq> set (positive_ids rk)"
      unfolding check_semantic_iff positive_ids_resolve [symmetric] by blast
    then have "k \<in> set (positive_ids rk)" using k kind [OF x] by blast
    then show "\<not> probability_key k" using dep by (auto simp: deployable_def list_all_iff)
  qed
  have sup: "support_violations r = []" if "de_support r = dr_support d" for r
    using that ev by (auto simp: support_violations_def flag_def pf)
  have "\<exists>r. assemble_detection_result fi det_ok rk d er eid ts iid lang scr = Inr r"
  proof (rule assemble_total [OF dep er id seq det pf(1) risk_is_matrix_entry [OF agg] _ _
        accepted_matched(1) [OF v comp] keys])
    show "support_violations r = []" if "de_support r = dr_support d" for r by (rule sup [OF that])
    show "fired_violations r = []" if "de_classification r = dr_classification d" "de_confidence r = dr_confidence d"
      "de_severity r = dr_severity d" "de_risk r = dr_risk d" "de_results r = dr_results d" for r
      by (rule fired_clean [OF agg ev v comp that])
  qed
  then obtain r where r: "assemble_detection_result fi det_ok rk d er eid ts iid lang scr = Inr r" by blast
  have "gated_decision io_ok obs_ok ok eok rk inds obs [l] [s] support [] = Inr (d, Some os)"
    using st(2) d os(1) by (simp add: gated_decision_def single_scalar_def)
  then show ?thesis
    using id seq st(1) er r by (simp add: evaluate_detection_from_governed_def)
qed

text \<open>A refused input: the decision over no rules is explained and assembled.\<close>

lemma refusal_validates:
  assumes pol: "has_action_policy rk" and we: "we = [] \<or> support = S_ERROR"
    and nev: "support \<notin> set EVALUABLE_SUPPORT"
    and scope: "list_all (\<lambda>e. ee_scope e = WHOLE_EVALUATION) we" and eok: "list_all eok we"
    and d: "d = assemble support (refusal_class support) NONE NO_STRENGTH NONE None
      (no_corroboration NONE) None None [] [] False we pf"
  shows "validate_explanation_input ok eok rk True d = Inr ()"
proof -
  have f: "dr_results d = []" "dr_errors d = sort_key error_key we" "dr_matched_rules d = []" "dr_positive d = []"
    "dr_negative d = []" "dr_suppressed d = []" "dr_overrides d = []" "dr_ambiguities d = []" "dr_unknowns d = []"
    "dr_degraded d = False" "dr_governing d = None" "none_axes d" "dr_support d = support"
    "dr_classification d = refusal_class support"
    by (simp_all add: d assemble_def Let_def collect_def none_axes_def)
  have single: "filter (\<lambda>e. ee_scope e = SINGLE_RULE) (sort_key error_key we) = []"
    using scope by (auto simp: filter_empty_conv list_all_iff)
  have whole: "list_ex (\<lambda>e. ee_scope e = WHOLE_EVALUATION) (sort_key error_key we) \<longleftrightarrow> we \<noteq> []"
    using scope by (cases we) (simp_all add: list_ex_iff list_all_iff del: sort_key_simps)
  have "validate_wp5_rollups eok d = Inr ()"
    using eok single by (simp add: validate_wp5_rollups_def expected_rollups_def canonical_rollup_def Let_def f
        collect_def list_all_iff List.map_filter_simps)
  moreover have "validate_classification d = Inr ()"
    using we nev f(12) by (cases support) (auto simp: validate_classification_def f whole EVALUABLE_SUPPORT_def)
  ultimately show ?thesis
    using pol by (simp add: validate_explanation_input_def f contributing_rule_ids_def)
qed

theorem refused_detection_total:
  assumes dep: "deployable rk" and id: "validate_identity fi eid ts iid = Inr ids"
    and seq: "validate_seq ''language'' lang = Inr langs" "validate_seq ''script'' scr = Inr scripts"
    and st: "map_of SUPPORT_VALUES st = Some support" "support \<notin> set EVALUABLE_SUPPORT"
    and we: "we = [] \<or> support = S_ERROR" "list_all (\<lambda>e. ee_scope e = WHOLE_EVALUATION) we" "list_all eok we"
    and det: "\<And>r. semantic_violations r = [] \<Longrightarrow> det_ok r"
  shows "\<exists>r. evaluate_detection_from_governed fi io_ok obs_ok ok eok det_ok rk inds obs eid ts iid lang scr st we = Inr r"
proof -
  have nev: "we \<noteq> [] \<or> \<not> evaluable support" using st(2) by (auto simp: EVALUABLE_SUPPORT_def)
  obtain d where agg: "aggregate_decision ok eok rk DEFAULT_PROFILE support [] we = Inr d"
    using aggregate_nothing_total [OF we(3) nev] by blast
  then have gate: "gated_decision io_ok obs_ok ok eok rk inds obs langs scripts support we = Inr (d, None)"
    using we(1) st(2) by (auto simp: gated_decision_def)
  note d = gated_refusal(1) [OF gate we(1) st(2)]
  have v: "validate_explanation_input ok eok rk True d = Inr ()"
    by (rule refusal_validates [OF _ we(1) st(2) we(2,3) d]) (use dep in \<open>simp add: deployable_def\<close>)
  have "index_observations (opt_list None) [] = Inr []" by (simp add: opt_list_def)
  from render_total [OF v this] v obtain er where er: "build_explanation ok eok rk d None = Inr er"
    by (auto simp: build_explanation_def build_explanation_core_def explanation_boundary_def)
  have f: "dr_profile d = DEFAULT_PROFILE" "dr_severity d = NONE" "dr_strength d = NO_STRENGTH" "dr_risk d = NONE"
    "dr_support d = support" "dr_classification d = refusal_class support" "dr_confidence d = None"
    "dr_results d = []" "dr_matched_rules d = []"
    by (simp_all add: d assemble_def Let_def)
  have "\<exists>r. assemble_detection_result fi det_ok rk d er eid ts iid lang scr = Inr r"
  proof (rule assemble_total [OF dep er id seq det])
    show "support_violations r = []" if "de_support r = dr_support d" "de_classification r = dr_classification d" for r
      using that by (cases support) (simp_all add: support_violations_def flag_def f)
    show "fired_violations r = []" if "de_classification r = dr_classification d" "de_confidence r = dr_confidence d"
      "de_severity r = dr_severity d" "de_risk r = dr_risk d" "de_results r = dr_results d" for r
      using that by (cases support) (simp_all add: fired_violations_def matched_rule_ids_def flag_def f SCAM_CLASSES_def)
  qed (simp_all add: f)
  then obtain r where "assemble_detection_result fi det_ok rk d er eid ts iid lang scr = Inr r" by blast
  then show ?thesis
    using id seq st(1) we(1) gate er by (auto simp: evaluate_detection_from_governed_def)
qed

section \<open>A matched suppression rule\<close>

text \<open>
  The aggregation counts composite matches only, \<open>matched_rule_ids\<close> counts every MATCHED result: a
  decision that contains a matched rule of kind SUPPRESSION is never assembled.
\<close>

theorem matched_suppression_refused:
  assumes "evaluate_decision_from_governed io_ok obs_ok ok eok rk DEFAULT_PROFILE inds obs support l s [] = Inr d"
    and "support \<in> set EVALUABLE_SUPPORT" "map_of SUPPORT_VALUES st = Some support"
    and "validate_seq ''language'' lang = Inr [l]" "validate_seq ''script'' scr = Inr [s]"
    and x: "x \<in> set (dr_results d)" "rr_kind x = SUPPRESSION" "rr_state x = MATCHED"
  shows "evaluate_detection_from_governed fi io_ok obs_ok ok eok det_ok rk inds obs eid ts iid lang scr st [] \<noteq> Inr r"
proof
  assume "evaluate_detection_from_governed fi io_ok obs_ok ok eok det_ok rk inds obs eid ts iid lang scr st [] = Inr r"
  then show False
  proof (cases rule: detection_parts)
    case (1 support' langs scripts d' os er e t i)
    have "d' = d" using 1(1,3,4,5) assms(1-5) by (auto simp: gated_decision_def single_scalar_def rbind_eq_Inr)
    then have b: "build_explanation ok eok rk d os = Inr er" and a: "assemble_result_dict rk d er e t i langs scripts = Inr r"
      using 1(6,7) by simp_all
    note p = validate_parts [OF build_explanation_parts(1) [OF b]]
    have "set (de_matched_rules r) = set (matched_rule_ids r)"
      using validated_result(3) [OF 1(8)] by (simp add: semantic_violations_def flag_def split: if_splits)
    then have "rr_rule_id x \<in> set (dr_matched_rules d)"
      using x by (auto simp: matched_rule_ids_def assemble_result_fields [OF a])
    then obtain y where y: "y \<in> set (dr_results d)" "is_eligible_matched y" "rr_rule_id y = rr_rule_id x"
      unfolding rollup_matched_rules [OF p(3)] by auto
    have "distinct (map rr_rule_id (dr_results d))" using p(2) by (simp add: check_rule_results_iff)
    then have "y = x" using x(1) y(1,3) by (auto simp: distinct_map inj_on_def)
    then show False using y(2) x(2) by (simp add: is_eligible_matched_def is_composite_def)
  qed
qed

end
