(* ===== verification/Samples.thy ===== *)
theory Samples
  imports Pipeline
begin

text \<open>
  One small governed bundle and one message, on which the properties are instantiated: two
  indicators of different evidence classes, a soft rule suppressor, a severity cap, a hard
  indicator suppressor, an override that blocks the soft suppressor's category, and two published
  composite rules beside a draft.
\<close>

section \<open>Knowledge\<close>

definition sample_meta :: metadata where
  "sample_meta = \<lparr>md_bundle_version = ''1.0.0'', md_manifest_schema_version = ''1.0.0'',
     md_content_digest = ''d'', md_commit_sha = ''c'', md_gate = ''NOT_RECORDED'', md_component_versions = [], md_counts = []\<rparr>"

definition scope_any :: json where
  "scope_any = JObj [(''languages'', JArr []), (''scripts'', JArr [])]"

definition sample_rule :: "string \<Rightarrow> string \<Rightarrow> json \<Rightarrow> int \<Rightarrow> level \<Rightarrow> rule" where
  "sample_rule rid st require n sev =
     \<lparr>ru_id = rid, ru_rule_version = Some ''1.0.0'', ru_schema_version = None, ru_name = rid,
      ru_kind = COMPOSITE, ru_status = Some st, ru_scope = scope_any,
      ru_logic = JObj [(''require'', require), (''min_evidence_classes'', JInt n)],
      ru_taxonomy_refs = [''TAX-01''], ru_severity = Some sev, ru_verdict = Some V_SUPPORTED,
      ru_severity_cap = None, ru_sources = [], ru_plain = Some ''p'', ru_technical = Some ''t'',
      ru_why_limited = None, ru_steps = [''step'']\<rparr>"

definition both_required :: json where
  "both_required = JObj [(''all_of'', JArr [JStr ''IND-A'', JStr ''IND-B''])]"

definition one_required :: json where
  "one_required = JObj [(''n_of'', JObj [(''n'', JInt 1), (''of'', JArr [JStr ''IND-A''])])]"

definition rule_1 :: rule where
  "rule_1 = sample_rule ''R-1'' ''PUBLISHED'' both_required 2 HIGH"

definition rule_2 :: rule where
  "rule_2 = sample_rule ''R-2'' ''PUBLISHED'' one_required 1 MEDIUM"

definition rule_3 :: rule where
  "rule_3 = sample_rule ''R-3'' ''DRAFT'' one_required 1 MEDIUM"

definition sample_indicator :: "string \<Rightarrow> string \<Rightarrow> string \<Rightarrow> indicator" where
  "sample_indicator iid cls st = \<lparr>in_id = iid, in_evidence_class = Some cls, in_strength = Some st, in_polarity = Some ''POSITIVE''\<rparr>"

definition sample_negative :: "string \<Rightarrow> string \<Rightarrow> bool \<Rightarrow> json \<Rightarrow> string list \<Rightarrow> negative" where
  "sample_negative nid eff b cap targets =
     \<lparr>ng_id = nid, ng_status = Some ''ACTIVE'', ng_effect = JStr eff, ng_category = JStr ''cat'',
      ng_blockable = JBool b, ng_cap = cap, ng_families = [''*''], ng_targets = targets,
      ng_source_basis = []\<rparr>"

definition sample_override :: override where
  "sample_override = \<lparr>ov_id = ''OV-1'', ov_condition = JStr ''IND-B'', ov_families = [],
     ov_rules = [''R-1''], ov_blocks = Some [''cat'']\<rparr>"

definition knowledge_with :: "override dict \<Rightarrow> runtime_knowledge" where
  "knowledge_with ovs =
     \<lparr>rk_meta = sample_meta,
      rules_by_id = [(''R-1'', rule_1), (''R-2'', rule_2), (''R-3'', rule_3)],
      published_rules_by_id = [(''R-1'', rule_1), (''R-2'', rule_2)],
      indicators_by_id = [(''IND-A'', sample_indicator ''IND-A'' ''CLS-A'' ''STRONG''),
                          (''IND-B'', sample_indicator ''IND-B'' ''CLS-B'' ''MODERATE'')],
      negative_indicators_by_id =
        [(''NEG-C'', sample_negative ''NEG-C'' ''CAP_SEVERITY'' True (JStr ''LOW'') []),
         (''NEG-I'', sample_negative ''NEG-I'' ''SUPPRESS_INDICATOR'' False JNull [''IND-A'']),
         (''NEG-R'', sample_negative ''NEG-R'' ''SUPPRESS_RULE'' True JNull [])],
      indicator_families_by_id = [], positive_indicators_by_family = [], taxonomy_by_id = [],
      dimensions_by_id = [], sources_by_id = [], evidence_by_id = [], overrides_by_id = ovs,
      rules_by_indicator = [], rules_by_category = [], negative_indicators_by_rule = [],
      overrides_by_indicator = [], overrides_by_target = [], action_policy_by_id = []\<rparr>"

definition override_knowledge :: runtime_knowledge where
  "override_knowledge = knowledge_with [(''OV-1'', sample_override)]"

section \<open>Messages\<close>

definition sample_io :: "string \<Rightarrow> string \<Rightarrow> pyval" where
  "sample_io iid ref =
     PMap [(PStr ''indicator_id'', PStr iid), (PStr ''matched'', PStr ''OBSERVED''),
           (PStr ''confidence'', PStr ''HIGH''), (PStr ''observation_refs'', PSeq [PStr ref])]"

definition sample_obs :: "string \<Rightarrow> pyval" where
  "sample_obs oid = PMap [(PStr ''observation_id'', PStr oid)]"

definition sample_observations :: pyval where
  "sample_observations = PSeq [sample_obs ''o1'', sample_obs ''o2'', sample_obs ''o3'']"

text \<open>Both indicators are live, on observations of their own, beside a negative indicator.\<close>

definition with_negative :: "string \<Rightarrow> string \<Rightarrow> pyval" where
  "with_negative nid ref =
     PSeq [sample_io ''IND-A'' ''o1'', sample_io ''IND-B'' ''o2'', sample_io nid ref]"

abbreviation any_json :: "json \<Rightarrow> bool" where
  "any_json \<equiv> \<lambda>_. True"

definition negative_inds :: pyval where
  "negative_inds = with_negative ''NEG-R'' ''o1''"

definition neutral_inds :: pyval where
  "neutral_inds = with_negative ''NEG-I'' ''o1''"

definition decoded_io :: "string \<Rightarrow> string \<Rightarrow> indicator_observation" where
  "decoded_io iid ref = \<lparr>io_indicator = iid, io_matched = O_OBSERVED, io_polarity = None,
     io_confidence = Some C_HIGH, io_refs = [ref], io_spans = [], io_method = None, io_input = None\<rparr>"

definition decoded_obs :: "string \<Rightarrow> observation" where
  "decoded_obs oid = \<lparr>ob_id = oid, ob_status = O_OBSERVED, ob_source_input = None, ob_polarity = AFFIRMED,
     ob_attribution = FIRST_PARTY, ob_mood = DIRECTIVE, ob_type = None\<rparr>"

text \<open>The context of the message with the negative \<open>nid\<close> on the observation of the first indicator.\<close>

definition sample_ctx :: "string \<Rightarrow> eval_context" where
  "sample_ctx nid =
     \<lparr>cx_indicators = [decoded_io ''IND-A'' ''o1'', decoded_io ''IND-B'' ''o2'', decoded_io nid ''o1''],
      cx_observations = map (\<lambda>o'. (o', decoded_obs o')) [''o1'', ''o2'', ''o3''], cx_input = None,
      cx_language = ''en'', cx_script = ''Latn'',
      cx_by_indicator = [(''IND-A'', [decoded_io ''IND-A'' ''o1'']),
        (''IND-B'', [decoded_io ''IND-B'' ''o2'']), (nid, [decoded_io nid ''o1''])]\<rparr>"

lemma sample_context:
  "build_validated_context any_json any_json negative_inds sample_observations ''en'' ''Latn'' =
     Inr (sample_ctx ''NEG-R'')"
  "build_validated_context any_json any_json neutral_inds sample_observations ''en'' ''Latn'' =
     Inr (sample_ctx ''NEG-I'')"
  by code_simp+

section \<open>The results of the stages\<close>

definition result_1 :: "string option \<Rightarrow> rule_result" where
  "result_1 eff = \<lparr>rr_rule_id = ''R-1'', rr_rule_version = ''1.0.0'', rr_kind = COMPOSITE,
     rr_state = MATCHED, rr_required = TRUE, rr_matched_positive = [''IND-A'', ''IND-B''],
     rr_classes = [''CLS-A'', ''CLS-B''], rr_min_classes = Some 2, rr_diversity = Some True,
     rr_verdict = Some V_SUPPORTED, rr_declared = Some HIGH, rr_effective = Some HIGH,
     rr_matched_negative = [''NEG-R''], rr_neutralised = [], rr_overrides = [''OV-1''],
     rr_suppression = Some (no_suppression\<lparr>su_effect := eff, su_blocked := Some [''NEG-R'']\<rparr>),
     rr_confidence = [(''IND-A'', Some C_HIGH), (''IND-B'', Some C_HIGH)], rr_refs = [''o1'', ''o2''],
     rr_provenance = [(''IND-A'', [[''o1'']]), (''IND-B'', [[''o2'']])], rr_ambiguities = [],
     rr_unknowns = [], rr_sources = [], rr_evidence_ids = [],
     rr_fragment = Some (Some ''p'', Some ''t'', None), rr_error = None, rr_governing = None,
     rr_governing_reason = None, rr_strength = None, rr_detection_confidence = None\<rparr>"

definition result_2 :: "state \<Rightarrow> suppression option \<Rightarrow> rule_result" where
  "result_2 st su = \<lparr>rr_rule_id = ''R-2'', rr_rule_version = ''1.0.0'', rr_kind = COMPOSITE,
     rr_state = st, rr_required = TRUE, rr_matched_positive = [''IND-A''],
     rr_classes = [''CLS-A''], rr_min_classes = Some 1, rr_diversity = Some True,
     rr_verdict = Some V_SUPPORTED, rr_declared = Some MEDIUM, rr_effective = Some MEDIUM,
     rr_matched_negative = [''NEG-R''], rr_neutralised = [], rr_overrides = [],
     rr_suppression = su, rr_confidence = [(''IND-A'', Some C_HIGH)], rr_refs = [''o1''],
     rr_provenance = [(''IND-A'', [[''o1'']])], rr_ambiguities = [], rr_unknowns = [], rr_sources = [],
     rr_evidence_ids = [], rr_fragment = Some (Some ''p'', Some ''t'', None), rr_error = None,
     rr_governing = None, rr_governing_reason = None, rr_strength = None,
     rr_detection_confidence = None\<rparr>"

definition wp3_1 :: rule_result where
  "wp3_1 = result_1 None"

definition wp3_2 :: rule_result where
  "wp3_2 = result_2 MATCHED None"

definition wp4_1 :: rule_result where
  "wp4_1 = result_1 (Some ''NONE'')"

definition wp4_2 :: rule_result where
  "wp4_2 = result_2 SUPPRESSED (Some (no_suppression
     \<lparr>su_suppressed_by := Some ''NEG-R'', su_effect := Some ''SUPPRESS_RULE'',
      su_applied := Some [''NEG-R'']\<rparr>))"

lemma sample_composite_1:
  "evaluate_composite override_knowledge DEFAULT_PROFILE rule_1 ''R-1'' ''1.0.0'' (sample_ctx ''NEG-R'') = Inr wp3_1"
  by code_simp

lemma sample_composite_2:
  "evaluate_composite override_knowledge DEFAULT_PROFILE rule_2 ''R-2'' ''1.0.0'' (sample_ctx ''NEG-R'') = Inr wp3_2"
  by code_simp

lemma sample_wp3:
  "evaluate_rules_from_governed any_json any_json override_knowledge DEFAULT_PROFILE negative_inds
     sample_observations ''en'' ''Latn'' = Inr [wp3_1, wp3_2]"
  by code_simp

lemma sample_wp4_1: "apply_suppression override_knowledge wp3_1 = Inr wp4_1"
  by code_simp

lemma sample_wp4_2: "apply_suppression override_knowledge wp3_2 = Inr wp4_2"
  by code_simp

lemma sample_wp4:
  "evaluate_rules_with_suppression_from_governed any_json any_json override_knowledge DEFAULT_PROFILE
     negative_inds sample_observations ''en'' ''Latn'' = Inr [wp4_1, wp4_2]"
  by (simp add: evaluate_rules_with_suppression_from_governed_def sample_wp3 apply_all_def
      sample_wp4_1 sample_wp4_2)

definition sample_decision :: decision where
  "sample_decision = \<lparr>dr_support = S_SUPPORTED, dr_classification = CL_SCAM_PATTERN_DETECTED,
     dr_severity = HIGH, dr_strength = STRONG, dr_risk = HIGH, dr_confidence = Some C_HIGH,
     dr_corroboration = \<lparr>co_classes = [''CLS-A'', ''CLS-B''], co_count = 2, co_band = MEDIUM,
       co_shared = []\<rparr>,
     dr_governing = Some ''R-1'',
     dr_reason = Some ''highest effective severity HIGH; evidence verdict SUPPORTED; 2 independent evidence class(es)'',
     dr_matched_rules = [''R-1''], dr_positive = [''IND-A'', ''IND-B''], dr_negative = [''NEG-R''],
     dr_suppressed = [], dr_overrides = [''OV-1''], dr_ambiguities = [], dr_unknowns = [],
     dr_degraded = False, dr_errors = [],
     dr_results = [wp4_1\<lparr>rr_governing := Some True, rr_governing_reason := Some
         ''highest effective severity HIGH; evidence verdict SUPPORTED; 2 independent evidence class(es)'',
         rr_strength := Some STRONG, rr_detection_confidence := Some C_HIGH\<rparr>, wp4_2],
     dr_profile = DEFAULT_PROFILE\<rparr>"

lemma sample_aggregate:
  "aggregate_decision (\<lambda>_. True) (\<lambda>_. True) override_knowledge DEFAULT_PROFILE S_SUPPORTED [wp4_1, wp4_2] [] =
     Inr sample_decision"
  by code_simp

lemma sample_pipeline:
  "evaluate_decision_from_governed any_json any_json (\<lambda>_. True) (\<lambda>_. True) override_knowledge DEFAULT_PROFILE
     negative_inds sample_observations S_SUPPORTED ''en'' ''Latn'' [] = Inr sample_decision"
  by (simp add: evaluate_decision_from_governed_def sample_wp4 sample_aggregate)

section \<open>Facts about the bundle\<close>

lemma sample_wf: "wf_knowledge override_knowledge"
  by (auto simp: wf_knowledge_def rk_published_rule_def rk_rule_def override_knowledge_def knowledge_with_def
      rule_1_def rule_2_def rule_3_def sample_rule_def)

lemma sample_conditions: "list_all (\<lambda>(_, r). governed_condition r) (rules_by_id override_knowledge)"
  by code_simp

lemma sample_condition_1: "governed_condition rule_1"
  by code_simp

lemma sample_governed: "governed_knowledge override_knowledge"
proof -
  have "list_all (\<lambda>(_, i). indicator_strength (in_strength i) \<noteq> None) (indicators_by_id override_knowledge)"
    by code_simp
  moreover have "list_all (\<lambda>(_, r). governed_rule r) (rules_by_id override_knowledge)"
    by (simp add: override_knowledge_def knowledge_with_def rule_1_def rule_2_def rule_3_def sample_rule_def
        governed_rule_def)
  ultimately show ?thesis using sample_wf by (simp add: governed_knowledge_def)
qed

lemma sample_library: "governed_library override_knowledge"
  by code_simp

lemma sample_validated_1:
  "evaluate_validated override_knowledge DEFAULT_PROFILE ''R-1'' (sample_ctx ''NEG-R'') = Inr wp3_1"
  by code_simp

lemma sample_eligible: "list_ex is_eligible_matched [wp4_1, wp4_2]"
  by code_simp

lemma sample_entries:
  "independence_entries override_knowledge [wp4_1] = Inr [(''CLS-A'', [''o1'']), (''CLS-B'', [''o2''])]"
  by code_simp

lemma sample_forest: "uf_ok [(''a'', ''a''), (''b'', ''a''), (''c'', ''b'')]"
  by (auto simp: uf_ok_def split: if_splits)

lemma one_eval:
  "eval_condition (\<lambda>i. if i = ''IND-A'' then TRUE else UNKNOWN) one_required = Inr TRUE"
  by code_simp

lemma sample_duplicate:
  "aggregate_decision (\<lambda>_. True) (\<lambda>_. True) override_knowledge DEFAULT_PROFILE S_SUPPORTED [wp4_1, wp4_1] [] =
     Inl (AggregationError ''duplicate rule_id R-1'')"
  by code_simp

lemma sample_effects_1: "apply_effects override_knowledge wp3_1 = Inr wp4_1"
  by code_simp

lemma sample_effects_2: "apply_effects override_knowledge wp3_2 = Inr wp4_2"
  by code_simp

lemma sample_effects_fields:
  "rr_kind wp3_1 = COMPOSITE" "rr_state wp3_1 = MATCHED" "rr_overrides wp3_1 = [''OV-1'']"
  "sorted_unique [''OV-1''] = [''OV-1'']" "rr_matched_negative wp3_1 = [''NEG-R'']" "rr_state wp4_1 = MATCHED"
  by (simp_all add: wp3_1_def wp4_1_def result_1_def sorted_unique_def)

text \<open>The second rule again, with the override active on it.\<close>

definition wp4_2_restored :: rule_result where
  "wp4_2_restored = (result_2 MATCHED (Some (no_suppression
     \<lparr>su_effect := Some ''NONE'', su_blocked := Some [''NEG-R'']\<rparr>)))\<lparr>rr_overrides := [''OV-1'']\<rparr>"

lemma sample_effects_2_override:
  "apply_effects override_knowledge (wp3_2\<lparr>rr_overrides := [''OV-1'']\<rparr>) = Inr wp4_2_restored"
  by code_simp

text \<open>The same bundle with a soft negative that overrides may not block.\<close>

definition unblockable_knowledge :: runtime_knowledge where
  "unblockable_knowledge = override_knowledge\<lparr>negative_indicators_by_id :=
     [(''NEG-R'', sample_negative ''NEG-R'' ''SUPPRESS_RULE'' False JNull [])]\<rparr>"

lemma unblockable_match:
  "evaluate_composite unblockable_knowledge DEFAULT_PROFILE rule_1 ''R-1'' ''1.0.0'' (sample_ctx ''NEG-R'') = Inr wp3_1"
  by code_simp

lemma unblockable_degraded:
  "apply_suppression unblockable_knowledge wp3_1 = Inr (degraded_result wp3_1 ''blocked_suppressors disagree'')"
  by code_simp

lemma sample_unblockable:
  "evaluate_composite unblockable_knowledge DEFAULT_PROFILE rule_1 ''R-1'' ''1.0.0'' (sample_ctx ''NEG-R'') = Inr wp3_1 \<and>
   rr_state wp3_1 = MATCHED \<and>
   apply_suppression unblockable_knowledge wp3_1 = Inr (degraded_result wp3_1 ''blocked_suppressors disagree'') \<and>
   rr_state (degraded_result wp3_1 ''blocked_suppressors disagree'') = NOT_APPLICABLE \<and>
   rr_error (degraded_result wp3_1 ''blocked_suppressors disagree'') =
     Some (''SUPPRESSION_EXECUTION_ERROR'', ''blocked_suppressors disagree'')"
  by (simp add: unblockable_match unblockable_degraded sample_effects_fields)

section \<open>A message that is cleared\<close>

definition neutralised :: "string \<Rightarrow> level \<Rightarrow> int \<Rightarrow> string list \<Rightarrow> string list \<Rightarrow> string list \<Rightarrow> string list \<Rightarrow> rule_result" where
  "neutralised rid sev n pos classes ovs refs = \<lparr>rr_rule_id = rid, rr_rule_version = ''1.0.0'', rr_kind = COMPOSITE,
     rr_state = NOT_MATCHED, rr_required = FALSE, rr_matched_positive = pos, rr_classes = classes,
     rr_min_classes = Some n, rr_diversity = Some False, rr_verdict = Some V_SUPPORTED,
     rr_declared = Some sev, rr_effective = Some sev, rr_matched_negative = [''NEG-I''],
     rr_neutralised = [''IND-A''], rr_overrides = ovs, rr_suppression = None,
     rr_confidence = (''IND-A'', Some C_HIGH) # map (\<lambda>p. (p, Some C_HIGH)) pos, rr_refs = refs,
     rr_provenance = map (\<lambda>p. (p, [[''o2'']])) pos,
     rr_ambiguities = [], rr_unknowns = [], rr_sources = [], rr_evidence_ids = [], rr_fragment = None,
     rr_error = None, rr_governing = None, rr_governing_reason = None, rr_strength = None,
     rr_detection_confidence = None\<rparr>"

definition clear_1 :: rule_result where
  "clear_1 = neutralised ''R-1'' HIGH 2 [''IND-B''] [''CLS-B''] [''OV-1''] [''o1'', ''o2'']"

definition clear_2 :: rule_result where
  "clear_2 = neutralised ''R-2'' MEDIUM 1 [] [] [] [''o1'']"

lemma clear_composite_2:
  "evaluate_composite override_knowledge DEFAULT_PROFILE rule_2 ''R-2'' ''1.0.0'' (sample_ctx ''NEG-I'') = Inr clear_2"
  by code_simp

lemma clear_wp3:
  "evaluate_rules_from_governed any_json any_json override_knowledge DEFAULT_PROFILE neutral_inds
     sample_observations ''en'' ''Latn'' = Inr [clear_1, clear_2]"
  by code_simp

lemma clear_wp4:
  "evaluate_rules_with_suppression_from_governed any_json any_json override_knowledge DEFAULT_PROFILE
     neutral_inds sample_observations ''en'' ''Latn'' = Inr [clear_1, clear_2]"
proof -
  have "apply_suppression override_knowledge clear_1 = Inr clear_1"
    "apply_suppression override_knowledge clear_2 = Inr clear_2"
    by code_simp+
  then show ?thesis
    by (simp add: evaluate_rules_with_suppression_from_governed_def clear_wp3 apply_all_def)
qed

definition clear_decision :: decision where
  "clear_decision = \<lparr>dr_support = S_SUPPORTED, dr_classification = CL_NO_SCAM_PATTERN,
     dr_severity = NONE, dr_strength = NO_STRENGTH, dr_risk = NONE, dr_confidence = None,
     dr_corroboration = no_corroboration NONE, dr_governing = None, dr_reason = None,
     dr_matched_rules = [], dr_positive = [], dr_negative = [''NEG-I''], dr_suppressed = [''IND-A''],
     dr_overrides = [''OV-1''], dr_ambiguities = [], dr_unknowns = [], dr_degraded = False, dr_errors = [],
     dr_results = [clear_1, clear_2], dr_profile = DEFAULT_PROFILE\<rparr>"

lemma sample_clear_aggregate:
  "aggregate_decision (\<lambda>_. True) (\<lambda>_. True) override_knowledge DEFAULT_PROFILE S_SUPPORTED [clear_1, clear_2] [] =
     Inr clear_decision"
  by code_simp

lemma sample_clear_pipeline:
  "evaluate_decision_from_governed any_json any_json (\<lambda>_. True) (\<lambda>_. True) override_knowledge DEFAULT_PROFILE
     neutral_inds sample_observations S_SUPPORTED ''en'' ''Latn'' [] = Inr clear_decision"
  by (simp add: evaluate_decision_from_governed_def clear_wp4 sample_clear_aggregate)

lemma clear_classification: "dr_classification clear_decision = CL_NO_SCAM_PATTERN"
  by (simp add: clear_decision_def)

lemma clear_governing: "dr_governing clear_decision = None"
  by (simp add: clear_decision_def)

end
