(* ===== verification/ReleaseSamples.thy ===== *)
theory ReleaseSamples
  imports Samples Detection
begin

text \<open>
  The sample bundle as a release: with component versions, a pinned action policy and policy entries,
  so that explanations and results can be built on it; and a bundle whose one published rule is of
  kind SUPPRESSION.
\<close>

definition release_meta :: metadata where
  "release_meta = sample_meta\<lparr>md_component_versions :=
     map (\<lambda>(k, _). (k, ''1.0.0'')) COMPONENT_KEY_MAP\<rparr>"

definition policy :: "string \<Rightarrow> trigger \<Rightarrow> string \<Rightarrow> policy_entry" where
  "policy i t code = \<lparr>ap_id = i, ap_trigger = t, ap_action = code, ap_classes = None, ap_evidence = [''EV-1'']\<rparr>"

definition release_knowledge :: runtime_knowledge where
  "release_knowledge = override_knowledge\<lparr>rk_meta := release_meta,
     action_policy_by_id :=
       [(''AP-1'', policy ''AP-1'' (T_RULE ''R-1'') ''VERIFY_INDEPENDENTLY''),
        (''AP-2'', policy ''AP-2'' (T_SYSTEM_CLASSIFICATION CL_SCAM_PATTERN_DETECTED) ''REPORT_CYBERCRIME''),
        (''AP-3'', policy ''AP-3'' (T_OVERRIDE ''OV-1'') ''VERIFY_INDEPENDENTLY'')]\<rparr>"

lemma release_governed: "governed_knowledge release_knowledge"
  using sample_governed
  by (simp add: governed_knowledge_def wf_knowledge_def rk_rule_def rk_published_rule_def release_knowledge_def)

lemma release_wf: "wf_knowledge release_knowledge"
  using release_governed by (simp add: governed_knowledge_def)

lemma release_policy: "has_action_policy release_knowledge"
  by code_simp

lemma release_deployable: "deployable release_knowledge"
proof -
  have "list_all (\<lambda>(src, _). map_of (md_component_versions (rk_meta release_knowledge)) src \<noteq> None) COMPONENT_KEY_MAP"
    "case action_policy_version release_knowledge of None \<Rightarrow> False | Some v \<Rightarrow> semver_match v"
    "list_all (\<lambda>(_, r). ru_status r = Some ''PUBLISHED'' \<longrightarrow> ru_kind r = COMPOSITE) (rules_by_id release_knowledge)"
    "list_all (\<lambda>i. \<not> probability_key i) (positive_ids release_knowledge)"
    by code_simp+
  then show ?thesis using release_governed release_policy by (simp only: deployable_def simp_thms)
qed

definition aware :: "string \<Rightarrow> bool option" where
  "aware t = Some True"

lemma release_identity:
  "validate_identity aware (PStr ''e1'') (PStr ''2026-01-01T00:00:00Z'') (PStr ''i1'') =
     Inr (''e1'', ''2026-01-01T00:00:00Z'', ''i1'')"
  by code_simp

lemma release_seq:
  "validate_seq ''language'' (PSeq [PStr ''en'']) = Inr [''en'']"
  "validate_seq ''script'' (PSeq [PStr ''Latn'']) = Inr [''Latn'']"
  "map_of SUPPORT_VALUES ''SUPPORTED'' = Some S_SUPPORTED"
  "map_of SUPPORT_VALUES ''UNSUPPORTED'' = Some S_UNSUPPORTED"
  "S_SUPPORTED \<in> set EVALUABLE_SUPPORT" "S_UNSUPPORTED \<notin> set EVALUABLE_SUPPORT"
  by code_simp+

lemma release_decision:
  "\<exists>d. evaluate_decision_from_governed any_json any_json (\<lambda>_. True) (\<lambda>_. True) release_knowledge DEFAULT_PROFILE
     negative_inds sample_observations S_SUPPORTED ''en'' ''Latn'' [] = Inr d"
  by (rule pipeline_total [OF release_governed sample_context(1)]) simp_all

abbreviation detect :: "runtime_knowledge \<Rightarrow> string \<Rightarrow> detection_result res" where
  "detect rk st \<equiv> evaluate_detection_from_governed aware any_json any_json (\<lambda>_. True) (\<lambda>_. True) (\<lambda>_. True) rk
     negative_inds sample_observations (PStr ''e1'') (PStr ''2026-01-01T00:00:00Z'') (PStr ''i1'')
     (PSeq [PStr ''en'']) (PSeq [PStr ''Latn'']) st []"

lemma release_detected: "\<exists>r. detect release_knowledge ''SUPPORTED'' = Inr r"
  by (rule evaluated_detection_total [OF release_deployable release_identity release_seq(1,2,3,5) sample_context(1)])
    simp_all

lemma release_refused: "\<exists>r. detect release_knowledge ''UNSUPPORTED'' = Inr r"
  by (rule refused_detection_total [OF release_deployable release_identity release_seq(1,2,4,6)]) simp_all

section \<open>A published rule of kind SUPPRESSION\<close>

definition suppression_rule :: rule where
  "suppression_rule = (sample_rule ''S-1'' ''PUBLISHED'' (JStr ''NEG-R'') 1 LOW)
     \<lparr>ru_kind := SUPPRESSION, ru_verdict := Some V_HEURISTIC, ru_severity := None\<rparr>"

definition suppression_knowledge :: runtime_knowledge where
  "suppression_knowledge = release_knowledge\<lparr>rules_by_id := [(''S-1'', suppression_rule)],
     published_rules_by_id := [(''S-1'', suppression_rule)]\<rparr>"

lemma suppression_evaluated:
  "case evaluate_decision_from_governed any_json any_json (\<lambda>_. True) (\<lambda>_. True)
     suppression_knowledge DEFAULT_PROFILE negative_inds sample_observations S_SUPPORTED ''en'' ''Latn'' [] of
     Inr d \<Rightarrow> list_ex (\<lambda>x. rr_kind x = SUPPRESSION \<and> rr_state x = MATCHED) (dr_results d) | Inl _ \<Rightarrow> False"
  by code_simp

lemma suppression_run:
  "\<exists>d x. evaluate_decision_from_governed any_json any_json (\<lambda>_. True) (\<lambda>_. True)
     suppression_knowledge DEFAULT_PROFILE negative_inds sample_observations S_SUPPORTED ''en'' ''Latn'' [] = Inr d \<and>
     x \<in> set (dr_results d) \<and> rr_kind x = SUPPRESSION \<and> rr_state x = MATCHED"
  using suppression_evaluated by (auto simp: list_ex_iff split: sum.splits)

section \<open>An explanation and an action\<close>

lemma release_explained: "\<exists>d er. build_explanation (\<lambda>_. True) (\<lambda>_. True) release_knowledge d None = Inr er"
proof -
  obtain d where d: "evaluate_decision_from_governed any_json any_json (\<lambda>_. True) (\<lambda>_. True) release_knowledge
      DEFAULT_PROFILE negative_inds sample_observations S_SUPPORTED ''en'' ''Latn'' [] = Inr d"
    using release_decision by blast
  have "\<exists>er. build_explanation (\<lambda>_. True) (\<lambda>_. True) release_knowledge d None = Inr er"
    by (rule pipeline_explained [OF release_wf release_policy d]) (simp_all add: opt_list_def)
  then show ?thesis by blast
qed

lemma release_action:
  "\<exists>a\<in>set (recommended_actions release_knowledge True sample_decision). ac_code a = ''VERIFY_INDEPENDENTLY''"
  by code_simp

end
