(* ===== verification/Shapes.thy ===== *)
theory Shapes
  imports Conditions
begin

text \<open>
  knowledge/runtime/errors.py and the structural half of knowledge/runtime/indexes.py: the checks the
  loader runs over the parsed members of a bundle before it traverses them. A member is any JSON value
  here. What survives the checks is read by the typed view of theory Components.
\<close>

section \<open>The loader's errors\<close>

text \<open>
  The classes of errors.py, each with its stable \<open>.code\<close> and the diagnostic (abbreviated). An exception
  of another kind that escapes the loader is \<open>Leaked\<close>.
\<close>

datatype load_class =
    BundleNotFoundError
  | ManifestError
  | IntegrityError
  | UnsafePathError
  | CompatibilityError
  | MemberSchemaError
  | ReferenceIntegrityError
  | DuplicateIdError

datatype load_error =
    BundleLoadError load_class string string
  | Leaked exc

type_synonym 'a loading = "load_error + 'a"

definition python :: "'a res \<Rightarrow> 'a loading" where
  "python r = (case r of Inl e \<Rightarrow> Inl (Leaked e) | Inr x \<Rightarrow> Inr x)"

lemma python_simps [simp, res_simps]:
  "python r = Inr x \<longleftrightarrow> r = Inr x"
  "python r = Inl e \<longleftrightarrow> (\<exists>x. r = Inl x \<and> e = Leaked x)"
  by (auto simp: python_def split: sum.splits)

definition ERROR_CODES :: "string list" where
  "ERROR_CODES =
     [''BUNDLE_NOT_FOUND'', ''MANIFEST_PARSE_ERROR'', ''MANIFEST_SCHEMA_INVALID'', ''COMPONENT_MISSING'',
      ''COMPONENT_HASH_MISMATCH'', ''COMPONENT_BYTE_COUNT_MISMATCH'', ''COMPONENT_UNREADABLE'',
      ''DIGEST_MISMATCH'', ''UNSAFE_PATH'', ''UNEXPECTED_MEMBER'', ''COUNTS_MISMATCH'',
      ''SCHEMA_INCOMPATIBLE'', ''VERSION_INCOMPATIBLE'', ''EMBEDDED_VERSION_MISMATCH'',
      ''MEMBER_PARSE_ERROR'', ''MEMBER_SCHEMA_INVALID'', ''MEMBER_SHAPE_INVALID'', ''DUPLICATE_ID'',
      ''REFERENCE_INVALID'']"

text \<open>A typed error of the loader, with a code it registers.\<close>

definition typed :: "load_error \<Rightarrow> bool" where
  "typed e \<longleftrightarrow> (case e of BundleLoadError _ code _ \<Rightarrow> code \<in> set ERROR_CODES | Leaked _ \<Rightarrow> False)"

lemma typed_simps [simp]: "typed (BundleLoadError c t m) \<longleftrightarrow> t \<in> set ERROR_CODES" "\<not> typed (Leaked x)"
  by (simp_all add: typed_def)

text \<open>A check that raises or lets execution go on, and a loop of checks.\<close>

definition require_that :: "bool \<Rightarrow> load_class \<Rightarrow> string \<Rightarrow> string \<Rightarrow> unit loading" where
  "require_that ok c code msg = (if ok then Inr () else Inl (BundleLoadError c code msg))"

lemma require_that_eq [simp, res_simps]:
  "require_that ok c code msg = Inr u \<longleftrightarrow> ok"
  "require_that ok c code msg = Inl e \<longleftrightarrow> \<not> ok \<and> e = BundleLoadError c code msg"
  by (auto simp: require_that_def)

fun each :: "('a \<Rightarrow> 'e + unit) \<Rightarrow> 'a list \<Rightarrow> 'e + unit" where
  "each f [] = Inr ()"
| "each f (x # xs) = rbind (f x) (\<lambda>_. each f xs)"

lemma each_eq [simp, res_simps]: "each f xs = Inr u \<longleftrightarrow> list_all (\<lambda>x. f x = Inr ()) xs"
  by (induction xs) (auto simp: res_simps)

lemma each_cong [fundef_cong]:
  "xs = ys \<Longrightarrow> (\<And>x. x \<in> set ys \<Longrightarrow> f x = g x) \<Longrightarrow> each f xs = each g ys"
  by (induction xs arbitrary: ys) auto

lemma each_Inl: "each f xs = Inl e \<Longrightarrow> \<exists>x\<in>set xs. f x = Inl e"
  by (induction xs) (auto simp: res_simps)

section \<open>Reading JSON\<close>

text \<open>
  \<open>.get\<close> on an object, the elements of an array, the text of a string; on another shape, which the checks
  below exclude, the empty value.
\<close>

definition members :: "json \<Rightarrow> json dict" where
  "members j = (case j of JObj kvs \<Rightarrow> kvs | _ \<Rightarrow> [])"

definition jfield :: "json \<Rightarrow> string \<Rightarrow> json" where
  "jfield j k = jget (members j) k"

definition has_field :: "json \<Rightarrow> string \<Rightarrow> bool" where
  "has_field j k \<longleftrightarrow> map_of (members j) k \<noteq> None"

definition elements :: "json \<Rightarrow> json list" where
  "elements j = (case j of JArr xs \<Rightarrow> xs | _ \<Rightarrow> [])"

definition text_opt :: "json \<Rightarrow> string option" where
  "text_opt j = (case j of JStr s \<Rightarrow> Some s | _ \<Rightarrow> None)"

definition text_of :: "json \<Rightarrow> string" where
  "text_of j = (case j of JStr s \<Rightarrow> s | _ \<Rightarrow> [])"

definition is_text :: "json \<Rightarrow> bool" where
  "is_text j \<longleftrightarrow> text_opt j \<noteq> None"

definition is_object :: "json \<Rightarrow> bool" where
  "is_object j \<longleftrightarrow> (case j of JObj _ \<Rightarrow> True | _ \<Rightarrow> False)"

definition is_array :: "json \<Rightarrow> bool" where
  "is_array j \<longleftrightarrow> (case j of JArr _ \<Rightarrow> True | _ \<Rightarrow> False)"

lemma is_textE: "is_text j \<Longrightarrow> j = JStr (text_of j)"
  by (cases j) (simp_all add: is_text_def text_opt_def text_of_def)

lemma text_simps [simp]:
  "is_text (JStr s)" "text_of (JStr s) = s" "text_opt (JStr s) = Some s"
  "members (JObj kvs) = kvs" "elements (JArr xs) = xs" "is_object (JObj kvs)" "is_array (JArr xs)"
  by (simp_all add: is_text_def text_opt_def text_of_def members_def elements_def is_object_def is_array_def)

section \<open>Shape checks\<close>

definition shape_error :: "string \<Rightarrow> 'a loading" where
  "shape_error msg = Inl (BundleLoadError MemberSchemaError ''MEMBER_SHAPE_INVALID'' msg)"

lemma shape_error_eq [simp, res_simps]:
  "shape_error m \<noteq> Inr x" "Inr x \<noteq> shape_error m"
  "shape_error m = Inl e \<longleftrightarrow> e = BundleLoadError MemberSchemaError ''MEMBER_SHAPE_INVALID'' m"
  by (auto simp: shape_error_def)

definition need_list :: "json \<Rightarrow> string \<Rightarrow> string \<Rightarrow> bool \<Rightarrow> bool \<Rightarrow> json list loading" where
  "need_list container key kind required of_str =
     (if \<not> has_field container key then
        (if required then shape_error (kind @ '': missing '' @ key) else Inr [])
      else case jfield container key of
          JArr v \<Rightarrow>
            if of_str \<and> \<not> list_all is_text v
            then shape_error (kind @ '': '' @ key @ '' must be a list of strings'')
            else Inr v
        | v \<Rightarrow> shape_error (kind @ '': '' @ key @ '' must be a list (got '' @ type_name v @ '')''))"

definition need_dict :: "json \<Rightarrow> string \<Rightarrow> string \<Rightarrow> bool \<Rightarrow> json dict loading" where
  "need_dict container key kind required =
     (if \<not> has_field container key then
        (if required then shape_error (kind @ '': missing '' @ key) else Inr [])
      else case jfield container key of
          JObj v \<Rightarrow> Inr v
        | v \<Rightarrow> shape_error (kind @ '': '' @ key @ '' must be an object (got '' @ type_name v @ '')''))"

definition need_dim_map :: "json \<Rightarrow> string \<Rightarrow> string \<Rightarrow> json dict loading" where
  "need_dim_map container key kind =
     rbind (need_dict container key kind False) (\<lambda>m.
     rbind (each (\<lambda>(group, terms).
         if is_array terms \<and> list_all is_text (elements terms) then Inr ()
         else shape_error (kind @ '': dimensions group '' @ group)) m) (\<lambda>_.
     Inr m))"

text \<open>\<open>_keyed_map\<close>: the records by id; a malformed item or a repeated id raises.\<close>

fun keyed_loop :: "string \<Rightarrow> string \<Rightarrow> json list \<Rightarrow> json dict \<Rightarrow> json dict loading" where
  "keyed_loop id_key kind [] out = Inr out"
| "keyed_loop id_key kind (it # items) out =
     (if \<not> is_object it \<or> \<not> is_text (jfield it id_key) \<or> text_of (jfield it id_key) = []
      then shape_error (kind @ '': item missing string '' @ id_key)
      else if map_of out (text_of (jfield it id_key)) \<noteq> None
      then Inl (BundleLoadError DuplicateIdError ''DUPLICATE_ID'' (kind @ '': duplicate id''))
      else keyed_loop id_key kind items (out @ [(text_of (jfield it id_key), it)]))"

definition keyed_map :: "json list \<Rightarrow> string \<Rightarrow> string \<Rightarrow> json dict loading" where
  "keyed_map items id_key kind = keyed_loop id_key kind items []"

text \<open>The parsed members, as \<open>load_bundle\<close> collects them.\<close>

record raw_components =
  raw_rules :: "json list"
  raw_registry :: json
  raw_families :: json
  raw_negatives :: json
  raw_taxonomy :: json
  raw_dimensions :: json
  raw_sources :: json
  raw_evidence :: json
  raw_action_policy :: json

definition check_source_reference :: "string \<Rightarrow> json \<Rightarrow> unit loading" where
  "check_source_reference rid ref =
     (if \<not> is_object ref then shape_error (''rule '' @ rid @ '': source_reference must be an object'')
      else rbind (need_dict ref ''manual_retrieval'' rid False) (\<lambda>mr.
           rbind (need_list (JObj mr) ''evidence_ids'' rid False True) (\<lambda>_. Inr ())))"

definition check_rule_shape :: "json \<Rightarrow> unit loading" where
  "check_rule_shape r =
     (let rid = text_of (jfield r ''id'') in
      rbind (need_dict r ''logic'' rid True) (\<lambda>logic.
      rbind (need_list (JObj logic) ''suppressed_by'' rid False True) (\<lambda>_.
      rbind (need_list r ''taxonomy_refs'' rid False True) (\<lambda>_.
      rbind (need_dict r ''evidence'' rid True) (\<lambda>ev.
      rbind (need_list (JObj ev) ''source_references'' rid False False) (\<lambda>refs.
      each (check_source_reference rid) refs))))))"

definition check_family_shape :: "json \<Rightarrow> unit loading" where
  "check_family_shape f =
     (let fid = text_of (jfield f ''family_id'') in
      rbind (need_list f ''indicator_outputs'' fid False True) (\<lambda>_.
      rbind (need_list f ''negative_interactions'' fid False True) (\<lambda>_.
      rbind (need_list f ''hard_risk_overrides'' fid False True) (\<lambda>_.
      rbind (need_dim_map f ''applicable_dimensions'' fid) (\<lambda>_. Inr ())))))"

definition check_negative_shape :: "json \<Rightarrow> unit loading" where
  "check_negative_shape n =
     (let nid = text_of (jfield n ''negative_indicator_id'') in
      rbind (need_list n ''applicable_rule_families'' nid False True) (\<lambda>_.
      rbind (need_list n ''source_basis'' nid False True) (\<lambda>_.
      rbind (need_list n ''suppresses_indicators'' nid False True) (\<lambda>_. Inr ()))))"

definition check_override_shape :: "json \<Rightarrow> unit loading" where
  "check_override_shape o' =
     (let oid = text_of (jfield o' ''override_id'') in
      if \<not> has_field o' ''condition'' then shape_error (''override '' @ oid @ '': missing condition'')
      else
        rbind (need_list o' ''applies_to_families'' oid False True) (\<lambda>_.
        rbind (need_list o' ''applies_to_rules'' oid False True) (\<lambda>_.
        rbind (need_list o' ''blocks_suppression_categories'' oid False True) (\<lambda>_. Inr ()))))"

definition check_subcategory_shape :: "json \<Rightarrow> unit loading" where
  "check_subcategory_shape s =
     (if \<not> is_object s \<or> \<not> is_text (jfield s ''id'')
      then shape_error ''taxonomy: subcategory missing string id''
      else rbind (need_dim_map s ''dimensions'' (text_of (jfield s ''id''))) (\<lambda>_. Inr ()))"

definition check_category_shape :: "json \<Rightarrow> unit loading" where
  "check_category_shape c =
     (if \<not> is_object c \<or> \<not> is_text (jfield c ''id'')
      then shape_error ''taxonomy: category missing string id''
      else rbind (need_list c ''subcategories'' (text_of (jfield c ''id'')) False False)
             (each check_subcategory_shape))"

definition check_group_shape :: "string \<times> json \<Rightarrow> unit loading" where
  "check_group_shape = (\<lambda>(gname, body).
     rbind (need_list (if is_object body then body else JObj []) ''terms'' gname True False)
       (each (\<lambda>t. if \<not> is_object t \<or> \<not> is_text (jfield t ''id'')
                  then shape_error (''dimensions '' @ gname @ '': term missing string id'') else Inr ())))"

definition check_source_shape :: "json \<Rightarrow> unit loading" where
  "check_source_shape s =
     rbind (need_dict s ''manual_retrieval'' (text_of (jfield s ''id'')) False) (\<lambda>mr.
     rbind (need_list (JObj mr) ''evidence_ids'' (text_of (jfield s ''id'')) False True) (\<lambda>_. Inr ()))"

text \<open>\<open>claim\<close>: the shared namespace of taxonomy nodes, dimension terms, indicators and rules.\<close>

fun claim_all :: "(string \<times> string) list \<Rightarrow> string dict \<Rightarrow> unit loading" where
  "claim_all [] seen = Inr ()"
| "claim_all ((idv, ns) # claims) seen =
     (case map_of seen idv of
        Some _ \<Rightarrow> Inl (BundleLoadError DuplicateIdError ''DUPLICATE_ID'' (''stable-id collision: '' @ idv))
      | None \<Rightarrow> claim_all claims ((idv, ns) # seen))"

definition category_ids :: "json \<Rightarrow> string list" where
  "category_ids c =
     text_of (jfield c ''id'') # map (\<lambda>s. text_of (jfield s ''id'')) (elements (jfield c ''subcategories''))"

definition group_term_ids :: "json \<Rightarrow> string list" where
  "group_term_ids body = map (\<lambda>t. text_of (jfield t ''id'')) (elements (jfield body ''terms''))"

definition record_ids :: "string \<Rightarrow> json list \<Rightarrow> string list" where
  "record_ids id_key = map (\<lambda>r. text_of (jfield r id_key))"

text \<open>Every claim of the shared namespace, in the order they are made.\<close>

definition global_claims :: "raw_components \<Rightarrow> (string \<times> string) list" where
  "global_claims c =
     map (\<lambda>i. (i, ''taxonomy''))
       (concat (map category_ids (elements (jfield (raw_taxonomy c) ''categories'')))) @
     map (\<lambda>i. (i, ''dimension''))
       (concat (map (group_term_ids \<circ> snd) (members (jfield (raw_dimensions c) ''dimensions'')))) @
     map (\<lambda>i. (i, ''indicator'')) (record_ids ''id'' (elements (jfield (raw_registry c) ''indicators''))) @
     map (\<lambda>i. (i, ''negative-indicator''))
       (record_ids ''negative_indicator_id'' (elements (jfield (raw_negatives c) ''negative_indicators''))) @
     map (\<lambda>i. (i, ''rule'')) (record_ids ''id'' (raw_rules c))"

definition check_shapes_and_duplicates :: "raw_components \<Rightarrow> unit loading" where
  "check_shapes_and_duplicates c =
     rbind (keyed_map (raw_rules c) ''id'' ''rules'') (\<lambda>_.
     rbind (each check_rule_shape (raw_rules c)) (\<lambda>_.
     rbind (need_list (raw_registry c) ''indicators'' ''indicator-registry'' True False) (\<lambda>inds.
     rbind (keyed_map inds ''id'' ''indicators'') (\<lambda>_.
     rbind (need_list (raw_families c) ''families'' ''indicator-families'' True False) (\<lambda>fams.
     rbind (keyed_map fams ''family_id'' ''families'') (\<lambda>_.
     rbind (each check_family_shape fams) (\<lambda>_.
     rbind (need_list (raw_negatives c) ''negative_indicators'' ''negative-library'' True False) (\<lambda>negs.
     rbind (keyed_map negs ''negative_indicator_id'' ''negative_indicators'') (\<lambda>_.
     rbind (each check_negative_shape negs) (\<lambda>_.
     rbind (need_dict (raw_negatives c) ''categories'' ''negative-library'' True) (\<lambda>_.
     rbind (need_list (raw_negatives c) ''overrides'' ''negative-library'' False False) (\<lambda>ovs.
     rbind (keyed_map ovs ''override_id'' ''overrides'') (\<lambda>_.
     rbind (each check_override_shape ovs) (\<lambda>_.
     rbind (need_list (raw_taxonomy c) ''categories'' ''taxonomy'' True False) (\<lambda>cats.
     rbind (each check_category_shape cats) (\<lambda>_.
     rbind (need_dict (raw_dimensions c) ''dimensions'' ''dimensions'' True) (\<lambda>groups.
     rbind (each check_group_shape groups) (\<lambda>_.
     rbind (need_list (raw_sources c) ''sources'' ''verification-manifest'' True False) (\<lambda>srcs.
     rbind (keyed_map srcs ''id'' ''sources'') (\<lambda>_.
     rbind (each check_source_shape srcs) (\<lambda>_.
     rbind (need_list (raw_evidence c) ''records'' ''evidence-records'' True False) (\<lambda>recs.
     rbind (keyed_map recs ''evidence_id'' ''evidence'') (\<lambda>_.
     claim_all (global_claims c) [])))))))))))))))))))))))"

section \<open>What the checks establish\<close>

lemma need_list_Inr [res_simps]:
  "need_list c k kind req of_str = Inr xs \<longleftrightarrow>
     (if has_field c k then jfield c k = JArr xs \<and> (of_str \<longrightarrow> list_all is_text xs) else \<not> req \<and> xs = [])"
  by (cases "jfield c k") (auto simp: need_list_def)

lemma need_dict_Inr [res_simps]:
  "need_dict c k kind req = Inr kvs \<longleftrightarrow>
     (if has_field c k then jfield c k = JObj kvs else \<not> req \<and> kvs = [])"
  by (cases "jfield c k") (auto simp: need_dict_def)

lemma no_field: "\<not> has_field c k \<Longrightarrow> jfield c k = JNull"
  by (simp add: has_field_def jfield_def jget_def)

lemma jfield_JObj [simp]: "jfield (JObj kvs) k = jget kvs k"
  by (simp add: jfield_def)

lemma elements_JNull [simp]: "elements JNull = []" "members JNull = []"
  by (simp_all add: elements_def members_def)

lemma need_list_elements: "need_list c k kind req of_str = Inr xs \<Longrightarrow> elements (jfield c k) = xs"
  by (auto simp: need_list_Inr no_field split: if_splits)

lemma need_dict_members: "need_dict c k kind req = Inr kvs \<Longrightarrow> members (jfield c k) = kvs"
  by (auto simp: need_dict_Inr no_field split: if_splits)

lemma keyed_loop_ok:
  "keyed_loop k kind items out = Inr res \<Longrightarrow>
     list_all (\<lambda>it. is_object it \<and> is_text (jfield it k) \<and> text_of (jfield it k) \<noteq> []) items \<and>
     distinct (record_ids k items) \<and> set (record_ids k items) \<inter> set (dict_keys out) = {} \<and>
     res = out @ map (\<lambda>it. (text_of (jfield it k), it)) items"
proof (induction items arbitrary: out)
  case Nil
  then show ?case by (simp add: record_ids_def)
next
  case (Cons it items)
  let ?i = "text_of (jfield it k)"
  from Cons.prems have ok: "is_object it" "is_text (jfield it k)" "?i \<noteq> []" "map_of out ?i = None"
    and run: "keyed_loop k kind items (out @ [(?i, it)]) = Inr res"
    by (auto split: if_splits)
  from Cons.IH [OF run] ok show ?case by (auto simp: record_ids_def map_of_eq_None_iff)
qed

lemma keyed_map_ok:
  assumes "keyed_map items k kind = Inr res"
  shows "distinct (record_ids k items)" "list_all (\<lambda>it. is_object it \<and> is_text (jfield it k)) items"
    "res = map (\<lambda>it. (text_of (jfield it k), it)) items"
  using keyed_loop_ok [OF assms [unfolded keyed_map_def]] by (auto simp: list_all_iff)

lemma claim_all_ok:
  "claim_all cs seen = Inr () \<longleftrightarrow> distinct (map fst cs) \<and> set (map fst cs) \<inter> set (map fst seen) = {}"
proof (induction cs arbitrary: seen)
  case (Cons c cs)
  obtain i ns where c: "c = (i, ns)" by fastforce
  show ?case
  proof (cases "map_of seen i")
    case None
    then have "i \<notin> fst ` set seen" by (simp add: map_of_eq_None_iff)
    then show ?thesis using Cons.IH [of "(i, ns) # seen"]
      by (simp add: c None) blast
  next
    case (Some x)
    then have "i \<in> set (map fst seen)" by (metis map_of_eq_None_iff option.simps(3) set_map)
    then show ?thesis by (simp add: c Some)
  qed
qed simp

text \<open>The global ids of an accepted bundle are pairwise different, across all five kinds of record.\<close>

lemma shapes_global_ids:
  "check_shapes_and_duplicates c = Inr () \<Longrightarrow> distinct (map fst (global_claims c))"
  by (auto simp: check_shapes_and_duplicates_def res_simps claim_all_ok)

lemma shapes_record_ids:
  assumes "check_shapes_and_duplicates c = Inr ()"
  shows "distinct (record_ids ''id'' (raw_rules c))"
    "distinct (record_ids ''id'' (elements (jfield (raw_registry c) ''indicators'')))"
    "distinct (record_ids ''family_id'' (elements (jfield (raw_families c) ''families'')))"
    "distinct (record_ids ''negative_indicator_id'' (elements (jfield (raw_negatives c) ''negative_indicators'')))"
    "distinct (record_ids ''override_id'' (elements (jfield (raw_negatives c) ''overrides'')))"
    "distinct (record_ids ''id'' (elements (jfield (raw_sources c) ''sources'')))"
    "distinct (record_ids ''evidence_id'' (elements (jfield (raw_evidence c) ''records'')))"
  using assms unfolding check_shapes_and_duplicates_def
  by (auto simp: rbind_eq_Inr dest!: keyed_map_ok(1) need_list_elements)

section \<open>Errors of the checks\<close>

text \<open>Every failure of a shape check is a typed loader error: nothing leaks.\<close>

definition typed_errors :: "'a loading \<Rightarrow> bool" where
  "typed_errors r \<longleftrightarrow> (\<forall>e. r = Inl e \<longrightarrow> typed e)"

named_theorems typed_intros "computations whose errors are typed"

lemma typed_errors_intros [intro, typed_intros]:
  "typed_errors (Inr x)" "typed_errors (shape_error m)"
  "t \<in> set ERROR_CODES \<Longrightarrow> typed_errors (Inl (BundleLoadError c t m))"
  "t \<in> set ERROR_CODES \<Longrightarrow> typed_errors (require_that ok c t msg)"
  by (auto simp: typed_errors_def ERROR_CODES_def)

lemma typed_errors_rbind [typed_intros]:
  "typed_errors x \<Longrightarrow> (\<And>a. typed_errors (f a)) \<Longrightarrow> typed_errors (rbind x f)"
  by (auto simp: typed_errors_def res_simps)

lemma typed_errors_each [typed_intros]: "(\<And>x. typed_errors (f x)) \<Longrightarrow> typed_errors (each f xs)"
  by (auto simp: typed_errors_def dest: each_Inl)

lemma typed_errors_if [typed_intros]:
  "typed_errors x \<Longrightarrow> typed_errors y \<Longrightarrow> typed_errors (if b then x else y)"
  by simp

lemma duplicate_code [simp]: "''DUPLICATE_ID'' \<in> set ERROR_CODES"
  by (simp add: ERROR_CODES_def)

lemma typed_need [typed_intros]:
  "typed_errors (need_list c k kind req of_str)" "typed_errors (need_dict c k kind req)"
  by (auto simp: need_list_def need_dict_def split: json.splits)

lemma typed_need_dim_map [typed_intros]: "typed_errors (need_dim_map c k kind)"
  unfolding need_dim_map_def by (intro typed_intros) (auto intro: typed_intros)

lemma typed_keyed_loop: "typed_errors (keyed_loop k kind items out)"
  by (induction items arbitrary: out) (auto intro!: typed_intros)

lemma typed_keyed_map [typed_intros]: "typed_errors (keyed_map items k kind)"
  unfolding keyed_map_def by (rule typed_keyed_loop)

lemma typed_claim_all [typed_intros]: "typed_errors (claim_all cs seen)"
  by (induction cs seen rule: claim_all.induct) (auto intro: typed_intros split: option.split)

lemma typed_record_checks [typed_intros]:
  "typed_errors (check_source_reference rid ref)" "typed_errors (check_rule_shape j)"
  "typed_errors (check_family_shape j)" "typed_errors (check_negative_shape j)"
  "typed_errors (check_override_shape j)" "typed_errors (check_subcategory_shape j)"
  "typed_errors (check_category_shape j)" "typed_errors (check_group_shape g)"
  "typed_errors (check_source_shape j)"
proof -
  show ref: "typed_errors (check_source_reference rid ref)" for rid ref
    unfolding check_source_reference_def by (intro typed_intros)
  show "typed_errors (check_rule_shape j)" unfolding check_rule_shape_def Let_def by (intro typed_intros ref)
  show sub: "typed_errors (check_subcategory_shape j)" for j
    unfolding check_subcategory_shape_def by (intro typed_intros)
  show "typed_errors (check_category_shape j)"
    unfolding check_category_shape_def by (intro typed_intros sub)
  show "typed_errors (check_group_shape g)"
    unfolding check_group_shape_def by (cases g) (auto intro!: typed_intros)
qed (simp_all add: check_family_shape_def check_negative_shape_def check_override_shape_def
    check_source_shape_def Let_def typed_intros)

lemma typed_check_shapes: "typed_errors (check_shapes_and_duplicates c)"
  unfolding check_shapes_and_duplicates_def by (intro typed_intros)

end
