(* ===== verification/Components.thy ===== *)
theory Components
  imports Shapes Knowledge
begin

text \<open>
  The typed view of a parsed bundle: one record per governed object, with the fields the runtime reads
  by \<open>.get\<close>. It is total: a field the shape checks or the rule schema do not allow reads as absent. A rule
  or an action-policy entry outside the vocabularies its JSON Schema fixes has no typed view.
\<close>

section \<open>Vocabularies\<close>

definition kind_of :: "json \<Rightarrow> kind option" where
  "kind_of j = (case text_opt j of
     None \<Rightarrow> None
   | Some s \<Rightarrow> map_of [(''COMPOSITE'', COMPOSITE), (''SUPPRESSION'', SUPPRESSION)] s)"

definition level_of :: "json \<Rightarrow> level option" where
  "level_of j = (case text_opt j of
     None \<Rightarrow> None
   | Some s \<Rightarrow> map_of [(''LOW'', LOW), (''MEDIUM'', MEDIUM), (''HIGH'', HIGH), (''CRITICAL'', CRITICAL)] s)"

definition verdict_of :: "json \<Rightarrow> evidence_verdict option" where
  "verdict_of j = (case text_opt j of
     None \<Rightarrow> None
   | Some s \<Rightarrow> map_of [(''SUPPORTED'', V_SUPPORTED), (''PARTIAL'', V_PARTIAL),
                       (''HEURISTIC'', V_HEURISTIC), (''UNSUPPORTED'', V_UNSUPPORTED)] s)"

definition classification_of :: "string \<Rightarrow> classification option" where
  "classification_of = map_of
     [(''NO_SCAM_PATTERN'', CL_NO_SCAM_PATTERN), (''INSUFFICIENT_EVIDENCE'', CL_INSUFFICIENT_EVIDENCE),
      (''SCAM_PATTERN_SUSPECTED'', CL_SCAM_PATTERN_SUSPECTED),
      (''SCAM_PATTERN_DETECTED'', CL_SCAM_PATTERN_DETECTED), (''UNSUPPORTED'', CL_UNSUPPORTED),
      (''ERROR'', CL_ERROR)]"

definition support_of :: "string \<Rightarrow> support_status option" where
  "support_of = map_of
     [(''SUPPORTED'', S_SUPPORTED), (''PARTIALLY_SUPPORTED'', S_PARTIALLY_SUPPORTED),
      (''UNSUPPORTED'', S_UNSUPPORTED), (''INSUFFICIENT_INFORMATION'', S_INSUFFICIENT_INFORMATION),
      (''ERROR'', S_ERROR)]"

definition texts :: "json \<Rightarrow> string list" where
  "texts j = List.map_filter text_opt (elements j)"

lemma map_filter_text: "list_all is_text xs \<Longrightarrow> map JStr (List.map_filter text_opt xs) = xs"
proof (induction xs)
  case (Cons x xs)
  then show ?case by (cases x) (simp_all add: List.map_filter_simps is_text_def text_opt_def)
qed (simp add: List.map_filter_simps)

lemma texts_all: "list_all is_text (elements j) \<Longrightarrow> map JStr (texts j) = elements j"
  unfolding texts_def by (rule map_filter_text)

section \<open>Records\<close>

definition view_source_reference :: "json \<Rightarrow> source_reference" where
  "view_source_reference j =
     (let mr = jfield j ''manual_retrieval'' in
      \<lparr>sr_source_id = text_opt (jfield j ''source_id''),
       sr_issuing_body = text_opt (jfield j ''issuing_body''),
       sr_authority = text_opt (jfield j ''authority''),
       sr_verification_status = text_opt (jfield j ''verification_status''),
       sr_quote = text_opt (jfield j ''quote''),
       sr_manual_class = text_opt (jfield mr ''evidence_class''),
       sr_manual_ids = texts (jfield mr ''evidence_ids'')\<rparr>)"

definition view_rule :: "json \<Rightarrow> rule option" where
  "view_rule j =
     (case kind_of (jfield j ''kind'') of
        None \<Rightarrow> None
      | Some kind \<Rightarrow>
          (let ev = jfield j ''evidence''; ex = jfield j ''explanation'' in
           Some \<lparr>ru_id = text_of (jfield j ''id''), ru_rule_version = text_opt (jfield j ''rule_version''),
             ru_schema_version = text_opt (jfield j ''schema_version''),
             ru_name = text_of (jfield j ''name''), ru_kind = kind,
             ru_status = text_opt (jfield (jfield j ''lifecycle'') ''status''),
             ru_scope = jfield j ''language_scope'', ru_logic = jfield j ''logic'',
             ru_taxonomy_refs = texts (jfield j ''taxonomy_refs''),
             ru_severity = level_of (jfield j ''severity''), ru_verdict = verdict_of (jfield ev ''verdict''),
             ru_severity_cap = level_of (jfield ev ''severity_cap''),
             ru_sources = map view_source_reference (elements (jfield ev ''source_references'')),
             ru_plain = text_opt (jfield ex ''plain''), ru_technical = text_opt (jfield ex ''technical''),
             ru_why_limited = text_opt (jfield ex ''why_confidence_limited''),
             ru_steps = texts (jfield ex ''verification_steps'')\<rparr>))"

definition view_indicator :: "json \<Rightarrow> indicator" where
  "view_indicator j =
     \<lparr>in_id = text_of (jfield j ''id''), in_evidence_class = text_opt (jfield j ''evidence_class''),
      in_strength = text_opt (jfield j ''strength''),
      in_polarity = text_opt (jfield j ''polarity'')\<rparr>"

definition view_negative :: "json \<Rightarrow> negative" where
  "view_negative j =
     \<lparr>ng_id = text_of (jfield j ''negative_indicator_id''), ng_status = text_opt (jfield j ''status''),
      ng_effect = jfield j ''suppression_effect'', ng_category = jfield j ''category'',
      ng_blockable = jfield j ''blockable_by_overrides'', ng_cap = jfield j ''severity_cap'',
      ng_families = texts (jfield j ''applicable_rule_families''),
      ng_targets = texts (jfield j ''suppresses_indicators''),
      ng_source_basis = texts (jfield j ''source_basis'')\<rparr>"

definition view_override :: "json \<Rightarrow> override" where
  "view_override j =
     \<lparr>ov_id = text_of (jfield j ''override_id''), ov_condition = jfield j ''condition'',
      ov_families = texts (jfield j ''applies_to_families''), ov_rules = texts (jfield j ''applies_to_rules''),
      ov_blocks = (if has_field j ''blocks_suppression_categories''
                   then Some (texts (jfield j ''blocks_suppression_categories'')) else None)\<rparr>"

definition view_dim_map :: "json \<Rightarrow> string list dict" where
  "view_dim_map j = map (\<lambda>(group, terms). (group, texts terms)) (members j)"

definition view_family :: "json \<Rightarrow> family" where
  "view_family j =
     \<lparr>fm_id = text_of (jfield j ''family_id''), fm_outputs = texts (jfield j ''indicator_outputs''),
      fm_negatives = texts (jfield j ''negative_interactions''),
      fm_overrides = texts (jfield j ''hard_risk_overrides''),
      fm_dimensions = view_dim_map (jfield j ''applicable_dimensions'')\<rparr>"

definition view_subcategory :: "json \<Rightarrow> subcategory" where
  "view_subcategory j =
     \<lparr>sc_id = text_of (jfield j ''id''), sc_dimensions = view_dim_map (jfield j ''dimensions'')\<rparr>"

definition view_category :: "json \<Rightarrow> category" where
  "view_category j =
     \<lparr>ca_id = text_of (jfield j ''id''), ca_subs = map view_subcategory (elements (jfield j ''subcategories''))\<rparr>"

definition view_source :: "json \<Rightarrow> source" where
  "view_source j =
     \<lparr>so_id = text_of (jfield j ''id''),
      so_evidence_ids = texts (jfield (jfield j ''manual_retrieval'') ''evidence_ids'')\<rparr>"

definition view_evidence :: "json \<Rightarrow> evidence" where
  "view_evidence j =
     \<lparr>ev_id = text_of (jfield j ''evidence_id''), ev_source_id = text_opt (jfield j ''manifest_source_id'')\<rparr>"

definition view_trigger :: "json \<Rightarrow> trigger option" where
  "view_trigger j =
     (let tid = text_of (jfield j ''id''); ttype = text_of (jfield j ''type'') in
      if ttype = ''OVERRIDE'' then Some (T_OVERRIDE tid)
      else if ttype = ''RULE'' then Some (T_RULE tid)
      else if ttype = ''TAXONOMY'' then Some (T_TAXONOMY tid)
      else if ttype = ''NEGATIVE_INDICATOR'' then Some (T_NEGATIVE_INDICATOR tid)
      else if ttype = ''RULE_VERIFICATION_POLICY'' then Some T_RULE_VERIFICATION_POLICY
      else if ttype = ''SYSTEM_CLASSIFICATION'' then map_option T_SYSTEM_CLASSIFICATION (classification_of tid)
      else if ttype = ''SYSTEM_SUPPORT_STATUS'' then map_option T_SYSTEM_SUPPORT_STATUS (support_of tid)
      else None)"

definition view_entry :: "json \<Rightarrow> policy_entry option" where
  "view_entry j =
     map_option (\<lambda>t.
       \<lparr>ap_id = text_of (jfield j ''policy_entry_id''), ap_trigger = t,
        ap_action = text_of (jfield j ''action_code''),
        ap_classes = (if truthy (jfield j ''applies_when'') \<and> has_field (jfield j ''applies_when'') ''classifications''
                      then Some (List.map_filter classification_of
                             (texts (jfield (jfield j ''applies_when'') ''classifications'')))
                      else None),
        ap_evidence = texts (jfield j ''evidence_refs'')\<rparr>)
       (view_trigger (jfield j ''trigger''))"

section \<open>The components of a bundle\<close>

record components =
  cp_rules :: "rule list"
  cp_indicators :: "indicator list"
  cp_families :: "family list"
  cp_negatives :: "negative list"
  cp_suppression_categories :: "string list"
  cp_overrides :: "override list"
  cp_taxonomy :: "category list"
  cp_dimensions :: "(string \<times> (string \<times> string) list) list"
  cp_sources :: "source list"
  cp_evidence :: "evidence list"
  cp_policy :: "policy_entry list"

text \<open>A dimension axis with its terms, each an id with its name.\<close>

definition view_axis :: "string \<times> json \<Rightarrow> string \<times> (string \<times> string) list" where
  "view_axis = (\<lambda>(axis, body).
     (axis, map (\<lambda>t. (text_of (jfield t ''id''), text_of (jfield t ''name''))) (elements (jfield body ''terms''))))"

definition view_components :: "raw_components \<Rightarrow> components" where
  "view_components c =
     \<lparr>cp_rules = List.map_filter view_rule (raw_rules c),
      cp_indicators = map view_indicator (elements (jfield (raw_registry c) ''indicators'')),
      cp_families = map view_family (elements (jfield (raw_families c) ''families'')),
      cp_negatives = map view_negative (elements (jfield (raw_negatives c) ''negative_indicators'')),
      cp_suppression_categories = dict_keys (members (jfield (raw_negatives c) ''categories'')),
      cp_overrides = map view_override (elements (jfield (raw_negatives c) ''overrides'')),
      cp_taxonomy = map view_category (elements (jfield (raw_taxonomy c) ''categories'')),
      cp_dimensions = map view_axis (members (jfield (raw_dimensions c) ''dimensions'')),
      cp_sources = map view_source (elements (jfield (raw_sources c) ''sources'')),
      cp_evidence = map view_evidence (elements (jfield (raw_evidence c) ''records'')),
      cp_policy = List.map_filter view_entry (elements (jfield (raw_action_policy c) ''entries''))\<rparr>"

end
