(* ===== verification/Indexes.thy ===== *)
theory Indexes
  imports Components Evaluator
begin

text \<open>
  knowledge/runtime/indexes.py and dimensions.py: the construction of the runtime indexes and the
  cross-reference check, over the typed components of a bundle. An iteration over a Python set is one
  over the sorted list of its elements; the indexes do not depend on the order.
\<close>

section \<open>Building the indexes\<close>

definition published_of :: "rule list \<Rightarrow> rule list" where
  "published_of rs = filter (\<lambda>r. ru_status r = Some ''PUBLISHED'') rs"

text \<open>\<open>rule.get("logic", {}).get("require")\<close>\<close>

definition require_of :: "rule \<Rightarrow> json res" where
  "require_of r =
     (case ru_logic r of
        JObj kvs \<Rightarrow> Inr (jget kvs ''require'')
      | JNull \<Rightarrow> Inr JNull
      | v \<Rightarrow> Inl (AttributeError (type_name v @ '' object has no attribute get'')))"

definition trigger_ids :: "rule \<Rightarrow> string list res" where
  "trigger_ids r = rbind (require_of r) (\<lambda>c. rbind (operands c) (\<lambda>ops. Inr (sorted_unique ops)))"

definition condition_ids :: "override \<Rightarrow> string list res" where
  "condition_ids ov = rbind (operands (ov_condition ov)) (\<lambda>ops. Inr (sorted_unique ops))"

text \<open>\<open>d.setdefault(k, []).append(v)\<close>, and the closing comprehension over \<open>_sorted_tuple\<close>.\<close>

definition append_to :: "string \<Rightarrow> string \<Rightarrow> string list dict \<Rightarrow> string list dict" where
  "append_to v k d = AList.update k (reverse_lookup d k @ [v]) d"

definition sorted_values :: "string list dict \<Rightarrow> string list dict" where
  "sorted_values d = map (\<lambda>(k, vs). (k, sorted_unique vs)) d"

definition applicable_negatives :: "negative list \<Rightarrow> string list \<Rightarrow> string list" where
  "applicable_negatives active cats =
     map ng_id (filter (\<lambda>n. ''*'' \<in> set (ng_families n) \<or> set (ng_families n) \<inter> set cats \<noteq> {}) active)"

fun index_triggers :: "string list \<Rightarrow> rule list \<Rightarrow> string list dict \<Rightarrow> string list dict res" where
  "index_triggers positive [] d = Inr d"
| "index_triggers positive (r # rs) d =
     rbind (trigger_ids r) (\<lambda>ops.
       index_triggers positive rs (fold (append_to (ru_id r)) (filter (\<lambda>i. i \<in> set positive) ops) d))"

fun index_conditions :: "override list \<Rightarrow> string list dict \<Rightarrow> string list dict res" where
  "index_conditions [] d = Inr d"
| "index_conditions (ov # ovs) d =
     rbind (condition_ids ov) (\<lambda>ops. index_conditions ovs (fold (append_to (ov_id ov)) ops d))"

definition taxonomy_entries :: "category \<Rightarrow> (string \<times> taxonomy_node) list" where
  "taxonomy_entries c = (ca_id c, Category c) # map (\<lambda>s. (sc_id s, Subcategory s)) (ca_subs c)"

definition build_indexes :: "metadata \<Rightarrow> components \<Rightarrow> runtime_knowledge res" where
  "build_indexes meta c =
     (let published = published_of (cp_rules c);
          active = filter (\<lambda>n. ng_status n = Some ''ACTIVE'') (cp_negatives c) in
      rbind (index_triggers (map in_id (cp_indicators c)) published []) (\<lambda>by_indicator.
      rbind (index_conditions (cp_overrides c) []) (\<lambda>by_condition.
      Inr
        \<lparr>rk_meta = meta,
         rules_by_id = dict_of (map (\<lambda>r. (ru_id r, r)) (cp_rules c)),
         published_rules_by_id = dict_of (map (\<lambda>r. (ru_id r, r)) published),
         indicators_by_id = dict_of (map (\<lambda>i. (in_id i, i)) (cp_indicators c)),
         negative_indicators_by_id = dict_of (map (\<lambda>n. (ng_id n, n)) (cp_negatives c)),
         indicator_families_by_id = dict_of (map (\<lambda>f. (fm_id f, f)) (cp_families c)),
         positive_indicators_by_family =
           dict_of (map (\<lambda>f. (fm_id f, sorted_unique (fm_outputs f))) (cp_families c)),
         taxonomy_by_id = dict_of (concat (map taxonomy_entries (cp_taxonomy c))),
         dimensions_by_id = dict_of (concat (map snd (cp_dimensions c))),
         sources_by_id = dict_of (map (\<lambda>s. (so_id s, s)) (cp_sources c)),
         evidence_by_id = dict_of (map (\<lambda>e. (ev_id e, e)) (cp_evidence c)),
         overrides_by_id = dict_of (map (\<lambda>ov. (ov_id ov, ov)) (cp_overrides c)),
         rules_by_indicator = sorted_values by_indicator,
         rules_by_category =
           sorted_values (fold (\<lambda>r. fold (append_to (ru_id r)) (rule_categories r)) published []),
         negative_indicators_by_rule =
           dict_of (map (\<lambda>r. (ru_id r, sorted_unique (applicable_negatives active (rule_categories r)))) published),
         overrides_by_indicator = sorted_values by_condition,
         overrides_by_target =
           sorted_values (fold (\<lambda>ov. fold (append_to (ov_id ov)) (ov_families ov @ ov_rules ov)) (cp_overrides c) []),
         action_policy_by_id = dict_of (map (\<lambda>e. (ap_id e, e)) (cp_policy c))\<rparr>)))"

section \<open>Dimension axes\<close>

definition DIMENSION_KEY_TO_AXIS :: "(string \<times> string) list" where
  "DIMENSION_KEY_TO_AXIS =
     [(''fraud_objective'', ''fraud_objective''), (''technical_mechanism'', ''technical_mechanism''),
      (''typical_channels'', ''channel''), (''social_engineering_tactics'', ''social_engineering_tactic''),
      (''requested_user_actions'', ''requested_user_action''), (''potential_harm'', ''potential_harm'')]"

definition terms_by_axis :: "components \<Rightarrow> string list dict" where
  "terms_by_axis c = map (\<lambda>(axis, terms). (axis, map fst terms)) (cp_dimensions c)"

definition dimension_map_problems :: "string \<Rightarrow> string list dict \<Rightarrow> string list dict \<Rightarrow> string list" where
  "dimension_map_problems where dim_map axis_terms =
     concat (map (\<lambda>(key, terms).
       case map_of DIMENSION_KEY_TO_AXIS key of
         None \<Rightarrow> [where @ '': unknown dimension axis/key '' @ key]
       | Some axis \<Rightarrow>
           map (\<lambda>t. where @ '': dimension term '' @ t @ '' not valid in axis '' @ key)
             (filter (\<lambda>t. t \<notin> set (reverse_lookup axis_terms axis)) terms)) dim_map)"

section \<open>Reference validation\<close>

text \<open>One problem line per element a check rejects.\<close>

definition report :: "string \<Rightarrow> ('a \<Rightarrow> bool) \<Rightarrow> ('a \<Rightarrow> string) \<Rightarrow> 'a list \<Rightarrow> string list" where
  "report what ok show xs = map (\<lambda>x. what @ show x) (filter (\<lambda>x. \<not> ok x) xs)"

definition opt_text :: "string option \<Rightarrow> string" where
  "opt_text x = (case x of None \<Rightarrow> ''None'' | Some s \<Rightarrow> s)"

text \<open>\<open>set(logic.get("suppressed_by", []))\<close>\<close>

definition suppressors_of :: "rule \<Rightarrow> string list" where
  "suppressors_of r = sorted_unique (texts (jfield (ru_logic r) ''suppressed_by''))"

definition source_reference_problems :: "components \<Rightarrow> string \<Rightarrow> source_reference \<Rightarrow> string list" where
  "source_reference_problems c rid ref =
     (let sid = sr_source_id ref; evidence_by = dict_of (map (\<lambda>e. (ev_id e, e)) (cp_evidence c)) in
      report (''rule '' @ rid @ '': unresolved source_id '') (\<lambda>s. s \<in> Some ` set (map so_id (cp_sources c)))
        opt_text [sid] @
      concat (map (\<lambda>eid.
        case map_of evidence_by eid of
          None \<Rightarrow> [''rule '' @ rid @ '': unresolved manual_retrieval evidence id '' @ eid]
        | Some e \<Rightarrow>
            if ev_source_id e \<noteq> sid
            then [''rule '' @ rid @ '': manual evidence '' @ eid @ '' is owned by '' @ opt_text (ev_source_id e)]
            else []) (sr_manual_ids ref)))"

definition rule_problems :: "components \<Rightarrow> rule \<Rightarrow> string list res" where
  "rule_problems c r =
     (let rid = ru_id r; positive = map in_id (cp_indicators c); negative = map ng_id (cp_negatives c);
          active = map ng_id (filter (\<lambda>n. ng_status n = Some ''ACTIVE'') (cp_negatives c));
          tax_all = concat (map (map fst \<circ> taxonomy_entries) (cp_taxonomy c));
          suppressors = suppressors_of r in
      rbind (trigger_ids r) (\<lambda>trigger. Inr
        (report (''rule '' @ rid @ '': unresolved indicator '') (\<lambda>i. i \<in> set positive \<or> i \<in> set negative) id
           (sorted_unique (trigger @ suppressors)) @
         report (''rule '' @ rid @ '': COMPOSITE trigger is a NEGATIVE indicator '')
           (\<lambda>op. \<not> (ru_kind r = COMPOSITE \<and> op \<in> set negative \<and> op \<notin> set positive)) id trigger @
         report (''rule '' @ rid @ '': SUPPRESSION trigger is a POSITIVE indicator '')
           (\<lambda>op. \<not> (ru_kind r = SUPPRESSION \<and> op \<in> set positive \<and> op \<notin> set negative)) id trigger @
         report (''rule '' @ rid @ '': PUBLISHED rule suppressed_by DEPRECATED negative '')
           (\<lambda>s. \<not> (ru_status r = Some ''PUBLISHED'' \<and> s \<in> set negative \<and> s \<notin> set active)) id suppressors @
         report (''rule '' @ rid @ '': unresolved taxonomy_ref '') (\<lambda>t. t \<in> set tax_all) id (ru_taxonomy_refs r) @
         concat (map (source_reference_problems c rid) (ru_sources r)))))"

definition family_problems :: "components \<Rightarrow> family \<Rightarrow> string list" where
  "family_problems c f =
     (let what = ''family '' @ fm_id f in
      report (what @ '': unresolved indicator_output '') (\<lambda>i. i \<in> in_id ` set (cp_indicators c)) id (fm_outputs f) @
      report (what @ '': unresolved negative_interaction '') (\<lambda>n. n \<in> ng_id ` set (cp_negatives c)) id
        (fm_negatives f) @
      report (what @ '': unresolved hard_risk_override '') (\<lambda>v. v \<in> ov_id ` set (cp_overrides c)) id
        (fm_overrides f) @
      report (what @ '': unresolved dimension term '')
        (\<lambda>t. t \<in> set (concat (map snd (terms_by_axis c)))) id (concat (map snd (fm_dimensions f))))"

definition taxonomy_problems :: "components \<Rightarrow> category \<Rightarrow> string list" where
  "taxonomy_problems c cat =
     concat (map (\<lambda>s. dimension_map_problems (''taxonomy '' @ sc_id s) (sc_dimensions s) (terms_by_axis c))
       (ca_subs cat))"

definition negative_problems :: "components \<Rightarrow> negative \<Rightarrow> string list" where
  "negative_problems c n =
     (let what = ''negative '' @ ng_id n in
      report (what @ '': applicable_rule_family is not a TAX category: '')
        (\<lambda>f. f = ''*'' \<or> f \<in> ca_id ` set (cp_taxonomy c)) id (ng_families n) @
      report (what @ '': unresolved source_basis '') (\<lambda>s. s \<in> so_id ` set (cp_sources c)) id (ng_source_basis n) @
      report (what @ '': suppresses unknown positive indicator '') (\<lambda>i. i \<in> in_id ` set (cp_indicators c)) id
        (ng_targets n))"

definition override_problems :: "components \<Rightarrow> override \<Rightarrow> string list res" where
  "override_problems c ov =
     (let what = ''override '' @ ov_id ov in
      rbind (condition_ids ov) (\<lambda>ops. Inr
        (report (what @ '': unresolved condition indicator '') (\<lambda>i. i \<in> in_id ` set (cp_indicators c)) id ops @
         report (what @ '': applies_to_family is not a TAX category: '') (\<lambda>f. f \<in> ca_id ` set (cp_taxonomy c)) id
           (ov_families ov) @
         report (what @ '': unresolved applies_to_rule '') (\<lambda>r. r \<in> ru_id ` set (cp_rules c)) id (ov_rules ov) @
         report (what @ '': blocks unknown suppression category '')
           (\<lambda>k. k \<in> set (cp_suppression_categories c)) id
           (case ov_blocks ov of None \<Rightarrow> [] | Some bs \<Rightarrow> bs))))"

definition evidence_problems :: "components \<Rightarrow> string list" where
  "evidence_problems c =
     report ''evidence: unresolved manifest_source_id of '' (\<lambda>e. ev_source_id e \<in> Some ` so_id ` set (cp_sources c))
       ev_id (cp_evidence c) @
     concat (map (\<lambda>s. report (''source '' @ so_id s @ '': unresolved manual_retrieval evidence id '')
       (\<lambda>e. e \<in> ev_id ` set (cp_evidence c)) id (so_evidence_ids s)) (cp_sources c))"

definition validate_references :: "components \<Rightarrow> string list res" where
  "validate_references c =
     rbind (map_res (rule_problems c) (cp_rules c)) (\<lambda>rules.
     rbind (map_res (override_problems c) (cp_overrides c)) (\<lambda>overrides.
     Inr (sort (concat rules @ concat (map (family_problems c) (cp_families c)) @
       concat (map (taxonomy_problems c) (cp_taxonomy c)) @
       concat (map (negative_problems c) (cp_negatives c)) @ concat overrides @ evidence_problems c))))"

end
