(* ===== verification/Sessions.thy ===== *)
theory Sessions
  imports Prelude
begin

text \<open>
  apps/backend/trustlens_backend/sessions.py: one-time login transactions and browser sessions, each a
  dict from the SHA-256 digest of an opaque secret to a record. Every operation holds the store's lock,
  so a run is a sequence of operations with the clock readings they took. Parameters: the digest, the
  fresh secrets an operation draws, and the clock, whose readings are integers (ticks).
\<close>

section \<open>Tokens\<close>

definition MAX_TOKEN_LENGTH :: nat where
  "MAX_TOKEN_LENGTH = 128"

definition token_char :: "char \<Rightarrow> bool" where
  "token_char c \<longleftrightarrow>
     CHR ''A'' \<le> c \<and> c \<le> CHR ''Z'' \<or> CHR ''a'' \<le> c \<and> c \<le> CHR ''z'' \<or>
     CHR ''0'' \<le> c \<and> c \<le> CHR ''9'' \<or> c = CHR ''-'' \<or> c = CHR ''_''"

text \<open>A presented value that is not a \<open>str\<close> is \<^term>\<open>None\<close>.\<close>

definition is_token :: "string option \<Rightarrow> bool" where
  "is_token value \<longleftrightarrow>
     (case value of
        None \<Rightarrow> False
      | Some s \<Rightarrow> 0 < length s \<and> length s \<le> MAX_TOKEN_LENGTH \<and> list_all token_char s)"

definition tokens_equal :: "string option \<Rightarrow> string \<Rightarrow> bool" where
  "tokens_equal presented expected \<longleftrightarrow> is_token presented \<and> is_token (Some expected) \<and> presented = Some expected"

datatype store_error = CapacityExceeded string

section \<open>Stores whose entries expire\<close>

definition sweep :: "(int \<Rightarrow> 'v \<Rightarrow> bool) \<Rightarrow> int \<Rightarrow> 'v dict \<Rightarrow> 'v dict" where
  "sweep expired now items = filter (\<lambda>(_, v). \<not> expired now v) items"

lemma sweep_set [simp]: "(k, v) \<in> set (sweep expired now items) \<longleftrightarrow> (k, v) \<in> set items \<and> \<not> expired now v"
  by (auto simp: sweep_def)

lemma sweep_keys: "set (dict_keys (sweep expired now items)) \<subseteq> set (dict_keys items)"
  by (auto simp: sweep_def)

lemma sweep_distinct: "distinct (dict_keys items) \<Longrightarrow> distinct (dict_keys (sweep expired now items))"
  by (auto simp: sweep_def distinct_map_filter)

lemma sweep_delete: "sweep expired now (AList.delete k items) = AList.delete k (sweep expired now items)"
  by (simp add: sweep_def AList.delete_eq filter_filter conj_commute case_prod_unfold)

lemma sweep_length: "length (sweep expired now items) \<le> length items"
  by (simp add: sweep_def)

lemma sweep_lookup:
  "distinct (dict_keys items) \<Longrightarrow>
     map_of (sweep expired now items) k =
       (case map_of items k of Some v \<Rightarrow> if expired now v then None else Some v | None \<Rightarrow> None)"
  by (induction items) (auto simp: sweep_def map_of_eq_None_iff image_iff split: option.splits)

text \<open>The contract of an expiring entry: once expired, it stays expired.\<close>

locale expiring =
  fixes expired :: "int \<Rightarrow> 'v \<Rightarrow> bool"
  assumes expiry_final: "expired now v \<Longrightarrow> now \<le> now' \<Longrightarrow> expired now' v"
begin

lemma sweep_sweep: "now \<le> now' \<Longrightarrow> sweep expired now' (sweep expired now items) = sweep expired now' items"
  by (auto simp: sweep_def filter_filter intro!: filter_cong dest: expiry_final)

lemma sweep_later: "now \<le> now' \<Longrightarrow> sweep expired now a = sweep expired now b \<Longrightarrow> sweep expired now' a = sweep expired now' b"
  by (metis sweep_sweep)

end

section \<open>Login transactions\<close>

record transaction =
  tx_state :: string
  tx_nonce :: string
  tx_verifier :: string
  tx_binding :: string
  tx_created :: int

text \<open>The four values \<open>begin\<close> draws from the CSPRNG.\<close>

record secrets =
  sr_binding :: string
  sr_state :: string
  sr_nonce :: string
  sr_verifier :: string

definition tx_expired :: "int \<Rightarrow> int \<Rightarrow> transaction \<Rightarrow> bool" where
  "tx_expired lifetime now t \<longleftrightarrow> now - tx_created t \<ge> lifetime"

interpretation tx_expiring: expiring "tx_expired lifetime" for lifetime
  by unfold_locales (auto simp: tx_expired_def)

definition new_transaction :: "(string \<Rightarrow> string) \<Rightarrow> int \<Rightarrow> secrets \<Rightarrow> transaction" where
  "new_transaction digest now s =
     \<lparr>tx_state = sr_state s, tx_nonce = sr_nonce s, tx_verifier = sr_verifier s,
      tx_binding = digest (sr_binding s), tx_created = now\<rparr>"

definition begin_tx ::
    "int \<Rightarrow> nat \<Rightarrow> (string \<Rightarrow> string) \<Rightarrow> int \<Rightarrow> secrets \<Rightarrow> transaction dict
     \<Rightarrow> (store_error + transaction \<times> string) \<times> transaction dict" where
  "begin_tx lifetime capacity digest now s items =
     (let swept = sweep (tx_expired lifetime) now items in
      if capacity \<le> length swept then (Inl (CapacityExceeded ''too many pending sign-ins''), swept)
      else let tx = new_transaction digest now s in
           (Inr (tx, sr_binding s), AList.update (digest (tx_state tx)) tx swept))"

definition consume ::
    "int \<Rightarrow> (string \<Rightarrow> string) \<Rightarrow> int \<Rightarrow> string option \<Rightarrow> string option \<Rightarrow> transaction dict
     \<Rightarrow> transaction option \<times> transaction dict" where
  "consume lifetime digest now state binding items =
     (case (state, binding) of
        (Some st, Some b) \<Rightarrow>
          if is_token state \<and> is_token binding then
            (let popped = map_of items (digest st);
                 rest = sweep (tx_expired lifetime) now (AList.delete (digest st) items) in
             (case popped of
                None \<Rightarrow> None
              | Some tx \<Rightarrow>
                  if now - tx_created tx \<ge> lifetime then None
                  else if tx_binding tx \<noteq> digest b then None else Some tx, rest))
          else (None, items)
      | _ \<Rightarrow> (None, items))"

section \<open>Sessions\<close>

record session =
  se_principal :: string
  se_csrf :: string
  se_created :: int
  se_last_seen :: int
  se_id_token :: string
  se_refresh :: "string option"

record lifetimes =
  lt_idle :: int
  lt_absolute :: int
  lt_capacity :: nat

definition se_expired :: "lifetimes \<Rightarrow> int \<Rightarrow> session \<Rightarrow> bool" where
  "se_expired lt now s \<longleftrightarrow> now - se_last_seen s \<ge> lt_idle lt \<or> now - se_created s \<ge> lt_absolute lt"

interpretation se_expiring: expiring "se_expired lt" for lt
  by unfold_locales (auto simp: se_expired_def)

text \<open>The arguments of \<open>create\<close>, with the two secrets it draws.\<close>

record sign_in =
  si_principal :: string
  si_id_token :: string
  si_refresh :: "string option"
  si_replaces :: "string option"
  si_session_id :: string
  si_csrf :: string

definition new_session :: "int \<Rightarrow> sign_in \<Rightarrow> session" where
  "new_session now si =
     \<lparr>se_principal = si_principal si, se_csrf = si_csrf si, se_created = now, se_last_seen = now,
      se_id_token = si_id_token si, se_refresh = si_refresh si\<rparr>"

definition create ::
    "lifetimes \<Rightarrow> (string \<Rightarrow> string) \<Rightarrow> int \<Rightarrow> sign_in \<Rightarrow> session dict \<Rightarrow> (store_error + string) \<times> session dict" where
  "create lt digest now si items =
     (let popped = (case si_replaces si of
                      None \<Rightarrow> items
                    | Some old \<Rightarrow> if old = [] then items else AList.delete (digest old) items);
          swept = sweep (se_expired lt) now popped in
      if lt_capacity lt \<le> length swept then (Inl (CapacityExceeded ''session capacity reached''), swept)
      else (Inr (si_session_id si), AList.update (digest (si_session_id si)) (new_session now si) swept))"

definition get_session ::
    "lifetimes \<Rightarrow> (string \<Rightarrow> string) \<Rightarrow> int \<Rightarrow> string option \<Rightarrow> session dict \<Rightarrow> session option \<times> session dict" where
  "get_session lt digest now session_id items =
     (case session_id of
        None \<Rightarrow> (None, items)
      | Some sid \<Rightarrow>
          if \<not> is_token session_id then (None, items)
          else case map_of items (digest sid) of
                 None \<Rightarrow> (None, items)
               | Some s \<Rightarrow>
                   if se_expired lt now s then (None, AList.delete (digest sid) items)
                   else let s' = s\<lparr>se_last_seen := now\<rparr> in (Some s', AList.update (digest sid) s' items))"

definition invalidate ::
    "(string \<Rightarrow> string) \<Rightarrow> string option \<Rightarrow> session dict \<Rightarrow> session option \<times> session dict" where
  "invalidate digest session_id items =
     (case session_id of
        None \<Rightarrow> (None, items)
      | Some sid \<Rightarrow>
          if \<not> is_token session_id then (None, items)
          else (map_of items (digest sid), AList.delete (digest sid) items))"

definition invalidate_principal :: "string \<Rightarrow> session dict \<Rightarrow> nat \<times> session dict" where
  "invalidate_principal pid items =
     (length (filter (\<lambda>(_, s). se_principal s = pid) items),
      filter (\<lambda>(_, s). se_principal s \<noteq> pid) items)"

section \<open>Runs\<close>

datatype tx_event = Begin secrets | Consume "string option" "string option"

datatype tx_output = Began transaction string | NoRoom | Consumed "transaction option"

fun tx_step ::
    "int \<Rightarrow> nat \<Rightarrow> (string \<Rightarrow> string) \<Rightarrow> int \<times> tx_event \<Rightarrow> transaction dict \<Rightarrow> tx_output \<times> transaction dict" where
  "tx_step lifetime capacity digest (now, Begin s) items =
     (case begin_tx lifetime capacity digest now s items of
        (Inl _, items') \<Rightarrow> (NoRoom, items')
      | (Inr (tx, binding), items') \<Rightarrow> (Began tx binding, items'))"
| "tx_step lifetime capacity digest (now, Consume st b) items =
     (case consume lifetime digest now st b items of (r, items') \<Rightarrow> (Consumed r, items'))"

datatype se_event =
    Create sign_in
  | Get "string option"
  | Invalidate "string option"
  | InvalidatePrincipal string

datatype se_output = Created string | Full | Got "session option" | Ended

fun se_step ::
    "lifetimes \<Rightarrow> (string \<Rightarrow> string) \<Rightarrow> int \<times> se_event \<Rightarrow> session dict \<Rightarrow> se_output \<times> session dict" where
  "se_step lt digest (now, Create si) items =
     (case create lt digest now si items of
        (Inl _, items') \<Rightarrow> (Full, items') | (Inr sid, items') \<Rightarrow> (Created sid, items'))"
| "se_step lt digest (now, Get sid) items =
     (case get_session lt digest now sid items of (r, items') \<Rightarrow> (Got r, items'))"
| "se_step lt digest (now, Invalidate sid) items = (Ended, snd (invalidate digest sid items))"
| "se_step lt digest (now, InvalidatePrincipal p) items = (Ended, snd (invalidate_principal p items))"

text \<open>The store after a run from the empty one, and the output_at of the event at a position of a run.\<close>

definition after :: "('e \<Rightarrow> 's \<Rightarrow> 'o \<times> 's) \<Rightarrow> 'e list \<Rightarrow> 's \<Rightarrow> 's" where
  "after step es s = fold (\<lambda>e s. snd (step e s)) es s"

definition output_at :: "('e \<Rightarrow> 's \<Rightarrow> 'o \<times> 's) \<Rightarrow> 's \<Rightarrow> 'e list \<Rightarrow> nat \<Rightarrow> 'o" where
  "output_at step s es i = fst (step (es ! i) (after step (take i es) s))"

lemma after_simps [simp]:
  "after step [] s = s" "after step (e # es) s = after step es (snd (step e s))"
  "after step (es @ es') s = after step es' (after step es s)"
  by (simp_all add: after_def)

end
