(* ===== verification/SessionProps.thy ===== *)
theory SessionProps
  imports Sessions
begin

text \<open>
  What a browser gets from the stores: a login callback is accepted at most once, only for the browser and
  within the time of the sign-in that issued it; a session is returned only to the holder of an identifier
  that was issued to its principal and not revoked since; and no run lets a store grow past its capacity.
\<close>

section \<open>Where the entries of a store come from\<close>

text \<open>
  The interface both stores share: an entry of the store after a step was born in that step, or was there
  before under the same origin and the step did not kill it.
\<close>

locale credential_store =
  fixes step :: "'e \<Rightarrow> 'v dict \<Rightarrow> 'o \<times> 'v dict"
    and origin :: "'v \<Rightarrow> 'a"
    and born :: "'e \<Rightarrow> string \<Rightarrow> 'a \<Rightarrow> bool"
    and kills :: "'e \<Rightarrow> string \<Rightarrow> 'a \<Rightarrow> bool"
  assumes step_origin: "(k, v) \<in> set (snd (step e items)) \<Longrightarrow>
      born e k (origin v) \<or> (\<exists>v0. (k, v0) \<in> set items \<and> origin v0 = origin v \<and> \<not> kills e k (origin v))"
begin

lemma agreement:
  "(k, v) \<in> set (after step es []) \<Longrightarrow>
     \<exists>j<length es. born (es ! j) k (origin v) \<and> (\<forall>j'. j < j' \<and> j' < length es \<longrightarrow> \<not> kills (es ! j') k (origin v))"
proof (induction es arbitrary: v rule: rev_induct)
  case (snoc e es)
  from step_origin [of k v e "after step es []"] snoc.prems consider
      "born e k (origin v)"
    | v0 where "(k, v0) \<in> set (after step es [])" "origin v0 = origin v" "\<not> kills e k (origin v)"
    by auto
  then show ?case
  proof cases
    case 1
    then show ?thesis by (intro exI [of _ "length es"]) auto
  next
    case 2
    from snoc.IH [OF 2(1)] obtain j where j: "j < length es" "born (es ! j) k (origin v)"
      "\<forall>j'. j < j' \<and> j' < length es \<longrightarrow> \<not> kills (es ! j') k (origin v)" by (auto simp: 2(2))
    have "\<not> kills ((es @ [e]) ! j') k (origin v)" if "j < j'" "j' < length (es @ [e])" for j'
      using that j(3) 2(3) by (cases "j' = length es") (auto simp: nth_append)
    with j(1,2) show ?thesis by (intro exI [of _ j]) (auto simp: nth_append)
  qed
qed simp

lemma agreement_before:
  assumes "(k, v) \<in> set (after step (take i es) [])" "i < length es"
  shows "\<exists>j<i. born (es ! j) k (origin v) \<and> (\<forall>j'. j < j' \<and> j' < i \<longrightarrow> \<not> kills (es ! j') k (origin v))"
  using agreement [OF assms(1)] assms(2) by (auto simp: min_def)

end

lemma update_member: "(k, v) \<in> set (AList.update k' v' d) \<Longrightarrow> k = k' \<and> v = v' \<or> (k, v) \<in> set d"
  by (induction d) (auto split: if_splits)

lemma delete_member: "(k, v) \<in> set (AList.delete k' d) \<longleftrightarrow> k \<noteq> k' \<and> (k, v) \<in> set d"
  by (auto simp: AList.delete_eq)

section \<open>Login transactions\<close>

definition tx_born :: "(string \<Rightarrow> string) \<Rightarrow> int \<times> tx_event \<Rightarrow> string \<Rightarrow> transaction \<Rightarrow> bool" where
  "tx_born digest e k t \<longleftrightarrow>
     (case e of (now, Begin s) \<Rightarrow> k = digest (sr_state s) \<and> t = new_transaction digest now s | _ \<Rightarrow> False)"

definition tx_kills :: "(string \<Rightarrow> string) \<Rightarrow> int \<times> tx_event \<Rightarrow> string \<Rightarrow> transaction \<Rightarrow> bool" where
  "tx_kills digest e k t \<longleftrightarrow>
     (case e of (now, Consume (Some st) (Some b)) \<Rightarrow> is_token (Some st) \<and> is_token (Some b) \<and> digest st = k | _ \<Rightarrow> False)"

lemma consume_member:
  "(k, t) \<in> set (snd (consume lifetime digest now st b items)) \<Longrightarrow>
     (k, t) \<in> set items \<and> \<not> tx_kills digest (now, Consume st b) k t"
  by (auto simp: consume_def tx_kills_def Let_def delete_member split: option.splits if_splits)

interpretation tx: credential_store "tx_step lifetime capacity digest" "\<lambda>t. t" "tx_born digest" "tx_kills digest"
  for lifetime capacity digest
proof
  fix k t e items
  assume member: "(k, t) \<in> set (snd (tx_step lifetime capacity digest e items))"
  obtain now ev where e: "e = (now, ev)" by fastforce
  show "tx_born digest e k t \<or> (\<exists>v0. (k, v0) \<in> set items \<and> v0 = t \<and> \<not> tx_kills digest e k t)"
  proof (cases ev)
    case (Begin s)
    with member show ?thesis
      by (auto simp: e begin_tx_def Let_def tx_born_def tx_kills_def new_transaction_def
          split: if_splits dest!: update_member)
  next
    case (Consume st b)
    with member have "(k, t) \<in> set (snd (consume lifetime digest now st b items))"
      by (simp add: e split: prod.splits)
    from consume_member [OF this] show ?thesis by (simp add: e Consume)
  qed
qed

lemma consumed:
  assumes "fst (tx_step lifetime capacity digest (now, ev) items) = Consumed (Some t)"
  obtains st b where "ev = Consume (Some st) (Some b)" "is_token (Some st)" "is_token (Some b)"
    "(digest st, t) \<in> set items" "now - tx_created t < lifetime" "tx_binding t = digest b"
proof (cases ev)
  case (Begin s)
  with assms show ?thesis by (auto split: prod.splits sum.splits)
next
  case (Consume st b)
  with assms have "fst (consume lifetime digest now st b items) = Some t" by (simp split: prod.splits)
  then show ?thesis
    by (intro that [of "the st" "the b"])
      (auto simp: consume_def Let_def Consume dest: map_of_SomeD split: option.splits if_splits)
qed

text \<open>
  The callback agrees with a sign-in of the same run: same state, same browser, in time, and no callback
  presented that state in between.
\<close>

definition login_agrees ::
    "int \<Rightarrow> (string \<Rightarrow> string) \<Rightarrow> (int \<times> tx_event) list \<Rightarrow> nat \<Rightarrow> transaction \<Rightarrow> bool" where
  "login_agrees lifetime digest es i t \<longleftrightarrow>
     (\<exists>j<i. \<exists>s st b. es ! j = (tx_created t, Begin s) \<and> t = new_transaction digest (tx_created t) s \<and>
        snd (es ! i) = Consume (Some st) (Some b) \<and> digest st = digest (sr_state s) \<and>
        digest b = digest (sr_binding s) \<and> fst (es ! i) - tx_created t < lifetime \<and>
        (\<forall>j'. j < j' \<and> j' < i \<longrightarrow> \<not> tx_kills digest (es ! j') (digest st) t))"

lemma login_agreement:
  assumes "i < length es" "output_at (tx_step lifetime capacity digest) [] es i = Consumed (Some t)"
  shows "login_agrees lifetime digest es i t"
proof -
  obtain now ev where e: "es ! i = (now, ev)" by fastforce
  obtain st b where c: "ev = Consume (Some st) (Some b)"
      "(digest st, t) \<in> set (after (tx_step lifetime capacity digest) (take i es) [])"
      "now - tx_created t < lifetime" "tx_binding t = digest b"
    using assms(2) unfolding output_at_def e by (rule consumed) blast
  from tx.agreement_before [OF c(2) assms(1)] obtain j where j: "j < i" "tx_born digest (es ! j) (digest st) t"
      "\<forall>j'. j < j' \<and> j' < i \<longrightarrow> \<not> tx_kills digest (es ! j') (digest st) t" by blast
  from j(2) obtain now' s where "es ! j = (now', Begin s)" "digest st = digest (sr_state s)"
      "t = new_transaction digest now' s"
    by (auto simp: tx_born_def split: prod.splits tx_event.splits)
  with c j(1,3) show ?thesis
    unfolding login_agrees_def by (intro exI [of _ j] conjI exI [of _ s]) (auto simp: e new_transaction_def)
qed

text \<open>With sign-ins that draw different states, each state is accepted once.\<close>

definition fresh_states :: "(string \<Rightarrow> string) \<Rightarrow> (int \<times> tx_event) list \<Rightarrow> bool" where
  "fresh_states digest es \<longleftrightarrow>
     distinct (List.map_filter (\<lambda>(_, ev). case ev of Begin s \<Rightarrow> Some (digest (sr_state s)) | _ \<Rightarrow> None) es)"

lemma map_filter_mem: "j < length xs \<Longrightarrow> f (xs ! j) = Some y \<Longrightarrow> y \<in> set (List.map_filter f xs)"
proof (induction xs arbitrary: j)
  case (Cons x xs)
  then show ?case by (cases j) (auto simp: List.map_filter_simps split: option.splits)
qed simp

lemma map_filter_unique:
  "distinct (List.map_filter f xs) \<Longrightarrow> j < length xs \<Longrightarrow> j' < length xs \<Longrightarrow>
     f (xs ! j) = Some y \<Longrightarrow> f (xs ! j') = Some y \<Longrightarrow> j = j'"
proof (induction xs arbitrary: j j')
  case (Cons x xs)
  then show ?case using map_filter_mem [of _ xs f y]
    by (cases j; cases j') (auto simp: List.map_filter_simps split: option.splits)
qed simp

lemma fresh_unique:
  assumes "fresh_states digest es" "j < length es" "j' < length es" "snd (es ! j) = Begin s" "snd (es ! j') = Begin s'"
    and "digest (sr_state s) = digest (sr_state s')"
  shows "j = j'"
  by (rule map_filter_unique [OF assms(1) [unfolded fresh_states_def] assms(2,3), of "digest (sr_state s)"])
    (simp_all add: case_prod_unfold assms(4-6))

lemma login_once:
  assumes "i < length es" "i' < length es" "fresh_states digest es"
    and out: "output_at (tx_step lifetime capacity digest) [] es i = Consumed (Some t)"
      "output_at (tx_step lifetime capacity digest) [] es i' = Consumed (Some t')"
    and same: "digest (tx_state t) = digest (tx_state t')"
  shows "i = i'"
proof -
  have no: False if less: "i < i'" "i' < length es"
    and o: "output_at (tx_step lifetime capacity digest) [] es i = Consumed (Some t)"
      "output_at (tx_step lifetime capacity digest) [] es i' = Consumed (Some t')"
      "digest (tx_state t) = digest (tx_state t')" for i i' t t'
  proof -
    have i: "i < length es" using less by simp
    obtain j s st b where j: "j < i" "snd (es ! j) = Begin s" "t = new_transaction digest (tx_created t) s"
        "snd (es ! i) = Consume (Some st) (Some b)" "digest st = digest (sr_state s)"
      using login_agreement [OF i o(1)] unfolding login_agrees_def by (metis snd_conv)
    obtain j' s' st' where j': "j' < i'" "snd (es ! j') = Begin s'" "t' = new_transaction digest (tx_created t') s'"
        "digest st' = digest (sr_state s')"
        "\<forall>k. j' < k \<and> k < i' \<longrightarrow> \<not> tx_kills digest (es ! k) (digest st') t'"
      using login_agreement [OF less(2) o(2)] unfolding login_agrees_def by (metis snd_conv)
    have eq: "digest (sr_state s) = digest (sr_state s')"
      using j(3) j'(3) o(3) by (metis new_transaction_def transaction.select_convs(1))
    have "j < length es" "j' < length es" using j(1) j'(1) less by simp_all
    from fresh_unique [OF assms(3) this j(2) j'(2) eq] have "j = j'" .
    moreover have "is_token (Some st) \<and> is_token (Some b)"
    proof -
      obtain now ev where e: "es ! i = (now, ev)" by fastforce
      show ?thesis using o(1) unfolding output_at_def e by (rule consumed) (use j(4) e in auto)
    qed
    ultimately have "tx_kills digest (es ! i) (digest st') t'"
      using j(4,5) j'(4) eq by (auto simp: tx_kills_def split: prod.splits)
    with j'(5) \<open>j = j'\<close> j(1) less(1) show False by blast
  qed
  show ?thesis using no [of i i' t t'] no [of i' i t' t] assms out same by (metis linorder_neqE_nat)
qed

section \<open>Sessions\<close>

definition se_origin :: "session \<Rightarrow> string \<times> int" where
  "se_origin s = (se_principal s, se_created s)"

definition se_born :: "(string \<Rightarrow> string) \<Rightarrow> int \<times> se_event \<Rightarrow> string \<Rightarrow> string \<times> int \<Rightarrow> bool" where
  "se_born digest e k o' \<longleftrightarrow>
     (case e of (now, Create si) \<Rightarrow> k = digest (si_session_id si) \<and> o' = (si_principal si, now) | _ \<Rightarrow> False)"

text \<open>What revokes a session: sign-out, replacement at a new sign-in, and revocation of its principal.\<close>

definition revokes :: "(string \<Rightarrow> string) \<Rightarrow> int \<times> se_event \<Rightarrow> string \<Rightarrow> string \<times> int \<Rightarrow> bool" where
  "revokes digest e k o' \<longleftrightarrow>
     (case snd e of
        Invalidate sid \<Rightarrow> is_token sid \<and> k = digest (the sid)
      | InvalidatePrincipal p \<Rightarrow> fst o' = p
      | Create si \<Rightarrow> (\<exists>old. si_replaces si = Some old \<and> old \<noteq> [] \<and> k = digest old)
      | Get _ \<Rightarrow> False)"

lemma not_token_None: "\<not> is_token None"
  by (simp add: is_token_def)

interpretation se: credential_store "se_step lt digest" se_origin "se_born digest" "revokes digest" for lt digest
proof
  fix k s e items
  assume member: "(k, s) \<in> set (snd (se_step lt digest e items))"
  obtain now ev where e: "e = (now, ev)" by fastforce
  show "se_born digest e k (se_origin s) \<or>
      (\<exists>s0. (k, s0) \<in> set items \<and> se_origin s0 = se_origin s \<and> \<not> revokes digest e k (se_origin s))"
  proof (cases ev)
    case (Create si)
    with member show ?thesis
      by (auto simp: e create_def Let_def se_born_def revokes_def se_origin_def new_session_def delete_member
          split: if_splits option.splits dest!: update_member)
  next
    case (Get sid)
    with member have "(k, s) \<in> set items \<or>
        (\<exists>s0. map_of items k = Some s0 \<and> s = s0\<lparr>se_last_seen := now\<rparr>)"
      by (auto simp: e get_session_def Let_def delete_member split: if_splits option.splits dest!: update_member)
    then show ?thesis by (auto simp: e Get revokes_def se_origin_def dest!: map_of_SomeD)
  next
    case (Invalidate sid)
    with member show ?thesis
      by (auto simp: e invalidate_def revokes_def delete_member not_token_None split: if_splits option.splits)
  next
    case (InvalidatePrincipal p)
    with member show ?thesis
      by (auto simp: e invalidate_principal_def revokes_def se_origin_def)
  qed
qed

lemma got:
  assumes "fst (se_step lt digest (now, ev) items) = Got (Some s)"
  obtains sid s0 where "ev = Get (Some sid)" "is_token (Some sid)" "(digest sid, s0) \<in> set items"
    "s = s0\<lparr>se_last_seen := now\<rparr>" "now - se_last_seen s0 < lt_idle lt" "now - se_created s < lt_absolute lt"
proof (cases ev)
  case (Get sid)
  with assms have "fst (get_session lt digest now sid items) = Some s" by (simp split: prod.splits)
  then obtain s0 where "is_token sid" "map_of items (digest (the sid)) = Some s0" "\<not> se_expired lt now s0"
      "s = s0\<lparr>se_last_seen := now\<rparr>" "sid = Some (the sid)"
    by (auto simp: get_session_def Let_def split: option.splits if_splits)
  then show ?thesis
    by (intro that [of "the sid" s0]) (auto simp: Get se_expired_def dest: map_of_SomeD)
qed (use assms in \<open>auto split: prod.splits sum.splits\<close>)

text \<open>
  A returned session was created in this run, under the presented identifier and for its principal, is
  younger than the absolute lifetime, and nothing revoked it since.
\<close>

definition session_authorized ::
    "lifetimes \<Rightarrow> (string \<Rightarrow> string) \<Rightarrow> (int \<times> se_event) list \<Rightarrow> nat \<Rightarrow> session \<Rightarrow> bool" where
  "session_authorized lt digest es i s \<longleftrightarrow>
     (\<exists>j<i. \<exists>si sid. es ! j = (se_created s, Create si) \<and> si_principal si = se_principal s \<and>
        snd (es ! i) = Get (Some sid) \<and> digest sid = digest (si_session_id si) \<and>
        fst (es ! i) - se_created s < lt_absolute lt \<and> se_last_seen s = fst (es ! i) \<and>
        (\<forall>j'. j < j' \<and> j' < i \<longrightarrow> \<not> revokes digest (es ! j') (digest sid) (se_principal s, se_created s)))"

lemma session_agreement:
  assumes "i < length es" "output_at (se_step lt digest) [] es i = Got (Some s)"
  shows "session_authorized lt digest es i s"
proof -
  obtain now ev where e: "es ! i = (now, ev)" by fastforce
  obtain sid s0 where g: "ev = Get (Some sid)" "(digest sid, s0) \<in> set (after (se_step lt digest) (take i es) [])"
      "s = s0\<lparr>se_last_seen := now\<rparr>" "now - se_created s < lt_absolute lt"
    using assms(2) unfolding output_at_def e by (rule got) blast
  have o: "se_origin s0 = (se_principal s, se_created s)" by (simp add: se_origin_def g(3))
  from se.agreement_before [OF g(2) assms(1), unfolded o] obtain j where j: "j < i"
      "se_born digest (es ! j) (digest sid) (se_principal s, se_created s)"
      "\<forall>j'. j < j' \<and> j' < i \<longrightarrow> \<not> revokes digest (es ! j') (digest sid) (se_principal s, se_created s)"
    by blast
  from j(2) obtain si where "es ! j = (se_created s, Create si)" "si_principal si = se_principal s"
      "digest sid = digest (si_session_id si)"
    by (auto simp: se_born_def split: prod.splits se_event.splits)
  with g j(1,3) show ?thesis
    unfolding session_authorized_def by (intro exI [of _ j] conjI exI [of _ si] exI [of _ sid]) (auto simp: e)
qed

section \<open>Bounds\<close>

lemma length_update: "length (AList.update k v d) \<le> Suc (length d)"
  by (induction d) auto

lemma length_delete: "length (AList.delete k d) \<le> length d"
  by (simp add: AList.delete_eq)

lemma length_update_present: "map_of d k = Some v' \<Longrightarrow> length (AList.update k v d) = length d"
  by (induction d) (auto split: if_splits)

lemma tx_step_bounded:
  "length items \<le> capacity \<Longrightarrow> length (snd (tx_step lifetime capacity digest e items)) \<le> capacity"
proof (cases e)
  case (Pair now ev)
  assume le: "length items \<le> capacity"
  show ?thesis
  proof (cases ev)
    case (Begin s)
    show ?thesis
      using le sweep_length [of "tx_expired lifetime" now items]
        length_update [of _ _ "sweep (tx_expired lifetime) now items"]
      by (auto simp: Pair Begin begin_tx_def Let_def not_le intro: order_trans [OF length_update])
  next
    case (Consume st b)
    have "length (sweep (tx_expired lifetime) now (AList.delete k items)) \<le> capacity" for k
      using le sweep_length [of "tx_expired lifetime" now "AList.delete k items"] length_delete [of k items] by linarith
    then show ?thesis using le by (auto simp: Pair Consume consume_def Let_def split: option.splits)
  qed
qed

lemma se_step_bounded:
  "length items \<le> lt_capacity lt \<Longrightarrow> length (snd (se_step lt digest e items)) \<le> lt_capacity lt"
proof (cases e)
  case (Pair now ev)
  assume le: "length items \<le> lt_capacity lt"
  have del: "length (AList.delete k items) \<le> lt_capacity lt" for k using le length_delete [of k items] by linarith
  have sw: "length (sweep (se_expired lt) now items') \<le> lt_capacity lt" if "length items' \<le> lt_capacity lt" for items'
    using that sweep_length [of "se_expired lt" now items'] by linarith
  show ?thesis
  proof (cases ev)
    case (Create si)
    show ?thesis using le del sw
      by (auto simp: Pair Create create_def Let_def not_le split: option.splits intro: order_trans [OF length_update])
  next
    case (Get sid)
    show ?thesis using le del
      by (auto simp: Pair Get get_session_def Let_def length_update_present split: option.splits)
  next
    case (Invalidate sid)
    show ?thesis using le del by (auto simp: Pair Invalidate invalidate_def split: option.splits)
  next
    case (InvalidatePrincipal p)
    show ?thesis using le
      by (auto simp: Pair InvalidatePrincipal invalidate_principal_def intro: order_trans [OF length_filter_le])
  qed
qed

lemma runs_bounded:
  assumes "\<And>e s. P s \<Longrightarrow> P (snd (step e s))" "P s"
  shows "P (after step es s)"
  using assms(2) by (induction es arbitrary: s) (auto simp: assms(1))

section \<open>One callback per sign-in\<close>

text \<open>The callbacks of a run that were answered with the transaction filed under \<open>k\<close>.\<close>

definition accepted_at :: "int \<Rightarrow> nat \<Rightarrow> (string \<Rightarrow> string) \<Rightarrow> (int \<times> tx_event) list \<Rightarrow> string \<Rightarrow> nat list" where
  "accepted_at lifetime capacity digest es k =
     filter (\<lambda>i. case output_at (tx_step lifetime capacity digest) [] es i of
                 Consumed (Some t) \<Rightarrow> digest (tx_state t) = k
               | _ \<Rightarrow> False) [0..<length es]"

lemma all_equal_length:
  assumes "distinct xs" "\<And>x y. x \<in> set xs \<Longrightarrow> y \<in> set xs \<Longrightarrow> x = y"
  shows "length xs \<le> 1"
proof (cases xs)
  case (Cons a ys)
  then have "set xs \<subseteq> {a}" using assms(2) by auto
  then have "card (set xs) \<le> 1" using card_mono [of "{a}" "set xs"] by simp
  then show ?thesis using assms(1) by (simp add: distinct_card)
qed simp

lemma accepted_once:
  assumes "fresh_states digest es"
  shows "length (accepted_at lifetime capacity digest es k) \<le> 1"
proof (rule all_equal_length)
  show "distinct (accepted_at lifetime capacity digest es k)" by (simp add: accepted_at_def)
  fix i i' assume "i \<in> set (accepted_at lifetime capacity digest es k)" "i' \<in> set (accepted_at lifetime capacity digest es k)"
  then obtain t t' where "i < length es" "i' < length es" "digest (tx_state t) = k" "digest (tx_state t') = k"
      "output_at (tx_step lifetime capacity digest) [] es i = Consumed (Some t)"
      "output_at (tx_step lifetime capacity digest) [] es i' = Consumed (Some t')"
    by (auto simp: accepted_at_def split: tx_output.splits option.splits)
  then show "i = i'" using login_once assms by metis
qed

section \<open>A sample run\<close>

definition sample_digest :: "string \<Rightarrow> string" where
  "sample_digest s = CHR ''#'' # s"

definition sample_secrets :: secrets where
  "sample_secrets = \<lparr>sr_binding = ''b1'', sr_state = ''s1'', sr_nonce = ''n1'', sr_verifier = ''v1''\<rparr>"

text \<open>A callback in time, the same callback again, and one of another browser.\<close>

definition sample_logins :: "(int \<times> tx_event) list" where
  "sample_logins =
     [(0, Begin sample_secrets), (5, Consume (Some ''s1'') (Some ''b1'')), (6, Consume (Some ''s1'') (Some ''b1'')),
      (7, Begin (sample_secrets\<lparr>sr_state := ''s2''\<rparr>)), (8, Consume (Some ''s2'') (Some ''b9''))]"

definition sample_lifetimes :: lifetimes where
  "sample_lifetimes = \<lparr>lt_idle = 10, lt_absolute = 100, lt_capacity = 2\<rparr>"

definition sample_sign_in :: "string \<Rightarrow> sign_in" where
  "sample_sign_in sid = \<lparr>si_principal = ''alice'', si_id_token = ''t'', si_refresh = None, si_replaces = None,
     si_session_id = sid, si_csrf = ''c''\<rparr>"

definition sample_sessions :: "(int \<times> se_event) list" where
  "sample_sessions =
     [(0, Create (sample_sign_in ''i1'')), (3, Get (Some ''i1'')), (4, Create (sample_sign_in ''i2'')),
      (5, InvalidatePrincipal ''alice''), (6, Get (Some ''i1''))]"

lemma sample_fresh: "fresh_states sample_digest sample_logins"
  by code_simp

end
