(* ===== verification/Governance.thy ===== *)
theory Governance
  imports CanonicalJson
begin

text \<open>
  knowledge/ai/governance.py, first part: the bounded JSON copy, the canonical text every digest of the AI
  boundary, the audit chain and the idempotency fingerprints is taken of, and the host-only configuration
  and request. The errors of the AI modules are one datatype, classified as their base classes do.
\<close>

section \<open>Errors of the AI modules\<close>

datatype ai_error =
    AIPromptPolicyViolationError
  | AIProvenanceInvalidError
  | AIReplayIntegrityError
  | AIProviderUnavailableError
  | AIProviderTimeoutError
  | AIProviderExecutionError
  | AIResponseTooLargeError
  | AIResponseMalformedError
  | AISchemaInvalidError
  | AIDecisionFieldRejectedError
  | AIUnknownIndicatorError
  | AIReferenceInvalidError
  | AIGroundingFailedError
  | AIMappingError
  | AIIntegrationInputError
  | Raised exc

definition governance_error :: "ai_error \<Rightarrow> bool" where
  "governance_error e \<longleftrightarrow> e \<in> {AIPromptPolicyViolationError, AIProvenanceInvalidError, AIReplayIntegrityError}"

definition provider_error :: "ai_error \<Rightarrow> bool" where
  "provider_error e \<longleftrightarrow> e \<in> {AIProviderUnavailableError, AIProviderTimeoutError, AIProviderExecutionError}"

definition validation_error :: "ai_error \<Rightarrow> bool" where
  "validation_error e \<longleftrightarrow>
     e \<in> {AIResponseTooLargeError, AIResponseMalformedError, AISchemaInvalidError, AIDecisionFieldRejectedError,
          AIUnknownIndicatorError, AIReferenceInvalidError, AIGroundingFailedError}"

definition ai_guard :: "bool \<Rightarrow> ai_error \<Rightarrow> ai_error + unit" where
  "ai_guard holds e = (if holds then Inr () else Inl e)"

lemma ai_guard_eq [simp, res_simps]:
  "ai_guard holds e = Inr u \<longleftrightarrow> holds"
  "ai_guard holds e = Inl e' \<longleftrightarrow> \<not> holds \<and> e' = e"
  by (auto simp: ai_guard_def)

section \<open>Patterns\<close>

text \<open>
  A pattern that is matched with \<open>match\<close> or \<open>search\<close> and ends in \<open>$\<close> matches at the end and before a final
  newline.
\<close>

definition in_range :: "char \<Rightarrow> char \<Rightarrow> char \<Rightarrow> bool" where
  "in_range a z c \<longleftrightarrow> a \<le> c \<and> c \<le> z"

definition at_end :: "string \<Rightarrow> bool" where
  "at_end rest \<longleftrightarrow> rest = [] \<or> rest = [CHR 0x0A]"

definition capital :: "char \<Rightarrow> bool" where
  "capital = in_range (CHR ''A'') (CHR ''Z'')"

definition numeral_char :: "char \<Rightarrow> bool" where
  "numeral_char = in_range (CHR ''0'') (CHR ''9'')"

definition lower_char :: "char \<Rightarrow> bool" where
  "lower_char = in_range (CHR ''a'') (CHR ''z'')"

definition hex_char :: "char \<Rightarrow> bool" where
  "hex_char c \<longleftrightarrow> numeral_char c \<or> in_range (CHR ''a'') (CHR ''f'') c"

text \<open>One character of the first class, then between \<open>lo\<close> and \<open>hi\<close> of the second, then the end.\<close>

definition name_pattern :: "(char \<Rightarrow> bool) \<Rightarrow> (char \<Rightarrow> bool) \<Rightarrow> nat \<Rightarrow> nat \<Rightarrow> string \<Rightarrow> bool" where
  "name_pattern first later lo hi s \<longleftrightarrow>
     (case s of
        [] \<Rightarrow> False
      | c # cs \<Rightarrow>
          first c \<and> lo \<le> length (takeWhile later cs) \<and> length (takeWhile later cs) \<le> hi \<and>
          at_end (dropWhile later cs))"

section \<open>Bounded copies\<close>

definition MAX_CANONICAL_BYTES :: nat where
  "MAX_CANONICAL_BYTES = 4194304"

definition COPY_BUDGET :: nat where
  "COPY_BUDGET = 100000"

text \<open>The length of a string in UTF-8; code points here are below 256.\<close>

definition utf8_length :: "string \<Rightarrow> nat" where
  "utf8_length s = (\<Sum>c\<leftarrow>s. if (of_char c :: nat) < 128 then 1 else 2)"

text \<open>A float is finite when it prints as a number, not as \<open>NaN\<close> or \<open>Infinity\<close>.\<close>

definition finite_text :: "string \<Rightarrow> bool" where
  "finite_text = float_text"

text \<open>
  \<open>_json_copy\<close>: the copy is the value itself, so what is returned is the rest of the budget. Each value
  and each key costs one.
\<close>

fun json_copy :: "nat \<Rightarrow> json \<Rightarrow> nat \<Rightarrow> ai_error + nat"
and copy_items :: "nat \<Rightarrow> json list \<Rightarrow> nat \<Rightarrow> ai_error + nat"
and copy_members :: "nat \<Rightarrow> json dict \<Rightarrow> nat \<Rightarrow> ai_error + nat" where
  "json_copy depth v budget =
     (if 32 < depth \<or> budget = 0 then Inl AIProvenanceInvalidError
      else case v of
             JFloat t \<Rightarrow> if finite_text t then Inr (budget - 1) else Inl AIProvenanceInvalidError
           | JStr s \<Rightarrow> if utf8_length s \<le> MAX_CANONICAL_BYTES then Inr (budget - 1) else Inl AIProvenanceInvalidError
           | JObj kvs \<Rightarrow> copy_members (depth + 1) kvs (budget - 1)
           | JArr xs \<Rightarrow> copy_items (depth + 1) xs (budget - 1)
           | _ \<Rightarrow> Inr (budget - 1))"
| "copy_items depth [] budget = Inr budget"
| "copy_items depth (x # xs) budget = rbind (json_copy depth x budget) (copy_items depth xs)"
| "copy_members depth [] budget = Inr budget"
| "copy_members depth ((k, v) # kvs) budget =
     rbind (if 32 < depth \<or> budget = 0 \<or> MAX_CANONICAL_BYTES < utf8_length k then Inl AIProvenanceInvalidError
            else Inr (budget - 1))
       (\<lambda>b. rbind (json_copy depth v b) (copy_members depth kvs))"

section \<open>Canonical text\<close>

text \<open>Python refuses to print an integer of more than 4300 digits with a \<open>ValueError\<close>.\<close>

definition MAX_STR_DIGITS :: nat where
  "MAX_STR_DIGITS = 4300"

fun printable :: "json \<Rightarrow> bool" where
  "printable (JInt i) = (length (nat_text (nat \<bar>i\<bar>)) \<le> MAX_STR_DIGITS)"
| "printable (JArr xs) = list_all printable xs"
| "printable (JObj kvs) = list_all (\<lambda>(_, v). printable v) kvs"
| "printable _ = True"

definition canonical_json :: "json \<Rightarrow> ai_error + string" where
  "canonical_json v =
     rbind (json_copy 0 v COPY_BUDGET)
       (\<lambda>_. if printable v \<and> length (canonical_text v) \<le> MAX_CANONICAL_BYTES then Inr (canonical_text v)
            else Inl AIProvenanceInvalidError)"

definition canonical_digest :: "(string \<Rightarrow> string) \<Rightarrow> json \<Rightarrow> ai_error + string" where
  "canonical_digest sha v = rbind (canonical_json v) (\<lambda>t. Inr (sha t))"

section \<open>What the copy accepts\<close>

fun nodes :: "json \<Rightarrow> nat" where
  "nodes (JArr xs) = Suc (sum_list (map nodes xs))"
| "nodes (JObj kvs) = Suc (sum_list (map (\<lambda>(_, v). Suc (nodes v)) kvs))"
| "nodes _ = 1"

fun bounded_json :: "nat \<Rightarrow> json \<Rightarrow> bool" where
  "bounded_json d (JFloat t) = (d \<le> 32 \<and> finite_text t)"
| "bounded_json d (JStr s) = (d \<le> 32 \<and> utf8_length s \<le> MAX_CANONICAL_BYTES)"
| "bounded_json d (JArr xs) = (d \<le> 32 \<and> list_all (bounded_json (d + 1)) xs)"
| "bounded_json d (JObj kvs) =
     (d \<le> 32 \<and> list_all (\<lambda>(k, v). d < 32 \<and> utf8_length k \<le> MAX_CANONICAL_BYTES \<and> bounded_json (d + 1) v) kvs)"
| "bounded_json d _ = (d \<le> 32)"

text \<open>The copy succeeds exactly on values within the depth, the sizes and the budget, and spends their nodes.\<close>

lemma json_copy_exact:
  "json_copy d v b = Inr r \<longleftrightarrow> bounded_json d v \<and> nodes v \<le> b \<and> r = b - nodes v"
  "copy_items d xs b = Inr r \<longleftrightarrow> list_all (bounded_json d) xs \<and> sum_list (map nodes xs) \<le> b \<and>
     r = b - sum_list (map nodes xs)"
  "copy_members d kvs b = Inr r \<longleftrightarrow>
     list_all (\<lambda>(k, v). d \<le> 32 \<and> utf8_length k \<le> MAX_CANONICAL_BYTES \<and> bounded_json d v) kvs \<and>
     sum_list (map (\<lambda>(_, v). Suc (nodes v)) kvs) \<le> b \<and> r = b - sum_list (map (\<lambda>(_, v). Suc (nodes v)) kvs)"
proof (induction d v b and d xs b and d kvs b arbitrary: r and r and r rule: json_copy_copy_items_copy_members.induct)
  case (1 depth v budget)
  then show ?case by (cases v) (auto simp: list_all_iff not_less Suc_le_eq)
next
  case (3 depth x xs budget)
  then show ?case by (auto simp: res_simps)
next
  case (5 depth k v kvs budget)
  then show ?case by (auto simp: res_simps)
qed auto

declare json_copy.simps [simp del]

lemma copy_fails:
  "json_copy d v b = Inl e \<Longrightarrow> e = AIProvenanceInvalidError"
  "copy_items d xs b = Inl e \<Longrightarrow> e = AIProvenanceInvalidError"
  "copy_members d kvs b = Inl e \<Longrightarrow> e = AIProvenanceInvalidError"
proof (induction d v b and d xs b and d kvs b arbitrary: e and e and e rule: json_copy_copy_items_copy_members.induct)
  case (1 depth v budget)
  from "1.prems" show ?case unfolding json_copy.simps by (cases v) (auto split: if_splits intro: 1)
next
  case (3 depth x xs budget)
  from "3.prems" show ?case unfolding copy_items.simps rbind_eq_Inl by (auto intro: 3)
next
  case (5 depth k v kvs budget)
  from "5.prems" show ?case unfolding copy_members.simps rbind_eq_Inl by (auto intro: 5 split: if_splits)
qed simp_all

lemma canonical_json_ok:
  "canonical_json v = Inr t \<longleftrightarrow>
     bounded_json 0 v \<and> nodes v \<le> COPY_BUDGET \<and> printable v \<and> length t \<le> MAX_CANONICAL_BYTES \<and> t = canonical_text v"
  by (auto simp: canonical_json_def res_simps json_copy_exact)

lemma canonical_json_fails: "canonical_json v = Inl e \<Longrightarrow> e = AIProvenanceInvalidError"
  by (auto simp: canonical_json_def res_simps dest: copy_fails split: if_splits)

lemma canonical_digest_ok: "canonical_digest sha v = Inr h \<longleftrightarrow> (\<exists>t. canonical_json v = Inr t \<and> h = sha t)"
  by (auto simp: canonical_digest_def res_simps)

lemma bounded_printed: "bounded_json d v \<Longrightarrow> printed_floats v"
  by (induction d v rule: bounded_json.induct) (auto simp: list_all_iff finite_text_def)

text \<open>Equal canonical texts come from equal values.\<close>

lemma canonical_json_same:
  assumes "canonical_json a = Inr t" "canonical_json b = Inr t"
  shows "sort_keys a = sort_keys b"
proof -
  have "printed_floats a" "printed_floats b" "canonical_text a = canonical_text b"
    using assms bounded_printed by (auto simp: canonical_json_ok)
  then show ?thesis by (simp add: canonical_text_inj)
qed

text \<open>Two objects with the same keys in the same order that sort to one object have the same values.\<close>

lemma pairs_by_lookup:
  assumes "distinct (map fst xs)"
  shows "map (\<lambda>k. (k, the (map_of xs k))) (map fst xs) = xs"
proof -
  have "map (\<lambda>(k, v). (k, the (map_of xs k))) xs = xs"
    by (rule map_idI) (use assms in auto)
  then show ?thesis by (simp add: comp_def case_prod_unfold)
qed

lemma sorted_pairs_eq:
  assumes "sort_key fst xs = sort_key fst ys" "map fst xs = map fst ys" "distinct (map fst xs)"
  shows "xs = ys"
proof -
  have m: "mset xs = mset ys" by (metis assms(1) mset_sort)
  have "map_of xs = map_of ys" using mset_eq_setD [OF m] assms(2,3) map_of_inject_set by metis
  then show ?thesis using pairs_by_lookup [of xs] pairs_by_lookup [of ys] assms(2,3) by metis
qed

lemma sorted_object_eq:
  assumes "sort_keys (JObj xs) = sort_keys (JObj ys)" "map fst xs = map fst ys" "distinct (map fst xs)"
  shows "map (\<lambda>(k, v). (k, sort_keys v)) xs = map (\<lambda>(k, v). (k, sort_keys v)) ys"
proof (rule sorted_pairs_eq)
  have f: "map fst (map (\<lambda>(k, v). (k, sort_keys v)) zs) = map fst zs" for zs :: "json dict"
    by (induction zs) auto
  show "map fst (map (\<lambda>(k, v). (k, sort_keys v)) xs) = map fst (map (\<lambda>(k, v). (k, sort_keys v)) ys)"
    "distinct (map fst (map (\<lambda>(k, v). (k, sort_keys v)) xs))"
    unfolding f by (fact assms(2,3))+
qed (use assms(1) in simp)

section \<open>A bound on the text\<close>

text \<open>Enough for a value to have a canonical text: a bound on the text itself, the depth and the nodes.\<close>

fun text_bound :: "json \<Rightarrow> nat" where
  "text_bound JNull = 4"
| "text_bound (JBool b) = 5"
| "text_bound (JInt i) = Suc (length (nat_text (nat \<bar>i\<bar>)))"
| "text_bound (JFloat t) = length t"
| "text_bound (JStr s) = 6 * length s + 2"
| "text_bound (JArr xs) = sum_list (map (\<lambda>x. Suc (text_bound x)) xs) + 2"
| "text_bound (JObj kvs) = sum_list (map (\<lambda>(k, v). 6 * length k + text_bound v + 4) kvs) + 2"

fun shallow :: "nat \<Rightarrow> json \<Rightarrow> bool" where
  "shallow d (JFloat t) = (d \<le> 32 \<and> finite_text t)"
| "shallow d (JArr xs) = (d \<le> 32 \<and> list_all (shallow (d + 1)) xs)"
| "shallow d (JObj kvs) = (d < 32 \<and> list_all (\<lambda>(_, v). shallow (d + 1) v) kvs)"
| "shallow d _ = (d \<le> 32)"

lemma escape_char_length: "length (escape_char c) \<le> 6"
  using escape_char_code [of c] by auto

lemma quote_length: "length (quote s) \<le> 6 * length s + 2"
proof -
  have "length (concat (map escape_char s)) \<le> 6 * length s"
    by (induction s) (auto intro: add_mono escape_char_length)
  then show ?thesis by (simp add: quote_def)
qed

lemma comma_join_length: "length (comma_join xs) \<le> sum_list (map (\<lambda>x. Suc (length x)) xs)"
  by (induction xs rule: comma_join.induct) auto

lemma utf8_length_bound: "utf8_length s \<le> 2 * length s"
  by (induction s) (auto simp: utf8_length_def)

lemma dumps_length: "length (dumps j) \<le> text_bound j"
proof (induction j)
  case (JInt i)
  then show ?case by (simp add: int_text_def)
next
  case (JStr s)
  then show ?case using quote_length [of s] by simp
next
  case (JArr xs)
  have "sum_list (map (\<lambda>x. Suc (length (dumps x))) xs) \<le> sum_list (map (\<lambda>x. Suc (text_bound x)) xs)"
    by (rule sum_list_mono) (use JArr in auto)
  then show ?case using comma_join_length [of "map dumps xs"] by (simp add: comp_def)
next
  case (JObj kvs)
  have "sum_list (map (\<lambda>x. Suc (length ((\<lambda>(k, v). quote k @ '':'' @ dumps v) x))) kvs) \<le>
      sum_list (map (\<lambda>(k, v). 6 * length k + text_bound v + 4) kvs)"
  proof (rule sum_list_mono)
    fix x assume "x \<in> set kvs"
    moreover obtain k v where "x = (k, v)" by (cases x)
    ultimately show "Suc (length ((\<lambda>(k, v). quote k @ '':'' @ dumps v) x)) \<le> (\<lambda>(k, v). 6 * length k + text_bound v + 4) x"
      using JObj [of x v] quote_length [of k] by auto
  qed
  then show ?case using comma_join_length [of "map (\<lambda>(k, v). quote k @ '':'' @ dumps v) kvs"] by (simp add: comp_def)
qed simp_all

lemma sort_keys_bound: "text_bound (sort_keys j) = text_bound j"
proof (induction j)
  case (JArr xs)
  then show ?case by (simp add: comp_def cong: map_cong)
next
  case (JObj kvs)
  let ?f = "\<lambda>(k, v). 6 * length k + text_bound v + 4"
  have "mset (map ?f (sort_key fst (map (\<lambda>(k, v). (k, sort_keys v)) kvs))) =
      mset (map ?f (map (\<lambda>(k, v). (k, sort_keys v)) kvs))"
    by (simp only: mset_map mset_sort)
  then have "sum_list (map ?f (sort_key fst (map (\<lambda>(k, v). (k, sort_keys v)) kvs))) =
      sum_list (map ?f (map (\<lambda>(k, v). (k, sort_keys v)) kvs))"
    by (metis sum_mset_sum_list)
  also have "map ?f (map (\<lambda>(k, v). (k, sort_keys v)) kvs) = map ?f kvs"
    using JObj by auto
  finally show ?case by simp
qed simp_all

lemma canonical_text_length: "length (canonical_text j) \<le> text_bound j"
  using dumps_length [of "sort_keys j"] by (simp add: canonical_text_def sort_keys_bound)

lemma shallow_bounded: "shallow d v \<Longrightarrow> text_bound v \<le> MAX_CANONICAL_BYTES \<Longrightarrow> bounded_json d v"
proof (induction v arbitrary: d)
  case (JStr s)
  then show ?case using utf8_length_bound [of s] by simp
next
  case (JArr xs)
  have "text_bound x \<le> sum_list (map (\<lambda>x. Suc (text_bound x)) xs)" if "x \<in> set xs" for x
    using member_le_sum_list [of "Suc (text_bound x)" "map (\<lambda>x. Suc (text_bound x)) xs"] that by auto
  with JArr show ?case by (fastforce simp: list_all_iff)
next
  case (JObj kvs)
  let ?f = "\<lambda>(k, v). 6 * length k + text_bound v + 4"
  have m: "6 * length k + text_bound v + 4 \<le> sum_list (map ?f kvs)" if "(k, v) \<in> set kvs" for k v
    using member_le_sum_list [of "?f (k, v)" "map ?f kvs"] that by force
  have "utf8_length k \<le> MAX_CANONICAL_BYTES \<and> bounded_json (d + 1) v" if "(k, v) \<in> set kvs" for k v
    using m [OF that] JObj.prems JObj.IH [OF that] utf8_length_bound [of k] that by (fastforce simp: list_all_iff)
  with JObj.prems show ?case by (auto simp: list_all_iff)
qed simp_all

lemma short_canonical:
  assumes "shallow 0 v" "text_bound v \<le> MAX_CANONICAL_BYTES" "nodes v \<le> COPY_BUDGET" "printable v"
  shows "canonical_json v = Inr (canonical_text v)"
  using assms shallow_bounded canonical_text_length [of v] by (simp add: canonical_json_ok)

text \<open>A member of an object that has a canonical text has one.\<close>

lemma bounded_json_mono: "bounded_json d v \<Longrightarrow> d' \<le> d \<Longrightarrow> bounded_json d' v"
proof (induction d v arbitrary: d' rule: bounded_json.induct)
  case (3 d xs)
  then have "bounded_json (d' + 1) x" if "x \<in> set xs" for x using that by (simp add: list_all_iff)
  with 3 show ?case by (simp add: list_all_iff)
next
  case (4 d kvs)
  have "bounded_json (d' + 1) v" if "(k, v) \<in> set kvs" for k v
  proof (rule 4(1))
    show "(k, v) \<in> set kvs" "d' + 1 \<le> d + 1" using that 4(3) by simp_all
    show "bounded_json (d + 1) v" using that 4(2) by (auto simp: list_all_iff)
  qed simp
  with 4(2,3) show ?case by (fastforce simp: list_all_iff)
qed simp_all

lemma comma_join_member: "x \<in> set xs \<Longrightarrow> length x \<le> length (comma_join xs)"
  by (induction xs rule: comma_join.induct) auto

lemma canonical_text_member:
  assumes "(k, v) \<in> set kvs"
  shows "length (canonical_text v) \<le> length (canonical_text (JObj kvs))"
proof -
  define kvs' where "kvs' = map (\<lambda>(k, v). (k, sort_keys v)) kvs"
  let ?f = "\<lambda>(k, v). quote k @ '':'' @ dumps v"
  have "(\<lambda>(k, v). (k, sort_keys v)) (k, v) \<in> set kvs'" unfolding kvs'_def set_map by (rule imageI) (rule assms)
  then have "(k, sort_keys v) \<in> set (sort_key fst kvs')" by simp
  then have "?f (k, sort_keys v) \<in> set (map ?f (sort_key fst kvs'))" unfolding set_map by (rule imageI)
  from comma_join_member [OF this] have "length (dumps (sort_keys v)) \<le> length (comma_join (map ?f (sort_key fst kvs')))"
    by simp
  also have "\<dots> \<le> length (dumps (JObj (sort_key fst kvs')))" by simp
  finally show ?thesis by (simp only: canonical_text_def sort_keys.simps kvs'_def)
qed

lemma canonical_member:
  assumes "canonical_json (JObj kvs) = Inr t" "(k, v) \<in> set kvs"
  shows "canonical_json v = Inr (canonical_text v)"
proof -
  have o: "bounded_json 0 (JObj kvs)" "nodes (JObj kvs) \<le> COPY_BUDGET" "printable (JObj kvs)"
      "length (canonical_text (JObj kvs)) \<le> MAX_CANONICAL_BYTES"
    using assms(1) by (auto simp only: canonical_json_ok)
  have "(\<lambda>(_, v). Suc (nodes v)) (k, v) \<in> set (map (\<lambda>(_, v). Suc (nodes v)) kvs)"
    unfolding set_map by (rule imageI) (rule assms(2))
  from member_le_sum_list [OF this] have n: "nodes v \<le> COPY_BUDGET" using o(2) by simp
  have b: "bounded_json 1 v" "printable v" using o(1,3) assms(2) by (auto simp: list_all_iff)
  from bounded_json_mono [OF b(1)] have "bounded_json 0 v" by simp
  with n b(2) order_trans [OF canonical_text_member [OF assms(2)] o(4)]
  show ?thesis by (simp only: canonical_json_ok)
qed

end
