(* ===== verification/AiValidation.thy ===== *)
theory AiValidation
  imports Governance "HOL-Library.Product_Lexorder"
begin

text \<open>
  knowledge/ai/validation.py: the boundary between an untrusted provider response and validated extraction
  proposals. The contract of the response is schemas/ai-extraction.schema.json, written out here as the JSON
  Schema dialect reads it, so the fields that later stages index are there. \<open>json.loads\<close> is an argument,
  \<open>None\<close> for every way it refuses a text.
\<close>

section \<open>Numbers\<close>

text \<open>
  The \<open>repr\<close> of a finite float as mantissa and exponent of ten. A number is whole for the schema, whose
  \<open>integer\<close> is any number with a zero fraction, whether Python holds an \<open>int\<close> or a \<open>float\<close>.
\<close>

definition decimal :: "string \<Rightarrow> int \<times> int" where
  "decimal t =
     (let negative = (t \<noteq> [] \<and> hd t = CHR ''-'');
          s = (if negative then tl t else t);
          whole_part = takeWhile numeral_char s; r = dropWhile numeral_char s;
          fraction = (if r \<noteq> [] \<and> hd r = CHR ''.'' then takeWhile numeral_char (tl r) else []);
          r' = (if r \<noteq> [] \<and> hd r = CHR ''.'' then dropWhile numeral_char (tl r) else r);
          ex = (if r' \<noteq> [] \<and> hd r' = CHR ''e'' then tl r' else []);
          exponent = (if ex \<noteq> [] \<and> hd ex = CHR ''-'' then - int (digits_value (tl ex))
                      else if ex \<noteq> [] \<and> hd ex = CHR ''+'' then int (digits_value (tl ex)) else int (digits_value ex));
          m = int (digits_value (whole_part @ fraction))
      in (if negative then - m else m, exponent - int (length fraction)))"

definition whole_decimal :: "int \<times> int \<Rightarrow> int option" where
  "whole_decimal d =
     (case d of (m, e) \<Rightarrow>
        if 0 \<le> e then Some (m * 10 ^ nat e)
        else if m mod 10 ^ nat (- e) = 0 then Some (m div 10 ^ nat (- e)) else None)"

definition whole :: "json \<Rightarrow> int option" where
  "whole j =
     (case j of
        JInt i \<Rightarrow> Some i
      | JFloat t \<Rightarrow> if finite_text t then whole_decimal (decimal t) else None
      | _ \<Rightarrow> None)"

section \<open>The response contract\<close>

definition id_first :: "char \<Rightarrow> bool" where
  "id_first c \<longleftrightarrow> capital c \<or> lower_char c \<or> numeral_char c"

definition id_later :: "char \<Rightarrow> bool" where
  "id_later c \<longleftrightarrow> id_first c \<or> c \<in> set ''_.:-''"

definition schema_id :: "json \<Rightarrow> bool" where
  "schema_id j = (case j of JStr s \<Rightarrow> name_pattern id_first id_later 1 127 s | _ \<Rightarrow> False)"

definition schema_indicator_id :: "json \<Rightarrow> bool" where
  "schema_indicator_id j =
     (case j of JStr s \<Rightarrow> name_pattern capital (\<lambda>c. capital c \<or> numeral_char c \<or> c = CHR ''_'') 2 63 s | _ \<Rightarrow> False)"

definition schema_enum :: "string list \<Rightarrow> json \<Rightarrow> bool" where
  "schema_enum vs j = (case j of JStr s \<Rightarrow> s \<in> set vs | _ \<Rightarrow> False)"

definition schema_text :: "nat \<Rightarrow> json \<Rightarrow> bool" where
  "schema_text n j = (case j of JStr s \<Rightarrow> length s \<le> n | _ \<Rightarrow> False)"

definition schema_offset :: "json \<Rightarrow> bool" where
  "schema_offset j = (case whole j of None \<Rightarrow> False | Some i \<Rightarrow> 0 \<le> i)"

definition schema_refs :: "json \<Rightarrow> bool" where
  "schema_refs j = (case j of JArr xs \<Rightarrow> length xs \<le> 64 \<and> distinct xs \<and> list_all schema_id xs | _ \<Rightarrow> False)"

text \<open>An object with these required keys and no other key than those of the table.\<close>

definition schema_object :: "string list \<Rightarrow> (string \<times> (json \<Rightarrow> bool)) list \<Rightarrow> json \<Rightarrow> bool" where
  "schema_object required table j =
     (case j of
        JObj kvs \<Rightarrow>
          list_all (\<lambda>k. map_of kvs k \<noteq> None) required \<and>
          list_all (\<lambda>(k, v). case map_of table k of None \<Rightarrow> False | Some p \<Rightarrow> p v) kvs
      | _ \<Rightarrow> False)"

definition schema_list :: "nat \<Rightarrow> (json \<Rightarrow> bool) \<Rightarrow> json \<Rightarrow> bool" where
  "schema_list n p j = (case j of JArr xs \<Rightarrow> length xs \<le> n \<and> list_all p xs | _ \<Rightarrow> False)"

definition STATE_NAMES :: "string list" where
  "STATE_NAMES = [''OBSERVED'', ''NOT_OBSERVED'', ''UNKNOWN'', ''AMBIGUOUS'', ''NOT_APPLICABLE'']"

definition observation_proposal :: "json \<Rightarrow> bool" where
  "observation_proposal =
     schema_object [''proposal_id'', ''observation_type'', ''status'', ''polarity'', ''attribution'', ''mood'',
         ''source_input_id'', ''start'', ''end'']
       [(''proposal_id'', schema_id),
        (''observation_type'', schema_enum [''ENTITY'', ''ACTION'', ''CLAIM'', ''REQUEST'', ''THREAT'', ''PROMISE'',
           ''IDENTITY_ASSERTION'', ''PAYMENT_CONTEXT'', ''DEVICE_ACTION'', ''LINK_ACTION'', ''AUTHENTICATION_ACTION'',
           ''TEMPORAL_PRESSURE'', ''RELATIONSHIP_CONTEXT'']),
        (''status'', schema_enum STATE_NAMES),
        (''polarity'', schema_enum [''AFFIRMED'', ''NEGATED'']),
        (''attribution'', schema_enum [''FIRST_PARTY'', ''REPORTED'', ''QUOTED'', ''HYPOTHETICAL'']),
        (''mood'', schema_enum [''DIRECTIVE'', ''DESCRIPTIVE'', ''INTERROGATIVE'']),
        (''canonical_value'', schema_text 256),
        (''source_input_id'', schema_id),
        (''start'', schema_offset), (''end'', schema_offset),
        (''evidence_excerpt'', schema_text 2048)]"

definition indicator_proposal :: "json \<Rightarrow> bool" where
  "indicator_proposal =
     schema_object [''indicator_id'', ''polarity'', ''matched'', ''input_id'']
       [(''proposal_id'', schema_id), (''indicator_id'', schema_indicator_id),
        (''polarity'', schema_enum [''POSITIVE'', ''NEGATIVE'']), (''matched'', schema_enum STATE_NAMES),
        (''observation_refs'', schema_refs), (''input_id'', schema_id)]"

definition ai_schema :: "json \<Rightarrow> bool" where
  "ai_schema =
     schema_object [''ai_extraction_version'', ''input_id'', ''observations'', ''indicators'']
       [(''ai_extraction_version'', \<lambda>j. j = JStr ''1.0.0''), (''input_id'', schema_id),
        (''observations'', schema_list 128 observation_proposal), (''indicators'', schema_list 128 indicator_proposal)]"

section \<open>Containment\<close>

definition MAX_RAW_RESPONSE_BYTES :: nat where
  "MAX_RAW_RESPONSE_BYTES = 1048576"

definition MAX_JSON_NESTING_DEPTH :: nat where
  "MAX_JSON_NESTING_DEPTH = 16"

definition FORBIDDEN_FIELDS :: "string list" where
  "FORBIDDEN_FIELDS =
     [''classification'', ''decision_severity'', ''matched_evidence_strength'', ''risk_level'', ''detection_confidence'',
      ''fraud_probability'', ''scam_probability'', ''score'', ''safety_score'', ''recommended_actions'', ''rule_results'',
      ''governing_rule'', ''official_evidence_basis'', ''safe'', ''legitimate'', ''fraud_verdict'',
      ''confidence'', ''probability'', ''certainty'', ''token_probability'', ''self_score'',
      ''fraud_confidence'', ''scam_confidence'']"

definition NEGATIVE_LIVE_STATUSES :: "string list" where
  "NEGATIVE_LIVE_STATUSES = [''ACTIVE'']"

text \<open>The children a visit pushes; the stack of the source grows at its end, this one at its head.\<close>

fun children :: "json \<Rightarrow> json list" where
  "children (JObj kvs) = rev (map snd kvs)"
| "children (JArr xs) = rev xs"
| "children _ = []"

fun json_size :: "json \<Rightarrow> nat" where
  "json_size (JObj kvs) = Suc (sum_list (map (\<lambda>(_, v). json_size v) kvs))"
| "json_size (JArr xs) = Suc (sum_list (map json_size xs))"
| "json_size _ = 1"

lemma children_size: "sum_list (map json_size (children j)) < json_size j"
  by (cases j) (simp_all add: rev_map [symmetric] comp_def case_prod_unfold)

function check_depth :: "(json \<times> nat) list \<Rightarrow> ai_error + unit" where
  "check_depth [] = Inr ()"
| "check_depth ((node, depth) # stack) =
     (if MAX_JSON_NESTING_DEPTH < depth then Inl AIResponseMalformedError
      else check_depth (map (\<lambda>v. (v, depth + 1)) (children node) @ stack))"
  by pat_completeness auto
termination
  by (relation "measure (\<lambda>stack. sum_list (map (\<lambda>(j, _). json_size j) stack))")
    (use children_size in \<open>auto simp: comp_def\<close>)

definition forbidden_keys :: "json \<Rightarrow> bool" where
  "forbidden_keys j = (case j of JObj kvs \<Rightarrow> list_ex (\<lambda>(k, _). k \<in> set FORBIDDEN_FIELDS) kvs | _ \<Rightarrow> False)"

function scan_forbidden :: "json list \<Rightarrow> ai_error + unit" where
  "scan_forbidden [] = Inr ()"
| "scan_forbidden (node # stack) =
     (if forbidden_keys node then Inl AIDecisionFieldRejectedError else scan_forbidden (children node @ stack))"
  by pat_completeness auto
termination
  by (relation "measure (\<lambda>stack. sum_list (map json_size stack))")
    (use children_size in auto)

section \<open>Validated proposals\<close>

record raw_response =
  rw_request_id :: string
  rw_text :: string

record validated_extraction =
  va_input :: string
  va_observations :: "json list"
  va_indicators :: "json list"

definition at_key :: "json \<Rightarrow> string \<Rightarrow> json" where
  "at_key j k = (case j of JObj kvs \<Rightarrow> jget kvs k | _ \<Rightarrow> JNull)"

definition text_at :: "json \<Rightarrow> string \<Rightarrow> string" where
  "text_at j k = (case at_key j k of JStr s \<Rightarrow> s | _ \<Rightarrow> [])"

definition items_at :: "json \<Rightarrow> string \<Rightarrow> json list" where
  "items_at j k = (case at_key j k of JArr xs \<Rightarrow> xs | _ \<Rightarrow> [])"

definition texts_at :: "json \<Rightarrow> string \<Rightarrow> string list" where
  "texts_at j k = map (\<lambda>x. case x of JStr s \<Rightarrow> s | _ \<Rightarrow> []) (items_at j k)"

definition each :: "('a \<Rightarrow> ai_error + unit) \<Rightarrow> 'a list \<Rightarrow> ai_error + unit" where
  "each f xs = rbind (map_res f xs) (\<lambda>_. Inr ())"

section \<open>Stages\<close>

definition py_space :: "char \<Rightarrow> bool" where
  "py_space c \<longleftrightarrow> (let n = (of_char c :: nat) in 9 \<le> n \<and> n \<le> 13 \<or> 28 \<le> n \<and> n \<le> 32 \<or> n = 133 \<or> n = 160)"

definition parse_payload :: "(string \<Rightarrow> json option) \<Rightarrow> string \<Rightarrow> ai_error + json" where
  "parse_payload loads txt =
     (if list_all py_space txt then Inl AIResponseMalformedError
      else case loads txt of None \<Rightarrow> Inl AIResponseMalformedError | Some d \<Rightarrow> Inr d)"

definition bind_input :: "string \<Rightarrow> string dict \<Rightarrow> json \<Rightarrow> ai_error + string" where
  "bind_input expected inputs data =
     (case map_of inputs expected of
        None \<Rightarrow> Inl AIReferenceInvalidError
      | Some normalized \<Rightarrow>
          if at_key data ''input_id'' \<noteq> JStr expected then Inl AIReferenceInvalidError else Inr normalized)"

definition proposal_ids :: "json list \<Rightarrow> string list" where
  "proposal_ids xs = map (\<lambda>x. text_at x ''proposal_id'') xs"

definition check_duplicate_ids :: "json list \<Rightarrow> json list \<Rightarrow> ai_error + unit" where
  "check_duplicate_ids observations indicators =
     rbind (ai_guard (distinct (proposal_ids observations)) AIReferenceInvalidError)
       (\<lambda>_. ai_guard (distinct (proposal_ids (filter (\<lambda>i. at_key i ''proposal_id'' \<noteq> JNull) indicators)))
               AIReferenceInvalidError)"

definition by_proposal :: "json list \<Rightarrow> json list" where
  "by_proposal = sort_key (\<lambda>o'. text_at o' ''proposal_id'')"

definition by_indicator :: "json list \<Rightarrow> json list" where
  "by_indicator = sort_key (\<lambda>i. (text_at i ''indicator_id'', text_at i ''proposal_id''))"

definition check_correlation :: "string \<Rightarrow> json list \<Rightarrow> json list \<Rightarrow> ai_error + unit" where
  "check_correlation expected observations indicators =
     rbind (each (\<lambda>o'. ai_guard (at_key o' ''source_input_id'' = JStr expected) AIReferenceInvalidError)
              (by_proposal observations))
       (\<lambda>_. each (\<lambda>i. ai_guard (at_key i ''input_id'' = JStr expected) AIReferenceInvalidError)
              (sort_key (\<lambda>i. (text_at i ''proposal_id'', text_at i ''indicator_id'')) indicators))"

definition known_indicator :: "runtime_knowledge \<Rightarrow> json \<Rightarrow> bool" where
  "known_indicator rk i \<longleftrightarrow>
     (if at_key i ''polarity'' = JStr ''POSITIVE''
      then (case rk_indicator rk (text_at i ''indicator_id'') of
              None \<Rightarrow> False
            | Some record \<Rightarrow> in_polarity record \<in> {None, Some ''POSITIVE''})
      else (case rk_negative rk (text_at i ''indicator_id'') of
              None \<Rightarrow> False
            | Some record \<Rightarrow> (case ng_status record of None \<Rightarrow> True | Some st \<Rightarrow> st \<in> set NEGATIVE_LIVE_STATUSES)))"

definition check_membership :: "runtime_knowledge \<Rightarrow> json list \<Rightarrow> ai_error + unit" where
  "check_membership rk indicators =
     each (\<lambda>i. ai_guard (known_indicator rk i) AIUnknownIndicatorError) (by_indicator indicators)"

definition check_references :: "json list \<Rightarrow> json list \<Rightarrow> ai_error + unit" where
  "check_references observations indicators =
     each (\<lambda>i. rbind (each (\<lambda>ref. ai_guard (ref \<in> set (proposal_ids observations)) AIReferenceInvalidError)
                        (sort (texts_at i ''observation_refs'')))
                (\<lambda>_. ai_guard (\<not> (at_key i ''matched'' = JStr ''OBSERVED'' \<and> texts_at i ''observation_refs'' = []))
                       AIReferenceInvalidError))
       (by_indicator indicators)"

text \<open>A slice with a \<open>float\<close> index raises \<open>TypeError\<close>; the comparison of the offsets does not.\<close>

definition is_float :: "json \<Rightarrow> bool" where
  "is_float j = (case j of JFloat _ \<Rightarrow> True | _ \<Rightarrow> False)"

definition ground :: "string \<Rightarrow> json \<Rightarrow> ai_error + unit" where
  "ground normalized o' =
     (case (whole (at_key o' ''start''), whole (at_key o' ''end'')) of
        (Some s, Some e) \<Rightarrow>
          if \<not> (0 \<le> s \<and> s < e \<and> e \<le> int (length normalized)) then Inl AIGroundingFailedError
          else if at_key o' ''evidence_excerpt'' = JNull then Inr ()
          else if is_float (at_key o' ''start'') \<or> is_float (at_key o' ''end'')
          then Inl (Raised (TypeError ''slice indices must be integers''))
          else ai_guard (JStr (take (nat (e - s)) (drop (nat s) normalized)) = at_key o' ''evidence_excerpt'')
                 AIGroundingFailedError
      | _ \<Rightarrow> Inl AIGroundingFailedError)"

definition check_grounding :: "string \<Rightarrow> json list \<Rightarrow> ai_error + unit" where
  "check_grounding normalized observations = each (ground normalized) (by_proposal observations)"

definition drop_excerpt :: "json \<Rightarrow> json" where
  "drop_excerpt j = (case j of JObj kvs \<Rightarrow> JObj (filter (\<lambda>(k, _). k \<noteq> ''evidence_excerpt'') kvs) | _ \<Rightarrow> j)"

section \<open>The pipeline\<close>

text \<open>Stages 7 to 11, over the proposals of the response.\<close>

definition check_proposals ::
    "runtime_knowledge \<Rightarrow> string \<Rightarrow> string \<Rightarrow> json list \<Rightarrow> json list \<Rightarrow> ai_error + unit" where
  "check_proposals rk expected_input normalized observations indicators =
     rbind (check_duplicate_ids observations indicators) (\<lambda>_.
     rbind (check_correlation expected_input observations indicators) (\<lambda>_.
     rbind (check_membership rk indicators) (\<lambda>_.
     rbind (check_references observations indicators) (\<lambda>_.
       check_grounding normalized observations))))"

definition validate_ai_extraction ::
    "(string \<Rightarrow> json option) \<Rightarrow> raw_response \<Rightarrow> string \<Rightarrow> string \<Rightarrow> string dict \<Rightarrow> runtime_knowledge
      \<Rightarrow> ai_error + validated_extraction" where
  "validate_ai_extraction loads raw expected_request expected_input inputs rk =
     rbind (ai_guard (expected_request \<noteq> [] \<and> expected_input \<noteq> []) (Raised (TypeError ''must be a non-empty string''))) (\<lambda>_.
     rbind (ai_guard (utf8_length (rw_text raw) \<le> MAX_RAW_RESPONSE_BYTES) AIResponseTooLargeError) (\<lambda>_.
     rbind (ai_guard (rw_request_id raw = expected_request) AIReferenceInvalidError) (\<lambda>_.
     rbind (parse_payload loads (rw_text raw)) (\<lambda>data.
     rbind (check_depth [(data, 1)]) (\<lambda>_.
     rbind (scan_forbidden [data]) (\<lambda>_.
     rbind (ai_guard (ai_schema data) AISchemaInvalidError) (\<lambda>_.
     rbind (bind_input expected_input inputs data) (\<lambda>normalized.
     let observations = items_at data ''observations''; indicators = items_at data ''indicators'' in
     rbind (check_proposals rk expected_input normalized observations indicators) (\<lambda>_.
       Inr \<lparr>va_input = expected_input, va_observations = map drop_excerpt observations,
            va_indicators = indicators\<rparr>)))))))))"

end
