(* ===== verification/AiRequest.thy ===== *)
theory AiRequest
  imports AiValidation Result
begin

text \<open>
  provider.py and the second part of governance.py: the bounded request, the host-only configuration and its
  reference, the capped confidence of a proposal, and the run-level audit of an accepted extraction. The
  decoding parameters are JSON numbers; SHA-256 is an argument.
\<close>

section \<open>Identifiers\<close>

text \<open>\<open>fullmatch\<close>: no final newline.\<close>

definition valid_id :: "string \<Rightarrow> bool" where
  "valid_id s \<longleftrightarrow>
     (case s of
        [] \<Rightarrow> False
      | c # cs \<Rightarrow> id_first c \<and> 1 \<le> length cs \<and> length cs \<le> 127 \<and> list_all id_later cs)"

definition check_identifier :: "json \<Rightarrow> ai_error \<Rightarrow> ai_error + string" where
  "check_identifier j e = (case j of JStr s \<Rightarrow> (if valid_id s then Inr s else Inl e) | _ \<Rightarrow> Inl e)"

definition digest_text :: "string \<Rightarrow> bool" where
  "digest_text s \<longleftrightarrow> length s = 64 \<and> list_all hex_char s"

section \<open>Configuration\<close>

definition PROMPT_TEMPLATE_ID :: string where
  "PROMPT_TEMPLATE_ID = ''ai-extraction-data-only''"

definition PROMPT_TEMPLATE_VERSION :: string where
  "PROMPT_TEMPLATE_VERSION = ''1.0.0''"

definition RESPONSE_SCHEMA_ID :: string where
  "RESPONSE_SCHEMA_ID = ''ai-extraction''"

definition AI_EXTRACTION_VERSION :: string where
  "AI_EXTRACTION_VERSION = ''1.0.0''"

definition AI_ADAPTER_ID :: string where
  "AI_ADAPTER_ID = ''ai-extraction-adapter''"

definition AI_ADAPTER_VERSION :: string where
  "AI_ADAPTER_VERSION = ''1.0.0''"

definition CONFIDENCE_POLICY_VERSION :: string where
  "CONFIDENCE_POLICY_VERSION = ''1.0.0''"

record ai_config =
  cf_config_id :: string
  cf_provider_id :: string
  cf_provider_version :: string
  cf_model_id :: string
  cf_model_version :: string
  cf_decoding :: "json dict"
  cf_template_id :: string
  cf_template_version :: string
  cf_schema_id :: string
  cf_schema_version :: string
  cf_adapter_id :: string
  cf_adapter_version :: string

text \<open>\<open>0 <= value <= n\<close> on a number; a float is compared by the decimal it prints as.\<close>

definition number_within :: "int \<Rightarrow> json \<Rightarrow> bool" where
  "number_within n j =
     (case j of
        JInt i \<Rightarrow> 0 \<le> i \<and> i \<le> n
      | JFloat t \<Rightarrow>
          (case decimal t of (m, e) \<Rightarrow>
             0 \<le> m \<and> (if 0 \<le> e then m * 10 ^ nat e \<le> n else m \<le> n * 10 ^ nat (- e)))
      | _ \<Rightarrow> False)"

definition parameter_ok :: "string \<Rightarrow> json \<Rightarrow> bool" where
  "parameter_ok key v =
     (case v of
        JInt i \<Rightarrow>
          (key = ''temperature'' \<longrightarrow> number_within 2 v) \<and> (key = ''top_p'' \<longrightarrow> number_within 1 v) \<and>
          (key = ''max_output_tokens'' \<longrightarrow> 1 \<le> i \<and> i \<le> 2 ^ 31 - 1) \<and> (key = ''seed'' \<longrightarrow> 0 \<le> i \<and> i \<le> 2 ^ 31 - 1)
      | JFloat t \<Rightarrow>
          (key = ''temperature'' \<longrightarrow> number_within 2 v) \<and> (key = ''top_p'' \<longrightarrow> number_within 1 v) \<and>
          key \<noteq> ''max_output_tokens'' \<and> key \<noteq> ''seed''
      | _ \<Rightarrow> False)"

definition DECODING_KEYS :: "string list" where
  "DECODING_KEYS = [''temperature'', ''top_p'', ''max_output_tokens'', ''seed'']"

text \<open>\<open>AIConfiguration.__post_init__\<close>.\<close>

definition make_config :: "ai_config \<Rightarrow> ai_error + ai_config" where
  "make_config c =
     rbind (ai_guard (list_all valid_id
              [cf_config_id c, cf_provider_id c, cf_provider_version c, cf_model_id c, cf_model_version c])
              AIProvenanceInvalidError) (\<lambda>_.
     rbind (ai_guard
              (cf_template_id c = PROMPT_TEMPLATE_ID \<and> cf_template_version c = PROMPT_TEMPLATE_VERSION \<and>
               cf_schema_id c = RESPONSE_SCHEMA_ID \<and> cf_schema_version c = AI_EXTRACTION_VERSION \<and>
               cf_adapter_id c = AI_ADAPTER_ID \<and> cf_adapter_version c = AI_ADAPTER_VERSION)
              AIPromptPolicyViolationError) (\<lambda>_.
     rbind (json_copy 0 (JObj (cf_decoding c)) COPY_BUDGET) (\<lambda>_.
     rbind (ai_guard (list_all (\<lambda>(k, _). k \<in> set DECODING_KEYS) (cf_decoding c)) AIPromptPolicyViolationError) (\<lambda>_.
     rbind (ai_guard (list_all (\<lambda>(k, v). parameter_ok k v) (cf_decoding c)) AIProvenanceInvalidError) (\<lambda>_.
       Inr c)))))"

definition config_dict :: "ai_config \<Rightarrow> json" where
  "config_dict c =
     JObj [(''config_id'', JStr (cf_config_id c)), (''provider_adapter_id'', JStr (cf_provider_id c)),
       (''provider_adapter_version'', JStr (cf_provider_version c)), (''model_id'', JStr (cf_model_id c)),
       (''model_version'', JStr (cf_model_version c)), (''decoding_parameters'', JObj (cf_decoding c)),
       (''prompt_template_id'', JStr (cf_template_id c)), (''prompt_template_version'', JStr (cf_template_version c)),
       (''response_schema_id'', JStr (cf_schema_id c)), (''response_schema_version'', JStr (cf_schema_version c)),
       (''ai_adapter_id'', JStr (cf_adapter_id c)), (''ai_adapter_version'', JStr (cf_adapter_version c))]"

definition config_ref :: "(string \<Rightarrow> string) \<Rightarrow> ai_config \<Rightarrow> ai_error + string" where
  "config_ref sha c = rbind (canonical_digest sha (config_dict c)) (\<lambda>h. Inr (''ai-config:sha256:'' @ h))"

section \<open>Requests\<close>

definition MAX_CONTENT_CHARS :: nat where
  "MAX_CONTENT_CHARS = 100000"

record extraction_request =
  xr_request_id :: string
  xr_input_id :: string
  xr_content :: string
  xr_template :: string
  xr_contract :: string

text \<open>\<open>AIExtractionRequest.__post_init__\<close>, with \<open>None\<close> for a value that is not a string.\<close>

definition make_request ::
    "string option \<Rightarrow> json \<Rightarrow> string option \<Rightarrow> string \<Rightarrow> string \<Rightarrow> exc + extraction_request" where
  "make_request request_id input_id content template contract =
     (case (request_id, input_id, content) of
        (Some r, JStr i, Some txt) \<Rightarrow>
          if r = [] \<or> i = [] then Inl (ValueError ''must be a non-empty string'')
          else if MAX_CONTENT_CHARS < length txt then Inl (ValueError ''exceeds the transport bound'')
          else if list_all py_space template \<or> list_all py_space contract
          then Inl (ValueError ''must be None or a non-empty, non-whitespace string'')
          else Inr \<lparr>xr_request_id = r, xr_input_id = i, xr_content = txt, xr_template = template, xr_contract = contract\<rparr>
      | _ \<Rightarrow> Inl (ValueError ''must be a string''))"

record prepared_request =
  pq_config :: ai_config
  pq_request :: extraction_request

definition prepare_ai_request ::
    "ai_config option \<Rightarrow> string option \<Rightarrow> json \<Rightarrow> string option \<Rightarrow> ai_error + prepared_request" where
  "prepare_ai_request config request_id input_id content =
     (case config of
        None \<Rightarrow> Inl AIPromptPolicyViolationError
      | Some c \<Rightarrow>
          (case make_request request_id input_id content (cf_template_id c) (cf_schema_id c) of
             Inl _ \<Rightarrow> Inl AIPromptPolicyViolationError
           | Inr r \<Rightarrow>
               rbind (ai_guard (valid_id (xr_request_id r) \<and> valid_id (xr_input_id r)) AIPromptPolicyViolationError)
                 (\<lambda>_. Inr \<lparr>pq_config = c, pq_request = r\<rparr>)))"

text \<open>\<open>AIProvenanceDescriptor.as_dict\<close>.\<close>

definition provenance_dict :: "(string \<Rightarrow> string) \<Rightarrow> ai_config \<Rightarrow> ai_error + json" where
  "provenance_dict sha c =
     rbind (config_ref sha c) (\<lambda>ref.
       Inr (JObj [(''extractor_id'', JStr (cf_adapter_id c)), (''extractor_type'', JStr ''LLM''),
         (''extractor_version'', JStr (cf_adapter_version c)), (''config_ref'', JStr ref)]))"

section \<open>Capped confidence\<close>

record capped =
  cp_collection :: string
  cp_index :: nat
  cp_proposal :: "string option"
  cp_state :: string

text \<open>\<open>CappedAIProposal.__post_init__\<close>; the arguments come from the proposal.\<close>

definition make_capped :: "string \<Rightarrow> nat \<Rightarrow> json \<Rightarrow> json \<Rightarrow> ai_error + capped" where
  "make_capped collection index proposal_id state =
     rbind (ai_guard (collection = ''observations'' \<or> collection = ''indicators'') AIProvenanceInvalidError) (\<lambda>_.
     rbind (case proposal_id of
              JNull \<Rightarrow> if collection = ''observations'' then Inl AIProvenanceInvalidError else Inr None
            | j \<Rightarrow> rbind (check_identifier j AIProvenanceInvalidError) (\<lambda>s. Inr (Some s))) (\<lambda>pid.
       case state of
         JStr st \<Rightarrow>
           if st \<in> set STATE_NAMES
           then Inr \<lparr>cp_collection = collection, cp_index = index, cp_proposal = pid, cp_state = st\<rparr>
           else Inl AIProvenanceInvalidError
       | _ \<Rightarrow> Inl AIProvenanceInvalidError))"

definition capped_level :: "capped \<Rightarrow> string" where
  "capped_level c = (if cp_state c = ''UNKNOWN'' \<or> cp_state c = ''AMBIGUOUS'' then ''LOW'' else ''MEDIUM'')"

definition reason_code :: "capped \<Rightarrow> string" where
  "reason_code c =
     (if cp_state c = ''UNKNOWN'' then ''GOVERNED_UNKNOWN''
      else if cp_state c = ''AMBIGUOUS'' then ''GOVERNED_AMBIGUITY''
      else ''COMPLETE_VALIDATED_DETERMINATE'')"

definition review_required :: "capped \<Rightarrow> bool" where
  "review_required c \<longleftrightarrow> capped_level c = ''LOW''"

section \<open>Prepared extractions\<close>

definition extraction_dict :: "validated_extraction \<Rightarrow> json" where
  "extraction_dict v =
     JObj [(''input_id'', JStr (va_input v)), (''observations'', JArr (va_observations v)),
       (''indicators'', JArr (va_indicators v))]"

record prepared_extraction =
  px_extraction :: validated_extraction
  px_config :: ai_config
  px_observations :: "capped list"
  px_indicators :: "capped list"

definition cap_all :: "string \<Rightarrow> string \<Rightarrow> json list \<Rightarrow> ai_error + capped list" where
  "cap_all collection state_key items =
     map_res (\<lambda>(index, item). make_capped collection index (at_key item ''proposal_id'') (at_key item state_key))
       (zip [0..<length items] items)"

text \<open>\<open>PreparedAIExtraction.__post_init__\<close>.\<close>

definition make_prepared :: "validated_extraction \<Rightarrow> ai_config \<Rightarrow> ai_error + prepared_extraction" where
  "make_prepared v c =
     rbind (canonical_json (extraction_dict v)) (\<lambda>_.
     rbind (ai_guard (valid_id (va_input v)) AIProvenanceInvalidError) (\<lambda>_.
     rbind (cap_all ''observations'' ''status'' (va_observations v)) (\<lambda>os.
     rbind (cap_all ''indicators'' ''matched'' (va_indicators v)) (\<lambda>is.
       Inr \<lparr>px_extraction = v, px_config = c, px_observations = os, px_indicators = is\<rparr>))))"

text \<open>\<open>AIExtractionResult\<close>, built from the material it is the audit of.\<close>

record extraction_result =
  xe_run_id :: string
  xe_evaluation_id :: string
  xe_config :: ai_config
  xe_extraction :: validated_extraction

definition new_extraction_result ::
    "json \<Rightarrow> json \<Rightarrow> ai_config \<Rightarrow> validated_extraction \<Rightarrow> ai_error + extraction_result" where
  "new_extraction_result run_id evaluation_id c v =
     rbind (check_identifier run_id AIProvenanceInvalidError) (\<lambda>run.
     rbind (check_identifier evaluation_id AIProvenanceInvalidError) (\<lambda>evaluation.
     rbind (json_copy 0 (extraction_dict v) COPY_BUDGET) (\<lambda>_.
     rbind (ai_guard (valid_id (va_input v)) AIProvenanceInvalidError) (\<lambda>_.
       Inr \<lparr>xe_run_id = run, xe_evaluation_id = evaluation, xe_config = c, xe_extraction = v\<rparr>))))"

definition result_dict :: "(string \<Rightarrow> string) \<Rightarrow> extraction_result \<Rightarrow> ai_error + json" where
  "result_dict sha x =
     rbind (config_ref sha (xe_config x)) (\<lambda>ref.
     rbind (canonical_digest sha (extraction_dict (xe_extraction x))) (\<lambda>h.
       Inr (JObj [(''run_id'', JStr (xe_run_id x)), (''evaluation_id'', JStr (xe_evaluation_id x)),
         (''config_ref'', JStr ref), (''config'', config_dict (xe_config x)),
         (''validated_extraction'', extraction_dict (xe_extraction x)), (''validated_extraction_digest'', JStr h),
         (''governed_artifact_digest'', JNull),
         (''response_schema_version'', JStr (cf_schema_version (xe_config x))),
         (''confidence_policy_version'', JStr CONFIDENCE_POLICY_VERSION)])))"

definition prepare_ai_extraction ::
    "validated_extraction \<Rightarrow> prepared_request \<Rightarrow> string option \<Rightarrow> json
      \<Rightarrow> ai_error + (prepared_extraction \<times> extraction_result)" where
  "prepare_ai_extraction v pq run_id evaluation_id =
     rbind (ai_guard (va_input v = xr_input_id (pq_request pq)) AIProvenanceInvalidError) (\<lambda>_.
     rbind (make_prepared v (pq_config pq)) (\<lambda>prepared.
     rbind (new_extraction_result (case run_id of None \<Rightarrow> JNull | Some r \<Rightarrow> JStr r) evaluation_id (pq_config pq)
              (px_extraction prepared)) (\<lambda>audit.
       Inr (prepared, audit))))"

end
