(* ===== verification/AiIntegration.thy ===== *)
theory AiIntegration
  imports AiRequest
begin

text \<open>
  replay.py and integration.py: the snapshot that pins an accepted extraction and the artifact the engine
  consumes, and the evaluation with optional AI. The provider is an argument: it returns a response, or an
  object of another type, or raises. The engine is \<open>evaluate_detection_from_governed\<close> of the runtime.
\<close>

section \<open>Replay snapshots\<close>

record snapshot =
  sn_result :: extraction_result
  sn_artifact :: json
  sn_content_digest :: string
  sn_engine_version :: string
  sn_profile :: string
  sn_digest :: string

definition snapshot_material :: "(string \<Rightarrow> string) \<Rightarrow> snapshot \<Rightarrow> ai_error + json" where
  "snapshot_material sha sn =
     rbind (result_dict sha (sn_result sn)) (\<lambda>r.
     rbind (canonical_digest sha (sn_artifact sn)) (\<lambda>h.
       Inr (JObj [(''snapshot_version'', JStr ''1.0.0''), (''extraction_result'', r),
         (''governed_artifact'', sn_artifact sn), (''governed_artifact_digest'', JStr h),
         (''content_digest'', JStr (sn_content_digest sn)), (''engine_version'', JStr (sn_engine_version sn)),
         (''profile'', JStr (sn_profile sn))])))"

text \<open>\<open>_is_sealed_ai_extraction_result\<close>: what it checks of a result of the factory.\<close>

definition sealed :: "(string \<Rightarrow> string) \<Rightarrow> extraction_result \<Rightarrow> bool" where
  "sealed sha x \<longleftrightarrow>
     valid_id (xe_run_id x) \<and> valid_id (xe_evaluation_id x) \<and>
     (case canonical_digest sha (extraction_dict (xe_extraction x)) of Inl _ \<Rightarrow> False | Inr h \<Rightarrow> digest_text h)"

text \<open>\<open>verify\<close>: every provenance error inside is reported as an integrity failure.\<close>

definition verify_snapshot :: "(string \<Rightarrow> string) \<Rightarrow> snapshot \<Rightarrow> ai_error + unit" where
  "verify_snapshot sha sn =
     (case (canonical_digest sha (sn_artifact sn), rbind (snapshot_material sha sn) (canonical_digest sha)) of
        (Inr artifact, Inr material) \<Rightarrow>
          ai_guard (sealed sha (sn_result sn) \<and> digest_text (sn_content_digest sn) \<and> digest_text (sn_digest sn) \<and>
              valid_id (sn_engine_version sn) \<and> valid_id (sn_profile sn) \<and> digest_text artifact \<and>
              material = sn_digest sn)
            AIReplayIntegrityError
      | _ \<Rightarrow> Inl AIReplayIntegrityError)"

text \<open>\<open>AIReplaySnapshot.__post_init__\<close>.\<close>

definition make_snapshot :: "(string \<Rightarrow> string) \<Rightarrow> snapshot \<Rightarrow> ai_error + snapshot" where
  "make_snapshot sha sn =
     (case (sn_artifact sn, canonical_json (sn_artifact sn)) of
        (JObj _, Inr _) \<Rightarrow> rbind (verify_snapshot sha sn) (\<lambda>_. Inr sn)
      | _ \<Rightarrow> Inl AIReplayIntegrityError)"

definition pin_replay_snapshot ::
    "(string \<Rightarrow> string) \<Rightarrow> extraction_result \<Rightarrow> json \<Rightarrow> string \<Rightarrow> string \<Rightarrow> string \<Rightarrow> ai_error + snapshot" where
  "pin_replay_snapshot sha x artifact content engine profile =
     (let sn = \<lparr>sn_result = x, sn_artifact = artifact, sn_content_digest = content, sn_engine_version = engine,
                sn_profile = profile, sn_digest = []\<rparr> in
      rbind (ai_guard (sealed sha x) AIProvenanceInvalidError) (\<lambda>_.
      rbind (case artifact of JObj _ \<Rightarrow> json_copy 0 artifact COPY_BUDGET | _ \<Rightarrow> Inl AIProvenanceInvalidError) (\<lambda>_.
      rbind (snapshot_material sha sn) (\<lambda>material.
      rbind (canonical_digest sha material) (\<lambda>h.
        make_snapshot sha (sn\<lparr>sn_digest := h\<rparr>))))))"

text \<open>\<open>as_dict\<close> of a snapshot, and its inverse over parsed JSON.\<close>

definition snapshot_dict :: "(string \<Rightarrow> string) \<Rightarrow> snapshot \<Rightarrow> ai_error + json" where
  "snapshot_dict sha sn =
     rbind (verify_snapshot sha sn) (\<lambda>_.
     rbind (snapshot_material sha sn) (\<lambda>material.
       case material of
         JObj kvs \<Rightarrow> Inr (JObj (kvs @ [(''snapshot_digest'', JStr (sn_digest sn))]))
       | j \<Rightarrow> Inr j))"

definition prepare_replay :: "(string \<Rightarrow> string) \<Rightarrow> snapshot \<Rightarrow> ai_error + json" where
  "prepare_replay sha sn = rbind (verify_snapshot sha sn) (\<lambda>_. Inr (sn_artifact sn))"

text \<open>Reading an object: an absent key, an unexpected key or a value of another type is an integrity failure.\<close>

definition as_text :: "json \<Rightarrow> string option" where
  "as_text j = (case j of JStr s \<Rightarrow> Some s | _ \<Rightarrow> None)"

definition has_keys :: "string list \<Rightarrow> json \<Rightarrow> bool" where
  "has_keys ks j = (case j of JObj kvs \<Rightarrow> set (map fst kvs) = set ks | _ \<Rightarrow> False)"

text \<open>\<open>AIConfiguration(**config)\<close>: the first five fields are required, the others have defaults.\<close>

definition text_or :: "string \<Rightarrow> json dict \<Rightarrow> string \<Rightarrow> string option" where
  "text_or dflt kvs k = (case map_of kvs k of None \<Rightarrow> Some dflt | Some j \<Rightarrow> as_text j)"

definition text_field :: "json dict \<Rightarrow> string \<Rightarrow> string option" where
  "text_field kvs k = Option.bind (map_of kvs k) as_text"

definition CONFIG_KEYS :: "string list" where
  "CONFIG_KEYS =
     [''config_id'', ''provider_adapter_id'', ''provider_adapter_version'', ''model_id'', ''model_version'',
      ''decoding_parameters'', ''prompt_template_id'', ''prompt_template_version'', ''response_schema_id'',
      ''response_schema_version'', ''ai_adapter_id'', ''ai_adapter_version'']"

definition config_of :: "json \<Rightarrow> ai_config option" where
  "config_of j =
     (case j of
        JObj kvs \<Rightarrow>
          if \<not> set (map fst kvs) \<subseteq> set CONFIG_KEYS then None
          else (case (text_field kvs ''config_id'', text_field kvs ''provider_adapter_id'',
                  text_field kvs ''provider_adapter_version'', text_field kvs ''model_id'', text_field kvs ''model_version'',
                  (case map_of kvs ''decoding_parameters'' of None \<Rightarrow> Some [] | Some (JObj d) \<Rightarrow> Some d | Some _ \<Rightarrow> None),
                  text_or PROMPT_TEMPLATE_ID kvs ''prompt_template_id'',
                  text_or PROMPT_TEMPLATE_VERSION kvs ''prompt_template_version'',
                  text_or RESPONSE_SCHEMA_ID kvs ''response_schema_id'',
                  text_or AI_EXTRACTION_VERSION kvs ''response_schema_version'',
                  text_or AI_ADAPTER_ID kvs ''ai_adapter_id'', text_or AI_ADAPTER_VERSION kvs ''ai_adapter_version'') of
                  (Some a, Some b, Some c, Some d, Some e, Some f, Some g, Some h, Some i, Some k, Some l, Some m) \<Rightarrow>
                    (case make_config \<lparr>cf_config_id = a, cf_provider_id = b, cf_provider_version = c, cf_model_id = d,
                        cf_model_version = e, cf_decoding = f, cf_template_id = g, cf_template_version = h,
                        cf_schema_id = i, cf_schema_version = k, cf_adapter_id = l, cf_adapter_version = m\<rparr> of
                       Inl _ \<Rightarrow> None
                     | Inr cf \<Rightarrow> Some cf)
                | _ \<Rightarrow> None)
      | _ \<Rightarrow> None)"

definition extraction_of :: "json \<Rightarrow> validated_extraction option" where
  "extraction_of j =
     (case (at_key j ''input_id'', at_key j ''observations'', at_key j ''indicators'') of
        (JStr i, JArr os, JArr is) \<Rightarrow>
          if has_keys [''input_id'', ''observations'', ''indicators''] j
          then Some \<lparr>va_input = i, va_observations = os, va_indicators = is\<rparr> else None
      | _ \<Rightarrow> None)"

definition SNAPSHOT_KEYS :: "string list" where
  "SNAPSHOT_KEYS =
     [''snapshot_version'', ''extraction_result'', ''governed_artifact'', ''governed_artifact_digest'',
      ''content_digest'', ''engine_version'', ''profile'', ''snapshot_digest'']"

definition audit_of :: "json \<Rightarrow> extraction_result option" where
  "audit_of audit_data =
     (case (config_of (at_key audit_data ''config''), extraction_of (at_key audit_data ''validated_extraction'')) of
        (Some c, Some v) \<Rightarrow>
          (case new_extraction_result (at_key audit_data ''run_id'') (at_key audit_data ''evaluation_id'') c v of
             Inl _ \<Rightarrow> None
           | Inr x \<Rightarrow> Some x)
      | _ \<Rightarrow> None)"

definition restore_replay_snapshot :: "(string \<Rightarrow> string) \<Rightarrow> json \<Rightarrow> ai_error + snapshot" where
  "restore_replay_snapshot sha payload =
     rbind (case json_copy 0 payload COPY_BUDGET of Inl _ \<Rightarrow> Inl AIReplayIntegrityError | Inr _ \<Rightarrow> Inr ()) (\<lambda>_.
     rbind (ai_guard (has_keys SNAPSHOT_KEYS payload \<and> at_key payload ''snapshot_version'' = JStr ''1.0.0'')
              AIReplayIntegrityError) (\<lambda>_.
       case audit_of (at_key payload ''extraction_result'') of
         None \<Rightarrow> Inl AIReplayIntegrityError
       | Some audit \<Rightarrow>
           (case (rbind (result_dict sha audit) canonical_json, canonical_json (at_key payload ''extraction_result''),
                  canonical_digest sha (at_key payload ''governed_artifact''),
                  as_text (at_key payload ''content_digest''), as_text (at_key payload ''engine_version''),
                  as_text (at_key payload ''profile''), as_text (at_key payload ''snapshot_digest'')) of
              (Inr t, Inr t', Inr h, Some content, Some engine, Some profile, Some digest) \<Rightarrow>
                if t = t' \<and> at_key payload ''governed_artifact_digest'' = JStr h
                then make_snapshot sha \<lparr>sn_result = audit, sn_artifact = at_key payload ''governed_artifact'',
                       sn_content_digest = content, sn_engine_version = engine, sn_profile = profile,
                       sn_digest = digest\<rparr>
                else Inl AIReplayIntegrityError
            | _ \<Rightarrow> Inl AIReplayIntegrityError)))"

section \<open>Host input\<close>

text \<open>What \<open>evaluate_with_optional_ai\<close> captures of its caller before any optional call.\<close>

record host_input =
  hi_observations :: "json list"
  hi_indicators :: "json list"
  hi_evaluation_id :: json
  hi_timestamp :: json
  hi_input_id :: json
  hi_language :: json
  hi_script :: json
  hi_support :: string
  hi_errors :: "eval_error list"

definition host_dict :: "host_input \<Rightarrow> json" where
  "host_dict h =
     JObj [(''observations'', JArr (hi_observations h)), (''indicator_observations'', JArr (hi_indicators h)),
       (''evaluation_context'', JObj [(''evaluation_id'', hi_evaluation_id h),
          (''evaluation_timestamp'', hi_timestamp h), (''input_id'', hi_input_id h), (''language'', hi_language h),
          (''script'', hi_script h), (''input_support_status'', JStr (hi_support h)),
          (''whole_evaluation_errors'', JArr (map error_json (hi_errors h)))])]"

definition host_evaluable :: "host_input \<Rightarrow> bool" where
  "host_evaluable h \<longleftrightarrow>
     (hi_support h = ''SUPPORTED'' \<or> hi_support h = ''PARTIALLY_SUPPORTED'') \<and> hi_errors h = [] \<and>
     hi_language h = JArr [JStr ''en''] \<and> hi_script h = JArr [JStr ''Latn'']"

text \<open>JSON data as the Python value the engine receives.\<close>

fun pyval_of :: "json \<Rightarrow> pyval" where
  "pyval_of JNull = PNone"
| "pyval_of (JBool b) = PBool b"
| "pyval_of (JInt i) = PInt i"
| "pyval_of (JFloat t) = (if finite_text t then PFloat t else PNonFinite)"
| "pyval_of (JStr s) = PStr s"
| "pyval_of (JArr xs) = PSeq (map pyval_of xs)"
| "pyval_of (JObj kvs) = PMap (map (\<lambda>(k, v). (PStr k, pyval_of v)) kvs)"

section \<open>Mapping proposals to observations\<close>

definition observation_id :: "(string \<Rightarrow> string) \<Rightarrow> string \<Rightarrow> string \<Rightarrow> ai_error + string" where
  "observation_id sha run_id pid =
     rbind (canonical_digest sha (JObj [(''run_id'', JStr run_id), (''proposal_id'', JStr pid)]))
       (\<lambda>h. Inr (''AI-OBS-'' @ h))"

definition map_observation ::
    "(string \<Rightarrow> string) \<Rightarrow> string \<Rightarrow> ai_config \<Rightarrow> json \<times> capped \<Rightarrow> ai_error + (string \<times> string \<times> json)" where
  "map_observation sha run_id c pc =
     (case pc of (p, cap) \<Rightarrow>
        rbind (observation_id sha run_id (text_at p ''proposal_id'')) (\<lambda>oid.
        rbind (provenance_dict sha c) (\<lambda>prov.
          Inr (text_at p ''proposal_id'', oid,
            JObj ([(''observation_type'', at_key p ''observation_type''), (''source_input_id'', at_key p ''source_input_id''),
              (''status'', at_key p ''status''), (''polarity'', at_key p ''polarity''),
              (''attribution'', at_key p ''attribution''), (''mood'', at_key p ''mood''), (''observation_id'', JStr oid),
              (''offsets'', JObj [(''start'', at_key p ''start''), (''end'', at_key p ''end'')]),
              (''confidence'', JObj [(''level'', JStr (capped_level cap))]), (''provenance'', prov)] @
              (if at_key p ''canonical_value'' = JNull then [] else [(''canonical_value'', at_key p ''canonical_value'')]))))))"

definition map_indicator ::
    "(string \<Rightarrow> string) \<Rightarrow> string dict \<Rightarrow> ai_config \<Rightarrow> json \<times> capped \<Rightarrow> ai_error + json" where
  "map_indicator sha refs c pc =
     (case pc of (p, cap) \<Rightarrow>
        rbind (map_res (\<lambda>ref. case map_of refs ref of None \<Rightarrow> Inl AIMappingError | Some oid \<Rightarrow> Inr (JStr oid))
                 (texts_at p ''observation_refs'')) (\<lambda>oids.
        rbind (provenance_dict sha c) (\<lambda>prov.
          Inr (JObj [(''indicator_id'', at_key p ''indicator_id''), (''polarity'', at_key p ''polarity''),
            (''matched'', at_key p ''matched''), (''input_id'', at_key p ''input_id''), (''observation_refs'', JArr oids),
            (''confidence'', JObj [(''level'', JStr (capped_level cap))]), (''extraction_method'', JStr ''LLM''),
            (''review_required'', JBool (review_required cap)), (''provenance'', prov)]))))"

text \<open>
  The host side of the mapping: an observation that is not an object, or with an unhashable id, raises; a
  collision of ids or an item of another input refuses the contribution.
\<close>

definition is_object :: "json \<Rightarrow> bool" where
  "is_object j = (case j of JObj _ \<Rightarrow> True | _ \<Rightarrow> False)"

definition host_compatible :: "host_input \<Rightarrow> string \<Rightarrow> string list \<Rightarrow> bool \<Rightarrow> bool" where
  "host_compatible h input oids contributes \<longleftrightarrow>
     list_all (\<lambda>o'. is_object o' \<and> hashable (at_key o' ''observation_id'') \<and>
        list_all (\<lambda>oid. at_key o' ''observation_id'' \<noteq> JStr oid) oids) (hi_observations h) \<and>
     (contributes \<longrightarrow>
        list_all (\<lambda>o'. at_key o' ''source_input_id'' = JStr input) (hi_observations h) \<and>
        list_all (\<lambda>i. is_object i \<and> at_key i ''input_id'' = JStr input) (hi_indicators h))"

definition mapped_fault :: "exc \<Rightarrow> ai_error" where
  "mapped_fault x =
     (case x of
        KeyError _ \<Rightarrow> AIMappingError | TypeError _ \<Rightarrow> AIMappingError | ValueError _ \<Rightarrow> AIMappingError
      | AttributeError _ \<Rightarrow> AIMappingError | _ \<Rightarrow> Raised x)"

definition map_ai ::
    "(string \<Rightarrow> string) \<Rightarrow> (json \<Rightarrow> bool) \<Rightarrow> (json \<Rightarrow> bool) \<Rightarrow> prepared_extraction \<Rightarrow> string \<Rightarrow> host_input
      \<Rightarrow> ai_error + (json list \<times> json list)" where
  "map_ai sha io_ok obs_ok px run_id h =
     (let v = px_extraction px in
      rbind (map_res (map_observation sha run_id (px_config px)) (zip (va_observations v) (px_observations px))) (\<lambda>mapped.
      let refs = dict_of (map (\<lambda>(pid, oid, _). (pid, oid)) mapped); observations = map (\<lambda>(_, _, o'). o') mapped in
      rbind (map_res (map_indicator sha refs (px_config px)) (zip (va_indicators v) (px_indicators px))) (\<lambda>indicators.
      rbind (ai_guard (host_compatible h (va_input v) (map snd refs) (observations \<noteq> [] \<or> indicators \<noteq> []))
               AIMappingError) (\<lambda>_.
        case build_validated_context io_ok obs_ok (PSeq (map pyval_of indicators)) (PSeq (map pyval_of observations))
               ''en'' ''Latn'' of
          Inl x \<Rightarrow> Inl (mapped_fault x)
        | Inr _ \<Rightarrow> Inr (observations, indicators)))))"

section \<open>Evaluation with optional AI\<close>

datatype fallback =
    AI_DISABLED
  | AI_HOST_NOT_EVALUABLE
  | AI_PROVIDER_FAILED
  | AI_RESPONSE_REJECTED
  | AI_GOVERNANCE_FAILED
  | AI_MAPPING_FAILED

datatype provider_reply = Reply raw_response | Foreign

type_synonym provider = "extraction_request \<Rightarrow> ai_error + provider_reply"

text \<open>The optional call of the host: configuration, provider and what the request needs, each possibly absent.\<close>

record ai_call =
  ac_provider :: "provider option"
  ac_config :: "ai_config option"
  ac_content :: "string option"
  ac_request_id :: "string option"
  ac_run_id :: "string option"

record ai_libraries =
  al_sha256 :: "string \<Rightarrow> string"
  al_loads :: "string \<Rightarrow> json option"
  al_io_ok :: "json \<Rightarrow> bool"
  al_obs_ok :: "json \<Rightarrow> bool"

definition combined :: "host_input \<Rightarrow> json list \<Rightarrow> json list \<Rightarrow> host_input" where
  "combined h observations indicators =
     h\<lparr>hi_observations := hi_observations h @ observations, hi_indicators := hi_indicators h @ indicators\<rparr>"

text \<open>The body of the \<open>try\<close>: a fallback reason, or the artifact with its snapshot.\<close>

definition accept_response ::
    "ai_libraries \<Rightarrow> runtime_knowledge \<Rightarrow> ai_call \<Rightarrow> prepared_request \<Rightarrow> host_input \<Rightarrow> raw_response
      \<Rightarrow> ai_error + (host_input \<times> snapshot)" where
  "accept_response lib rk call pq h raw =
     (let r = pq_request pq in
      rbind (validate_ai_extraction (al_loads lib) raw (xr_request_id r) (xr_input_id r)
               [(xr_input_id r, xr_content r)] rk) (\<lambda>v.
      rbind (prepare_ai_extraction v pq (ac_run_id call) (hi_evaluation_id h)) (\<lambda>(px, audit).
      rbind (map_ai (al_sha256 lib) (al_io_ok lib) (al_obs_ok lib) px (xe_run_id audit) h) (\<lambda>(obs, inds).
      rbind (pin_replay_snapshot (al_sha256 lib) audit (host_dict (combined h obs inds))
               (md_content_digest (rk_meta rk)) ENGINE_VERSION (pf_profile_id DEFAULT_PROFILE)) (\<lambda>sn.
        Inr (combined h obs inds, sn))))))"

definition attempt_ai ::
    "ai_libraries \<Rightarrow> runtime_knowledge \<Rightarrow> ai_call \<Rightarrow> host_input \<Rightarrow> ai_error + (fallback + host_input \<times> snapshot)" where
  "attempt_ai lib rk call h =
     rbind (prepare_ai_request (ac_config call) (ac_request_id call) (hi_input_id h) (ac_content call)) (\<lambda>pq.
       case ac_provider call of
         None \<Rightarrow> Inr (Inl AI_PROVIDER_FAILED)
       | Some extract \<Rightarrow>
           rbind (extract (pq_request pq)) (\<lambda>reply.
             case reply of
               Foreign \<Rightarrow> Inr (Inl AI_RESPONSE_REJECTED)
             | Reply raw \<Rightarrow> rbind (accept_response lib rk call pq h raw) (\<lambda>x. Inr (Inr x))))"

text \<open>The handlers; any other exception leaves the function.\<close>

definition caught :: "ai_error + (fallback + host_input \<times> snapshot) \<Rightarrow> ai_error + (fallback + host_input \<times> snapshot)" where
  "caught r =
     (case r of
        Inr x \<Rightarrow> Inr x
      | Inl e \<Rightarrow>
          if provider_error e then Inr (Inl AI_PROVIDER_FAILED)
          else if validation_error e then Inr (Inl AI_RESPONSE_REJECTED)
          else if governance_error e then Inr (Inl AI_GOVERNANCE_FAILED)
          else if e = AIMappingError then Inr (Inl AI_MAPPING_FAILED)
          else Inl e)"

definition optional_ai ::
    "ai_libraries \<Rightarrow> runtime_knowledge \<Rightarrow> bool \<Rightarrow> ai_call \<Rightarrow> host_input \<Rightarrow> ai_error + (fallback + host_input \<times> snapshot)" where
  "optional_ai lib rk enabled call h =
     (if \<not> enabled then Inr (Inl AI_DISABLED)
      else if \<not> host_evaluable h then Inr (Inl AI_HOST_NOT_EVALUABLE)
      else caught (attempt_ai lib rk call h))"

text \<open>The engine on an artifact.\<close>

type_synonym engine = "host_input \<Rightarrow> detection_result res"

definition engine_on ::
    "(string \<Rightarrow> bool option) \<Rightarrow> (json \<Rightarrow> bool) \<Rightarrow> (json \<Rightarrow> bool) \<Rightarrow> (rule_result \<Rightarrow> bool) \<Rightarrow> (eval_error \<Rightarrow> bool)
      \<Rightarrow> (detection_result \<Rightarrow> bool) \<Rightarrow> runtime_knowledge \<Rightarrow> engine" where
  "engine_on fromisoformat io_ok obs_ok schema_ok error_ok det_ok rk h =
     evaluate_detection_from_governed fromisoformat io_ok obs_ok schema_ok error_ok det_ok rk
       (PSeq (map pyval_of (hi_indicators h))) (PSeq (map pyval_of (hi_observations h)))
       (pyval_of (hi_evaluation_id h)) (pyval_of (hi_timestamp h)) (pyval_of (hi_input_id h))
       (pyval_of (hi_language h)) (pyval_of (hi_script h)) (hi_support h) (hi_errors h)"

record ai_outcome =
  oc_detection :: detection_result
  oc_attempted :: bool
  oc_reason :: "fallback option"
  oc_artifact :: host_input
  oc_replay :: "snapshot option"

definition evaluate_with_optional_ai ::
    "ai_libraries \<Rightarrow> engine \<Rightarrow> runtime_knowledge \<Rightarrow> bool \<Rightarrow> ai_call \<Rightarrow> host_input \<Rightarrow> ai_error + ai_outcome" where
  "evaluate_with_optional_ai lib engine rk enabled call h =
     rbind (case canonical_json (host_dict h) of Inl _ \<Rightarrow> Inl AIIntegrationInputError | Inr _ \<Rightarrow> Inr ()) (\<lambda>_.
     rbind (optional_ai lib rk enabled call h) (\<lambda>taken_path.
     let artifact = (case taken_path of Inl _ \<Rightarrow> h | Inr (a, _) \<Rightarrow> a) in
       case engine artifact of
         Inl x \<Rightarrow> Inl (Raised x)
       | Inr d \<Rightarrow>
           Inr \<lparr>oc_detection = d, oc_attempted = (enabled \<and> host_evaluable h),
                oc_reason = (case taken_path of Inl reason \<Rightarrow> Some reason | Inr _ \<Rightarrow> None), oc_artifact = artifact,
                oc_replay = (case taken_path of Inl _ \<Rightarrow> None | Inr (_, sn) \<Rightarrow> Some sn)\<rparr>))"

end
