(* ===== verification/AiValidationProps.thy ===== *)
theory AiValidationProps
  imports AiValidation
begin

text \<open>
  What acceptance of a provider response means, how it fails, and that the outcome does not depend on the
  order of the proposals.
\<close>

section \<open>The worklists\<close>

fun nesting :: "json \<Rightarrow> nat" where
  "nesting (JObj kvs) = (case kvs of [] \<Rightarrow> 0 | _ \<Rightarrow> Suc (Max (set (map (\<lambda>(_, v). nesting v) kvs))))"
| "nesting (JArr xs) = (case xs of [] \<Rightarrow> 0 | _ \<Rightarrow> Suc (Max (set (map nesting xs))))"
| "nesting _ = 0"

lemma nesting_children: "nesting j \<le> n \<longleftrightarrow> (\<forall>c\<in>set (children j). nesting c < n)"
proof (cases j)
  case (JArr xs)
  then show ?thesis by (cases xs) (auto simp: Suc_le_eq less_eq_Suc_le [symmetric])
next
  case (JObj kvs)
  then show ?thesis by (cases kvs) (auto simp: Suc_le_eq less_eq_Suc_le [symmetric])
qed simp_all

text \<open>The iterative depth guard is the recursive one.\<close>

lemma check_depth_exact:
  "check_depth stack = (if \<forall>(j, d)\<in>set stack. d + nesting j \<le> MAX_JSON_NESTING_DEPTH then Inr ()
     else Inl AIResponseMalformedError)"
proof (induction stack rule: check_depth.induct)
  case (2 node depth stack)
  show ?case
  proof (cases "MAX_JSON_NESTING_DEPTH < depth")
    case False
    have "(\<forall>c\<in>set (children node). depth + 1 + nesting c \<le> MAX_JSON_NESTING_DEPTH) \<longleftrightarrow>
        depth + nesting node \<le> MAX_JSON_NESTING_DEPTH"
      using False nesting_children [of node "MAX_JSON_NESTING_DEPTH - depth"] by (auto simp: less_diff_conv le_diff_conv2 algebra_simps Suc_le_eq)
    then have "(\<forall>(j, d)\<in>set (map (\<lambda>v. (v, depth + 1)) (children node) @ stack). d + nesting j \<le> MAX_JSON_NESTING_DEPTH) \<longleftrightarrow>
        (\<forall>(j, d)\<in>set ((node, depth) # stack). d + nesting j \<le> MAX_JSON_NESTING_DEPTH)"
      by (simp add: ball_Un)
    then show ?thesis using 2 [OF False] False by (simp only: check_depth.simps if_False)
  qed auto
qed simp

fun decision_free :: "json \<Rightarrow> bool" where
  "decision_free (JObj kvs) = list_all (\<lambda>(k, v). k \<notin> set FORBIDDEN_FIELDS \<and> decision_free v) kvs"
| "decision_free (JArr xs) = list_all decision_free xs"
| "decision_free _ = True"

lemma decision_free_children: "decision_free j \<longleftrightarrow> \<not> forbidden_keys j \<and> (\<forall>c\<in>set (children j). decision_free c)"
  by (cases j) (auto simp: forbidden_keys_def list_all_iff list_ex_iff)

lemma scan_forbidden_exact:
  "scan_forbidden stack = (if list_all decision_free stack then Inr () else Inl AIDecisionFieldRejectedError)"
proof (induction stack rule: scan_forbidden.induct)
  case (2 node stack)
  show ?case
  proof (cases "forbidden_keys node")
    case False
    then show ?thesis using 2 [OF False] decision_free_children [of node] by (auto simp: list_all_iff)
  next
    case True
    then show ?thesis using decision_free_children [of node] by simp
  qed
qed simp

lemma decision_free_at: "decision_free j \<Longrightarrow> decision_free (at_key j k)"
  by (cases j) (auto simp: at_key_def jget_def list_all_iff dest!: map_of_SomeD split: option.split)

lemma decision_free_items: "decision_free j \<Longrightarrow> x \<in> set (items_at j k) \<Longrightarrow> decision_free x"
  using decision_free_at [of j k] by (cases "at_key j k") (auto simp: items_at_def list_all_iff)

lemma decision_free_drop: "decision_free j \<Longrightarrow> decision_free (drop_excerpt j)"
  by (cases j) (auto simp: drop_excerpt_def list_all_iff)

section \<open>Loops over proposals\<close>

lemma each_ok: "each f xs = Inr u \<longleftrightarrow> (\<forall>x\<in>set xs. f x = Inr ())"
proof -
  have "(\<exists>ys. map_res f xs = Inr ys) \<longleftrightarrow> (\<forall>x\<in>set xs. f x = Inr ())"
    by (induction xs) (auto simp: res_simps)
  then show ?thesis by (auto simp: each_def res_simps)
qed

lemma each_fails: "each f xs = Inl e \<Longrightarrow> \<exists>x\<in>set xs. f x = Inl e"
  by (induction xs) (auto simp: each_def res_simps)

text \<open>When every failure is the same, only the set of the items matters.\<close>

lemma each_one:
  assumes "\<And>x e'. f x = Inl e' \<Longrightarrow> e' = e"
  shows "each f xs = ai_guard (\<forall>x\<in>set xs. f x = Inr ()) e"
proof (cases "each f xs")
  case (Inl e')
  from each_fails [OF this] assms obtain x where "x \<in> set xs" "f x = Inl e'" "e' = e" by blast
  with Inl show ?thesis by (force simp: ai_guard_def)
next
  case (Inr u)
  then show ?thesis using each_ok [of f xs u] by (simp add: ai_guard_def)
qed

lemma each_guard: "each (\<lambda>x. ai_guard (P x) e) xs = ai_guard (\<forall>x\<in>set xs. P x) e"
  using each_one [of "\<lambda>x. ai_guard (P x) e" e xs] by simp

lemma each_same:
  assumes "set xs = set ys" "\<And>x e'. f x = Inl e' \<Longrightarrow> e' = e"
  shows "each f xs = each f ys"
  by (simp only: each_one [where e = e, OF assms(2)] assms(1))

lemma sort_key_set [simp]: "set (by_proposal xs) = set xs" "set (by_indicator xs) = set xs"
  by (simp_all add: by_proposal_def by_indicator_def)

section \<open>What is accepted\<close>

lemma at_key_drop: "k \<noteq> ''evidence_excerpt'' \<Longrightarrow> at_key (drop_excerpt j) k = at_key j k"
proof (cases j)
  case (JObj kvs)
  assume "k \<noteq> ''evidence_excerpt''"
  then have "map_of (filter (\<lambda>(k, _). k \<noteq> ''evidence_excerpt'') kvs) k = map_of kvs k"
    by (induction kvs) auto
  then show ?thesis by (simp add: JObj drop_excerpt_def at_key_def jget_def)
qed (simp_all add: drop_excerpt_def at_key_def)

text \<open>Anchored in the submitted text of the expected input, with an excerpt, if any, that is the anchored slice.\<close>

definition grounded :: "string \<Rightarrow> string \<Rightarrow> json \<Rightarrow> bool" where
  "grounded input normalized o' \<longleftrightarrow>
     at_key o' ''source_input_id'' = JStr input \<and>
     (\<exists>s e. whole (at_key o' ''start'') = Some s \<and> whole (at_key o' ''end'') = Some e \<and>
        0 \<le> s \<and> s < e \<and> e \<le> int (length normalized) \<and>
        (at_key o' ''evidence_excerpt'' = JNull \<or>
         at_key o' ''evidence_excerpt'' = JStr (take (nat (e - s)) (drop (nat s) normalized))))"

definition supported :: "runtime_knowledge \<Rightarrow> string \<Rightarrow> json list \<Rightarrow> json \<Rightarrow> bool" where
  "supported rk input observations i \<longleftrightarrow>
     at_key i ''input_id'' = JStr input \<and> known_indicator rk i \<and>
     set (texts_at i ''observation_refs'') \<subseteq> set (proposal_ids observations) \<and>
     (at_key i ''matched'' = JStr ''OBSERVED'' \<longrightarrow> texts_at i ''observation_refs'' \<noteq> [])"

lemma ground_ok: "ground normalized o' = Inr () \<Longrightarrow> at_key o' ''source_input_id'' = JStr input \<Longrightarrow> grounded input normalized o'"
  by (auto simp: ground_def grounded_def split: option.splits if_splits)

lemma check_proposals_ok:
  assumes "check_proposals rk input normalized obs inds = Inr ()"
  shows "distinct (proposal_ids obs)" "list_all (grounded input normalized) obs" "list_all (supported rk input obs) inds"
proof -
  from assms have c: "check_duplicate_ids obs inds = Inr ()" "check_correlation input obs inds = Inr ()"
      "check_membership rk inds = Inr ()" "check_references obs inds = Inr ()" "check_grounding normalized obs = Inr ()"
    by (auto simp: check_proposals_def res_simps)
  show "distinct (proposal_ids obs)" using c(1) by (auto simp: check_duplicate_ids_def res_simps)
  show "list_all (grounded input normalized) obs"
    using c(2,5) by (auto simp: check_correlation_def check_grounding_def each_ok list_all_iff res_simps intro!: ground_ok)
  show "list_all (supported rk input obs) inds"
    using c(2,3,4)
    by (auto simp: check_correlation_def check_membership_def check_references_def each_ok list_all_iff res_simps supported_def)
qed

text \<open>The stages of an accepted response.\<close>

lemma validate_ok:
  assumes "validate_ai_extraction loads raw request input inputs rk = Inr v"
  obtains data normalized where "loads (rw_text raw) = Some data" "rw_request_id raw = request" "ai_schema data"
    "decision_free data" "1 + nesting data \<le> MAX_JSON_NESTING_DEPTH" "map_of inputs input = Some normalized"
    "at_key data ''input_id'' = JStr input"
    "check_proposals rk input normalized (items_at data ''observations'') (items_at data ''indicators'') = Inr ()"
    "v = \<lparr>va_input = input, va_observations = map drop_excerpt (items_at data ''observations''),
          va_indicators = items_at data ''indicators''\<rparr>"
  using assms
  by (auto simp: validate_ai_extraction_def Let_def res_simps parse_payload_def bind_input_def check_depth_exact
      scan_forbidden_exact split: option.splits if_splits)

text \<open>All of it in one statement, over what the caller gets.\<close>

definition acceptable ::
    "runtime_knowledge \<Rightarrow> string \<Rightarrow> string \<Rightarrow> validated_extraction \<Rightarrow> bool" where
  "acceptable rk input normalized v \<longleftrightarrow>
     va_input v = input \<and>
     list_all decision_free (va_observations v @ va_indicators v) \<and>
     distinct (proposal_ids (va_observations v)) \<and>
     list_all (grounded input normalized) (va_observations v) \<and>
     list_all (supported rk input (va_observations v)) (va_indicators v)"

lemma proposal_ids_drop [simp]: "proposal_ids (map drop_excerpt obs) = proposal_ids obs"
  by (simp add: proposal_ids_def text_at_def at_key_drop comp_def)

lemma supported_drop [simp]: "supported rk input (map drop_excerpt obs) = supported rk input obs"
  by (rule ext) (simp add: supported_def)

lemma at_excerpt_drop: "at_key (drop_excerpt o') ''evidence_excerpt'' = JNull"
proof (cases o')
  case (JObj kvs)
  have "map_of (filter (\<lambda>(k, _). k \<noteq> ''evidence_excerpt'') kvs) ''evidence_excerpt'' = None"
    by (induction kvs) auto
  then show ?thesis by (simp add: JObj drop_excerpt_def at_key_def jget_def)
qed (simp_all add: drop_excerpt_def at_key_def)

lemma grounded_drop: "grounded input normalized o' \<Longrightarrow> grounded input normalized (drop_excerpt o')"
  unfolding grounded_def by (auto simp: at_key_drop at_excerpt_drop)

lemma validated_acceptable:
  assumes "validate_ai_extraction loads raw request input inputs rk = Inr v"
  shows "\<exists>normalized. map_of inputs input = Some normalized \<and> acceptable rk input normalized v"
proof -
  from assms obtain data normalized where d: "decision_free data" "map_of inputs input = Some normalized"
    "check_proposals rk input normalized (items_at data ''observations'') (items_at data ''indicators'') = Inr ()"
    "v = \<lparr>va_input = input, va_observations = map drop_excerpt (items_at data ''observations''),
          va_indicators = items_at data ''indicators''\<rparr>"
    by (rule validate_ok)
  have "acceptable rk input normalized v"
    using check_proposals_ok [OF d(3)] decision_free_items [OF d(1)]
    by (auto simp: acceptable_def d(4) list_all_iff intro: decision_free_drop grounded_drop)
  with d(2) show ?thesis by blast
qed

text \<open>The same over the response itself, where the excerpts still are.\<close>

lemma validated_from:
  assumes "validate_ai_extraction loads raw request input inputs rk = Inr v"
  shows "\<exists>data normalized. loads (rw_text raw) = Some data \<and> map_of inputs input = Some normalized \<and>
    va_observations v = map drop_excerpt (items_at data ''observations'') \<and> va_indicators v = items_at data ''indicators'' \<and>
    list_all (grounded input normalized) (items_at data ''observations'') \<and>
    list_all (supported rk input (va_observations v)) (va_indicators v) \<and>
    list_all decision_free (va_observations v @ va_indicators v)"
proof -
  from assms obtain data normalized where d: "loads (rw_text raw) = Some data" "decision_free data"
    "map_of inputs input = Some normalized"
    "check_proposals rk input normalized (items_at data ''observations'') (items_at data ''indicators'') = Inr ()"
    "v = \<lparr>va_input = input, va_observations = map drop_excerpt (items_at data ''observations''),
          va_indicators = items_at data ''indicators''\<rparr>"
    by (rule validate_ok)
  show ?thesis using d(1,3) check_proposals_ok [OF d(4)] decision_free_items [OF d(2)]
    by (auto simp: d(5) list_all_iff intro: decision_free_drop)
qed

section \<open>How a response is refused\<close>

definition float_excerpt :: "json \<Rightarrow> bool" where
  "float_excerpt o' \<longleftrightarrow>
     (is_float (at_key o' ''start'') \<or> is_float (at_key o' ''end'')) \<and> at_key o' ''evidence_excerpt'' \<noteq> JNull"

lemma ground_fails:
  "ground normalized o' = Inl e \<Longrightarrow>
     e = AIGroundingFailedError \<or> e = Raised (TypeError ''slice indices must be integers'') \<and> float_excerpt o'"
  by (auto simp: ground_def float_excerpt_def split: option.splits if_splits)

lemma references_fail:
  "rbind (each (\<lambda>ref. ai_guard (ref \<in> R) AIReferenceInvalidError) refs)
     (\<lambda>_. ai_guard P AIReferenceInvalidError) = Inl e \<Longrightarrow> e = AIReferenceInvalidError"
  by (auto simp: res_simps dest: each_fails)

lemma check_proposals_fails:
  assumes "check_proposals rk input normalized obs inds = Inl e"
  shows "validation_error e \<or>
    e = Raised (TypeError ''slice indices must be integers'') \<and> (\<exists>o'\<in>set obs. float_excerpt o')"
proof -
  have "e = AIReferenceInvalidError \<or> e = AIUnknownIndicatorError \<or> check_grounding normalized obs = Inl e"
    using assms
    by (auto simp: check_proposals_def check_duplicate_ids_def check_correlation_def check_membership_def
        check_references_def res_simps dest!: each_fails dest: references_fail)
  then show ?thesis
    by (auto simp: check_grounding_def validation_error_def dest!: each_fails ground_fails)
qed

lemma validate_fails:
  assumes "validate_ai_extraction loads raw request input inputs rk = Inl e" "request \<noteq> []" "input \<noteq> []"
  shows "validation_error e \<or> e = Raised (TypeError ''slice indices must be integers'') \<and>
    (\<exists>data. loads (rw_text raw) = Some data \<and> (\<exists>o'\<in>set (items_at data ''observations''). float_excerpt o'))"
  using assms
  by (auto simp: validate_ai_extraction_def Let_def res_simps parse_payload_def bind_input_def check_depth_exact
      scan_forbidden_exact validation_error_def split: option.splits if_splits dest!: check_proposals_fails)

section \<open>Order of the proposals\<close>

lemma by_proposal_perm:
  assumes "mset obs = mset obs'" "distinct (proposal_ids obs)"
  shows "by_proposal obs = by_proposal obs'"
  unfolding by_proposal_def
proof (rule sort_key_inj_key_eq)
  show "mset obs = mset (sort_key (\<lambda>o'. text_at o' ''proposal_id'') obs')" using assms(1) by simp
  show "inj_on (\<lambda>o'. text_at o' ''proposal_id'') (set obs)"
    using assms(2) by (simp add: proposal_ids_def distinct_map)
qed simp

lemma distinct_ids_perm:
  assumes "mset xs = mset ys"
  shows "distinct (proposal_ids xs) = distinct (proposal_ids ys)"
proof (rule mset_eq_imp_distinct_iff)
  show "mset (proposal_ids xs) = mset (proposal_ids ys)" using assms by (simp add: proposal_ids_def)
qed

lemma check_proposals_perm:
  assumes "mset obs = mset obs'" "mset inds = mset inds'"
  shows "check_proposals rk input normalized obs inds = check_proposals rk input normalized obs' inds'"
proof -
  have sets: "set obs = set obs'" "set inds = set inds'" by (rule mset_eq_setD, rule assms)+
  then have ids: "set (proposal_ids obs) = set (proposal_ids obs')" by (simp add: proposal_ids_def)
  have "check_duplicate_ids obs inds = check_duplicate_ids obs' inds'"
    using distinct_ids_perm [OF assms(1)] distinct_ids_perm [of "filter P inds" "filter P inds'" for P] assms(2)
    by (simp add: check_duplicate_ids_def)
  moreover have "check_correlation input obs inds = check_correlation input obs' inds'"
    using sets by (simp add: check_correlation_def each_guard)
  moreover have "check_membership rk inds = check_membership rk inds'"
    unfolding check_membership_def by (rule each_same [where e = AIUnknownIndicatorError]) (use sets in auto)
  moreover have "check_references obs inds = check_references obs' inds'"
    unfolding check_references_def ids
    by (rule each_same [where e = AIReferenceInvalidError]) (use sets references_fail in auto)
  moreover have "check_grounding normalized obs = check_grounding normalized obs'" if "distinct (proposal_ids obs)"
    using by_proposal_perm [OF assms(1) that] by (simp add: check_grounding_def)
  moreover have "check_duplicate_ids obs' inds' = Inl AIReferenceInvalidError" if "\<not> distinct (proposal_ids obs)"
    using that distinct_ids_perm [OF assms(1)] by (simp add: check_duplicate_ids_def ai_guard_def)
  ultimately show ?thesis by (cases "distinct (proposal_ids obs)") (simp_all add: check_proposals_def)
qed

section \<open>Sample responses\<close>

text \<open>A response with one grounded observation and one indicator; the offsets and the excerpt are arguments.\<close>

definition sample_proposal :: "json \<Rightarrow> json \<Rightarrow> (string \<times> json) list \<Rightarrow> json" where
  "sample_proposal start stop excerpt =
     JObj ([(''proposal_id'', JStr ''p1''), (''observation_type'', JStr ''CLAIM''), (''status'', JStr ''OBSERVED''),
        (''polarity'', JStr ''AFFIRMED''), (''attribution'', JStr ''FIRST_PARTY''), (''mood'', JStr ''DIRECTIVE''),
        (''source_input_id'', JStr ''in-1''), (''start'', start), (''end'', stop)] @ excerpt)"

definition sample_indicator_proposal :: json where
  "sample_indicator_proposal =
     JObj [(''indicator_id'', JStr ''IND_A''), (''polarity'', JStr ''POSITIVE''), (''matched'', JStr ''OBSERVED''),
       (''observation_refs'', JArr [JStr ''p1'']), (''input_id'', JStr ''in-1'')]"

definition sample_response :: "json list \<Rightarrow> json list \<Rightarrow> json" where
  "sample_response obs inds =
     JObj [(''ai_extraction_version'', JStr ''1.0.0''), (''input_id'', JStr ''in-1''), (''observations'', JArr obs),
       (''indicators'', JArr inds)]"

text \<open>The text of the response is a name for what it parses to.\<close>

definition sample_loads :: "string \<Rightarrow> json option" where
  "sample_loads t =
     (if t = ''good'' then Some (sample_response
         [sample_proposal (JInt 0) (JInt 4) [(''evidence_excerpt'', JStr ''send'')]] [sample_indicator_proposal])
      else if t = ''float'' then Some (sample_response
         [sample_proposal (JFloat ''0.0'') (JFloat ''4.0'') [(''evidence_excerpt'', JStr ''send'')]] [])
      else None)"

definition sample_raw :: "string \<Rightarrow> raw_response" where
  "sample_raw t = \<lparr>rw_request_id = ''req-1'', rw_text = t\<rparr>"

end
