(* ===== verification/AiIntegrationProps.thy ===== *)
theory AiIntegrationProps
  imports AiIntegration AiValidationProps
begin

text \<open>
  Optional AI: a failed or unused extraction leaves the deterministic evaluation of the host's data; an
  accepted one only adds observations and indicators that are grounded, known and capped; and the snapshot
  pins what the engine consumed.
\<close>

section \<open>Case distinctions as equations\<close>

lemma case_sum_eq: "(case x of Inl a \<Rightarrow> f a | Inr b \<Rightarrow> g b) = y \<longleftrightarrow> (\<exists>a. x = Inl a \<and> f a = y) \<or> (\<exists>b. x = Inr b \<and> g b = y)"
  by (cases x) auto

lemma case_option_eq: "(case x of None \<Rightarrow> n | Some a \<Rightarrow> f a) = y \<longleftrightarrow> x = None \<and> n = y \<or> (\<exists>a. x = Some a \<and> f a = y)"
  by (cases x) auto

lemma case_reply_eq:
  "(case x of Reply r \<Rightarrow> f r | Foreign \<Rightarrow> g) = y \<longleftrightarrow> (\<exists>r. x = Reply r \<and> f r = y) \<or> x = Foreign \<and> g = y"
  by (cases x) auto

lemma case_str_eq:
  "(case j of JStr s \<Rightarrow> f s | _ \<Rightarrow> Inl e) = Inr y \<longleftrightarrow> (\<exists>s. j = JStr s \<and> f s = Inr y)"
  by (cases j) auto

lemmas case_eqs = case_sum_eq case_option_eq case_reply_eq case_str_eq

section \<open>Prepared extractions\<close>

lemma make_capped_ok:
  "make_capped collection index pid st = Inr c \<Longrightarrow> JStr (cp_state c) = st \<and> cp_state c \<in> set STATE_NAMES"
  unfolding make_capped_def rbind_eq_Inr case_str_eq by (auto split: if_splits)

lemma capped_levels: "capped_level c = ''LOW'' \<or> capped_level c = ''MEDIUM''"
  by (simp add: capped_level_def)

lemma cap_all_length: "cap_all collection key items = Inr cs \<Longrightarrow> length cs = length items"
  by (auto simp: cap_all_def dest: map_res_length)

lemma prepare_ok:
  assumes "prepare_ai_extraction v pq run_id eid = Inr (px, audit)"
  shows "px_extraction px = v" "px_config px = pq_config pq" "xe_extraction audit = v" "xe_config audit = pq_config pq"
    "va_input v = xr_input_id (pq_request pq)" "length (px_observations px) = length (va_observations v)"
    "length (px_indicators px) = length (va_indicators v)"
  using assms
  by (auto simp: prepare_ai_extraction_def make_prepared_def new_extraction_result_def res_simps cap_all_length)

section \<open>The contribution\<close>

text \<open>
  A contributed observation has the structure and the anchor of a proposal, at most medium confidence and the
  provenance of the configured adapter; a contributed indicator likewise.
\<close>

definition capped_item :: "json \<Rightarrow> bool" where
  "capped_item j \<longleftrightarrow> at_key (at_key j ''confidence'') ''level'' \<in> {JStr ''LOW'', JStr ''MEDIUM''}"

definition extracted_item :: "(string \<Rightarrow> string) \<Rightarrow> ai_config \<Rightarrow> json \<Rightarrow> bool" where
  "extracted_item sha c j \<longleftrightarrow> provenance_dict sha c = Inr (at_key j ''provenance'')"

definition copied :: "string list \<Rightarrow> json \<Rightarrow> json \<Rightarrow> bool" where
  "copied ks j p \<longleftrightarrow> list_all (\<lambda>k. at_key j k = at_key p k) ks"

definition contributed_observation :: "(string \<Rightarrow> string) \<Rightarrow> ai_config \<Rightarrow> json \<Rightarrow> json \<Rightarrow> bool" where
  "contributed_observation sha c p j \<longleftrightarrow>
     copied [''observation_type'', ''source_input_id'', ''status'', ''polarity'', ''attribution'', ''mood''] j p \<and>
     at_key j ''offsets'' = JObj [(''start'', at_key p ''start''), (''end'', at_key p ''end'')] \<and>
     capped_item j \<and> extracted_item sha c j"

definition contributed_indicator :: "(string \<Rightarrow> string) \<Rightarrow> ai_config \<Rightarrow> json \<Rightarrow> json \<Rightarrow> bool" where
  "contributed_indicator sha c p j \<longleftrightarrow>
     copied [''indicator_id'', ''polarity'', ''matched'', ''input_id''] j p \<and> capped_item j \<and> extracted_item sha c j"

lemma map_observation_ok:
  "map_observation sha run c (p, cap) = Inr (pid, oid, j) \<Longrightarrow>
     contributed_observation sha c p j \<and> at_key j ''observation_id'' = JStr oid \<and> pid = text_at p ''proposal_id''"
  using capped_levels [of cap]
  by (auto simp: map_observation_def res_simps contributed_observation_def copied_def capped_item_def extracted_item_def
      at_key_def [of "JObj _"] jget_def)

lemma map_indicator_ok:
  "map_indicator sha refs c (p, cap) = Inr j \<Longrightarrow> contributed_indicator sha c p j"
  using capped_levels [of cap]
  by (auto simp: map_indicator_def res_simps contributed_indicator_def copied_def capped_item_def extracted_item_def
      at_key_def [of "JObj _"] jget_def)

lemma map_ai_ok:
  assumes "map_ai sha io_ok obs_ok px run h = Inr (obs, inds)"
    and "length (px_observations px) = length (va_observations (px_extraction px))"
    and "length (px_indicators px) = length (va_indicators (px_extraction px))"
  shows "list_all2 (contributed_observation sha (px_config px)) (va_observations (px_extraction px)) obs"
    "list_all2 (contributed_indicator sha (px_config px)) (va_indicators (px_extraction px)) inds"
    "\<exists>ctx. build_validated_context io_ok obs_ok (PSeq (map pyval_of inds)) (PSeq (map pyval_of obs)) ''en'' ''Latn'' = Inr ctx"
proof -
  let ?v = "px_extraction px"
  from assms(1) obtain mapped refs where m:
      "map_res (map_observation sha run (px_config px)) (zip (va_observations ?v) (px_observations px)) = Inr mapped"
      "map_res (map_indicator sha refs (px_config px)) (zip (va_indicators ?v) (px_indicators px)) = Inr inds"
      "obs = map (\<lambda>(_, _, o'). o') mapped"
      "\<exists>ctx. build_validated_context io_ok obs_ok (PSeq (map pyval_of inds)) (PSeq (map pyval_of obs)) ''en'' ''Latn'' = Inr ctx"
    by (auto simp: map_ai_def Let_def res_simps case_eqs)
  show "\<exists>ctx. build_validated_context io_ok obs_ok (PSeq (map pyval_of inds)) (PSeq (map pyval_of obs)) ''en'' ''Latn'' = Inr ctx"
    by (rule m(4))
  from m(1) have "list_all2 (\<lambda>pc x. map_observation sha run (px_config px) pc = Inr x)
      (zip (va_observations ?v) (px_observations px)) mapped"
    by (simp add: map_res_Inr_iff)
  then show "list_all2 (contributed_observation sha (px_config px)) (va_observations ?v) obs"
    using assms(2) map_observation_ok unfolding m(3) list_all2_conv_all_nth
    by (fastforce split: prod.splits)
  from m(2) have "list_all2 (\<lambda>pc x. map_indicator sha refs (px_config px) pc = Inr x)
      (zip (va_indicators ?v) (px_indicators px)) inds"
    by (simp add: map_res_Inr_iff)
  then show "list_all2 (contributed_indicator sha (px_config px)) (va_indicators ?v) inds"
    using assms(3) map_indicator_ok unfolding list_all2_conv_all_nth by fastforce
qed

section \<open>Accepted extractions\<close>

lemma prepare_request_ok:
  assumes "prepare_ai_request config rid iid content = Inr pq"
  shows "iid = JStr (xr_input_id (pq_request pq))" "content = Some (xr_content (pq_request pq))"
    "rid = Some (xr_request_id (pq_request pq))" "config = Some (pq_config pq)" "valid_id (xr_request_id (pq_request pq))"
    "valid_id (xr_input_id (pq_request pq))"
  using assms
  by (auto simp: prepare_ai_request_def make_request_def res_simps split: option.splits json.splits sum.splits if_splits)

lemma accepted_ok:
  assumes "attempt_ai lib rk call h = Inr (Inr (a, sn))"
  obtains input content c v obs inds audit where "hi_input_id h = JStr input" "ac_content call = Some content"
    "ac_config call = Some c" "acceptable rk input content v" "a = combined h obs inds"
    "list_all2 (contributed_observation (al_sha256 lib) c) (va_observations v) obs"
    "list_all2 (contributed_indicator (al_sha256 lib) c) (va_indicators v) inds"
    "xe_extraction audit = v" "xe_config audit = c"
    "pin_replay_snapshot (al_sha256 lib) audit (host_dict a) (md_content_digest (rk_meta rk)) ENGINE_VERSION
       (pf_profile_id DEFAULT_PROFILE) = Inr sn"
proof -
  from assms obtain pq ext raw where
      pq: "prepare_ai_request (ac_config call) (ac_request_id call) (hi_input_id h) (ac_content call) = Inr pq"
    and acc: "accept_response lib rk call pq h raw = Inr (a, sn)"
    by (auto simp: attempt_ai_def res_simps case_eqs)
  let ?r = "pq_request pq"
  from acc obtain v px audit obs inds where
      v: "validate_ai_extraction (al_loads lib) raw (xr_request_id ?r) (xr_input_id ?r) [(xr_input_id ?r, xr_content ?r)] rk = Inr v"
    and px: "prepare_ai_extraction v pq (ac_run_id call) (hi_evaluation_id h) = Inr (px, audit)"
    and m: "map_ai (al_sha256 lib) (al_io_ok lib) (al_obs_ok lib) px (xe_run_id audit) h = Inr (obs, inds)"
    and pin: "pin_replay_snapshot (al_sha256 lib) audit (host_dict (combined h obs inds))
       (md_content_digest (rk_meta rk)) ENGINE_VERSION (pf_profile_id DEFAULT_PROFILE) = Inr sn"
    and a: "a = combined h obs inds"
    by (auto simp: accept_response_def Let_def res_simps)
  note p = prepare_ok [OF px] and q = prepare_request_ok [OF pq]
  have "acceptable rk (xr_input_id ?r) (xr_content ?r) v" using validated_acceptable [OF v] by simp
  moreover have "list_all2 (contributed_observation (al_sha256 lib) (pq_config pq)) (va_observations v) obs"
    "list_all2 (contributed_indicator (al_sha256 lib) (pq_config pq)) (va_indicators v) inds"
    using map_ai_ok [OF m] p by simp_all
  ultimately show ?thesis using that [of _ _ "pq_config pq" v obs inds audit] q p a pin by blast
qed

lemma caught_Inr: "caught r = Inr (Inr x) \<longleftrightarrow> r = Inr (Inr x)"
  by (auto simp: caught_def split: sum.splits if_splits)

lemma caught_Inl: "caught r = Inl e \<Longrightarrow> r = Inl e \<and> \<not> provider_error e \<and> \<not> validation_error e \<and> \<not> governance_error e \<and> e \<noteq> AIMappingError"
  by (auto simp: caught_def split: sum.splits if_splits)

section \<open>Pinning\<close>

lemma make_snapshot_ok: "make_snapshot sha sn = Inr sn' \<longleftrightarrow> is_object (sn_artifact sn) \<and>
    (\<exists>t. canonical_json (sn_artifact sn) = Inr t) \<and> verify_snapshot sha sn = Inr () \<and> sn' = sn"
  by (cases "sn_artifact sn"; cases "canonical_json (sn_artifact sn)")
    (auto simp: make_snapshot_def is_object_def res_simps)

lemma pin_ok:
  assumes "pin_replay_snapshot sha x artifact content eng profile = Inr sn"
  shows "verify_snapshot sha sn = Inr ()" "sn_result sn = x" "sn_artifact sn = artifact" "sn_content_digest sn = content"
    "sn_engine_version sn = eng" "sn_profile sn = profile" "is_object artifact"
  using assms by (auto simp: pin_replay_snapshot_def Let_def res_simps make_snapshot_ok)

section \<open>Outcomes\<close>

lemma outcome_cases:
  assumes "evaluate_with_optional_ai lib engine rk enabled call h = Inr oc"
  obtains reason where "optional_ai lib rk enabled call h = Inr (Inl reason)" "oc_reason oc = Some reason"
      "oc_artifact oc = h" "oc_replay oc = None" "engine h = Inr (oc_detection oc)"
  | a sn where "optional_ai lib rk enabled call h = Inr (Inr (a, sn))" "oc_reason oc = None" "oc_artifact oc = a"
      "oc_replay oc = Some sn" "engine a = Inr (oc_detection oc)" "enabled" "host_evaluable h"
      "attempt_ai lib rk call h = Inr (Inr (a, sn))"
proof -
  from assms obtain path where path: "optional_ai lib rk enabled call h = Inr path"
    by (auto simp: evaluate_with_optional_ai_def res_simps)
  show ?thesis
  proof (cases path)
    case (Inl reason)
    with assms path show ?thesis
      by (auto simp: evaluate_with_optional_ai_def res_simps split: sum.splits intro: that(1))
  next
    case (Inr x)
    obtain a sn where x: "x = (a, sn)" by (cases x)
    have "enabled" "host_evaluable h" "attempt_ai lib rk call h = Inr (Inr (a, sn))"
      using path unfolding Inr x optional_ai_def by (auto simp: caught_Inr split: if_splits)
    with assms path Inr x show ?thesis
      by (auto simp: evaluate_with_optional_ai_def res_simps split: sum.splits intro: that(2))
  qed
qed

text \<open>With one, the engine consumed the host's data and the contribution of the accepted proposals.\<close>

lemma accepted_evidence:
  assumes "evaluate_with_optional_ai lib engine rk enabled call h = Inr oc" "oc_replay oc = Some sn"
  shows "\<exists>input content c v obs inds. hi_input_id h = JStr input \<and> ac_content call = Some content \<and>
    ac_config call = Some c \<and> acceptable rk input content v \<and> oc_artifact oc = combined h obs inds \<and>
    list_all2 (contributed_observation (al_sha256 lib) c) (va_observations v) obs \<and>
    list_all2 (contributed_indicator (al_sha256 lib) c) (va_indicators v) inds \<and>
    enabled \<and> host_evaluable h \<and> sn_artifact sn = host_dict (oc_artifact oc) \<and> engine (oc_artifact oc) = Inr (oc_detection oc)"
  using assms(1)
proof (cases rule: outcome_cases)
  case (1 reason)
  with assms(2) show ?thesis by simp
next
  case (2 a sn')
  have sn: "sn' = sn" using 2(4) assms(2) by simp
  from accepted_ok [OF 2(8)] obtain input content c v obs inds audit where o: "hi_input_id h = JStr input"
    "ac_content call = Some content" "ac_config call = Some c" "acceptable rk input content v" "a = combined h obs inds"
    "list_all2 (contributed_observation (al_sha256 lib) c) (va_observations v) obs"
    "list_all2 (contributed_indicator (al_sha256 lib) c) (va_indicators v) inds"
    "pin_replay_snapshot (al_sha256 lib) audit (host_dict a) (md_content_digest (rk_meta rk)) ENGINE_VERSION
       (pf_profile_id DEFAULT_PROFILE) = Inr sn'" by metis
  have "sn_artifact sn = host_dict a" using pin_ok(3) [OF o(8)] sn by simp
  then show ?thesis unfolding 2(3) using o(1-7) 2(5,6,7) by blast
qed

text \<open>Without an accepted extraction the outcome is the one with the AI switched off.\<close>

lemma fallback_deterministic:
  assumes "evaluate_with_optional_ai lib engine rk enabled call h = Inr oc" "oc_replay oc = None"
  shows "evaluate_with_optional_ai lib engine rk False call h = Inr (oc\<lparr>oc_attempted := False, oc_reason := Some AI_DISABLED\<rparr>)"
  using assms(1)
proof (cases rule: outcome_cases)
  case (1 reason)
  moreover have "(case canonical_json (host_dict h) of Inl _ \<Rightarrow> Inl AIIntegrationInputError | Inr _ \<Rightarrow> Inr ()) = Inr ()"
    using assms(1) by (auto simp: evaluate_with_optional_ai_def res_simps)
  ultimately show ?thesis
    by (cases oc) (simp add: evaluate_with_optional_ai_def optional_ai_def)
next
  case 2
  with assms(2) show ?thesis by simp
qed

text \<open>What leaves the function: the input error, or an exception of the provider or of the engine.\<close>

lemma evaluation_fails:
  assumes "evaluate_with_optional_ai lib engine rk enabled call h = Inl e"
  shows "e = AIIntegrationInputError \<or> (\<exists>a x. engine a = Inl x \<and> e = Raised x) \<or>
    (attempt_ai lib rk call h = Inl e \<and> \<not> provider_error e \<and> \<not> validation_error e \<and> \<not> governance_error e \<and>
       e \<noteq> AIMappingError)"
  using assms
  by (auto simp: evaluate_with_optional_ai_def optional_ai_def Let_def res_simps case_eqs dest!: caught_Inl split: if_splits)

section \<open>Failures of the attempt\<close>

lemma map_res_fails: "map_res f xs = Inl e \<Longrightarrow> \<exists>x\<in>set xs. f x = Inl e"
  by (induction xs) (auto simp: res_simps)

lemma snapshot_faults:
  "canonical_json_snapshot v = Inl x \<Longrightarrow> mapped_fault x = AIMappingError"
  "snapshot_items items out = Inl x \<Longrightarrow> mapped_fault x = AIMappingError"
  by (induction v and items out rule: canonical_json_snapshot_snapshot_items.induct)
    (auto simp: res_simps mapped_fault_def dest!: map_res_fails split: pyval.splits)

lemma optional_str_fault: "optional_str d k = Inl x \<Longrightarrow> mapped_fault x = AIMappingError"
  by (auto simp: optional_str_def require_str_def res_simps mapped_fault_def split: json.splits)

lemma require_fault: "require_str k v = Inl x \<Longrightarrow> mapped_fault x = AIMappingError"
  "require_enum tab k v = Inl x \<Longrightarrow> mapped_fault x = AIMappingError"
  by (auto simp: require_str_def require_enum_def mapped_fault_def split: json.splits option.splits)

lemma enum_or_fault: "enum_or tab dflt d k = Inl x \<Longrightarrow> mapped_fault x = AIMappingError"
  by (auto simp: enum_or_def split: option.splits dest: require_fault)

lemma array_fault: "str_array v = Inl x \<Longrightarrow> mapped_fault x = AIMappingError"
  "any_array v = Inl x \<Longrightarrow> mapped_fault x = AIMappingError"
  by (auto simp: str_array_def any_array_def mapped_fault_def dest!: map_res_fails require_fault split: json.splits if_splits)

lemma confidence_fault: "decode_confidence d = Inl x \<Longrightarrow> mapped_fault x = AIMappingError"
  by (auto simp: decode_confidence_def Let_def res_simps dest!: require_fault split: json.splits)

lemma key_fault: "mapped_fault (KeyError m) = AIMappingError" "mapped_fault (ValueError m) = AIMappingError"
  by (simp_all add: mapped_fault_def)

lemma decode_faults:
  "decode_indicator_observation d = Inl x \<Longrightarrow> mapped_fault x = AIMappingError"
  "observation_from_dict d = Inl x \<Longrightarrow> mapped_fault x = AIMappingError"
  by (auto simp: decode_indicator_observation_def observation_from_dict_def Let_def res_simps case_option_eq key_fault
      dest: require_fault optional_str_fault enum_or_fault array_fault confidence_fault)

lemma decode_observations_fault: "decode_observations obs_ok raws out = Inl x \<Longrightarrow> mapped_fault x = AIMappingError"
proof (induction obs_ok raws out rule: decode_observations.induct)
  case (2 obs_ok raw raws out)
  then show ?case by (cases raw) (auto simp: res_simps key_fault dest: decode_faults)
qed simp

lemma decode_indicators_fault: "decode_indicators io_ok raws = Inl x \<Longrightarrow> mapped_fault x = AIMappingError"
proof (induction io_ok raws rule: decode_indicators.induct)
  case (2 io_ok raw raws)
  then show ?case by (cases raw) (auto simp: res_simps key_fault dest: decode_faults)
qed simp

lemma check_ref_fault: "check_ref obs io ref = Inl x \<Longrightarrow> mapped_fault x = AIMappingError"
  by (auto simp: check_ref_def res_simps key_fault split: option.splits)

lemma context_fault:
  "build_validated_context io_ok obs_ok (PSeq inds) (PSeq obs) l s = Inl x \<Longrightarrow> mapped_fault x = AIMappingError"
  by (auto simp: build_validated_context_def snapshot_list_def res_simps key_fault
      dest!: map_res_fails dest: snapshot_faults decode_observations_fault decode_indicators_fault check_ref_fault)

lemma digest_fails: "canonical_digest sha v = Inl e \<Longrightarrow> e = AIProvenanceInvalidError"
  by (auto simp: canonical_digest_def res_simps dest: canonical_json_fails)

lemma provenance_fails: "provenance_dict sha c = Inl e \<Longrightarrow> e = AIProvenanceInvalidError"
  by (auto simp: provenance_dict_def config_ref_def res_simps dest: digest_fails)

lemma request_fails: "prepare_ai_request config rid iid content = Inl e \<Longrightarrow> governance_error e"
  by (auto simp: prepare_ai_request_def res_simps governance_error_def case_eqs)

lemma capped_fails: "make_capped collection index pid st = Inl e \<Longrightarrow> e = AIProvenanceInvalidError"
  by (cases pid; cases st) (auto simp: make_capped_def check_identifier_def res_simps split: if_splits)

lemma prepare_fails: "prepare_ai_extraction v pq run_id eid = Inl e \<Longrightarrow> governance_error e"
  by (auto simp: prepare_ai_extraction_def make_prepared_def new_extraction_result_def cap_all_def check_identifier_def
      governance_error_def res_simps dest!: canonical_json_fails map_res_fails capped_fails copy_fails(1)
      split: json.splits option.splits if_splits)

lemma map_ai_fails: "map_ai sha io_ok obs_ok px run h = Inl e \<Longrightarrow> e = AIMappingError \<or> governance_error e"
  by (auto simp: map_ai_def Let_def res_simps map_observation_def map_indicator_def observation_id_def governance_error_def
      case_eqs dest!: map_res_fails digest_fails provenance_fails dest: context_fault)

lemma material_fails: "snapshot_material sha sn = Inl e \<Longrightarrow> e = AIProvenanceInvalidError"
  by (auto simp: snapshot_material_def result_dict_def config_ref_def res_simps dest: digest_fails)

lemma make_snapshot_fails: "make_snapshot sha sn = Inl e \<Longrightarrow> e = AIReplayIntegrityError"
  by (auto simp: make_snapshot_def verify_snapshot_def res_simps split: json.splits sum.splits)

lemma pin_fails: "pin_replay_snapshot sha x artifact content eng profile = Inl e \<Longrightarrow> governance_error e"
  by (auto simp: pin_replay_snapshot_def Let_def governance_error_def res_simps
      dest!: material_fails digest_fails make_snapshot_fails copy_fails(1) split: json.splits)

lemma valid_id_nonempty: "valid_id s \<Longrightarrow> s \<noteq> []"
  by (auto simp: valid_id_def)

text \<open>Only an exception of the provider, or a slice with a float, is none of the AI errors.\<close>

lemma attempt_fails:
  assumes "attempt_ai lib rk call h = Inl e"
    and "\<not> provider_error e" "\<not> validation_error e" "\<not> governance_error e" "e \<noteq> AIMappingError"
  shows "(\<exists>ext r. ac_provider call = Some ext \<and> ext r = Inl e) \<or> e = Raised (TypeError ''slice indices must be integers'')"
proof -
  have v: "validation_error e \<or> e = Raised (TypeError ''slice indices must be integers'')"
    if "prepare_ai_request (ac_config call) (ac_request_id call) (hi_input_id h) (ac_content call) = Inr pq"
      "validate_ai_extraction (al_loads lib) raw (xr_request_id (pq_request pq)) (xr_input_id (pq_request pq)) inputs rk = Inl e"
    for pq raw inputs
    using validate_fails [OF that(2)] prepare_request_ok(5,6) [OF that(1)] valid_id_nonempty by blast
  from assms show ?thesis
    by (auto simp: attempt_ai_def accept_response_def Let_def res_simps case_eqs
        dest: v request_fails prepare_fails map_ai_fails pin_fails)
qed

section \<open>Snapshots\<close>

lemma verified_snapshot:
  assumes "verify_snapshot sha sn = Inr ()"
  obtains m h where "snapshot_material sha sn = Inr m" "canonical_digest sha m = Inr (sn_digest sn)"
    "canonical_digest sha (sn_artifact sn) = Inr h" "sealed sha (sn_result sn)" "digest_text (sn_digest sn)"
  using assms by (auto simp: verify_snapshot_def res_simps case_eqs split: sum.splits)

text \<open>What two snapshots with one digest agree on.\<close>

definition same_replay :: "snapshot \<Rightarrow> snapshot \<Rightarrow> bool" where
  "same_replay a b \<longleftrightarrow>
     sort_keys (sn_artifact a) = sort_keys (sn_artifact b) \<and> sn_content_digest a = sn_content_digest b \<and>
     sn_engine_version a = sn_engine_version b \<and> sn_profile a = sn_profile b \<and>
     xe_run_id (sn_result a) = xe_run_id (sn_result b) \<and>
     xe_evaluation_id (sn_result a) = xe_evaluation_id (sn_result b) \<and>
     sort_keys (config_dict (xe_config (sn_result a))) = sort_keys (config_dict (xe_config (sn_result b))) \<and>
     sort_keys (extraction_dict (xe_extraction (sn_result a))) = sort_keys (extraction_dict (xe_extraction (sn_result b)))"

text \<open>SHA-256 does not collide on the canonical texts of the two materials.\<close>

definition material_hash_sound :: "(string \<Rightarrow> string) \<Rightarrow> snapshot \<Rightarrow> snapshot \<Rightarrow> bool" where
  "material_hash_sound sha a b \<longleftrightarrow>
     (case (snapshot_material sha a, snapshot_material sha b) of
        (Inr m, Inr m') \<Rightarrow> inj_on sha {canonical_text m, canonical_text m'}
      | _ \<Rightarrow> False)"

lemma material_same:
  assumes "snapshot_material sha a = Inr m" "snapshot_material sha b = Inr m'" "sort_keys m = sort_keys m'"
  shows "same_replay a b"
proof -
  obtain ra ha rb hb where
      a: "result_dict sha (sn_result a) = Inr ra" "m = JObj [(''snapshot_version'', JStr ''1.0.0''), (''extraction_result'', ra),
         (''governed_artifact'', sn_artifact a), (''governed_artifact_digest'', JStr ha),
         (''content_digest'', JStr (sn_content_digest a)), (''engine_version'', JStr (sn_engine_version a)),
         (''profile'', JStr (sn_profile a))]"
    and b: "result_dict sha (sn_result b) = Inr rb" "m' = JObj [(''snapshot_version'', JStr ''1.0.0''), (''extraction_result'', rb),
         (''governed_artifact'', sn_artifact b), (''governed_artifact_digest'', JStr hb),
         (''content_digest'', JStr (sn_content_digest b)), (''engine_version'', JStr (sn_engine_version b)),
         (''profile'', JStr (sn_profile b))]"
    using assms(1,2) by (auto simp: snapshot_material_def res_simps)
  from sorted_object_eq [OF assms(3) [unfolded a(2) b(2)]]
  have top: "sort_keys ra = sort_keys rb" "sort_keys (sn_artifact a) = sort_keys (sn_artifact b)"
      "sn_content_digest a = sn_content_digest b" "sn_engine_version a = sn_engine_version b" "sn_profile a = sn_profile b"
    by simp_all
  obtain fa ga fb gb where
      ra: "ra = JObj [(''run_id'', JStr (xe_run_id (sn_result a))), (''evaluation_id'', JStr (xe_evaluation_id (sn_result a))),
         (''config_ref'', JStr fa), (''config'', config_dict (xe_config (sn_result a))),
         (''validated_extraction'', extraction_dict (xe_extraction (sn_result a))), (''validated_extraction_digest'', JStr ga),
         (''governed_artifact_digest'', JNull), (''response_schema_version'', JStr (cf_schema_version (xe_config (sn_result a)))),
         (''confidence_policy_version'', JStr CONFIDENCE_POLICY_VERSION)]"
    and rb: "rb = JObj [(''run_id'', JStr (xe_run_id (sn_result b))), (''evaluation_id'', JStr (xe_evaluation_id (sn_result b))),
         (''config_ref'', JStr fb), (''config'', config_dict (xe_config (sn_result b))),
         (''validated_extraction'', extraction_dict (xe_extraction (sn_result b))), (''validated_extraction_digest'', JStr gb),
         (''governed_artifact_digest'', JNull), (''response_schema_version'', JStr (cf_schema_version (xe_config (sn_result b)))),
         (''confidence_policy_version'', JStr CONFIDENCE_POLICY_VERSION)]"
    using a(1) b(1) by (auto simp: result_dict_def res_simps)
  have "map (\<lambda>(k, v). (k, sort_keys v)) (case ra of JObj kvs \<Rightarrow> kvs) =
      map (\<lambda>(k, v). (k, sort_keys v)) (case rb of JObj kvs \<Rightarrow> kvs)"
    by (rule sorted_object_eq) (use top(1) in \<open>simp_all add: ra rb\<close>)
  then show ?thesis using top(2-5) by (simp add: same_replay_def ra rb)
qed

lemma digest_pins_replay:
  assumes "verify_snapshot sha a = Inr ()" "verify_snapshot sha b = Inr ()" "sn_digest a = sn_digest b"
    and "material_hash_sound sha a b"
  shows "same_replay a b"
proof -
  obtain m h where m: "snapshot_material sha a = Inr m" "canonical_digest sha m = Inr (sn_digest a)"
    using verified_snapshot [OF assms(1)] by blast
  obtain m' h' where m': "snapshot_material sha b = Inr m'" "canonical_digest sha m' = Inr (sn_digest b)"
    using verified_snapshot [OF assms(2)] by blast
  obtain t t' where t: "canonical_json m = Inr t" "sn_digest a = sha t" "canonical_json m' = Inr t'" "sn_digest b = sha t'"
    using m(2) m'(2) by (auto simp: canonical_digest_ok)
  have "inj_on sha {t, t'}" using assms(4) m(1) m'(1) t(1,3) by (simp add: material_hash_sound_def canonical_json_ok)
  moreover have "sha t = sha t'" using t(2,4) assms(3) by simp
  ultimately have "t = t'" by (rule inj_onD) simp_all
  then have "sort_keys m = sort_keys m'" using canonical_json_same t(1,3) by blast
  then show ?thesis by (rule material_same [OF m(1) m'(1)])
qed

section \<open>Restoring\<close>

lemma config_of_dict:
  assumes "make_config c = Inr c'"
  shows "config_of (config_dict c) = Some c"
proof -
  have "c' = c" using assms by (auto simp: make_config_def res_simps)
  with assms show ?thesis
    by (cases c) (simp add: config_of_def config_dict_def text_field_def text_or_def as_text_def CONFIG_KEYS_def)
qed

lemma extraction_of_dict: "extraction_of (extraction_dict v) = Some v"
  by (auto simp: extraction_of_def extraction_dict_def at_key_def jget_def has_keys_def)

lemma audit_of_dict:
  assumes "make_config c = Inr c" "new_extraction_result run evaluation c v = Inr x" "result_dict sha x = Inr r"
  shows "audit_of r = Some x"
proof -
  have x: "xe_config x = c" "xe_extraction x = v" "run = JStr (xe_run_id x)" "evaluation = JStr (xe_evaluation_id x)"
    using assms(2) by (auto simp: new_extraction_result_def check_identifier_def res_simps split: json.splits if_splits)
  have r: "at_key r ''config'' = config_dict c" "at_key r ''validated_extraction'' = extraction_dict v"
    "at_key r ''run_id'' = run" "at_key r ''evaluation_id'' = evaluation"
    using assms(3) x by (auto simp: result_dict_def res_simps at_key_def jget_def)
  show ?thesis by (simp add: audit_of_def r config_of_dict [OF assms(1)] extraction_of_dict assms(2))
qed

text \<open>A pinned snapshot, written out and restored, is itself; only a payload over the node budget is refused.\<close>

lemma restore_pinned:
  assumes c: "make_config c = Inr c" "new_extraction_result run evaluation c v = Inr x"
    and pin: "pin_replay_snapshot sha x artifact content eng profile = Inr sn"
    and d: "snapshot_dict sha sn = Inr payload" "json_copy 0 payload COPY_BUDGET = Inr rest"
  shows "restore_replay_snapshot sha payload = Inr sn"
proof -
  note p = pin_ok [OF pin]
  obtain m h where m: "snapshot_material sha sn = Inr m" "canonical_digest sha m = Inr (sn_digest sn)"
    and h: "canonical_digest sha (sn_artifact sn) = Inr h"
    using verified_snapshot [OF p(1)] by blast
  obtain r where r: "result_dict sha (sn_result sn) = Inr r"
    and mm: "m = JObj [(''snapshot_version'', JStr ''1.0.0''), (''extraction_result'', r),
       (''governed_artifact'', sn_artifact sn), (''governed_artifact_digest'', JStr h),
       (''content_digest'', JStr (sn_content_digest sn)), (''engine_version'', JStr (sn_engine_version sn)),
       (''profile'', JStr (sn_profile sn))]"
    using m(1) h by (auto simp: snapshot_material_def res_simps)
  have payload: "payload = JObj [(''snapshot_version'', JStr ''1.0.0''), (''extraction_result'', r),
       (''governed_artifact'', sn_artifact sn), (''governed_artifact_digest'', JStr h),
       (''content_digest'', JStr (sn_content_digest sn)), (''engine_version'', JStr (sn_engine_version sn)),
       (''profile'', JStr (sn_profile sn)), (''snapshot_digest'', JStr (sn_digest sn))]"
    using d(1) p(1) m(1) by (auto simp: snapshot_dict_def mm)
  have keys: "has_keys SNAPSHOT_KEYS payload" by (auto simp: payload has_keys_def SNAPSHOT_KEYS_def)
  have get: "at_key payload ''snapshot_version'' = JStr ''1.0.0''" "at_key payload ''extraction_result'' = r"
    "at_key payload ''governed_artifact'' = sn_artifact sn" "at_key payload ''governed_artifact_digest'' = JStr h"
    "at_key payload ''content_digest'' = JStr (sn_content_digest sn)"
    "at_key payload ''engine_version'' = JStr (sn_engine_version sn)" "at_key payload ''profile'' = JStr (sn_profile sn)"
    "at_key payload ''snapshot_digest'' = JStr (sn_digest sn)"
    by (simp_all add: payload at_key_def jget_def)
  obtain t where "canonical_json m = Inr t" using m(2) by (auto simp: canonical_digest_ok)
  from canonical_member [OF this [unfolded mm], of "''extraction_result''" r]
  have cr: "canonical_json r = Inr (canonical_text r)" by simp
  have audit: "audit_of r = Some (sn_result sn)" using audit_of_dict [OF c] r p(2) by simp
  obtain u where "canonical_json (sn_artifact sn) = Inr u" using h by (auto simp: canonical_digest_ok)
  then have "make_snapshot sha \<lparr>sn_result = sn_result sn, sn_artifact = sn_artifact sn,
      sn_content_digest = sn_content_digest sn, sn_engine_version = sn_engine_version sn, sn_profile = sn_profile sn,
      sn_digest = sn_digest sn\<rparr> = Inr sn"
    using p(1,3,7) by (cases sn) (simp add: make_snapshot_ok)
  then show ?thesis
    by (simp add: restore_replay_snapshot_def d(2) keys get audit r cr h as_text_def ai_guard_def)
qed

end
