(* ===== verification/AiSamples.thy ===== *)
theory AiSamples
  imports ReleaseSamples AiIntegrationProps
begin

text \<open>
  The sample release with an indicator an extraction may propose, a host with one observation, and a call to a
  provider that answers with one of the sample responses: the accepted path of optional AI and its failures,
  evaluated. The digest is a constant, and the provider a function of the text it returns.
\<close>

section \<open>Release and host\<close>

definition ai_knowledge :: runtime_knowledge where
  "ai_knowledge = release_knowledge\<lparr>indicators_by_id :=
     (''IND_A'', sample_indicator ''IND_A'' ''CLS-A'' ''STRONG'') # indicators_by_id release_knowledge,
     rk_meta := release_meta\<lparr>md_content_digest := replicate 64 CHR ''0''\<rparr>\<rparr>"

definition sample_host :: host_input where
  "sample_host = \<lparr>hi_observations =
       [JObj [(''observation_id'', JStr ''o1''), (''source_input_id'', JStr ''in-1'')]],
     hi_indicators = [], hi_evaluation_id = JStr ''e1'', hi_timestamp = JStr ''2026-01-01T00:00:00Z'',
     hi_input_id = JStr ''in-1'', hi_language = JArr [JStr ''en''], hi_script = JArr [JStr ''Latn''],
     hi_support = ''SUPPORTED'', hi_errors = []\<rparr>"

definition sample_config :: ai_config where
  "sample_config = \<lparr>cf_config_id = ''c1'', cf_provider_id = ''p1'', cf_provider_version = ''v1'', cf_model_id = ''m1'',
     cf_model_version = ''v1'', cf_decoding = [(''temperature'', JInt 0)], cf_template_id = PROMPT_TEMPLATE_ID,
     cf_template_version = PROMPT_TEMPLATE_VERSION, cf_schema_id = RESPONSE_SCHEMA_ID,
     cf_schema_version = AI_EXTRACTION_VERSION, cf_adapter_id = AI_ADAPTER_ID, cf_adapter_version = AI_ADAPTER_VERSION\<rparr>"

definition replying :: "string \<Rightarrow> ai_call" where
  "replying t = \<lparr>ac_provider = Some (\<lambda>r. Inr (Reply (sample_raw t))), ac_config = Some sample_config,
     ac_content = Some ''send money'', ac_request_id = Some ''req-1'', ac_run_id = Some ''run-1''\<rparr>"

definition zeros :: "string \<Rightarrow> string" where
  "zeros t = replicate 64 CHR ''0''"

definition sample_lib :: ai_libraries where
  "sample_lib = \<lparr>al_sha256 = zeros, al_loads = sample_loads, al_io_ok = any_json, al_obs_ok = any_json\<rparr>"

definition sample_engine :: engine where
  "sample_engine = engine_on aware any_json any_json (\<lambda>_. True) (\<lambda>_. True) (\<lambda>_. True) ai_knowledge"

lemma ai_knowledge_deployable: "deployable ai_knowledge"
proof -
  have "list_all (\<lambda>(src, _). map_of (md_component_versions (rk_meta ai_knowledge)) src \<noteq> None) COMPONENT_KEY_MAP"
    "case action_policy_version ai_knowledge of None \<Rightarrow> False | Some v \<Rightarrow> semver_match v"
    "list_all (\<lambda>(_, r). ru_status r = Some ''PUBLISHED'' \<longrightarrow> ru_kind r = COMPOSITE) (rules_by_id ai_knowledge)"
    "list_all (\<lambda>i. \<not> probability_key i) (positive_ids ai_knowledge)" "has_action_policy ai_knowledge"
    "list_all (\<lambda>(_, i). indicator_strength (in_strength i) \<noteq> None) (indicators_by_id ai_knowledge)"
    by code_simp+
  moreover have "wf_knowledge ai_knowledge"
    using release_wf by (simp add: wf_knowledge_def rk_rule_def rk_published_rule_def ai_knowledge_def)
  moreover have "list_all (\<lambda>(_, r). governed_rule r) (rules_by_id ai_knowledge)"
    using release_governed by (simp add: governed_knowledge_def ai_knowledge_def)
  ultimately show ?thesis by (simp only: deployable_def governed_knowledge_def simp_thms)
qed

section \<open>Validation\<close>

definition float_data :: json where
  "float_data = sample_response
     [sample_proposal (JFloat ''0.0'') (JFloat ''4.0'') [(''evidence_excerpt'', JStr ''send'')]] []"

definition good_data :: json where
  "good_data = sample_response
     [sample_proposal (JInt 0) (JInt 4) [(''evidence_excerpt'', JStr ''send'')]] [sample_indicator_proposal]"

lemma sample_parses:
  "parse_payload sample_loads ''float'' = Inr float_data" "parse_payload sample_loads ''good'' = Inr good_data"
  by code_simp+

lemma sample_contained:
  "check_depth [(float_data, Suc 0)] = Inr ()" "check_depth [(good_data, Suc 0)] = Inr ()"
  "scan_forbidden [float_data] = Inr ()" "scan_forbidden [good_data] = Inr ()"
  by code_simp+

lemma sample_schema: "ai_schema float_data" "ai_schema good_data"
  by code_simp+

lemma sample_small: "utf8_length ''float'' \<le> MAX_RAW_RESPONSE_BYTES" "utf8_length ''good'' \<le> MAX_RAW_RESPONSE_BYTES"
  by (simp_all add: utf8_length_def MAX_RAW_RESPONSE_BYTES_def)

lemma sample_bound:
  "bind_input ''in-1'' [(''in-1'', ''send money'')] float_data = Inr ''send money''"
  "bind_input ''in-1'' [(''in-1'', ''send money'')] good_data = Inr ''send money''"
  by code_simp+

lemma sample_checked:
  "check_proposals ai_knowledge ''in-1'' ''send money'' (items_at float_data ''observations'') (items_at float_data ''indicators'') =
     Inl (Raised (TypeError ''slice indices must be integers''))"
  "check_proposals ai_knowledge ''in-1'' ''send money'' (items_at good_data ''observations'') [sample_indicator_proposal] = Inr ()"
  by code_simp+

definition good_extraction :: validated_extraction where
  "good_extraction = \<lparr>va_input = ''in-1'', va_observations = [sample_proposal (JInt 0) (JInt 4) []],
     va_indicators = [sample_indicator_proposal]\<rparr>"

lemma good_items: "map drop_excerpt (items_at good_data ''observations'') = [sample_proposal (JInt 0) (JInt 4) []]"
  "items_at good_data ''indicators'' = [sample_indicator_proposal]"
  by code_simp+

lemma float_crashes_validation:
  "validate_ai_extraction sample_loads (sample_raw ''float'') ''req-1'' ''in-1'' [(''in-1'', ''send money'')] ai_knowledge =
     Inl (Raised (TypeError ''slice indices must be integers''))"
  by (simp del: check_depth.simps scan_forbidden.simps add: validate_ai_extraction_def Let_def sample_raw_def ai_guard_def sample_parses sample_contained sample_schema
      sample_small sample_bound sample_checked)

lemma good_validates:
  "validate_ai_extraction sample_loads (sample_raw ''good'') ''req-1'' ''in-1'' [(''in-1'', ''send money'')] ai_knowledge =
     Inr good_extraction"
  by (simp del: check_depth.simps scan_forbidden.simps add: validate_ai_extraction_def Let_def sample_raw_def ai_guard_def sample_parses sample_contained sample_schema
      sample_small sample_bound sample_checked good_items good_extraction_def)

lemma sample_request:
  "prepare_ai_request (Some sample_config) (Some ''req-1'') (JStr ''in-1'') (Some ''send money'') =
     Inr \<lparr>pq_config = sample_config, pq_request = \<lparr>xr_request_id = ''req-1'', xr_input_id = ''in-1'',
       xr_content = ''send money'', xr_template = PROMPT_TEMPLATE_ID, xr_contract = RESPONSE_SCHEMA_ID\<rparr>\<rparr>"
proof -
  have "valid_id ''req-1''" "valid_id ''in-1''" "\<not> list_all py_space PROMPT_TEMPLATE_ID"
      "\<not> list_all py_space RESPONSE_SCHEMA_ID" by code_simp+
  then show ?thesis
    by (simp add: prepare_ai_request_def make_request_def sample_config_def MAX_CONTENT_CHARS_def ai_guard_def)
qed

lemma sample_host_evaluable: "host_evaluable sample_host"
  by code_simp

section \<open>The accepted path\<close>

definition sample_audit :: extraction_result where
  "sample_audit = \<lparr>xe_run_id = ''run-1'', xe_evaluation_id = ''e1'', xe_config = sample_config,
     xe_extraction = good_extraction\<rparr>"

definition sample_prepared :: prepared_extraction where
  "sample_prepared = \<lparr>px_extraction = good_extraction, px_config = sample_config,
     px_observations = [\<lparr>cp_collection = ''observations'', cp_index = 0, cp_proposal = Some ''p1'', cp_state = ''OBSERVED''\<rparr>],
     px_indicators = [\<lparr>cp_collection = ''indicators'', cp_index = 0, cp_proposal = None, cp_state = ''OBSERVED''\<rparr>]\<rparr>"

lemma good_fields: "va_input good_extraction = ''in-1''"
  "va_observations good_extraction = [sample_proposal (JInt 0) (JInt 4) []]"
  "va_indicators good_extraction = [sample_indicator_proposal]"
  by (simp_all add: good_extraction_def)

text \<open>What the canonical text of a value needs, on a value of the sample size.\<close>

lemma small_json:
  assumes "shallow 0 v" "text_bound v \<le> MAX_CANONICAL_BYTES" "nodes v \<le> COPY_BUDGET" "printable v"
  shows "canonical_json v = Inr (canonical_text v)" "\<exists>r. json_copy 0 v COPY_BUDGET = Inr r"
    "canonical_digest zeros v = Inr (replicate 64 CHR ''0'')"
proof -
  show c: "canonical_json v = Inr (canonical_text v)" by (rule short_canonical [OF assms])
  then show "\<exists>r. json_copy 0 v COPY_BUDGET = Inr r" by (simp add: canonical_json_ok json_copy_exact)
  show "canonical_digest zeros v = Inr (replicate 64 CHR ''0'')" using c by (simp add: canonical_digest_def zeros_def)
qed

lemmas sample_json_defs = extraction_dict_def good_extraction_def sample_proposal_def sample_indicator_proposal_def
  config_dict_def sample_config_def PROMPT_TEMPLATE_ID_def PROMPT_TEMPLATE_VERSION_def RESPONSE_SCHEMA_ID_def
  AI_EXTRACTION_VERSION_def AI_ADAPTER_ID_def AI_ADAPTER_VERSION_def MAX_CANONICAL_BYTES_def COPY_BUDGET_def

lemma sample_digits: "nat_text 4 = ''4''" "nat_text 0 = ''0''"
  by code_simp+

lemma sample_extraction_json: "shallow 0 (extraction_dict good_extraction)"
  "text_bound (extraction_dict good_extraction) \<le> MAX_CANONICAL_BYTES" "nodes (extraction_dict good_extraction) \<le> COPY_BUDGET"
  "printable (extraction_dict good_extraction)"
  by (simp_all add: sample_json_defs sample_digits MAX_STR_DIGITS_def list_all_iff)

lemma sample_config_json: "shallow 0 (config_dict sample_config)"
  "text_bound (config_dict sample_config) \<le> MAX_CANONICAL_BYTES" "nodes (config_dict sample_config) \<le> COPY_BUDGET"
  "printable (config_dict sample_config)"
  by (simp_all add: sample_json_defs sample_digits MAX_STR_DIGITS_def list_all_iff)

lemmas sample_extraction_text = small_json [OF sample_extraction_json]

lemmas sample_config_text = small_json [OF sample_config_json]

lemma sample_identifiers: "valid_id ''run-1''" "valid_id ''e1''" "valid_id ''in-1''" "valid_id ''p1''"
  "digest_text (replicate 64 CHR ''0'')" "valid_id ENGINE_VERSION" "valid_id (pf_profile_id DEFAULT_PROFILE)"
  by code_simp+

lemma sample_capped:
  "cap_all ''observations'' ''status'' [sample_proposal (JInt 0) (JInt 4) []] = Inr (px_observations sample_prepared)"
  "cap_all ''indicators'' ''matched'' [sample_indicator_proposal] = Inr (px_indicators sample_prepared)"
  by code_simp+

lemma sample_prepares:
  "prepare_ai_extraction good_extraction \<lparr>pq_config = sample_config, pq_request = \<lparr>xr_request_id = ''req-1'',
       xr_input_id = ''in-1'', xr_content = ''send money'', xr_template = PROMPT_TEMPLATE_ID, xr_contract = RESPONSE_SCHEMA_ID\<rparr>\<rparr>
     (Some ''run-1'') (JStr ''e1'') = Inr (sample_prepared, sample_audit)"
  using sample_extraction_text(2) sample_capped
  by (auto simp: prepare_ai_extraction_def make_prepared_def new_extraction_result_def check_identifier_def ai_guard_def
      sample_extraction_text(1) sample_identifiers sample_audit_def sample_prepared_def good_fields)

definition sample_provenance :: json where
  "sample_provenance = JObj [(''extractor_id'', JStr AI_ADAPTER_ID), (''extractor_type'', JStr ''LLM''),
     (''extractor_version'', JStr AI_ADAPTER_VERSION),
     (''config_ref'', JStr (''ai-config:sha256:'' @ replicate 64 CHR ''0''))]"

lemma sample_provenance: "provenance_dict zeros sample_config = Inr sample_provenance"
  by (simp add: provenance_dict_def config_ref_def sample_config_text(3) sample_provenance_def) (simp add: sample_config_def)

definition ai_observation :: json where
  "ai_observation = JObj [(''observation_type'', JStr ''CLAIM''), (''source_input_id'', JStr ''in-1''),
     (''status'', JStr ''OBSERVED''), (''polarity'', JStr ''AFFIRMED''), (''attribution'', JStr ''FIRST_PARTY''),
     (''mood'', JStr ''DIRECTIVE''), (''observation_id'', JStr (''AI-OBS-'' @ replicate 64 CHR ''0'')),
     (''offsets'', JObj [(''start'', JInt 0), (''end'', JInt 4)]), (''confidence'', JObj [(''level'', JStr ''MEDIUM'')]),
     (''provenance'', sample_provenance)]"

definition ai_indicator :: json where
  "ai_indicator = JObj [(''indicator_id'', JStr ''IND_A''), (''polarity'', JStr ''POSITIVE''), (''matched'', JStr ''OBSERVED''),
     (''input_id'', JStr ''in-1''), (''observation_refs'', JArr [JStr (''AI-OBS-'' @ replicate 64 CHR ''0'')]),
     (''confidence'', JObj [(''level'', JStr ''MEDIUM'')]), (''extraction_method'', JStr ''LLM''),
     (''review_required'', JBool False), (''provenance'', sample_provenance)]"

lemma sample_observation_id: "observation_id zeros ''run-1'' ''p1'' = Inr (''AI-OBS-'' @ replicate 64 CHR ''0'')"
proof -
  have "canonical_digest zeros (JObj [(''run_id'', JStr ''run-1''), (''proposal_id'', JStr ''p1'')]) = Inr (replicate 64 CHR ''0'')"
    by (rule small_json) (simp_all add: sample_json_defs MAX_STR_DIGITS_def)
  then show ?thesis by (simp add: observation_id_def)
qed

lemma sample_mapped_observation:
  "map_observation zeros ''run-1'' sample_config
     (sample_proposal (JInt 0) (JInt 4) [], \<lparr>cp_collection = ''observations'', cp_index = 0, cp_proposal = Some ''p1'', cp_state = ''OBSERVED''\<rparr>) =
   Inr (''p1'', ''AI-OBS-'' @ replicate 64 CHR ''0'', ai_observation)"
  by (simp add: map_observation_def sample_proposal_def text_at_def at_key_def jget_def sample_observation_id sample_provenance
      ai_observation_def capped_level_def)

lemma sample_mapped_indicator:
  "map_indicator zeros [(''p1'', ''AI-OBS-'' @ replicate 64 CHR ''0'')] sample_config
     (sample_indicator_proposal, \<lparr>cp_collection = ''indicators'', cp_index = 0, cp_proposal = None, cp_state = ''OBSERVED''\<rparr>) =
   Inr ai_indicator"
  by (simp add: map_indicator_def sample_indicator_proposal_def text_at_def texts_at_def items_at_def at_key_def jget_def
      sample_provenance ai_indicator_def capped_level_def review_required_def)

lemma sample_contribution_context:
  "\<exists>ctx. build_validated_context any_json any_json (PSeq (map pyval_of [ai_indicator])) (PSeq (map pyval_of [ai_observation]))
     ''en'' ''Latn'' = Inr ctx"
proof -
  have "case build_validated_context any_json any_json (PSeq (map pyval_of [ai_indicator])) (PSeq (map pyval_of [ai_observation]))
     ''en'' ''Latn'' of Inr _ \<Rightarrow> True | Inl _ \<Rightarrow> False" by code_simp
  then show ?thesis by (auto split: sum.splits)
qed

lemma sample_maps:
  "map_ai zeros any_json any_json sample_prepared ''run-1'' sample_host = Inr ([ai_observation], [ai_indicator])"
proof -
  define oid where "oid = ''AI-OBS-'' @ replicate 64 CHR ''0''"
  define pc where "pc = (sample_proposal (JInt 0) (JInt 4) [],
    \<lparr>cp_collection = ''observations'', cp_index = 0, cp_proposal = Some ''p1'', cp_state = ''OBSERVED''\<rparr>)"
  define ic where "ic = (sample_indicator_proposal,
    \<lparr>cp_collection = ''indicators'', cp_index = 0, cp_proposal = None, cp_state = ''OBSERVED''\<rparr>)"
  have z: "zip (va_observations good_extraction) (px_observations sample_prepared) = [pc]"
    "zip (va_indicators good_extraction) (px_indicators sample_prepared) = [ic]"
    "px_extraction sample_prepared = good_extraction" "px_config sample_prepared = sample_config"
    by (simp_all add: good_fields sample_prepared_def pc_def ic_def)
  have m: "map_observation zeros ''run-1'' sample_config pc = Inr (''p1'', oid, ai_observation)"
    "map_indicator zeros [(''p1'', oid)] sample_config ic = Inr ai_indicator"
    unfolding pc_def ic_def oid_def by (rule sample_mapped_observation sample_mapped_indicator)+
  have h: "host_compatible sample_host ''in-1'' [oid] True" unfolding oid_def by code_simp
  obtain ctx where c: "build_validated_context any_json any_json (PSeq (map pyval_of [ai_indicator]))
      (PSeq (map pyval_of [ai_observation])) ''en'' ''Latn'' = Inr ctx"
    using sample_contribution_context by blast
  have d: "dict_of [(''p1'', oid)] = [(''p1'', oid)]" by (simp add: dict_of_def)
  show ?thesis
    using c by (simp add: map_ai_def Let_def z m d h good_fields(1) ai_guard_def)
qed

definition accepted_host :: host_input where
  "accepted_host = combined sample_host [ai_observation] [ai_indicator]"

lemmas artifact_json_defs = host_dict_def accepted_host_def combined_def sample_host_def ai_observation_def ai_indicator_def
  sample_provenance_def sample_json_defs

lemma sample_artifact_json: "shallow 0 (host_dict accepted_host)" "text_bound (host_dict accepted_host) \<le> MAX_CANONICAL_BYTES"
  "nodes (host_dict accepted_host) \<le> COPY_BUDGET" "printable (host_dict accepted_host)"
  by (simp_all add: artifact_json_defs sample_digits MAX_STR_DIGITS_def)

lemmas sample_artifact_text = small_json [OF sample_artifact_json]

definition sample_result_json :: json where
  "sample_result_json = JObj [(''run_id'', JStr ''run-1''), (''evaluation_id'', JStr ''e1''),
     (''config_ref'', JStr (''ai-config:sha256:'' @ replicate 64 CHR ''0'')), (''config'', config_dict sample_config),
     (''validated_extraction'', extraction_dict good_extraction), (''validated_extraction_digest'', JStr (replicate 64 CHR ''0'')),
     (''governed_artifact_digest'', JNull), (''response_schema_version'', JStr AI_EXTRACTION_VERSION),
     (''confidence_policy_version'', JStr CONFIDENCE_POLICY_VERSION)]"

lemma sample_result_dict: "result_dict zeros sample_audit = Inr sample_result_json"
  by (simp add: result_dict_def config_ref_def sample_audit_def sample_config_text(3) sample_extraction_text(3)
      sample_result_json_def) (simp add: sample_config_def)

definition sample_material :: json where
  "sample_material = JObj [(''snapshot_version'', JStr ''1.0.0''), (''extraction_result'', sample_result_json),
     (''governed_artifact'', host_dict accepted_host), (''governed_artifact_digest'', JStr (replicate 64 CHR ''0'')),
     (''content_digest'', JStr (replicate 64 CHR ''0'')), (''engine_version'', JStr ENGINE_VERSION),
     (''profile'', JStr (pf_profile_id DEFAULT_PROFILE))]"

definition sample_snapshot :: snapshot where
  "sample_snapshot = \<lparr>sn_result = sample_audit, sn_artifact = host_dict accepted_host,
     sn_content_digest = replicate 64 CHR ''0'', sn_engine_version = ENGINE_VERSION,
     sn_profile = pf_profile_id DEFAULT_PROFILE, sn_digest = replicate 64 CHR ''0''\<rparr>"

lemma sample_snapshot_material: "snapshot_material zeros (sample_snapshot\<lparr>sn_digest := d\<rparr>) = Inr sample_material"
  by (simp add: snapshot_material_def sample_snapshot_def sample_result_dict sample_artifact_text(3) sample_material_def)

lemma sample_material_json: "shallow 0 sample_material" "text_bound sample_material \<le> MAX_CANONICAL_BYTES"
  "nodes sample_material \<le> COPY_BUDGET" "printable sample_material"
  by (simp_all add: sample_material_def sample_result_json_def artifact_json_defs sample_digits MAX_STR_DIGITS_def
      CONFIDENCE_POLICY_VERSION_def ENGINE_VERSION_def DEFAULT_PROFILE_def)

lemmas sample_material_text = small_json [OF sample_material_json]

lemma sample_sealed: "sealed zeros sample_audit"
  by (simp add: sealed_def sample_audit_def sample_identifiers sample_extraction_text(3))

lemma sample_pinned:
  "pin_replay_snapshot zeros sample_audit (host_dict accepted_host) (replicate 64 CHR ''0'') ENGINE_VERSION
     (pf_profile_id DEFAULT_PROFILE) = Inr sample_snapshot"
proof -
  have fields: "sn_result sample_snapshot = sample_audit" "sn_artifact sample_snapshot = host_dict accepted_host"
    "sn_content_digest sample_snapshot = replicate 64 CHR ''0''" "sn_engine_version sample_snapshot = ENGINE_VERSION"
    "sn_profile sample_snapshot = pf_profile_id DEFAULT_PROFILE" "sn_digest sample_snapshot = replicate 64 CHR ''0''"
    by (simp_all add: sample_snapshot_def)
  have m: "snapshot_material zeros sample_snapshot = Inr sample_material"
    using sample_snapshot_material [of "replicate 64 CHR ''0''"] by (simp add: sample_snapshot_def)
  have v: "verify_snapshot zeros sample_snapshot = Inr ()"
    by (simp add: verify_snapshot_def m fields sample_sealed sample_identifiers sample_artifact_text(3) sample_material_text(3))
  have "is_object (host_dict accepted_host)" by (simp add: host_dict_def is_object_def)
  then have made: "make_snapshot zeros sample_snapshot = Inr sample_snapshot"
    using sample_artifact_text(1) v by (auto simp: make_snapshot_ok fields)
  have e: "snapshot_material zeros \<lparr>sn_result = sample_audit, sn_artifact = host_dict accepted_host,
      sn_content_digest = replicate 64 CHR ''0'', sn_engine_version = ENGINE_VERSION,
      sn_profile = pf_profile_id DEFAULT_PROFILE, sn_digest = []\<rparr> = Inr sample_material"
    using sample_snapshot_material [of "[]"] by (simp add: sample_snapshot_def)
  have c: "(case host_dict accepted_host of JObj _ \<Rightarrow> json_copy 0 (host_dict accepted_host) COPY_BUDGET
      | _ \<Rightarrow> Inl AIProvenanceInvalidError) = json_copy 0 (host_dict accepted_host) COPY_BUDGET"
    by (simp add: host_dict_def)
  from sample_artifact_text(2) made show ?thesis
    unfolding pin_replay_snapshot_def Let_def c
    by (auto simp: e sample_sealed sample_material_text(3) sample_snapshot_def ai_guard_def)
qed

lemma good_attempt: "attempt_ai sample_lib ai_knowledge (replying ''good'') sample_host = Inr (Inr (accepted_host, sample_snapshot))"
proof -
  have f: "ac_config (replying t) = Some sample_config" "ac_request_id (replying t) = Some ''req-1''"
    "ac_content (replying t) = Some ''send money''" "ac_provider (replying t) = Some (\<lambda>r. Inr (Reply (sample_raw t)))"
    "ac_run_id (replying t) = Some ''run-1''" for t by (simp_all add: replying_def)
  have l: "al_sha256 sample_lib = zeros" "al_loads sample_lib = sample_loads" "al_io_ok sample_lib = any_json"
    "al_obs_ok sample_lib = any_json" by (simp_all add: sample_lib_def)
  have h: "hi_input_id sample_host = JStr ''in-1''" "hi_evaluation_id sample_host = JStr ''e1''" by (simp_all add: sample_host_def)
  have k: "md_content_digest (rk_meta ai_knowledge) = replicate 64 CHR ''0''" by (simp add: ai_knowledge_def)
  have r: "xe_run_id sample_audit = ''run-1''" by (simp add: sample_audit_def)
  show ?thesis
    by (simp add: attempt_ai_def f h sample_request accept_response_def Let_def l good_validates sample_prepares r sample_maps
        k accepted_host_def [symmetric] sample_pinned)
qed

lemma float_attempt:
  "attempt_ai sample_lib ai_knowledge (replying ''float'') sample_host = Inl (Raised (TypeError ''slice indices must be integers''))"
  by (simp add: attempt_ai_def replying_def sample_host_def sample_request accept_response_def Let_def sample_lib_def
      float_crashes_validation)

section \<open>Outcomes\<close>

lemma sample_host_json: "shallow 0 (host_dict sample_host)" "text_bound (host_dict sample_host) \<le> MAX_CANONICAL_BYTES"
  "nodes (host_dict sample_host) \<le> COPY_BUDGET" "printable (host_dict sample_host)"
  by (simp_all add: artifact_json_defs sample_digits MAX_STR_DIGITS_def)

lemmas sample_host_text = small_json [OF sample_host_json]

lemma sample_host_identity:
  "validate_identity aware (PStr ''e1'') (PStr ''2026-01-01T00:00:00Z'') (PStr ''in-1'') =
     Inr (''e1'', ''2026-01-01T00:00:00Z'', ''in-1'')"
  by code_simp

lemma sample_contexts:
  "\<exists>ctx. build_validated_context any_json any_json (PSeq (map pyval_of (hi_indicators sample_host)))
     (PSeq (map pyval_of (hi_observations sample_host))) ''en'' ''Latn'' = Inr ctx"
  "\<exists>ctx. build_validated_context any_json any_json (PSeq (map pyval_of (hi_indicators accepted_host)))
     (PSeq (map pyval_of (hi_observations accepted_host))) ''en'' ''Latn'' = Inr ctx"
proof -
  have "case build_validated_context any_json any_json (PSeq (map pyval_of (hi_indicators sample_host)))
     (PSeq (map pyval_of (hi_observations sample_host))) ''en'' ''Latn'' of Inr _ \<Rightarrow> True | Inl _ \<Rightarrow> False"
    "case build_validated_context any_json any_json (PSeq (map pyval_of (hi_indicators accepted_host)))
     (PSeq (map pyval_of (hi_observations accepted_host))) ''en'' ''Latn'' of Inr _ \<Rightarrow> True | Inl _ \<Rightarrow> False"
    by code_simp+
  then show "\<exists>ctx. build_validated_context any_json any_json (PSeq (map pyval_of (hi_indicators sample_host)))
     (PSeq (map pyval_of (hi_observations sample_host))) ''en'' ''Latn'' = Inr ctx"
    "\<exists>ctx. build_validated_context any_json any_json (PSeq (map pyval_of (hi_indicators accepted_host)))
     (PSeq (map pyval_of (hi_observations accepted_host))) ''en'' ''Latn'' = Inr ctx"
    by (auto split: sum.splits)
qed

lemma sample_engine_total:
  assumes "h = sample_host \<or> h = accepted_host"
  shows "\<exists>d. sample_engine h = Inr d"
proof -
  have f: "pyval_of (hi_evaluation_id h) = PStr ''e1''" "pyval_of (hi_timestamp h) = PStr ''2026-01-01T00:00:00Z''"
    "pyval_of (hi_input_id h) = PStr ''in-1''" "pyval_of (hi_language h) = PSeq [PStr ''en'']"
    "pyval_of (hi_script h) = PSeq [PStr ''Latn'']" "hi_support h = ''SUPPORTED''" "hi_errors h = []"
    using assms by (auto simp: sample_host_def accepted_host_def combined_def)
  obtain ctx where ctx: "build_validated_context any_json any_json (PSeq (map pyval_of (hi_indicators h)))
      (PSeq (map pyval_of (hi_observations h))) ''en'' ''Latn'' = Inr ctx"
    using assms sample_contexts by blast
  show ?thesis unfolding sample_engine_def engine_on_def f
    by (rule evaluated_detection_total [OF ai_knowledge_deployable sample_host_identity release_seq(1,2,3,5) ctx]) simp_all
qed

lemma good_outcome:
  "\<exists>oc. evaluate_with_optional_ai sample_lib sample_engine ai_knowledge True (replying ''good'') sample_host = Inr oc \<and>
     oc_reason oc = None \<and> oc_replay oc = Some sample_snapshot"
  using sample_engine_total [of accepted_host]
  by (auto simp: evaluate_with_optional_ai_def sample_host_text(1) optional_ai_def sample_host_evaluable good_attempt caught_def)

lemma unreadable_attempt:
  "attempt_ai sample_lib ai_knowledge (replying ''junk'') sample_host = Inl AIResponseMalformedError"
proof -
  have "sample_loads ''junk'' = None" "\<not> list_all py_space ''junk''" by code_simp+
  moreover have "utf8_length ''junk'' \<le> MAX_RAW_RESPONSE_BYTES" by (simp add: utf8_length_def MAX_RAW_RESPONSE_BYTES_def)
  ultimately show ?thesis
    by (simp add: attempt_ai_def replying_def sample_host_def sample_request accept_response_def Let_def sample_lib_def
        validate_ai_extraction_def sample_raw_def ai_guard_def parse_payload_def)
qed

lemma unreadable_outcome:
  "\<exists>oc. evaluate_with_optional_ai sample_lib sample_engine ai_knowledge True (replying ''junk'') sample_host = Inr oc \<and>
     oc_replay oc = None"
  using sample_engine_total [of sample_host]
  by (auto simp: evaluate_with_optional_ai_def sample_host_text(1) optional_ai_def sample_host_evaluable unreadable_attempt
      caught_def provider_error_def validation_error_def)

lemma float_outcome:
  "evaluate_with_optional_ai sample_lib engine ai_knowledge True (replying ''float'') sample_host =
     Inl (Raised (TypeError ''slice indices must be integers''))"
  by (simp add: evaluate_with_optional_ai_def sample_host_text(1) optional_ai_def sample_host_evaluable float_attempt
      caught_def provider_error_def validation_error_def governance_error_def)

section \<open>Replay\<close>

lemma sample_verified: "verify_snapshot zeros sample_snapshot = Inr ()"
  by (rule pin_ok(1) [OF sample_pinned])

lemma sample_material_of: "snapshot_material zeros sample_snapshot = Inr sample_material"
  using sample_snapshot_material [of "replicate 64 CHR ''0''"] by (simp add: sample_snapshot_def)

lemma sample_hash_sound: "material_hash_sound zeros sample_snapshot sample_snapshot"
  by (simp add: material_hash_sound_def sample_material_of)

lemma sample_config_made: "make_config sample_config = Inr sample_config"
proof -
  have "list_all valid_id [''c1'', ''p1'', ''v1'', ''m1'', ''v1'']" by code_simp
  moreover have "json_copy 0 (JObj [(''temperature'', JInt 0)]) COPY_BUDGET = Inr (COPY_BUDGET - 3)"
    by (simp add: json_copy_exact COPY_BUDGET_def MAX_CANONICAL_BYTES_def utf8_length_def)
  ultimately show ?thesis
    by (simp add: make_config_def sample_config_def ai_guard_def DECODING_KEYS_def parameter_ok_def number_within_def)
qed

lemma sample_audit_made: "new_extraction_result (JStr ''run-1'') (JStr ''e1'') sample_config good_extraction = Inr sample_audit"
  using sample_extraction_text(2)
  by (auto simp: new_extraction_result_def check_identifier_def sample_identifiers good_fields(1) ai_guard_def sample_audit_def)

lemma sample_payload: "\<exists>payload rest. snapshot_dict zeros sample_snapshot = Inr payload \<and> json_copy 0 payload COPY_BUDGET = Inr rest"
proof -
  have p: "snapshot_dict zeros sample_snapshot =
      Inr (JObj ((case sample_material of JObj kvs \<Rightarrow> kvs) @ [(''snapshot_digest'', JStr (replicate 64 CHR ''0''))]))"
    by (simp add: snapshot_dict_def sample_verified sample_material_of) (simp add: sample_material_def sample_snapshot_def)
  have "bounded_json 0 sample_material" "nodes sample_material \<le> COPY_BUDGET - 2"
    using shallow_bounded [OF sample_material_json(1,2)]
    by (simp_all add: sample_material_def sample_result_json_def artifact_json_defs)
  then have "\<exists>rest. json_copy 0 (JObj ((case sample_material of JObj kvs \<Rightarrow> kvs) @
      [(''snapshot_digest'', JStr (replicate 64 CHR ''0''))])) COPY_BUDGET = Inr rest"
    by (simp add: json_copy_exact sample_material_def utf8_length_def MAX_CANONICAL_BYTES_def)
  with p show ?thesis by blast
qed

end
