(* ===== verification/FurtherProps.thy ===== *)
theory FurtherProps
  imports SuppressionProps ExplanationContent ResultProps Detection ReleaseSamples Indexes SessionProps AiSamples
begin

text \<open>
  Further facts of the decision stages: what is absent from a decision without a match, the monotonicity
  of overrides, the lifecycle gate, the errors of the aggregation, and the invisibility of path compression.
\<close>

text \<open>
  When no rule governs, nothing of a match leaks into the decision: severity, strength and risk are
  NONE, there is no detection confidence, and no matched rule or positive indicator is reported.
\<close>

theorem no_match_no_risk:
  assumes "aggregate_decision ok eok rk pf support rs we = Inr d" "dr_governing d = None"
  shows "dr_severity d = NONE \<and> dr_strength d = NO_STRENGTH \<and> dr_risk d = NONE \<and> dr_confidence d = None \<and>
     dr_matched_rules d = [] \<and> dr_positive d = []"
  by (rule aggregate_unmatched [OF assms])

theorem no_match_no_risk_witness:
  "dr_risk clear_decision = NONE \<and> dr_matched_rules clear_decision = []"
  using no_match_no_risk [OF sample_clear_aggregate] by (simp add: clear_governing)

text \<open>
  The citations of an explanation: the evidence basis over a list of results holds exactly the
  governed source references of the rules those results name, each once, in strictly increasing
  order of their canonical JSON text; nothing is taken from a caller's echo and nothing is dropped
  unless it is the same reference.
\<close>

theorem evidence_basis_is_governed:
  "set (evidence_basis el rule_of) = (\<Union>r\<in>set el. set (authoritative_source_refs (rule_of (rr_rule_id r)))) \<and>
   sorted_wrt (\<lambda>a b. canon_echo a < canon_echo b) (evidence_basis el rule_of)"
  using evidence_basis_exact by blast

text \<open>
  Path compression is invisible: on a forest whose parents never exceed their children, find returns
  the least-linked representative, keeps the invariant, adds at most the looked-up element and
  changes no representative.
\<close>

theorem find_keeps_the_classes:
  assumes "uf_ok p"
  shows "\<exists>q. uf_find p x = Some (uf_rep p x, q) \<and> uf_ok q \<and>
    dom (map_of q) = insert x (dom (map_of p)) \<and> uf_rep q = uf_rep p"
  by (rule uf_find_spec [OF assms])

theorem find_keeps_the_classes_witness:
  "\<exists>q. uf_find [(''a'', ''a''), (''b'', ''a''), (''c'', ''b'')] ''c'' =
     Some (uf_rep [(''a'', ''a''), (''b'', ''a''), (''c'', ''b'')] ''c'', q) \<and> uf_ok q"
  using find_keeps_the_classes [OF sample_forest] by blast

text \<open>
  The lifecycle gate: a live evaluation that yields anything but NOT_APPLICABLE is of a rule of the
  bundle whose status is PUBLISHED.
\<close>

theorem only_published_rules_execute:
  assumes "evaluate_validated rk pf rid ctx = Inr res" "rr_state res \<noteq> NOT_APPLICABLE"
  shows "\<exists>r. rk_rule rk rid = Some r \<and> ru_status r = Some ''PUBLISHED''"
  by (rule evaluate_validated_published [OF assms])

theorem only_published_rules_execute_witness:
  "\<exists>r. rk_rule override_knowledge ''R-1'' = Some r \<and> ru_status r = Some ''PUBLISHED''"
  using only_published_rules_execute [OF sample_validated_1] by (simp add: wp3_1_def result_1_def)

text \<open>
  More active overrides never suppress more: with a larger set of active overrides a rule that
  stayed MATCHED stays MATCHED, and its effective severity does not fall.
\<close>

theorem overrides_only_restore:
  assumes "apply_effects rk r = Inr r'" "rr_kind r = COMPOSITE" "rr_state r = MATCHED"
    and "apply_effects rk (r\<lparr>rr_overrides := os\<rparr>) = Inr q'" "set (rr_overrides r) \<subseteq> set os"
  shows "(rr_state r' = MATCHED \<longrightarrow> rr_state q' = MATCHED) \<and> the (rr_effective r') \<le> the (rr_effective q')"
  using apply_effects_overrides_mono [OF assms] by blast

theorem overrides_only_restore_witness:
  "the (rr_effective wp4_2) \<le> the (rr_effective wp4_2_restored)"
  using overrides_only_restore [OF sample_effects_2 _ _ sample_effects_2_override] by (simp add: wp3_2_def result_2_def)

text \<open>
  Every exception of the aggregation is an AggregationError: faults inside the input boundary are
  translated, and nothing after it raises anything else.
\<close>

theorem aggregation_raises_only_its_error:
  assumes "aggregate_decision ok eok rk pf support rs we = Inl e"
  shows "\<exists>m. e = AggregationError m"
  using aggregate_decision_errors [of ok eok rk pf support rs we] assms by (simp add: agg_errors_def)

theorem aggregation_raises_only_its_error_witness:
  "\<exists>m. AggregationError ''duplicate rule_id R-1'' = AggregationError m"
  using aggregation_raises_only_its_error [OF sample_duplicate] .

text \<open>
  The governing rule is an eligible match whose key (effective severity, then verdict, then class
  breadth, then id) no other eligible match beats, and the decision's confidence is the confidence
  policy applied to it and the corroboration count, lowered from HIGH to MEDIUM when a rule
  degraded.
\<close>

theorem governing_rule_is_least_key:
  assumes "aggregate_decision ok eok rk pf support rs we = Inr d" "dr_governing d = Some gid"
  shows "\<exists>r m. r \<in> set rs \<and> validate_and_canonical_copy ok r = Inr m \<and> is_eligible_matched r \<and>
    rr_rule_id r = gid \<and>
    (\<forall>r'\<in>set rs. \<forall>m'. validate_and_canonical_copy ok r' = Inr m' \<longrightarrow> is_eligible_matched r' \<longrightarrow>
       governing_key m \<le> governing_key m') \<and>
    dr_confidence d = Some (let c = detection_confidence m (co_count (dr_corroboration d)) in
       if list_ex is_degraded rs \<and> c = C_HIGH then C_MEDIUM else c)"
  by (rule aggregate_governing [OF assms]) (auto simp: Let_def)

theorem governing_rule_is_least_key_witness:
  "\<exists>r. r \<in> set [wp4_1, wp4_2] \<and> is_eligible_matched r \<and> rr_rule_id r = ''R-1''"
  using governing_rule_is_least_key [OF sample_aggregate, of "''R-1''"] by (auto simp: sample_decision_def)

text \<open>
  The live provenance of a matched indicator is exact: it is not empty, and its groups are precisely
  the sorted reference sets of the occurrences that are live under a set of suppressors that
  includes every unblockable one.
\<close>

theorem provenance_is_exactly_the_live_groups:
  assumes "evaluate_composite rk pf r rid rver ctx = Inr res" "p \<in> set (rr_matched_positive res)"
  shows "\<exists>ss g. map_of (rr_provenance res) p = Some g \<and> g \<noteq> [] \<and>
    set (hard_suppressors rk pf ctx (rr_matched_negative res) p) \<subseteq> set ss \<and>
    set g = (\<lambda>io. sorted_unique (io_refs io)) ` {io\<in>set (observations_for ctx p). live_evidence pf ctx ss io}"
  by (rule composite_provenance [OF assms]) blast

theorem provenance_is_exactly_the_live_groups_witness:
  "\<exists>g. map_of (rr_provenance wp3_1) ''IND-A'' = Some g \<and> g \<noteq> []"
  using provenance_is_exactly_the_live_groups [OF sample_composite_1, of "''IND-A''"]
  by (auto simp: wp3_1_def result_1_def)

text \<open>
  The result of a rule depends on the other rules not at all: two bundles with the same indicators,
  negative indicators and overrides that agree on one rule give that rule the same result, so a
  broken or added rule cannot change another's outcome.
\<close>

theorem rule_results_are_isolated:
  assumes "same_library rk rk'" "rk_rule rk rid = rk_rule rk' rid"
  shows "evaluate_validated rk pf rid ctx = evaluate_validated rk' pf rid ctx"
  by (rule evaluate_validated_library [OF assms])

theorem rule_results_are_isolated_witness:
  "evaluate_validated override_knowledge DEFAULT_PROFILE ''R-1'' (sample_ctx ''NEG-R'') =
   evaluate_validated (override_knowledge\<lparr>rules_by_id := [(''R-1'', rule_1)]\<rparr>) DEFAULT_PROFILE ''R-1''
     (sample_ctx ''NEG-R'')"
  by (rule rule_results_are_isolated)
    (simp_all add: same_library_def rk_rule_def override_knowledge_def knowledge_with_def)

text \<open>
  Suppressors can only lower an indicator's truth, and the value, reason, neutralisation and
  provenance of an indicator depend on its occurrences and suppressors as sets, never on their
  order.
\<close>

theorem suppressors_only_lower_truth:
  "fst (combine_positive pf ctx iid ss) \<le> fst (combine_positive pf ctx iid []) \<and>
   combine_positive pf ctx iid (rev ss) = combine_positive pf ctx iid ss"
  using combine_positive_suppression_lowers [of pf ctx iid ss] combine_positive_order [of ctx iid ctx "rev ss" ss]
  by simp

text \<open>
  The augmenting-path search ends within its fuel for every graph and returns the size and the
  sorted classes of a matching of maximum size.
\<close>

theorem matching_is_maximum:
  "\<exists>k classes. max_bipartite_matching g = Some (k, classes) \<and> length classes = k \<and> sorted classes \<and>
     distinct classes \<and>
     (\<exists>M. matching (adjacent g) (fst ` set g) M \<and> card M = k \<and> fst ` M = set classes) \<and>
     Max (card ` {M. matching (adjacent g) (fst ` set g) M}) = k"
proof (rule max_bipartite_matching_correct [of g])
  fix k classes
  assume r: "max_bipartite_matching g = Some (k, classes)" "length classes = k" "sorted classes"
      "distinct classes"
    and ex: "\<exists>M. matching (adjacent g) (fst ` set g) M \<and> card M = k \<and> fst ` M = set classes"
    and le: "\<And>M. matching (adjacent g) (fst ` set g) M \<Longrightarrow> card M \<le> k"
  have "finite (card ` {M. matching (adjacent g) (fst ` set g) M})"
    by (rule finite_subset [of _ "{..k}"]) (auto dest: le)
  then have "Max (card ` {M. matching (adjacent g) (fst ` set g) M}) = k"
    using ex le by (intro Max_eqI) auto
  with r ex show ?thesis by blast
qed

text \<open>
  No rule aborts the batch: on consistent knowledge and a valid input evaluate_rules_from_governed
  returns one result per published rule, in ascending id order, whatever the rules contain.
\<close>

theorem every_published_rule_is_evaluated_once:
  assumes "wf_knowledge rk" "build_validated_context io_ok obs_ok inds obs lang scr = Inr ctx"
  shows "\<exists>rs. evaluate_rules_from_governed io_ok obs_ok rk pf inds obs lang scr = Inr rs \<and>
     map rr_rule_id rs = published_rule_ids rk"
  by (rule evaluate_rules_total [OF assms])

theorem every_published_rule_is_evaluated_once_witness:
  "\<exists>rs. evaluate_rules_from_governed any_json any_json override_knowledge DEFAULT_PROFILE negative_inds
     sample_observations ''en'' ''Latn'' = Inr rs \<and> map rr_rule_id rs = published_rule_ids override_knowledge"
  by (rule every_published_rule_is_evaluated_once [OF sample_wf sample_context(1)])

text \<open>
  The invariant between the stages: on governed knowledge every evaluator result satisfies the
  aggregation's cross-field invariants (state against combination truth, error placement, resolvable
  references, provenance keys), and the suppression stage preserves them.
\<close>

theorem stages_hand_on_sound_results:
  assumes "governed_knowledge rk" "evaluate_validated rk pf rid ctx = Inr r"
    and "apply_suppression rk r = Inr r'"
  shows "check_semantic_invariants rk r = Inr () \<and> check_semantic_invariants rk r' = Inr ()"
proof -
  have "sound_result rk r" by (rule evaluate_validated_sound [OF assms(1,2)])
  from this apply_suppression_sound [OF this assms(3)] show ?thesis
    using sound_semantic by blast
qed

theorem stages_hand_on_sound_results_witness: "check_semantic_invariants override_knowledge wp4_1 = Inr ()"
  using stages_hand_on_sound_results [OF sample_governed sample_validated_1 sample_wp4_1] by blast

text \<open>
  The WP6 trust boundary is complete for the producer it guards: on a bundle with filed records and
  an action policy, every decision the pipeline makes for an evaluable input passes all its checks
  (schema and semantic invariants of each result, exact rollups and error reconstruction,
  classification consistency, published contributing rules, exact source echoes) and is explained.
\<close>

theorem every_pipeline_decision_is_explained:
  assumes "wf_knowledge rk" "has_action_policy rk"
    and "evaluate_decision_from_governed io_ok obs_ok ok eok rk pf inds obs support lang scr [] = Inr d"
    and "support \<in> {S_SUPPORTED, S_PARTIALLY_SUPPORTED}"
    and "\<And>r. check_semantic_invariants rk r = Inr () \<Longrightarrow> ok r"
    and "\<And>r e. rule_error r = Some e \<Longrightarrow> eok e"
    and "list_all has_string_id (opt_list observations)"
  shows "\<exists>er. build_explanation ok eok rk d observations = Inr er"
  by (rule pipeline_explained [OF assms])

theorem every_pipeline_decision_is_explained_witness:
  "\<exists>d er. evaluate_decision_from_governed any_json any_json (\<lambda>_. True) (\<lambda>_. True) release_knowledge DEFAULT_PROFILE
       negative_inds sample_observations S_SUPPORTED ''en'' ''Latn'' [] = Inr d \<and>
     build_explanation (\<lambda>_. True) (\<lambda>_. True) release_knowledge d None = Inr er"
proof -
  obtain d where d: "evaluate_decision_from_governed any_json any_json (\<lambda>_. True) (\<lambda>_. True) release_knowledge
      DEFAULT_PROFILE negative_inds sample_observations S_SUPPORTED ''en'' ''Latn'' [] = Inr d"
    using release_decision by blast
  from every_pipeline_decision_is_explained [OF release_wf release_policy this, of None] d show ?thesis
    by (auto simp: opt_list_def)
qed

text \<open>
  On a governed bundle (records filed under their ids, composite rules with a severity and a
  verdict, indicators with a governed strength) and a valid input the pipeline always returns a
  decision: no exception escapes the evaluator, the suppression stage hands the aggregation only
  results it accepts, and the disjoint-set and matching loops end. The validators are assumed only
  to accept the results whose fields are consistent and the given whole-evaluation errors.
\<close>

theorem pipeline_returns_a_decision:
  assumes "governed_knowledge rk"
    and "build_validated_context io_ok obs_ok inds obs lang scr = Inr ctx"
    and "\<And>r. sound_result rk r \<Longrightarrow> ok r" and "list_all eok we"
  shows "\<exists>d. evaluate_decision_from_governed io_ok obs_ok ok eok rk pf inds obs support lang scr we = Inr d"
  by (rule pipeline_total [OF assms])

theorem pipeline_returns_a_decision_witness:
  "\<exists>d. evaluate_decision_from_governed any_json any_json (\<lambda>_. True) (\<lambda>_. True) override_knowledge
     DEFAULT_PROFILE negative_inds sample_observations S_SUPPORTED ''en'' ''Latn'' [] = Inr d"
  by (rule pipeline_returns_a_decision [OF sample_governed sample_context(1)]) simp_all

text \<open>
  The corroboration count is the true maximum: proven_independence always returns, its classes are
  sorted and distinct, some choice of one evidence group per class whose groups are pairwise
  unconnected by shared references has exactly that size, and no such choice is larger. The
  component graph merges groups through references transitively.
\<close>

theorem proven_independence_is_maximum:
  assumes "independence_entries rk eligible = Inr entries"
  shows "\<exists>n classes. proven_independence rk eligible = Inr (n, classes, shared_refs entries) \<and>
     length classes = n \<and> sorted classes \<and> distinct classes \<and>
     (\<exists>M. independent entries M \<and> card M = n \<and> fst ` M = set classes) \<and>
     (\<forall>M. independent entries M \<longrightarrow> card M \<le> n)"
  by (rule proven_independence_maximum [OF assms])

theorem proven_independence_is_maximum_witness:
  "\<exists>n classes. proven_independence override_knowledge [wp4_1] =
     Inr (n, classes, shared_refs [(''CLS-A'', [''o1'']), (''CLS-B'', [''o2''])]) \<and> length classes = n"
  using proven_independence_is_maximum [OF sample_entries] by blast

text \<open>
  The suppression stage never raises a severity and never creates a match: an effective severity
  after the stage is at most the one before, and a state changes only from MATCHED composite to
  SUPPRESSED with a TRUE combination, or to NOT_APPLICABLE with a SUPPRESSION_EXECUTION_ERROR.
\<close>

theorem suppression_only_weakens:
  assumes "apply_suppression rk r = Inr r'"
  shows "(\<forall>e'. rr_effective r' = Some e' \<longrightarrow> (\<exists>e. rr_effective r = Some e \<and> e' \<le> e)) \<and>
    (rr_state r' = rr_state r \<or>
     rr_state r' = SUPPRESSED \<and> rr_state r = MATCHED \<and> rr_kind r = COMPOSITE \<and> rr_required r = TRUE \<or>
     rr_state r' = NOT_APPLICABLE \<and> (\<exists>m. rr_error r' = Some (''SUPPRESSION_EXECUTION_ERROR'', m)))"
  using apply_suppression_lowers [OF assms] apply_suppression_state [OF assms] by blast

theorem suppression_only_weakens_witness:
  "rr_state wp4_2 = SUPPRESSED \<and> (\<exists>e. rr_effective wp3_2 = Some e \<and> MEDIUM \<le> e)"
  using suppression_only_weakens [OF sample_wp4_2] by (simp add: wp4_2_def result_2_def)

text \<open>
  The suppression stage accepts what the evaluator hands it: on a governed library whose soft
  negatives are all blockable, a matched composite result of the evaluator never fails the stage's
  cross-checks, so no legitimate match is degraded to NOT_APPLICABLE.
\<close>

theorem stages_agree_on_a_match:
  assumes "governed_library rk" "ru_severity r = Some d" "d \<noteq> NONE"
    and "evaluate_composite rk pf r rid rver ctx = Inr res" "rr_state res = MATCHED"
  shows "\<exists>r'. apply_effects rk res = Inr r'"
  by (rule stages_agree [OF assms])

theorem stages_agree_on_a_match_witness: "\<exists>r'. apply_effects override_knowledge wp3_1 = Inr r'"
  by (rule stages_agree_on_a_match [OF sample_library _ _ sample_composite_1, of HIGH])
    (simp_all add: rule_1_def sample_rule_def wp3_1_def result_1_def)

text \<open>
  Condition evaluation is monotone in information: if a condition evaluates to TRUE or FALSE, then
  replacing UNKNOWN operands by any definite values gives the same result, for every condition the
  evaluator accepts.
\<close>

theorem conditions_never_guess:
  assumes "\<And>i. refines (t i) (t' i)" "eval_condition t c = Inr v" "v \<noteq> UNKNOWN"
  shows "eval_condition t' c = Inr v"
  using eval_condition_refines [of t t' c] assms by (auto simp: res_refines_Inr refines_def)

theorem conditions_never_guess_witness:
  "eval_condition (\<lambda>i. if i = ''IND-A'' then TRUE else FALSE) one_required = Inr TRUE"
  by (rule conditions_never_guess [of "\<lambda>i. if i = ''IND-A'' then TRUE else UNKNOWN"]) (simp_all add: one_eval)

text \<open>
  A callback that is answered with a transaction agrees with an earlier sign-in of the same run: it
  presents a value with the digest of that sign-in's state and one with the digest of its browser
  binding, the transaction carries that sign-in's nonce and verifier, the transaction's lifetime has
  not passed, and no callback in between presented the state.
\<close>

theorem login_belongs_to_the_browser:
  assumes "i < length es" "output_at (tx_step lifetime capacity digest) [] es i = Consumed (Some t)"
  shows "login_agrees lifetime digest es i t"
  by (rule login_agreement [OF assms])

theorem login_belongs_to_the_browser_witness:
  "login_agrees 600 sample_digest sample_logins 1 (new_transaction sample_digest 0 sample_secrets)"
proof (rule login_belongs_to_the_browser [of _ _ _ 10])
  show "1 < length sample_logins" by code_simp
  show "output_at (tx_step 600 10 sample_digest) [] sample_logins 1 =
      Consumed (Some (new_transaction sample_digest 0 sample_secrets))" by code_simp
qed

text \<open>
  No sequence of sign-ins, callbacks, requests and revocations lets the transaction store or the
  session store hold more entries than its capacity.
\<close>

theorem credential_stores_stay_bounded:
  "length (after (tx_step lifetime capacity digest) es []) \<le> capacity \<and>
   length (after (se_step lt digest) es' []) \<le> lt_capacity lt"
  using runs_bounded [of "\<lambda>s. length s \<le> capacity" "tx_step lifetime capacity digest" "[]" es]
    runs_bounded [of "\<lambda>s. length s \<le> lt_capacity lt" "se_step lt digest" "[]" es']
  by (simp add: tx_step_bounded se_step_bounded)

text \<open>
  When a rule governs, the decision's severity is the worst effective severity of the eligible
  matches, its risk is the risk-matrix entry of that severity and the governing strength and is
  never NONE, the input was evaluable without whole-evaluation errors, and the matched rules and
  positive indicators it reports are exactly those of the eligible matches.
\<close>

theorem risk_of_a_match:
  assumes "aggregate_decision ok eok rk pf support rs we = Inr d" "dr_governing d \<noteq> None"
  shows "dr_severity d = Max ((\<lambda>r. the (rr_effective r)) ` {r\<in>set rs. is_eligible_matched r}) \<and>
    RISK_MATRIX (dr_severity d) (dr_strength d) = Some (dr_risk d) \<and> dr_risk d \<noteq> NONE \<and>
    we = [] \<and> (support = S_SUPPORTED \<or> support = S_PARTIALLY_SUPPORTED) \<and> dr_confidence d \<noteq> None \<and>
    set (dr_matched_rules d) = rr_rule_id ` {r\<in>set rs. is_eligible_matched r} \<and>
    set (dr_positive d) = (\<Union>r\<in>{r\<in>set rs. is_eligible_matched r}. set (rr_matched_positive r))"
  using aggregate_matched_all [OF assms] aggregate_collects [OF assms] unfolding set_filter by blast

theorem risk_of_a_match_witness:
  "RISK_MATRIX (dr_severity sample_decision) (dr_strength sample_decision) = Some (dr_risk sample_decision) \<and>
   dr_risk sample_decision \<noteq> NONE"
  using risk_of_a_match [OF sample_aggregate] by (simp add: sample_decision_def)

text \<open>
  json.dumps with sorted keys and compact separators loses nothing: two canonical texts are equal
  exactly when the values are equal up to the order of their keys, so comparing or hashing the text
  compares the values. A float is its printed text, a number with a point or an exponent.
\<close>

theorem canonical_text_identifies_the_value:
  assumes "printed_floats a" "printed_floats b"
  shows "canonical_text a = canonical_text b \<longleftrightarrow> sort_keys a = sort_keys b"
  by (rule canonical_text_inj [OF assms])

theorem canonical_text_identifies_the_value_witness:
  "canonical_text (JObj [(''b'', JInt 10), (''a'', JStr ''x'')]) = canonical_text (JObj [(''a'', JStr ''x''), (''b'', JInt 10)])"
  using canonical_text_identifies_the_value [of "JObj [(''b'', JInt 10), (''a'', JStr ''x'')]"
      "JObj [(''a'', JStr ''x''), (''b'', JInt 10)]"] by code_simp

text \<open>
  A disagreement between two stages: the aggregation counts only composite matches as matched rules,
  while matched_rule_ids of result.py counts every MATCHED rule result. A decision whose results
  contain a matched rule of kind SUPPRESSION is therefore never returned: the assembly of an
  otherwise valid evaluation fails.
\<close>

theorem matched_suppression_rule_blocks_the_result:
  assumes "evaluate_decision_from_governed io_ok obs_ok ok eok rk DEFAULT_PROFILE inds obs support l s [] = Inr d"
    and "support \<in> set EVALUABLE_SUPPORT" "map_of SUPPORT_VALUES st = Some support"
    and "validate_seq ''language'' lang = Inr [l]" "validate_seq ''script'' scr = Inr [s]"
    and "x \<in> set (dr_results d)" "rr_kind x = SUPPRESSION" "rr_state x = MATCHED"
  shows "evaluate_detection_from_governed fi io_ok obs_ok ok eok det_ok rk inds obs eid ts iid lang scr st [] \<noteq> Inr r"
  by (rule matched_suppression_refused [OF assms])

theorem matched_suppression_rule_blocks_the_result_witness:
  "(\<exists>d. evaluate_decision_from_governed any_json any_json (\<lambda>_. True) (\<lambda>_. True) suppression_knowledge
       DEFAULT_PROFILE negative_inds sample_observations S_SUPPORTED ''en'' ''Latn'' [] = Inr d) \<and>
   \<not> (\<exists>r. detect suppression_knowledge ''SUPPORTED'' = Inr r)"
proof -
  obtain d x where d: "evaluate_decision_from_governed any_json any_json (\<lambda>_. True) (\<lambda>_. True) suppression_knowledge
      DEFAULT_PROFILE negative_inds sample_observations S_SUPPORTED ''en'' ''Latn'' [] = Inr d"
    and x: "x \<in> set (dr_results d)" "rr_kind x = SUPPRESSION" "rr_state x = MATCHED"
    using suppression_run by blast
  from matched_suppression_rule_blocks_the_result [OF d release_seq(5,3,1,2) x] d show ?thesis by blast
qed

text \<open>
  The stages disagree on a soft negative that overrides may not block: the evaluator lists it as
  blocked when an active override names its category, the suppression stage does not, its
  cross-check fails and a rule with live evidence is degraded to NOT_APPLICABLE instead of being
  suppressed. On the sample bundle with blockable_by_overrides set to false this happens to rule
  R-1.
\<close>

theorem unblockable_soft_negative_degrades_a_match:
  "\<exists>res r'. evaluate_composite unblockable_knowledge DEFAULT_PROFILE rule_1 ''R-1'' ''1.0.0'' (sample_ctx ''NEG-R'') = Inr res \<and>
     rr_state res = MATCHED \<and> apply_suppression unblockable_knowledge res = Inr r' \<and>
     rr_state r' = NOT_APPLICABLE \<and> rr_error r' = Some (''SUPPRESSION_EXECUTION_ERROR'', ''blocked_suppressors disagree'')"
  using sample_unblockable by blast

text \<open>
  The short-circuiting loops compute the reference operators: all_of is the minimum and any_of the
  maximum in the order FALSE < UNKNOWN < TRUE, n_of decides by counting, n_of 1 is any_of and n_of
  of all operands is all_of.
\<close>

theorem kleene_operators_match_their_tables:
  assumes "vs \<noteq> []"
  shows "all_of (map Inr vs) = Inr (Min (set vs)) \<and> any_of (map Inr vs) = Inr (Max (set vs)) \<and>
    n_of 1 vs = any_of (map Inr vs) \<and> n_of (int (length vs)) vs = all_of (map Inr vs) \<and>
    (\<forall>n\<ge>1. n_of n vs = Inr (if n \<le> int (count_list vs TRUE) then TRUE
       else if int (count_list vs TRUE) + int (count_list vs UNKNOWN) < n then FALSE else UNKNOWN))"
  using all_of_Min [OF assms] any_of_Max [OF assms] n_of_one n_of_length [OF assms] n_of_counts by blast

theorem kleene_operators_match_their_tables_witness:
  "n_of 2 [TRUE, UNKNOWN] = all_of (map Inr [TRUE, UNKNOWN])"
  using kleene_operators_match_their_tables [of "[TRUE, UNKNOWN]"] by simp

text \<open>
  Determinism of the validator: the outcome of the per-proposal stages, the error included, does not
  depend on the order in which the provider lists its observations and its indicators.
\<close>

theorem proposal_order_is_irrelevant:
  assumes "mset obs = mset obs'" "mset inds = mset inds'"
  shows "check_proposals rk input normalized obs inds = check_proposals rk input normalized obs' inds'"
  by (rule check_proposals_perm [OF assms])

theorem proposal_order_is_irrelevant_witness:
  "check_proposals ai_knowledge ''in-1'' ''send money''
     [sample_proposal (JInt 0) (JInt 4) [], sample_proposal (JInt 0) (JInt 99) []] [] =
   check_proposals ai_knowledge ''in-1'' ''send money''
     [sample_proposal (JInt 0) (JInt 99) [], sample_proposal (JInt 0) (JInt 4) []] []"
  by (rule proposal_order_is_irrelevant) simp_all

text \<open>
  Round trip of the replay record: a snapshot pinned for an accepted extraction of a valid
  configuration, written out as JSON and restored, is the snapshot itself, digest included. The only
  payload that does not come back is one that has grown over the node budget of the JSON copy.
\<close>

theorem replay_snapshots_restore:
  assumes "make_config c = Inr c" "new_extraction_result run evaluation c v = Inr x"
    and "pin_replay_snapshot sha x artifact content eng profile = Inr sn"
    and "snapshot_dict sha sn = Inr written" "json_copy 0 written COPY_BUDGET = Inr rest"
  shows "restore_replay_snapshot sha written = Inr sn"
  by (rule restore_pinned [OF assms])

theorem replay_snapshots_restore_witness:
  "\<exists>written. snapshot_dict zeros sample_snapshot = Inr written \<and> restore_replay_snapshot zeros written = Inr sample_snapshot"
proof -
  obtain written rest where p: "snapshot_dict zeros sample_snapshot = Inr written" "json_copy 0 written COPY_BUDGET = Inr rest"
    using sample_payload by blast
  from replay_snapshots_restore [OF sample_config_made sample_audit_made sample_pinned p] p(1) show ?thesis by blast
qed

text \<open>
  What the suppression stage does to a matched composite rule: it becomes SUPPRESSED exactly when
  some matched SUPPRESS_RULE negative is not blocked by an active override, and its effective
  severity becomes the minimum of the base severity and the caps of the unblocked CAP_SEVERITY
  negatives.
\<close>

theorem suppression_stage_outcome:
  assumes "apply_effects rk r = Inr r'" "rr_kind r = COMPOSITE" "rr_state r = MATCHED"
  shows "\<exists>cats base. blocked_categories rk (sorted_unique (rr_overrides r)) = Inr cats \<and>
    rr_required r = TRUE \<and> rr_effective r = Some base \<and>
    rr_state r' = (if \<exists>n\<in>set (rr_matched_negative r). has_effect rk cats ''SUPPRESS_RULE'' False n
                   then SUPPRESSED else MATCHED) \<and>
    rr_effective r' =
      Some (Min (insert base {c. \<exists>n\<in>set (rr_matched_negative r). surviving_cap rk cats n c}))"
  by (rule apply_effects_outcome [OF assms]) blast

theorem suppression_stage_outcome_witness:
  "\<exists>cats. blocked_categories override_knowledge (sorted_unique (rr_overrides wp3_1)) = Inr cats \<and>
     rr_state wp4_1 = (if \<exists>n\<in>set (rr_matched_negative wp3_1).
                          has_effect override_knowledge cats ''SUPPRESS_RULE'' False n
                       then SUPPRESSED else MATCHED)"
  using suppression_stage_outcome [OF sample_effects_1 sample_effects_fields(1,2)] by blast

text \<open>
  Two verified replay snapshots with the same digest, on whose materials SHA-256 does not collide,
  pin the same replay: the same governed artifact up to the order of keys, the same content digest,
  engine version and profile, the same run and evaluation, configuration and validated extraction.
\<close>

theorem replay_digest_pins_the_artifact:
  assumes "verify_snapshot sha a = Inr ()" "verify_snapshot sha b = Inr ()" "sn_digest a = sn_digest b"
    and "material_hash_sound sha a b"
  shows "same_replay a b"
  by (rule digest_pins_replay [OF assms])

theorem replay_digest_pins_the_artifact_witness:
  "same_replay sample_snapshot sample_snapshot"
  by (rule replay_digest_pins_the_artifact [OF sample_verified sample_verified refl sample_hash_sound])

end
