(* ===== verification/Loader.thy ===== *)
theory Loader
  imports Indexes CanonicalJson
begin

text \<open>
  knowledge/runtime/loader.py: from a bundle directory to a \<open>RuntimeKnowledge\<close>, or a typed error. What
  is outside the package is a parameter: the directory as the file system shows it, SHA-256, the JSON
  parser and the JSON Schema validator. Strings are byte strings.
\<close>

section \<open>Parameters\<close>

text \<open>
  \<open>hexdigest\<close> of SHA-256; \<open>json.loads\<close> of the decoded bytes (nothing on a decoding or parse error); the
  validators of the two engine-side schema files (nothing when the file is unreadable or no schema);
  \<open>Draft202012Validator.check_schema\<close>; and validation of an instance by a bundled schema.
\<close>

record libraries =
  lb_sha256 :: "string \<Rightarrow> string"
  lb_loads :: "string \<Rightarrow> json option"
  lb_manifest_ok :: "(json \<Rightarrow> bool) option"
  lb_policy_ok :: "(json \<Rightarrow> bool) option"
  lb_check_schema :: "json \<Rightarrow> bool"
  lb_rule_ok :: "json \<Rightarrow> json \<Rightarrow> bool"

text \<open>
  The bundle directory: whether it is one, its resolved path, where a relative path under it resolves to
  (symbolic links followed), and the regular file at a resolved path with its bytes if they can be read.
\<close>

record directory =
  dir_is_dir :: bool
  dir_root :: "string list"
  dir_resolve :: "string \<Rightarrow> string list"
  dir_file :: "string list \<Rightarrow> string option option"

section \<open>Constants\<close>

definition MANIFEST_FILENAME :: string where
  "MANIFEST_FILENAME = ''bundle-manifest.json''"

definition ALLOWED_PREFIXES :: "string list" where
  "ALLOWED_PREFIXES = [''rules/'', ''indicators/'', ''taxonomy/'', ''schemas/'', ''sources/'', ''detection/'']"

definition DISALLOWED_SUBSTRINGS :: "string list" where
  "DISALLOWED_SUBSTRINGS = [''seed-data'', ''_fixtures'', ''coverage'', ''validation'', ''seed-corpus'']"

definition RULE_SCHEMA_MEMBER :: string where
  "RULE_SCHEMA_MEMBER = ''schemas/rule.schema.json''"

definition ENVELOPE_SCHEMA_MEMBER :: string where
  "ENVELOPE_SCHEMA_MEMBER = ''schemas/input-envelope.schema.json''"

definition EXTRACTION_SCHEMA_MEMBERS :: "string list" where
  "EXTRACTION_SCHEMA_MEMBERS =
     [ENVELOPE_SCHEMA_MEMBER, ''schemas/observation.schema.json'', ''schemas/url-observation.schema.json'',
      ''schemas/indicator-observation.schema.json'']"

definition COMPONENT_MEMBERS :: "(string \<times> string) list" where
  "COMPONENT_MEMBERS =
     [(''registry'', ''indicators/indicator-registry-v0.json''),
      (''families'', ''indicators/indicator-families-v1.json''),
      (''negatives'', ''indicators/negative-indicator-library-v1.json''),
      (''taxonomy'', ''taxonomy/scam-taxonomy.json''), (''dimensions'', ''taxonomy/dimensions-v1.json''),
      (''sources'', ''sources/verification-manifest.json''),
      (''evidence'', ''sources/evidence-records.json''),
      (''action_policy'', ''detection/action-policy-v1.json'')]"

definition component_member :: "string \<Rightarrow> string" where
  "component_member k = (case map_of COMPONENT_MEMBERS k of Some p \<Rightarrow> p | None \<Rightarrow> [])"

definition ACTION_POLICY_MEMBER :: string where
  "ACTION_POLICY_MEMBER = component_member ''action_policy''"

definition REQUIRED_MEMBERS :: "string list" where
  "REQUIRED_MEMBERS =
     map snd (filter (\<lambda>(k, _). k \<noteq> ''action_policy'') COMPONENT_MEMBERS) @
     RULE_SCHEMA_MEMBER # EXTRACTION_SCHEMA_MEMBERS"

definition FIXED_MEMBERS :: "string list" where
  "FIXED_MEMBERS = REQUIRED_MEMBERS @ [ACTION_POLICY_MEMBER]"

definition SUPPORTED_MANIFEST_SCHEMA_VERSIONS :: "string list" where
  "SUPPORTED_MANIFEST_SCHEMA_VERSIONS = [''1.0.0'', ''1.1.0'']"

definition WP6_MANIFEST_SCHEMA_VERSION :: string where
  "WP6_MANIFEST_SCHEMA_VERSION = ''1.1.0''"

definition SUPPORTED_BUNDLE_VERSIONS :: "string list" where
  "SUPPORTED_BUNDLE_VERSIONS = [''1.0.0'']"

definition SUPPORTED_COMPONENT_VERSIONS :: "(string \<times> string list) list" where
  "SUPPORTED_COMPONENT_VERSIONS =
     [(''rule_schema'', [''1.0.0'']), (''taxonomy'', [''2.0'']), (''dimensions'', [''1.0.0'']),
      (''indicator_registry'', [''0.3.0-interim'']), (''indicator_families'', [''1.0.0'']),
      (''negative_library'', [''2.0.0'']), (''evidence_manifest'', [''1.2'']), (''evidence_records'', [''1.0'']),
      (''extraction_schemas'', [''1.0.0'']), (''action_policy'', [''1.0.0''])]"

section \<open>Paths\<close>

fun split_on :: "char \<Rightarrow> string \<Rightarrow> string list" where
  "split_on c [] = [[]]"
| "split_on c (x # xs) =
     (if x = c then [] # split_on c xs
      else case split_on c xs of [] \<Rightarrow> [[x]] | w # ws \<Rightarrow> (x # w) # ws)"

fun join_with :: "string \<Rightarrow> string list \<Rightarrow> string" where
  "join_with sep [] = []"
| "join_with sep [w] = w"
| "join_with sep (w # ws) = w @ sep @ join_with sep ws"

text \<open>\<open>posixpath.normpath\<close>: the components kept so far are in reverse.\<close>

fun norm_loop :: "bool \<Rightarrow> string list \<Rightarrow> string list \<Rightarrow> string list" where
  "norm_loop rooted kept [] = rev kept"
| "norm_loop rooted kept (cmp # comps) =
     (if cmp = [] \<or> cmp = ''.'' then norm_loop rooted kept comps
      else if cmp \<noteq> ''..'' \<or> (\<not> rooted \<and> kept = []) \<or> (kept \<noteq> [] \<and> hd kept = ''..'')
      then norm_loop rooted (cmp # kept) comps
      else norm_loop rooted (tl kept) comps)"

definition starts_with :: "string \<Rightarrow> string \<Rightarrow> bool" where
  "starts_with p s \<longleftrightarrow> take (length p) s = p"

definition ends_with :: "string \<Rightarrow> string \<Rightarrow> bool" where
  "ends_with p s \<longleftrightarrow> starts_with (rev p) (rev s)"

definition normpath :: "string \<Rightarrow> string" where
  "normpath path =
     (if path = [] then ''.''
      else
        let slashes = (if \<not> starts_with ''/'' path then 0
                       else if starts_with ''//'' path \<and> \<not> starts_with ''///'' path then 2 else 1);
            comps = norm_loop (slashes \<noteq> 0) [] (split_on (CHR ''/'') path);
            out = replicate slashes (CHR ''/'') @ join_with ''/'' comps
        in if out = [] then ''.'' else out)"

definition unsafe :: "string \<Rightarrow> 'a loading" where
  "unsafe msg = Inl (BundleLoadError UnsafePathError ''UNSAFE_PATH'' msg)"

definition safe_resolve :: "directory \<Rightarrow> string \<Rightarrow> string list loading" where
  "safe_resolve d rel =
     (if rel = [] \<or> CHR 0x00 \<in> set rel then unsafe ''invalid member path''
      else if starts_with ''/'' rel \<or> starts_with [CHR 0x5C] rel \<or> CHR 0x5C \<in> set rel
      then unsafe ''absolute/backslash member path not allowed''
      else if rel \<noteq> normpath rel then unsafe ''non-canonical member path''
      else if ''..'' \<in> set (split_on (CHR ''/'') rel) then unsafe ''path traversal in member path''
      else if \<not> list_ex (\<lambda>p. starts_with p rel) ALLOWED_PREFIXES
      then unsafe ''member path outside allowed runtime prefixes''
      else let resolved = dir_resolve d rel in
           if resolved \<noteq> dir_root d \<and>
              \<not> (length (dir_root d) < length resolved \<and> take (length (dir_root d)) resolved = dir_root d)
           then unsafe ''member path escapes the bundle root''
           else Inr resolved)"

text \<open>\<open>^rules/TL-[A-Z]{3,5}-\d{3}\.json$\<close>; the dollar also matches before a final newline.\<close>

definition is_upper :: "char \<Rightarrow> bool" where
  "is_upper c \<longleftrightarrow> CHR ''A'' \<le> c \<and> c \<le> CHR ''Z''"

definition rule_member :: "string \<Rightarrow> bool" where
  "rule_member rel \<longleftrightarrow>
     (let rest = drop 9 rel; letters = takeWhile is_upper rest; tail = dropWhile is_upper rest in
      take 9 rel = ''rules/TL-'' \<and> 3 \<le> length letters \<and> length letters \<le> 5 \<and>
      take 1 tail = ''-'' \<and> length (take 3 (drop 1 tail)) = 3 \<and>
      list_all Conditions.is_digit (take 3 (drop 1 tail)) \<and>
      (drop 4 tail = ''.json'' \<or> drop 4 tail = ''.json'' @ [CHR 0x0A]))"

definition unexpected :: "string \<Rightarrow> unit loading" where
  "unexpected msg = Inl (BundleLoadError IntegrityError ''UNEXPECTED_MEMBER'' msg)"

definition reject_unexpected_member :: "string \<Rightarrow> unit loading" where
  "reject_unexpected_member rel =
     (if \<not> ends_with ''.json'' rel then unexpected ''unexpected member type''
      else if list_ex (\<lambda>bad. is_substring bad rel) DISALLOWED_SUBSTRINGS then unexpected ''disallowed member''
      else if rel \<in> set FIXED_MEMBERS \<or> rule_member rel then Inr ()
      else unexpected ''unknown manifested member'')"

section \<open>The manifest\<close>

record file_entry =
  fe_path :: string
  fe_sha :: string
  fe_bytes :: int

record manifest =
  mf_schema_version :: string
  mf_bundle_version :: string
  mf_digest :: string
  mf_commit :: string
  mf_gate :: string
  mf_components :: "string dict"
  mf_files :: "file_entry list"
  mf_counts :: "json dict"

definition read_entry :: "json \<Rightarrow> file_entry option" where
  "read_entry j =
     (case (jfield j ''path'', jfield j ''sha256'', jfield j ''bytes'') of
        (JStr p, JStr s, JInt n) \<Rightarrow> Some \<lparr>fe_path = p, fe_sha = s, fe_bytes = n\<rparr>
      | _ \<Rightarrow> None)"

fun all_some :: "'a option list \<Rightarrow> 'a list option" where
  "all_some [] = Some []"
| "all_some (x # xs) = (case x of None \<Rightarrow> None | Some y \<Rightarrow> map_option (\<lambda>ys. y # ys) (all_some xs))"

text \<open>The fields of a manifest the loader indexes, with the types its schema demands.\<close>

definition read_manifest :: "json \<Rightarrow> manifest option" where
  "read_manifest j =
     (case all_some (map read_entry (elements (jfield (jfield j ''integrity'') ''files''))) of
        None \<Rightarrow> None
      | Some files \<Rightarrow>
          if is_text (jfield j ''manifest_schema_version'') \<and> is_text (jfield j ''bundle_version'') \<and>
             is_text (jfield j ''content_digest'') \<and> is_object (jfield j ''component_versions'') \<and>
             list_all (\<lambda>(_, v). is_text v) (members (jfield j ''component_versions'')) \<and>
             is_array (jfield (jfield j ''integrity'') ''files'')
          then Some
            \<lparr>mf_schema_version = text_of (jfield j ''manifest_schema_version''),
             mf_bundle_version = text_of (jfield j ''bundle_version''),
             mf_digest = text_of (jfield j ''content_digest''),
             mf_commit = (if has_field j ''commit_sha'' then text_of (jfield j ''commit_sha'') else ''unknown''),
             mf_gate = (if has_field j ''gate'' then text_of (jfield j ''gate'') else ''NOT_RECORDED''),
             mf_components = map (\<lambda>(k, v). (k, text_of v)) (members (jfield j ''component_versions'')),
             mf_files = files, mf_counts = members (jfield j ''counts'')\<rparr>
          else None)"

definition canonical_content_digest :: "(string \<Rightarrow> string) \<Rightarrow> file_entry list \<Rightarrow> string" where
  "canonical_content_digest sha files =
     sha (join_with [CHR 0x0A] (map (\<lambda>f. fe_path f @ ''='' @ fe_sha f) (sort_key fe_path files)))"

text \<open>Steps 0 and 1 of \<open>load_bundle\<close>: the manifest file and its schema.\<close>

definition load_manifest :: "libraries \<Rightarrow> directory \<Rightarrow> manifest loading" where
  "load_manifest lib d =
     (if \<not> dir_is_dir d
      then Inl (BundleLoadError BundleNotFoundError ''BUNDLE_NOT_FOUND'' ''bundle directory not found'')
      else if dir_resolve d MANIFEST_FILENAME \<noteq> dir_root d @ [MANIFEST_FILENAME]
      then unsafe ''manifest resolves outside the bundle root''
      else case dir_file d (dir_resolve d MANIFEST_FILENAME) of
        None \<Rightarrow> Inl (BundleLoadError BundleNotFoundError ''BUNDLE_NOT_FOUND'' ''no manifest in bundle'')
      | Some None \<Rightarrow> Inl (BundleLoadError ManifestError ''MANIFEST_PARSE_ERROR'' ''manifest unreadable'')
      | Some (Some data) \<Rightarrow>
          (case lb_loads lib data of
             None \<Rightarrow> Inl (BundleLoadError ManifestError ''MANIFEST_PARSE_ERROR'' ''manifest is not valid JSON'')
           | Some j \<Rightarrow>
               (case lb_manifest_ok lib of
                  None \<Rightarrow> Inl (BundleLoadError ManifestError ''MANIFEST_SCHEMA_INVALID'' ''contract unavailable'')
                | Some ok \<Rightarrow>
                    if \<not> ok j
                    then Inl (BundleLoadError ManifestError ''MANIFEST_SCHEMA_INVALID'' ''manifest fails its schema'')
                    else case read_manifest j of
                           None \<Rightarrow> Inl (Leaked (KeyError ''manifest''))
                         | Some m \<Rightarrow> Inr m)))"

section \<open>Members\<close>

text \<open>Step 2: every listed path is safe, expected and new.\<close>

fun check_members :: "directory \<Rightarrow> file_entry list \<Rightarrow> string list \<Rightarrow> unit loading" where
  "check_members d [] seen = Inr ()"
| "check_members d (f # fs) seen =
     rbind (safe_resolve d (fe_path f)) (\<lambda>_.
     rbind (reject_unexpected_member (fe_path f)) (\<lambda>_.
     if fe_path f \<in> set seen then unsafe ''duplicate member path in manifest''
     else check_members d fs (fe_path f # seen)))"

definition is_wp6 :: "manifest \<Rightarrow> bool" where
  "is_wp6 m \<longleftrightarrow> mf_schema_version m = WP6_MANIFEST_SCHEMA_VERSION"

definition member_paths :: "manifest \<Rightarrow> string list" where
  "member_paths m = map fe_path (mf_files m)"

text \<open>Steps 2b and 3: no hybrid manifest, and the required members are listed.\<close>

definition check_projection :: "manifest \<Rightarrow> unit loading" where
  "check_projection m =
     rbind (require_that (is_wp6 m \<or> map_of (mf_components m) ''action_policy'' = None)
       CompatibilityError ''VERSION_INCOMPATIBLE'' ''hybrid manifest: action_policy pin'') (\<lambda>_.
     rbind (require_that (is_wp6 m \<or> ACTION_POLICY_MEMBER \<notin> set (member_paths m))
       IntegrityError ''UNEXPECTED_MEMBER'' ''hybrid manifest: action-policy member'') (\<lambda>_.
     rbind (require_that (list_all (\<lambda>p. p \<in> set (member_paths m))
         (REQUIRED_MEMBERS @ (if is_wp6 m then [ACTION_POLICY_MEMBER] else [])))
       IntegrityError ''COMPONENT_MISSING'' ''required bundle members absent'') (\<lambda>_.
     require_that (list_ex (starts_with ''rules/'') (member_paths m))
       IntegrityError ''COMPONENT_MISSING'' ''bundle contains no rules/ member'')))"

text \<open>Step 4: the bytes of every member, with their hash and length verified, are retained.\<close>

definition verify_member :: "libraries \<Rightarrow> directory \<Rightarrow> file_entry \<Rightarrow> (string \<times> string) loading" where
  "verify_member lib d f =
     (case dir_file d (dir_resolve d (fe_path f)) of
        None \<Rightarrow> Inl (BundleLoadError IntegrityError ''COMPONENT_MISSING'' ''bundle member missing on disk'')
      | Some None \<Rightarrow> Inl (BundleLoadError IntegrityError ''COMPONENT_UNREADABLE'' ''bundle member unreadable'')
      | Some (Some data) \<Rightarrow>
          if lb_sha256 lib data \<noteq> fe_sha f
          then Inl (BundleLoadError IntegrityError ''COMPONENT_HASH_MISMATCH'' ''sha256 mismatch'')
          else if int (length data) \<noteq> fe_bytes f
          then Inl (BundleLoadError IntegrityError ''COMPONENT_BYTE_COUNT_MISMATCH'' ''byte-count mismatch'')
          else Inr (fe_path f, data))"

text \<open>Step 6: exact-token version allowlists.\<close>

definition check_versions :: "manifest \<Rightarrow> unit loading" where
  "check_versions m =
     rbind (require_that (mf_schema_version m \<in> set SUPPORTED_MANIFEST_SCHEMA_VERSIONS)
       CompatibilityError ''SCHEMA_INCOMPATIBLE'' ''unsupported manifest_schema_version'') (\<lambda>_.
     rbind (require_that (mf_bundle_version m \<in> set SUPPORTED_BUNDLE_VERSIONS)
       CompatibilityError ''VERSION_INCOMPATIBLE'' ''unsupported bundle_version'') (\<lambda>_.
     each (\<lambda>(cmp, allowed).
       require_that (cmp = ''action_policy'' \<and> \<not> is_wp6 m \<or> map_of (mf_components m) cmp \<in> Some ` set allowed)
         CompatibilityError ''VERSION_INCOMPATIBLE'' (''unsupported version of '' @ cmp))
       SUPPORTED_COMPONENT_VERSIONS))"

section \<open>Parsing\<close>

definition parse_member :: "libraries \<Rightarrow> string dict \<Rightarrow> string \<Rightarrow> json loading" where
  "parse_member lib verified rel =
     (case map_of verified rel of
        None \<Rightarrow> Inl (Leaked (KeyError rel))
      | Some data \<Rightarrow>
          (case lb_loads lib data of
             None \<Rightarrow> Inl (BundleLoadError MemberSchemaError ''MEMBER_PARSE_ERROR'' rel)
           | Some j \<Rightarrow> Inr j))"

definition parse_schema :: "libraries \<Rightarrow> string dict \<Rightarrow> string \<Rightarrow> json loading" where
  "parse_schema lib verified rel =
     rbind (parse_member lib verified rel) (\<lambda>j.
     rbind (require_that (lb_check_schema lib j) MemberSchemaError ''MEMBER_SCHEMA_INVALID'' rel) (\<lambda>_. Inr j))"

text \<open>A rule member is valid when the bundled schema accepts it, which includes its vocabularies.\<close>

definition parse_rule :: "libraries \<Rightarrow> string dict \<Rightarrow> json \<Rightarrow> string \<Rightarrow> json loading" where
  "parse_rule lib verified schema rel =
     rbind (parse_member lib verified rel) (\<lambda>j.
     rbind (require_that (lb_rule_ok lib schema j \<and> view_rule j \<noteq> None)
       MemberSchemaError ''MEMBER_SCHEMA_INVALID'' rel) (\<lambda>_. Inr j))"

definition EMPTY_POLICY :: json where
  "EMPTY_POLICY = JObj [(''policy_version'', JNull), (''entries'', JArr [])]"

text \<open>Step 7: the parsed components, with the rule schema.\<close>

definition parse_components ::
    "libraries \<Rightarrow> bool \<Rightarrow> string list \<Rightarrow> string dict \<Rightarrow> (raw_components \<times> json) loading" where
  "parse_components lib wp6 paths verified =
     (let part = (\<lambda>k. parse_member lib verified (component_member k)) in
      rbind (parse_schema lib verified RULE_SCHEMA_MEMBER) (\<lambda>schema.
      rbind (each (\<lambda>rel. rbind (parse_schema lib verified rel) (\<lambda>_. Inr ())) EXTRACTION_SCHEMA_MEMBERS) (\<lambda>_.
      rbind (map_res (parse_rule lib verified schema) (sort (filter (starts_with ''rules/'') paths))) (\<lambda>rules.
      rbind (part ''registry'') (\<lambda>registry.
      rbind (part ''families'') (\<lambda>families.
      rbind (part ''negatives'') (\<lambda>negatives.
      rbind (part ''taxonomy'') (\<lambda>taxonomy.
      rbind (part ''dimensions'') (\<lambda>dimensions.
      rbind (part ''sources'') (\<lambda>sources.
      rbind (part ''evidence'') (\<lambda>evidence.
      rbind (if wp6 then part ''action_policy'' else Inr EMPTY_POLICY) (\<lambda>policy.
      Inr (\<lparr>raw_rules = rules, raw_registry = registry, raw_families = families, raw_negatives = negatives,
            raw_taxonomy = taxonomy, raw_dimensions = dimensions, raw_sources = sources,
            raw_evidence = evidence, raw_action_policy = policy\<rparr>, schema)))))))))))))"

section \<open>The action policy\<close>

definition trigger_target_resolves :: "components \<Rightarrow> trigger \<Rightarrow> bool" where
  "trigger_target_resolves c t =
     (case t of
        T_OVERRIDE tid \<Rightarrow> tid \<in> ov_id ` set (cp_overrides c)
      | T_RULE tid \<Rightarrow> tid \<in> ru_id ` set (cp_rules c)
      | T_TAXONOMY tid \<Rightarrow> tid \<in> set (concat (map (map fst \<circ> taxonomy_entries) (cp_taxonomy c)))
      | T_NEGATIVE_INDICATOR tid \<Rightarrow> tid \<in> ng_id ` set (cp_negatives c)
      | _ \<Rightarrow> True)"

fun check_entries :: "components \<Rightarrow> policy_entry list \<Rightarrow> string list \<Rightarrow> unit loading" where
  "check_entries c [] seen = Inr ()"
| "check_entries c (e # es) seen =
     rbind (require_that (ap_id e \<notin> set seen) ReferenceIntegrityError ''DUPLICATE_ID'' (ap_id e)) (\<lambda>_.
     rbind (require_that (trigger_target_resolves c (ap_trigger e))
       ReferenceIntegrityError ''REFERENCE_INVALID'' (ap_id e)) (\<lambda>_.
     rbind (require_that (list_all (\<lambda>s. s \<in> so_id ` set (cp_sources c)) (ap_evidence e))
       ReferenceIntegrityError ''REFERENCE_INVALID'' (ap_id e)) (\<lambda>_.
     check_entries c es (ap_id e # seen))))"

definition validate_action_policy :: "libraries \<Rightarrow> raw_components \<Rightarrow> unit loading" where
  "validate_action_policy lib raw =
     (case lb_policy_ok lib of
        None \<Rightarrow> Inl (BundleLoadError MemberSchemaError ''MEMBER_SCHEMA_INVALID'' ''contract unavailable'')
      | Some ok \<Rightarrow>
          rbind (require_that (ok (raw_action_policy raw) \<and>
              list_all (\<lambda>e. view_entry e \<noteq> None) (elements (jfield (raw_action_policy raw) ''entries'')))
            MemberSchemaError ''MEMBER_SCHEMA_INVALID'' ''action policy fails its schema'') (\<lambda>_.
          check_entries (view_components raw) (cp_policy (view_components raw)) []))"

section \<open>Embedded versions and counts\<close>

text \<open>\<open>d.get(k1, {}).get(k2, {}) ... .get(kn)\<close>\<close>

fun get_chain :: "json \<Rightarrow> string list \<Rightarrow> json res" where
  "get_chain v [] = Inr v"
| "get_chain (JObj kvs) [k] = Inr (jget kvs k)"
| "get_chain (JObj kvs) (k # ks) =
     (case map_of kvs k of None \<Rightarrow> get_chain (JObj []) ks | Some v \<Rightarrow> get_chain v ks)"
| "get_chain v (k # ks) = Inl (AttributeError (type_name v @ '' object has no attribute get''))"

definition manifest_version_of :: "json \<Rightarrow> json res" where
  "manifest_version_of j =
     (if has_field j ''manifest_version'' then get_chain j [''manifest_version''] else get_chain j [''version''])"

text \<open>\<open>_EMBEDDED_VERSION\<close>, applied to the parsed members.\<close>

definition embedded_versions :: "raw_components \<Rightarrow> json \<Rightarrow> json \<Rightarrow> (string \<times> json res) list" where
  "embedded_versions raw schema envelope =
     [(''rule_schema'', get_chain schema [''properties'', ''schema_version'', ''const'']),
      (''taxonomy'', get_chain (raw_taxonomy raw) [''taxonomy_version'']),
      (''dimensions'', get_chain (raw_dimensions raw) [''dimensions_version'']),
      (''indicator_registry'', get_chain (raw_registry raw) [''registry_version'']),
      (''indicator_families'', get_chain (raw_families raw) [''families_version'']),
      (''negative_library'', get_chain (raw_negatives raw) [''library_version'']),
      (''evidence_manifest'', manifest_version_of (raw_sources raw)),
      (''evidence_records'', get_chain (raw_evidence raw) [''version'']),
      (''extraction_schemas'', get_chain envelope [''properties'', ''envelope_version'', ''const'']),
      (''action_policy'', get_chain (raw_action_policy raw) [''policy_version''])]"

text \<open>\<open>str(v)\<close> of a scalar; no text of a container is an accepted version.\<close>

fun scalar_text :: "json \<Rightarrow> string option" where
  "scalar_text (JStr s) = Some s"
| "scalar_text (JInt i) = Some (int_text i)"
| "scalar_text (JFloat t) = Some t"
| "scalar_text (JBool b) = Some (if b then ''True'' else ''False'')"
| "scalar_text _ = None"

definition version_error :: "string \<Rightarrow> 'a loading" where
  "version_error cmp = Inl (BundleLoadError CompatibilityError ''EMBEDDED_VERSION_MISMATCH'' cmp)"

definition check_embedded :: "bool \<Rightarrow> string dict \<Rightarrow> string \<times> json res \<Rightarrow> unit loading" where
  "check_embedded wp6 cv = (\<lambda>(cmp, version).
     if cmp = ''action_policy'' \<and> \<not> wp6 then Inr ()
     else rbind (python version) (\<lambda>v.
       if v = JNull \<or> scalar_text v \<noteq> map_of cv cmp then version_error cmp else Inr ()))"

definition computed_counts :: "manifest \<Rightarrow> components \<Rightarrow> (string \<times> nat) list" where
  "computed_counts m c =
     [(''files'', length (mf_files m)), (''rules_total'', length (cp_rules c)),
      (''rules_published'', length (published_of (cp_rules c))),
      (''positive_indicators'', length (cp_indicators c)), (''negative_indicators'', length (cp_negatives c)),
      (''taxonomy_categories'', length (cp_taxonomy c)),
      (''taxonomy_subcategories'', sum_list (map (length \<circ> ca_subs) (cp_taxonomy c))),
      (''dimension_terms'', sum_list (map (length \<circ> snd) (cp_dimensions c)))]"

text \<open>\<open>declared[k] == v\<close> for an integer \<open>v\<close>.\<close>

fun equals_count :: "json \<Rightarrow> nat \<Rightarrow> bool" where
  "equals_count (JInt i) n = (i = int n)"
| "equals_count (JBool b) n = (n = (if b then 1 else 0))"
| "equals_count (JFloat t) n = (t = nat_text n @ ''.0'')"
| "equals_count _ n = False"

definition check_counts :: "manifest \<Rightarrow> components \<Rightarrow> unit loading" where
  "check_counts m c =
     each (\<lambda>(k, n). require_that (case map_of (mf_counts m) k of None \<Rightarrow> True | Some v \<Rightarrow> equals_count v n)
       IntegrityError ''COUNTS_MISMATCH'' k) (computed_counts m c)"

section \<open>Loading\<close>

definition load_metadata :: "manifest \<Rightarrow> metadata" where
  "load_metadata m =
     \<lparr>md_bundle_version = mf_bundle_version m, md_manifest_schema_version = mf_schema_version m,
      md_content_digest = mf_digest m, md_commit_sha = mf_commit m, md_gate = mf_gate m,
      md_component_versions = mf_components m,
      md_counts = List.map_filter (\<lambda>(k, v). case v of JInt i \<Rightarrow> Some (k, i) | _ \<Rightarrow> None) (mf_counts m)\<rparr>"

text \<open>Steps 2 to 5: from a manifest to the verified bytes of its members.\<close>

definition verify_bundle :: "libraries \<Rightarrow> directory \<Rightarrow> manifest \<Rightarrow> string dict loading" where
  "verify_bundle lib d m =
     rbind (check_members d (mf_files m) []) (\<lambda>_.
     rbind (check_projection m) (\<lambda>_.
     rbind (map_res (verify_member lib d) (mf_files m)) (\<lambda>verified.
     rbind (require_that (canonical_content_digest (lb_sha256 lib) (mf_files m) = mf_digest m)
       IntegrityError ''DIGEST_MISMATCH'' ''content_digest mismatch'') (\<lambda>_.
     Inr verified))))"

text \<open>Steps 8 to 12: from the parsed members to the knowledge.\<close>

definition assemble_knowledge ::
    "libraries \<Rightarrow> manifest \<Rightarrow> raw_components \<Rightarrow> json \<Rightarrow> json \<Rightarrow> runtime_knowledge loading" where
  "assemble_knowledge lib m raw schema envelope =
     (let c = view_components raw in
      rbind (check_shapes_and_duplicates raw) (\<lambda>_.
      rbind (if is_wp6 m then validate_action_policy lib raw else Inr ()) (\<lambda>_.
      rbind (each (check_embedded (is_wp6 m) (mf_components m)) (embedded_versions raw schema envelope)) (\<lambda>_.
      rbind (check_counts m c) (\<lambda>_.
      rbind (python (validate_references c)) (\<lambda>problems.
      rbind (require_that (problems = []) ReferenceIntegrityError ''REFERENCE_INVALID'' (concat problems)) (\<lambda>_.
      rbind (python (build_indexes (load_metadata m) c)) (\<lambda>rk.
      let pin = (case map_of (mf_components m) ''action_policy'' of None \<Rightarrow> False | Some v \<Rightarrow> v \<noteq> []);
          populated = action_policy_by_id rk \<noteq> [] in
      rbind (require_that (pin = populated \<and> pin = is_wp6 m)
        IntegrityError ''COMPONENT_MISSING'' ''action-policy availability inconsistency'') (\<lambda>_.
      Inr rk)))))))))"

definition load_bundle :: "libraries \<Rightarrow> directory \<Rightarrow> runtime_knowledge loading" where
  "load_bundle lib d =
     rbind (load_manifest lib d) (\<lambda>m.
     rbind (verify_bundle lib d m) (\<lambda>verified.
     rbind (check_versions m) (\<lambda>_.
     rbind (parse_components lib (is_wp6 m) (member_paths m) verified) (\<lambda>(raw, schema).
     rbind (parse_member lib verified ENVELOPE_SCHEMA_MEMBER) (\<lambda>envelope.
     assemble_knowledge lib m raw schema envelope)))))"

end
