(* ===== verification/IndexProps.thy ===== *)
theory IndexProps
  imports Indexes
begin

text \<open>
  What the index construction guarantees: each reverse index is exactly the relation it is named after,
  and a bundle without reference problems resolves every governed reference through the lookups of the
  knowledge built from it.
\<close>

section \<open>Dictionaries of distinct keys\<close>

lemma update_new: "k \<notin> set (dict_keys d) \<Longrightarrow> AList.update k v d = d @ [(k, v)]"
  by (induction d) auto

lemma dict_fold_append:
  "distinct (dict_keys (d @ kvs)) \<Longrightarrow> fold (\<lambda>(k, v) d. AList.update k v d) kvs d = d @ kvs"
proof (induction kvs arbitrary: d)
  case (Cons kv kvs)
  obtain k v where kv: "kv = (k, v)" by fastforce
  from Cons.prems have "k \<notin> set (dict_keys d)" by (auto simp: kv)
  with Cons show ?case by (simp add: kv update_new)
qed simp

lemma dict_of_id: "distinct (dict_keys kvs) \<Longrightarrow> dict_of kvs = kvs"
  using dict_fold_append [of "[]" kvs] by (simp add: dict_of_def)

text \<open>A collection filed under its ids.\<close>

definition filed :: "('a \<Rightarrow> string) \<Rightarrow> 'a list \<Rightarrow> 'a dict" where
  "filed f xs = dict_of (map (\<lambda>x. (f x, x)) xs)"

lemma filed_keys [simp]: "map fst (map (\<lambda>x. (f x, g x)) xs) = map f xs"
  by simp

lemma keyed_lookup:
  assumes "distinct (map f xs)"
  shows "map_of (dict_of (map (\<lambda>x. (f x, g x)) xs)) k = Some y \<longleftrightarrow> (\<exists>x\<in>set xs. f x = k \<and> y = g x)"
proof -
  have d: "distinct (map fst (map (\<lambda>x. (f x, g x)) xs))" using assms by (simp add: comp_def)
  show ?thesis by (auto simp: dict_of_id [OF d] map_of_eq_Some_iff [OF d])
qed

lemma filed_lookup:
  assumes "distinct (map f xs)"
  shows "map_of (filed f xs) k = Some x \<longleftrightarrow> x \<in> set xs \<and> f x = k"
  unfolding filed_def keyed_lookup [OF assms, where g = "\<lambda>x. x"] by blast

lemma filed_None: "map_of (filed f xs) k = None \<longleftrightarrow> k \<notin> f ` set xs"
  by (simp add: filed_def map_of_dict_of map_of_eq_None_iff image_image)

section \<open>Reverse indexes\<close>

lemma reverse_lookup_Nil [simp]: "reverse_lookup [] k = []"
  by (simp add: reverse_lookup_def)

lemma reverse_append [simp]:
  "reverse_lookup (append_to v k d) k' = (if k' = k then reverse_lookup d k @ [v] else reverse_lookup d k')"
  by (simp add: append_to_def reverse_lookup_def dict_simps)

lemma reverse_fold:
  "set (reverse_lookup (fold (append_to v) ks d) k) =
     set (reverse_lookup d k) \<union> (if k \<in> set ks then {v} else {})"
  by (induction ks arbitrary: d) auto

lemma reverse_fold_all:
  "set (reverse_lookup (fold (\<lambda>x. fold (append_to (f x)) (g x)) xs d) k) =
     set (reverse_lookup d k) \<union> {f x |x. x \<in> set xs \<and> k \<in> set (g x)}"
  by (induction xs arbitrary: d) (auto simp: reverse_fold)

lemma sorted_values_lookup: "reverse_lookup (sorted_values d) k = sorted_unique (reverse_lookup d k)"
proof -
  have "map_of (sorted_values d) k = map_option sorted_unique (map_of d k)"
    by (induction d) (auto simp: sorted_values_def)
  then show ?thesis by (simp add: reverse_lookup_def split: option.split)
qed

lemma index_triggers_ok:
  "index_triggers positive rs d = Inr d' \<Longrightarrow>
     set (reverse_lookup d' i) = set (reverse_lookup d i) \<union>
       {ru_id r |r. r \<in> set rs \<and> i \<in> set positive \<and> (\<exists>ops. trigger_ids r = Inr ops \<and> i \<in> set ops)} \<and>
     (\<forall>r\<in>set rs. \<exists>ops. trigger_ids r = Inr ops)"
proof (induction rs arbitrary: d)
  case (Cons r rs)
  then obtain ops where "trigger_ids r = Inr ops"
    and "index_triggers positive rs (fold (append_to (ru_id r)) (filter (\<lambda>i. i \<in> set positive) ops) d) = Inr d'"
    by (auto simp: res_simps)
  with Cons.IH show ?case by (auto simp: reverse_fold)
qed simp

lemma index_conditions_ok:
  "index_conditions ovs d = Inr d' \<Longrightarrow>
     set (reverse_lookup d' i) = set (reverse_lookup d i) \<union>
       {ov_id ov |ov. ov \<in> set ovs \<and> (\<exists>ops. condition_ids ov = Inr ops \<and> i \<in> set ops)}"
proof (induction ovs arbitrary: d)
  case (Cons ov ovs)
  then obtain ops where "condition_ids ov = Inr ops"
    and "index_conditions ovs (fold (append_to (ov_id ov)) ops d) = Inr d'"
    by (auto simp: res_simps)
  with Cons.IH show ?case by (auto simp: reverse_fold)
qed simp

section \<open>The knowledge that is built\<close>

definition distinct_records :: "components \<Rightarrow> bool" where
  "distinct_records c \<longleftrightarrow> distinct (map ru_id (cp_rules c)) \<and> distinct (map in_id (cp_indicators c)) \<and>
     distinct (map ng_id (cp_negatives c)) \<and> distinct (map ov_id (cp_overrides c)) \<and>
     distinct (map fm_id (cp_families c)) \<and> distinct (map so_id (cp_sources c)) \<and>
     distinct (map ev_id (cp_evidence c))"

lemma build_fields:
  assumes "build_indexes meta c = Inr rk"
  shows "rk_meta rk = meta" "rules_by_id rk = filed ru_id (cp_rules c)"
    "published_rules_by_id rk = filed ru_id (published_of (cp_rules c))"
    "indicators_by_id rk = filed in_id (cp_indicators c)"
    "negative_indicators_by_id rk = filed ng_id (cp_negatives c)"
    "indicator_families_by_id rk = filed fm_id (cp_families c)"
    "sources_by_id rk = filed so_id (cp_sources c)" "evidence_by_id rk = filed ev_id (cp_evidence c)"
    "overrides_by_id rk = filed ov_id (cp_overrides c)" "action_policy_by_id rk = filed ap_id (cp_policy c)"
    "taxonomy_by_id rk = dict_of (concat (map taxonomy_entries (cp_taxonomy c)))"
    "dimensions_by_id rk = dict_of (concat (map snd (cp_dimensions c)))"
  using assms by (auto simp: build_indexes_def Let_def res_simps filed_def)

lemma published_lookup:
  assumes "build_indexes meta c = Inr rk" "distinct_records c"
  shows "rk_published_rule rk rid = Some r \<longleftrightarrow> r \<in> set (cp_rules c) \<and> ru_id r = rid \<and> ru_status r = Some ''PUBLISHED''"
proof -
  have "distinct (map ru_id (published_of (cp_rules c)))"
    using assms(2) by (simp add: distinct_records_def published_of_def distinct_map_filter)
  from filed_lookup [OF this] show ?thesis
    by (auto simp: rk_published_rule_def build_fields [OF assms(1)] published_of_def)
qed

lemma record_lookup:
  assumes "build_indexes meta c = Inr rk" "distinct_records c"
  shows "rk_rule rk k = Some r \<longleftrightarrow> r \<in> set (cp_rules c) \<and> ru_id r = k"
    "rk_indicator rk k = Some i \<longleftrightarrow> i \<in> set (cp_indicators c) \<and> in_id i = k"
    "rk_negative rk k = Some n \<longleftrightarrow> n \<in> set (cp_negatives c) \<and> ng_id n = k"
    "rk_override rk k = Some ov \<longleftrightarrow> ov \<in> set (cp_overrides c) \<and> ov_id ov = k"
    "rk_family rk k = Some f \<longleftrightarrow> f \<in> set (cp_families c) \<and> fm_id f = k"
    "rk_source rk k = Some s \<longleftrightarrow> s \<in> set (cp_sources c) \<and> so_id s = k"
    "rk_evidence rk k = Some e \<longleftrightarrow> e \<in> set (cp_evidence c) \<and> ev_id e = k"
  using assms(2) unfolding distinct_records_def
  by (simp_all add: rk_rule_def rk_indicator_def rk_negative_def rk_override_def rk_family_def rk_source_def
      rk_evidence_def build_fields [OF assms(1)] filed_lookup)

lemma build_wf:
  assumes "build_indexes meta c = Inr rk" "distinct_records c"
  shows "wf_knowledge rk"
proof -
  have "ru_id r = k" if "(k, r) \<in> set (rules_by_id rk)" for k r
  proof -
    have d: "distinct (map fst (map (\<lambda>r. (ru_id r, r)) (cp_rules c)))"
      using assms(2) by (simp add: distinct_records_def comp_def)
    show ?thesis using that by (auto simp: build_fields [OF assms(1)] filed_def dict_of_id [OF d])
  qed
  moreover have "rk_published_rule rk k =
      (case rk_rule rk k of Some r \<Rightarrow> if ru_status r = Some ''PUBLISHED'' then Some r else None | None \<Rightarrow> None)" for k
  proof -
    have iff: "rk_published_rule rk k = Some r \<longleftrightarrow> rk_rule rk k = Some r \<and> ru_status r = Some ''PUBLISHED''" for r
      by (auto simp: published_lookup [OF assms] record_lookup(1) [OF assms])
    show ?thesis
    proof (cases "rk_published_rule rk k")
      case None
      then show ?thesis using iff by (simp split: option.split)
    next
      case (Some r)
      then show ?thesis using iff [of r] by simp
    qed
  qed
  ultimately show ?thesis unfolding wf_knowledge_def by blast
qed

text \<open>The reverse indexes, read through the lookups alone.\<close>

definition exact_indexes :: "runtime_knowledge \<Rightarrow> bool" where
  "exact_indexes rk \<longleftrightarrow>
     (\<forall>i. set (rules_for_indicator rk i) =
        {rid. rk_indicator rk i \<noteq> None \<and>
           (\<exists>r ops. rk_published_rule rk rid = Some r \<and> trigger_ids r = Inr ops \<and> i \<in> set ops)}) \<and>
     (\<forall>k. set (rules_for_category rk k) =
        {rid. \<exists>r. rk_published_rule rk rid = Some r \<and> k \<in> set (rule_categories r)}) \<and>
     (\<forall>rid. set (negative_indicators_for_rule rk rid) =
        {nid. \<exists>r n. rk_published_rule rk rid = Some r \<and> rk_negative rk nid = Some n \<and> ng_status n = Some ''ACTIVE'' \<and>
           (''*'' \<in> set (ng_families n) \<or> set (ng_families n) \<inter> set (rule_categories r) \<noteq> {})}) \<and>
     (\<forall>i. set (overrides_for_indicator rk i) =
        {oid. \<exists>ov ops. rk_override rk oid = Some ov \<and> condition_ids ov = Inr ops \<and> i \<in> set ops}) \<and>
     (\<forall>t. set (overrides_for_target rk t) =
        {oid. \<exists>ov. rk_override rk oid = Some ov \<and> (t \<in> set (ov_families ov) \<or> t \<in> set (ov_rules ov))})"

lemma triggers_exact:
  assumes "build_indexes meta c = Inr rk" "distinct_records c"
  shows "set (rules_for_indicator rk i) =
    {rid. rk_indicator rk i \<noteq> None \<and>
       (\<exists>r ops. rk_published_rule rk rid = Some r \<and> trigger_ids r = Inr ops \<and> i \<in> set ops)}"
proof -
  obtain d where d: "index_triggers (map in_id (cp_indicators c)) (published_of (cp_rules c)) [] = Inr d"
    and rk: "rules_by_indicator rk = sorted_values d"
    using assms(1) by (auto simp: build_indexes_def Let_def res_simps)
  have "set (rules_for_indicator rk i) = set (reverse_lookup d i)"
    by (simp add: rules_for_indicator_def rk sorted_values_lookup)
  moreover have "rk_indicator rk i \<noteq> None \<longleftrightarrow> i \<in> in_id ` set (cp_indicators c)"
    by (simp add: rk_indicator_def build_fields [OF assms(1)] filed_None)
  ultimately show ?thesis using index_triggers_ok [OF d, of i]
    by (auto simp: published_lookup [OF assms] published_of_def)
qed

lemma categories_exact:
  assumes "build_indexes meta c = Inr rk" "distinct_records c"
  shows "set (rules_for_category rk k) =
    {rid. \<exists>r. rk_published_rule rk rid = Some r \<and> k \<in> set (rule_categories r)}"
  using assms(1) by (auto simp: rules_for_category_def build_indexes_def Let_def res_simps sorted_values_lookup
      reverse_fold_all published_of_def published_lookup [OF assms])

lemma negatives_exact:
  assumes "build_indexes meta c = Inr rk" "distinct_records c"
  shows "set (negative_indicators_for_rule rk rid) =
    {nid. \<exists>r n. rk_published_rule rk rid = Some r \<and> rk_negative rk nid = Some n \<and> ng_status n = Some ''ACTIVE'' \<and>
       (''*'' \<in> set (ng_families n) \<or> set (ng_families n) \<inter> set (rule_categories r) \<noteq> {})}"
proof -
  let ?active = "filter (\<lambda>n. ng_status n = Some ''ACTIVE'') (cp_negatives c)"
  let ?g = "\<lambda>r. sorted_unique (applicable_negatives ?active (rule_categories r))"
  let ?ps = "published_of (cp_rules c)"
  have d: "distinct (map ru_id ?ps)"
    using assms(2) by (simp add: distinct_records_def published_of_def distinct_map_filter)
  have "negative_indicators_by_rule rk = dict_of (map (\<lambda>r. (ru_id r, ?g r)) ?ps)"
    using assms(1) by (auto simp: build_indexes_def Let_def res_simps)
  then have "map_of (negative_indicators_by_rule rk) rid = Some ns \<longleftrightarrow> (\<exists>r\<in>set ?ps. ru_id r = rid \<and> ns = ?g r)" for ns
    by (simp only: keyed_lookup [OF d])
  moreover have "r \<in> set ?ps \<and> ru_id r = rid \<longleftrightarrow> rk_published_rule rk rid = Some r" for r
    by (auto simp: published_lookup [OF assms] published_of_def)
  ultimately have by_rule: "map_of (negative_indicators_by_rule rk) rid = Some ns \<longleftrightarrow>
      (\<exists>r. rk_published_rule rk rid = Some r \<and> ns = ?g r)" for ns
    by blast
  have "set (negative_indicators_for_rule rk rid) = {nid. \<exists>r. rk_published_rule rk rid = Some r \<and> nid \<in> set (?g r)}"
  proof (cases "rk_published_rule rk rid")
    case None
    then have "map_of (negative_indicators_by_rule rk) rid = None" using by_rule by (metis not_None_eq)
    then show ?thesis by (simp add: negative_indicators_for_rule_def reverse_lookup_def None)
  next
    case (Some r)
    then have "map_of (negative_indicators_by_rule rk) rid = Some (?g r)" using by_rule by blast
    then show ?thesis by (simp add: negative_indicators_for_rule_def reverse_lookup_def Some)
  qed
  moreover have "nid \<in> set (?g r) \<longleftrightarrow> (\<exists>n. rk_negative rk nid = Some n \<and> ng_status n = Some ''ACTIVE'' \<and>
      (''*'' \<in> set (ng_families n) \<or> set (ng_families n) \<inter> set (rule_categories r) \<noteq> {}))" for nid r
    unfolding applicable_negatives_def record_lookup [OF assms] by auto
  ultimately show ?thesis by auto
qed

lemma override_conditions_exact:
  assumes "build_indexes meta c = Inr rk" "distinct_records c"
  shows "set (overrides_for_indicator rk i) =
    {oid. \<exists>ov ops. rk_override rk oid = Some ov \<and> condition_ids ov = Inr ops \<and> i \<in> set ops}"
proof -
  obtain d where d: "index_conditions (cp_overrides c) [] = Inr d"
    and rk: "overrides_by_indicator rk = sorted_values d"
    using assms(1) by (auto simp: build_indexes_def Let_def res_simps)
  show ?thesis using index_conditions_ok [OF d, of i]
    by (auto simp: overrides_for_indicator_def rk sorted_values_lookup record_lookup [OF assms])
qed

lemma override_targets_exact:
  assumes "build_indexes meta c = Inr rk" "distinct_records c"
  shows "set (overrides_for_target rk t) =
    {oid. \<exists>ov. rk_override rk oid = Some ov \<and> (t \<in> set (ov_families ov) \<or> t \<in> set (ov_rules ov))}"
proof -
  have "overrides_by_target rk =
      sorted_values (fold (\<lambda>ov. fold (append_to (ov_id ov)) (ov_families ov @ ov_rules ov)) (cp_overrides c) [])"
    using assms(1) by (auto simp: build_indexes_def Let_def res_simps)
  then show ?thesis
    by (auto simp: overrides_for_target_def sorted_values_lookup reverse_fold_all record_lookup [OF assms]
        simp del: fold_append)
qed

lemma build_exact:
  assumes "build_indexes meta c = Inr rk" "distinct_records c"
  shows "exact_indexes rk"
  unfolding exact_indexes_def
  using triggers_exact [OF assms] categories_exact [OF assms] negatives_exact [OF assms]
    override_conditions_exact [OF assms] override_targets_exact [OF assms] by blast

section \<open>References\<close>

lemma report_Nil [simp]: "report what ok show xs = [] \<longleftrightarrow> list_all ok xs"
  by (induction xs) (auto simp: report_def)

text \<open>
  Every governed reference resolves in the knowledge: what a rule, a negative indicator, an override or a
  family names is there, under the polarity, status and ownership the contract asks for.
\<close>

definition source_resolves :: "runtime_knowledge \<Rightarrow> source_reference \<Rightarrow> bool" where
  "source_resolves rk ref \<longleftrightarrow>
     (\<exists>sid. sr_source_id ref = Some sid \<and> rk_source rk sid \<noteq> None \<and>
        (\<forall>eid\<in>set (sr_manual_ids ref). \<exists>e. rk_evidence rk eid = Some e \<and> ev_source_id e = Some sid))"

definition rule_resolves :: "runtime_knowledge \<Rightarrow> rule \<Rightarrow> bool" where
  "rule_resolves rk r \<longleftrightarrow>
     (\<exists>ops. trigger_ids r = Inr ops \<and>
        (\<forall>i\<in>set ops. case ru_kind r of COMPOSITE \<Rightarrow> rk_indicator rk i \<noteq> None | SUPPRESSION \<Rightarrow> rk_negative rk i \<noteq> None)) \<and>
     (\<forall>i\<in>set (suppressors_of r). (rk_indicator rk i \<noteq> None \<or> rk_negative rk i \<noteq> None) \<and>
        (\<forall>n. ru_status r = Some ''PUBLISHED'' \<and> rk_negative rk i = Some n \<longrightarrow> ng_status n = Some ''ACTIVE'')) \<and>
     (\<forall>t\<in>set (ru_taxonomy_refs r). rk_taxonomy_node rk t \<noteq> None) \<and>
     (\<forall>ref\<in>set (ru_sources r). source_resolves rk ref)"

definition override_resolves :: "runtime_knowledge \<Rightarrow> override \<Rightarrow> bool" where
  "override_resolves rk ov \<longleftrightarrow>
     (\<exists>ops. condition_ids ov = Inr ops \<and> (\<forall>i\<in>set ops. rk_indicator rk i \<noteq> None)) \<and>
     (\<forall>rid\<in>set (ov_rules ov). rk_rule rk rid \<noteq> None) \<and>
     (\<forall>t\<in>set (ov_families ov). rk_taxonomy_node rk t \<noteq> None)"

definition negative_resolves :: "runtime_knowledge \<Rightarrow> negative \<Rightarrow> bool" where
  "negative_resolves rk n \<longleftrightarrow>
     (\<forall>i\<in>set (ng_targets n). rk_indicator rk i \<noteq> None) \<and>
     (\<forall>s\<in>set (ng_source_basis n). rk_source rk s \<noteq> None) \<and>
     (\<forall>t\<in>set (ng_families n). t = ''*'' \<or> rk_taxonomy_node rk t \<noteq> None)"

definition references_resolve :: "runtime_knowledge \<Rightarrow> bool" where
  "references_resolve rk \<longleftrightarrow>
     (\<forall>rid r. rk_rule rk rid = Some r \<longrightarrow> rule_resolves rk r) \<and>
     (\<forall>oid ov. rk_override rk oid = Some ov \<longrightarrow> override_resolves rk ov) \<and>
     (\<forall>nid n. rk_negative rk nid = Some n \<longrightarrow> negative_resolves rk n) \<and>
     (\<forall>fid f. rk_family rk fid = Some f \<longrightarrow>
        (\<forall>i\<in>set (fm_outputs f). rk_indicator rk i \<noteq> None) \<and>
        (\<forall>n\<in>set (fm_negatives f). rk_negative rk n \<noteq> None) \<and>
        (\<forall>ov\<in>set (fm_overrides f). rk_override rk ov \<noteq> None)) \<and>
     (\<forall>eid e. rk_evidence rk eid = Some e \<longrightarrow> (\<exists>sid. ev_source_id e = Some sid \<and> rk_source rk sid \<noteq> None)) \<and>
     (\<forall>sid s. rk_source rk sid = Some s \<longrightarrow> (\<forall>eid\<in>set (so_evidence_ids s). rk_evidence rk eid \<noteq> None))"

text \<open>No problem line means that every part reports none.\<close>

lemma sort_Nil [simp]: "sort xs = [] \<longleftrightarrow> xs = []"
  by (metis set_empty set_sort)

lemma no_problems:
  assumes "validate_references c = Inr []"
  shows "r \<in> set (cp_rules c) \<Longrightarrow> rule_problems c r = Inr []"
    "ov \<in> set (cp_overrides c) \<Longrightarrow> override_problems c ov = Inr []"
    "f \<in> set (cp_families c) \<Longrightarrow> family_problems c f = []"
    "cat \<in> set (cp_taxonomy c) \<Longrightarrow> taxonomy_problems c cat = []"
    "n \<in> set (cp_negatives c) \<Longrightarrow> negative_problems c n = []"
    "evidence_problems c = []"
  using assms by (auto simp: validate_references_def rbind_eq_Inr dest: map_res_set_ex)

lemma taxonomy_lookup:
  assumes "build_indexes meta c = Inr rk"
  shows "rk_taxonomy_node rk t \<noteq> None \<longleftrightarrow> t \<in> set (concat (map (map fst \<circ> taxonomy_entries) (cp_taxonomy c)))"
proof -
  have "fst ` set (concat (map taxonomy_entries (cp_taxonomy c))) =
      set (concat (map (map fst \<circ> taxonomy_entries) (cp_taxonomy c)))"
    by (auto simp: image_iff)
  then show ?thesis
    by (simp add: rk_taxonomy_node_def build_fields [OF assms] map_of_dict_of map_of_eq_None_iff)
qed

lemma member_lookup:
  assumes "build_indexes meta c = Inr rk"
  shows "rk_rule rk k \<noteq> None \<longleftrightarrow> k \<in> ru_id ` set (cp_rules c)"
    "rk_indicator rk k \<noteq> None \<longleftrightarrow> k \<in> in_id ` set (cp_indicators c)"
    "rk_negative rk k \<noteq> None \<longleftrightarrow> k \<in> ng_id ` set (cp_negatives c)"
    "rk_override rk k \<noteq> None \<longleftrightarrow> k \<in> ov_id ` set (cp_overrides c)"
    "rk_source rk k \<noteq> None \<longleftrightarrow> k \<in> so_id ` set (cp_sources c)"
    "rk_evidence rk k \<noteq> None \<longleftrightarrow> k \<in> ev_id ` set (cp_evidence c)"
  by (simp_all add: rk_rule_def rk_indicator_def rk_negative_def rk_override_def rk_source_def rk_evidence_def
      build_fields [OF assms] filed_None)

lemma source_reference_clean:
  assumes "build_indexes meta c = Inr rk" "source_reference_problems c rid ref = []"
  shows "source_resolves rk ref"
proof -
  obtain sid where sid: "sr_source_id ref = Some sid" "sid \<in> so_id ` set (cp_sources c)"
    using assms(2) by (auto simp: source_reference_problems_def Let_def)
  have "\<exists>e. rk_evidence rk eid = Some e \<and> ev_source_id e = Some sid" if "eid \<in> set (sr_manual_ids ref)" for eid
  proof -
    have "(case map_of (filed ev_id (cp_evidence c)) eid of
         None \<Rightarrow> [''rule '' @ rid @ '': unresolved manual_retrieval evidence id '' @ eid]
       | Some e \<Rightarrow> if ev_source_id e \<noteq> sr_source_id ref
           then [''rule '' @ rid @ '': manual evidence '' @ eid @ '' is owned by '' @ opt_text (ev_source_id e)]
           else []) = []"
      using assms(2) \<open>eid \<in> set (sr_manual_ids ref)\<close>
      unfolding source_reference_problems_def Let_def filed_def by simp
    then show ?thesis
      by (auto simp: rk_evidence_def build_fields [OF assms(1)] sid(1) split: option.splits if_splits)
  qed
  moreover have "rk_source rk sid \<noteq> None" using sid(2) by (simp only: member_lookup [OF assms(1)])
  ultimately show ?thesis unfolding source_resolves_def using sid(1) by blast
qed

lemma rule_clean:
  assumes b: "build_indexes meta c = Inr rk" and d: "distinct_records c"
    and p: "rule_problems c r = Inr []"
  shows "rule_resolves rk r"
proof -
  let ?pos = "set (map in_id (cp_indicators c))" and ?neg = "set (map ng_id (cp_negatives c))"
  obtain ops where ops: "trigger_ids r = Inr ops"
    and ns: "list_all (\<lambda>i. i \<in> ?pos \<or> i \<in> ?neg) (sorted_unique (ops @ suppressors_of r))"
    and comp: "list_all (\<lambda>op. \<not> (ru_kind r = COMPOSITE \<and> op \<in> ?neg \<and> op \<notin> ?pos)) ops"
    and supp: "list_all (\<lambda>op. \<not> (ru_kind r = SUPPRESSION \<and> op \<in> ?pos \<and> op \<notin> ?neg)) ops"
    and depr: "list_all (\<lambda>s. \<not> (ru_status r = Some ''PUBLISHED'' \<and> s \<in> ?neg \<and>
        s \<notin> set (map ng_id (filter (\<lambda>n. ng_status n = Some ''ACTIVE'') (cp_negatives c))))) (suppressors_of r)"
    and tax: "list_all (\<lambda>t. t \<in> set (concat (map (map fst \<circ> taxonomy_entries) (cp_taxonomy c)))) (ru_taxonomy_refs r)"
    and src: "concat (map (source_reference_problems c (ru_id r)) (ru_sources r)) = []"
    using p unfolding rule_problems_def Let_def rbind_eq_Inr sum.inject append_is_Nil_conv report_Nil by blast
  note look = member_lookup [OF b]
  have "case ru_kind r of COMPOSITE \<Rightarrow> rk_indicator rk i \<noteq> None | SUPPRESSION \<Rightarrow> rk_negative rk i \<noteq> None"
    if i: "i \<in> set ops" for i
  proof -
    have "i \<in> ?pos \<or> i \<in> ?neg" "\<not> (ru_kind r = COMPOSITE \<and> i \<in> ?neg \<and> i \<notin> ?pos)"
      "\<not> (ru_kind r = SUPPRESSION \<and> i \<in> ?pos \<and> i \<notin> ?neg)"
      using ns comp supp i by (simp_all add: list_all_iff)
    then show ?thesis unfolding look by (cases "ru_kind r") auto
  qed
  moreover have "rk_indicator rk i \<noteq> None \<or> rk_negative rk i \<noteq> None" if i: "i \<in> set (suppressors_of r)" for i
    using ns i unfolding look list_all_iff by auto
  moreover have "ng_status n = Some ''ACTIVE''"
    if "i \<in> set (suppressors_of r)" "ru_status r = Some ''PUBLISHED''" "rk_negative rk i = Some n" for i n
  proof -
    have n: "n \<in> set (cp_negatives c)" "ng_id n = i" using that(3) by (simp_all add: record_lookup [OF b d])
    have "\<not> (i \<in> ?neg \<and> i \<notin> set (map ng_id (filter (\<lambda>n. ng_status n = Some ''ACTIVE'') (cp_negatives c))))"
      using depr that(1,2) by (auto simp: list_all_iff)
    then obtain m where "m \<in> set (cp_negatives c)" "ng_id m = i" "ng_status m = Some ''ACTIVE''" using n by auto
    moreover have "rk_negative rk i = Some m" using calculation by (simp add: record_lookup [OF b d])
    ultimately show ?thesis using that(3) by simp
  qed
  moreover have "rk_taxonomy_node rk t \<noteq> None" if "t \<in> set (ru_taxonomy_refs r)" for t
    using tax that unfolding taxonomy_lookup [OF b] list_all_iff by blast
  moreover have "source_resolves rk ref" if "ref \<in> set (ru_sources r)" for ref
    by (rule source_reference_clean [OF b]) (use src that in auto)
  ultimately show ?thesis unfolding rule_resolves_def using ops by blast
qed

lemma category_node: "cat \<in> ca_id ` set (cp_taxonomy c) \<Longrightarrow>
    cat \<in> set (concat (map (map fst \<circ> taxonomy_entries) (cp_taxonomy c)))"
  by (auto simp: taxonomy_entries_def)

lemma override_clean:
  assumes b: "build_indexes meta c = Inr rk" and p: "override_problems c ov = Inr []"
  shows "override_resolves rk ov"
  using p unfolding override_resolves_def member_lookup [OF b] taxonomy_lookup [OF b]
  by (auto simp del: set_concat simp: override_problems_def Let_def rbind_eq_Inr list_all_iff intro!: category_node)

lemma negative_clean:
  assumes b: "build_indexes meta c = Inr rk" and p: "negative_problems c n = []"
  shows "negative_resolves rk n"
  using p unfolding negative_resolves_def member_lookup [OF b] taxonomy_lookup [OF b]
  by (auto simp del: set_concat simp: negative_problems_def Let_def list_all_iff intro!: category_node)

lemma references_clean:
  assumes b: "build_indexes meta c = Inr rk" and d: "distinct_records c" and v: "validate_references c = Inr []"
  shows "references_resolve rk"
proof -
  note no = no_problems [OF v] and look = member_lookup [OF b] and rec = record_lookup [OF b d]
  have "rule_resolves rk r" if "rk_rule rk rid = Some r" for rid r
    by (rule rule_clean [OF b d no(1)]) (use that in \<open>simp add: rec\<close>)
  moreover have "override_resolves rk ov" if "rk_override rk oid = Some ov" for oid ov
    by (rule override_clean [OF b no(2)]) (use that in \<open>simp add: rec\<close>)
  moreover have "negative_resolves rk n" if "rk_negative rk nid = Some n" for nid n
    by (rule negative_clean [OF b no(5)]) (use that in \<open>simp add: rec\<close>)
  moreover have "(\<forall>i\<in>set (fm_outputs f). rk_indicator rk i \<noteq> None) \<and>
      (\<forall>n\<in>set (fm_negatives f). rk_negative rk n \<noteq> None) \<and> (\<forall>ov\<in>set (fm_overrides f). rk_override rk ov \<noteq> None)"
    if "rk_family rk fid = Some f" for fid f
  proof -
    have "family_problems c f = []" by (rule no(3)) (use that in \<open>simp add: rec\<close>)
    then show ?thesis unfolding look by (simp add: family_problems_def Let_def list_all_iff)
  qed
  moreover have "\<exists>sid. ev_source_id e = Some sid \<and> rk_source rk sid \<noteq> None" if "rk_evidence rk eid = Some e" for eid e
  proof -
    have "e \<in> set (cp_evidence c)" using that by (simp add: rec)
    with no(6) have "ev_source_id e \<in> Some ` so_id ` set (cp_sources c)"
      by (auto simp: evidence_problems_def list_all_iff)
    then show ?thesis unfolding look by blast
  qed
  moreover have "rk_evidence rk eid \<noteq> None" if "rk_source rk sid = Some s" "eid \<in> set (so_evidence_ids s)" for sid s eid
  proof -
    have "s \<in> set (cp_sources c)" using that(1) by (simp add: rec)
    with no(6) have "list_all (\<lambda>e. e \<in> ev_id ` set (cp_evidence c)) (so_evidence_ids s)"
      by (simp add: evidence_problems_def)
    with that(2) show ?thesis unfolding look by (simp add: list_all_iff)
  qed
  ultimately show ?thesis unfolding references_resolve_def by blast
qed

end
