(* ===== verification/LoaderProps.thy ===== *)
theory LoaderProps
  imports Loader IndexProps
begin

text \<open>
  Lemmas on the loader: accepted paths stay inside the bundle, accepted members have the bytes the
  manifest names, the content digest determines the members, and what is loaded satisfies the contracts
  the detection stages rely on.
\<close>

section \<open>Splitting and joining\<close>

lemma split_on_no_sep: "w \<in> set (split_on c s) \<Longrightarrow> c \<notin> set w"
proof (induction s arbitrary: w)
  case (Cons x s)
  then show ?case by (cases "split_on c s") (auto split: if_splits)
qed simp

lemma split_on_not_Nil [simp]: "split_on c s \<noteq> []"
  by (induction s) (auto split: list.split)

lemma split_on_word: "c \<notin> set w \<Longrightarrow> split_on c w = [w]"
  by (induction w) auto

lemma split_on_append: "c \<notin> set w \<Longrightarrow> split_on c (w @ c # s) = w # split_on c s"
  by (induction w) auto

lemma split_join:
  "ws \<noteq> [] \<Longrightarrow> (\<And>w. w \<in> set ws \<Longrightarrow> c \<notin> set w) \<Longrightarrow> split_on c (join_with [c] ws) = ws"
proof (induction ws rule: induct_list012)
  case (3 w w' ws)
  then show ?case by (simp add: split_on_append)
qed (simp_all add: split_on_word)

lemma join_inj:
  assumes "join_with [c] us = join_with [c] vs" "us \<noteq> []" "vs \<noteq> []"
    and "\<And>w. w \<in> set us \<union> set vs \<Longrightarrow> c \<notin> set w"
  shows "us = vs"
proof -
  have "split_on c (join_with [c] us) = us" by (rule split_join) (use assms in auto)
  moreover have "split_on c (join_with [c] vs) = vs" by (rule split_join) (use assms in auto)
  ultimately show ?thesis using assms(1) by metis
qed

section \<open>Paths\<close>

lemma set_tl: "x \<in> set (tl xs) \<Longrightarrow> x \<in> set xs"
  by (cases xs) auto

lemma norm_loop_set:
  "set (norm_loop rooted kept cs) \<subseteq> set kept \<union> (set cs - {[], ''.''})"
  by (induction rooted kept cs rule: norm_loop.induct) (auto dest: set_tl)

text \<open>The components of a canonical member path are plain names.\<close>

definition plain_path :: "string \<Rightarrow> bool" where
  "plain_path rel \<longleftrightarrow> CHR 0x5C \<notin> set rel \<and>
     (\<forall>w\<in>set (split_on (CHR ''/'') rel). w \<noteq> [] \<and> w \<noteq> ''.'' \<and> w \<noteq> ''..'')"

definition within :: "string list \<Rightarrow> string list \<Rightarrow> bool" where
  "within root p \<longleftrightarrow> take (length root) p = root"

lemma safe_resolve_ok:
  assumes "safe_resolve d rel = Inr p"
  shows "p = dir_resolve d rel" "within (dir_root d) p" "plain_path rel"
    "\<exists>pre\<in>set ALLOWED_PREFIXES. starts_with pre rel"
proof -
  from assms have ok: "rel \<noteq> []" "\<not> starts_with ''/'' rel" "CHR 0x5C \<notin> set rel" "rel = normpath rel"
      "''..'' \<notin> set (split_on (CHR ''/'') rel)" "list_ex (\<lambda>q. starts_with q rel) ALLOWED_PREFIXES"
      "p = dir_resolve d rel"
      "p = dir_root d \<or> length (dir_root d) < length p \<and> take (length (dir_root d)) p = dir_root d"
    by (simp_all add: safe_resolve_def unsafe_def Let_def split: if_splits)
  show "p = dir_resolve d rel" "within (dir_root d) p" using ok by (auto simp: within_def)
  show pre: "\<exists>pre\<in>set ALLOWED_PREFIXES. starts_with pre rel" using ok(6) by (simp only: list_ex_iff)
  let ?ws = "norm_loop False [] (split_on (CHR ''/'') rel)"
  have set: "set ?ws \<subseteq> set (split_on (CHR ''/'') rel) - {[], ''.''}"
    using norm_loop_set [of False "[]" "split_on (CHR ''/'') rel"] by simp
  have "normpath rel = (if join_with ''/'' ?ws = [] then ''.'' else join_with ''/'' ?ws)"
    using ok(1,2) by (simp add: normpath_def Let_def)
  with ok(4) have "rel = (if join_with ''/'' ?ws = [] then ''.'' else join_with ''/'' ?ws)" by metis
  moreover have "rel \<noteq> ''.''" using pre by (auto simp: ALLOWED_PREFIXES_def starts_with_def)
  ultimately have rel: "rel = join_with ''/'' ?ws" "?ws \<noteq> []" using ok(1) by (auto split: if_splits)
  have "split_on (CHR ''/'') rel = ?ws"
    using split_join [OF rel(2), of "CHR ''/''"] rel(1) set split_on_no_sep by (metis DiffD1 in_mono)
  then show "plain_path rel" using set ok(3,5) by (auto simp: plain_path_def)
qed

lemma check_members_ok:
  "check_members d fs seen = Inr () \<Longrightarrow>
     distinct (map fe_path fs) \<and> set (map fe_path fs) \<inter> set seen = {} \<and>
     (\<forall>f\<in>set fs. (\<exists>p. safe_resolve d (fe_path f) = Inr p) \<and> reject_unexpected_member (fe_path f) = Inr ())"
proof (induction fs arbitrary: seen)
  case (Cons f fs)
  then have "fe_path f \<notin> set seen" "\<exists>p. safe_resolve d (fe_path f) = Inr p"
      "reject_unexpected_member (fe_path f) = Inr ()" "check_members d fs (fe_path f # seen) = Inr ()"
    by (auto simp: res_simps unsafe_def split: if_splits)
  with Cons.IH [OF this(4)] show ?case by auto
qed simp

section \<open>Verified bytes\<close>

lemma verify_member_ok:
  "verify_member lib d f = Inr (p, data) \<longleftrightarrow>
     p = fe_path f \<and> dir_file d (dir_resolve d (fe_path f)) = Some (Some data) \<and>
     lb_sha256 lib data = fe_sha f \<and> int (length data) = fe_bytes f"
  by (auto simp: verify_member_def split: option.splits)

lemma verified_paths:
  "map_res (verify_member lib d) fs = Inr verified \<Longrightarrow> map fst verified = map fe_path fs"
  by (induction fs arbitrary: verified) (auto simp: res_simps verify_member_ok)

text \<open>
  The bundle a load accepted: every listed member is at a plain path inside the root, is a known member,
  and has on disk the bytes whose length and SHA-256 the manifest lists.
\<close>

definition authentic_member :: "libraries \<Rightarrow> directory \<Rightarrow> file_entry \<Rightarrow> bool" where
  "authentic_member lib d f \<longleftrightarrow>
     plain_path (fe_path f) \<and> within (dir_root d) (dir_resolve d (fe_path f)) \<and>
     (fe_path f \<in> set FIXED_MEMBERS \<or> rule_member (fe_path f)) \<and>
     (\<exists>data. dir_file d (dir_resolve d (fe_path f)) = Some (Some data) \<and>
        lb_sha256 lib data = fe_sha f \<and> int (length data) = fe_bytes f)"

lemma verify_bundle_ok:
  assumes "verify_bundle lib d m = Inr verified"
  shows "check_members d (mf_files m) [] = Inr ()" "check_projection m = Inr ()"
    "map_res (verify_member lib d) (mf_files m) = Inr verified"
    "canonical_content_digest (lb_sha256 lib) (mf_files m) = mf_digest m"
  using assms by (auto simp: verify_bundle_def rbind_eq_Inr)

lemma member_known:
  "reject_unexpected_member rel = Inr () \<Longrightarrow> ends_with ''.json'' rel \<and> (rel \<in> set FIXED_MEMBERS \<or> rule_member rel)"
  by (auto simp: reject_unexpected_member_def unexpected_def split: if_splits)

lemma bundle_authentic:
  assumes "verify_bundle lib d m = Inr verified" "f \<in> set (mf_files m)"
  shows "authentic_member lib d f"
proof -
  note ok = verify_bundle_ok [OF assms(1)]
  from check_members_ok [OF ok(1)] assms(2) obtain p where p: "safe_resolve d (fe_path f) = Inr p"
    and k: "reject_unexpected_member (fe_path f) = Inr ()" by blast
  from map_res_set_ex [OF ok(3) assms(2)] obtain x where "verify_member lib d f = Inr x" by blast
  then obtain q data where v: "verify_member lib d f = Inr (q, data)" by (cases x) simp
  show ?thesis
    using safe_resolve_ok [OF p] member_known [OF k] v by (auto simp: authentic_member_def verify_member_ok)
qed

section \<open>Loads\<close>

text \<open>The intermediate values of an accepted load.\<close>

definition loads :: "libraries \<Rightarrow> directory \<Rightarrow> manifest \<Rightarrow> string dict \<Rightarrow> raw_components \<Rightarrow> runtime_knowledge \<Rightarrow> bool" where
  "loads lib d m verified raw rk \<longleftrightarrow>
     load_manifest lib d = Inr m \<and> verify_bundle lib d m = Inr verified \<and> check_versions m = Inr () \<and>
     (\<exists>schema envelope. parse_components lib (is_wp6 m) (member_paths m) verified = Inr (raw, schema) \<and>
        assemble_knowledge lib m raw schema envelope = Inr rk)"

lemma load_bundle_loads:
  assumes "load_bundle lib d = Inr rk"
  obtains m verified raw where "loads lib d m verified raw rk"
proof -
  obtain m where m: "load_manifest lib d = Inr m"
    and rest: "rbind (verify_bundle lib d m) (\<lambda>verified. rbind (check_versions m) (\<lambda>_.
       rbind (parse_components lib (is_wp6 m) (member_paths m) verified) (\<lambda>(raw, schema).
       rbind (parse_member lib verified ENVELOPE_SCHEMA_MEMBER) (\<lambda>envelope.
       assemble_knowledge lib m raw schema envelope)))) = Inr rk"
    using assms by (auto simp: load_bundle_def rbind_eq_Inr)
  then obtain verified where v: "verify_bundle lib d m = Inr verified" "check_versions m = Inr ()"
    and rest: "rbind (parse_components lib (is_wp6 m) (member_paths m) verified) (\<lambda>(raw, schema).
       rbind (parse_member lib verified ENVELOPE_SCHEMA_MEMBER) (\<lambda>envelope.
       assemble_knowledge lib m raw schema envelope)) = Inr rk"
    by (auto simp: rbind_eq_Inr)
  then obtain raw schema envelope where
      "parse_components lib (is_wp6 m) (member_paths m) verified = Inr (raw, schema)"
      "assemble_knowledge lib m raw schema envelope = Inr rk"
    by (auto simp: rbind_eq_Inr)
  with m v have "loads lib d m verified raw rk" unfolding loads_def by blast
  with that show ?thesis by blast
qed

lemma assemble_ok:
  assumes "assemble_knowledge lib m raw schema envelope = Inr rk"
  shows "check_shapes_and_duplicates raw = Inr ()" "is_wp6 m \<Longrightarrow> validate_action_policy lib raw = Inr ()"
    "check_counts m (view_components raw) = Inr ()"
    "validate_references (view_components raw) = Inr []"
    "build_indexes (load_metadata m) (view_components raw) = Inr rk"
    "action_policy_by_id rk \<noteq> [] \<longleftrightarrow> is_wp6 m"
    "(case map_of (mf_components m) ''action_policy'' of None \<Rightarrow> False | Some v \<Rightarrow> v \<noteq> []) \<longleftrightarrow> is_wp6 m"
  using assms unfolding assemble_knowledge_def Let_def
  by (auto simp del: each_eq simp: rbind_eq_Inr split: if_splits)

lemma loads_assembled:
  assumes "loads lib d m verified raw rk"
  obtains schema envelope where "assemble_knowledge lib m raw schema envelope = Inr rk"
  using assms unfolding loads_def by blast

section \<open>The typed view keeps ids apart\<close>

lemma view_rule_id: "view_rule j = Some r \<Longrightarrow> ru_id r = text_of (jfield j ''id'')"
  by (auto simp: view_rule_def Let_def split: option.splits)

lemma map_filter_distinct:
  assumes "distinct (map g xs)" "\<And>x y. f x = Some y \<Longrightarrow> h y = g x"
  shows "distinct (map h (List.map_filter f xs)) \<and> set (map h (List.map_filter f xs)) \<subseteq> set (map g xs)"
  using assms
proof (induction xs)
  case (Cons x xs)
  then show ?case by (cases "f x") (auto simp: List.map_filter_simps)
qed (simp add: List.map_filter_simps)

lemma view_distinct:
  assumes "check_shapes_and_duplicates raw = Inr ()"
  shows "distinct_records (view_components raw)"
proof -
  note ids = shapes_record_ids [OF assms, unfolded record_ids_def]
  have "distinct (map ru_id (List.map_filter view_rule (raw_rules raw)))"
    using map_filter_distinct [OF ids(1), of view_rule ru_id] view_rule_id by blast
  then show ?thesis using ids(2-)
    by (simp add: distinct_records_def view_components_def comp_def view_indicator_def view_negative_def
        view_override_def view_family_def view_source_def view_evidence_def)
qed

section \<open>What a load establishes\<close>

lemma loads_contracts:
  assumes "loads lib d m verified raw rk"
  shows "wf_knowledge rk" "exact_indexes rk" "references_resolve rk" "rk_meta rk = load_metadata m"
    "has_action_policy rk \<longleftrightarrow> mf_schema_version m = ''1.1.0''"
proof -
  obtain schema envelope where a: "assemble_knowledge lib m raw schema envelope = Inr rk"
    using loads_assembled [OF assms] .
  note ok = assemble_ok [OF a]
  have dist: "distinct_records (view_components raw)" by (rule view_distinct [OF ok(1)])
  show "wf_knowledge rk" by (rule build_wf [OF ok(5) dist])
  show "exact_indexes rk" by (rule build_exact [OF ok(5) dist])
  show "references_resolve rk" by (rule references_clean [OF ok(5) dist ok(4)])
  show meta: "rk_meta rk = load_metadata m" by (rule build_fields [OF ok(5)])
  show "has_action_policy rk \<longleftrightarrow> mf_schema_version m = ''1.1.0''"
    using ok(6,7) by (auto simp: has_action_policy_def meta load_metadata_def is_wp6_def WP6_MANIFEST_SCHEMA_VERSION_def)
qed

lemma loads_versions:
  assumes "loads lib d m verified raw rk" "(k, allowed) \<in> set SUPPORTED_COMPONENT_VERSIONS" "k \<noteq> ''action_policy'' \<or> is_wp6 m"
  shows "\<exists>v\<in>set allowed. map_of (mf_components m) k = Some v"
proof -
  have "list_all (\<lambda>x. fst x = ''action_policy'' \<and> \<not> is_wp6 m \<or>
      map_of (mf_components m) (fst x) \<in> Some ` set (snd x)) SUPPORTED_COMPONENT_VERSIONS"
    using assms(1) by (auto simp: loads_def check_versions_def rbind_eq_Inr case_prod_beta)
  with assms(2) have "k = ''action_policy'' \<and> \<not> is_wp6 m \<or> map_of (mf_components m) k \<in> Some ` set allowed"
    unfolding list_all_iff by (metis fst_conv snd_conv)
  with assms(3) show ?thesis by auto
qed

lemma loads_required:
  assumes "loads lib d m verified raw rk"
  shows "set REQUIRED_MEMBERS \<subseteq> set (member_paths m)"
proof -
  have "check_projection m = Inr ()" using assms by (auto simp: loads_def dest: verify_bundle_ok(2))
  then show ?thesis by (auto simp: check_projection_def rbind_eq_Inr list_all_iff)
qed

end
