(* ===== verification/DigestProps.thy ===== *)
theory DigestProps
  imports LoaderProps
begin

text \<open>
  The content digest identifies the knowledge: two accepted bundles with the same digest have the same
  members, byte for byte, and load to the same indexes. SHA-256 is assumed to print no newline and not to
  collide on the strings the two loads hash.
\<close>

section \<open>Member paths\<close>

definition line_char :: "char \<Rightarrow> bool" where
  "line_char c \<longleftrightarrow> c \<noteq> CHR 0x0A \<and> c \<noteq> CHR ''=''"

lemma fixed_line:
  assumes "rel \<in> set FIXED_MEMBERS"
  shows "list_all line_char rel"
proof -
  have "list_all (list_all line_char) FIXED_MEMBERS" by code_simp
  with assms show ?thesis unfolding list_all_iff [where xs = FIXED_MEMBERS] by blast
qed

lemma upper_line: "is_upper c \<Longrightarrow> line_char c"
  by (auto simp: is_upper_def line_char_def less_eq_char_def)

lemma digit_line: "Conditions.is_digit c \<Longrightarrow> line_char c"
  by (auto simp: line_char_def less_eq_char_def)

lemma ends_with_last:
  assumes "ends_with p s" "p \<noteq> []"
  shows "last s = last p"
proof -
  have t: "take (length p) (rev s) = rev p" using assms(1) by (simp add: ends_with_def starts_with_def)
  have "hd (rev s) = hd (take (length p) (rev s))" using assms(2) by (simp add: hd_take)
  then show ?thesis unfolding t by (simp add: hd_rev)
qed

lemma four_parts: "xs = take 1 xs @ take 3 (drop 1 xs) @ drop 4 xs"
  by (cases xs) simp_all

lemma rule_line:
  assumes "rule_member rel" "ends_with ''.json'' rel"
  shows "list_all line_char rel"
proof -
  let ?rest = "drop 9 rel"
  let ?tail = "dropWhile is_upper ?rest"
  have parts: "take 9 rel = ''rules/TL-''" "take 1 ?tail = ''-''"
      "list_all Conditions.is_digit (take 3 (drop 1 ?tail))"
      "drop 4 ?tail = ''.json'' \<or> drop 4 ?tail = ''.json'' @ [CHR 0x0A]"
    using assms(1) unfolding rule_member_def Let_def by blast+
  have tail: "?tail = take 1 ?tail @ take 3 (drop 1 ?tail) @ drop 4 ?tail"
    by (rule four_parts)
  have rel: "rel = take 9 rel @ takeWhile is_upper ?rest @ ?tail" by simp
  have "last rel \<noteq> CHR 0x0A" using ends_with_last [OF assms(2)] by simp
  moreover have "last rel = last (drop 4 ?tail)"
  proof -
    have ne: "drop 4 ?tail \<noteq> []" using parts(4) by auto
    then have "?tail \<noteq> []" by (metis drop_Nil)
    from ne have "last (drop 4 ?tail) = last ?tail" by (simp add: last_drop)
    moreover have "last ?rest = last ?tail" "?rest \<noteq> []"
      using \<open>?tail \<noteq> []\<close> by (metis last_appendR takeWhile_dropWhile_id, auto)
    moreover have "last ?rest = last rel" using \<open>?rest \<noteq> []\<close> by (simp add: last_drop)
    ultimately show ?thesis by metis
  qed
  ultimately have end': "drop 4 ?tail = ''.json''" using parts(4) by auto
  have "list_all line_char (take 9 rel)" unfolding parts(1) by code_simp
  moreover have "list_all line_char (takeWhile is_upper ?rest)"
    by (auto simp: list_all_iff intro: upper_line dest: set_takeWhileD)
  moreover have "list_all line_char ?tail"
  proof -
    have "list_all line_char (take 1 ?tail)" unfolding parts(2) by code_simp
    moreover have "list_all line_char (take 3 (drop 1 ?tail))"
      using parts(3) by (auto simp only: list_all_iff intro: digit_line)
    moreover have "list_all line_char (drop 4 ?tail)" unfolding end' by code_simp
    ultimately show ?thesis using tail by (metis list_all_append)
  qed
  ultimately show ?thesis using rel by (metis list_all_append)
qed

section \<open>The payload\<close>

definition line_of :: "file_entry \<Rightarrow> string" where
  "line_of f = fe_path f @ ''='' @ fe_sha f"

lemma line_inj:
  assumes "line_of f = line_of g" "list_all line_char (fe_path f)" "list_all line_char (fe_path g)"
  shows "fe_path f = fe_path g" "fe_sha f = fe_sha g"
proof -
  have "takeWhile (\<lambda>c. c \<noteq> CHR ''='') (line_of h) = fe_path h" if "list_all line_char (fe_path h)" for h
    using that by (simp add: line_of_def list_all_iff line_char_def takeWhile_append2)
  then show path: "fe_path f = fe_path g" using assms by metis
  show "fe_sha f = fe_sha g" using assms(1) path by (simp add: line_of_def)
qed

definition payload :: "file_entry list \<Rightarrow> string" where
  "payload files = join_with [CHR 0x0A] (map line_of (sort_key fe_path files))"

lemma digest_payload: "canonical_content_digest sha files = sha (payload files)"
  unfolding canonical_content_digest_def payload_def line_of_def by simp

definition entry_of :: "file_entry \<Rightarrow> string \<times> string" where
  "entry_of f = (fe_path f, fe_sha f)"

text \<open>Entries with good paths and digests: the payload determines their set.\<close>

definition printable :: "file_entry \<Rightarrow> bool" where
  "printable f \<longleftrightarrow> list_all line_char (fe_path f) \<and> CHR 0x0A \<notin> set (fe_sha f)"

lemma printable_line: "printable f \<Longrightarrow> CHR 0x0A \<notin> set (line_of f)"
  by (auto simp: printable_def line_of_def list_all_iff line_char_def)

lemma map_transfer:
  assumes "map f xs = map f ys" "\<And>x y. x \<in> set xs \<Longrightarrow> y \<in> set ys \<Longrightarrow> f x = f y \<Longrightarrow> g x = g y"
  shows "map g xs = map g ys"
proof (rule nth_equalityI)
  show l: "length (map g xs) = length (map g ys)" using assms(1) by (metis length_map)
  fix i assume "i < length (map g xs)"
  then have i: "i < length xs" "i < length ys" using l by simp_all
  have "f (xs ! i) = f (ys ! i)" using assms(1) i by (metis nth_map)
  with i show "map g xs ! i = map g ys ! i" using assms(2) by simp
qed

lemma payload_inj:
  assumes "payload fs = payload gs" "fs \<noteq> []" "gs \<noteq> []"
    and fs: "list_all printable fs" and gs: "list_all printable gs"
  shows "entry_of ` set fs = entry_of ` set gs"
proof -
  let ?fs = "sort_key fe_path fs" and ?gs = "sort_key fe_path gs"
  have ne: "?fs \<noteq> []" "?gs \<noteq> []" using assms(2,3) by (metis set_empty set_sort)+
  have "map line_of ?fs = map line_of ?gs"
  proof (rule join_inj [of "CHR 0x0A"])
    show "join_with [CHR 0x0A] (map line_of ?fs) = join_with [CHR 0x0A] (map line_of ?gs)"
      using assms(1) by (simp add: payload_def)
    show "map line_of ?fs \<noteq> []" "map line_of ?gs \<noteq> []" using ne by simp_all
    show "CHR 0x0A \<notin> set w" if "w \<in> set (map line_of ?fs) \<union> set (map line_of ?gs)" for w
      using that fs gs by (auto simp: list_all_iff dest: printable_line)
  qed
  then have "map entry_of ?fs = map entry_of ?gs"
  proof (rule map_transfer)
    fix f g assume "f \<in> set ?fs" "g \<in> set ?gs" "line_of f = line_of g"
    then show "entry_of f = entry_of g"
      using fs gs line_inj [of f g] by (simp add: list_all_iff printable_def entry_of_def)
  qed
  then have "entry_of ` set ?fs = entry_of ` set ?gs" by (metis set_map)
  then show ?thesis by simp
qed

section \<open>Two loads of one digest\<close>

text \<open>What a load hashes: the digest's payload and the bytes of each listed member.\<close>

definition hashed_strings :: "libraries \<Rightarrow> directory \<Rightarrow> string list" where
  "hashed_strings lib d =
     (case load_manifest lib d of
        Inl _ \<Rightarrow> []
      | Inr m \<Rightarrow> payload (mf_files m) #
          List.map_filter (\<lambda>f. case dir_file d (dir_resolve d (fe_path f)) of Some x \<Rightarrow> x | None \<Rightarrow> None) (mf_files m))"

definition sound_on :: "(string \<Rightarrow> string) \<Rightarrow> string list \<Rightarrow> bool" where
  "sound_on sha hs \<longleftrightarrow>
     list_all (\<lambda>a. CHR 0x0A \<notin> set (sha a) \<and> list_all (\<lambda>b. sha a = sha b \<longrightarrow> a = b) hs) hs"

definition hash_sound :: "libraries \<Rightarrow> directory \<Rightarrow> directory \<Rightarrow> bool" where
  "hash_sound lib d d' \<longleftrightarrow> sound_on (lb_sha256 lib) (hashed_strings lib d @ hashed_strings lib d')"

lemma map_filter_member: "x \<in> set xs \<Longrightarrow> f x = Some y \<Longrightarrow> y \<in> set (List.map_filter f xs)"
  by (induction xs) (auto simp: List.map_filter_simps split: option.splits)

lemma loads_bundle: "loads lib d m verified raw rk \<Longrightarrow> verify_bundle lib d m = Inr verified"
  by (simp add: loads_def)

lemma loads_hashed:
  assumes "loads lib d m verified raw rk"
  shows "payload (mf_files m) \<in> set (hashed_strings lib d)"
    "(p, data) \<in> set verified \<Longrightarrow> data \<in> set (hashed_strings lib d)"
proof -
  have m: "load_manifest lib d = Inr m" using assms by (simp add: loads_def)
  then show "payload (mf_files m) \<in> set (hashed_strings lib d)" by (simp add: hashed_strings_def)
  assume "(p, data) \<in> set verified"
  with verify_bundle_ok(3) [OF loads_bundle [OF assms]] obtain f where "f \<in> set (mf_files m)"
      "verify_member lib d f = Inr (p, data)"
    using map_res_set by fast
  then show "data \<in> set (hashed_strings lib d)"
    by (auto simp: hashed_strings_def m verify_member_ok intro!: map_filter_member)
qed

lemma verified_entries:
  assumes "loads lib d m verified raw rk"
  shows "(p, data) \<in> set verified \<Longrightarrow> (p, lb_sha256 lib data) \<in> entry_of ` set (mf_files m)"
    "(p, h) \<in> entry_of ` set (mf_files m) \<Longrightarrow> \<exists>data. (p, data) \<in> set verified \<and> lb_sha256 lib data = h"
proof -
  note run = verify_bundle_ok(3) [OF loads_bundle [OF assms]]
  show "(p, lb_sha256 lib data) \<in> entry_of ` set (mf_files m)" if "(p, data) \<in> set verified"
    using map_res_set [OF run that] by (force simp: verify_member_ok entry_of_def)
  assume "(p, h) \<in> entry_of ` set (mf_files m)"
  then obtain f where f: "f \<in> set (mf_files m)" "p = fe_path f" "h = fe_sha f" by (auto simp: entry_of_def)
  from map_res_set_ex [OF run f(1)] obtain q data where "(q, data) \<in> set verified" "verify_member lib d f = Inr (q, data)"
    by (metis surj_pair)
  with f show "\<exists>data. (p, data) \<in> set verified \<and> lb_sha256 lib data = h" by (auto simp: verify_member_ok)
qed

lemma loads_paths:
  assumes "loads lib d m verified raw rk"
  shows "dict_keys verified = member_paths m" "distinct (member_paths m)"
proof -
  note ok = verify_bundle_ok [OF loads_bundle [OF assms]]
  show "dict_keys verified = member_paths m" using verified_paths [OF ok(3)] by (simp add: member_paths_def)
  show "distinct (member_paths m)" using check_members_ok [OF ok(1)] by (simp add: member_paths_def)
qed

lemma loads_printable:
  assumes "loads lib d m verified raw rk" "list_all (\<lambda>a. CHR 0x0A \<notin> set (lb_sha256 lib a)) (hashed_strings lib d)"
  shows "list_all printable (mf_files m)" "mf_files m \<noteq> []"
proof -
  note ok = verify_bundle_ok [OF loads_bundle [OF assms(1)]]
  have "printable f" if f: "f \<in> set (mf_files m)" for f
  proof -
    have "reject_unexpected_member (fe_path f) = Inr ()" using check_members_ok [OF ok(1)] f by blast
    from member_known [OF this] have "list_all line_char (fe_path f)" using fixed_line rule_line by blast
    moreover obtain data where "(fe_path f, data) \<in> set verified" "lb_sha256 lib data = fe_sha f"
      using verified_entries(2) [OF assms(1), of "fe_path f" "fe_sha f"] f by (auto simp: entry_of_def)
    moreover have "CHR 0x0A \<notin> set (lb_sha256 lib data)"
      using assms(2) loads_hashed(2) [OF assms(1) calculation(2)] by (simp add: list_all_iff)
    ultimately show ?thesis by (simp add: printable_def)
  qed
  then show "list_all printable (mf_files m)" by (simp add: list_all_iff)
  have "RULE_SCHEMA_MEMBER \<in> set (member_paths m)"
    using ok(2) by (auto simp: check_projection_def rbind_eq_Inr list_all_iff REQUIRED_MEMBERS_def)
  then show "mf_files m \<noteq> []" by (auto simp: member_paths_def)
qed

lemma loads_wp6:
  assumes "loads lib d m verified raw rk"
  shows "is_wp6 m \<longleftrightarrow> ACTION_POLICY_MEMBER \<in> set (member_paths m)"
  using verify_bundle_ok(2) [OF loads_bundle [OF assms]]
  by (auto simp: check_projection_def rbind_eq_Inr list_all_iff)

lemma parse_components_cong:
  assumes "map_of v = map_of v'" "sort (filter (starts_with ''rules/'') ps) = sort (filter (starts_with ''rules/'') ps')"
  shows "parse_components lib wp6 ps v = parse_components lib wp6 ps' v'"
proof -
  have member: "parse_member lib v = parse_member lib v'" by (rule ext) (simp add: parse_member_def assms(1))
  then have "parse_schema lib v = parse_schema lib v'" by (intro ext) (simp add: parse_schema_def)
  moreover have "parse_rule lib v = parse_rule lib v'" by (intro ext) (simp add: parse_rule_def member)
  ultimately show ?thesis unfolding parse_components_def member assms(2) by simp
qed

lemma build_other_meta:
  "build_indexes meta c = Inr rk \<Longrightarrow> build_indexes meta' c = Inr (rk\<lparr>rk_meta := meta'\<rparr>)"
  by (auto simp: build_indexes_def Let_def rbind_eq_Inr)

lemma same_files:
  assumes l: "loads lib d m verified raw rk" "loads lib d' m' verified' raw' rk'"
    and h: "hash_sound lib d d'" and eq: "mf_digest m = mf_digest m'"
  shows "map_of verified = map_of verified'" "set (member_paths m) = set (member_paths m')"
proof -
  have inj: "a = b" if "a \<in> set (hashed_strings lib d) \<union> set (hashed_strings lib d')"
      "b \<in> set (hashed_strings lib d) \<union> set (hashed_strings lib d')" "lb_sha256 lib a = lb_sha256 lib b" for a b
    using h that unfolding hash_sound_def sound_on_def list_all_iff by auto
  have nl: "list_all (\<lambda>a. CHR 0x0A \<notin> set (lb_sha256 lib a)) (hashed_strings lib d)"
      "list_all (\<lambda>a. CHR 0x0A \<notin> set (lb_sha256 lib a)) (hashed_strings lib d')"
    using h by (auto simp: hash_sound_def sound_on_def list_all_iff)
  have "lb_sha256 lib (payload (mf_files m)) = lb_sha256 lib (payload (mf_files m'))"
    using verify_bundle_ok(4) [OF loads_bundle [OF l(1)]] verify_bundle_ok(4) [OF loads_bundle [OF l(2)]] eq
    by (simp add: digest_payload)
  then have "payload (mf_files m) = payload (mf_files m')"
    using inj loads_hashed(1) [OF l(1)] loads_hashed(1) [OF l(2)] by blast
  from payload_inj [OF this] loads_printable [OF l(1) nl(1)] loads_printable [OF l(2) nl(2)]
  have entries: "entry_of ` set (mf_files m) = entry_of ` set (mf_files m')" by blast
  have "fst ` entry_of ` set (mf_files n) = set (member_paths n)" for n
    by (auto simp: entry_of_def member_paths_def image_iff)
  with entries show paths: "set (member_paths m) = set (member_paths m')" by metis
  have sub: "(p, data) \<in> set v'" if z: "(p, data) \<in> set v" "loads lib e n v r k" "loads lib e' n' v' r' k'"
      "entry_of ` set (mf_files n) = entry_of ` set (mf_files n')" "{e, e'} = {d, d'}"
    for p data v v' e e' n n' r r' k k'
  proof -
    obtain data' where "(p, data') \<in> set v'" "lb_sha256 lib data' = lb_sha256 lib data"
      using verified_entries(1) [OF z(2,1)] verified_entries(2) [OF z(3)] z(4) by metis
    moreover from this have "data' = data"
      using inj loads_hashed(2) [OF z(2,1)] loads_hashed(2) [OF z(3)] z(5) by (metis UnI1 UnI2 doubleton_eq_iff)
    ultimately show ?thesis by simp
  qed
  have "set verified = set verified'"
    using sub [OF _ l entries] sub [OF _ l(2,1) entries [symmetric]] by auto
  then show "map_of verified = map_of verified'"
    by (intro map_of_inject_set [THEN iffD2])
      (simp_all add: loads_paths [OF l(1)] loads_paths [OF l(2)])
qed

lemma digest_pins:
  assumes l: "loads lib d m verified raw rk" "loads lib d' m' verified' raw' rk'"
    and h: "hash_sound lib d d'" and eq: "mf_digest m = mf_digest m'"
  shows "rk\<lparr>rk_meta := rk_meta rk'\<rparr> = rk'"
proof -
  note same = same_files [OF l h eq]
  have wp6: "is_wp6 m = is_wp6 m'" using loads_wp6 [OF l(1)] loads_wp6 [OF l(2)] same(2) by simp
  have "sort (filter (starts_with ''rules/'') (member_paths m)) = sort (filter (starts_with ''rules/'') (member_paths m'))"
    by (rule sorted_distinct_set_unique)
      (auto simp: loads_paths(2) [OF l(1)] loads_paths(2) [OF l(2)] same(2))
  from parse_components_cong [OF same(1) this]
  have "raw = raw'" using l wp6 unfolding loads_def by auto
  obtain schema envelope where a: "assemble_knowledge lib m raw schema envelope = Inr rk"
    using loads_assembled [OF l(1)] .
  obtain schema' envelope' where a': "assemble_knowledge lib m' raw' schema' envelope' = Inr rk'"
    using loads_assembled [OF l(2)] .
  have "build_indexes (load_metadata m') (view_components raw) = Inr (rk\<lparr>rk_meta := load_metadata m'\<rparr>)"
    by (rule build_other_meta [OF assemble_ok(5) [OF a]])
  moreover have "rk_meta rk' = load_metadata m'" by (rule loads_contracts(4) [OF l(2)])
  ultimately show ?thesis using assemble_ok(5) [OF a'] \<open>raw = raw'\<close> by simp
qed

end
