(* ===== verification/LoaderErrors.thy ===== *)
theory LoaderErrors
  imports LoaderProps
begin

text \<open>
  How a load fails: with a typed error of a registered code, except for what Python raises while it walks
  the version fields and the condition trees of members no schema has validated.
\<close>

definition errors_in :: "(load_error \<Rightarrow> bool) \<Rightarrow> 'a loading \<Rightarrow> bool" where
  "errors_in P r \<longleftrightarrow> (\<forall>e. r = Inl e \<longrightarrow> P e)"

lemma errors_in_typed: "typed_errors r = errors_in typed r"
  by (simp add: typed_errors_def errors_in_def)

lemma errors_in_rbind:
  "errors_in P x \<Longrightarrow> (\<And>a. x = Inr a \<Longrightarrow> errors_in P (f a)) \<Longrightarrow> errors_in P (rbind x f)"
  by (auto simp: errors_in_def res_simps)

lemma errors_in_Inr [simp]: "errors_in P (Inr x)"
  by (simp add: errors_in_def)

lemma codes [simp]:
  "''BUNDLE_NOT_FOUND'' \<in> set ERROR_CODES" "''MANIFEST_PARSE_ERROR'' \<in> set ERROR_CODES"
  "''MANIFEST_SCHEMA_INVALID'' \<in> set ERROR_CODES" "''COMPONENT_MISSING'' \<in> set ERROR_CODES"
  "''COMPONENT_HASH_MISMATCH'' \<in> set ERROR_CODES" "''COMPONENT_BYTE_COUNT_MISMATCH'' \<in> set ERROR_CODES"
  "''COMPONENT_UNREADABLE'' \<in> set ERROR_CODES" "''DIGEST_MISMATCH'' \<in> set ERROR_CODES"
  "''UNSAFE_PATH'' \<in> set ERROR_CODES" "''UNEXPECTED_MEMBER'' \<in> set ERROR_CODES"
  "''COUNTS_MISMATCH'' \<in> set ERROR_CODES" "''SCHEMA_INCOMPATIBLE'' \<in> set ERROR_CODES"
  "''VERSION_INCOMPATIBLE'' \<in> set ERROR_CODES" "''EMBEDDED_VERSION_MISMATCH'' \<in> set ERROR_CODES"
  "''MEMBER_PARSE_ERROR'' \<in> set ERROR_CODES" "''MEMBER_SCHEMA_INVALID'' \<in> set ERROR_CODES"
  "''REFERENCE_INVALID'' \<in> set ERROR_CODES"
  by (simp_all add: ERROR_CODES_def)

section \<open>Before the members are parsed\<close>

text \<open>The engine's own manifest schema demands the fields and types the loader reads.\<close>

definition manifest_schema_sound :: "libraries \<Rightarrow> bool" where
  "manifest_schema_sound lib \<longleftrightarrow>
     (case lb_manifest_ok lib of None \<Rightarrow> True | Some acc \<Rightarrow> (\<forall>j. acc j \<longrightarrow> read_manifest j \<noteq> None))"

lemma typed_load_manifest: "manifest_schema_sound lib \<Longrightarrow> typed_errors (load_manifest lib d)"
  unfolding load_manifest_def unsafe_def manifest_schema_sound_def
  by (auto simp: typed_errors_def split: option.splits if_splits)

lemma typed_safe_resolve [typed_intros]: "typed_errors (safe_resolve d rel)"
  unfolding safe_resolve_def unsafe_def Let_def by (intro typed_intros) simp_all

lemma typed_unexpected [typed_intros]: "typed_errors (reject_unexpected_member rel)"
  unfolding reject_unexpected_member_def unexpected_def by (intro typed_intros) simp_all

lemma typed_check_members [typed_intros]: "typed_errors (check_members d fs seen)"
  by (induction d fs seen rule: check_members.induct) (auto intro!: typed_intros simp: unsafe_def)

lemma typed_check_projection [typed_intros]: "typed_errors (check_projection m)"
  unfolding check_projection_def by (intro typed_intros) simp_all

lemma typed_verify_member: "typed_errors (verify_member lib d f)"
  unfolding verify_member_def by (auto intro!: typed_intros split: option.split)

lemma typed_map_res [typed_intros]: "(\<And>x. x \<in> set xs \<Longrightarrow> typed_errors (f x)) \<Longrightarrow> typed_errors (map_res f xs)"
  by (induction xs) (auto simp: typed_errors_def res_simps)

lemma typed_verify_bundle: "typed_errors (verify_bundle lib d m)"
  unfolding verify_bundle_def by (intro typed_intros typed_verify_member) simp_all

lemma typed_check_versions: "typed_errors (check_versions m)"
  unfolding check_versions_def by (intro typed_intros) (auto intro!: typed_intros)

section \<open>Parsing\<close>

definition has_members :: "string dict \<Rightarrow> string list \<Rightarrow> bool" where
  "has_members v rels \<longleftrightarrow> set rels \<subseteq> set (dict_keys v)"

lemma typed_parse_member [typed_intros]: "rel \<in> set (dict_keys v) \<Longrightarrow> typed_errors (parse_member lib v rel)"
  by (auto simp: parse_member_def typed_errors_def map_of_eq_None_iff split: option.splits)

lemma typed_parse_schema [typed_intros]: "rel \<in> set (dict_keys v) \<Longrightarrow> typed_errors (parse_schema lib v rel)"
  unfolding parse_schema_def by (intro typed_intros) simp_all

lemma typed_parse_rule: "rel \<in> set (dict_keys v) \<Longrightarrow> typed_errors (parse_rule lib v schema rel)"
  unfolding parse_rule_def by (intro typed_intros) simp_all

lemma typed_each_set: "(\<And>x. x \<in> set xs \<Longrightarrow> typed_errors (f x)) \<Longrightarrow> typed_errors (each f xs)"
  by (auto simp: typed_errors_def dest: each_Inl)

lemma required_listed:
  "REQUIRED_MEMBERS =
     map component_member [''registry'', ''families'', ''negatives'', ''taxonomy'', ''dimensions'', ''sources'', ''evidence'']
     @ RULE_SCHEMA_MEMBER # EXTRACTION_SCHEMA_MEMBERS"
  by code_simp

lemma typed_parse_components:
  assumes "set REQUIRED_MEMBERS \<subseteq> set ps" "wp6 \<Longrightarrow> ACTION_POLICY_MEMBER \<in> set ps" "dict_keys v = ps"
  shows "typed_errors (parse_components lib wp6 ps v)"
proof -
  have "component_member k \<in> set (dict_keys v)"
    if "k \<in> {''registry'', ''families'', ''negatives'', ''taxonomy'', ''dimensions'', ''sources'', ''evidence''}" for k
    using that assms(1,3) unfolding required_listed by auto
  note part = typed_parse_member [OF this]
  have schemas: "RULE_SCHEMA_MEMBER \<in> set (dict_keys v)" "set EXTRACTION_SCHEMA_MEMBERS \<subseteq> set (dict_keys v)"
    using assms(1,3) unfolding required_listed by auto
  have policy: "typed_errors (if wp6 then parse_member lib v (component_member ''action_policy'') else Inr EMPTY_POLICY)"
    using typed_parse_member assms(2,3) by (auto simp: ACTION_POLICY_MEMBER_def)
  have rules: "typed_errors (map_res (parse_rule lib v schema) (sort (filter (starts_with ''rules/'') ps)))" for schema
    by (rule typed_map_res, rule typed_parse_rule) (simp add: assms(3))
  have ext: "typed_errors (each (\<lambda>rel. rbind (parse_schema lib v rel) (\<lambda>_. Inr ())) EXTRACTION_SCHEMA_MEMBERS)"
    by (rule typed_each_set) (use schemas(2) in \<open>auto intro!: typed_intros\<close>)
  show ?thesis
    unfolding parse_components_def Let_def
    by (intro typed_errors_rbind typed_errors_intros(1) typed_parse_schema schemas(1) ext rules policy)
      (simp_all add: part)
qed

section \<open>Assembling\<close>

text \<open>What Python raises itself: reading a version field, or walking a condition tree.\<close>

definition reading_raises :: "raw_components \<Rightarrow> json \<Rightarrow> json \<Rightarrow> exc \<Rightarrow> bool" where
  "reading_raises raw schema envelope x \<longleftrightarrow>
     Inl x \<in> snd ` set (embedded_versions raw schema envelope) \<or>
     (\<exists>r\<in>set (cp_rules (view_components raw)). trigger_ids r = Inl x) \<or>
     (\<exists>ov\<in>set (cp_overrides (view_components raw)). condition_ids ov = Inl x)"

lemma map_res_Inl: "map_res f xs = Inl e \<Longrightarrow> \<exists>x\<in>set xs. f x = Inl e"
  by (induction xs) (auto simp: res_simps)

lemma references_raise:
  "validate_references c = Inl x \<Longrightarrow>
     (\<exists>r\<in>set (cp_rules c). trigger_ids r = Inl x) \<or> (\<exists>ov\<in>set (cp_overrides c). condition_ids ov = Inl x)"
  by (auto simp: validate_references_def res_simps rule_problems_def override_problems_def Let_def dest!: map_res_Inl)

lemma index_triggers_Inl: "index_triggers pos rs d = Inl x \<Longrightarrow> \<exists>r\<in>set rs. trigger_ids r = Inl x"
  by (induction pos rs d rule: index_triggers.induct) (auto simp: res_simps)

lemma index_conditions_Inl: "index_conditions ovs d = Inl x \<Longrightarrow> \<exists>ov\<in>set ovs. condition_ids ov = Inl x"
  by (induction ovs d rule: index_conditions.induct) (auto simp: res_simps)

lemma build_raises:
  "build_indexes meta c = Inl x \<Longrightarrow>
     (\<exists>r\<in>set (cp_rules c). trigger_ids r = Inl x) \<or> (\<exists>ov\<in>set (cp_overrides c). condition_ids ov = Inl x)"
  by (auto simp: build_indexes_def Let_def res_simps published_of_def dest!: index_triggers_Inl index_conditions_Inl)

lemma typed_check_entries [typed_intros]: "typed_errors (check_entries c es seen)"
  by (induction c es seen rule: check_entries.induct) (auto intro!: typed_intros)

lemma typed_validate_action_policy: "typed_errors (validate_action_policy lib raw)"
  unfolding validate_action_policy_def by (auto intro!: typed_intros split: option.split)

lemma typed_check_counts: "typed_errors (check_counts m c)"
  unfolding check_counts_def by (rule typed_errors_each) (auto intro!: typed_intros)

lemma embedded_raises: "check_embedded w cv (k, v) = Inl e \<Longrightarrow> typed e \<or> (\<exists>x. e = Leaked x \<and> v = Inl x)"
  by (auto simp: check_embedded_def version_error_def rbind_eq_Inl split: if_splits)

lemma assemble_errors:
  assumes "assemble_knowledge lib m raw schema envelope = Inl e"
  shows "typed e \<or> (\<exists>x. e = Leaked x \<and> reading_raises raw schema envelope x)"
proof -
  let ?P = "\<lambda>e. typed e \<or> (\<exists>x. e = Leaked x \<and> reading_raises raw schema envelope x)"
  have typed: "errors_in ?P r" if "typed_errors r" for r :: "unit loading"
    using that by (auto simp: errors_in_def typed_errors_def)
  have embedded: "errors_in ?P (each (check_embedded w cv) (embedded_versions raw schema envelope))" for w cv
    unfolding errors_in_def
  proof (intro allI impI)
    fix e assume "each (check_embedded w cv) (embedded_versions raw schema envelope) = Inl e"
    then obtain k v where kv: "(k, v) \<in> set (embedded_versions raw schema envelope)" "check_embedded w cv (k, v) = Inl e"
      by (metis each_Inl surj_pair)
    from embedded_raises [OF kv(2)] kv(1) show "?P e" unfolding reading_raises_def by force
  qed
  have python: "errors_in ?P (python r)" if "\<And>x. r = Inl x \<Longrightarrow> reading_raises raw schema envelope x" for r :: "'x res"
    using that by (auto simp: errors_in_def)
  have run: "errors_in ?P (assemble_knowledge lib m raw schema envelope)"
    unfolding assemble_knowledge_def Let_def
    by (intro errors_in_rbind typed embedded python typed_check_shapes typed_check_counts typed_errors_if
        typed_validate_action_policy typed_errors_intros errors_in_Inr)
      (auto simp: reading_raises_def dest: references_raise build_raises)
  then show ?thesis using assms by (simp add: errors_in_def)
qed

section \<open>Loading\<close>

text \<open>The members a load parsed raise \<open>x\<close> when they are read.\<close>

definition load_raises :: "libraries \<Rightarrow> directory \<Rightarrow> exc \<Rightarrow> bool" where
  "load_raises lib d x \<longleftrightarrow>
     (\<exists>m verified raw schema envelope. load_manifest lib d = Inr m \<and> verify_bundle lib d m = Inr verified \<and>
        parse_components lib (is_wp6 m) (member_paths m) verified = Inr (raw, schema) \<and>
        parse_member lib verified ENVELOPE_SCHEMA_MEMBER = Inr envelope \<and>
        check_shapes_and_duplicates raw = Inr () \<and> reading_raises raw schema envelope x)"

lemma assemble_shapes:
  "assemble_knowledge lib m raw schema envelope = Inl (Leaked x) \<Longrightarrow> check_shapes_and_duplicates raw = Inr ()"
  using typed_check_shapes [of raw]
  by (auto simp: assemble_knowledge_def Let_def typed_errors_def res_simps)

lemma load_errors:
  assumes sound: "manifest_schema_sound lib" and fails: "load_bundle lib d = Inl e"
  shows "typed e \<or> (\<exists>x. e = Leaked x \<and> load_raises lib d x)"
proof (cases "load_manifest lib d")
  case (Inl e')
  then show ?thesis using fails typed_load_manifest [OF sound, of d] by (simp add: load_bundle_def typed_errors_def)
next
  case m: (Inr m)
  show ?thesis
  proof (cases "verify_bundle lib d m")
    case (Inl e')
    then show ?thesis using fails m typed_verify_bundle [of lib d m] by (simp add: load_bundle_def typed_errors_def)
  next
    case v: (Inr verified)
    note ok = verify_bundle_ok [OF v]
    have keys: "dict_keys verified = member_paths m" using verified_paths [OF ok(3)] by (simp add: member_paths_def)
    have req: "set REQUIRED_MEMBERS \<subseteq> set (member_paths m)" "is_wp6 m \<Longrightarrow> ACTION_POLICY_MEMBER \<in> set (member_paths m)"
      using ok(2) by (auto simp: check_projection_def rbind_eq_Inr list_all_iff)
    let ?parse = "parse_components lib (is_wp6 m) (member_paths m) verified"
    have parse: "typed_errors ?parse" by (rule typed_parse_components [OF req keys]) simp
    have env: "typed_errors (parse_member lib verified ENVELOPE_SCHEMA_MEMBER)"
      by (rule typed_parse_member) (use req(1) keys in \<open>auto simp: required_listed EXTRACTION_SCHEMA_MEMBERS_def\<close>)
    have "load_bundle lib d = rbind (check_versions m) (\<lambda>_. rbind ?parse (\<lambda>(raw, schema).
        rbind (parse_member lib verified ENVELOPE_SCHEMA_MEMBER) (\<lambda>envelope.
        assemble_knowledge lib m raw schema envelope)))"
      by (simp add: load_bundle_def m v)
    with fails consider "check_versions m = Inl e" | "?parse = Inl e"
      | "parse_member lib verified ENVELOPE_SCHEMA_MEMBER = Inl e"
      | raw schema envelope where "?parse = Inr (raw, schema)"
          "parse_member lib verified ENVELOPE_SCHEMA_MEMBER = Inr envelope"
          "assemble_knowledge lib m raw schema envelope = Inl e"
      by (auto simp: rbind_eq_Inl)
    then show ?thesis
    proof cases
      case 1
      then show ?thesis using typed_check_versions by (auto simp: typed_errors_def)
    next
      case 2
      then show ?thesis using parse by (auto simp: typed_errors_def)
    next
      case 3
      then show ?thesis using env by (auto simp: typed_errors_def)
    next
      case 4
      from assemble_errors [OF 4(3)] assemble_shapes 4 m v show ?thesis unfolding load_raises_def by blast
    qed
  qed
qed

end
