(* ===== verification/LoaderSamples.thy ===== *)
theory LoaderSamples
  imports DigestProps LoaderErrors Samples
begin

text \<open>
  A small bundle for the witnesses of the loader's properties: one rule, indicator, negative indicator,
  override, category, source, evidence record and policy entry. The bytes of a member are a short name, which
  the parser of the sample maps to the member's JSON; the digest writes newlines as bars.
\<close>

abbreviation S :: "string \<Rightarrow> json" where
  "S \<equiv> JStr"

definition one :: "string \<Rightarrow> string \<Rightarrow> string \<Rightarrow> json \<Rightarrow> json" where
  "one vk v k item = JObj [(vk, S v), (k, JArr [item])]"

definition small_rule :: json where
  "small_rule = JObj
     [(''id'', S ''TL-AAA-001''), (''kind'', S ''COMPOSITE''), (''name'', S ''sample''),
      (''lifecycle'', JObj [(''status'', S ''PUBLISHED'')]),
      (''logic'', JObj [(''require'', S ''IND-1''), (''suppressed_by'', JArr [S ''NEG-1''])]),
      (''taxonomy_refs'', JArr [S ''TAX-1.1'']),
      (''evidence'', JObj [(''verdict'', S ''SUPPORTED''),
         (''source_references'', JArr [JObj [(''source_id'', S ''SRC-1''),
            (''manual_retrieval'', JObj [(''evidence_ids'', JArr [S ''EV-1''])])]])])]"

definition negatives_member :: json where
  "negatives_member = JObj
     [(''library_version'', S ''2.0.0''), (''categories'', JObj [(''ROUTINE'', S ''routine notices'')]),
      (''negative_indicators'', JArr [JObj
         [(''negative_indicator_id'', S ''NEG-1''), (''status'', S ''ACTIVE''), (''category'', S ''ROUTINE''),
          (''applicable_rule_families'', JArr [S ''TAX-1'']), (''source_basis'', JArr [S ''SRC-1'']),
          (''suppresses_indicators'', JArr [S ''IND-1''])]]),
      (''overrides'', JArr [JObj
         [(''override_id'', S ''OV-1''), (''condition'', S ''IND-1''), (''applies_to_rules'', JArr [S ''TL-AAA-001'']),
          (''blocks_suppression_categories'', JArr [S ''ROUTINE''])]])]"

definition taxonomy_member :: json where
  "taxonomy_member = one ''taxonomy_version'' ''2.0'' ''categories''
     (JObj [(''id'', S ''TAX-1''), (''subcategories'', JArr [JObj [(''id'', S ''TAX-1.1''),
        (''dimensions'', JObj [(''typical_channels'', JArr [S ''CH-1''])])]])])"

definition version_schema :: "string \<Rightarrow> json" where
  "version_schema k = JObj [(''properties'', JObj [(k, JObj [(''const'', S ''1.0.0'')])])]"

definition small_files :: "(string \<times> string \<times> json) list" where
  "small_files =
     [(''rules/TL-AAA-001.json'', ''m1'', small_rule),
      (''indicators/indicator-registry-v0.json'',
         ''m2'', one ''registry_version'' ''0.3.0-interim'' ''indicators'' (JObj [(''id'', S ''IND-1''), (''strength'', S ''STRONG'')])),
      (''indicators/indicator-families-v1.json'', ''m3'', one ''families_version'' ''1.0.0'' ''families''
         (JObj [(''family_id'', S ''FAM-1''), (''indicator_outputs'', JArr [S ''IND-1''])])),
      (''indicators/negative-indicator-library-v1.json'', ''m4'', negatives_member),
      (''taxonomy/scam-taxonomy.json'', ''m5'', taxonomy_member),
      (''taxonomy/dimensions-v1.json'', ''m6'', JObj [(''dimensions_version'', S ''1.0.0''),
         (''dimensions'', JObj [(''channel'', JObj [(''terms'', JArr [JObj [(''id'', S ''CH-1'')]])])])]),
      (''sources/verification-manifest.json'', ''m7'', one ''manifest_version'' ''1.2'' ''sources''
         (JObj [(''id'', S ''SRC-1''), (''manual_retrieval'', JObj [(''evidence_ids'', JArr [S ''EV-1''])])])),
      (''sources/evidence-records.json'', ''m8'', one ''version'' ''1.0'' ''records''
         (JObj [(''evidence_id'', S ''EV-1''), (''manifest_source_id'', S ''SRC-1'')])),
      (''detection/action-policy-v1.json'', ''m9'', one ''policy_version'' ''1.0.0'' ''entries''
         (JObj [(''policy_entry_id'', S ''AP-1''), (''trigger'', JObj [(''type'', S ''RULE''), (''id'', S ''TL-AAA-001'')]),
            (''action_code'', S ''VERIFY_INDEPENDENTLY''), (''evidence_refs'', JArr [S ''SRC-1''])])),
      (''schemas/rule.schema.json'', ''m10'', version_schema ''schema_version''),
      (''schemas/input-envelope.schema.json'', ''m11'', version_schema ''envelope_version''),
      (''schemas/observation.schema.json'', ''m12'', JObj []),
      (''schemas/url-observation.schema.json'', ''m13'', JObj []),
      (''schemas/indicator-observation.schema.json'', ''m14'', JObj [])]"

definition small_sha :: "string \<Rightarrow> string" where
  "small_sha s = map (\<lambda>c. if c = CHR 0x0A then CHR ''|'' else c) s"

definition small_manifest :: "string \<Rightarrow> json" where
  "small_manifest commit = JObj
     [(''manifest_schema_version'', S ''1.1.0''), (''bundle_version'', S ''1.0.0''), (''commit_sha'', S commit),
      (''content_digest'', S (canonical_content_digest small_sha
         (map (\<lambda>(p, data, _). \<lparr>fe_path = p, fe_sha = small_sha data, fe_bytes = int (length data)\<rparr>) small_files))),
      (''component_versions'', JObj (map (\<lambda>(k, vs). (k, S (hd vs))) SUPPORTED_COMPONENT_VERSIONS)),
      (''counts'', JObj [(''rules_total'', JInt 1), (''files'', JInt 14)]),
      (''integrity'', JObj [(''files'', JArr (map (\<lambda>(p, data, _). JObj [(''path'', S p), (''sha256'', S (small_sha data)),
         (''bytes'', JInt (int (length data)))]) small_files))])]"

text \<open>The manifest's bytes name the commit it records.\<close>

definition small_libraries :: "(string \<times> string \<times> json) list \<Rightarrow> libraries" where
  "small_libraries files =
     \<lparr>lb_sha256 = small_sha,
      lb_loads = (\<lambda>s. if take 7 s = ''commit-'' then Some (small_manifest s) else map_of (map snd files) s),
      lb_manifest_ok = Some (\<lambda>_. True), lb_policy_ok = Some (\<lambda>_. True),
      lb_check_schema = (\<lambda>_. True), lb_rule_ok = (\<lambda>_ _. True)\<rparr>"

definition small_bundle :: "string \<Rightarrow> directory" where
  "small_bundle commit =
     \<lparr>dir_is_dir = True, dir_root = [''srv'', ''bundle''],
      dir_resolve = (\<lambda>rel. [''srv'', ''bundle''] @ split_on (CHR ''/'') rel),
      dir_file = (\<lambda>p. if p = [''srv'', ''bundle'', ''bundle-manifest.json''] then Some (Some commit)
                      else map_option (\<lambda>(data, _). Some data) (map_of small_files (join_with ''/'' (drop 2 p))))\<rparr>"

fun succeeds :: "'e + 'a \<Rightarrow> bool" where
  "succeeds (Inl _) = False"
| "succeeds (Inr _) = True"

lemma succeeds_ex: "succeeds r \<Longrightarrow> \<exists>x. r = Inr x"
  by (cases r) simp_all

lemma small_ok: "succeeds (load_bundle (small_libraries small_files) (small_bundle ''commit-1''))"
  by code_simp

lemma small_ok': "succeeds (load_bundle (small_libraries small_files) (small_bundle ''commit-2''))"
  by code_simp

lemma small_hashes:
  "hash_sound (small_libraries small_files) (small_bundle ''commit-1'') (small_bundle ''commit-2'')"
  by code_simp

lemma small_manifests:
  "case load_manifest (small_libraries small_files) (small_bundle ''commit-1'') of
     Inl _ \<Rightarrow> False
   | Inr m \<Rightarrow> (case load_manifest (small_libraries small_files) (small_bundle ''commit-2'') of
       Inl _ \<Rightarrow> False
     | Inr m' \<Rightarrow> mf_files m = mf_files m')"
  by code_simp

lemma small_same_digest:
  assumes "load_bundle (small_libraries small_files) (small_bundle ''commit-1'') = Inr rk"
    "load_bundle (small_libraries small_files) (small_bundle ''commit-2'') = Inr rk'"
  shows "md_content_digest (rk_meta rk) = md_content_digest (rk_meta rk')"
proof -
  obtain m verified raw where l: "loads (small_libraries small_files) (small_bundle ''commit-1'') m verified raw rk"
    using load_bundle_loads [OF assms(1)] .
  obtain m' verified' raw' where l': "loads (small_libraries small_files) (small_bundle ''commit-2'') m' verified' raw' rk'"
    using load_bundle_loads [OF assms(2)] .
  have "mf_files m = mf_files m'" using small_manifests l l' unfolding loads_def by simp
  then have "mf_digest m = mf_digest m'"
    using verify_bundle_ok(4) [OF loads_bundle [OF l]] verify_bundle_ok(4) [OF loads_bundle [OF l']] by simp
  then show ?thesis using loads_contracts(4) [OF l] loads_contracts(4) [OF l'] by (simp add: load_metadata_def)
qed

section \<open>A malformed condition\<close>

text \<open>The same bundle, with an override whose condition has an \<open>of\<close> that is no list.\<close>

definition broken_negatives :: json where
  "broken_negatives = JObj
     [(''library_version'', S ''2.0.0''), (''categories'', JObj []),
      (''negative_indicators'', JArr [JObj [(''negative_indicator_id'', S ''NEG-1''), (''status'', S ''ACTIVE'')]]),
      (''overrides'', JArr [JObj [(''override_id'', S ''OV-1''),
         (''condition'', JObj [(''n_of'', JObj [(''n'', JInt 1), (''of'', JInt 5)])])]])]"

definition broken_files :: "(string \<times> string \<times> json) list" where
  "broken_files =
     map (\<lambda>(p, data, j). (p, data, if p = component_member ''negatives'' then broken_negatives else j)) small_files"

text \<open>The load of a bundle one of whose rules is damaged on disk.\<close>

definition damaged_bundle :: directory where
  "damaged_bundle = (small_bundle ''commit-1'')
     \<lparr>dir_file := (dir_file (small_bundle ''commit-1''))
        ([''srv'', ''bundle'', ''rules'', ''TL-AAA-001.json''] := Some (Some ''xx''))\<rparr>"

lemma broken_load:
  "load_bundle (small_libraries broken_files) (small_bundle ''commit-1'') =
     Inl (Leaked (TypeError ''int object is not iterable''))"
  by code_simp

lemma small_schema: "manifest_schema_sound ((small_libraries files)\<lparr>lb_manifest_ok := Some (\<lambda>j. read_manifest j \<noteq> None)\<rparr>)"
  by (simp add: manifest_schema_sound_def)

lemma damaged_load:
  "load_bundle ((small_libraries small_files)\<lparr>lb_manifest_ok := Some (\<lambda>j. read_manifest j \<noteq> None)\<rparr>) damaged_bundle =
     Inl (BundleLoadError IntegrityError ''COMPONENT_HASH_MISMATCH'' ''sha256 mismatch'')"
  by code_simp

end
