(* ===== verification/Idempotency.thy ===== *)
theory Idempotency
  imports Governance
begin

text \<open>
  apps/backend/trustlens_backend/idempotency.py: durable API idempotency over the table
  api_idempotency_record. Each SQL statement is a function on the table with the effect PostgreSQL gives
  it at READ COMMITTED: a statement sees what is committed when it runs, and an UPDATE re-evaluates its
  WHERE clause on the current row. The time \<open>now\<close> is the start of the transaction. Drawn UUIDs are
  arguments.
\<close>

section \<open>Constants and keys\<close>

text \<open>Durations in seconds.\<close>

definition ACTIVE_WINDOW :: int where
  "ACTIVE_WINDOW = 24 * 60 * 60"

definition CLAIM_LEASE :: int where
  "CLAIM_LEASE = 30"

definition key_char :: "char \<Rightarrow> bool" where
  "key_char c \<longleftrightarrow>
     CHR ''A'' \<le> c \<and> c \<le> CHR ''Z'' \<or> CHR ''a'' \<le> c \<and> c \<le> CHR ''z'' \<or> CHR ''0'' \<le> c \<and> c \<le> CHR ''9'' \<or>
     c \<in> set ''._~-''"

text \<open>\<open>^[A-Za-z0-9._~-]{16,255}$\<close>; the dollar also matches before a final newline.\<close>

definition valid_key :: "string option \<Rightarrow> bool" where
  "valid_key key \<longleftrightarrow>
     (case key of
        None \<Rightarrow> False
      | Some s \<Rightarrow>
          let body = takeWhile key_char s; rest = dropWhile key_char s in
          16 \<le> length body \<and> length body \<le> 255 \<and> (rest = [] \<or> rest = [CHR 0x0A]))"

section \<open>Fingerprints\<close>

text \<open>The digest of what the request means; SHA-256 is an argument.\<close>

definition semantic_digest :: "(string \<Rightarrow> string) \<Rightarrow> string \<Rightarrow> string \<Rightarrow> json \<Rightarrow> ai_error + string" where
  "semantic_digest sha operation_id target_scope body =
     canonical_digest sha
       (JObj [(''operation_id'', JStr operation_id), (''target_resource_scope'', JStr target_scope),
          (''body'', body), (''headers'', JObj [])])"

section \<open>Records\<close>

datatype exec_state = IN_PROGRESS | COMPLETED | FAILED_TERMINAL | RELEASED

text \<open>What the unique constraint ranges over: principal, operation, target path and digest of the key.\<close>

record claim_scope =
  cs_principal :: string
  cs_operation :: string
  cs_target :: string
  cs_key :: string

record replay =
  rp_status :: "int option"
  rp_error :: "string option"
  rp_kind :: "string option"
  rp_resource :: "string option"

definition no_outcome :: replay where
  "no_outcome = \<lparr>rp_status = None, rp_error = None, rp_kind = None, rp_resource = None\<rparr>"

record idem_row =
  ir_id :: string
  ir_scope :: claim_scope
  ir_digest :: string
  ir_state :: exec_state
  ir_token :: string
  ir_lease :: "int option"
  ir_active_until :: int
  ir_superseded :: bool
  ir_outcome :: replay

type_synonym idem_table = "idem_row list"

section \<open>Statements\<close>

definition fresh_row :: "int \<Rightarrow> string \<Rightarrow> claim_scope \<Rightarrow> string \<Rightarrow> string \<Rightarrow> idem_row" where
  "fresh_row now rid scope digest ctoken =
     \<lparr>ir_id = rid, ir_scope = scope, ir_digest = digest, ir_state = IN_PROGRESS, ir_token = ctoken,
      ir_lease = Some (now + CLAIM_LEASE), ir_active_until = now + ACTIVE_WINDOW, ir_superseded = False,
      ir_outcome = no_outcome\<rparr>"

text \<open>\<open>INSERT ... ON CONFLICT DO NOTHING\<close>: a record governs a scope until it is superseded.\<close>

definition governs :: "claim_scope \<Rightarrow> idem_row \<Rightarrow> bool" where
  "governs scope r \<longleftrightarrow> ir_scope r = scope \<and> \<not> ir_superseded r"

definition insert_row :: "int \<Rightarrow> string \<Rightarrow> claim_scope \<Rightarrow> string \<Rightarrow> string \<Rightarrow> idem_table \<Rightarrow> idem_table option" where
  "insert_row now rid scope digest ctoken t =
     (if list_ex (governs scope) t then None else Some (t @ [fresh_row now rid scope digest ctoken]))"

text \<open>The \<open>SELECT\<close>; a database without supersession has no superseded record.\<close>

definition select_row :: "bool \<Rightarrow> claim_scope \<Rightarrow> idem_table \<Rightarrow> idem_row option" where
  "select_row supersession scope t =
     List.find (\<lambda>r. ir_scope r = scope \<and> (supersession \<longrightarrow> \<not> ir_superseded r)) t"

text \<open>\<open>UPDATE ... WHERE ... RETURNING\<close>, nothing when no row matches.\<close>

definition update_rows :: "('r \<Rightarrow> bool) \<Rightarrow> ('r \<Rightarrow> 'r) \<Rightarrow> 'r list \<Rightarrow> 'r list option" where
  "update_rows p f t = (if list_ex p t then Some (map (\<lambda>r. if p r then f r else r) t) else None)"

definition supersede_row :: "int \<Rightarrow> string \<Rightarrow> idem_table \<Rightarrow> idem_table option" where
  "supersede_row now rid =
     update_rows (\<lambda>r. ir_id r = rid \<and> \<not> ir_superseded r \<and> ir_active_until r \<le> now) (\<lambda>r. r\<lparr>ir_superseded := True\<rparr>)"

text \<open>The trigger of migration 0004: a superseded record never changes, the statement is refused.\<close>

definition refused :: "(idem_row \<Rightarrow> bool) \<Rightarrow> idem_table \<Rightarrow> bool" where
  "refused p t = list_ex (\<lambda>r. p r \<and> ir_superseded r) t"

definition reclaim_row :: "int \<Rightarrow> string \<Rightarrow> string \<Rightarrow> string \<Rightarrow> idem_table \<Rightarrow> idem_table option" where
  "reclaim_row now ctoken rid old_token =
     update_rows (\<lambda>r. ir_id r = rid \<and> ir_token r = old_token \<and> \<not> ir_superseded r)
       (\<lambda>r. r\<lparr>ir_state := IN_PROGRESS, ir_token := ctoken, ir_lease := Some (now + CLAIM_LEASE), ir_outcome := no_outcome\<rparr>)"

definition finish_row :: "string \<Rightarrow> string \<Rightarrow> exec_state \<Rightarrow> replay \<Rightarrow> idem_table \<Rightarrow> idem_table option" where
  "finish_row rid ctoken state outcome =
     update_rows (\<lambda>r. ir_id r = rid \<and> ir_token r = ctoken \<and> ir_state r = IN_PROGRESS \<and> \<not> ir_superseded r)
       (\<lambda>r. r\<lparr>ir_state := state, ir_lease := None, ir_outcome := outcome\<rparr>)"

section \<open>Claiming\<close>

datatype claim_result = Claimed string | Replayed replay | KeyReused | InProgress | WriteRefused

datatype claim_decision = D_Answer claim_result | D_Supersede string | D_Reclaim string string

text \<open>What the request decides from the row it read.\<close>

definition lease_live :: "int \<Rightarrow> idem_row \<Rightarrow> bool" where
  "lease_live now r \<longleftrightarrow> (case ir_lease r of None \<Rightarrow> False | Some l \<Rightarrow> now < l)"

definition decide :: "bool \<Rightarrow> int \<Rightarrow> string \<Rightarrow> idem_row option \<Rightarrow> claim_decision" where
  "decide supersession now digest row =
     (case row of
        None \<Rightarrow> D_Answer InProgress
      | Some r \<Rightarrow>
          if ir_active_until r \<le> now then (if supersession then D_Supersede (ir_id r) else D_Answer KeyReused)
          else if ir_digest r \<noteq> digest then D_Answer KeyReused
          else if ir_state r \<in> {COMPLETED, FAILED_TERMINAL} then D_Answer (Replayed (ir_outcome r))
          else if ir_state r = IN_PROGRESS \<and> lease_live now r then D_Answer InProgress
          else D_Reclaim (ir_id r) (ir_token r))"

text \<open>The statements that follow the decision; a raised conflict rolls the transaction back.\<close>

definition settle ::
    "int \<Rightarrow> claim_scope \<Rightarrow> string \<Rightarrow> string \<Rightarrow> string \<Rightarrow> claim_decision \<Rightarrow> idem_table \<Rightarrow> claim_result \<times> idem_table" where
  "settle now scope digest ctoken rid d t =
     (case d of
        D_Answer a \<Rightarrow> (a, t)
      | D_Supersede old_id \<Rightarrow>
          (case supersede_row now old_id t of
             None \<Rightarrow> (InProgress, t)
           | Some t' \<Rightarrow>
               (case insert_row now rid scope digest ctoken t' of
                  None \<Rightarrow> (InProgress, t)
                | Some t'' \<Rightarrow> (Claimed rid, t'')))
      | D_Reclaim old_id old_token \<Rightarrow>
          (case reclaim_row now ctoken old_id old_token t of
             None \<Rightarrow> (if refused (\<lambda>r. ir_id r = old_id \<and> ir_token r = old_token) t then WriteRefused else InProgress, t)
           | Some t' \<Rightarrow> (Claimed old_id, t')))"

text \<open>\<open>claim\<close>, when no other transaction commits between its statements.\<close>

definition claim ::
    "bool \<Rightarrow> int \<Rightarrow> claim_scope \<Rightarrow> string \<Rightarrow> string \<Rightarrow> string \<Rightarrow> string \<Rightarrow> idem_table \<Rightarrow> claim_result \<times> idem_table" where
  "claim supersession now scope digest ctoken rid rid' t =
     (case insert_row now rid scope digest ctoken t of
        Some t' \<Rightarrow> (Claimed rid, t')
      | None \<Rightarrow> settle now scope digest ctoken rid' (decide supersession now digest (select_row supersession scope t)) t)"

section \<open>Finishing\<close>

datatype finish_error = StaleClaim | UpdateRefused

definition finish_failure :: "string \<Rightarrow> string \<Rightarrow> idem_table \<Rightarrow> finish_error" where
  "finish_failure rid ctoken t =
     (if refused (\<lambda>r. ir_id r = rid \<and> ir_token r = ctoken \<and> ir_state r = IN_PROGRESS) t then UpdateRefused else StaleClaim)"

definition complete ::
    "string \<Rightarrow> string \<Rightarrow> int \<Rightarrow> string \<Rightarrow> string \<Rightarrow> idem_table \<Rightarrow> finish_error + idem_table" where
  "complete rid ctoken status kind resource t =
     (case finish_row rid ctoken COMPLETED
        \<lparr>rp_status = Some status, rp_error = None, rp_kind = Some kind, rp_resource = Some resource\<rparr> t of
        None \<Rightarrow> Inl (finish_failure rid ctoken t)
      | Some t' \<Rightarrow> Inr t')"

definition fail_terminal ::
    "string \<Rightarrow> string \<Rightarrow> int \<Rightarrow> string \<Rightarrow> idem_table \<Rightarrow> finish_error + idem_table" where
  "fail_terminal rid ctoken status code t =
     (case finish_row rid ctoken FAILED_TERMINAL
        \<lparr>rp_status = Some status, rp_error = Some code, rp_kind = None, rp_resource = None\<rparr> t of
        None \<Rightarrow> Inl (finish_failure rid ctoken t)
      | Some t' \<Rightarrow> Inr t')"

text \<open>\<open>release\<close> is best effort: every exception of its transaction is swallowed.\<close>

definition release_claim :: "string \<Rightarrow> string \<Rightarrow> int \<Rightarrow> string \<Rightarrow> idem_table \<Rightarrow> idem_table" where
  "release_claim rid ctoken status code t =
     (case finish_row rid ctoken RELEASED
        \<lparr>rp_status = Some status, rp_error = Some code, rp_kind = None, rp_resource = None\<rparr> t of
        None \<Rightarrow> t
      | Some t' \<Rightarrow> t')"

section \<open>Concurrent requests\<close>

text \<open>
  A request is known by its claim token. Its claim transaction takes \<open>now\<close> when it starts and runs up to
  three statements; other transactions may commit between them. A request that holds a claim executes and
  finishes in the transaction of its effect, or releases the claim, at any later time or never.
\<close>

datatype answer = Answered claim_result | Finished exec_state | Stale

datatype point = Started | Conflicted | Decided claim_decision | Holding string | Done answer

record request =
  rq_scope :: claim_scope
  rq_digest :: string
  rq_now :: int
  rq_point :: point

text \<open>An entry of the log: the record, the token, the state and the outcome a request committed.\<close>

record commit =
  cm_id :: string
  cm_token :: string
  cm_state :: exec_state
  cm_outcome :: replay

record world =
  wd_now :: int
  wd_table :: idem_table
  wd_requests :: "request dict"
  wd_log :: "commit list"

datatype idem_event =
    Tick nat
  | Start string claim_scope string
  | Insert string string
  | Select string
  | Settle string string
  | Finish string exec_state replay

definition set_point :: "string \<Rightarrow> request \<Rightarrow> point \<Rightarrow> world \<Rightarrow> world" where
  "set_point ctoken q p w = w\<lparr>wd_requests := AList.update ctoken (q\<lparr>rq_point := p\<rparr>) (wd_requests w)\<rparr>"

definition row_ids :: "world \<Rightarrow> string set" where
  "row_ids w = ir_id ` set (wd_table w)"

text \<open>The UUIDs drawn for records and tokens are new; an event that is not enabled changes nothing.\<close>

fun idem_step :: "bool \<Rightarrow> idem_event \<Rightarrow> world \<Rightarrow> world" where
  "idem_step supers (Tick n) w = w\<lparr>wd_now := wd_now w + int n\<rparr>"
| "idem_step supers (Start ctoken scope digest) w =
     (if map_of (wd_requests w) ctoken = None
      then w\<lparr>wd_requests := AList.update ctoken
             \<lparr>rq_scope = scope, rq_digest = digest, rq_now = wd_now w, rq_point = Started\<rparr> (wd_requests w)\<rparr>
      else w)"
| "idem_step supers (Insert ctoken rid) w =
     (case map_of (wd_requests w) ctoken of
        None \<Rightarrow> w
      | Some q \<Rightarrow>
          if rq_point q \<noteq> Started \<or> rid \<in> row_ids w then w
          else case insert_row (rq_now q) rid (rq_scope q) (rq_digest q) ctoken (wd_table w) of
                 None \<Rightarrow> set_point ctoken q Conflicted w
               | Some t' \<Rightarrow> set_point ctoken q (Holding rid) (w\<lparr>wd_table := t'\<rparr>))"
| "idem_step supers (Select ctoken) w =
     (case map_of (wd_requests w) ctoken of
        None \<Rightarrow> w
      | Some q \<Rightarrow>
          if rq_point q \<noteq> Conflicted then w
          else set_point ctoken q
                 (Decided (decide supers (rq_now q) (rq_digest q) (select_row supers (rq_scope q) (wd_table w)))) w)"
| "idem_step supers (Settle ctoken rid) w =
     (case map_of (wd_requests w) ctoken of
        None \<Rightarrow> w
      | Some q \<Rightarrow>
          (case rq_point q of
             Decided d \<Rightarrow>
               if rid \<in> row_ids w then w
               else (case settle (rq_now q) (rq_scope q) (rq_digest q) ctoken rid d (wd_table w) of
                       (Claimed r, t') \<Rightarrow> set_point ctoken q (Holding r) (w\<lparr>wd_table := t'\<rparr>)
                     | (a, _) \<Rightarrow> set_point ctoken q (Done (Answered a)) w)
           | _ \<Rightarrow> w))"
| "idem_step supers (Finish ctoken state outcome) w =
     (case map_of (wd_requests w) ctoken of
        None \<Rightarrow> w
      | Some q \<Rightarrow>
          (case rq_point q of
             Holding rid \<Rightarrow>
               if state = IN_PROGRESS then w
               else (case finish_row rid ctoken state outcome (wd_table w) of
                       None \<Rightarrow> set_point ctoken q (Done Stale) w
                     | Some t' \<Rightarrow> set_point ctoken q (Done (Finished state))
                         (w\<lparr>wd_table := t', wd_log := \<lparr>cm_id = rid, cm_token = ctoken, cm_state = state,
                            cm_outcome = outcome\<rparr> # wd_log w\<rparr>))
           | _ \<Rightarrow> w))"

definition idem_run :: "bool \<Rightarrow> idem_event list \<Rightarrow> world \<Rightarrow> world" where
  "idem_run supers es w = fold (idem_step supers) es w"

definition empty_world :: world where
  "empty_world = \<lparr>wd_now = 0, wd_table = [], wd_requests = [], wd_log = []\<rparr>"

text \<open>The committed effects of a record.\<close>

definition committed_effects :: "world \<Rightarrow> string list" where
  "committed_effects w = map cm_id (filter (\<lambda>c. cm_state c = COMPLETED) (wd_log w))"

text \<open>Every request commits its effect before its lease ends.\<close>

definition in_time :: "idem_event \<Rightarrow> world \<Rightarrow> bool" where
  "in_time e w \<longleftrightarrow>
     (case e of
        Finish ctoken COMPLETED _ \<Rightarrow>
          (case map_of (wd_requests w) ctoken of None \<Rightarrow> True | Some q \<Rightarrow> wd_now w < rq_now q + CLAIM_LEASE)
      | _ \<Rightarrow> True)"

fun prompt_run :: "bool \<Rightarrow> idem_event list \<Rightarrow> world \<Rightarrow> bool" where
  "prompt_run supers [] w = True"
| "prompt_run supers (e # es) w = (in_time e w \<and> prompt_run supers es (idem_step supers e w))"

end
