(* ===== verification/IdempotencyProps.thy ===== *)
theory IdempotencyProps
  imports Idempotency
begin

text \<open>
  Runs of concurrent requests: at most one record governs a scope; a replay returns what a request on the
  same scope and body committed; and when every effect commits within its lease, a record has at most one
  effect. Without that a request that takes an expired claim over can overwrite a committed outcome.
\<close>

section \<open>Statements\<close>

lemma update_rows_Some:
  "update_rows p f t = Some t' \<longleftrightarrow> list_ex p t \<and> t' = map (\<lambda>r. if p r then f r else r) t"
  by (auto simp: update_rows_def)

lemma update_rows_None: "update_rows p f t = None \<longleftrightarrow> \<not> list_ex p t"
  by (simp add: update_rows_def)

lemma insert_row_Some:
  "insert_row now rid scope digest ctoken t = Some t' \<longleftrightarrow>
     \<not> list_ex (governs scope) t \<and> t' = t @ [fresh_row now rid scope digest ctoken]"
  by (auto simp: insert_row_def)

lemma insert_row_None: "insert_row now rid scope digest ctoken t = None \<longleftrightarrow> list_ex (governs scope) t"
  by (simp add: insert_row_def)

lemma fresh_row_simps [simp]:
  "ir_id (fresh_row now rid s d tok) = rid" "ir_scope (fresh_row now rid s d tok) = s"
  "ir_digest (fresh_row now rid s d tok) = d" "ir_state (fresh_row now rid s d tok) = IN_PROGRESS"
  "ir_token (fresh_row now rid s d tok) = tok" "ir_lease (fresh_row now rid s d tok) = Some (now + CLAIM_LEASE)"
  "ir_superseded (fresh_row now rid s d tok) = False"
  by (simp_all add: fresh_row_def)

text \<open>What the three updates do to a row.\<close>

definition marked :: "int \<Rightarrow> string \<Rightarrow> idem_row \<Rightarrow> idem_row" where
  "marked now rid r =
     (if ir_id r = rid \<and> \<not> ir_superseded r \<and> ir_active_until r \<le> now then r\<lparr>ir_superseded := True\<rparr> else r)"

definition taken :: "int \<Rightarrow> string \<Rightarrow> string \<Rightarrow> string \<Rightarrow> idem_row \<Rightarrow> idem_row" where
  "taken now ctoken rid old r =
     (if ir_id r = rid \<and> ir_token r = old \<and> \<not> ir_superseded r
      then r\<lparr>ir_state := IN_PROGRESS, ir_token := ctoken, ir_lease := Some (now + CLAIM_LEASE), ir_outcome := no_outcome\<rparr>
      else r)"

definition ended :: "string \<Rightarrow> string \<Rightarrow> exec_state \<Rightarrow> replay \<Rightarrow> idem_row \<Rightarrow> idem_row" where
  "ended rid ctoken state outcome r =
     (if ir_id r = rid \<and> ir_token r = ctoken \<and> ir_state r = IN_PROGRESS \<and> \<not> ir_superseded r
      then r\<lparr>ir_state := state, ir_lease := None, ir_outcome := outcome\<rparr> else r)"

lemma supersede_row_eq:
  "supersede_row now rid t = Some t' \<longleftrightarrow>
     list_ex (\<lambda>r. ir_id r = rid \<and> \<not> ir_superseded r \<and> ir_active_until r \<le> now) t \<and> t' = map (marked now rid) t"
  "supersede_row now rid t = None \<longleftrightarrow>
     \<not> list_ex (\<lambda>r. ir_id r = rid \<and> \<not> ir_superseded r \<and> ir_active_until r \<le> now) t"
  by (simp_all add: supersede_row_def update_rows_Some update_rows_None marked_def [abs_def])

lemma reclaim_row_eq:
  "reclaim_row now ctoken rid old t = Some t' \<longleftrightarrow>
     list_ex (\<lambda>r. ir_id r = rid \<and> ir_token r = old \<and> \<not> ir_superseded r) t \<and> t' = map (taken now ctoken rid old) t"
  "reclaim_row now ctoken rid old t = None \<longleftrightarrow> \<not> list_ex (\<lambda>r. ir_id r = rid \<and> ir_token r = old \<and> \<not> ir_superseded r) t"
  by (simp_all add: reclaim_row_def update_rows_Some update_rows_None taken_def [abs_def])

lemma finish_row_eq:
  "finish_row rid ctoken state outcome t = Some t' \<longleftrightarrow>
     list_ex (\<lambda>r. ir_id r = rid \<and> ir_token r = ctoken \<and> ir_state r = IN_PROGRESS \<and> \<not> ir_superseded r) t \<and>
     t' = map (ended rid ctoken state outcome) t"
  "finish_row rid ctoken state outcome t = None \<longleftrightarrow>
     \<not> list_ex (\<lambda>r. ir_id r = rid \<and> ir_token r = ctoken \<and> ir_state r = IN_PROGRESS \<and> \<not> ir_superseded r) t"
  by (simp_all add: finish_row_def update_rows_Some update_rows_None ended_def [abs_def])

lemma row_updates [simp]:
  "ir_id (marked now rid r) = ir_id r" "ir_scope (marked now rid r) = ir_scope r"
  "ir_digest (marked now rid r) = ir_digest r" "ir_token (marked now rid r) = ir_token r"
  "ir_state (marked now rid r) = ir_state r" "ir_lease (marked now rid r) = ir_lease r"
  "ir_outcome (marked now rid r) = ir_outcome r"
  "ir_id (taken now tok rid old r) = ir_id r" "ir_scope (taken now tok rid old r) = ir_scope r"
  "ir_digest (taken now tok rid old r) = ir_digest r" "ir_superseded (taken now tok rid old r) = ir_superseded r"
  "ir_id (ended rid tok st out r) = ir_id r" "ir_scope (ended rid tok st out r) = ir_scope r"
  "ir_digest (ended rid tok st out r) = ir_digest r" "ir_superseded (ended rid tok st out r) = ir_superseded r"
  "ir_token (ended rid tok st out r) = ir_token r"
  by (simp_all add: marked_def taken_def ended_def)

lemma marked_live: "\<not> ir_superseded (marked now rid r) \<Longrightarrow> \<not> ir_superseded r"
  by (simp add: marked_def split: if_splits)

lemma taken_cases:
  obtains "taken now tok rid old r = r"
  | "ir_id r = rid" "ir_token r = old" "ir_token (taken now tok rid old r) = tok"
    "ir_state (taken now tok rid old r) = IN_PROGRESS" "ir_lease (taken now tok rid old r) = Some (now + CLAIM_LEASE)"
  by (cases "ir_id r = rid \<and> ir_token r = old \<and> \<not> ir_superseded r") (auto simp: taken_def)

lemma ended_cases:
  obtains "ended rid tok st out r = r"
  | "ir_id r = rid" "ir_token r = tok" "ir_state r = IN_PROGRESS" "ir_state (ended rid tok st out r) = st"
    "ir_outcome (ended rid tok st out r) = out" "ir_lease (ended rid tok st out r) = None"
  by (cases "ir_id r = rid \<and> ir_token r = tok \<and> ir_state r = IN_PROGRESS \<and> \<not> ir_superseded r") (auto simp: ended_def)

section \<open>The transitions\<close>

abbreviation req :: "world \<Rightarrow> string \<Rightarrow> request option" where
  "req w \<equiv> map_of (wd_requests w)"

text \<open>
  The enabled events as a relation; with \<open>p\<close> set, effects commit within their leases.
\<close>

inductive moves :: "bool \<Rightarrow> bool \<Rightarrow> world \<Rightarrow> world \<Rightarrow> bool" for p supers w where
  tick: "moves p supers w (w\<lparr>wd_now := wd_now w + int n\<rparr>)"
| start: "req w tok = None \<Longrightarrow>
    moves p supers w (w\<lparr>wd_requests := AList.update tok
      \<lparr>rq_scope = s, rq_digest = d, rq_now = wd_now w, rq_point = Started\<rparr> (wd_requests w)\<rparr>)"
| inserted: "\<lbrakk>req w tok = Some q; rq_point q = Started; rid \<notin> row_ids w; \<not> list_ex (governs (rq_scope q)) (wd_table w)\<rbrakk> \<Longrightarrow>
    moves p supers w (set_point tok q (Holding rid)
      (w\<lparr>wd_table := wd_table w @ [fresh_row (rq_now q) rid (rq_scope q) (rq_digest q) tok]\<rparr>))"
| conflicted: "\<lbrakk>req w tok = Some q; rq_point q = Started\<rbrakk> \<Longrightarrow> moves p supers w (set_point tok q Conflicted w)"
| decided: "\<lbrakk>req w tok = Some q; rq_point q = Conflicted;
      d = decide supers (rq_now q) (rq_digest q) (select_row supers (rq_scope q) (wd_table w))\<rbrakk> \<Longrightarrow>
    moves p supers w (set_point tok q (Decided d) w)"
| answered: "\<lbrakk>req w tok = Some q; rq_point q = Decided d; a = InProgress \<or> a = WriteRefused \<or> d = D_Answer a\<rbrakk> \<Longrightarrow>
    moves p supers w (set_point tok q (Done (Answered a)) w)"
| granted: "\<lbrakk>req w tok = Some q; rq_point q = Decided (D_Answer (Claimed r))\<rbrakk> \<Longrightarrow>
    moves p supers w (set_point tok q (Holding r) w)"
| superseded: "\<lbrakk>req w tok = Some q; rq_point q = Decided (D_Supersede old); rid \<notin> row_ids w;
      t = map (marked (rq_now q) old) (wd_table w); \<not> list_ex (governs (rq_scope q)) t\<rbrakk> \<Longrightarrow>
    moves p supers w (set_point tok q (Holding rid)
      (w\<lparr>wd_table := t @ [fresh_row (rq_now q) rid (rq_scope q) (rq_digest q) tok]\<rparr>))"
| reclaimed: "\<lbrakk>req w tok = Some q; rq_point q = Decided (D_Reclaim rid old);
      list_ex (\<lambda>r. ir_id r = rid \<and> ir_token r = old \<and> \<not> ir_superseded r) (wd_table w)\<rbrakk> \<Longrightarrow>
    moves p supers w (set_point tok q (Holding rid) (w\<lparr>wd_table := map (taken (rq_now q) tok rid old) (wd_table w)\<rparr>))"
| stale: "\<lbrakk>req w tok = Some q; rq_point q = Holding rid\<rbrakk> \<Longrightarrow> moves p supers w (set_point tok q (Done Stale) w)"
| finished: "\<lbrakk>req w tok = Some q; rq_point q = Holding rid; st \<noteq> IN_PROGRESS;
      list_ex (\<lambda>r. ir_id r = rid \<and> ir_token r = tok \<and> ir_state r = IN_PROGRESS \<and> \<not> ir_superseded r) (wd_table w);
      p \<Longrightarrow> st = COMPLETED \<Longrightarrow> wd_now w < rq_now q + CLAIM_LEASE\<rbrakk> \<Longrightarrow>
    moves p supers w (set_point tok q (Done (Finished st))
      (w\<lparr>wd_table := map (ended rid tok st o') (wd_table w),
         wd_log := \<lparr>cm_id = rid, cm_token = tok, cm_state = st, cm_outcome = o'\<rparr> # wd_log w\<rparr>))"

lemma step_moves:
  assumes "p \<Longrightarrow> in_time e w"
  shows "idem_step supers e w = w \<or> moves p supers w (idem_step supers e w)"
proof (cases e)
  case (Tick n)
  then show ?thesis by (auto intro: moves.tick)
next
  case (Start tok s d)
  then show ?thesis by (auto intro: moves.start)
next
  case (Insert tok rid)
  then show ?thesis
    by (auto simp: insert_row_Some insert_row_None intro: moves.inserted moves.conflicted split: option.split)
next
  case (Select tok)
  then show ?thesis by (auto intro: moves.decided split: option.split)
next
  case (Finish tok st o')
  then show ?thesis using assms
    by (auto simp: finish_row_eq in_time_def
        intro!: moves.finished moves.stale split: option.split point.split)
next
  case (Settle tok rid)
  show ?thesis
  proof (cases "\<exists>q d. req w tok = Some q \<and> rq_point q = Decided d \<and> rid \<notin> row_ids w")
    case True
    then obtain q d where q: "req w tok = Some q" "rq_point q = Decided d" "rid \<notin> row_ids w" by blast
    show ?thesis
    proof (cases d)
      case (D_Answer a)
      with q show ?thesis
        by (cases a) (auto simp: Settle settle_def intro: moves.answered moves.granted)
    next
      case (D_Supersede old)
      with q show ?thesis
        by (auto simp: Settle settle_def supersede_row_eq insert_row_Some insert_row_None
            intro: moves.answered moves.superseded split: option.split)
    next
      case (D_Reclaim rid' old)
      with q show ?thesis
        by (auto simp: Settle settle_def reclaim_row_eq
            intro: moves.answered moves.reclaimed split: option.split)
    qed
  qed (auto simp: Settle split: option.split point.split)
qed

text \<open>Invariants of the relation hold after every run.\<close>

lemma run_invariant:
  assumes "\<And>w w'. I w \<Longrightarrow> moves False supers w w' \<Longrightarrow> I w'" "I w"
  shows "I (idem_run supers es w)"
  using assms(2)
proof (induction es arbitrary: w)
  case (Cons e es)
  have "I (idem_step supers e w)" using step_moves [of False e w supers] Cons.prems assms(1) by metis
  from Cons.IH [OF this] show ?case by (simp add: idem_run_def)
qed (simp add: idem_run_def)

lemma prompt_invariant:
  assumes "\<And>w w'. I w \<Longrightarrow> moves True supers w w' \<Longrightarrow> I w'" "I w" "prompt_run supers es w"
  shows "I (idem_run supers es w)"
  using assms(2,3)
proof (induction es arbitrary: w)
  case (Cons e es)
  have "I (idem_step supers e w)" using step_moves [of True e w supers] Cons.prems assms(1) by (metis prompt_run.simps(2))
  from Cons.IH [OF this] Cons.prems(2) show ?case by (simp add: idem_run_def)
qed (simp add: idem_run_def)

section \<open>Well-formed worlds\<close>

definition owner :: "world \<Rightarrow> string \<Rightarrow> bool" where
  "owner w tok \<longleftrightarrow> (\<exists>q x. req w tok = Some q \<and> (rq_point q = Holding x \<or> (\<exists>a. rq_point q = Done a)))"

text \<open>What a request at a point of its handler knows of the table.\<close>

definition knows :: "world \<Rightarrow> string \<Rightarrow> request \<Rightarrow> bool" where
  "knows w tok q \<longleftrightarrow>
     rq_now q \<le> wd_now w \<and>
     (case rq_point q of
        Decided (D_Reclaim rid old) \<Rightarrow> rid \<in> row_ids w \<and> owner w old
      | Decided (D_Answer a) \<Rightarrow> (\<forall>r. a \<noteq> Claimed r)
      | Holding rid \<Rightarrow> rid \<in> row_ids w \<and>
          (\<forall>r\<in>set (wd_table w). ir_id r = rid \<and> ir_token r = tok \<and> ir_state r = IN_PROGRESS \<longrightarrow>
             ir_lease r = Some (rq_now q + CLAIM_LEASE))
      | _ \<Rightarrow> True)"

definition wf_world :: "world \<Rightarrow> bool" where
  "wf_world w \<longleftrightarrow> distinct (map ir_id (wd_table w)) \<and> (\<forall>r\<in>set (wd_table w). owner w (ir_token r)) \<and>
     (\<forall>tok q. req w tok = Some q \<longrightarrow> knows w tok q)"

lemma set_point_simps [simp]:
  "wd_table (set_point tok q p w) = wd_table w" "wd_now (set_point tok q p w) = wd_now w"
  "wd_log (set_point tok q p w) = wd_log w" "row_ids (set_point tok q p w) = row_ids w"
  by (simp_all add: set_point_def row_ids_def)

lemma req_set_point [simp]: "req (set_point tok q p w) tok' = (if tok' = tok then Some (q\<lparr>rq_point := p\<rparr>) else req w tok')"
  by (simp add: set_point_def map_of_update)

text \<open>
  A move that puts request \<open>tok\<close> at a new point and rewrites the table keeps the world well-formed when
  ids persist and stay distinct, each changed row is owned, and no row starts to run under another token.
\<close>

lemma wf_move:
  assumes wf: "wf_world w" and q: "req w tok = Some q"
    and pt: "owner w tok \<Longrightarrow> \<exists>x a. pt = Holding x \<or> pt = Done a"
    and ids: "distinct (map ir_id t)" "row_ids w \<subseteq> ir_id ` set t"
    and rows: "\<And>r'. r' \<in> set t \<Longrightarrow> (ir_token r' = tok \<and> (\<exists>x a. pt = Holding x \<or> pt = Done a)) \<or>
        (\<exists>r\<in>set (wd_table w). ir_id r' = ir_id r \<and> ir_token r' = ir_token r \<and>
           (ir_state r' = IN_PROGRESS \<longrightarrow> ir_state r = IN_PROGRESS \<and> ir_lease r' = ir_lease r))"
    and k: "knows (set_point tok q pt (w\<lparr>wd_table := t, wd_log := l\<rparr>)) tok (q\<lparr>rq_point := pt\<rparr>)"
  shows "wf_world (set_point tok q pt (w\<lparr>wd_table := t, wd_log := l\<rparr>))"
proof -
  let ?w = "set_point tok q pt (w\<lparr>wd_table := t, wd_log := l\<rparr>)"
  have owner: "owner ?w tok'" if "owner w tok' \<or> tok' = tok \<and> (\<exists>x a. pt = Holding x \<or> pt = Done a)" for tok'
    using that pt by (auto simp: owner_def q)
  have other: "knows ?w tok' q'" if z: "req w tok' = Some q'" "tok' \<noteq> tok" for tok' q'
  proof -
    have "knows w tok' q'" using wf z by (simp add: wf_world_def)
    moreover have "ir_lease r' = Some (rq_now q' + CLAIM_LEASE)"
      if h: "rq_point q' = Holding rid" "r' \<in> set t" "ir_id r' = rid" "ir_token r' = tok'" "ir_state r' = IN_PROGRESS" for rid r'
      using rows [OF h(2)] h z(2) \<open>knows w tok' q'\<close> by (auto simp: knows_def)
    ultimately show ?thesis using ids(2) owner
      by (auto simp: knows_def row_ids_def split: point.splits claim_decision.splits)
  qed
  have "\<forall>r\<in>set t. owner ?w (ir_token r)"
  proof
    fix r' assume "r' \<in> set t"
    from rows [OF this] wf owner show "owner ?w (ir_token r')" unfolding wf_world_def by metis
  qed
  with ids(1) k other show ?thesis by (auto simp: wf_world_def)
qed

lemma same_log: "w\<lparr>wd_table := t, wd_log := wd_log w\<rparr> = w\<lparr>wd_table := t\<rparr>"
  by (cases w) simp

lemma same_table: "w\<lparr>wd_table := wd_table w\<rparr> = w"
  by (cases w) simp

lemmas wf_table = wf_move [where l = "wd_log w" and w = w for w, unfolded same_log]

lemma not_owner:
  assumes "req w tok = Some q" "rq_point q \<in> {Started, Conflicted} \<or> (\<exists>d. rq_point q = Decided d)"
  shows "\<not> owner w tok"
  using assms by (auto simp: owner_def)

lemma wf_point:
  assumes wf: "wf_world w" and q: "req w tok = Some q"
    and pt: "owner w tok \<Longrightarrow> \<exists>x a. pt = Holding x \<or> pt = Done a"
    and k: "knows (set_point tok q pt w) tok (q\<lparr>rq_point := pt\<rparr>)"
  shows "wf_world (set_point tok q pt w)"
proof -
  have "wf_world (set_point tok q pt (w\<lparr>wd_table := wd_table w\<rparr>))"
    by (rule wf_table [OF wf q pt]) (use wf k in \<open>auto simp: wf_world_def row_ids_def same_table\<close>)
  then show ?thesis by (simp add: same_table)
qed

lemma fresh_id: "rid \<notin> row_ids w \<longleftrightarrow> rid \<notin> ir_id ` set (wd_table w)"
  by (simp add: row_ids_def)

lemma selected: "select_row supers s t = Some r \<Longrightarrow> r \<in> set t \<and> ir_scope r = s"
  by (auto simp: select_row_def find_Some_iff)

lemma map_ids: "(\<And>r. ir_id (f r) = ir_id r) \<Longrightarrow> map ir_id (map f t) = map ir_id t"
  by simp

lemma knows_later:
  assumes "knows w tok q" "wd_now w \<le> wd_now w'" "wd_table w' = wd_table w" "\<And>tok. owner w tok \<Longrightarrow> owner w' tok"
  shows "knows w' tok q"
  using assms by (auto simp: knows_def row_ids_def split: point.splits claim_decision.splits)

lemma wf_moves:
  assumes "wf_world w" "moves p supers w w'"
  shows "wf_world w'"
  using assms(2)
proof cases
  case (tick n)
  have own: "owner w' tok' = owner w tok'" for tok' by (simp add: tick owner_def)
  have "knows w' tok' q" if "knows w tok' q" for tok' q
    by (rule knows_later [OF that]) (simp_all add: tick own [unfolded tick])
  with assms(1) own show ?thesis by (simp add: wf_world_def tick)
next
  case (start tok s d)
  have req: "req w' tok' = (if tok' = tok then Some \<lparr>rq_scope = s, rq_digest = d, rq_now = wd_now w, rq_point = Started\<rparr>
      else req w tok')" for tok'
    by (simp add: start map_of_update)
  have own: "owner w tok' \<Longrightarrow> owner w' tok'" for tok'
    using start(2) by (auto simp: owner_def req)
  have same: "wd_table w' = wd_table w" "wd_now w' = wd_now w" by (simp_all add: start)
  have "knows w' tok' q" if "knows w tok' q" for tok' q
    by (rule knows_later [OF that]) (simp_all add: same own)
  with assms(1) own show ?thesis by (auto simp: wf_world_def req same) (simp add: knows_def same)
next
  case (inserted tok q rid)
  show ?thesis unfolding inserted(1)
    by (rule wf_table [OF assms(1) inserted(2)])
      (use assms(1) inserted in \<open>auto simp: wf_world_def fresh_id knows_def row_ids_def\<close>)
next
  case (conflicted tok q)
  show ?thesis unfolding conflicted(1)
    by (rule wf_point [OF assms(1) conflicted(2)])
      (use not_owner conflicted assms(1) in \<open>auto simp: wf_world_def knows_def\<close>)
next
  case (decided tok q d)
  have "knows (set_point tok q (Decided d) w) tok (q\<lparr>rq_point := Decided d\<rparr>)"
  proof (cases "select_row supers (rq_scope q) (wd_table w)")
    case None
    then show ?thesis using decided assms(1) by (auto simp: knows_def wf_world_def decide_def)
  next
    case (Some r)
    have "r \<in> set (wd_table w)" using selected [OF Some] by simp
    moreover have "owner (set_point tok q (Decided d) w) (ir_token r)"
    proof -
      have "owner w (ir_token r)" "\<not> owner w tok" using assms(1) calculation not_owner decided by (auto simp: wf_world_def)
      then show ?thesis by (auto simp: owner_def)
    qed
    ultimately show ?thesis using decided assms(1) Some
      by (auto simp: knows_def wf_world_def decide_def row_ids_def split: claim_decision.split)
  qed
  then show ?thesis unfolding decided(1)
    by (intro wf_point [OF assms(1) decided(2)]) (use not_owner decided in auto)
next
  case (answered tok q d a)
  show ?thesis unfolding answered(1)
    by (rule wf_point [OF assms(1) answered(2)]) (use answered assms(1) in \<open>auto simp: wf_world_def knows_def\<close>)
next
  case (granted tok q r)
  moreover have "knows w tok q" using assms(1) granted(2) by (simp add: wf_world_def)
  ultimately show ?thesis by (simp add: knows_def)
next
  case (superseded tok q old rid t)
  have ids: "map ir_id t = map ir_id (wd_table w)" by (simp add: superseded(5))
  have new: "rid \<notin> set (map ir_id t)" using superseded(4) unfolding ids by (simp add: row_ids_def)
  show ?thesis unfolding superseded(1)
  proof (rule wf_table [OF assms(1) superseded(2)])
    show "distinct (map ir_id (t @ [fresh_row (rq_now q) rid (rq_scope q) (rq_digest q) tok]))"
      using assms(1) ids new by (simp add: wf_world_def del: set_map)
    show "knows (set_point tok q (Holding rid) (w\<lparr>wd_table := t @ [fresh_row (rq_now q) rid (rq_scope q) (rq_digest q) tok]\<rparr>)) tok
        (q\<lparr>rq_point := Holding rid\<rparr>)"
      using assms(1) superseded(2) new by (auto simp: knows_def row_ids_def wf_world_def)
  qed (auto simp: superseded(5) row_ids_def image_image)
next
  case (reclaimed tok q rid old)
  have changed: "ir_token (taken (rq_now q) tok rid old r) = tok \<or>
      ir_token (taken (rq_now q) tok rid old r) = ir_token r \<and> ir_state (taken (rq_now q) tok rid old r) = ir_state r \<and>
      ir_lease (taken (rq_now q) tok rid old r) = ir_lease r" for r
    by (rule taken_cases [of "rq_now q" tok rid old r]) auto
  have mine: "ir_lease (taken (rq_now q) tok rid old r) = Some (rq_now q + CLAIM_LEASE)"
    if "r \<in> set (wd_table w)" "ir_token (taken (rq_now q) tok rid old r) = tok" for r
    using that assms(1) not_owner [OF reclaimed(2)] reclaimed(3)
    by (cases rule: taken_cases [of "rq_now q" tok rid old r]) (auto simp: wf_world_def)
  show ?thesis unfolding reclaimed(1)
  proof (rule wf_table [OF assms(1) reclaimed(2)])
    show "distinct (map ir_id (map (taken (rq_now q) tok rid old) (wd_table w)))"
      using assms(1) by (simp add: wf_world_def comp_def)
    show "knows (set_point tok q (Holding rid) (w\<lparr>wd_table := map (taken (rq_now q) tok rid old) (wd_table w)\<rparr>)) tok
        (q\<lparr>rq_point := Holding rid\<rparr>)"
      using assms(1) reclaimed(2,4) mine by (auto simp: knows_def row_ids_def wf_world_def list_ex_iff image_image)
    fix r' assume "r' \<in> set (map (taken (rq_now q) tok rid old) (wd_table w))"
    then obtain r where "r \<in> set (wd_table w)" "r' = taken (rq_now q) tok rid old r" by auto
    with changed [of r] show "ir_token r' = tok \<and> (\<exists>x a. Holding rid = Holding x \<or> Holding rid = Done a) \<or>
        (\<exists>r\<in>set (wd_table w). ir_id r' = ir_id r \<and> ir_token r' = ir_token r \<and>
           (ir_state r' = IN_PROGRESS \<longrightarrow> ir_state r = IN_PROGRESS \<and> ir_lease r' = ir_lease r))"
      by (elim disjE) (simp, intro disjI2 bexI [of _ r], auto)
  qed (auto simp: row_ids_def image_image)
next
  case (stale tok q rid)
  show ?thesis unfolding stale(1)
    by (rule wf_point [OF assms(1) stale(2)]) (use stale assms(1) in \<open>auto simp: wf_world_def knows_def\<close>)
next
  case (finished tok q rid st o')
  have changed: "ir_state (ended rid tok st o' r) = IN_PROGRESS \<Longrightarrow> ended rid tok st o' r = r" for r
    by (rule ended_cases [of rid tok st o' r]) (use finished(4) in auto)
  show ?thesis unfolding finished(1)
  proof (rule wf_move [OF assms(1) finished(2)])
    show "distinct (map ir_id (map (ended rid tok st o') (wd_table w)))"
      using assms(1) by (simp add: wf_world_def comp_def)
    show "knows (set_point tok q (Done (Finished st)) (w\<lparr>wd_table := map (ended rid tok st o') (wd_table w),
        wd_log := \<lparr>cm_id = rid, cm_token = tok, cm_state = st, cm_outcome = o'\<rparr> # wd_log w\<rparr>)) tok
        (q\<lparr>rq_point := Done (Finished st)\<rparr>)"
      using assms(1) finished(2) by (auto simp: knows_def wf_world_def)
    fix r' assume "r' \<in> set (map (ended rid tok st o') (wd_table w))"
    then obtain r where "r \<in> set (wd_table w)" "r' = ended rid tok st o' r" by auto
    with changed [of r] show "(ir_token r' = tok \<and> (\<exists>x a. Done (Finished st) = Holding x \<or> Done (Finished st) = Done a)) \<or>
        (\<exists>r\<in>set (wd_table w). ir_id r' = ir_id r \<and> ir_token r' = ir_token r \<and>
           (ir_state r' = IN_PROGRESS \<longrightarrow> ir_state r = IN_PROGRESS \<and> ir_lease r' = ir_lease r))"
      by (intro disjI2 bexI [of _ r]) auto
  qed (auto simp: row_ids_def image_image)
qed

section \<open>One governing record\<close>

definition one_governing :: "world \<Rightarrow> bool" where
  "one_governing w \<longleftrightarrow> distinct (map ir_scope (filter (\<lambda>r. \<not> ir_superseded r) (wd_table w)))"

lemma live_map:
  assumes "\<And>r. ir_scope (f r) = ir_scope r \<and> (\<not> ir_superseded (f r) \<longrightarrow> \<not> ir_superseded r)"
  shows "set (map ir_scope (filter (\<lambda>r. \<not> ir_superseded r) (map f t))) \<subseteq>
       set (map ir_scope (filter (\<lambda>r. \<not> ir_superseded r) t))"
    "distinct (map ir_scope (filter (\<lambda>r. \<not> ir_superseded r) t)) \<Longrightarrow>
       distinct (map ir_scope (filter (\<lambda>r. \<not> ir_superseded r) (map f t)))"
proof -
  show sub: "set (map ir_scope (filter (\<lambda>r. \<not> ir_superseded r) (map f t))) \<subseteq>
       set (map ir_scope (filter (\<lambda>r. \<not> ir_superseded r) t))" for t
    using assms by fastforce
  show "distinct (map ir_scope (filter (\<lambda>r. \<not> ir_superseded r) t)) \<Longrightarrow>
       distinct (map ir_scope (filter (\<lambda>r. \<not> ir_superseded r) (map f t)))"
  proof (induction t)
    case (Cons r t)
    then show ?case using assms [of r] sub [of t] by (auto simp del: set_map split: if_splits)
  qed simp
qed

lemma live_append:
  assumes "distinct (map ir_scope (filter (\<lambda>r. \<not> ir_superseded r) t))" "\<not> list_ex (governs s) t"
  shows "distinct (map ir_scope (filter (\<lambda>r. \<not> ir_superseded r) (t @ [fresh_row now rid s d tok])))"
  using assms by (auto simp: list_ex_iff governs_def)

lemma one_governing_moves:
  assumes "one_governing w" "moves p supers w w'"
  shows "one_governing w'"
  using assms(2)
proof cases
  case (inserted tok q rid)
  then show ?thesis using assms(1) live_append by (simp add: one_governing_def)
next
  case (superseded tok q old rid t)
  have "distinct (map ir_scope (filter (\<lambda>r. \<not> ir_superseded r) t))"
    unfolding superseded(5)
    by (rule live_map(2)) (use assms(1) marked_live in \<open>auto simp: one_governing_def\<close>)
  from live_append [OF this superseded(6)] show ?thesis by (simp add: one_governing_def superseded(1))
next
  case (reclaimed tok q rid old)
  then show ?thesis using assms(1) live_map(2) [of "taken (rq_now q) tok rid old" "wd_table w"]
    by (simp add: one_governing_def)
next
  case (finished tok q rid st o')
  then show ?thesis using assms(1) live_map(2) [of "ended rid tok st o'" "wd_table w"]
    by (simp add: one_governing_def)
qed (use assms(1) in \<open>simp_all add: one_governing_def set_point_def\<close>)

section \<open>Replays\<close>

text \<open>A request of the scope and digest of \<open>q\<close> committed the outcome as terminal.\<close>

definition recorded :: "world \<Rightarrow> request \<Rightarrow> replay \<Rightarrow> bool" where
  "recorded w q out \<longleftrightarrow>
     (\<exists>c\<in>set (wd_log w). cm_state c \<in> {COMPLETED, FAILED_TERMINAL} \<and> cm_outcome c = out \<and>
        (\<exists>r\<in>set (wd_table w). ir_id r = cm_id c \<and> ir_scope r = rq_scope q \<and> ir_digest r = rq_digest q))"

definition faithful :: "world \<Rightarrow> bool" where
  "faithful w \<longleftrightarrow>
     (\<forall>r\<in>set (wd_table w). ir_state r \<in> {COMPLETED, FAILED_TERMINAL} \<longrightarrow>
        (\<exists>c\<in>set (wd_log w). cm_id c = ir_id r \<and> cm_state c = ir_state r \<and> cm_outcome c = ir_outcome r)) \<and>
     (\<forall>tok q out. req w tok = Some q \<and>
        (rq_point q = Decided (D_Answer (Replayed out)) \<or> rq_point q = Done (Answered (Replayed out))) \<longrightarrow>
        recorded w q out)"

lemma recorded_mono:
  assumes "recorded w q out" "rq_scope q' = rq_scope q" "rq_digest q' = rq_digest q" "set (wd_log w) \<subseteq> set (wd_log w')"
    and "\<And>r. r \<in> set (wd_table w) \<Longrightarrow> \<exists>r'\<in>set (wd_table w'). ir_id r' = ir_id r \<and> ir_scope r' = ir_scope r \<and> ir_digest r' = ir_digest r"
  shows "recorded w' q' out"
proof -
  obtain c r where c: "c \<in> set (wd_log w)" "cm_state c \<in> {COMPLETED, FAILED_TERMINAL}" "cm_outcome c = out"
    "r \<in> set (wd_table w)" "ir_id r = cm_id c" "ir_scope r = rq_scope q" "ir_digest r = rq_digest q"
    using assms(1) by (auto simp: recorded_def)
  obtain r' where "r' \<in> set (wd_table w')" "ir_id r' = ir_id r" "ir_scope r' = ir_scope r" "ir_digest r' = ir_digest r"
    using assms(5) [OF c(4)] by blast
  with c assms(2-4) show ?thesis unfolding recorded_def by (metis subsetD)
qed

lemma faithful_move:
  assumes f: "faithful w" and q: "req w tok = Some q" and log: "set (wd_log w) \<subseteq> set l"
    and keep: "\<And>r. r \<in> set (wd_table w) \<Longrightarrow> \<exists>r'\<in>set t. ir_id r' = ir_id r \<and> ir_scope r' = ir_scope r \<and> ir_digest r' = ir_digest r"
    and rows: "\<And>r'. r' \<in> set t \<Longrightarrow> ir_state r' \<in> {COMPLETED, FAILED_TERMINAL} \<Longrightarrow>
        (\<exists>r\<in>set (wd_table w). ir_id r = ir_id r' \<and> ir_state r = ir_state r' \<and> ir_outcome r = ir_outcome r') \<or>
        (\<exists>c\<in>set l. cm_id c = ir_id r' \<and> cm_state c = ir_state r' \<and> cm_outcome c = ir_outcome r')"
    and pt: "\<And>out. pt = Decided (D_Answer (Replayed out)) \<or> pt = Done (Answered (Replayed out)) \<Longrightarrow> recorded w q out"
  shows "faithful (set_point tok q pt (w\<lparr>wd_table := t, wd_log := l\<rparr>))"
proof -
  let ?w = "set_point tok q pt (w\<lparr>wd_table := t, wd_log := l\<rparr>)"
  have mono: "recorded ?w q2 out" if "recorded w q1 out" "rq_scope q2 = rq_scope q1" "rq_digest q2 = rq_digest q1" for q1 q2 out
    by (rule recorded_mono [OF that]) (use log keep in auto)
  have "recorded ?w q' out" if "req ?w tok' = Some q'"
      "rq_point q' = Decided (D_Answer (Replayed out)) \<or> rq_point q' = Done (Answered (Replayed out))" for tok' q' out
  proof (cases "tok' = tok")
    case True
    then show ?thesis using that mono [OF pt] by auto
  next
    case False
    then have "recorded w q' out" using that f by (auto simp: faithful_def)
    then show ?thesis by (rule mono) simp_all
  qed
  moreover have "\<exists>c\<in>set l. cm_id c = ir_id r' \<and> cm_state c = ir_state r' \<and> cm_outcome c = ir_outcome r'"
    if "r' \<in> set t" "ir_state r' \<in> {COMPLETED, FAILED_TERMINAL}" for r'
    using rows [OF that] f log that(2) unfolding faithful_def by (metis subsetD)
  ultimately show ?thesis unfolding faithful_def by (auto simp del: req_set_point)
qed

lemmas faithful_table = faithful_move [where l = "wd_log w" and w = w for w, unfolded same_log]
lemmas faithful_point = faithful_table [where t = "wd_table w" and w = w for w, unfolded same_table]

lemma faithful_moves:
  assumes "faithful w" "moves p supers w w'"
  shows "faithful w'"
  using assms(2)
proof cases
  case (tick n)
  from assms(1) show ?thesis unfolding tick by (auto simp: faithful_def recorded_def)
next
  case (start tok s d)
  with assms(1) show ?thesis by (auto simp: faithful_def recorded_def map_of_update)
next
  case (inserted tok q rid)
  show ?thesis unfolding inserted(1) by (rule faithful_table [OF assms(1) inserted(2)]) auto
next
  case (conflicted tok q)
  show ?thesis unfolding conflicted(1) by (rule faithful_point [OF assms(1) conflicted(2)]) auto
next
  case (decided tok q d)
  have "recorded w q out" if "d = D_Answer (Replayed out)" for out
  proof -
    from that decided(4) obtain r where r: "select_row supers (rq_scope q) (wd_table w) = Some r" "ir_digest r = rq_digest q"
        "ir_state r \<in> {COMPLETED, FAILED_TERMINAL}" "ir_outcome r = out"
      by (auto simp: decide_def split: option.splits if_splits)
    from selected [OF r(1)] r assms(1) show ?thesis by (fastforce simp: faithful_def recorded_def)
  qed
  then show ?thesis unfolding decided(1) by (intro faithful_point [OF assms(1) decided(2)]) auto
next
  case (answered tok q d a)
  have "recorded w q out" if "a = Replayed out" for out
    using that answered assms(1) by (auto simp: faithful_def)
  then show ?thesis unfolding answered(1) by (intro faithful_point [OF assms(1) answered(2)]) auto
next
  case (granted tok q r)
  show ?thesis unfolding granted(1) by (rule faithful_point [OF assms(1) granted(2)]) auto
next
  case (superseded tok q old rid t)
  show ?thesis unfolding superseded(1)
    by (rule faithful_table [OF assms(1) superseded(2)]) (force simp: superseded(5))+
next
  case (reclaimed tok q rid old)
  have same: "taken (rq_now q) tok rid old r = r" if "ir_state (taken (rq_now q) tok rid old r) \<in> {COMPLETED, FAILED_TERMINAL}" for r
    by (rule taken_cases [of "rq_now q" tok rid old r]) (use that in auto)
  show ?thesis unfolding reclaimed(1)
    by (rule faithful_table [OF assms(1) reclaimed(2)]) (use same in \<open>force+\<close>)
next
  case (stale tok q rid)
  show ?thesis unfolding stale(1) by (rule faithful_point [OF assms(1) stale(2)]) auto
next
  case (finished tok q rid st o')
  show ?thesis unfolding finished(1)
  proof (rule faithful_move [OF assms(1) finished(2)])
    let ?c = "\<lparr>cm_id = rid, cm_token = tok, cm_state = st, cm_outcome = o'\<rparr>"
    fix r' assume "r' \<in> set (map (ended rid tok st o') (wd_table w))"
    then obtain r where r: "r \<in> set (wd_table w)" "r' = ended rid tok st o' r" by auto
    show "(\<exists>r\<in>set (wd_table w). ir_id r = ir_id r' \<and> ir_state r = ir_state r' \<and> ir_outcome r = ir_outcome r') \<or>
        (\<exists>c\<in>set (?c # wd_log w). cm_id c = ir_id r' \<and> cm_state c = ir_state r' \<and> cm_outcome c = ir_outcome r')"
      by (rule ended_cases [of rid tok st o' r]) (use r in auto)
  qed auto
qed

section \<open>At most one effect\<close>

definition safe_world :: "world \<Rightarrow> bool" where
  "safe_world w \<longleftrightarrow> distinct (committed_effects w) \<and>
     (\<forall>rid\<in>set (committed_effects w). \<exists>r\<in>set (wd_table w). ir_id r = rid \<and> ir_state r = COMPLETED) \<and>
     (\<forall>tok q rid old. req w tok = Some q \<and> rq_point q = Decided (D_Reclaim rid old) \<longrightarrow>
        (\<forall>r\<in>set (wd_table w). ir_id r = rid \<and> ir_token r = old \<longrightarrow>
           ir_state r \<noteq> COMPLETED \<and> (ir_state r = IN_PROGRESS \<longrightarrow> \<not> lease_live (rq_now q) r)))"

lemma safe_move:
  assumes s: "safe_world w" and q: "req w tok = Some q"
    and log: "distinct (map cm_id (filter (\<lambda>c. cm_state c = COMPLETED) l))"
    and eff: "\<And>c. c \<in> set l \<Longrightarrow> cm_state c = COMPLETED \<Longrightarrow> \<exists>r\<in>set t. ir_id r = cm_id c \<and> ir_state r = COMPLETED"
    and pt: "\<And>rid old. pt \<noteq> Decided (D_Reclaim rid old)"
    and rows: "\<And>r' tok' q' rid old. r' \<in> set t \<Longrightarrow> req w tok' = Some q' \<Longrightarrow> tok' \<noteq> tok \<Longrightarrow>
        rq_point q' = Decided (D_Reclaim rid old) \<Longrightarrow> ir_id r' = rid \<Longrightarrow> ir_token r' = old \<Longrightarrow>
        (\<exists>r\<in>set (wd_table w). ir_id r = rid \<and> ir_token r = old \<and> ir_state r' = ir_state r \<and> ir_lease r' = ir_lease r) \<or>
        ir_state r' \<in> {RELEASED, FAILED_TERMINAL}"
  shows "safe_world (set_point tok q pt (w\<lparr>wd_table := t, wd_log := l\<rparr>))"
proof -
  have "ir_state r' \<noteq> COMPLETED \<and> (ir_state r' = IN_PROGRESS \<longrightarrow> \<not> lease_live (rq_now q') r')"
    if h: "req w tok' = Some q'" "tok' \<noteq> tok" "rq_point q' = Decided (D_Reclaim rid old)" "r' \<in> set t" "ir_id r' = rid"
      "ir_token r' = old" for tok' q' rid old r'
    using rows [OF h(4,1,2,3,5,6)]
  proof
    assume "\<exists>r\<in>set (wd_table w). ir_id r = rid \<and> ir_token r = old \<and> ir_state r' = ir_state r \<and> ir_lease r' = ir_lease r"
    then obtain r where r: "r \<in> set (wd_table w)" "ir_id r = rid" "ir_token r = old" "ir_state r' = ir_state r"
      "ir_lease r' = ir_lease r" by blast
    then have "ir_state r \<noteq> COMPLETED \<and> (ir_state r = IN_PROGRESS \<longrightarrow> \<not> lease_live (rq_now q') r)"
      using s h(1,3) unfolding safe_world_def by blast
    then show ?thesis using r(4,5) by (simp add: lease_live_def)
  qed auto
  then have "\<forall>tok' q' rid old. req (set_point tok q pt (w\<lparr>wd_table := t, wd_log := l\<rparr>)) tok' = Some q' \<and>
      rq_point q' = Decided (D_Reclaim rid old) \<longrightarrow> (\<forall>r\<in>set t. ir_id r = rid \<and> ir_token r = old \<longrightarrow>
        ir_state r \<noteq> COMPLETED \<and> (ir_state r = IN_PROGRESS \<longrightarrow> \<not> lease_live (rq_now q') r))"
    using pt by auto
  with log eff show ?thesis by (auto simp: safe_world_def committed_effects_def simp del: req_set_point)
qed

lemmas safe_table = safe_move [where l = "wd_log w" and w = w for w, unfolded same_log]
lemmas safe_point = safe_table [where t = "wd_table w" and w = w for w, unfolded same_table]

lemma safe_log:
  assumes "safe_world w"
  shows "distinct (map cm_id (filter (\<lambda>c. cm_state c = COMPLETED) (wd_log w)))"
    "c \<in> set (wd_log w) \<Longrightarrow> cm_state c = COMPLETED \<Longrightarrow> \<exists>r\<in>set (wd_table w). ir_id r = cm_id c \<and> ir_state r = COMPLETED"
  using assms by (auto simp: safe_world_def committed_effects_def)

lemma other_knows:
  assumes "wf_world w" "req w tok' = Some q'" "rq_point q' = Decided (D_Reclaim rid old)"
  shows "rid \<in> row_ids w" "owner w old" "rq_now q' \<le> wd_now w"
proof -
  have "knows w tok' q'" using assms(1,2) by (simp add: wf_world_def)
  then show "rid \<in> row_ids w" "owner w old" "rq_now q' \<le> wd_now w" using assms(3) by (auto simp: knows_def)
qed

lemma safe_finish:
  assumes w: "wf_world w" "safe_world w" and m: "req w tok = Some q" "rq_point q = Holding rid"
    and st: "st \<noteq> IN_PROGRESS" "st = COMPLETED \<Longrightarrow> wd_now w < rq_now q + CLAIM_LEASE"
    and row: "r0 \<in> set (wd_table w)" "ir_id r0 = rid" "ir_token r0 = tok" "ir_state r0 = IN_PROGRESS" "\<not> ir_superseded r0"
  shows "safe_world (set_point tok q (Done (Finished st)) (w\<lparr>wd_table := map (ended rid tok st o') (wd_table w),
      wd_log := \<lparr>cm_id = rid, cm_token = tok, cm_state = st, cm_outcome = o'\<rparr> # wd_log w\<rparr>))"
proof (rule safe_move [OF w(2) m(1)])
  have lease: "ir_lease r0 = Some (rq_now q + CLAIM_LEASE)"
  proof -
    have "knows w tok q" using w(1) m(1) by (simp add: wf_world_def)
    then show ?thesis using m(2) row by (simp add: knows_def)
  qed
  have unique: "r = r0" if "r \<in> set (wd_table w)" "ir_id r = rid" for r
    using w(1) that row(1,2) by (metis distinct_map inj_onD wf_world_def)
  have "rid \<notin> set (committed_effects w)"
    using w(2) unique row(4) unfolding safe_world_def by fastforce
  then show "distinct (map cm_id (filter (\<lambda>c. cm_state c = COMPLETED)
      (\<lparr>cm_id = rid, cm_token = tok, cm_state = st, cm_outcome = o'\<rparr> # wd_log w)))"
    using safe_log(1) [OF w(2)] by (simp add: committed_effects_def)
  show "\<exists>r\<in>set (map (ended rid tok st o') (wd_table w)). ir_id r = cm_id c \<and> ir_state r = COMPLETED"
    if "c \<in> set (\<lparr>cm_id = rid, cm_token = tok, cm_state = st, cm_outcome = o'\<rparr> # wd_log w)" "cm_state c = COMPLETED" for c
  proof (cases "c \<in> set (wd_log w)")
    case True
    from safe_log(2) [OF w(2) this that(2)] obtain r where "r \<in> set (wd_table w)" "ir_id r = cm_id c" "ir_state r = COMPLETED" by blast
    moreover have "ended rid tok st o' r = r" using calculation by (simp add: ended_def)
    ultimately show ?thesis by (intro bexI [of _ r]) (auto simp: image_iff intro!: bexI [of _ r])
  next
    case False
    then show ?thesis using that row by (intro bexI [of _ "ended rid tok st o' r0"]) (auto simp: ended_def)
  qed
  fix r' tok' q' rid' old
  assume h: "r' \<in> set (map (ended rid tok st o') (wd_table w))" "req w tok' = Some q'" "tok' \<noteq> tok"
    "rq_point q' = Decided (D_Reclaim rid' old)" "ir_id r' = rid'" "ir_token r' = old"
  obtain r where r: "r \<in> set (wd_table w)" "r' = ended rid tok st o' r" using h(1) by auto
  show "(\<exists>r\<in>set (wd_table w). ir_id r = rid' \<and> ir_token r = old \<and> ir_state r' = ir_state r \<and> ir_lease r' = ir_lease r) \<or>
      ir_state r' \<in> {RELEASED, FAILED_TERMINAL}"
  proof (cases rule: ended_cases [of rid tok st o' r])
    case 1
    then show ?thesis using r h(5,6) by (intro disjI1 bexI [of _ r]) auto
  next
    case 2
    have "st \<noteq> COMPLETED"
    proof
      assume "st = COMPLETED"
      then have "lease_live (rq_now q') r0"
        using st(2) other_knows(3) [OF w(1) h(2,4)] lease by (simp add: lease_live_def)
      moreover have "\<not> lease_live (rq_now q') r0"
        using w(2) h(2,4,5,6) r 2 unique [OF r(1)] row unfolding safe_world_def by auto
      ultimately show False by blast
    qed
    then show ?thesis using 2 r(2) st(1) by (cases st) auto
  qed
qed simp

lemma safe_moves:
  assumes w: "wf_world w" "safe_world w" and m: "moves True supers w w'"
  shows "safe_world w'"
  using m
proof cases
  case (tick n)
  from w(2) show ?thesis unfolding tick by (auto simp: safe_world_def committed_effects_def)
next
  case (start tok s d)
  with w(2) show ?thesis by (auto simp: safe_world_def committed_effects_def map_of_update)
next
  case (inserted tok q rid)
  show ?thesis unfolding inserted(1)
    by (rule safe_table [OF w(2) inserted(2)])
      (use safe_log [OF w(2)] other_knows(1) [OF w(1)] inserted(4) in auto)
next
  case (conflicted tok q)
  show ?thesis unfolding conflicted(1)
    by (rule safe_point [OF w(2) conflicted(2)]) (use safe_log [OF w(2)] in auto)
next
  case (decided tok q d)
  have "ir_state r \<noteq> COMPLETED \<and> (ir_state r = IN_PROGRESS \<longrightarrow> \<not> lease_live (rq_now q) r)"
    if h: "d = D_Reclaim rid old" "r \<in> set (wd_table w)" "ir_id r = rid" for rid old r
  proof -
    from h(1) decided(4) obtain r0 where r0: "select_row supers (rq_scope q) (wd_table w) = Some r0" "ir_id r0 = rid"
        "ir_state r0 \<notin> {COMPLETED, FAILED_TERMINAL}" "\<not> (ir_state r0 = IN_PROGRESS \<and> lease_live (rq_now q) r0)"
      by (auto simp: decide_def split: option.splits if_splits)
    have "r = r0" using w(1) selected [OF r0(1)] r0(2) h by (metis distinct_map inj_onD wf_world_def)
    with r0 show ?thesis by auto
  qed
  then show ?thesis using w(2) decided(1,2)
    by (auto simp: safe_world_def committed_effects_def)
next
  case (answered tok q d a)
  show ?thesis unfolding answered(1)
    by (rule safe_point [OF w(2) answered(2)]) (use safe_log [OF w(2)] in auto)
next
  case (granted tok q r)
  show ?thesis unfolding granted(1)
    by (rule safe_point [OF w(2) granted(2)]) (use safe_log [OF w(2)] in auto)
next
  case (superseded tok q old rid t)
  show ?thesis unfolding superseded(1)
    by (rule safe_table [OF w(2) superseded(2)])
      (use safe_log [OF w(2)] other_knows(1) [OF w(1)] superseded(4) in
        \<open>force simp: superseded(5)\<close>)+
next
  case (reclaimed tok q rid old)
  have mine: "ir_state r \<noteq> COMPLETED" if "r \<in> set (wd_table w)" "ir_id r = rid" "ir_token r = old" for r
    using w(2) reclaimed(2,3) that unfolding safe_world_def by blast
  have new: "\<not> owner w tok" using reclaimed(2,3) not_owner by blast
  show ?thesis unfolding reclaimed(1)
  proof (rule safe_table [OF w(2) reclaimed(2) safe_log(1) [OF w(2)]])
    fix c assume "c \<in> set (wd_log w)" "cm_state c = COMPLETED"
    from safe_log(2) [OF w(2) this] obtain r where r: "r \<in> set (wd_table w)" "ir_id r = cm_id c" "ir_state r = COMPLETED"
      by blast
    moreover have "taken (rq_now q) tok rid old r = r" using mine [of r] r by (auto simp: taken_def)
    ultimately show "\<exists>r\<in>set (map (taken (rq_now q) tok rid old) (wd_table w)). ir_id r = cm_id c \<and> ir_state r = COMPLETED"
      by (intro bexI [of _ r]) (auto simp: image_iff intro!: bexI [of _ r])
  next
    fix r' tok' q' rid' old'
    assume h: "r' \<in> set (map (taken (rq_now q) tok rid old) (wd_table w))" "req w tok' = Some q'" "tok' \<noteq> tok"
      "rq_point q' = Decided (D_Reclaim rid' old')" "ir_id r' = rid'" "ir_token r' = old'"
    obtain r where r: "r \<in> set (wd_table w)" "r' = taken (rq_now q) tok rid old r" using h(1) by auto
    show "(\<exists>r\<in>set (wd_table w). ir_id r = rid' \<and> ir_token r = old' \<and> ir_state r' = ir_state r \<and> ir_lease r' = ir_lease r) \<or>
        ir_state r' \<in> {RELEASED, FAILED_TERMINAL}"
    proof (cases rule: taken_cases [of "rq_now q" tok rid old r])
      case 1
      then show ?thesis using r h(5,6) by (intro disjI1 bexI [of _ r]) auto
    next
      case 2
      then show ?thesis using other_knows(2) [OF w(1) h(2,4)] new h(6) r(2) by simp
    qed
  qed simp
next
  case (stale tok q rid)
  show ?thesis unfolding stale(1)
    by (rule safe_point [OF w(2) stale(2)]) (use safe_log [OF w(2)] in auto)
next
  case (finished tok q rid st o')
  then obtain r0 where r0: "r0 \<in> set (wd_table w)" "ir_id r0 = rid" "ir_token r0 = tok" "ir_state r0 = IN_PROGRESS" "\<not> ir_superseded r0"
    by (auto simp: list_ex_iff)
  show ?thesis unfolding finished(1)
    by (rule safe_finish [OF w finished(2,3,4) _ r0]) (use finished(6) in simp)
qed

section \<open>Runs from an empty table\<close>

lemma empty_invariants: "wf_world empty_world" "one_governing empty_world" "faithful empty_world" "safe_world empty_world"
  by (simp_all add: empty_world_def wf_world_def one_governing_def faithful_def safe_world_def committed_effects_def)

lemma run_governing: "one_governing (idem_run supers es empty_world)"
  by (rule run_invariant) (auto intro: one_governing_moves empty_invariants)

lemma run_faithful: "faithful (idem_run supers es empty_world)"
  by (rule run_invariant) (auto intro: faithful_moves empty_invariants)

lemma prompt_safe:
  assumes "prompt_run supers es empty_world"
  shows "distinct (committed_effects (idem_run supers es empty_world))"
proof -
  have "wf_world (idem_run supers es empty_world) \<and> safe_world (idem_run supers es empty_world)"
    by (rule prompt_invariant [OF _ _ assms]) (auto intro: wf_moves safe_moves empty_invariants)
  then show ?thesis by (simp add: safe_world_def)
qed

section \<open>Claims without interference\<close>

text \<open>The three events of a claim in a row are \<open>claim\<close>.\<close>

definition after_claim :: "claim_result \<Rightarrow> point" where
  "after_claim a = (case a of Claimed r \<Rightarrow> Holding r | _ \<Rightarrow> Done (Answered a))"

lemma claim_uninterrupted:
  assumes q: "req w tok = Some q" "rq_point q = Started" and fresh: "rid \<notin> row_ids w" "rid' \<notin> row_ids w"
    and c: "claim supers (rq_now q) (rq_scope q) (rq_digest q) tok rid rid' (wd_table w) = (a, t)"
  shows "wd_table (idem_run supers [Insert tok rid, Select tok, Settle tok rid'] w) = t \<and>
    map_option rq_point (req (idem_run supers [Insert tok rid, Select tok, Settle tok rid'] w) tok) = Some (after_claim a)"
proof (cases "insert_row (rq_now q) rid (rq_scope q) (rq_digest q) tok (wd_table w)")
  case (Some t')
  then show ?thesis using q fresh c by (auto simp: idem_run_def claim_def after_claim_def)
next
  case None
  from c None have "settle (rq_now q) (rq_scope q) (rq_digest q) tok rid'
      (decide supers (rq_now q) (rq_digest q) (select_row supers (rq_scope q) (wd_table w))) (wd_table w) = (a, t)"
    by (simp add: claim_def)
  then show ?thesis using q fresh None
    by (cases a) (auto simp: idem_run_def after_claim_def settle_def split: claim_decision.splits option.splits)
qed

text \<open>What a claim does, by the record that governs its scope.\<close>

definition claim_spec ::
    "int \<Rightarrow> claim_scope \<Rightarrow> string \<Rightarrow> string \<Rightarrow> string \<Rightarrow> string \<Rightarrow> idem_table \<Rightarrow> claim_result \<times> idem_table" where
  "claim_spec now scope digest ctoken rid rid' t =
     (case List.find (governs scope) t of
        None \<Rightarrow> (Claimed rid, t @ [fresh_row now rid scope digest ctoken])
      | Some r \<Rightarrow>
          if ir_active_until r \<le> now
          then (Claimed rid', map (marked now (ir_id r)) t @ [fresh_row now rid' scope digest ctoken])
          else if ir_digest r \<noteq> digest then (KeyReused, t)
          else if ir_state r \<in> {COMPLETED, FAILED_TERMINAL} then (Replayed (ir_outcome r), t)
          else if ir_state r = IN_PROGRESS \<and> lease_live now r then (InProgress, t)
          else (Claimed (ir_id r), map (taken now ctoken (ir_id r) (ir_token r)) t))"

lemma find_governs: "List.find (governs scope) t = None \<longleftrightarrow> \<not> list_ex (governs scope) t"
  by (induction t) auto

lemma select_governs: "select_row True scope t = List.find (governs scope) t"
  by (simp add: select_row_def governs_def [abs_def])

lemma unique_governing:
  assumes "distinct (map ir_scope (filter (\<lambda>r. \<not> ir_superseded r) t))" "r \<in> set t" "r' \<in> set t"
    "governs scope r" "governs scope r'"
  shows "r = r'"
  using assms by (auto simp: governs_def distinct_map dest!: inj_onD)

lemma claim_meets_spec:
  assumes one: "distinct (map ir_scope (filter (\<lambda>r. \<not> ir_superseded r) t))"
  shows "claim True now scope digest ctoken rid rid' t = claim_spec now scope digest ctoken rid rid' t"
proof (cases "List.find (governs scope) t")
  case None
  then have "\<not> list_ex (governs scope) t" by (simp add: find_governs)
  with None show ?thesis by (simp add: claim_def claim_spec_def insert_row_def)
next
  case (Some r)
  have r: "r \<in> set t" "governs scope r" using Some by (auto simp: find_Some_iff)
  have conflict: "insert_row now rid scope digest ctoken t = None"
    using r by (auto simp: insert_row_def list_ex_iff)
  have sel: "select_row True scope t = Some r" using Some by (simp add: select_governs)
  show ?thesis
  proof (cases "ir_active_until r \<le> now")
    case True
    have "supersede_row now (ir_id r) t = Some (map (marked now (ir_id r)) t)"
      using r True by (auto simp: supersede_row_eq list_ex_iff governs_def)
    moreover have "\<not> list_ex (governs scope) (map (marked now (ir_id r)) t)"
    proof
      assume "list_ex (governs scope) (map (marked now (ir_id r)) t)"
      then obtain r' where r': "r' \<in> set t" "governs scope (marked now (ir_id r) r')" by (auto simp: list_ex_iff)
      then have "governs scope r'" using marked_live by (auto simp: governs_def)
      then have "r' = r" using unique_governing [OF one r'(1) r(1)] r(2) by blast
      then show False using r' True r(2) by (simp add: governs_def marked_def)
    qed
    ultimately show ?thesis using conflict sel Some True
      by (simp add: claim_def claim_spec_def decide_def settle_def insert_row_def)
  next
    case False
    have "reclaim_row now ctoken (ir_id r) (ir_token r) t = Some (map (taken now ctoken (ir_id r) (ir_token r)) t)"
      using r by (auto simp: reclaim_row_eq list_ex_iff governs_def)
    then show ?thesis using conflict sel Some False
      by (simp add: claim_def claim_spec_def decide_def settle_def)
  qed
qed

section \<open>Fingerprints\<close>

lemma semantic_digest_input:
  assumes "semantic_digest sha op tgt body = Inr h"
  shows "h = sha (canonical_text (JObj [(''operation_id'', JStr op), (''target_resource_scope'', JStr tgt),
    (''body'', body), (''headers'', JObj [])]))"
  using assms by (auto simp: semantic_digest_def canonical_digest_ok canonical_json_ok)

text \<open>Equal digests, equal requests, when SHA-256 does not collide on the two texts.\<close>

lemma semantic_digest_same:
  assumes d: "semantic_digest sha op tgt body = Inr h" "semantic_digest sha op' tgt' body' = Inr h"
    and inj: "inj_on sha {canonical_text (JObj [(''operation_id'', JStr op), (''target_resource_scope'', JStr tgt),
        (''body'', body), (''headers'', JObj [])]),
      canonical_text (JObj [(''operation_id'', JStr op'), (''target_resource_scope'', JStr tgt'),
        (''body'', body'), (''headers'', JObj [])])}"
  shows "op = op' \<and> tgt = tgt' \<and> sort_keys body = sort_keys body'"
proof -
  let ?t = "\<lambda>op tgt body. JObj [(''operation_id'', JStr op), (''target_resource_scope'', JStr tgt),
      (''body'', body), (''headers'', JObj [])]"
  obtain u u' where u: "canonical_json (?t op tgt body) = Inr u" "canonical_json (?t op' tgt' body') = Inr u'"
    using d by (auto simp: semantic_digest_def canonical_digest_ok)
  have "sha (canonical_text (?t op tgt body)) = sha (canonical_text (?t op' tgt' body'))"
    by (rule trans [OF semantic_digest_input [OF d(1), symmetric] semantic_digest_input [OF d(2)]])
  then have "canonical_text (?t op tgt body) = canonical_text (?t op' tgt' body')"
    by (rule inj_onD [OF inj]) simp_all
  then have "u = u'" using u by (simp add: canonical_json_ok)
  then have "sort_keys (?t op tgt body) = sort_keys (?t op' tgt' body')" using canonical_json_same u by blast
  then show ?thesis by simp
qed

text \<open>The hash of the witnesses is the identity: it does not collide.\<close>

lemma sample_fingerprint:
  "\<exists>h. semantic_digest id ''createCase'' ''/cases'' (JObj [(''a'', JInt 1), (''b'', JNull)]) = Inr h \<and>
     semantic_digest id ''createCase'' ''/cases'' (JObj [(''b'', JNull), (''a'', JInt 1)]) = Inr h"
proof -
  let ?t = "\<lambda>body. JObj [(''operation_id'', JStr ''createCase''), (''target_resource_scope'', JStr ''/cases''),
      (''body'', body), (''headers'', JObj [])]"
  let ?a = "JObj [(''a'', JInt 1), (''b'', JNull)]" and ?b = "JObj [(''b'', JNull), (''a'', JInt 1)]"
  have "canonical_json (?t ?a) = Inr (canonical_text (?t ?a))" "canonical_json (?t ?b) = Inr (canonical_text (?t ?b))"
    by (rule short_canonical; simp add: MAX_CANONICAL_BYTES_def COPY_BUDGET_def MAX_STR_DIGITS_def nat_text.simps)+
  moreover have "canonical_text (?t ?a) = canonical_text (?t ?b)"
    by (simp add: canonical_text_def)
  ultimately show ?thesis by (simp add: semantic_digest_def canonical_digest_def)
qed

section \<open>Sample runs\<close>

definition sample_scope :: claim_scope where
  "sample_scope = \<lparr>cs_principal = ''alice'', cs_operation = ''createCase'', cs_target = ''/cases'', cs_key = ''k1''\<rparr>"

definition created :: "string \<Rightarrow> replay" where
  "created case_id = \<lparr>rp_status = Some 201, rp_error = None, rp_kind = Some ''case_record'', rp_resource = Some case_id\<rparr>"

text \<open>A request executes in time; a retry with the same key and body is answered from the record.\<close>

definition retry_run :: "idem_event list" where
  "retry_run =
     [Start ''t1'' sample_scope ''d1'', Insert ''t1'' ''r1'', Tick 3, Finish ''t1'' COMPLETED (created ''c1''),
      Tick 40, Start ''t2'' sample_scope ''d1'', Insert ''t2'' ''r2'', Select ''t2'', Settle ''t2'' ''r3'']"

text \<open>
  A slow executor: its lease ends, a retry reads the expired claim, the executor commits, and the retry's
  compare-and-swap on the claim token still succeeds and its effect commits as well.
\<close>

definition takeover_run :: "idem_event list" where
  "takeover_run =
     [Start ''t1'' sample_scope ''d1'', Insert ''t1'' ''r1'', Tick 31,
      Start ''t2'' sample_scope ''d1'', Insert ''t2'' ''r2'', Select ''t2'',
      Finish ''t1'' COMPLETED (created ''c1''),
      Settle ''t2'' ''r3'', Tick 1, Finish ''t2'' COMPLETED (created ''c2'')]"

lemma retry_prompt: "prompt_run True retry_run empty_world"
  by code_simp

lemma retry_replayed:
  "map_option rq_point (req (idem_run True retry_run empty_world) ''t2'') = Some (Done (Answered (Replayed (created ''c1''))))"
  by code_simp

lemma takeover_effects:
  "committed_effects (idem_run True takeover_run empty_world) = [''r1'', ''r1''] \<and>
   map_option rq_point (req (idem_run True takeover_run empty_world) ''t1'') = Some (Done (Finished COMPLETED)) \<and>
   map_option rq_point (req (idem_run True takeover_run empty_world) ''t2'') = Some (Done (Finished COMPLETED))"
  by code_simp

end
