(* ===== verification/AuditChain.thy ===== *)
theory AuditChain
  imports Governance
begin

text \<open>
  apps/backend/trustlens_backend/audit.py: the hash chain of audit events. A chain is its locked head and its
  rows in order. SHA-256 and the constraints of the table (migration 0002) are arguments, and so are the
  drawn UUID and the formatted instants.
\<close>

section \<open>Value forms\<close>

definition category :: "string \<Rightarrow> bool" where
  "category = name_pattern capital (\<lambda>c. capital c \<or> numeral_char c \<or> c = CHR ''_'') 0 63"

definition reference_text :: "string \<Rightarrow> bool" where
  "reference_text = name_pattern (\<lambda>c. capital c \<or> numeral_char c)
     (\<lambda>c. capital c \<or> numeral_char c \<or> c \<in> set '':_-'') 0 79"

definition deployment_text :: "string \<Rightarrow> bool" where
  "deployment_text = name_pattern (\<lambda>c. lower_char c \<or> numeral_char c)
     (\<lambda>c. lower_char c \<or> numeral_char c \<or> c = CHR ''-'') 0 62"

definition sha256_text :: "string \<Rightarrow> bool" where
  "sha256_text s \<longleftrightarrow> length (takeWhile hex_char s) = 64 \<and> at_end (dropWhile hex_char s)"

text \<open>A UUID of version 4, in lower case.\<close>

definition uuid_classes :: "(char \<Rightarrow> bool) list" where
  "uuid_classes =
     replicate 8 hex_char @ [\<lambda>c. c = CHR ''-''] @ replicate 4 hex_char @ [\<lambda>c. c = CHR ''-'', \<lambda>c. c = CHR ''4''] @
     replicate 3 hex_char @ [\<lambda>c. c = CHR ''-'', \<lambda>c. c \<in> set ''89ab''] @ replicate 3 hex_char @
     [\<lambda>c. c = CHR ''-''] @ replicate 12 hex_char"

definition uuid_text :: "string \<Rightarrow> bool" where
  "uuid_text s \<longleftrightarrow> list_all2 (\<lambda>p c. p c) uuid_classes (take 36 s) \<and> at_end (drop 36 s)"

section \<open>The allowlist\<close>

datatype value_kind = K_Category | K_Uuid | K_Reference | K_Sha256 | K_Deployment

fun value_pattern :: "value_kind \<Rightarrow> string \<Rightarrow> bool" where
  "value_pattern K_Category = category"
| "value_pattern K_Uuid = uuid_text"
| "value_pattern K_Reference = reference_text"
| "value_pattern K_Sha256 = sha256_text"
| "value_pattern K_Deployment = deployment_text"

definition SAFE_METADATA :: "value_kind dict dict" where
  "SAFE_METADATA =
     [(''AUTHENTICATION_SUCCEEDED'', [(''method'', K_Category)]),
      (''AUTHENTICATION_FAILED'', [(''method'', K_Category), (''reason'', K_Category)]),
      (''AUTHORIZATION_DENIED'', [(''reason'', K_Category), (''operation'', K_Category)]),
      (''CASE_CREATED'', []),
      (''EVIDENCE_RECEIVED'', []),
      (''EVIDENCE_STORED'', [(''stage'', K_Category)]),
      (''INTEGRITY_FAILURE'', [(''stage'', K_Category)]),
      (''EVIDENCE_ACCESSED'', [(''stage'', K_Category)]),
      (''EVALUATION_STARTED'', [(''origin'', K_Category)]),
      (''EVALUATION_COMPLETED'', []),
      (''EVALUATION_FAILED'', [(''reason'', K_Category)]),
      (''RESULT_PERSISTED'', [(''result_digest'', K_Sha256)]),
      (''USER_CORRECTION'', [(''reason'', K_Category)]),
      (''REPLAY_EXECUTED'', [(''stage'', K_Category), (''outcome'', K_Category)]),
      (''PROVIDER_POLICY_SELECTED'', [(''provider_policy_digest'', K_Sha256)]),
      (''ENRICHMENT_REQUESTED'', [(''indicator_type'', K_Category), (''provider_policy_digest'', K_Sha256)]),
      (''ENRICHMENT_ACCEPTED'', [(''lookup_outcome'', K_Category), (''provider_policy_digest'', K_Sha256)]),
      (''EGRESS_DENIED'', [(''reason'', K_Category), (''provider_policy_digest'', K_Sha256)]),
      (''CREDENTIAL_REFERENCE_FAILURE'', [(''provider_policy_digest'', K_Sha256)]),
      (''ROLE_ASSIGNED'', [(''role'', K_Category), (''principal_id'', K_Uuid), (''reason_ref'', K_Reference)]),
      (''ROLE_REVOKED'', [(''role'', K_Category), (''principal_id'', K_Uuid), (''reason_ref'', K_Reference)]),
      (''KNOWLEDGE_ACTIVATED'',
        [(''content_digest'', K_Sha256), (''previous_content_digest'', K_Sha256), (''activation_id'', K_Uuid),
         (''deployment'', K_Deployment), (''governance_change_ref'', K_Reference), (''authenticity'', K_Category)]),
      (''KNOWLEDGE_ACTIVATION_REJECTED'',
        [(''content_digest'', K_Sha256), (''deployment'', K_Deployment), (''reason'', K_Category),
         (''governance_change_ref'', K_Reference)])]"

section \<open>Events\<close>

record audit_event =
  ev_type :: string
  ev_outcome :: string
  ev_actor_kind :: string
  ev_target_kind :: string
  ev_correlation_id :: string
  ev_actor :: "string option"
  ev_target_id :: "string option"
  ev_metadata :: "json dict option"
  ev_occurred_at :: "string option"
  ev_case :: "string option"
  ev_evidence :: "string option"
  ev_evaluation :: "string option"
  ev_bundle_digest :: "string option"

datatype audit_error =
    AuditValueError string
  | AuditUnavailable string
  | AuditProvenanceInvalid
  | DatabaseRefused

definition audit_guard :: "bool \<Rightarrow> string \<Rightarrow> audit_error + unit" where
  "audit_guard holds m = (if holds then Inr () else Inl (AuditValueError m))"

definition metadata_value_ok :: "value_kind dict \<Rightarrow> string \<Rightarrow> json \<Rightarrow> bool" where
  "metadata_value_ok allowed key v \<longleftrightarrow>
     (case (map_of allowed key, v) of
        (Some kind, JStr s) \<Rightarrow> value_pattern kind s
      | _ \<Rightarrow> False)"

definition metadata_items :: "audit_event \<Rightarrow> json dict" where
  "metadata_items e = (case ev_metadata e of None \<Rightarrow> [] | Some m \<Rightarrow> m)"

definition event_references :: "audit_event \<Rightarrow> string option list" where
  "event_references e = [ev_actor e, ev_target_id e, ev_case e, ev_evidence e, ev_evaluation e]"

definition validate_event :: "audit_event \<Rightarrow> audit_error + unit" where
  "validate_event e =
     (case map_of SAFE_METADATA (ev_type e) of
        None \<Rightarrow> Inl (AuditValueError ''event type not enabled'')
      | Some allowed \<Rightarrow>
          rbind (audit_guard (list_all (\<lambda>(k, v). metadata_value_ok allowed k v) (metadata_items e))
                   ''safe_metadata key or value is not permitted'')
          (\<lambda>_. rbind (audit_guard (list_all (\<lambda>ref. case ref of None \<Rightarrow> True | Some s \<Rightarrow> uuid_text s) (event_references e))
                   ''references must be lowercase UUIDv4 text'')
          (\<lambda>_. rbind (audit_guard (case ev_bundle_digest e of None \<Rightarrow> True | Some s \<Rightarrow> sha256_text s)
                   ''bundle_content_digest must be a SHA-256 hex digest'')
          (\<lambda>_. audit_guard (uuid_text (ev_correlation_id e)) ''correlation id must be a UUID''))))"

section \<open>Rows\<close>

definition CHAIN_ID :: string where
  "CHAIN_ID = ''deployment''"

definition EVENT_SCHEMA_VERSION :: string where
  "EVENT_SCHEMA_VERSION = ''1''"

definition GENESIS_HASH :: string where
  "GENESIS_HASH = replicate 64 (CHR ''0'')"

record audit_row =
  ar_id :: string
  ar_chain :: string
  ar_sequence :: int
  ar_schema_version :: string
  ar_type :: string
  ar_occurred_at :: string
  ar_recorded_at :: string
  ar_actor :: "string option"
  ar_actor_kind :: string
  ar_outcome :: string
  ar_target_kind :: string
  ar_target_id :: "string option"
  ar_case :: "string option"
  ar_evaluation :: "string option"
  ar_evidence :: "string option"
  ar_bundle_digest :: "string option"
  ar_correlation_id :: string
  ar_metadata :: "json dict option"
  ar_previous_hash :: string
  ar_hash :: string

definition jopt :: "string option \<Rightarrow> json" where
  "jopt s = (case s of None \<Rightarrow> JNull | Some t \<Rightarrow> JStr t)"

text \<open>The row without its hash, as the canonical text is taken of it.\<close>

definition row_body :: "audit_row \<Rightarrow> json" where
  "row_body r =
     JObj [(''audit_event_id'', JStr (ar_id r)), (''chain_id'', JStr (ar_chain r)),
       (''chain_sequence'', JInt (ar_sequence r)), (''event_schema_version'', JStr (ar_schema_version r)),
       (''event_type'', JStr (ar_type r)), (''occurred_at'', JStr (ar_occurred_at r)),
       (''recorded_at'', JStr (ar_recorded_at r)), (''actor_principal_id'', jopt (ar_actor r)),
       (''actor_kind'', JStr (ar_actor_kind r)), (''outcome'', JStr (ar_outcome r)),
       (''target_kind'', JStr (ar_target_kind r)), (''target_id'', jopt (ar_target_id r)),
       (''case_record_id'', jopt (ar_case r)), (''evaluation_id'', jopt (ar_evaluation r)),
       (''evidence_item_id'', jopt (ar_evidence r)), (''bundle_content_digest'', jopt (ar_bundle_digest r)),
       (''correlation_id'', JStr (ar_correlation_id r)),
       (''safe_metadata'', case ar_metadata r of None \<Rightarrow> JNull | Some m \<Rightarrow> JObj m),
       (''previous_event_hash'', JStr (ar_previous_hash r))]"

definition event_hash :: "(string \<Rightarrow> string) \<Rightarrow> audit_row \<Rightarrow> audit_error + string" where
  "event_hash sha r =
     (case canonical_json (row_body r) of
        Inl _ \<Rightarrow> Inl AuditProvenanceInvalid
      | Inr body \<Rightarrow> Inr (sha (body @ ar_previous_hash r)))"

section \<open>The chain\<close>

type_synonym chain_head = "int \<times> string"

record audit_chain =
  ac_head :: "chain_head option"
  ac_rows :: "audit_row list"

text \<open>\<open>append\<close> in the caller's transaction: an error leaves the chain as it was.\<close>

definition new_row :: "string \<Rightarrow> string \<Rightarrow> chain_head \<Rightarrow> audit_event \<Rightarrow> audit_row" where
  "new_row now rid head e =
     \<lparr>ar_id = rid, ar_chain = CHAIN_ID, ar_sequence = fst head + 1, ar_schema_version = EVENT_SCHEMA_VERSION,
      ar_type = ev_type e, ar_occurred_at = (case ev_occurred_at e of None \<Rightarrow> now | Some t \<Rightarrow> t), ar_recorded_at = now,
      ar_actor = ev_actor e, ar_actor_kind = ev_actor_kind e, ar_outcome = ev_outcome e,
      ar_target_kind = ev_target_kind e, ar_target_id = ev_target_id e, ar_case = ev_case e,
      ar_evaluation = ev_evaluation e, ar_evidence = ev_evidence e, ar_bundle_digest = ev_bundle_digest e,
      ar_correlation_id = ev_correlation_id e,
      ar_metadata = (if metadata_items e = [] then None else Some (metadata_items e)),
      ar_previous_hash = snd head, ar_hash = []\<rparr>"

definition append_event ::
    "(string \<Rightarrow> string) \<Rightarrow> (audit_row \<Rightarrow> bool) \<Rightarrow> string \<Rightarrow> string \<Rightarrow> audit_event \<Rightarrow> audit_chain
      \<Rightarrow> audit_error + (audit_row \<times> audit_chain)" where
  "append_event sha accepts now rid e c =
     rbind (validate_event e)
       (\<lambda>_. case ac_head c of
              None \<Rightarrow> Inl (AuditUnavailable ''audit chain head missing'')
            | Some head \<Rightarrow>
                rbind (event_hash sha (new_row now rid head e))
                  (\<lambda>h. let row = (new_row now rid head e)\<lparr>ar_hash := h\<rparr> in
                       if accepts row
                       then Inr (row, \<lparr>ac_head = Some (ar_sequence row, h), ac_rows = ac_rows c @ [row]\<rparr>)
                       else Inl DatabaseRefused))"

text \<open>\<open>PostgresAuditSink.record\<close>: database errors and \<open>ValueError\<close>s become \<open>AuditUnavailable\<close>.\<close>

definition record_event ::
    "(string \<Rightarrow> string) \<Rightarrow> (audit_row \<Rightarrow> bool) \<Rightarrow> string \<Rightarrow> string \<Rightarrow> audit_event \<Rightarrow> audit_chain
      \<Rightarrow> (audit_error + unit) \<times> audit_chain" where
  "record_event sha accepts now rid e c =
     (case append_event sha accepts now rid e c of
        Inr (_, c') \<Rightarrow> (Inr (), c')
      | Inl (AuditValueError _) \<Rightarrow> (Inl (AuditUnavailable ''audit append failed''), c)
      | Inl DatabaseRefused \<Rightarrow> (Inl (AuditUnavailable ''audit append failed''), c)
      | Inl err \<Rightarrow> (Inl err, c))"

text \<open>\<open>verify_rows\<close>: the loop carries the previous hash and the expected sequence.\<close>

fun verify_from :: "(string \<Rightarrow> string) \<Rightarrow> string \<Rightarrow> int \<Rightarrow> audit_row list \<Rightarrow> audit_error + string" where
  "verify_from sha previous expected [] = Inr previous"
| "verify_from sha previous expected (r # rs) =
     (if ar_sequence r \<noteq> expected \<or> ar_previous_hash r \<noteq> previous then Inl (AuditValueError ''audit chain broken'')
      else rbind (event_hash sha r)
             (\<lambda>h. if h \<noteq> ar_hash r then Inl (AuditValueError ''audit chain broken'')
                  else verify_from sha (ar_hash r) (expected + 1) rs))"

definition verify_rows :: "(string \<Rightarrow> string) \<Rightarrow> audit_row list \<Rightarrow> chain_head option \<Rightarrow> audit_error + nat" where
  "verify_rows sha rows head =
     rbind (verify_from sha GENESIS_HASH 1 rows)
       (\<lambda>previous. if head \<noteq> Some (int (length rows), previous)
                   then Inl (AuditValueError ''audit chain head does not match the last event'')
                   else Inr (length rows))"

text \<open>A chain as the migration creates it, and the appends of a run; a failed one changes nothing.\<close>

definition genesis_chain :: audit_chain where
  "genesis_chain = \<lparr>ac_head = Some (0, GENESIS_HASH), ac_rows = []\<rparr>"

definition audit_run ::
    "(string \<Rightarrow> string) \<Rightarrow> (audit_row \<Rightarrow> bool) \<Rightarrow> (string \<times> string \<times> audit_event) list \<Rightarrow> audit_chain" where
  "audit_run sha accepts es = fold (\<lambda>(now, rid, e) c. snd (record_event sha accepts now rid e c)) es genesis_chain"

end
