(* ===== verification/AuditChainProps.thy ===== *)
theory AuditChainProps
  imports AuditChain
begin

text \<open>
  The audit chain: every run of appends verifies, its metadata is on the allowlist, and two sequences of rows
  that verify against one head are the same events.
\<close>

section \<open>Verification of a chain\<close>

lemma verify_from_snoc:
  "verify_from sha p n (rs @ [r]) = Inr h \<longleftrightarrow>
     (\<exists>q. verify_from sha p n rs = Inr q \<and> ar_sequence r = n + int (length rs) \<and> ar_previous_hash r = q \<and>
        event_hash sha r = Inr (ar_hash r) \<and> h = ar_hash r)"
proof (induction rs arbitrary: p n)
  case Nil
  then show ?case by (auto simp: res_simps)
next
  case (Cons a rs)
  then show ?case by (auto simp: res_simps algebra_simps)
qed

lemma verify_from_snocE:
  assumes "verify_from sha p n (rs @ [r]) = Inr h"
  obtains q where "verify_from sha p n rs = Inr q" "ar_previous_hash r = q" "event_hash sha r = Inr h" "ar_hash r = h"
  using assms unfolding verify_from_snoc by blast

lemma verify_rows_ok:
  "verify_rows sha rows head = Inr n \<longleftrightarrow>
     (\<exists>h. verify_from sha GENESIS_HASH 1 rows = Inr h \<and> head = Some (int (length rows), h) \<and> n = length rows)"
  by (auto simp: verify_rows_def res_simps split: if_splits)

section \<open>Appends\<close>

lemma event_hash_cong [simp]: "event_hash sha (r\<lparr>ar_hash := h\<rparr>) = event_hash sha r"
  by (simp add: event_hash_def row_body_def split: sum.split)

lemma new_row_fields [simp]:
  "ar_sequence (new_row now rid head e) = fst head + 1" "ar_previous_hash (new_row now rid head e) = snd head"
  by (simp_all add: new_row_def)

lemma append_event_ok:
  assumes "append_event sha accepts now rid e c = Inr (row, c')"
  obtains head h where "validate_event e = Inr ()" "ac_head c = Some head"
    "event_hash sha (new_row now rid head e) = Inr h" "row = (new_row now rid head e)\<lparr>ar_hash := h\<rparr>"
    "c' = \<lparr>ac_head = Some (fst head + 1, h), ac_rows = ac_rows c @ [row]\<rparr>"
  using assms by (auto simp: append_event_def Let_def res_simps split: option.splits if_splits)

lemma append_keeps_verified:
  assumes "verify_rows sha (ac_rows c) (ac_head c) = Inr n" "append_event sha accepts now rid e c = Inr (row, c')"
  shows "verify_rows sha (ac_rows c') (ac_head c') = Inr (Suc n)"
  using assms(2)
proof (rule append_event_ok)
  fix head h
  assume a: "ac_head c = Some head" "event_hash sha (new_row now rid head e) = Inr h"
    "row = (new_row now rid head e)\<lparr>ar_hash := h\<rparr>"
    "c' = \<lparr>ac_head = Some (fst head + 1, h), ac_rows = ac_rows c @ [row]\<rparr>"
  from assms(1) obtain q where q: "verify_from sha GENESIS_HASH 1 (ac_rows c) = Inr q"
      "ac_head c = Some (int (length (ac_rows c)), q)" "n = length (ac_rows c)"
    by (auto simp: verify_rows_ok)
  have "verify_from sha GENESIS_HASH 1 (ac_rows c @ [row]) = Inr h"
    unfolding verify_from_snoc using q a by simp
  then show ?thesis using q a by (auto simp: verify_rows_ok)
qed

lemma record_event_cases:
  obtains "snd (record_event sha accepts now rid e c) = c" "\<exists>err. fst (record_event sha accepts now rid e c) = Inl err"
  | row c' where "append_event sha accepts now rid e c = Inr (row, c')" "record_event sha accepts now rid e c = (Inr (), c')"
  by (cases "append_event sha accepts now rid e c")
    (auto simp: record_event_def split: audit_error.splits)

lemma audit_run_induct:
  assumes "P genesis_chain"
    and "\<And>now rid e c row c'. P c \<Longrightarrow> append_event sha accepts now rid e c = Inr (row, c') \<Longrightarrow> P c'"
  shows "P (audit_run sha accepts es)"
proof -
  have "P (fold (\<lambda>(now, rid, e) c. snd (record_event sha accepts now rid e c)) es c)" if "P c" for c
    using that
  proof (induction es arbitrary: c)
    case (Cons x es)
    obtain now rid e where x: "x = (now, rid, e)" by (cases x)
    have "P (snd (record_event sha accepts now rid e c))"
      by (rule record_event_cases [of sha accepts now rid e c]) (use Cons.prems assms(2) in auto)
    from Cons.IH [OF this] show ?case by (simp add: x)
  qed simp
  then show ?thesis using assms(1) by (simp add: audit_run_def)
qed

lemma run_verifies:
  "verify_rows sha (ac_rows (audit_run sha accepts es)) (ac_head (audit_run sha accepts es)) =
     Inr (length (ac_rows (audit_run sha accepts es)))"
proof -
  have "\<exists>n. verify_rows sha (ac_rows (audit_run sha accepts es)) (ac_head (audit_run sha accepts es)) = Inr n"
  proof (rule audit_run_induct [where P = "\<lambda>c. \<exists>n. verify_rows sha (ac_rows c) (ac_head c) = Inr n"])
    show "\<exists>n. verify_rows sha (ac_rows genesis_chain) (ac_head genesis_chain) = Inr n"
      by (simp add: genesis_chain_def verify_rows_def)
  qed (blast intro: append_keeps_verified)
  then show ?thesis by (auto simp: verify_rows_ok)
qed

section \<open>Metadata\<close>

text \<open>The event type is enabled, and each metadata value is a string of the form its key allows.\<close>

definition content_free :: "audit_row \<Rightarrow> bool" where
  "content_free r \<longleftrightarrow>
     (\<exists>allowed. map_of SAFE_METADATA (ar_type r) = Some allowed \<and>
        (\<forall>(k, v)\<in>set (case ar_metadata r of None \<Rightarrow> [] | Some m \<Rightarrow> m).
           \<exists>kind s. map_of allowed k = Some kind \<and> v = JStr s \<and> value_pattern kind s))"

lemma metadata_value_ok_iff:
  "metadata_value_ok allowed k v \<longleftrightarrow> (\<exists>kind s. map_of allowed k = Some kind \<and> v = JStr s \<and> value_pattern kind s)"
  by (cases v) (auto simp: metadata_value_ok_def split: option.splits)

lemma validated_content_free:
  assumes "validate_event e = Inr ()"
  shows "content_free (new_row now rid head e)"
  using assms
  by (auto simp: validate_event_def content_free_def new_row_def res_simps audit_guard_def list_all_iff
      metadata_value_ok_iff split: option.splits if_splits)

lemma content_free_cong [simp]: "content_free (r\<lparr>ar_hash := h\<rparr>) = content_free r"
  by (simp add: content_free_def)

lemma run_content_free: "list_all content_free (ac_rows (audit_run sha accepts es))"
proof (rule audit_run_induct)
  show "list_all content_free (ac_rows genesis_chain)" by (simp add: genesis_chain_def)
next
  fix now rid e c row c'
  assume h: "list_all content_free (ac_rows c)" and a: "append_event sha accepts now rid e c = Inr (row, c')"
  from a show "list_all content_free (ac_rows c')"
    by (rule append_event_ok) (use h validated_content_free [of e now rid] in simp)
qed

section \<open>Tampering\<close>

definition metadata_json :: "audit_row \<Rightarrow> json" where
  "metadata_json r = (case ar_metadata r of None \<Rightarrow> JNull | Some m \<Rightarrow> JObj m)"

text \<open>Equal in every column, the metadata up to the order of its keys, which \<open>jsonb\<close> does not keep.\<close>

definition same_event :: "audit_row \<Rightarrow> audit_row \<Rightarrow> bool" where
  "same_event r r' \<longleftrightarrow>
     r\<lparr>ar_metadata := None\<rparr> = r'\<lparr>ar_metadata := None\<rparr> \<and> sort_keys (metadata_json r) = sort_keys (metadata_json r')"

definition hash_input :: "audit_row \<Rightarrow> string" where
  "hash_input r = canonical_text (row_body r) @ ar_previous_hash r"

lemma event_hash_input: "event_hash sha r = Inr h \<Longrightarrow> h = sha (hash_input r)"
  by (auto simp: event_hash_def hash_input_def canonical_json_ok split: sum.splits)

text \<open>SHA-256 on the strings that are hashed: no collision, and 64 characters.\<close>

definition chain_hash_sound :: "(string \<Rightarrow> string) \<Rightarrow> audit_row list \<Rightarrow> audit_row list \<Rightarrow> bool" where
  "chain_hash_sound sha rows rows' \<longleftrightarrow>
     inj_on sha (hash_input ` (set rows \<union> set rows')) \<and> (\<forall>r\<in>set rows \<union> set rows'. length (sha (hash_input r)) = 64)"

lemma jopt_inject: "sort_keys (jopt a) = sort_keys (jopt b) \<longleftrightarrow> a = b"
  by (cases a; cases b) (auto simp: jopt_def)

lemma row_body_same:
  assumes "sort_keys (row_body r) = sort_keys (row_body r')" "ar_hash r = ar_hash r'"
  shows "same_event r r'"
proof -
  have "map (\<lambda>(k, v). (k, sort_keys v)) (case row_body r of JObj kvs \<Rightarrow> kvs) =
      map (\<lambda>(k, v). (k, sort_keys v)) (case row_body r' of JObj kvs \<Rightarrow> kvs)"
    by (rule sorted_object_eq) (use assms(1) in \<open>simp_all add: row_body_def\<close>)
  then show ?thesis using assms(2)
    unfolding same_event_def metadata_json_def row_body_def by (cases r; cases r') (simp add: jopt_inject)
qed

text \<open>One hash comes from one event, and from one predecessor.\<close>

lemma same_hash_same_event:
  assumes hash: "event_hash sha r = Inr h" "event_hash sha r' = Inr h" and stored: "ar_hash r = h" "ar_hash r' = h"
    and len: "length (ar_previous_hash r) = length (ar_previous_hash r')" and inj: "inj_on sha {hash_input r, hash_input r'}"
  shows "same_event r r' \<and> ar_previous_hash r = ar_previous_hash r'"
proof -
  obtain t t' where t: "canonical_json (row_body r) = Inr t" "canonical_json (row_body r') = Inr t'"
    using hash by (auto simp: event_hash_def split: sum.splits)
  have "sha (hash_input r) = sha (hash_input r')"
    by (rule trans [OF event_hash_input [OF hash(1), symmetric] event_hash_input [OF hash(2)]])
  then have "hash_input r = hash_input r'" by (rule inj_onD [OF inj]) simp_all
  then have "t = t'" "ar_previous_hash r = ar_previous_hash r'"
    using len t by (simp_all add: hash_input_def canonical_json_ok)
  with t have "sort_keys (row_body r) = sort_keys (row_body r')" by (auto intro: canonical_json_same)
  then show ?thesis using row_body_same stored \<open>ar_previous_hash r = ar_previous_hash r'\<close> by simp
qed

lemma verified_length:
  assumes "verify_from sha GENESIS_HASH 1 rows = Inr h" "\<forall>r\<in>set rows. length (sha (hash_input r)) = 64"
  shows "length h = 64"
proof (cases rows rule: rev_cases)
  case Nil
  with assms(1) have "h = GENESIS_HASH" by simp
  then show ?thesis by (simp add: GENESIS_HASH_def)
next
  case (snoc rs r)
  have "event_hash sha r = Inr h" using verify_from_snocE [OF assms(1) [unfolded snoc]] .
  from event_hash_input [OF this] show ?thesis using assms(2) snoc by simp
qed

lemma verified_chains_agree:
  assumes "verify_from sha GENESIS_HASH 1 rows = Inr h" "verify_from sha GENESIS_HASH 1 rows' = Inr h"
    and "length rows = length rows'" "chain_hash_sound sha rows rows'"
  shows "list_all2 same_event rows rows'"
  using assms
proof (induction rows arbitrary: rows' h rule: rev_induct)
  case (snoc r rows)
  from snoc.prems(3) obtain rs r' where rows': "rows' = rs @ [r']" by (cases rows' rule: rev_cases) auto
  obtain q where q: "verify_from sha GENESIS_HASH 1 rows = Inr q" "ar_previous_hash r = q"
      "event_hash sha r = Inr h" "ar_hash r = h"
    using verify_from_snocE [OF snoc.prems(1)] .
  obtain q' where q': "verify_from sha GENESIS_HASH 1 rs = Inr q'" "ar_previous_hash r' = q'"
      "event_hash sha r' = Inr h" "ar_hash r' = h"
    using verify_from_snocE [OF snoc.prems(2) [unfolded rows']] .
  have sound: "chain_hash_sound sha rows rs" "inj_on sha {hash_input r, hash_input r'}"
  proof -
    have i: "inj_on sha (hash_input ` (set (rows @ [r]) \<union> set rows'))" using snoc.prems(4) by (simp add: chain_hash_sound_def)
    have sub: "hash_input ` (set rows \<union> set rs) \<subseteq> hash_input ` (set (rows @ [r]) \<union> set rows')"
      "{hash_input r, hash_input r'} \<subseteq> hash_input ` (set (rows @ [r]) \<union> set rows')"
      unfolding rows' by auto
    show "inj_on sha {hash_input r, hash_input r'}" by (rule inj_on_subset [OF i sub(2)])
    show "chain_hash_sound sha rows rs"
      using inj_on_subset [OF i sub(1)] snoc.prems(4) unfolding rows' by (simp add: chain_hash_sound_def)
  qed
  have lens: "length q = 64" "length q' = 64"
    using verified_length [OF q(1)] verified_length [OF q'(1)] sound(1) by (simp_all add: chain_hash_sound_def)
  have last: "same_event r r' \<and> q = q'"
    using same_hash_same_event [OF q(3) q'(3) q(4) q'(4) _ sound(2)] q(2) q'(2) lens by simp
  have "list_all2 same_event rows rs"
    by (rule snoc.IH [OF q(1) _ _ sound(1)]) (use q'(1) last snoc.prems(3) rows' in simp_all)
  then show ?case using last by (simp add: rows' list_all2_appendI)
qed simp

text \<open>The rows of a run against any rows that verify under its head.\<close>

lemma tampering_detected:
  assumes "c = audit_run sha accepts es" "verify_rows sha rows (ac_head c) = Inr n"
    and "chain_hash_sound sha (ac_rows c) rows"
  shows "list_all2 same_event (ac_rows c) rows"
proof -
  obtain h where h: "verify_from sha GENESIS_HASH 1 (ac_rows c) = Inr h" "ac_head c = Some (int (length (ac_rows c)), h)"
    using run_verifies [of sha accepts es] unfolding assms(1) [symmetric] verify_rows_ok by blast
  obtain h' where h': "verify_from sha GENESIS_HASH 1 rows = Inr h'" "ac_head c = Some (int (length rows), h')"
    using assms(2) unfolding verify_rows_ok by blast
  show ?thesis using verified_chains_agree [OF h(1) _ _ assms(3)] h' h(2) by simp
qed

section \<open>A sample chain\<close>

text \<open>
  One event, and the row as \<open>jsonb\<close> gives it back, with its metadata in another order. There is one text to
  hash, so a constant of 64 characters is a sound hash for it.
\<close>

definition sample_hash :: "string \<Rightarrow> string" where
  "sample_hash s = replicate 64 (CHR ''1'')"

definition sample_uuid :: string where
  "sample_uuid = ''0123abcd-0123-4bcd-89ab-0123456789ab''"

definition sample_event :: audit_event where
  "sample_event =
     \<lparr>ev_type = ''AUTHENTICATION_FAILED'', ev_outcome = ''FAILED'', ev_actor_kind = ''SYSTEM'',
      ev_target_kind = ''SESSION'', ev_correlation_id = sample_uuid, ev_actor = None, ev_target_id = None,
      ev_metadata = Some [(''reason'', JStr ''STATE_MISMATCH''), (''method'', JStr ''OIDC'')], ev_occurred_at = None,
      ev_case = None, ev_evidence = None, ev_evaluation = None, ev_bundle_digest = None\<rparr>"

definition sample_appends :: "(string \<times> string \<times> audit_event) list" where
  "sample_appends = [(''2026-10-14T09:00:00.000000Z'', sample_uuid, sample_event)]"

definition sample_row :: audit_row where
  "sample_row = (new_row ''2026-10-14T09:00:00.000000Z'' sample_uuid (0, GENESIS_HASH) sample_event)\<lparr>ar_hash := sample_hash []\<rparr>"

definition reordered :: "audit_row \<Rightarrow> audit_row" where
  "reordered r = r\<lparr>ar_metadata := map_option rev (ar_metadata r)\<rparr>"

lemma sample_event_valid: "validate_event sample_event = Inr ()"
  by code_simp

lemma sample_body:
  "shallow 0 (row_body sample_row)" "printable (row_body sample_row)" "nodes (row_body sample_row) \<le> COPY_BUDGET"
  "text_bound (row_body sample_row) \<le> MAX_CANONICAL_BYTES"
  by (simp_all add: row_body_def sample_row_def new_row_def sample_event_def sample_uuid_def GENESIS_HASH_def jopt_def
      metadata_items_def CHAIN_ID_def EVENT_SCHEMA_VERSION_def COPY_BUDGET_def MAX_CANONICAL_BYTES_def MAX_STR_DIGITS_def
      nat_text.simps)

lemma reordered_body: "canonical_text (row_body (reordered sample_row)) = canonical_text (row_body sample_row)"
  by (simp add: reordered_def row_body_def sample_row_def new_row_def sample_event_def metadata_items_def canonical_text_def)

lemma sample_row_hash: "event_hash sample_hash sample_row = Inr (sample_hash [])"
  using short_canonical [OF sample_body(1,4,3,2)] by (simp add: event_hash_def sample_hash_def)

lemma reordered_hash: "event_hash sample_hash (reordered sample_row) = Inr (sample_hash [])"
proof -
  have "shallow 0 (row_body (reordered sample_row))" "printable (row_body (reordered sample_row))"
    "nodes (row_body (reordered sample_row)) = nodes (row_body sample_row)"
    "text_bound (row_body (reordered sample_row)) = text_bound (row_body sample_row)"
    using sample_body(1,2)
    by (simp_all add: row_body_def sample_row_def new_row_def sample_event_def metadata_items_def reordered_def)
  then show ?thesis using short_canonical sample_body(3,4) by (simp add: event_hash_def sample_hash_def)
qed

lemma sample_chain:
  "audit_run sample_hash (\<lambda>_. True) sample_appends = \<lparr>ac_head = Some (1, sample_hash []), ac_rows = [sample_row]\<rparr>"
proof -
  have "event_hash sample_hash (new_row ''2026-10-14T09:00:00.000000Z'' sample_uuid (0, GENESIS_HASH) sample_event) =
      Inr (sample_hash [])"
    using sample_row_hash unfolding sample_row_def event_hash_cong .
  then show ?thesis
    by (simp add: audit_run_def sample_appends_def record_event_def append_event_def sample_event_valid genesis_chain_def
        sample_row_def Let_def)
qed

lemma reordered_verifies:
  "verify_rows sample_hash [reordered sample_row] (Some (1, sample_hash [])) = Inr 1"
proof -
  have "ar_sequence (reordered sample_row) = 1" "ar_previous_hash (reordered sample_row) = GENESIS_HASH"
    "ar_hash (reordered sample_row) = sample_hash []"
    by (simp_all add: reordered_def sample_row_def)
  then show ?thesis using reordered_hash by (simp add: verify_rows_def)
qed

lemma sample_chain_sound: "chain_hash_sound sample_hash [sample_row] [reordered sample_row]"
proof -
  have "hash_input (reordered sample_row) = hash_input sample_row"
    by (simp add: hash_input_def reordered_body) (simp add: reordered_def)
  then show ?thesis by (simp add: chain_hash_sound_def sample_hash_def)
qed

end
