(* ===== verification/FakeProvider.thy ===== *)
theory FakeProvider
  imports AiIntegrationProps
begin

text \<open>
  fake_provider.py, the deterministic offline provider: outcomes are registered once per request id, and an
  extraction looks its request up. \<open>typed_provider\<close> is the interface of \<open>AIExtractorProvider\<close> the evaluation relies
  on; the fake provider keeps its law.
\<close>

section \<open>The interface\<close>

locale typed_provider =
  fixes ask :: provider
  assumes typed: "ask r = Inl e \<Longrightarrow> provider_error e"
begin

lemma attempt_escapes:
  assumes "attempt_ai lib rk call h = Inl e" "ac_provider call = Some ask"
    and "\<not> provider_error e" "\<not> validation_error e" "\<not> governance_error e" "e \<noteq> AIMappingError"
  shows "e = Raised (TypeError ''slice indices must be integers'')"
  using attempt_fails [OF assms(1,3-6)] assms(2,3) typed by auto

text \<open>What an evaluation over a typed provider can raise.\<close>

lemma evaluation_escapes:
  assumes "evaluate_with_optional_ai lib engine rk enabled call h = Inl e" "ac_provider call = Some ask"
  shows "e = AIIntegrationInputError \<or> (\<exists>a x. engine a = Inl x \<and> e = Raised x) \<or>
    e = Raised (TypeError ''slice indices must be integers'')"
  using evaluation_fails [OF assms(1)] attempt_escapes [OF _ assms(2)] by blast

end

section \<open>The fake provider\<close>

datatype failure_kind = Unavailable | Timeout | Execution

definition FAILURE_KINDS :: "(string \<times> failure_kind) list" where
  "FAILURE_KINDS = [(''unavailable'', Unavailable), (''timeout'', Timeout), (''execution'', Execution)]"

fun failure_class :: "failure_kind \<Rightarrow> ai_error" where
  "failure_class Unavailable = AIProviderUnavailableError"
| "failure_class Timeout = AIProviderTimeoutError"
| "failure_class Execution = AIProviderExecutionError"

record fake_provider =
  fp_responses :: "raw_response dict"
  fp_failures :: "failure_kind dict"

definition new_provider :: fake_provider where
  "new_provider = \<lparr>fp_responses = [], fp_failures = []\<rparr>"

definition reserve :: "string \<Rightarrow> fake_provider \<Rightarrow> exc + unit" where
  "reserve rid fp =
     (if list_all py_space rid then Inl (ValueError ''FakeProvider fixture key must be a non-empty request_id'')
      else if map_of (fp_responses fp) rid \<noteq> None \<or> map_of (fp_failures fp) rid \<noteq> None
      then Inl (ValueError ''already registered'')
      else Inr ())"

definition register_response :: "string \<Rightarrow> raw_response \<Rightarrow> fake_provider \<Rightarrow> exc + fake_provider" where
  "register_response rid resp fp =
     rbind (reserve rid fp) (\<lambda>_. Inr (fp\<lparr>fp_responses := fp_responses fp @ [(rid, resp)]\<rparr>))"

definition register_failure :: "string \<Rightarrow> string \<Rightarrow> fake_provider \<Rightarrow> exc + fake_provider" where
  "register_failure rid kind fp =
     rbind (reserve rid fp) (\<lambda>_.
       case map_of FAILURE_KINDS kind of
         None \<Rightarrow> Inl (ValueError ''unknown provider failure kind'')
       | Some k \<Rightarrow> Inr (fp\<lparr>fp_failures := fp_failures fp @ [(rid, k)]\<rparr>))"

definition fake_extract :: "fake_provider \<Rightarrow> provider" where
  "fake_extract fp r =
     (case map_of (fp_failures fp) (xr_request_id r) of
        Some k \<Rightarrow> Inl (failure_class k)
      | None \<Rightarrow>
          (case map_of (fp_responses fp) (xr_request_id r) of
             None \<Rightarrow> Inl AIProviderUnavailableError
           | Some resp \<Rightarrow>
               if rw_request_id resp \<noteq> xr_request_id r then Inl AIProviderExecutionError else Inr (Reply resp)))"

lemma failure_class_typed: "provider_error (failure_class k)"
  by (cases k) (simp_all add: provider_error_def)

lemma fake_extract_fails: "fake_extract fp r = Inl e \<Longrightarrow> (\<exists>k. e = failure_class k)"
  by (auto simp: fake_extract_def failure_class.simps(1) [symmetric] failure_class.simps(3) [symmetric]
      simp del: failure_class.simps split: option.splits if_splits)

interpretation fake: typed_provider "fake_extract fp" for fp
  by unfold_locales (auto dest: fake_extract_fails simp: failure_class_typed)

text \<open>A registered outcome stays: registering is refused for a key in use and never changes another key.\<close>

lemma reserve_ok:
  "reserve rid fp = Inr () \<longleftrightarrow>
     \<not> list_all py_space rid \<and> map_of (fp_responses fp) rid = None \<and> map_of (fp_failures fp) rid = None"
  by (simp add: reserve_def)

lemma map_of_append_one: "map_of xs k = None \<Longrightarrow> map_of (xs @ [(k, v)]) k' = (if k' = k then Some v else map_of xs k')"
  by (induction xs) auto

lemma register_response_result:
  assumes "register_response rid resp fp = Inr fp'"
  shows "fake_extract fp' r =
     (if xr_request_id r = rid
      then if rw_request_id resp \<noteq> rid then Inl AIProviderExecutionError else Inr (Reply resp)
      else fake_extract fp r)"
proof -
  have "reserve rid fp = Inr ()" "fp' = fp\<lparr>fp_responses := fp_responses fp @ [(rid, resp)]\<rparr>"
    using assms by (auto simp: register_response_def res_simps)
  then show ?thesis by (simp add: reserve_ok fake_extract_def map_of_append_one cong: option.case_cong del: map_of_append)
qed

lemma register_failure_result:
  assumes "register_failure rid kind fp = Inr fp'"
  shows "\<exists>k. map_of FAILURE_KINDS kind = Some k \<and>
       fake_extract fp' r = (if xr_request_id r = rid then Inl (failure_class k) else fake_extract fp r)"
proof -
  obtain k where "reserve rid fp = Inr ()" "map_of FAILURE_KINDS kind = Some k"
      "fp' = fp\<lparr>fp_failures := fp_failures fp @ [(rid, k)]\<rparr>"
    using assms by (auto simp: register_failure_def res_simps case_option_eq)
  then show ?thesis by (simp add: reserve_ok fake_extract_def map_of_append_one cong: option.case_cong del: map_of_append)
qed

end
