(* ===== verification/Admission.thy ===== *)
theory Admission
  imports Sessions Loader Complex_Main
begin

text \<open>
  apps/backend/trustlens_backend/admission.py: token buckets in memory and the middleware that takes from them.
  Floats are rational numbers, so a refill is exact; the clocks are arguments. Every \<open>take\<close> holds the lock of
  its store, so a run is a list of takes with the clock readings they made.
\<close>

section \<open>Buckets\<close>

record bucket_profile =
  bp_capacity :: int
  bp_refill :: rat

definition make_profile :: "int \<Rightarrow> rat \<Rightarrow> bucket_profile option" where
  "make_profile capacity refill =
     (if capacity < 1 \<or> \<not> refill > 0 then None else Some \<lparr>bp_capacity = capacity, bp_refill = refill\<rparr>)"

definition SIGN_IN :: bucket_profile where
  "SIGN_IN = \<lparr>bp_capacity = 10, bp_refill = 10 / 60\<rparr>"

definition API_WRITE :: bucket_profile where
  "API_WRITE = \<lparr>bp_capacity = 20, bp_refill = 30 / 60\<rparr>"

definition MAX_KEYS :: nat where
  "MAX_KEYS = 10000"

text \<open>The ordered dict of a store, least recently used first: tokens and the reading they were counted at.\<close>

type_synonym buckets = "(rat \<times> rat) dict"

function evict :: "nat \<Rightarrow> buckets \<Rightarrow> buckets" where
  "evict max_keys bs = (if max_keys < length bs then evict max_keys (tl bs) else bs)"
  by pat_completeness auto
termination
  by (relation "measure (\<lambda>(_, bs). length bs)") auto

declare evict.simps [simp del]

definition refilled :: "bucket_profile \<Rightarrow> rat \<Rightarrow> rat \<times> rat \<Rightarrow> rat" where
  "refilled p now b = (case b of (tokens, updated) \<Rightarrow> min (of_int (bp_capacity p)) (tokens + (now - updated) * bp_refill p))"

definition bucket_of :: "bucket_profile \<Rightarrow> rat \<Rightarrow> string \<Rightarrow> buckets \<Rightarrow> rat \<times> rat" where
  "bucket_of p now key bs = (case map_of bs key of None \<Rightarrow> (of_int (bp_capacity p), now) | Some b \<Rightarrow> b)"

definition retry_after :: "bucket_profile \<Rightarrow> rat \<Rightarrow> int" where
  "retry_after p tokens = max 1 \<lceil>(1 - tokens) / bp_refill p\<rceil>"

definition take_token :: "bucket_profile \<Rightarrow> nat \<Rightarrow> rat \<Rightarrow> string \<Rightarrow> buckets \<Rightarrow> (bool \<times> int) \<times> buckets" where
  "take_token p max_keys now key bs =
     (let tokens = refilled p now (bucket_of p now key bs);
          allowed = (1 \<le> tokens);
          left = (if allowed then tokens - 1 else tokens)
      in ((allowed, if allowed then 0 else retry_after p left),
          evict max_keys (AList.delete key bs @ [(key, (left, now))])))"

section \<open>Admission\<close>

record admission =
  ad_sign_in :: buckets
  ad_api_write :: buckets

definition AUTH_PATHS :: "string list" where
  "AUTH_PATHS = [''/auth/login'', ''/auth/callback'']"

definition UNSAFE_METHODS :: "string list" where
  "UNSAFE_METHODS = [''POST'', ''PUT'', ''PATCH'', ''DELETE'']"

text \<open>
  The peer of the ASGI scope, \<open>None\<close> without one; \<open>is_loopback\<close> is that of the parsed address, \<open>None\<close> when
  \<open>ipaddress\<close> refuses the text. Headers are not an argument.
\<close>

definition connection_class :: "(string \<Rightarrow> bool option) \<Rightarrow> string option \<Rightarrow> string" where
  "connection_class is_loopback client =
     (case client of
        None \<Rightarrow> ''other''
      | Some address \<Rightarrow> if is_loopback address = Some True then ''loopback'' else ''other'')"

record http_request =
  rq_peer :: "string option"
  rq_path :: string
  rq_method :: string
  rq_cookie :: "string option"

datatype verdict = Proceed | TooManySignIns int | RateLimited int

text \<open>The sessions of the runtime, with their lifetimes, digest and clock reading; \<open>None\<close> without a runtime.\<close>

record session_view =
  sv_lifetimes :: lifetimes
  sv_digest :: "string \<Rightarrow> string"
  sv_now :: int

definition anonymous_key :: "(string \<Rightarrow> bool option) \<Rightarrow> http_request \<Rightarrow> string" where
  "anonymous_key is_loopback r = ''addr:'' @ connection_class is_loopback (rq_peer r)"

definition write_key :: "string \<Rightarrow> session option \<Rightarrow> string" where
  "write_key key s = (case s of None \<Rightarrow> key | Some se \<Rightarrow> ''principal:'' @ se_principal se)"

definition admission_middleware ::
    "(string \<Rightarrow> bool option) \<Rightarrow> rat \<Rightarrow> session_view option \<Rightarrow> http_request \<Rightarrow> admission \<times> session dict
      \<Rightarrow> verdict \<times> admission \<times> session dict" where
  "admission_middleware is_loopback now runtime r st =
     (case st of (ad, sessions) \<Rightarrow>
        let key = anonymous_key is_loopback r in
        if rq_path r \<in> set AUTH_PATHS
        then (case take_token SIGN_IN MAX_KEYS now key (ad_sign_in ad) of
                ((allowed, retry), bs) \<Rightarrow>
                  (if allowed then Proceed else TooManySignIns retry, ad\<lparr>ad_sign_in := bs\<rparr>, sessions))
        else if rq_method r \<in> set UNSAFE_METHODS \<and> starts_with ''/api/'' (rq_path r)
        then (case (case runtime of
                      None \<Rightarrow> (None, sessions)
                    | Some v \<Rightarrow> get_session (sv_lifetimes v) (sv_digest v) (sv_now v) (rq_cookie r) sessions) of
                (session, sessions') \<Rightarrow>
                  (case take_token API_WRITE MAX_KEYS now (write_key key session) (ad_api_write ad) of
                     ((allowed, retry), bs) \<Rightarrow>
                       (if allowed then Proceed else RateLimited retry, ad\<lparr>ad_api_write := bs\<rparr>, sessions')))
        else (Proceed, ad, sessions))"

section \<open>Runs\<close>

text \<open>Whether each take of a run was allowed, and the buckets after it.\<close>

fun run_takes :: "bucket_profile \<Rightarrow> nat \<Rightarrow> (rat \<times> string) list \<Rightarrow> buckets \<Rightarrow> bool list \<times> buckets" where
  "run_takes p max_keys [] bs = ([], bs)"
| "run_takes p max_keys ((now, key) # ts) bs =
     (case take_token p max_keys now key bs of
        ((allowed, _), bs') \<Rightarrow> (case run_takes p max_keys ts bs' of (vs, bs'') \<Rightarrow> (allowed # vs, bs'')))"

definition granted :: "string \<Rightarrow> (rat \<times> string) list \<Rightarrow> bool list \<Rightarrow> nat" where
  "granted key ts vs = length (filter (\<lambda>((_, k), v). k = key \<and> v) (zip ts vs))"

text \<open>Requests as they arrive, each with its clock reading and the sessions it sees.\<close>

type_synonym arrival = "rat \<times> session_view option \<times> http_request"

fun run_requests :: "(string \<Rightarrow> bool option) \<Rightarrow> arrival list \<Rightarrow> admission \<times> session dict \<Rightarrow> verdict list \<times> admission \<times> session dict" where
  "run_requests is_loopback [] st = ([], st)"
| "run_requests is_loopback ((now, runtime, r) # rs) st =
     (case admission_middleware is_loopback now runtime r st of
        (v, st') \<Rightarrow> (case run_requests is_loopback rs st' of (vs, st'') \<Rightarrow> (v # vs, st'')))"

end
