(* ===== verification/AdmissionProps.thy ===== *)
theory AdmissionProps
  imports Admission
begin

text \<open>
  The number of requests a key is granted in a window, the bound on the tracked keys, and the promise of
  Retry-After.
\<close>

section \<open>Eviction\<close>

lemma evict_drop: "evict n bs = drop (length bs - n) bs"
proof (induction n bs rule: evict.induct)
  case (1 n bs)
  show ?case
  proof (cases "n < length bs")
    case True
    then have "length bs - n = Suc (length (tl bs) - n)" by simp
    then show ?thesis using 1 [OF True] True by (simp add: evict.simps [of n bs] drop_Suc)
  qed (simp add: evict.simps)
qed

lemma evict_length: "length (evict n bs) \<le> n"
  by (simp add: evict_drop)

lemma evict_all: "length bs \<le> n \<Longrightarrow> evict n bs = bs"
  by (simp add: evict_drop)

lemma take_length: "length (snd (take_token p n now key bs)) \<le> n"
  by (simp add: take_token_def Let_def evict_length)

lemma run_length: "length bs \<le> n \<Longrightarrow> length (snd (run_takes p n ts bs)) \<le> n"
proof (induction p n ts bs rule: run_takes.induct)
  case (2 p n now key ts bs)
  obtain v bs' where t: "take_token p n now key bs = (v, bs')" by (cases "take_token p n now key bs")
  with take_length [of p n now key bs] have "length bs' \<le> n" by simp
  with 2 t show ?case by (auto split: prod.splits)
qed simp

lemma run_verdicts_length: "length (fst (run_takes p n ts bs)) = length ts"
  by (induction p n ts bs rule: run_takes.induct) (auto split: prod.splits)

section \<open>One take\<close>

text \<open>While no key is evicted, a take changes its own bucket only.\<close>

lemma delete_members: "x \<in> set (AList.delete key bs) \<longleftrightarrow> x \<in> set bs \<and> fst x \<noteq> key"
  by (auto simp: AList.delete_eq)

definition room :: "nat \<Rightarrow> string set \<Rightarrow> buckets \<Rightarrow> bool" where
  "room n keys bs \<longleftrightarrow> finite keys \<and> card keys \<le> n \<and> distinct (map fst bs) \<and> fst ` set bs \<subseteq> keys"

lemma room_length: "room n keys bs \<Longrightarrow> length bs \<le> n"
  by (metis room_def card_mono distinct_card le_trans length_map set_map)

lemma room_take:
  assumes "room n keys bs" "key \<in> keys"
  shows "room n keys (AList.delete key bs @ [(key, b)])"
    "evict n (AList.delete key bs @ [(key, b)]) = AList.delete key bs @ [(key, b)]"
proof -
  have "key \<notin> fst ` set (AList.delete key bs)" by (auto simp: delete_members)
  moreover have "distinct (map fst (AList.delete key bs))"
    using assms(1) by (simp add: room_def AList.delete_eq distinct_map_filter)
  ultimately show r: "room n keys (AList.delete key bs @ [(key, b)])"
    using assms by (fastforce simp: room_def delete_members)
  show "evict n (AList.delete key bs @ [(key, b)]) = AList.delete key bs @ [(key, b)]"
    by (rule evict_all) (rule room_length [OF r])
qed

lemma bucket_of_taken:
  "bucket_of p now k (AList.delete key bs @ [(key, b)]) = (if k = key then b else bucket_of p now k bs)"
  by (auto simp: bucket_of_def AList.delete_conv' map_add_def split: option.splits)

definition fed :: "bucket_profile \<Rightarrow> rat \<Rightarrow> buckets \<Rightarrow> bool" where
  "fed p now bs \<longleftrightarrow> 1 \<le> bp_capacity p \<and> 0 < bp_refill p \<and> (\<forall>(k, tokens, updated)\<in>set bs. 0 \<le> tokens \<and> updated \<le> now)"

definition level :: "bucket_profile \<Rightarrow> rat \<Rightarrow> string \<Rightarrow> buckets \<Rightarrow> rat" where
  "level p now key bs = refilled p now (bucket_of p now key bs)"

lemma bucket_cases:
  assumes "fed p now bs"
  obtains "bucket_of p now key bs = (of_int (bp_capacity p), now)" "map_of bs key = None"
  | tokens updated where "map_of bs key = Some (tokens, updated)" "0 \<le> tokens" "updated \<le> now"
      "\<And>t. bucket_of p t key bs = (tokens, updated)"
proof (cases "map_of bs key")
  case None
  then show ?thesis using that(1) by (simp add: bucket_of_def)
next
  case (Some b)
  obtain tokens updated where b: "b = (tokens, updated)" by (cases b)
  with Some map_of_SomeD have "(key, tokens, updated) \<in> set bs" by fastforce
  with assms have "0 \<le> tokens" "updated \<le> now" by (auto simp: fed_def)
  with Some b show ?thesis using that(2) by (simp add: bucket_of_def)
qed

lemma fed_later: "fed p t0 bs \<Longrightarrow> t0 \<le> now \<Longrightarrow> fed p now bs"
  by (fastforce simp: fed_def)

lemma level_range:
  assumes "fed p now bs"
  shows "0 \<le> level p now key bs" "level p now key bs \<le> of_int (bp_capacity p)"
proof -
  show "level p now key bs \<le> of_int (bp_capacity p)"
    by (cases "bucket_of p now key bs") (simp add: level_def refilled_def)
  show "0 \<le> level p now key bs"
    using assms by (cases rule: bucket_cases [OF assms, of key]) (auto simp: level_def refilled_def fed_def)
qed

lemma level_grows:
  assumes "fed p t0 bs" "t0 \<le> now"
  shows "level p now key bs \<le> level p t0 key bs + (now - t0) * bp_refill p"
proof -
  have r: "0 \<le> (now - t0) * bp_refill p" using assms by (simp add: fed_def)
  show ?thesis
  proof (cases rule: bucket_cases [OF assms(1), of key])
    case 1
    then have "level p now key bs = of_int (bp_capacity p)" "level p t0 key bs = of_int (bp_capacity p)"
      by (simp_all add: level_def refilled_def bucket_of_def)
    with r show ?thesis by simp
  next
    case (2 tokens updated)
    have "tokens + (now - updated) * bp_refill p = tokens + (t0 - updated) * bp_refill p + (now - t0) * bp_refill p"
      by (simp add: algebra_simps)
    with r show ?thesis by (simp add: level_def refilled_def 2 min_def)
  qed
qed

definition spent :: "rat \<Rightarrow> rat" where
  "spent l = (if 1 \<le> l then l - 1 else l)"

lemma take_allowed: "fst (fst (take_token p n now key bs)) \<longleftrightarrow> 1 \<le> level p now key bs"
  by (simp add: take_token_def Let_def level_def)

lemma take_buckets:
  assumes "room n keys bs" "key \<in> keys"
  shows "snd (take_token p n now key bs) = AList.delete key bs @ [(key, (spent (level p now key bs), now))]"
  using room_take(2) [OF assms] by (simp add: take_token_def Let_def level_def spent_def)

lemma take_room:
  assumes "room n keys bs" "key \<in> keys" "fed p now bs"
  shows "room n keys (snd (take_token p n now key bs))" "fed p now (snd (take_token p n now key bs))"
    "level p now k (snd (take_token p n now key bs)) = (if k = key then spent (level p now k bs) else level p now k bs)"
proof -
  note b = take_buckets [OF assms(1,2), of p now] and l = level_range [OF assms(3), of key]
  show "room n keys (snd (take_token p n now key bs))" unfolding b by (rule room_take(1) [OF assms(1,2)])
  have s: "0 \<le> spent (level p now key bs)" "spent (level p now key bs) \<le> of_int (bp_capacity p)"
    using l by (auto simp: spent_def)
  then show "fed p now (snd (take_token p n now key bs))"
    using assms(3) by (auto simp: fed_def b delete_members)
  show "level p now k (snd (take_token p n now key bs)) = (if k = key then spent (level p now k bs) else level p now k bs)"
    using s by (auto simp: level_def b bucket_of_taken refilled_def)
qed

section \<open>A window\<close>

definition window :: "rat \<Rightarrow> rat \<Rightarrow> (rat \<times> string) list \<Rightarrow> bool" where
  "window t0 t1 ts \<longleftrightarrow> t0 \<le> t1 \<and> sorted (map fst ts) \<and> (\<forall>(t, _)\<in>set ts. t0 \<le> t \<and> t \<le> t1)"

lemma granted_level:
  assumes "window t0 t1 ts" "fed p t0 bs" "room n keys bs" "snd ` set ts \<subseteq> keys"
  shows "of_nat (granted key ts (fst (run_takes p n ts bs))) \<le> level p t0 key bs + (t1 - t0) * bp_refill p"
  using assms
proof (induction ts arbitrary: t0 bs)
  case Nil
  then show ?case using level_range(1) [of p t0 bs key] by (simp add: granted_def window_def fed_def)
next
  case (Cons x ts)
  obtain now k where x: "x = (now, k)" by (cases x)
  let ?l = "level p now key bs"
  have t: "t0 \<le> now" "now \<le> t1" "window now t1 ts" "k \<in> keys" "snd ` set ts \<subseteq> keys"
    using Cons.prems(1,4) by (auto simp: window_def x)
  obtain v r bs' where tk: "take_token p n now k bs = ((v, r), bs')" by (cases "take_token p n now k bs") auto
  have f: "fed p now bs" by (rule fed_later [OF Cons.prems(2) t(1)])
  note tr = take_room [OF Cons.prems(3) t(4) f, unfolded tk snd_conv]
  have v: "v \<longleftrightarrow> 1 \<le> level p now k bs" using take_allowed [of p n now k bs] by (simp add: tk)
  obtain vs bs'' where run: "run_takes p n ts bs' = (vs, bs'')" by (cases "run_takes p n ts bs'")
  have "of_nat (granted key (x # ts) (fst (run_takes p n (x # ts) bs))) =
      (if k = key \<and> v then 1 else 0) + of_nat (granted key ts vs)"
    by (simp add: x tk run granted_def)
  also have "\<dots> \<le> (if k = key \<and> v then 1 else 0) + (level p now key bs' + (t1 - now) * bp_refill p)"
    using Cons.IH [OF t(3) tr(2,1) t(5)] by (simp add: run)
  also have "\<dots> \<le> ?l + (t1 - now) * bp_refill p"
    using tr(3) [of key] v by (auto simp: spent_def)
  also have "\<dots> \<le> level p t0 key bs + (t1 - t0) * bp_refill p"
    using level_grows [OF Cons.prems(2) t(1), of key] by (simp add: algebra_simps)
  finally show ?case .
qed

lemma granted_bound:
  assumes "window t0 t1 ts" "fed p t0 bs" "room n keys bs" "snd ` set ts \<subseteq> keys"
  shows "of_nat (granted key ts (fst (run_takes p n ts bs))) \<le> of_int (bp_capacity p) + (t1 - t0) * bp_refill p"
  using granted_level [OF assms, of key] level_range(2) [OF assms(2), of key] by linarith

section \<open>Retry-After\<close>

lemma retry_enough:
  assumes "0 < bp_refill p" "1 \<le> bp_capacity p" "of_int (retry_after p tokens) \<le> later - now"
  shows "1 \<le> refilled p later (tokens, now)"
proof -
  have "(1 - tokens) / bp_refill p \<le> of_int (retry_after p tokens)"
    by (simp add: retry_after_def le_max_iff_disj) linarith
  with assms(3) have "(1 - tokens) / bp_refill p \<le> later - now" by linarith
  then have "1 - tokens \<le> (later - now) * bp_refill p" using assms(1) by (simp add: divide_le_eq)
  with assms(2) show ?thesis by (simp add: refilled_def)
qed

lemma retry_is_granted:
  assumes "room n keys bs" "key \<in> keys" "fed p now bs"
    and "take_token p n now key bs = ((False, r), bs')" "of_int r \<le> later - now"
  shows "fst (take_token p n later key bs') = (True, 0)"
proof -
  have l: "\<not> 1 \<le> level p now key bs" using take_allowed [of p n now key bs] assms(4) by simp
  have bs': "bs' = AList.delete key bs @ [(key, (level p now key bs, now))]"
    using take_buckets [OF assms(1,2), of p now] l by (simp add: assms(4) spent_def)
  have r: "r = retry_after p (level p now key bs)"
    using assms(4) l by (auto simp: take_token_def Let_def level_def)
  have "1 \<le> refilled p later (level p now key bs, now)"
    by (rule retry_enough) (use assms(3,5) r in \<open>simp_all add: fed_def\<close>)
  then show ?thesis by (simp add: take_token_def Let_def bs' bucket_of_taken)
qed

section \<open>Callers without a session\<close>

lemma connection_classes: "connection_class lb client \<in> {''loopback'', ''other''}"
  by (auto simp: connection_class_def split: option.splits)

text \<open>A request on a sign-in path is one take under one of two keys.\<close>

definition sign_in_takes :: "(string \<Rightarrow> bool option) \<Rightarrow> arrival list \<Rightarrow> (rat \<times> string) list" where
  "sign_in_takes lb rs =
     map (\<lambda>(t, _, r). (t, anonymous_key lb r)) (filter (\<lambda>(_, _, r). rq_path r \<in> set AUTH_PATHS) rs)"

definition sign_ins :: "arrival list \<Rightarrow> verdict list \<Rightarrow> nat" where
  "sign_ins rs vs = length (filter (\<lambda>((_, _, r), v). rq_path r \<in> set AUTH_PATHS \<and> v = Proceed) (zip rs vs))"

lemma sign_ins_takes:
  "sign_ins rs (fst (run_requests lb rs (ad, se))) =
     length (filter id (fst (run_takes SIGN_IN MAX_KEYS (sign_in_takes lb rs) (ad_sign_in ad))))"
proof (induction rs arbitrary: ad se)
  case Nil
  then show ?case by (simp add: sign_ins_def sign_in_takes_def)
next
  case (Cons x rs)
  obtain t v r where x: "x = (t, v, r)" by (cases x)
  obtain out ad' se' where m: "admission_middleware lb t v r (ad, se) = (out, ad', se')"
    by (cases "admission_middleware lb t v r (ad, se)")
  obtain vs st where run: "run_requests lb rs (ad', se') = (vs, st)" by (cases "run_requests lb rs (ad', se')")
  note IH = Cons.IH [of ad' se', unfolded run fst_conv]
  show ?case
  proof (cases "rq_path r \<in> set AUTH_PATHS")
    case True
    obtain ok retry bs where tk:
        "take_token SIGN_IN MAX_KEYS t (anonymous_key lb r) (ad_sign_in ad) = ((ok, retry), bs)"
      by (cases "take_token SIGN_IN MAX_KEYS t (anonymous_key lb r) (ad_sign_in ad)") auto
    from m True have o: "out = (if ok then Proceed else TooManySignIns retry)" "ad_sign_in ad' = bs"
      by (auto simp: admission_middleware_def Let_def tk)
    obtain ws bs' where r2: "run_takes SIGN_IN MAX_KEYS (sign_in_takes lb rs) bs = (ws, bs')"
      by (cases "run_takes SIGN_IN MAX_KEYS (sign_in_takes lb rs) bs")
    have "sign_in_takes lb (x # rs) = (t, anonymous_key lb r) # sign_in_takes lb rs"
      using True by (simp add: sign_in_takes_def x)
    then show ?thesis using IH True by (simp add: x m run tk r2 o sign_ins_def)
  next
    case False
    then have "ad_sign_in ad' = ad_sign_in ad"
      using m by (auto simp: admission_middleware_def Let_def split: prod.splits if_splits)
    moreover have "sign_in_takes lb (x # rs) = sign_in_takes lb rs" using False by (simp add: sign_in_takes_def x)
    ultimately show ?thesis using IH False by (simp add: x m run sign_ins_def)
  qed
qed

definition anonymous_keys :: "string set" where
  "anonymous_keys = {''addr:loopback'', ''addr:other''}"

lemma granted_by_key:
  assumes "snd ` set ts \<subseteq> {a, b}" "a \<noteq> b" "length vs = length ts"
  shows "length (filter id vs) = granted a ts vs + granted b ts vs"
  using assms(3,1)
proof (induction vs ts rule: list_induct2)
  case Nil
  then show ?case by (simp add: granted_def)
next
  case (Cons v vs t ts)
  obtain now k where t: "t = (now, k)" by (cases t)
  have "k = a \<or> k = b" "snd ` set ts \<subseteq> {a, b}" using Cons.prems by (auto simp: t)
  with Cons.IH assms(2) show ?case by (auto simp: granted_def t)
qed

lemma sign_in_keys: "snd ` set (sign_in_takes lb rs) \<subseteq> anonymous_keys"
proof -
  have "anonymous_key lb r \<in> anonymous_keys" for r
    using connection_classes [of lb "rq_peer r"] by (auto simp: anonymous_key_def anonymous_keys_def)
  then show ?thesis by (auto simp: sign_in_takes_def)
qed

definition arrivals_within :: "rat \<Rightarrow> rat \<Rightarrow> arrival list \<Rightarrow> bool" where
  "arrivals_within t0 t1 rs \<longleftrightarrow> t0 \<le> t1 \<and> sorted (map fst rs) \<and> (\<forall>(t, _)\<in>set rs. t0 \<le> t \<and> t \<le> t1)"

lemma sign_in_window: "arrivals_within t0 t1 rs \<Longrightarrow> window t0 t1 (sign_in_takes lb rs)"
proof -
  assume a: "arrivals_within t0 t1 rs"
  have "map fst (sign_in_takes lb rs) = map fst (filter (\<lambda>(_, _, r). rq_path r \<in> set AUTH_PATHS) rs)"
    by (simp add: sign_in_takes_def case_prod_unfold)
  moreover have "sorted (map fst (filter (\<lambda>(_, _, r). rq_path r \<in> set AUTH_PATHS) rs))"
    using a by (simp add: arrivals_within_def sorted_filter)
  ultimately have "sorted (map fst (sign_in_takes lb rs))" by simp
  moreover have "t0 \<le> t \<and> t \<le> t1" if "(t, k) \<in> set (sign_in_takes lb rs)" for t k
    using a that by (auto simp: arrivals_within_def sign_in_takes_def)
  ultimately show ?thesis using a by (auto simp: arrivals_within_def window_def)
qed

lemma sign_ins_bounded:
  assumes "arrivals_within t0 t1 rs" "ad_sign_in ad = []"
  shows "of_nat (sign_ins rs (fst (run_requests lb rs (ad, se)))) \<le> 20 + (t1 - t0) / 3"
proof -
  let ?ts = "sign_in_takes lb rs" and ?vs = "fst (run_takes SIGN_IN MAX_KEYS (sign_in_takes lb rs) [])"
  have fed: "fed SIGN_IN t0 []" by (simp add: fed_def SIGN_IN_def)
  have room: "room MAX_KEYS anonymous_keys []" by (simp add: room_def anonymous_keys_def MAX_KEYS_def)
  have g: "of_nat (granted k ?ts ?vs) \<le> 10 + (t1 - t0) / 6" for k
    using granted_bound [OF sign_in_window [OF assms(1)] fed room sign_in_keys, of k] by (simp add: SIGN_IN_def)
  have "sign_ins rs (fst (run_requests lb rs (ad, se))) = length (filter id ?vs)"
    using sign_ins_takes [of rs lb ad se] assms(2) by simp
  also have "\<dots> = granted ''addr:loopback'' ?ts ?vs + granted ''addr:other'' ?ts ?vs"
    by (rule granted_by_key) (use sign_in_keys run_verdicts_length in \<open>simp_all add: anonymous_keys_def\<close>)
  finally show ?thesis using add_mono [OF g [of "''addr:loopback''"] g [of "''addr:other''"]] by simp
qed

end
