(* ===== verification/Addresses.thy ===== *)
theory Addresses
  imports Governance Loader "HOL-Library.Word"
begin

text \<open>
  The addresses of egress.py and admission.py: what \<open>ipaddress.ip_address\<close> parses, membership in a network, and
  the addresses the indicator lookup may connect to. The registry behind \<open>is_global\<close> depends on the interpreter
  and is an argument.
\<close>

unbundle bit_operations_syntax

section \<open>Parsing\<close>

datatype address = V4 "32 word" | V6 "128 word" "string option"

definition parse_octet :: "string \<Rightarrow> 32 word option" where
  "parse_octet s =
     (if s = [] \<or> \<not> list_all numeral_char s \<or> 3 < length s \<or> (s \<noteq> ''0'' \<and> hd s = CHR ''0'') \<or> 255 < digits_value s
      then None else Some (word_of_nat (digits_value s)))"

definition parse_v4 :: "string \<Rightarrow> 32 word option" where
  "parse_v4 s =
     (if CHR ''/'' \<in> set s then None
      else case map parse_octet (split_on CHR ''.'' s) of
             [Some a, Some b, Some c, Some d] \<Rightarrow> Some (push_bit 24 a OR push_bit 16 b OR push_bit 8 c OR d)
           | _ \<Rightarrow> None)"

definition hex_value :: "char \<Rightarrow> int" where
  "hex_value c =
     (let n = (of_char c :: int) in
      if numeral_char c then n - 48 else if in_range (CHR ''a'') (CHR ''f'') c then n - 87 else n - 55)"

definition hex_digit :: "char \<Rightarrow> bool" where
  "hex_digit c \<longleftrightarrow> hex_char c \<or> in_range (CHR ''A'') (CHR ''F'') c"

definition parse_hextet :: "string \<Rightarrow> 128 word option" where
  "parse_hextet s =
     (if s = [] \<or> \<not> list_all hex_digit s \<or> 4 < length s then None
      else Some (word_of_int (foldl (\<lambda>n c. 16 * n + hex_value c) 0 s)))"

text \<open>A group list with the final dotted quad already replaced by its two groups.\<close>

definition shift_in :: "128 word \<Rightarrow> 128 word option \<Rightarrow> 128 word option" where
  "shift_in w h = map_option (\<lambda>x. push_bit 16 w OR x) h"

definition groups_value :: "128 word \<Rightarrow> 128 word option list \<Rightarrow> 128 word option" where
  "groups_value w hs = foldl (\<lambda>acc h. Option.bind acc (\<lambda>x. shift_in x h)) (Some w) hs"

definition quad_groups :: "string list \<Rightarrow> 128 word option list option" where
  "quad_groups parts =
     (if CHR ''.'' \<in> set (last parts)
      then (case parse_v4 (last parts) of
              None \<Rightarrow> None
            | Some q \<Rightarrow> Some (map parse_hextet (butlast parts) @
                [Some (ucast (drop_bit 16 q)), Some (ucast (q AND mask 16))]))
      else Some (map parse_hextet parts))"

text \<open>The text of each group, a group of the quad counting as non-empty.\<close>

definition empty_groups :: "string list \<Rightarrow> nat \<Rightarrow> nat list" where
  "empty_groups parts n = filter (\<lambda>i. 1 \<le> i \<and> i < n - 1 \<and> i < length parts \<and> parts ! i = []) [0..<n]"

definition ipv6_value :: "string list \<Rightarrow> 128 word option" where
  "ipv6_value parts =
     (case (if length parts < 3 then None else quad_groups parts) of
        None \<Rightarrow> None
      | Some hs \<Rightarrow>
          (let n = length hs; final_empty = (last parts = []) in
           if 9 < n then None
           else case empty_groups parts n of
                  [] \<Rightarrow> if n = 8 \<and> hd parts \<noteq> [] \<and> \<not> final_empty then groups_value 0 hs else None
                | [skip] \<Rightarrow>
                    (let hi = (if hd parts = [] then skip - 1 else skip);
                         lo = (if final_empty then n - skip - 2 else n - skip - 1) in
                     if hd parts = [] \<and> hi \<noteq> 0 \<or> final_empty \<and> lo \<noteq> 0 \<or> 8 \<le> hi + lo then None
                     else Option.bind (groups_value 0 (take hi hs))
                            (\<lambda>w. groups_value (push_bit (16 * (8 - (hi + lo))) w) (drop (n - lo) hs)))
                | _ \<Rightarrow> None))"

definition parse_v6 :: "string \<Rightarrow> address option" where
  "parse_v6 s =
     (if CHR ''/'' \<in> set s then None
      else let addr = takeWhile (\<lambda>c. c \<noteq> CHR ''%'') s; scope = dropWhile (\<lambda>c. c \<noteq> CHR ''%'') s in
        if scope \<noteq> [] \<and> (tl scope = [] \<or> CHR ''%'' \<in> set (tl scope)) then None
        else map_option (\<lambda>w. V6 w (if scope = [] then None else Some (tl scope))) (ipv6_value (split_on CHR '':'' addr)))"

definition parse_address :: "string \<Rightarrow> address option" where
  "parse_address s = (case parse_v4 s of Some w \<Rightarrow> Some (V4 w) | None \<Rightarrow> parse_v6 s)"

section \<open>Networks\<close>

datatype network = N4 "32 word" nat | N6 "128 word" nat

fun in_network :: "address \<Rightarrow> network \<Rightarrow> bool" where
  "in_network (V4 w) (N4 base n) = (w AND NOT (mask (32 - n)) = base)"
| "in_network (V6 w _) (N6 base n) = (w AND NOT (mask (128 - n)) = base)"
| "in_network _ _ = False"

definition quad :: "int \<Rightarrow> int \<Rightarrow> int \<Rightarrow> int \<Rightarrow> 32 word" where
  "quad a b c d = word_of_int (((a * 256 + b) * 256 + c) * 256 + d)"

text \<open>An IPv6 address by its first groups, the rest zero.\<close>

definition v6_groups :: "int list \<Rightarrow> 128 word" where
  "v6_groups hs = word_of_int (foldl (\<lambda>n h. n * 65536 + h) 0 (hs @ replicate (8 - length hs) 0))"

definition EMBEDDED_V4 :: "network list" where
  "EMBEDDED_V4 =
     [N6 (v6_groups [0, 0, 0, 0, 0, 0xFFFF]) 96, N6 0 96, N6 (v6_groups [0x64, 0xFF9B]) 96, N6 (v6_groups [0x2002]) 16,
      N6 (v6_groups [0x2001]) 32]"

definition DENIED :: "network list" where
  "DENIED =
     [N4 (quad 127 0 0 0) 8, N4 (quad 10 0 0 0) 8, N4 (quad 172 16 0 0) 12, N4 (quad 192 168 0 0) 16,
      N4 (quad 169 254 0 0) 16, N4 (quad 224 0 0 0) 4, N4 (quad 0 0 0 0) 8, N4 (quad 100 64 0 0) 10,
      N4 (quad 192 0 0 0) 24, N4 (quad 192 0 2 0) 24, N4 (quad 198 18 0 0) 15, N4 (quad 198 51 100 0) 24,
      N4 (quad 203 0 113 0) 24, N4 (quad 240 0 0 0) 4, N4 (quad 255 255 255 255) 32,
      N6 1 128, N6 (v6_groups [0xFE80]) 10, N6 (v6_groups [0xFF00]) 8, N6 0 128, N6 (v6_groups [0x100]) 64,
      N6 (v6_groups [0x2001, 0xDB8]) 32, N6 (v6_groups [0xFC00]) 7]"

definition METADATA :: "address list" where
  "METADATA = [V4 (quad 169 254 169 254)]"

definition ipv4_mapped :: "address \<Rightarrow> bool" where
  "ipv4_mapped a = (case a of V4 _ \<Rightarrow> False | V6 w _ \<Rightarrow> drop_bit 32 w = 0xFFFF)"

definition multicast :: "address \<Rightarrow> bool" where
  "multicast a \<longleftrightarrow> in_network a (N4 (quad 224 0 0 0) 4) \<or> in_network a (N6 (v6_groups [0xFF00]) 8)"

section \<open>The address policy\<close>

definition address_permitted :: "(address \<Rightarrow> bool) \<Rightarrow> address list \<Rightarrow> string \<Rightarrow> bool" where
  "address_permitted is_global extra_metadata txt =
     (case parse_address txt of
        None \<Rightarrow> False
      | Some a \<Rightarrow>
          (case a of
             V4 _ \<Rightarrow> True
           | V6 _ scope \<Rightarrow> scope = None \<and> \<not> list_ex (in_network a) EMBEDDED_V4 \<and> \<not> ipv4_mapped a) \<and>
          \<not> list_ex (in_network a) DENIED \<and>
          a \<notin> set METADATA \<and> a \<notin> set extra_metadata \<and> is_global a \<and> \<not> multicast a)"

end
