(* ===== verification/EgressPolicy.thy ===== *)
theory EgressPolicy
  imports Addresses AiIntegration "HOL-Library.Sublist"
begin

text \<open>
  egress.py up to the network seams: the outcomes, the canonical host name, the governed provider policy, the
  outbound indicator and the checks of paths. Arguments: \<open>idna\<close> for names that are not ASCII, \<open>urlsplit\<close>, SHA-256,
  and \<open>int\<close> of a text.
\<close>

section \<open>Outcomes\<close>

datatype failure_category =
    DNS_FAILURE | CONNECTION_FAILURE | TLS_FAILURE | TIMEOUT | PROVIDER_CLIENT_ERROR | PROVIDER_SERVER_ERROR
  | RATE_LIMITED | INVALID_CONTENT_TYPE | OVERSIZED_RESPONSE | DECOMPRESSION_LIMIT_EXCEEDED
  | SCHEMA_INVALID_RESPONSE | POLICY_REJECTION | REDIRECT_POLICY_REJECTION | DESTINATION_ADDRESS_REJECTION
  | PROXY_ENFORCEMENT_UNVERIFIED | CREDENTIAL_UNAVAILABLE | PROVIDER_UNAVAILABLE

datatype lookup_outcome = UNAVAILABLE | INVALID_RESPONSE | POLICY_REJECTED | FOUND | NOT_FOUND

datatype lookup_status = FAILED | TIMED_OUT | REJECTED | SUCCEEDED

datatype response_category = NO_RESPONSE | HTTP_2XX | HTTP_3XX | HTTP_4XX | HTTP_5XX | HTTP_429

record failure =
  fa_outcome :: lookup_outcome
  fa_status :: lookup_status
  fa_retry :: bool

abbreviation fails_as :: "lookup_outcome \<Rightarrow> lookup_status \<Rightarrow> bool \<Rightarrow> failure" where
  "fails_as oc st retry \<equiv> \<lparr>fa_outcome = oc, fa_status = st, fa_retry = retry\<rparr>"

fun FAILURES :: "failure_category \<Rightarrow> failure" where
  "FAILURES DNS_FAILURE = fails_as UNAVAILABLE FAILED True"
| "FAILURES CONNECTION_FAILURE = fails_as UNAVAILABLE FAILED True"
| "FAILURES TLS_FAILURE = fails_as UNAVAILABLE FAILED False"
| "FAILURES TIMEOUT = fails_as UNAVAILABLE TIMED_OUT True"
| "FAILURES PROVIDER_CLIENT_ERROR = fails_as UNAVAILABLE FAILED False"
| "FAILURES PROVIDER_SERVER_ERROR = fails_as UNAVAILABLE FAILED True"
| "FAILURES RATE_LIMITED = fails_as UNAVAILABLE FAILED True"
| "FAILURES INVALID_CONTENT_TYPE = fails_as INVALID_RESPONSE FAILED False"
| "FAILURES OVERSIZED_RESPONSE = fails_as INVALID_RESPONSE FAILED False"
| "FAILURES DECOMPRESSION_LIMIT_EXCEEDED = fails_as INVALID_RESPONSE FAILED False"
| "FAILURES SCHEMA_INVALID_RESPONSE = fails_as INVALID_RESPONSE FAILED False"
| "FAILURES POLICY_REJECTION = fails_as POLICY_REJECTED REJECTED False"
| "FAILURES REDIRECT_POLICY_REJECTION = fails_as POLICY_REJECTED REJECTED False"
| "FAILURES DESTINATION_ADDRESS_REJECTION = fails_as POLICY_REJECTED REJECTED False"
| "FAILURES PROXY_ENFORCEMENT_UNVERIFIED = fails_as POLICY_REJECTED REJECTED False"
| "FAILURES CREDENTIAL_UNAVAILABLE = fails_as UNAVAILABLE FAILED False"
| "FAILURES PROVIDER_UNAVAILABLE = fails_as UNAVAILABLE FAILED False"

text \<open>\<open>Refused\<close>, with its category and that of the response, or another exception, which no handler of the lookup catches.\<close>

datatype refusal = Refused failure_category response_category | Uncaught exc

abbreviation refused :: "failure_category \<Rightarrow> refusal + 'a" where
  "refused c \<equiv> Inl (Refused c NO_RESPONSE)"

section \<open>Host names\<close>

definition ascii_char :: "char \<Rightarrow> bool" where
  "ascii_char c \<longleftrightarrow> (of_char c :: nat) < 128"

definition ldh_char :: "char \<Rightarrow> bool" where
  "ldh_char c \<longleftrightarrow> lower_char c \<or> numeral_char c"

definition label_core :: "string \<Rightarrow> bool" where
  "label_core s \<longleftrightarrow>
     s \<noteq> [] \<and> length s \<le> 63 \<and> ldh_char (hd s) \<and> ldh_char (last s) \<and> list_all (\<lambda>c. ldh_char c \<or> c = CHR ''-'') s"

text \<open>\<open>_LABEL\<close> is matched with \<open>match\<close>, so a final newline is not part of the label.\<close>

definition label_ok :: "string \<Rightarrow> bool" where
  "label_ok s \<longleftrightarrow> label_core s \<or> (s \<noteq> [] \<and> last s = CHR 0x0A \<and> label_core (butlast s))"

definition ascii_lower :: "string \<Rightarrow> string" where
  "ascii_lower = map (\<lambda>c. if capital c then char_of ((of_char c :: nat) + 32) else c)"

text \<open>The \<open>idna\<close> codec: an ASCII name is only split into labels and measured.\<close>

definition idna_ascii :: "string \<Rightarrow> string option" where
  "idna_ascii s =
     (let labels = split_on CHR ''.'' s in
      if s = [] then Some []
      else if list_all (\<lambda>l. 0 < length l \<and> length l < 64) (butlast labels) \<and> length (last labels) < 64 then Some s
      else None)"

definition encode_idna :: "(string \<Rightarrow> string option) \<Rightarrow> string \<Rightarrow> string option" where
  "encode_idna idna s =
     (if list_all ascii_char s then idna_ascii s
      else case idna s of None \<Rightarrow> None | Some t \<Rightarrow> if list_all ascii_char t then Some t else None)"

definition HOST_DELIMITERS :: string where
  "HOST_DELIMITERS = ''@%'' @ [CHR 0x5C] @ ''/?#[]: '' @ [CHR 0x09, CHR 0x0D, CHR 0x0A]"

definition all_digits :: "string \<Rightarrow> bool" where
  "all_digits s \<longleftrightarrow> s \<noteq> [] \<and> list_all numeral_char s"

definition canonical_host :: "(string \<Rightarrow> string option) \<Rightarrow> json \<Rightarrow> refusal + string" where
  "canonical_host idna j =
     (case j of
        JStr host \<Rightarrow>
          if host = [] \<or> 253 < length host then refused POLICY_REJECTION
          else if list_ex (\<lambda>c. c \<in> set HOST_DELIMITERS) host \<or> list_ex (\<lambda>c. (of_char c :: nat) < 0x21) host
          then refused POLICY_REJECTION
          else (case encode_idna idna (if last host = CHR ''.'' then butlast host else host) of
                  None \<Rightarrow> refused POLICY_REJECTION
                | Some encoded \<Rightarrow>
                    let name = ascii_lower encoded; labels = split_on CHR ''.'' name in
                    if length labels < 2 \<or> \<not> list_all label_ok labels \<or> all_digits (last labels)
                    then refused POLICY_REJECTION
                    else if parse_address name \<noteq> None then refused POLICY_REJECTION
                    else Inr name)
      | _ \<Rightarrow> refused POLICY_REJECTION)"

section \<open>Limits\<close>

text \<open>Times are whole numbers of a tick, \<open>second\<close> ticks a second.\<close>

record limits =
  li_connect :: int
  li_read :: int
  li_overall :: int
  li_attempts :: int
  li_backoff_initial :: int
  li_backoff_max :: int
  li_hops :: int
  li_wire :: int
  li_decoded :: int

definition second :: int where
  "second = 1000"

definition limits_ok :: "limits \<Rightarrow> bool" where
  "limits_ok li \<longleftrightarrow>
     list_all (\<lambda>v. 0 < v \<and> v < 600 * second)
       [li_connect li, li_read li, li_overall li, li_backoff_initial li, li_backoff_max li] \<and>
     list_all (\<lambda>v. 0 \<le> v \<and> v \<le> 10 * 1024 * 1024) [li_attempts li, li_hops li, li_wire li, li_decoded li] \<and>
     1 \<le> li_attempts li \<and> li_backoff_initial li \<le> li_backoff_max li"

definition LOCAL_TEST_PROFILE :: limits where
  "LOCAL_TEST_PROFILE = \<lparr>li_connect = 3 * second, li_read = 5 * second, li_overall = 10 * second, li_attempts = 2,
     li_backoff_initial = 200, li_backoff_max = second, li_hops = 2, li_wire = 32 * 1024, li_decoded = 64 * 1024\<rparr>"

section \<open>Provider policies\<close>

record proxy_policy =
  px_host :: string
  px_port :: int
  px_verified :: bool

record provider_policy =
  pp_policy_ref :: string
  pp_policy_version :: string
  pp_provider_ref :: string
  pp_category :: string
  pp_operation :: string
  pp_indicator_type :: string
  pp_host :: string
  pp_port :: int
  pp_path_prefix :: string
  pp_method :: string
  pp_parameter :: string
  pp_parser :: string
  pp_redirects :: string
  pp_query :: string
  pp_retry_safe :: bool
  pp_enabled :: bool
  pp_auth_header :: "string option"
  pp_credential :: "string option"
  pp_proxy :: "proxy_policy option"
  pp_document :: json

definition POLICY_FIELDS :: "string list" where
  "POLICY_FIELDS =
     [''provider_policy_ref'', ''provider_policy_version'', ''provider_ref'', ''provider_category'',
      ''provider_operation'', ''indicator_type'', ''scheme'', ''host'', ''port'', ''path_prefix'', ''method'',
      ''indicator_parameter'', ''expected_media_type'', ''parser_schema_version'', ''redirect_policy'',
      ''url_query_transmission'', ''retry_safe'', ''enabled'', ''authentication_header'', ''credential_ref'',
      ''freshness_policy_ref'', ''raw_provider_content_policy_ref'', ''proxy'']"

definition INDICATOR_TYPES :: "string list" where
  "INDICATOR_TYPES = [''URL'', ''HOSTNAME'', ''REGISTERED_DOMAIN'']"

definition PROVIDER_CATEGORIES :: "string list" where
  "PROVIDER_CATEGORIES = [''REPUTATION_LOOKUP'', ''ALLOWLIST_LOOKUP'', ''BRAND_DOMAIN_LOOKUP'']"

definition REDIRECT_POLICIES :: "string list" where
  "REDIRECT_POLICIES = [''DO_NOT_FOLLOW'', ''REVALIDATE_WITHIN_PROVIDER_ALLOWLIST'']"

definition METHODS :: "string list" where
  "METHODS = [''GET'', ''POST'']"

definition AUTH_HEADERS :: "string list" where
  "AUTH_HEADERS = [''Authorization'', ''X-Api-Key'']"

definition PARSER_VERSIONS :: "string list" where
  "PARSER_VERSIONS = [''TL-FIXTURE-PARSER-1.0.0'']"

definition governed_ref :: "string \<Rightarrow> bool" where
  "governed_ref = name_pattern id_first (\<lambda>c. id_first c \<or> c \<in> set ''._:-'') 0 79"

definition one_of :: "string list \<Rightarrow> json \<Rightarrow> bool" where
  "one_of vs j = (case j of JStr s \<Rightarrow> s \<in> set vs | _ \<Rightarrow> False)"

text \<open>\<open>isinstance(port, int)\<close> holds of a Boolean too.\<close>

definition int_like :: "json \<Rightarrow> int option" where
  "int_like j = (case j of JInt i \<Rightarrow> Some i | JBool b \<Rightarrow> Some (if b then 1 else 0) | _ \<Rightarrow> None)"

definition is_bool :: "json \<Rightarrow> bool" where
  "is_bool j = (case j of JBool _ \<Rightarrow> True | _ \<Rightarrow> False)"

definition path_prefix_ok :: "json \<Rightarrow> bool" where
  "path_prefix_ok j =
     (case j of
        JStr p \<Rightarrow>
          starts_with ''/'' p \<and> list_all (\<lambda>c. c \<notin> set (''?#%'' @ [CHR 0x5C] @ '' '' @ [CHR 0x0D, CHR 0x0A] @ ''@'')) p \<and>
          \<not> sublist ''..'' p
      | _ \<Rightarrow> False)"

datatype policy_error = Invalid | Escapes refusal | Raises exc | Uncanonical ai_error

text \<open>\<open>int(value)\<close> of a value of the document; a float that is not finite raises one of two exceptions.\<close>

definition py_int :: "(string \<Rightarrow> int option) \<Rightarrow> json \<Rightarrow> policy_error + int" where
  "py_int int_of_text j =
     (case j of
        JInt i \<Rightarrow> Inr i
      | JBool b \<Rightarrow> Inr (if b then 1 else 0)
      | JFloat t \<Rightarrow> (case decimal t of (m, e) \<Rightarrow>
          if \<not> finite_text t then Inl (Raises (ValueError ''cannot convert float to integer''))
          else Inr (if 0 \<le> e then m * 10 ^ nat e else sgn m * (\<bar>m\<bar> div 10 ^ nat (- e))))
      | JStr s \<Rightarrow> (case int_of_text s of None \<Rightarrow> Inl Invalid | Some i \<Rightarrow> Inr i)
      | _ \<Rightarrow> Inl (Raises (TypeError ''int() argument'')))"

definition load_proxy ::
    "(string \<Rightarrow> string option) \<Rightarrow> (string \<Rightarrow> int option) \<Rightarrow> json \<Rightarrow> policy_error + proxy_policy option" where
  "load_proxy idna int_of_text j =
     (case j of
        JNull \<Rightarrow> Inr None
      | JObj kvs \<Rightarrow>
          if set (map fst kvs) \<noteq> {''host'', ''port'', ''final_hop_enforcement_verified''} then Inl Invalid
          else (case canonical_host idna (jget kvs ''host'') of
                  Inl r \<Rightarrow> Inl (Escapes r)
                | Inr host \<Rightarrow>
                    rbind (py_int int_of_text (jget kvs ''port'')) (\<lambda>port.
                      Inr (Some \<lparr>px_host = host, px_port = port,
                        px_verified = (jget kvs ''final_hop_enforcement_verified'' = JBool True)\<rparr>)))
      | _ \<Rightarrow> Inl Invalid)"

definition valid_if :: "bool \<Rightarrow> policy_error + unit" where
  "valid_if holds = (if holds then Inr () else Inl Invalid)"

definition GOVERNED_KEYS :: "string list" where
  "GOVERNED_KEYS =
     [''provider_policy_ref'', ''provider_policy_version'', ''provider_ref'', ''provider_operation'',
      ''parser_schema_version'', ''indicator_parameter'']"

definition credential_ok :: "json \<Rightarrow> policy_error + unit" where
  "credential_ok j =
     (case j of
        JNull \<Rightarrow> Inr ()
      | JStr s \<Rightarrow> valid_if (governed_ref s)
      | _ \<Rightarrow> Inl (Raises (TypeError ''expected string or bytes-like object'')))"

definition load_policy ::
    "(string \<Rightarrow> string option) \<Rightarrow> (string \<Rightarrow> int option) \<Rightarrow> json \<Rightarrow> policy_error + provider_policy" where
  "load_policy idna int_of_text document =
     (case document of
        JObj d \<Rightarrow>
          rbind (valid_if (list_all (\<lambda>(k, _). k \<in> set POLICY_FIELDS) d)) (\<lambda>_.
          rbind (valid_if (list_all (\<lambda>k. case jget d k of JStr s \<Rightarrow> governed_ref s | _ \<Rightarrow> False) GOVERNED_KEYS)) (\<lambda>_.
          rbind (valid_if (jget d ''scheme'' = JStr ''https'' \<and> one_of METHODS (jget d ''method'') \<and>
              one_of INDICATOR_TYPES (jget d ''indicator_type'') \<and>
              one_of PROVIDER_CATEGORIES (jget d ''provider_category'') \<and>
              one_of REDIRECT_POLICIES (jget d ''redirect_policy'') \<and>
              one_of [''PERMITTED'', ''NOT_PERMITTED''] (jget d ''url_query_transmission'') \<and>
              jget d ''expected_media_type'' = JStr ''application/json'')) (\<lambda>_.
          rbind (valid_if ((case int_like (jget d ''port'') of None \<Rightarrow> False | Some i \<Rightarrow> 1 \<le> i \<and> i \<le> 65535) \<and>
              is_bool (jget d ''retry_safe'') \<and> is_bool (jget d ''enabled''))) (\<lambda>_.
          rbind (valid_if (path_prefix_ok (jget d ''path_prefix''))) (\<lambda>_.
          rbind (case canonical_host idna (jget d ''host'') of Inl _ \<Rightarrow> Inl Invalid | Inr h \<Rightarrow> Inr h) (\<lambda>host.
          rbind (valid_if (JStr host = jget d ''host'')) (\<lambda>_.
          rbind (valid_if ((jget d ''authentication_header'' = JNull \<longleftrightarrow> jget d ''credential_ref'' = JNull) \<and>
              (jget d ''authentication_header'' \<noteq> JNull \<longrightarrow> one_of AUTH_HEADERS (jget d ''authentication_header'')))) (\<lambda>_.
          rbind (credential_ok (jget d ''credential_ref'')) (\<lambda>_.
          rbind (valid_if (one_of PARSER_VERSIONS (jget d ''parser_schema_version''))) (\<lambda>_.
          rbind (load_proxy idna int_of_text (jget d ''proxy'')) (\<lambda>proxy.
          rbind (case canonical_json document of Inl e \<Rightarrow> Inl (Uncanonical e) | Inr _ \<Rightarrow> Inr ()) (\<lambda>_.
          let txt = text_at document in
            Inr \<lparr>pp_policy_ref = txt ''provider_policy_ref'', pp_policy_version = txt ''provider_policy_version'',
              pp_provider_ref = txt ''provider_ref'', pp_category = txt ''provider_category'',
              pp_operation = txt ''provider_operation'', pp_indicator_type = txt ''indicator_type'', pp_host = host,
              pp_port = the (int_like (jget d ''port'')), pp_path_prefix = txt ''path_prefix'', pp_method = txt ''method'',
              pp_parameter = txt ''indicator_parameter'', pp_parser = txt ''parser_schema_version'',
              pp_redirects = txt ''redirect_policy'', pp_query = txt ''url_query_transmission'',
              pp_retry_safe = (jget d ''retry_safe'' = JBool True), pp_enabled = (jget d ''enabled'' = JBool True),
              pp_auth_header = as_text (jget d ''authentication_header''),
              pp_credential = as_text (jget d ''credential_ref''), pp_proxy = proxy, pp_document = document\<rparr>))))))))))))
      | _ \<Rightarrow> Inl Invalid)"

section \<open>Paths\<close>

text \<open>\<open>_canonical_path\<close>: the segments of a path, a leading empty one meaning an absolute path.\<close>

definition canonical_path :: "string \<Rightarrow> bool \<Rightarrow> bool" where
  "canonical_path path allow_empty =
     (if path = [] then allow_empty
      else if CHR ''%'' \<in> set path \<or> CHR 0x5C \<in> set path then False
      else let segs = split_on CHR ''/'' path;
               segments = (if hd segs = [] then tl segs else segs) in
        list_all (\<lambda>s. s \<noteq> ''.'' \<and> s \<noteq> ''..'') segments \<and> list_all (\<lambda>s. s \<noteq> []) (butlast segments))"

definition strip_slashes :: "string \<Rightarrow> string" where
  "strip_slashes s = rev (dropWhile (\<lambda>c. c = CHR ''/'') (rev s))"

definition within_prefix :: "string \<Rightarrow> string \<Rightarrow> bool" where
  "within_prefix path approved =
     (if \<not> starts_with ''/'' path \<or> \<not> canonical_path path False then False
      else let base = strip_slashes approved in path = approved \<or> path = base \<or> starts_with (base @ ''/'') path)"

section \<open>Indicators\<close>

record indicator_data =
  id_type :: string
  id_value :: string

definition indicator_ref :: "(string \<Rightarrow> string) \<Rightarrow> indicator_data \<Rightarrow> ai_error + string" where
  "indicator_ref sha i =
     canonical_digest sha (JObj [(''indicator_type'', JStr (id_type i)), (''normalized_value'', JStr (id_value i))])"

text \<open>What \<open>urlsplit\<close> returns: \<open>port\<close> is \<open>None\<close> when reading it raises, and \<open>Some None\<close> when there is none.\<close>

record url_parts =
  up_scheme :: string
  up_netloc :: string
  up_hostname :: "string option"
  up_port :: "int option option"
  up_path :: string
  up_query :: string
  up_username :: "string option"
  up_password :: "string option"

definition or_empty :: "string option \<Rightarrow> string" where
  "or_empty x = (case x of None \<Rightarrow> [] | Some s \<Rightarrow> s)"

definition outbound_url :: "(string \<Rightarrow> url_parts option) \<Rightarrow> provider_policy \<Rightarrow> string \<Rightarrow> string option" where
  "outbound_url urlsplit pol normalized =
     (case urlsplit (if sublist ''://'' normalized then normalized else ''https://'' @ normalized) of
        None \<Rightarrow> None
      | Some u \<Rightarrow>
          (case up_port u of
             None \<Rightarrow> None
           | Some port \<Rightarrow>
               if up_scheme u \<notin> {''http'', ''https''} \<or> or_empty (up_hostname u) = [] then None
               else Some (up_scheme u @ ''://'' @ or_empty (up_hostname u) @
                   (case port of None \<Rightarrow> [] | Some p \<Rightarrow> if p = 0 then [] else '':'' @ int_text p) @
                   (if up_path u = [] then ''/'' else up_path u) @
                   (if up_query u \<noteq> [] \<and> pp_query pol = ''PERMITTED'' then ''?'' @ up_query u else []))))"

definition indicators_from_url_observation ::
    "(string \<Rightarrow> url_parts option) \<Rightarrow> json \<Rightarrow> provider_policy \<Rightarrow> indicator_data option" where
  "indicators_from_url_observation urlsplit url pol =
     (let structural = at_key url ''structural'';
          v = (if pp_indicator_type pol = ''HOSTNAME'' then as_text (at_key structural ''hostname'')
               else if pp_indicator_type pol = ''REGISTERED_DOMAIN'' then as_text (at_key structural ''registered_domain'')
               else Option.bind (as_text (at_key url ''normalized_url'')) (outbound_url urlsplit pol)) in
      case v of
        None \<Rightarrow> None
      | Some s \<Rightarrow>
          if s = [] \<or> 2048 < length s \<or> list_ex (\<lambda>c. (of_char c :: nat) < 0x20 \<or> (of_char c :: nat) = 0x7F) s then None
          else Some \<lparr>id_type = pp_indicator_type pol, id_value = s\<rparr>)"

end
