(* ===== verification/Egress.thy ===== *)
theory Egress
  imports EgressPolicy
begin

text \<open>
  The lookup of egress.py: preparing one request, resolving, connecting, exchanging, following governed
  redirects, and the retries under one deadline. The clock, the resolver, the transport and the sleep act on a
  world of any type; a log of what reaches the network is kept beside it. Library functions (JSON, inflation,
  URLs, dates, digests) are arguments.
\<close>

section \<open>Seams\<close>

record connection =
  cn_address :: string
  cn_port :: int
  cn_server :: string
  cn_proxy :: "proxy_policy option"

record response =
  re_status :: int
  re_headers :: "string dict"
  re_body :: string

text \<open>\<open>TransportError\<close> with its kind; the resolver's error; its answer, with \<open>None\<close> for an object of another type.\<close>

datatype transport_kind = T_CONNECTION | T_TLS | T_TIMEOUT | T_PROXY_UNSUPPORTED

record request =
  qr_host :: string
  qr_target :: string
  qr_body :: "string option"
  qr_headers :: "string dict"

record 'w seams =
  sm_clock :: "'w \<Rightarrow> int \<times> 'w"
  sm_resolve :: "string \<Rightarrow> int \<Rightarrow> 'w \<Rightarrow> (unit + string option list option) \<times> 'w"
  sm_connect :: "connection \<Rightarrow> int \<Rightarrow> 'w \<Rightarrow> (transport_kind + string option) \<times> 'w"
  sm_exchange :: "connection \<Rightarrow> string \<Rightarrow> request \<Rightarrow> int \<Rightarrow> int \<Rightarrow> 'w \<Rightarrow> (transport_kind + response) \<times> 'w"
  sm_sleep :: "int \<Rightarrow> 'w \<Rightarrow> 'w"
  sm_now :: "'w \<Rightarrow> int \<times> 'w"

datatype inflated = ZlibError | Inflated string bool bool bool

record libraries_net =
  ln_sha256 :: "string \<Rightarrow> string"
  ln_idna :: "string \<Rightarrow> string option"
  ln_strict_json :: "string \<Rightarrow> json option"
  ln_inflate :: "string \<Rightarrow> string \<Rightarrow> int \<Rightarrow> inflated"
  ln_instant :: "string \<Rightarrow> int option"
  ln_stamp :: "int \<Rightarrow> string"
  ln_urlsplit :: "string \<Rightarrow> url_parts option"
  ln_urljoin :: "string \<Rightarrow> string \<Rightarrow> string option"
  ln_is_global :: "address \<Rightarrow> bool"

record 'w adapter =
  ap_seams :: "'w seams"
  ap_lib :: libraries_net
  ap_limits :: limits
  ap_credential_of :: "string \<Rightarrow> string option"
  ap_correlation :: string
  ap_metadata :: "address list"

text \<open>What the adapter asks of the network: an address with the port and the name it verifies, and what it sends.\<close>

datatype net_event = Resolve string int | Connect connection int | Exchange connection string request int

text \<open>The adapter's steps: a refusal or a value, the world and the log.\<close>

type_synonym ('w, 'a) net = "'w \<times> net_event list \<Rightarrow> (refusal + 'a) \<times> ('w \<times> net_event list)"

definition net_return :: "'a \<Rightarrow> ('w, 'a) net" where
  "net_return a s = (Inr a, s)"

definition refuse :: "failure_category \<Rightarrow> response_category \<Rightarrow> ('w, 'a) net" where
  "refuse c rc s = (Inl (Refused c rc), s)"

definition net_bind :: "('w, 'a) net \<Rightarrow> ('a \<Rightarrow> ('w, 'b) net) \<Rightarrow> ('w, 'b) net" where
  "net_bind m f s = (case m s of (Inl r, s') \<Rightarrow> (Inl r, s') | (Inr a, s') \<Rightarrow> f a s')"

definition check_net :: "bool \<Rightarrow> failure_category \<Rightarrow> response_category \<Rightarrow> ('w, unit) net" where
  "check_net holds c rc = (if holds then net_return () else refuse c rc)"

definition lift_net :: "refusal + 'a \<Rightarrow> ('w, 'a) net" where
  "lift_net r s = (r, s)"

definition world_step :: "('w \<Rightarrow> 'a \<times> 'w) \<Rightarrow> ('w, 'a) net" where
  "world_step f s = (case s of (w, log) \<Rightarrow> (case f w of (a, w') \<Rightarrow> (Inr a, (w', log))))"

definition note_event :: "net_event \<Rightarrow> ('w, unit) net" where
  "note_event e s = (case s of (w, log) \<Rightarrow> (Inr (), (w, log @ [e])))"

section \<open>Preparing the request\<close>

definition unreserved :: "char \<Rightarrow> bool" where
  "unreserved c \<longleftrightarrow> id_first c \<or> c \<in> set ''_.-~''"

definition hex_upper :: "nat \<Rightarrow> char" where
  "hex_upper n = char_of (if n < 10 then 48 + n else 55 + n)"

text \<open>UTF-8 of a code point below 256.\<close>

definition utf8 :: "char \<Rightarrow> nat list" where
  "utf8 c = (let n = of_char c in if n < 128 then [n] else [192 + n div 64, 128 + n mod 64])"

definition quote_char :: "char \<Rightarrow> string" where
  "quote_char c =
     (if unreserved c then [c] else concat (map (\<lambda>b. [CHR ''%'', hex_upper (b div 16), hex_upper (b mod 16)]) (utf8 c)))"

definition percent_quote :: "string \<Rightarrow> string" where
  "percent_quote s = concat (map quote_char s)"

definition USER_AGENT :: string where
  "USER_AGENT = ''TrustLens-IndicatorLookup/1.0.0''"

definition clean_header :: "string \<times> string \<Rightarrow> bool" where
  "clean_header h \<longleftrightarrow> list_all (\<lambda>c. c \<notin> {CHR 0x0D, CHR 0x0A, CHR 0x00}) (fst h @ snd h)"

definition host_header :: "provider_policy \<Rightarrow> string \<Rightarrow> string" where
  "host_header pol host = (if pp_port pol = 443 then host else host @ '':'' @ int_text (pp_port pol))"

text \<open>
  The body of a POST has at most a few fields of bounded text, so its canonical JSON is within bounds; a
  failure to encode it is a refusal here.
\<close>

definition prepare_request :: "'w adapter \<Rightarrow> provider_policy \<Rightarrow> indicator_data \<Rightarrow> refusal + request" where
  "prepare_request ad pol i =
     (if \<not> pp_enabled pol then refused POLICY_REJECTION
      else if id_type i \<noteq> pp_indicator_type pol \<or> id_type i \<notin> set INDICATOR_TYPES then refused POLICY_REJECTION
      else if (case pp_proxy pol of None \<Rightarrow> False | Some p \<Rightarrow> \<not> px_verified p) then refused PROXY_ENFORCEMENT_UNVERIFIED
      else rbind (canonical_host (ln_idna (ap_lib ad)) (JStr (pp_host pol))) (\<lambda>host.
        let get = (pp_method pol = ''GET'');
            target = (if get then pp_path_prefix pol @ ''?'' @ percent_quote (pp_parameter pol) @ ''='' @ percent_quote (id_value i)
                      else pp_path_prefix pol);
            body = (if get then None else Some (canonical_text (JObj
                      (dict_of [(pp_parameter pol, JStr (id_value i)), (''indicator_type'', JStr (id_type i))]))));
            base = [(''Host'', host_header pol host), (''Accept'', ''application/json''), (''User-Agent'', USER_AGENT),
                    (''X-Correlation-Id'', ap_correlation ad)] @
                   (case body of None \<Rightarrow> []
                    | Some b \<Rightarrow> [(''Content-Type'', ''application/json''), (''Content-Length'', nat_text (length b))])
        in rbind (case pp_credential pol of
                    None \<Rightarrow> Inr base
                  | Some ref \<Rightarrow>
                      (case ap_credential_of ad ref of
                         None \<Rightarrow> refused CREDENTIAL_UNAVAILABLE
                       | Some v \<Rightarrow> if v = [] then refused CREDENTIAL_UNAVAILABLE
                                   else Inr (base @ [(or_empty (pp_auth_header pol), v)]))) (\<lambda>headers.
           if list_all clean_header headers
           then Inr \<lparr>qr_host = host, qr_target = target, qr_body = body, qr_headers = headers\<rparr>
           else refused POLICY_REJECTION)))"

section \<open>Time\<close>

definition remaining :: "'w adapter \<Rightarrow> int \<Rightarrow> ('w, int) net" where
  "remaining ad deadline =
     net_bind (world_step (sm_clock (ap_seams ad))) (\<lambda>t.
       if deadline - t \<le> 0 then refuse TIMEOUT NO_RESPONSE else net_return (deadline - t))"

section \<open>Resolving\<close>

definition permitted :: "'w adapter \<Rightarrow> string \<Rightarrow> bool" where
  "permitted ad = address_permitted (ln_is_global (ap_lib ad)) (ap_metadata ad)"

definition answer_ok :: "'w adapter \<Rightarrow> string option \<Rightarrow> bool" where
  "answer_ok ad a = (case a of None \<Rightarrow> False | Some t \<Rightarrow> permitted ad t)"

definition resolve_validated :: "'w adapter \<Rightarrow> string \<Rightarrow> int \<Rightarrow> ('w, string) net" where
  "resolve_validated ad host deadline =
     net_bind (remaining ad deadline) (\<lambda>left.
     let timeout = min (li_connect (ap_limits ad)) left in
     net_bind (note_event (Resolve host timeout)) (\<lambda>_.
     net_bind (world_step (sm_resolve (ap_seams ad) host timeout)) (\<lambda>answer.
       case answer of
         Inl _ \<Rightarrow> refuse DNS_FAILURE NO_RESPONSE
       | Inr answers \<Rightarrow>
           net_bind (remaining ad deadline) (\<lambda>_.
             case answers of
               None \<Rightarrow> refuse DNS_FAILURE NO_RESPONSE
             | Some xs \<Rightarrow>
                 if xs = [] then refuse DNS_FAILURE NO_RESPONSE
                 else if \<not> list_all (answer_ok ad) xs then refuse DESTINATION_ADDRESS_REJECTION NO_RESPONSE
                 else net_return (hd (sort (map or_empty xs)))))))"

section \<open>Responses\<close>

definition status_category :: "int \<Rightarrow> response_category" where
  "status_category st =
     (if st = 429 then HTTP_429
      else if st div 100 = 2 then HTTP_2XX else if st div 100 = 3 then HTTP_3XX
      else if st div 100 = 4 then HTTP_4XX else if st div 100 = 5 then HTTP_5XX else NO_RESPONSE)"

definition strip_spaces :: "string \<Rightarrow> string" where
  "strip_spaces s = rev (dropWhile py_space (rev (dropWhile py_space s)))"

definition normalized_header :: "string \<Rightarrow> string" where
  "normalized_header s = ascii_lower (strip_spaces s)"

text \<open>\<open>_media_type_ok\<close>: the expected type with at most one parameter, which is no charset but UTF-8.\<close>

definition parameter_of :: "string \<Rightarrow> (string \<times> string) option" where
  "parameter_of p =
     (if CHR ''='' \<in> set p then Some (takeWhile (\<lambda>c. c \<noteq> CHR ''='') p, tl (dropWhile (\<lambda>c. c \<noteq> CHR ''='') p)) else None)"

definition strip_quotes :: "string \<Rightarrow> string" where
  "strip_quotes s = rev (dropWhile (\<lambda>c. c = CHR 0x22) (rev (dropWhile (\<lambda>c. c = CHR 0x22) s)))"

definition media_type_ok :: "string option \<Rightarrow> string \<Rightarrow> bool" where
  "media_type_ok header expected =
     (if or_empty header = [] then False
      else let parts = map normalized_header (split_on CHR '';'' (or_empty header)) in
        hd parts = expected \<and>
        (case map_of (dict_of (List.map_filter parameter_of (tl parts))) ''charset'' of
           None \<Rightarrow> True | Some v \<Rightarrow> strip_quotes v = ''utf-8'') \<and>
        length parts \<le> 2)"

definition decode_body :: "'w adapter \<Rightarrow> response \<Rightarrow> refusal + string" where
  "decode_body ad r =
     (let li = ap_limits ad;
          encoding = (case map_of (re_headers r) ''content-encoding'' of None \<Rightarrow> ''identity'' | Some e \<Rightarrow> normalized_header e) in
      if li_wire li < int (length (re_body r)) then Inl (Refused OVERSIZED_RESPONSE HTTP_2XX)
      else rbind
        (if encoding = [] \<or> encoding = ''identity'' then Inr (re_body r)
         else if encoding = ''gzip'' \<or> encoding = ''deflate''
         then (case ln_inflate (ap_lib ad) encoding (re_body r) (li_decoded li + 1) of
                 ZlibError \<Rightarrow> Inl (Refused SCHEMA_INVALID_RESPONSE HTTP_2XX)
               | Inflated data tail_left eof unused \<Rightarrow>
                   if li_decoded li < int (length data) \<or> tail_left then Inl (Refused DECOMPRESSION_LIMIT_EXCEEDED HTTP_2XX)
                   else if \<not> eof \<or> unused then Inl (Refused SCHEMA_INVALID_RESPONSE HTTP_2XX) else Inr data)
         else Inl (Refused INVALID_CONTENT_TYPE HTTP_2XX)) (\<lambda>data.
        if li_decoded li < int (length data) then Inl (Refused OVERSIZED_RESPONSE HTTP_2XX) else Inr data))"

section \<open>The governed parser\<close>

definition digit_classes :: "nat \<Rightarrow> (char \<Rightarrow> bool) list" where
  "digit_classes n = replicate n numeral_char"

definition exactly_char :: "char \<Rightarrow> char \<Rightarrow> bool" where
  "exactly_char c = (\<lambda>x. x = c)"

definition matches_classes :: "(char \<Rightarrow> bool) list \<Rightarrow> string \<Rightarrow> bool" where
  "matches_classes cls s = list_all2 (\<lambda>p c. p c) cls (take (length cls) s)"

definition rfc3339 :: "string \<Rightarrow> bool" where
  "rfc3339 s =
     (let date = digit_classes 4 @ [exactly_char CHR ''-''] @ digit_classes 2 @ [exactly_char CHR ''-''] @ digit_classes 2 @
            [exactly_char CHR ''T''] @ digit_classes 2 @ [exactly_char CHR '':''] @ digit_classes 2 @ [exactly_char CHR '':''] @ digit_classes 2;
          rest = drop (length date) s;
          fraction = (if rest \<noteq> [] \<and> hd rest = CHR ''.'' then takeWhile numeral_char (tl rest) else []);
          zone = (if rest \<noteq> [] \<and> hd rest = CHR ''.'' then dropWhile numeral_char (tl rest) else rest);
          offset = [\<lambda>c. c = CHR ''+'' \<or> c = CHR ''-''] @ digit_classes 2 @ [exactly_char CHR '':''] @ digit_classes 2
      in matches_classes date s \<and>
         (rest \<noteq> [] \<and> hd rest = CHR ''.'' \<longrightarrow> 1 \<le> length fraction \<and> length fraction \<le> 6) \<and>
         (zone \<noteq> [] \<and> hd zone = CHR ''Z'' \<and> at_end (tl zone) \<or>
          matches_classes offset zone \<and> at_end (drop (length offset) zone)))"

definition RESPONSE_KEYS :: "string list" where
  "RESPONSE_KEYS =
     [''schema_version'', ''provider_ref'', ''indicator'', ''observed_at'', ''entry'', ''reputation'', ''allowlist'', ''brand_match'']"

text \<open>The values an entry allows for reputation, allowlist and brand.\<close>

definition ALLOWED :: "(string \<times> (string list \<times> string list \<times> string list)) list" where
  "ALLOWED =
     [(''FOUND'', ([''MALICIOUS'', ''SUSPICIOUS'', ''CLEAN'', ''UNKNOWN''], [''ALLOWLISTED'', ''NOT_ALLOWLISTED'', ''NOT_EVALUATED''],
        [''MATCH'', ''MISMATCH'', ''UNKNOWN''])),
      (''NOT_FOUND'', ([''UNKNOWN''], [''NOT_ALLOWLISTED'', ''NOT_EVALUATED''], [''UNKNOWN'']))]"

definition enum_triple_ok :: "string \<Rightarrow> string \<Rightarrow> string \<Rightarrow> string \<Rightarrow> bool" where
  "enum_triple_ok entry reputation allowlist brand =
     (case map_of ALLOWED entry of
        None \<Rightarrow> False
      | Some (rs, as, bs) \<Rightarrow> reputation \<in> set rs \<and> allowlist \<in> set as \<and> brand \<in> set bs)"

record normalized_payload =
  np_outcome :: string
  np_reputation :: string
  np_allowlist :: string
  np_brand :: string
  np_observed :: string

definition is_string :: "json \<Rightarrow> bool" where
  "is_string j = (case j of JStr _ \<Rightarrow> True | _ \<Rightarrow> False)"

definition replace_z :: "string \<Rightarrow> string" where
  "replace_z s = concat (map (\<lambda>c. if c = CHR ''Z'' then ''+00:00'' else [c]) s)"

definition has_exactly :: "string list \<Rightarrow> json \<Rightarrow> bool" where
  "has_exactly ks j = (case j of JObj kvs \<Rightarrow> set (map fst kvs) = set ks | _ \<Rightarrow> False)"

definition fixture_parser :: "libraries_net \<Rightarrow> json \<Rightarrow> provider_policy \<Rightarrow> indicator_data \<Rightarrow> int \<Rightarrow> refusal + normalized_payload" where
  "fixture_parser lib doc pol i now =
     (let bad = Inl (Refused SCHEMA_INVALID_RESPONSE HTTP_2XX); ind = at_key doc ''indicator''; txt = text_at doc in
      if \<not> has_exactly RESPONSE_KEYS doc \<or> \<not> has_exactly [''type'', ''value''] ind then bad
      else if \<not> list_all (\<lambda>k. k = ''indicator'' \<or> is_string (at_key doc k)) RESPONSE_KEYS \<or>
          \<not> is_string (at_key ind ''type'') \<or> \<not> is_string (at_key ind ''value'') then bad
      else if txt ''schema_version'' \<noteq> ''1.0.0'' \<or> txt ''provider_ref'' \<noteq> pp_provider_ref pol \<or>
          text_at ind ''type'' \<noteq> id_type i \<or> text_at ind ''value'' \<noteq> id_value i then bad
      else if \<not> rfc3339 (txt ''observed_at'') then bad
      else case ln_instant lib (replace_z (txt ''observed_at'')) of
             None \<Rightarrow> bad
           | Some observed \<Rightarrow>
               if now + 5 * 60 * second < observed then bad
               else if \<not> enum_triple_ok (txt ''entry'') (txt ''reputation'') (txt ''allowlist'') (txt ''brand_match'') then bad
               else Inr \<lparr>np_outcome = txt ''entry'', np_reputation = txt ''reputation'', np_allowlist = txt ''allowlist'',
                      np_brand = txt ''brand_match'', np_observed = txt ''observed_at''\<rparr>)"

text \<open>Dispatch on the pinned parser version; an unknown one raises inside and is contained.\<close>

definition run_parser :: "libraries_net \<Rightarrow> json \<Rightarrow> provider_policy \<Rightarrow> indicator_data \<Rightarrow> int \<Rightarrow> response_category
    \<Rightarrow> refusal + normalized_payload" where
  "run_parser lib doc pol i now category =
     (if pp_parser pol \<in> set PARSER_VERSIONS then fixture_parser lib doc pol i now
      else Inl (Refused SCHEMA_INVALID_RESPONSE category))"

end
