(* ===== verification/EgressLookup.thy ===== *)
theory EgressLookup
  imports Egress
begin

text \<open>
  \<open>Adapter.lookup\<close> of egress.py: one attempt with its hops, and the retries under the overall deadline.
\<close>

section \<open>Results\<close>

record lookup_result =
  lr_outcome :: lookup_outcome
  lr_status :: lookup_status
  lr_category :: "failure_category option"
  lr_response :: response_category
  lr_reputation :: string
  lr_allowlist :: string
  lr_brand :: string
  lr_responded :: "int option"
  lr_artifact :: "json option"
  lr_attempts :: int

definition failed_result :: "failure_category \<Rightarrow> response_category \<Rightarrow> int \<Rightarrow> int option \<Rightarrow> lookup_result" where
  "failed_result c rc attempts responded =
     \<lparr>lr_outcome = fa_outcome (FAILURES c), lr_status = fa_status (FAILURES c), lr_category = Some c, lr_response = rc,
      lr_reputation = ''NOT_EVALUATED'', lr_allowlist = ''NOT_EVALUATED'', lr_brand = ''UNKNOWN'',
      lr_responded = responded, lr_artifact = None, lr_attempts = attempts\<rparr>"

section \<open>Redirects\<close>

text \<open>
  \<open>urlsplit\<close> and \<open>urljoin\<close> raise \<open>ValueError\<close> on an unbalanced bracket; both are called outside the \<open>try\<close>.
\<close>

definition bad_redirect :: "refusal + 'a" where
  "bad_redirect = Inl (Refused REDIRECT_POLICY_REJECTION HTTP_3XX)"

definition parsed_url :: "'a option \<Rightarrow> refusal + 'a" where
  "parsed_url x = (case x of None \<Rightarrow> Inl (Uncaught (ValueError ''Invalid IPv6 URL'')) | Some a \<Rightarrow> Inr a)"

definition redirect_target ::
    "libraries_net \<Rightarrow> provider_policy \<Rightarrow> string \<Rightarrow> string \<Rightarrow> string option \<Rightarrow> refusal + string \<times> string" where
  "redirect_target lib pol host target location =
     (let loc = or_empty location in
      if loc = [] \<or> list_ex (\<lambda>c. c \<in> {CHR 0x0D, CHR 0x0A, CHR 0x00, CHR 0x5C, CHR ''%'', CHR '';''}) loc then bad_redirect
      else rbind (parsed_url (ln_urlsplit lib loc)) (\<lambda>l.
        if \<not> canonical_path (up_path l) True then bad_redirect
        else rbind (parsed_url (ln_urljoin lib (''https://'' @ host_header pol host @ target) loc)) (\<lambda>absolute.
             rbind (parsed_url (ln_urlsplit lib absolute)) (\<lambda>u.
               case (up_port u, canonical_host (ln_idna lib) (JStr (or_empty (up_hostname u)))) of
                 (Some port, Inr next_host) \<Rightarrow>
                   let port' = (case port of None \<Rightarrow> 443 | Some p \<Rightarrow> if p = 0 then 443 else p) in
                   if up_scheme u \<noteq> ''https'' \<or> or_empty (up_username u) \<noteq> [] \<or> or_empty (up_password u) \<noteq> [] \<or>
                      CHR ''@'' \<in> set (up_netloc u) \<or> next_host \<noteq> pp_host pol \<or> port' \<noteq> pp_port pol \<or>
                      \<not> within_prefix (up_path u) (pp_path_prefix pol)
                   then bad_redirect
                   else Inr (next_host, up_path u @ (if up_query u = [] then [] else ''?'' @ up_query u))
               | _ \<Rightarrow> bad_redirect))))"

section \<open>One attempt\<close>

fun transport_failure :: "transport_kind \<Rightarrow> failure_category" where
  "transport_failure T_TLS = TLS_FAILURE"
| "transport_failure T_TIMEOUT = TIMEOUT"
| "transport_failure T_PROXY_UNSUPPORTED = PROXY_ENFORCEMENT_UNVERIFIED"
| "transport_failure T_CONNECTION = CONNECTION_FAILURE"

definition transported :: "transport_kind + 'a \<Rightarrow> ('w, 'a) net" where
  "transported r = (case r of Inl k \<Rightarrow> refuse (transport_failure k) NO_RESPONSE | Inr a \<Rightarrow> net_return a)"

text \<open>Connect to the validated address, compare the peer, and only then exchange.\<close>

definition exchange_once ::
    "'w adapter \<Rightarrow> provider_policy \<Rightarrow> request \<Rightarrow> string \<Rightarrow> string \<Rightarrow> int \<Rightarrow> ('w, response) net" where
  "exchange_once ad pol q host target deadline =
     net_bind (resolve_validated ad host deadline) (\<lambda>address.
     let c = \<lparr>cn_address = address, cn_port = pp_port pol, cn_server = host, cn_proxy = pp_proxy pol\<rparr>;
         r = q\<lparr>qr_target := target\<rparr> in
     net_bind (remaining ad deadline) (\<lambda>left.
     let timeout = min (li_connect (ap_limits ad)) left in
     net_bind (note_event (Connect c timeout)) (\<lambda>_.
     net_bind (world_step (sm_connect (ap_seams ad) c timeout)) (\<lambda>connected.
     net_bind (transported connected) (\<lambda>peer.
     net_bind (check_net (peer = Some address \<and> permitted ad address) DESTINATION_ADDRESS_REJECTION NO_RESPONSE) (\<lambda>_.
     net_bind (remaining ad deadline) (\<lambda>left.
     let timeout = min (li_read (ap_limits ad)) left in
     net_bind (note_event (Exchange c (pp_method pol) r timeout)) (\<lambda>_.
     net_bind (world_step (sm_exchange (ap_seams ad) c (pp_method pol) r timeout (li_wire (ap_limits ad)))) (\<lambda>exchanged.
       transported exchanged)))))))))"

definition artifact_of ::
    "libraries_net \<Rightarrow> provider_policy \<Rightarrow> indicator_data \<Rightarrow> int \<Rightarrow> normalized_payload \<Rightarrow> ai_error + json" where
  "artifact_of lib pol i responded p =
     rbind (canonical_digest (ln_sha256 lib) (pp_document pol)) (\<lambda>policy_digest.
     rbind (indicator_ref (ln_sha256 lib) i) (\<lambda>ref.
       Inr (JObj [(''provider_ref'', JStr (pp_provider_ref pol)), (''provider_policy_version'', JStr (pp_policy_version pol)),
         (''provider_policy_digest'', JStr policy_digest), (''parser_schema_version'', JStr (pp_parser pol)),
         (''indicator_type'', JStr (id_type i)), (''normalized_indicator_ref'', JStr ref),
         (''observed_at'', JStr (ln_stamp lib responded)),
         (''normalized_payload'', JObj [(''lookup_outcome'', JStr (np_outcome p)),
            (''reputation_result'', JStr (np_reputation p)), (''allowlist_result'', JStr (np_allowlist p)),
            (''domain_matches_claimed_brand'', JStr (np_brand p)), (''provider_observed_at'', JStr (np_observed p))])])))"

text \<open>
  A response that is not a redirect. The documents hashed for the artifact are canonical already, so the digests
  succeed; an artifact that could not be written is recorded as absent.
\<close>

definition accept_payload ::
    "'w adapter \<Rightarrow> provider_policy \<Rightarrow> indicator_data \<Rightarrow> int \<Rightarrow> int \<Rightarrow> response \<Rightarrow> ('w, lookup_result) net" where
  "accept_payload ad pol i deadline attempts re =
     (let category = status_category (re_status re); lib = ap_lib ad; clock = world_step (sm_now (ap_seams ad)) in
      net_bind (check_net (re_status re \<noteq> 429) RATE_LIMITED category) (\<lambda>_.
      net_bind (check_net (\<not> (400 \<le> re_status re \<and> re_status re < 500)) PROVIDER_CLIENT_ERROR category) (\<lambda>_.
      net_bind (check_net (re_status re < 500) PROVIDER_SERVER_ERROR category) (\<lambda>_.
      net_bind (check_net (re_status re = 200) SCHEMA_INVALID_RESPONSE category) (\<lambda>_.
      net_bind (check_net (media_type_ok (map_of (re_headers re) ''content-type'') ''application/json'')
                  INVALID_CONTENT_TYPE category) (\<lambda>_.
      net_bind (lift_net (decode_body ad re)) (\<lambda>data.
      net_bind (remaining ad deadline) (\<lambda>_.
      net_bind (lift_net (case ln_strict_json lib data of
                  None \<Rightarrow> Inl (Refused SCHEMA_INVALID_RESPONSE category) | Some doc \<Rightarrow> Inr doc)) (\<lambda>doc.
      net_bind clock (\<lambda>now.
      net_bind (lift_net (run_parser lib doc pol i now category)) (\<lambda>p.
      net_bind (remaining ad deadline) (\<lambda>_.
      net_bind clock (\<lambda>responded.
        net_return \<lparr>lr_outcome = (if np_outcome p = ''FOUND'' then FOUND else NOT_FOUND), lr_status = SUCCEEDED,
          lr_category = None, lr_response = category, lr_reputation = np_reputation p, lr_allowlist = np_allowlist p,
          lr_brand = np_brand p, lr_responded = Some responded,
          lr_artifact = (case artifact_of lib pol i responded p of Inl _ \<Rightarrow> None | Inr a \<Rightarrow> Some a),
          lr_attempts = attempts\<rparr>)))))))))))))"

text \<open>The loop over the hops; the argument counts the hops that are left, the last of which may not redirect.\<close>

primrec attempt_hops ::
    "nat \<Rightarrow> 'w adapter \<Rightarrow> provider_policy \<Rightarrow> indicator_data \<Rightarrow> request \<Rightarrow> string \<Rightarrow> string \<Rightarrow> int \<Rightarrow> int
      \<Rightarrow> ('w, lookup_result) net" where
  "attempt_hops 0 ad pol i q host target deadline attempts = refuse REDIRECT_POLICY_REJECTION HTTP_3XX"
| "attempt_hops (Suc hops) ad pol i q host target deadline attempts =
     net_bind (exchange_once ad pol q host target deadline) (\<lambda>re.
     net_bind (remaining ad deadline) (\<lambda>_.
       if 300 \<le> re_status re \<and> re_status re < 400
       then net_bind (check_net (pp_redirects pol \<noteq> ''DO_NOT_FOLLOW'' \<and> hops \<noteq> 0) REDIRECT_POLICY_REJECTION
                        (status_category (re_status re))) (\<lambda>_.
            net_bind (lift_net (redirect_target (ap_lib ad) pol host target (map_of (re_headers re) ''location''))) (\<lambda>(host', target').
              attempt_hops hops ad pol i q host' target' deadline attempts))
       else accept_payload ad pol i deadline attempts re))"

definition attempt_lookup ::
    "'w adapter \<Rightarrow> provider_policy \<Rightarrow> indicator_data \<Rightarrow> request \<Rightarrow> int \<Rightarrow> int \<Rightarrow> ('w, lookup_result) net" where
  "attempt_lookup ad pol i q deadline attempts =
     attempt_hops (nat (li_hops (ap_limits ad) + 1)) ad pol i q (qr_host q) (qr_target q) deadline attempts"

section \<open>The lookup\<close>

definition retry_wait :: "limits \<Rightarrow> int \<Rightarrow> int" where
  "retry_wait li attempts = min (li_backoff_initial li * 2 ^ nat (attempts - 1)) (li_backoff_max li)"

type_synonym 'w state = "'w \<times> net_event list"

definition read_time :: "('w \<Rightarrow> int \<times> 'w) \<Rightarrow> 'w state \<Rightarrow> int \<times> 'w state" where
  "read_time clock s = (case s of (w, log) \<Rightarrow> (case clock w of (t, w') \<Rightarrow> (t, (w', log))))"

text \<open>The body of the loop for one attempt: a result, an exception that escapes, or to go on after a pause.\<close>

definition try_once ::
    "'w adapter \<Rightarrow> provider_policy \<Rightarrow> indicator_data \<Rightarrow> request \<Rightarrow> int \<Rightarrow> int \<Rightarrow> 'w state
      \<Rightarrow> (exc + lookup_result) option \<times> 'w state" where
  "try_once ad pol i q deadline attempts s =
     (case net_bind (world_step (sm_clock (ap_seams ad)))
             (\<lambda>t. net_bind (check_net (t < deadline) TIMEOUT NO_RESPONSE)
                (\<lambda>_. attempt_lookup ad pol i q deadline attempts)) s of
        (Inr result, s') \<Rightarrow> (Some (Inr result), s')
      | (Inl (Uncaught e), s') \<Rightarrow> (Some (Inl e), s')
      | (Inl (Refused c rc), s') \<Rightarrow>
          if \<not> (fa_retry (FAILURES c) \<and> pp_retry_safe pol \<and> attempts < li_attempts (ap_limits ad))
          then (if rc = NO_RESPONSE then (Some (Inr (failed_result c rc attempts None)), s')
                else case read_time (sm_now (ap_seams ad)) s' of
                       (t, s'') \<Rightarrow> (Some (Inr (failed_result c rc attempts (Some t))), s''))
          else (case read_time (sm_clock (ap_seams ad)) s' of
                  (t, s'') \<Rightarrow>
                    if deadline \<le> t + retry_wait (ap_limits ad) attempts
                    then (Some (Inr (failed_result c rc attempts None)), s'')
                    else (None, (sm_sleep (ap_seams ad) (retry_wait (ap_limits ad) attempts) (fst s''), snd s''))))"

lemma try_again_bounded: "try_once ad pol i q deadline attempts s = (None, s') \<Longrightarrow> attempts < li_attempts (ap_limits ad)"
  by (auto simp: try_once_def split: prod.splits sum.splits refusal.splits if_splits)

function lookup_loop ::
    "'w adapter \<Rightarrow> provider_policy \<Rightarrow> indicator_data \<Rightarrow> request \<Rightarrow> int \<Rightarrow> int \<Rightarrow> 'w state
      \<Rightarrow> (exc + lookup_result) \<times> 'w state" where
  "lookup_loop ad pol i q deadline attempts s =
     (case try_once ad pol i q deadline attempts s of
        (Some result, s') \<Rightarrow> (result, s')
      | (None, s') \<Rightarrow> lookup_loop ad pol i q deadline (attempts + 1) s')"
  by pat_completeness auto
termination
  by (relation "measure (\<lambda>(ad, _, _, _, _, attempts, _). nat (li_attempts (ap_limits ad) - attempts))")
    (auto dest!: try_again_bounded [OF sym] try_again_bounded)

declare lookup_loop.simps [simp del]

definition lookup ::
    "'w adapter \<Rightarrow> provider_policy \<Rightarrow> indicator_data \<Rightarrow> 'w \<Rightarrow> (exc + lookup_result) \<times> 'w state" where
  "lookup ad pol i w =
     (case read_time (sm_clock (ap_seams ad)) (w, []) of
        (t, s) \<Rightarrow>
          (case prepare_request ad pol i of
             Inl (Refused c rc) \<Rightarrow> (Inr (failed_result c rc 0 None), s)
           | Inl (Uncaught e) \<Rightarrow> (Inl e, s)
           | Inr q \<Rightarrow> lookup_loop ad pol i q (t + li_overall (ap_limits ad)) 1 s))"

end
