(* ===== verification/EgressProps.thy ===== *)
theory EgressProps
  imports EgressLookup
begin

text \<open>
  What a lookup can reach: every connection goes to a permitted address of the approved host and port, every
  exchange sends the prepared request below the approved path, and their number is bounded.
\<close>

section \<open>Events of a step\<close>

fun is_exchange :: "net_event \<Rightarrow> bool" where
  "is_exchange (Exchange c m q t) = True"
| "is_exchange _ = False"

definition extends :: "(net_event \<Rightarrow> bool) \<Rightarrow> nat \<Rightarrow> net_event list \<Rightarrow> net_event list \<Rightarrow> bool" where
  "extends P n log log' \<longleftrightarrow> (\<exists>es. log' = log @ es \<and> list_all P es \<and> length (filter is_exchange es) \<le> n)"

lemma extends_refl: "extends P n log log"
  by (simp add: extends_def)

lemma extends_trans: "extends P n a b \<Longrightarrow> extends P k b c \<Longrightarrow> extends P (n + k) a c"
  by (fastforce simp: extends_def)

lemma extends_mono: "extends P n a b \<Longrightarrow> n \<le> k \<Longrightarrow> extends P k a b"
  by (fastforce simp: extends_def)

definition spends :: "(net_event \<Rightarrow> bool) \<Rightarrow> nat \<Rightarrow> ('w, 'a) net \<Rightarrow> bool" where
  "spends P n m \<longleftrightarrow> (\<forall>s r s'. m s = (r, s') \<longrightarrow> extends P n (snd s) (snd s'))"

definition gives :: "('a \<Rightarrow> bool) \<Rightarrow> ('w, 'a) net \<Rightarrow> bool" where
  "gives Q m \<longleftrightarrow> (\<forall>s a s'. m s = (Inr a, s') \<longrightarrow> Q a)"

lemma spends_basic:
  "spends P 0 (net_return a)" "spends P 0 (refuse c rc)" "spends P 0 (check_net b c rc)" "spends P 0 (lift_net x)"
  "spends P 0 (world_step f)" "spends P 0 (transported t)"
  by (auto simp: spends_def net_return_def refuse_def check_net_def lift_net_def world_step_def transported_def extends_refl
      split: prod.splits sum.splits)

lemma spends_note: "P e \<Longrightarrow> spends P (if is_exchange e then 1 else 0) (note_event e)"
  by (auto simp: spends_def note_event_def extends_def)

lemma spends_bind:
  assumes "spends P n m" "gives Q m" "\<And>a. Q a \<Longrightarrow> spends P k (f a)"
  shows "spends P (n + k) (net_bind m f)"
  unfolding spends_def
proof (intro allI impI)
  fix s r s' assume r: "net_bind m f s = (r, s')"
  obtain x s1 where m: "m s = (x, s1)" by (cases "m s")
  then have e: "extends P n (snd s) (snd s1)" using assms(1) unfolding spends_def by blast
  show "extends P (n + k) (snd s) (snd s')"
  proof (cases x)
    case (Inl a)
    with r m e show ?thesis by (auto simp: net_bind_def intro: extends_mono)
  next
    case (Inr a)
    then have "Q a" using m assms(2) unfolding gives_def by blast
    from assms(3) [OF this] have "spends P k (f a)" .
    moreover have "f a s1 = (r, s')" using r m Inr by (simp add: net_bind_def)
    ultimately have "extends P k (snd s1) (snd s')" unfolding spends_def by blast
    with e show ?thesis by (rule extends_trans)
  qed
qed

lemma spends_step:
  "spends P 0 m \<Longrightarrow> gives Q m \<Longrightarrow> (\<And>a. Q a \<Longrightarrow> spends P k (f a)) \<Longrightarrow> spends P k (net_bind m f)"
  using spends_bind [of P 0 m Q k f] by simp

lemma spends_mono: "spends P n m \<Longrightarrow> n \<le> k \<Longrightarrow> spends P k m"
  by (meson spends_def extends_mono)

lemma gives_any: "gives (\<lambda>_. True) m"
  by (simp add: gives_def)

lemma gives_bind: "(\<And>a. gives Q (f a)) \<Longrightarrow> gives Q (net_bind m f)"
  by (auto simp: gives_def net_bind_def split: prod.splits sum.splits)

lemma gives_basic: "Q a \<Longrightarrow> gives Q (net_return a)" "gives Q (refuse c rc)"
  by (auto simp: gives_def net_return_def refuse_def)

lemma gives_check: "gives (\<lambda>_. b) (check_net b c rc)"
  by (auto simp: gives_def check_net_def net_return_def refuse_def)

lemma gives_lift: "(\<And>a. x = Inr a \<Longrightarrow> Q a) \<Longrightarrow> gives Q (lift_net x)"
  by (auto simp: gives_def lift_net_def)

section \<open>Steps of the lookup\<close>

lemma spends_next: "spends P 0 m \<Longrightarrow> (\<And>a. spends P k (f a)) \<Longrightarrow> spends P k (net_bind m f)"
  by (rule spends_step [OF _ gives_any])

lemma spends_event: "P e \<Longrightarrow> \<not> is_exchange e \<Longrightarrow> (\<And>a. spends P k (f a)) \<Longrightarrow> spends P k (net_bind (note_event e) f)"
  using spends_note [of P e] by (intro spends_next) simp_all

lemma spends_exchange: "P e \<Longrightarrow> is_exchange e \<Longrightarrow> (\<And>a. spends P 0 (f a)) \<Longrightarrow> spends P 1 (net_bind (note_event e) f)"
  using spends_bind [OF spends_note [of P e] gives_any, of 0 f] by simp

lemma remaining_spends: "spends P 0 (remaining ad d)"
  unfolding remaining_def by (rule spends_next [OF spends_basic(5)]) (simp add: spends_basic)

lemma remaining_gives: "gives (\<lambda>left. 0 < left) (remaining ad d)"
  unfolding remaining_def by (rule gives_bind) (simp add: gives_basic)

text \<open>An event the policy allows: timeouts within the limits, the approved destination and a permitted address.\<close>

definition target_ok :: "provider_policy \<Rightarrow> request \<Rightarrow> string \<Rightarrow> bool" where
  "target_ok pol q t \<longleftrightarrow> t = qr_target q \<or>
     (\<exists>path query. within_prefix path (pp_path_prefix pol) \<and> t = path @ query \<and> (query = [] \<or> hd query = CHR ''?''))"

definition destination_ok :: "'w adapter \<Rightarrow> provider_policy \<Rightarrow> connection \<Rightarrow> bool" where
  "destination_ok ad pol c \<longleftrightarrow> permitted ad (cn_address c) \<and> cn_port c = pp_port pol \<and> cn_server c = pp_host pol \<and>
     cn_proxy c = pp_proxy pol"

fun event_ok :: "'w adapter \<Rightarrow> provider_policy \<Rightarrow> request \<Rightarrow> net_event \<Rightarrow> bool" where
  "event_ok ad pol q (Resolve h t) = (h = pp_host pol \<and> 0 < t \<and> t \<le> li_connect (ap_limits ad))"
| "event_ok ad pol q (Connect c t) = (destination_ok ad pol c \<and> 0 < t \<and> t \<le> li_connect (ap_limits ad))"
| "event_ok ad pol q (Exchange c m r t) =
     (destination_ok ad pol c \<and> m = pp_method pol \<and> target_ok pol q (qr_target r) \<and> qr_headers r = qr_headers q \<and>
      qr_body r = qr_body q \<and> 0 < t \<and> t \<le> li_read (ap_limits ad))"

lemma sorted_head: "xs \<noteq> [] \<Longrightarrow> hd (sort xs) \<in> set xs"
  by (metis hd_in_set length_0_conv length_sort set_sort)

lemma resolve_spends: "0 < li_connect (ap_limits ad) \<Longrightarrow> h = pp_host pol \<Longrightarrow> spends (event_ok ad pol q) 0 (resolve_validated ad h d)"
  unfolding resolve_validated_def Let_def
  by (rule spends_step [OF remaining_spends remaining_gives], rule spends_event, simp_all)
    (intro spends_next spends_basic remaining_spends; auto simp: spends_basic remaining_spends intro!: spends_next split: sum.splits option.splits)

lemma resolve_gives: "gives (permitted ad) (resolve_validated ad h d)"
proof -
  have "permitted ad (hd (sort (map or_empty xs)))" if "xs \<noteq> []" "list_all (answer_ok ad) xs" for xs
  proof -
    have "hd (sort (map or_empty xs)) \<in> set (map or_empty xs)" by (rule sorted_head) (use that(1) in simp)
    then obtain a where "a \<in> set xs" "hd (sort (map or_empty xs)) = or_empty a" by auto
    moreover from this(1) that(2) obtain t where "a = Some t" "permitted ad t"
      by (auto simp: list_all_iff answer_ok_def split: option.splits)
    ultimately show ?thesis by (simp add: or_empty_def)
  qed
  then show ?thesis unfolding resolve_validated_def Let_def
    by (auto intro!: gives_bind gives_basic split: sum.splits option.splits)
qed

lemma exchange_spends:
  assumes "limits_ok (ap_limits ad)" "host = pp_host pol" "target_ok pol q target"
  shows "spends (event_ok ad pol q) 1 (exchange_once ad pol q host target d)"
proof -
  have li: "0 < li_connect (ap_limits ad)" "0 < li_read (ap_limits ad)" using assms(1) by (auto simp: limits_ok_def)
  show ?thesis unfolding exchange_once_def Let_def
    apply (rule spends_step [OF resolve_spends [OF li(1) assms(2)] resolve_gives])
    apply (rule spends_step [OF remaining_spends remaining_gives])
    apply (rule spends_event)
      apply (use li assms in \<open>simp add: destination_ok_def\<close>)
     apply simp
    apply (rule spends_next [OF spends_basic(5)])
    apply (rule spends_next [OF spends_basic(6)])
    apply (rule spends_next [OF spends_basic(3)])
    apply (rule spends_step [OF remaining_spends remaining_gives])
    apply (rule spends_exchange)
      apply (use li assms in \<open>simp add: destination_ok_def\<close>)
     apply simp
    apply (rule spends_next [OF spends_basic(5)])
    apply (rule spends_basic(6))
    done
qed

lemma redirected_target:
  "within_prefix path (pp_path_prefix pol) \<Longrightarrow> target_ok pol q path"
  "within_prefix path (pp_path_prefix pol) \<Longrightarrow> target_ok pol q (path @ CHR ''?'' # query)"
  by (auto simp: target_ok_def intro: exI [of _ path] exI [of _ "[]"])

lemma redirect_ok:
  assumes "redirect_target lib pol host target loc = Inr (host', target')"
  shows "host' = pp_host pol" "target_ok pol q target'"
  using assms
  by (auto simp: redirect_target_def bad_redirect_def parsed_url_def res_simps Let_def intro: redirected_target
      split: if_splits option.splits sum.splits)

lemma accept_spends: "spends P 0 (accept_payload ad pol i d n re)"
  unfolding accept_payload_def Let_def
  by (intro spends_next spends_basic remaining_spends)

lemma hops_spends:
  assumes "limits_ok (ap_limits ad)"
  shows "host = pp_host pol \<Longrightarrow> target_ok pol q target \<Longrightarrow>
    spends (event_ok ad pol q) hops (attempt_hops hops ad pol i q host target d n)"
proof (induction hops arbitrary: host target)
  case 0
  then show ?case by (simp add: spends_basic)
next
  case (Suc hops)
  have "spends (event_ok ad pol q) (1 + hops) (attempt_hops (Suc hops) ad pol i q host target d n)"
    unfolding attempt_hops.simps
  proof (rule spends_bind [OF exchange_spends [OF assms Suc.prems] gives_any], rule spends_next [OF remaining_spends])
    fix re :: response
    let ?r = "redirect_target (ap_lib ad) pol host target (map_of (re_headers re) ''location'')"
    have "spends (event_ok ad pol q) hops (net_bind (lift_net ?r) (\<lambda>(host', target'). attempt_hops hops ad pol i q host' target' d n))"
      by (rule spends_step [where Q = "\<lambda>x. ?r = Inr x"])
        (auto intro: spends_basic gives_lift Suc.IH dest: redirect_ok)
    then show "spends (event_ok ad pol q) hops
       (if 300 \<le> re_status re \<and> re_status re < 400
        then net_bind (check_net (pp_redirects pol \<noteq> ''DO_NOT_FOLLOW'' \<and> hops \<noteq> 0) REDIRECT_POLICY_REJECTION
               (status_category (re_status re))) (\<lambda>_. net_bind (lift_net ?r) (\<lambda>(host', target'). attempt_hops hops ad pol i q host' target' d n))
        else accept_payload ad pol i d n re)"
      by (auto intro: spends_next spends_basic spends_mono accept_spends)
  qed
  then show ?case by simp
qed

section \<open>Whole lookups\<close>

lemma try_spends:
  assumes "limits_ok (ap_limits ad)" "qr_host q = pp_host pol"
    and "try_once ad pol i q deadline attempts s = (r, s')"
  shows "extends (event_ok ad pol q) (nat (li_hops (ap_limits ad) + 1)) (snd s) (snd s')"
proof -
  let ?m = "net_bind (world_step (sm_clock (ap_seams ad)))
    (\<lambda>t. net_bind (check_net (t < deadline) TIMEOUT NO_RESPONSE) (\<lambda>_. attempt_lookup ad pol i q deadline attempts))"
  have "spends (event_ok ad pol q) (nat (li_hops (ap_limits ad) + 1)) ?m"
    unfolding attempt_lookup_def
    by (intro spends_next spends_basic hops_spends [OF assms(1) assms(2)]) (simp add: target_ok_def)
  moreover obtain x s1 where m: "?m s = (x, s1)" by (cases "?m s")
  ultimately have e: "extends (event_ok ad pol q) (nat (li_hops (ap_limits ad) + 1)) (snd s) (snd s1)"
    unfolding spends_def by blast
  have "snd s' = snd s1"
    using assms(3) unfolding try_once_def m
    by (auto simp: read_time_def split: prod.splits sum.splits refusal.splits if_splits)
  with e show ?thesis by simp
qed

text \<open>An attempt number within the bound; the exchanges of the loop from there on.\<close>

lemma loop_spends:
  assumes "limits_ok (ap_limits ad)" "qr_host q = pp_host pol" "1 \<le> attempts" "attempts \<le> li_attempts (ap_limits ad)"
    and "lookup_loop ad pol i q deadline attempts s = (r, s')"
  shows "extends (event_ok ad pol q)
      (nat (li_attempts (ap_limits ad) - attempts + 1) * nat (li_hops (ap_limits ad) + 1)) (snd s) (snd s')"
  using assms
proof (induction ad pol i q deadline attempts s arbitrary: r s' rule: lookup_loop.induct)
  case (1 ad pol i q deadline attempts s)
  let ?h = "nat (li_hops (ap_limits ad) + 1)"
  obtain x s1 where t: "try_once ad pol i q deadline attempts s = (x, s1)" by (cases "try_once ad pol i q deadline attempts s")
  note e = try_spends [OF 1(2,3) t]
  have n: "nat (li_attempts (ap_limits ad) - attempts + 1) = Suc (nat (li_attempts (ap_limits ad) - attempts))"
    using 1(5) by simp
  show ?case
  proof (cases x)
    case None
    note b = try_again_bounded [OF t [unfolded None]]
    have "lookup_loop ad pol i q deadline (attempts + 1) s1 = (r, s')"
      using 1(6) by (simp add: lookup_loop.simps [of ad pol i q deadline attempts s] t None)
    from 1(1) [OF t [symmetric] None 1(2,3) _ _ this] b 1(4)
    have "extends (event_ok ad pol q) (nat (li_attempts (ap_limits ad) - attempts) * ?h) (snd s1) (snd s')" by simp
    with e have "extends (event_ok ad pol q) (?h + nat (li_attempts (ap_limits ad) - attempts) * ?h) (snd s) (snd s')"
      by (rule extends_trans)
    then show ?thesis by (simp add: n)
  next
    case (Some a)
    then have "s' = s1" using 1(6) by (simp add: lookup_loop.simps [of ad pol i q deadline attempts s] t)
    with e show ?thesis by (auto simp: n intro: extends_mono)
  qed
qed

lemma prepare_host:
  assumes "prepare_request ad pol i = Inr q"
  shows "canonical_host (ln_idna (ap_lib ad)) (JStr (pp_host pol)) = Inr (qr_host q)"
  using assms by (auto simp: prepare_request_def Let_def res_simps split: if_splits)

lemma lookup_log:
  assumes "limits_ok (ap_limits ad)" "canonical_host (ln_idna (ap_lib ad)) (JStr (pp_host pol)) = Inr (pp_host pol)"
    and "lookup ad pol i w = (r, w', log)"
  shows "log = [] \<or> (\<exists>q. prepare_request ad pol i = Inr q \<and> list_all (event_ok ad pol q) log \<and>
    int (length (filter is_exchange log)) \<le> li_attempts (ap_limits ad) * (li_hops (ap_limits ad) + 1))"
proof (cases "prepare_request ad pol i")
  case (Inl e)
  with assms(3) show ?thesis by (cases e) (auto simp: lookup_def read_time_def split: prod.splits)
next
  case (Inr q)
  have h: "qr_host q = pp_host pol" using prepare_host [OF Inr] assms(2) by simp
  have li: "1 \<le> li_attempts (ap_limits ad)" "0 \<le> li_hops (ap_limits ad)" using assms(1) by (auto simp: limits_ok_def)
  obtain t w1 where c: "sm_clock (ap_seams ad) w = (t, w1)" by (cases "sm_clock (ap_seams ad) w")
  have "lookup_loop ad pol i q (t + li_overall (ap_limits ad)) 1 (w1, []) = (r, w', log)"
    using assms(3) by (simp add: lookup_def read_time_def c Inr)
  from loop_spends [OF assms(1) h _ li(1) this]
  have "extends (event_ok ad pol q) (nat (li_attempts (ap_limits ad)) * nat (li_hops (ap_limits ad) + 1)) [] log" by simp
  then have e: "list_all (event_ok ad pol q) log"
      "length (filter is_exchange log) \<le> nat (li_attempts (ap_limits ad)) * nat (li_hops (ap_limits ad) + 1)"
    by (auto simp: extends_def)
  have "int (nat (li_attempts (ap_limits ad)) * nat (li_hops (ap_limits ad) + 1)) =
      li_attempts (ap_limits ad) * (li_hops (ap_limits ad) + 1)"
    using li by simp
  then have "int (length (filter is_exchange log)) \<le> li_attempts (ap_limits ad) * (li_hops (ap_limits ad) + 1)"
    using e(2) by (metis of_nat_mono)
  with e(1) Inr show ?thesis by blast
qed

section \<open>Results\<close>

text \<open>What a result may say: a success is a validated response of a known entry, a failure says nothing.\<close>

definition result_ok :: "int \<Rightarrow> lookup_result \<Rightarrow> bool" where
  "result_ok most r \<longleftrightarrow>
     0 \<le> lr_attempts r \<and> lr_attempts r \<le> most \<and>
     (case lr_category r of
        None \<Rightarrow>
          lr_status r = SUCCEEDED \<and> lr_response r = HTTP_2XX \<and>
          enum_triple_ok (if lr_outcome r = FOUND then ''FOUND'' else ''NOT_FOUND'') (lr_reputation r) (lr_allowlist r) (lr_brand r) \<and>
          lr_outcome r \<in> {FOUND, NOT_FOUND}
      | Some c \<Rightarrow>
          lr_outcome r = fa_outcome (FAILURES c) \<and> lr_status r = fa_status (FAILURES c) \<and> lr_artifact r = None \<and>
          lr_reputation r = ''NOT_EVALUATED'' \<and> lr_allowlist r = ''NOT_EVALUATED'' \<and> lr_brand r = ''UNKNOWN'')"

lemma failed_result_ok: "0 \<le> n \<Longrightarrow> n \<le> most \<Longrightarrow> result_ok most (failed_result c rc n t)"
  by (simp add: result_ok_def failed_result_def)

lemma parser_triple:
  assumes "run_parser lib doc pol i now category = Inr p"
  shows "enum_triple_ok (np_outcome p) (np_reputation p) (np_allowlist p) (np_brand p)"
    "np_outcome p = ''FOUND'' \<or> np_outcome p = ''NOT_FOUND''"
proof -
  show e: "enum_triple_ok (np_outcome p) (np_reputation p) (np_allowlist p) (np_brand p)"
    using assms by (auto simp: run_parser_def fixture_parser_def Let_def split: if_splits option.splits)
  then show "np_outcome p = ''FOUND'' \<or> np_outcome p = ''NOT_FOUND''"
    by (auto simp: enum_triple_ok_def ALLOWED_def split: if_splits)
qed

lemma gives_after: "gives Q m \<Longrightarrow> (\<And>a. Q a \<Longrightarrow> gives R (f a)) \<Longrightarrow> gives R (net_bind m f)"
  by (fastforce simp: gives_def net_bind_def split: prod.splits sum.splits)

lemma accept_gives:
  assumes "0 \<le> n" "n \<le> most"
  shows "gives (result_ok most) (accept_payload ad pol i d n re)"
  unfolding accept_payload_def Let_def
  apply (rule gives_bind, rule gives_bind, rule gives_bind)
  apply (rule gives_after [OF gives_check])
  apply (rule gives_bind, rule gives_bind, rule gives_bind, rule gives_bind, rule gives_bind)
  subgoal for _ _ _ _ _ _ _ doc now
    apply (rule gives_after [where Q = "\<lambda>p. run_parser (ap_lib ad) doc pol i now (status_category (re_status re)) = Inr p"])
     apply (simp add: gives_lift)
    apply (rule gives_bind, rule gives_bind, rule gives_basic)
    using assms parser_triple
    apply (fastforce simp: result_ok_def status_category_def)
    done
  done

lemma hops_gives:
  assumes "0 \<le> n" "n \<le> most"
  shows "gives (result_ok most) (attempt_hops hops ad pol i q host target d n)"
proof (induction hops arbitrary: host target)
  case 0
  then show ?case by (simp add: gives_basic)
next
  case (Suc hops)
  then show ?case unfolding attempt_hops.simps
    using accept_gives [OF assms] by (auto intro!: gives_bind split: prod.splits)
qed

lemma try_result:
  assumes "0 \<le> n" "n \<le> most" "try_once ad pol i q deadline n s = (Some (Inr r), s')"
  shows "result_ok most r"
proof -
  let ?m = "net_bind (world_step (sm_clock (ap_seams ad)))
    (\<lambda>t. net_bind (check_net (t < deadline) TIMEOUT NO_RESPONSE) (\<lambda>_. attempt_lookup ad pol i q deadline n))"
  have "gives (result_ok most) ?m"
    unfolding attempt_lookup_def by (intro gives_bind hops_gives [OF assms(1,2)])
  moreover obtain x s1 where m: "?m s = (x, s1)" by (cases "?m s")
  ultimately have "x = Inr r' \<Longrightarrow> result_ok most r'" for r' unfolding gives_def by blast
  then show ?thesis
    using assms(3) failed_result_ok [OF assms(1,2)] unfolding try_once_def m
    by (auto split: prod.splits sum.splits refusal.splits if_splits)
qed

lemma loop_result:
  assumes "1 \<le> attempts" "attempts \<le> li_attempts (ap_limits ad)"
    and "lookup_loop ad pol i q deadline attempts s = (Inr r, s')"
  shows "result_ok (li_attempts (ap_limits ad)) r"
  using assms
proof (induction ad pol i q deadline attempts s arbitrary: r s' rule: lookup_loop.induct)
  case (1 ad pol i q deadline attempts s)
  obtain x s1 where t: "try_once ad pol i q deadline attempts s = (x, s1)" by (cases "try_once ad pol i q deadline attempts s")
  show ?case
  proof (cases x)
    case None
    have "lookup_loop ad pol i q deadline (attempts + 1) s1 = (Inr r, s')"
      using 1(4) by (simp add: lookup_loop.simps [of ad pol i q deadline attempts s] t None)
    from 1(1) [OF t [symmetric] None _ _ this] try_again_bounded [OF t [unfolded None]] 1(2) show ?thesis by simp
  next
    case (Some a)
    then have a: "a = Inr r" using 1(4) by (simp add: lookup_loop.simps [of ad pol i q deadline attempts s] t)
    with try_result [OF _ 1(3) t [unfolded Some a]] 1(2) show ?thesis by simp
  qed
qed

lemma lookup_result:
  assumes "limits_ok (ap_limits ad)" "lookup ad pol i w = (Inr r, s')"
  shows "result_ok (li_attempts (ap_limits ad)) r"
proof -
  have "1 \<le> li_attempts (ap_limits ad)" using assms(1) by (simp add: limits_ok_def)
  then show ?thesis using assms(2) loop_result [of 1 ad] failed_result_ok
    by (auto simp: lookup_def split: prod.splits sum.splits refusal.splits)
qed

section \<open>Exceptions\<close>

text \<open>The exceptions a step lets escape.\<close>

definition escapes :: "(exc \<Rightarrow> bool) \<Rightarrow> ('w, 'a) net \<Rightarrow> bool" where
  "escapes E m \<longleftrightarrow> (\<forall>s e s'. m s = (Inl (Uncaught e), s') \<longrightarrow> E e)"

lemma escapes_bind: "escapes E m \<Longrightarrow> (\<And>a. escapes E (f a)) \<Longrightarrow> escapes E (net_bind m f)"
  by (fastforce simp: escapes_def net_bind_def split: prod.splits sum.splits)

lemma escapes_basic:
  "escapes E (net_return a)" "escapes E (refuse c rc)" "escapes E (check_net b c rc)" "escapes E (world_step f)"
  "escapes E (note_event ev)" "escapes E (transported t)"
  by (auto simp: escapes_def net_return_def refuse_def check_net_def world_step_def note_event_def transported_def
      split: prod.splits sum.splits)

lemma escapes_lift: "(\<And>e. x = Inl (Uncaught e) \<Longrightarrow> E e) \<Longrightarrow> escapes E (lift_net x)"
  by (auto simp: escapes_def lift_net_def)

lemma escapes_remaining: "escapes E (remaining ad d)"
  unfolding remaining_def by (intro escapes_bind escapes_basic) (simp add: escapes_basic)

lemma escapes_resolve: "escapes E (resolve_validated ad h d)"
  unfolding resolve_validated_def Let_def
  by (auto intro!: escapes_bind escapes_basic escapes_remaining split: sum.splits option.splits)

lemma escapes_exchange: "escapes E (exchange_once ad pol q h t d)"
  unfolding exchange_once_def Let_def
  by (intro escapes_bind escapes_basic escapes_remaining escapes_resolve)

lemma contained_results:
  "decode_body ad re \<noteq> Inl (Uncaught e)" "run_parser lib doc pol i now c \<noteq> Inl (Uncaught e)"
  "canonical_host idna j \<noteq> Inl (Uncaught e)"
  by (auto simp: decode_body_def run_parser_def fixture_parser_def canonical_host_def Let_def res_simps
      split: if_splits option.splits inflated.splits json.splits)

lemma escapes_accept: "escapes E (accept_payload ad pol i d n re)"
  unfolding accept_payload_def Let_def
  by (intro escapes_bind escapes_basic escapes_remaining escapes_lift) (auto simp: contained_results split: option.splits)

text \<open>Only the URL of a redirect that the policy lets the adapter follow raises.\<close>

definition url_error :: "provider_policy \<Rightarrow> exc \<Rightarrow> bool" where
  "url_error pol e \<longleftrightarrow> e = ValueError ''Invalid IPv6 URL'' \<and> pp_redirects pol \<noteq> ''DO_NOT_FOLLOW''"

lemma redirect_error: "redirect_target lib pol h t loc = Inl (Uncaught e) \<Longrightarrow> e = ValueError ''Invalid IPv6 URL''"
  by (auto simp: redirect_target_def bad_redirect_def parsed_url_def res_simps Let_def split: if_splits option.splits sum.splits)

lemma escapes_checked: "(b \<Longrightarrow> escapes E (f ())) \<Longrightarrow> escapes E (net_bind (check_net b c rc) f)"
  by (cases b) (auto simp: escapes_def net_bind_def check_net_def net_return_def refuse_def)

lemma escapes_hops: "escapes (url_error pol) (attempt_hops hops ad pol i q host target d n)"
proof (induction hops arbitrary: host target)
  case 0
  then show ?case by (simp add: escapes_basic)
next
  case (Suc hops)
  then show ?case unfolding attempt_hops.simps
    by (auto intro!: escapes_bind escapes_exchange escapes_remaining escapes_checked escapes_lift escapes_accept
        simp: url_error_def dest: redirect_error split: prod.splits)
qed

lemma try_escapes: "try_once ad pol i q deadline n s = (Some (Inl e), s') \<Longrightarrow> url_error pol e"
proof -
  assume t: "try_once ad pol i q deadline n s = (Some (Inl e), s')"
  let ?m = "net_bind (world_step (sm_clock (ap_seams ad)))
    (\<lambda>t. net_bind (check_net (t < deadline) TIMEOUT NO_RESPONSE) (\<lambda>_. attempt_lookup ad pol i q deadline n))"
  have "escapes (url_error pol) ?m"
    unfolding attempt_lookup_def by (intro escapes_bind escapes_basic escapes_hops)
  moreover obtain x s1 where m: "?m s = (x, s1)" by (cases "?m s")
  ultimately have "x = Inl (Uncaught e') \<Longrightarrow> url_error pol e'" for e' unfolding escapes_def by blast
  then show "url_error pol e" using t unfolding try_once_def m
    by (auto split: prod.splits sum.splits refusal.splits if_splits)
qed

lemma loop_escapes: "lookup_loop ad pol i q deadline attempts s = (Inl e, s') \<Longrightarrow> url_error pol e"
proof (induction ad pol i q deadline attempts s arbitrary: s' rule: lookup_loop.induct)
  case (1 ad pol i q deadline attempts s)
  show ?case
    using 1(2) 1(1)
    by (auto simp: lookup_loop.simps [of ad pol i q deadline attempts s] split: prod.splits option.splits dest: try_escapes)
qed

lemma prepare_contained: "prepare_request ad pol i \<noteq> Inl (Uncaught e)"
  by (auto simp: prepare_request_def Let_def res_simps contained_results split: if_splits option.splits sum.splits)

lemma lookup_escapes: "lookup ad pol i w = (Inl e, s') \<Longrightarrow> url_error pol e"
  by (auto simp: lookup_def prepare_contained split: prod.splits sum.splits refusal.splits dest: loop_escapes)

section \<open>Termination\<close>

text \<open>The loop with a bound on its passes: \<open>None\<close> when the bound is spent before it returns.\<close>

primrec passes ::
    "nat \<Rightarrow> 'w adapter \<Rightarrow> provider_policy \<Rightarrow> indicator_data \<Rightarrow> request \<Rightarrow> int \<Rightarrow> int \<Rightarrow> 'w state
      \<Rightarrow> ((exc + lookup_result) \<times> 'w state) option" where
  "passes 0 ad pol i q deadline attempts s = None"
| "passes (Suc n) ad pol i q deadline attempts s =
     (case try_once ad pol i q deadline attempts s of
        (Some result, s') \<Rightarrow> Some (result, s')
      | (None, s') \<Rightarrow> passes n ad pol i q deadline (attempts + 1) s')"

lemma passes_enough:
  "li_attempts (ap_limits ad) - attempts < int n \<Longrightarrow>
     passes n ad pol i q deadline attempts s = Some (lookup_loop ad pol i q deadline attempts s)"
  if "attempts \<le> li_attempts (ap_limits ad)"
  using that
proof (induction n arbitrary: attempts s)
  case (Suc n)
  obtain x s1 where t: "try_once ad pol i q deadline attempts s = (x, s1)" by (cases "try_once ad pol i q deadline attempts s")
  show ?case
  proof (cases x)
    case None
    with t have "attempts < li_attempts (ap_limits ad)" by (auto dest: try_again_bounded)
    with Suc t None show ?thesis by (simp add: lookup_loop.simps [of ad pol i q deadline attempts s])
  next
    case (Some a)
    with t show ?thesis by (simp add: lookup_loop.simps [of ad pol i q deadline attempts s])
  qed
qed simp

lemma loop_ends:
  "limits_ok (ap_limits ad) \<Longrightarrow>
     passes (nat (li_attempts (ap_limits ad))) ad pol i q deadline 1 s = Some (lookup_loop ad pol i q deadline 1 s)"
  by (rule passes_enough) (auto simp: limits_ok_def)

end
