(* ===== verification/AddressProps.thy ===== *)
theory AddressProps
  imports Addresses
begin

text \<open>
  Networks as intervals, and the addresses the policy can let through: in none of the forbidden ranges, written
  as their first and last address.
\<close>

section \<open>Networks are intervals\<close>

lemma masked_drop:
  fixes w b :: "'a::len word"
  assumes "take_bit k b = 0"
  shows "w AND NOT (mask k) = b \<longleftrightarrow> drop_bit k w = drop_bit k b"
proof
  assume e: "w AND NOT (mask k) = b"
  show "drop_bit k w = drop_bit k b"
    unfolding e[symmetric] by (rule bit_eqI) (auto simp: bit_simps dest: bit_imp_le_length)
next
  assume e: "drop_bit k w = drop_bit k b"
  show "w AND NOT (mask k) = b"
  proof (rule bit_eqI)
    fix n
    assume n: "possible_bit TYPE('a word) n"
    have "bit (take_bit k b) n = False" using assms by simp
    moreover have "bit (drop_bit k w) (n - k) = bit (drop_bit k b) (n - k)" using e by simp
    ultimately show "bit (w AND NOT (mask k)) n = bit b n"
      using n by (cases "n < k") (auto simp: bit_simps)
  qed
qed

lemma uint_drop: "uint (drop_bit k w) = drop_bit k (uint w)" for w :: "'a::len word"
  by transfer (simp add: take_bit_drop_bit)

lemma masked_div:
  fixes w b :: "'a::len word"
  assumes "uint b mod 2 ^ k = 0"
  shows "w AND NOT (mask k) = b \<longleftrightarrow> uint w div 2 ^ k = uint b div 2 ^ k"
proof -
  have "uint (take_bit k b) = 0"
    using assms unsigned_take_bit_eq[of k b] take_bit_eq_mod[of k "uint b"] by metis
  then have "take_bit k b = 0" by (simp only: uint_0_iff)
  then have "w AND NOT (mask k) = b \<longleftrightarrow> drop_bit k w = drop_bit k b" by (rule masked_drop)
  also have "\<dots> \<longleftrightarrow> drop_bit k (uint w) = drop_bit k (uint b)"
    by (simp only: word_uint_eq_iff uint_drop)
  finally show ?thesis by (simp only: drop_bit_eq_div)
qed

lemma block_div:
  fixes x b m :: int
  assumes "0 < m" "b mod m = 0"
  shows "x div m = b div m \<longleftrightarrow> b \<le> x \<and> x \<le> b + (m - 1)"
proof -
  have b: "m * (b div m) = b" using mult_div_mod_eq[of m b] assms(2) by simp
  have x: "x = m * (x div m) + x mod m" by simp
  have "x div m = b div m \<longleftrightarrow> m * (b div m) \<le> x \<and> x < m * (b div m) + m"
  proof
    assume "x div m = b div m"
    then have "x = m * (b div m) + x mod m" using x by simp
    then show "m * (b div m) \<le> x \<and> x < m * (b div m) + m"
      using pos_mod_bound[OF assms(1), of x] pos_mod_sign[OF assms(1), of x] by linarith
  next
    assume "m * (b div m) \<le> x \<and> x < m * (b div m) + m"
    then show "x div m = b div m"
      by (intro int_div_pos_eq[of x m "b div m" "x - m * (b div m)"]) auto
  qed
  then show ?thesis unfolding b by auto
qed

definition between :: "address \<Rightarrow> address \<Rightarrow> address \<Rightarrow> bool" where
  "between lo hi a =
     (case (lo, hi, a) of
        (V4 l, V4 h, V4 w) \<Rightarrow> l \<le> w \<and> w \<le> h
      | (V6 l _, V6 h _, V6 w _) \<Rightarrow> l \<le> w \<and> w \<le> h
      | _ \<Rightarrow> False)"

lemma between_v4:
  assumes "uint l mod 2 ^ (32 - n) = 0" "uint h = uint l + (2 ^ (32 - n) - 1)"
  shows "between (V4 l) (V4 h) a \<longleftrightarrow> in_network a (N4 l n)"
proof (cases a)
  case (V4 w)
  then show ?thesis using assms
    by (simp add: between_def masked_div block_div word_le_def)
qed (simp add: between_def)

lemma between_v6:
  assumes "uint l mod 2 ^ (128 - n) = 0" "uint h = uint l + (2 ^ (128 - n) - 1)"
  shows "between (V6 l s) (V6 h t) a \<longleftrightarrow> in_network a (N6 l n)"
proof (cases a)
  case (V6 w)
  then show ?thesis using assms
    by (simp add: between_def masked_div block_div word_le_def)
qed (simp add: between_def)

section \<open>The forbidden ranges\<close>

text \<open>First and last address of every network the policy refuses, as texts.\<close>

definition RANGES_V4 :: "(string \<times> string) list" where
  "RANGES_V4 =
     [(''127.0.0.0'', ''127.255.255.255''),
      (''10.0.0.0'', ''10.255.255.255''),
      (''172.16.0.0'', ''172.31.255.255''),
      (''192.168.0.0'', ''192.168.255.255''),
      (''169.254.0.0'', ''169.254.255.255''),
      (''224.0.0.0'', ''239.255.255.255''),
      (''0.0.0.0'', ''0.255.255.255''),
      (''100.64.0.0'', ''100.127.255.255''),
      (''192.0.0.0'', ''192.0.0.255''),
      (''192.0.2.0'', ''192.0.2.255''),
      (''198.18.0.0'', ''198.19.255.255''),
      (''198.51.100.0'', ''198.51.100.255''),
      (''203.0.113.0'', ''203.0.113.255''),
      (''240.0.0.0'', ''255.255.255.255'')]"

definition RANGES_V6 :: "(string \<times> string) list" where
  "RANGES_V6 =
     [(''::'', ''::ffff:ffff''),
      (''::ffff:0.0.0.0'', ''::ffff:255.255.255.255''),
      (''64:ff9b::'', ''64:ff9b::ffff:ffff''),
      (''2002::'', ''2002:ffff:ffff:ffff:ffff:ffff:ffff:ffff''),
      (''2001::'', ''2001:0:ffff:ffff:ffff:ffff:ffff:ffff''),
      (''2001:db8::'', ''2001:db8:ffff:ffff:ffff:ffff:ffff:ffff''),
      (''100::'', ''100::ffff:ffff:ffff:ffff''),
      (''fc00::'', ''fdff:ffff:ffff:ffff:ffff:ffff:ffff:ffff''),
      (''fe80::'', ''febf:ffff:ffff:ffff:ffff:ffff:ffff:ffff''),
      (''ff00::'', ''ffff:ffff:ffff:ffff:ffff:ffff:ffff:ffff'')]"

definition FORBIDDEN_RANGES :: "(string \<times> string) list" where
  "FORBIDDEN_RANGES = RANGES_V4 @ RANGES_V6"

definition FORBIDDEN_NETWORKS :: "network list" where
  "FORBIDDEN_NETWORKS =
     [N4 (quad 127 0 0 0) 8, N4 (quad 10 0 0 0) 8, N4 (quad 172 16 0 0) 12, N4 (quad 192 168 0 0) 16,
      N4 (quad 169 254 0 0) 16, N4 (quad 224 0 0 0) 4, N4 (quad 0 0 0 0) 8, N4 (quad 100 64 0 0) 10,
      N4 (quad 192 0 0 0) 24, N4 (quad 192 0 2 0) 24, N4 (quad 198 18 0 0) 15, N4 (quad 198 51 100 0) 24,
      N4 (quad 203 0 113 0) 24, N4 (quad 240 0 0 0) 4,
      N6 0 96, N6 (v6_groups [0, 0, 0, 0, 0, 0xFFFF]) 96, N6 (v6_groups [0x64, 0xFF9B]) 96, N6 (v6_groups [0x2002]) 16,
      N6 (v6_groups [0x2001]) 32, N6 (v6_groups [0x2001, 0xDB8]) 32, N6 (v6_groups [0x100]) 64, N6 (v6_groups [0xFC00]) 7,
      N6 (v6_groups [0xFE80]) 10, N6 (v6_groups [0xFF00]) 8]"

definition ends_of :: "string \<times> string \<Rightarrow> address option \<times> address option" where
  "ends_of r = (parse_address (fst r), parse_address (snd r))"

definition in_range_of :: "address \<Rightarrow> string \<times> string \<Rightarrow> bool" where
  "in_range_of a r = (case ends_of r of (Some lo, Some hi) \<Rightarrow> between lo hi a | _ \<Rightarrow> False)"

text \<open>The ends are those of the network, so an address lies between them iff it is in the network.\<close>

fun spans :: "address option \<times> address option \<Rightarrow> network \<Rightarrow> bool" where
  "spans (Some (V4 l), Some (V4 h)) (N4 b n) =
     (l = b \<and> uint l mod 2 ^ (32 - n) = 0 \<and> uint h = uint l + (2 ^ (32 - n) - 1))"
| "spans (Some (V6 l None), Some (V6 h None)) (N6 b n) =
     (l = b \<and> uint l mod 2 ^ (128 - n) = 0 \<and> uint h = uint l + (2 ^ (128 - n) - 1))"
| "spans _ _ = False"

lemma spans_between: "spans (ends_of r) N \<Longrightarrow> in_range_of a r \<longleftrightarrow> in_network a N"
  by (cases "(ends_of r, N)" rule: spans.cases) (simp_all add: in_range_of_def between_v4 between_v6 del: mod_eq_0_iff_dvd)

lemma networks_exist: "list_all2 (\<lambda>r N. spans (ends_of r) N) rs Ns \<Longrightarrow>
    list_ex (in_range_of a) rs \<longleftrightarrow> list_ex (in_network a) Ns"
  by (induction rule: list_all2_induct) (simp_all add: spans_between)

lemma ends_v4: "map ends_of RANGES_V4 =
     [(Some (V4 2130706432), Some (V4 2147483647)),
      (Some (V4 167772160), Some (V4 184549375)),
      (Some (V4 2886729728), Some (V4 2887778303)),
      (Some (V4 3232235520), Some (V4 3232301055)),
      (Some (V4 2851995648), Some (V4 2852061183)),
      (Some (V4 3758096384), Some (V4 4026531839)),
      (Some (V4 0), Some (V4 16777215)),
      (Some (V4 1681915904), Some (V4 1686110207)),
      (Some (V4 3221225472), Some (V4 3221225727)),
      (Some (V4 3221225984), Some (V4 3221226239)),
      (Some (V4 3323068416), Some (V4 3323199487)),
      (Some (V4 3325256704), Some (V4 3325256959)),
      (Some (V4 3405803776), Some (V4 3405804031)),
      (Some (V4 4026531840), Some (V4 4294967295))]"
  by code_simp

lemma ends_v6a: "map ends_of (take 5 RANGES_V6) =
     [(Some (V6 0x0 None), Some (V6 0xFFFFFFFF None)),
      (Some (V6 0xFFFF00000000 None), Some (V6 0xFFFFFFFFFFFF None)),
      (Some (V6 0x64FF9B000000000000000000000000 None), Some (V6 0x64FF9B0000000000000000FFFFFFFF None)),
      (Some (V6 0x20020000000000000000000000000000 None), Some (V6 0x2002FFFFFFFFFFFFFFFFFFFFFFFFFFFF None)),
      (Some (V6 0x20010000000000000000000000000000 None), Some (V6 0x20010000FFFFFFFFFFFFFFFFFFFFFFFF None))]"
  by code_simp

lemma ends_v6b: "map ends_of (drop 5 RANGES_V6) =
     [(Some (V6 0x20010DB8000000000000000000000000 None), Some (V6 0x20010DB8FFFFFFFFFFFFFFFFFFFFFFFF None)),
      (Some (V6 0x1000000000000000000000000000000 None), Some (V6 0x100000000000000FFFFFFFFFFFFFFFF None)),
      (Some (V6 0xFC000000000000000000000000000000 None), Some (V6 0xFDFFFFFFFFFFFFFFFFFFFFFFFFFFFFFF None)),
      (Some (V6 0xFE800000000000000000000000000000 None), Some (V6 0xFEBFFFFFFFFFFFFFFFFFFFFFFFFFFFFF None)),
      (Some (V6 0xFF000000000000000000000000000000 None), Some (V6 0xFFFFFFFFFFFFFFFFFFFFFFFFFFFFFFFF None))]"
  by code_simp

lemma ends_v6: "map ends_of RANGES_V6 = map ends_of (take 5 RANGES_V6) @ map ends_of (drop 5 RANGES_V6)"
  by (simp only: map_append [symmetric] append_take_drop_id)

lemma zeros: "replicate 2 (0 :: int) = [0, 0]" "replicate 6 (0 :: int) = [0, 0, 0, 0, 0, 0]"
    "replicate 7 (0 :: int) = [0, 0, 0, 0, 0, 0, 0]"
  by (simp_all add: numeral_eq_Suc)

lemma ranges_are_networks: "list_all2 (\<lambda>r N. spans (ends_of r) N) FORBIDDEN_RANGES FORBIDDEN_NETWORKS"
proof -
  have "list_all2 spans (map ends_of FORBIDDEN_RANGES) FORBIDDEN_NETWORKS"
    by (simp add: FORBIDDEN_RANGES_def FORBIDDEN_NETWORKS_def ends_v4 ends_v6 ends_v6a ends_v6b quad_def v6_groups_def zeros)
  then show ?thesis by (simp add: list_all2_map1)
qed

section \<open>What the policy lets through\<close>

lemma not_in_networks:
  assumes "address_permitted is_global extra txt" "parse_address txt = Some a"
  shows "\<not> list_ex (in_network a) FORBIDDEN_NETWORKS"
  using assms
  by (cases a) (auto simp: address_permitted_def FORBIDDEN_NETWORKS_def DENIED_def EMBEDDED_V4_def)

lemma permitted_is_outside:
  assumes "address_permitted is_global extra txt" "parse_address txt = Some a"
  shows "\<not> list_ex (in_range_of a) FORBIDDEN_RANGES"
  using not_in_networks[OF assms] networks_exist[OF ranges_are_networks] by simp

lemma permitted_parses: "address_permitted is_global extra txt \<Longrightarrow> \<exists>a. parse_address txt = Some a \<and> is_global a"
  by (auto simp: address_permitted_def split: option.splits)

end
