(* ===== verification/EgressSamples.thy ===== *)
theory EgressSamples
  imports EgressProps AddressProps AiSamples
begin

text \<open>
  A loaded policy, and a world with a clock, in which a lookup finds its entry and another is redirected to a
  malformed location. What a loaded policy guarantees to the lookup.
\<close>

section \<open>Loaded policies\<close>

definition governed_policy :: "(string \<Rightarrow> string option) \<Rightarrow> provider_policy \<Rightarrow> bool" where
  "governed_policy idna pol \<longleftrightarrow>
     canonical_host idna (JStr (pp_host pol)) = Inr (pp_host pol) \<and> 1 \<le> pp_port pol \<and> pp_port pol \<le> 65535 \<and>
     path_prefix_ok (JStr (pp_path_prefix pol)) \<and> pp_method pol \<in> set METHODS \<and>
     pp_indicator_type pol \<in> set INDICATOR_TYPES \<and> pp_redirects pol \<in> set REDIRECT_POLICIES \<and>
     pp_parser pol \<in> set PARSER_VERSIONS \<and> (pp_auth_header pol = None \<longleftrightarrow> pp_credential pol = None)"

lemma valid_if_Inr: "valid_if b = Inr x \<longleftrightarrow> b"
  by (auto simp: valid_if_def)

lemma one_of_text: "one_of vs (jget d k) \<Longrightarrow> text_at (JObj d) k \<in> set vs"
  by (auto simp: one_of_def text_at_def at_key_def split: json.splits)

lemma same_text: "JStr h = jget d k \<Longrightarrow> text_at (JObj d) k = h"
  by (cases "jget d k") (auto simp: text_at_def at_key_def)

lemma prefix_text: "path_prefix_ok (jget d k) \<Longrightarrow> path_prefix_ok (JStr (text_at (JObj d) k))"
  by (auto simp: path_prefix_ok_def text_at_def at_key_def split: json.splits)

lemma credential_given: "credential_ok j = Inr u \<Longrightarrow> as_text j = None \<longleftrightarrow> j = JNull"
  by (auto simp: credential_ok_def as_text_def split: json.splits)

lemma header_given: "j \<noteq> JNull \<longrightarrow> one_of vs j \<Longrightarrow> as_text j = None \<longleftrightarrow> j = JNull"
  by (auto simp: one_of_def as_text_def split: json.splits)

lemma port_given: "(case int_like j of None \<Rightarrow> False | Some i \<Rightarrow> 1 \<le> i \<and> i \<le> 65535) \<Longrightarrow> 1 \<le> the (int_like j) \<and> the (int_like j) \<le> 65535"
  by (auto split: option.splits)

lemma host_given: "(case canonical_host idna j of Inl _ \<Rightarrow> Inl Invalid | Inr h \<Rightarrow> Inr h) = Inr h \<Longrightarrow> canonical_host idna j = Inr h"
  by (auto split: sum.splits)

lemma loaded_policy:
  assumes "load_policy idna ints doc = Inr pol"
  shows "governed_policy idna pol"
proof (cases doc)
  case (JObj d)
  with assms show ?thesis
    unfolding governed_policy_def load_policy_def
    apply (simp only: json.case res_simps Let_def valid_if_Inr sum.inject)
    apply (elim exE conjE)
    subgoal premises p for _ _ _ _ _ host _ _ _ _ proxy
    proof -
      have e: "(as_text (jget d ''authentication_header'') = None) = (as_text (jget d ''credential_ref'') = None)"
        using p credential_given [of "jget d ''credential_ref''"] header_given [of "jget d ''authentication_header''"] by blast
      have pol: "pp_host pol = host" "pp_port pol = the (int_like (jget d ''port''))"
        "pp_path_prefix pol = text_at (JObj d) ''path_prefix''" "pp_method pol = text_at (JObj d) ''method''"
        "pp_indicator_type pol = text_at (JObj d) ''indicator_type''" "pp_redirects pol = text_at (JObj d) ''redirect_policy''"
        "pp_parser pol = text_at (JObj d) ''parser_schema_version''"
        "pp_auth_header pol = as_text (jget d ''authentication_header'')" "pp_credential pol = as_text (jget d ''credential_ref'')"
        by (simp_all add: p(23) [symmetric])
      show ?thesis unfolding pol
        using p e by (auto dest!: host_given port_given prefix_text one_of_text same_text)
    qed
    done
qed (use assms in \<open>simp_all add: load_policy_def\<close>)

section \<open>A policy document\<close>

definition sample_document :: "string \<Rightarrow> json" where
  "sample_document redirects = JObj
     [(''provider_policy_ref'', JStr ''p1''), (''provider_policy_version'', JStr ''1''), (''provider_ref'', JStr ''fixture''),
      (''provider_category'', JStr ''REPUTATION_LOOKUP''), (''provider_operation'', JStr ''lookup''),
      (''indicator_type'', JStr ''HOSTNAME''), (''scheme'', JStr ''https''), (''host'', JStr ''api.example.org''),
      (''port'', JInt 443), (''path_prefix'', JStr ''/v1/lookup''), (''method'', JStr ''GET''),
      (''indicator_parameter'', JStr ''q''), (''expected_media_type'', JStr ''application/json''),
      (''parser_schema_version'', JStr ''TL-FIXTURE-PARSER-1.0.0''), (''redirect_policy'', JStr redirects),
      (''url_query_transmission'', JStr ''NOT_PERMITTED''), (''retry_safe'', JBool True), (''enabled'', JBool True)]"

definition sample_policy :: "string \<Rightarrow> provider_policy" where
  "sample_policy redirects =
     \<lparr>pp_policy_ref = ''p1'', pp_policy_version = ''1'', pp_provider_ref = ''fixture'', pp_category = ''REPUTATION_LOOKUP'',
      pp_operation = ''lookup'', pp_indicator_type = ''HOSTNAME'', pp_host = ''api.example.org'', pp_port = 443,
      pp_path_prefix = ''/v1/lookup'', pp_method = ''GET'', pp_parameter = ''q'', pp_parser = ''TL-FIXTURE-PARSER-1.0.0'',
      pp_redirects = redirects, pp_query = ''NOT_PERMITTED'', pp_retry_safe = True, pp_enabled = True,
      pp_auth_header = None, pp_credential = None, pp_proxy = None, pp_document = sample_document redirects\<rparr>"

definition no_idna :: "string \<Rightarrow> string option" where
  "no_idna s = None"

definition no_int :: "string \<Rightarrow> int option" where
  "no_int s = None"

lemma sample_host_canonical: "canonical_host no_idna (JStr ''api.example.org'') = Inr ''api.example.org''"
  by code_simp

lemma sample_fields: "list_all (\<lambda>(k, _). k \<in> set POLICY_FIELDS) (case sample_document r of JObj d \<Rightarrow> d | _ \<Rightarrow> [])"
  "list_all (\<lambda>k. case jget (case sample_document r of JObj d \<Rightarrow> d | _ \<Rightarrow> []) k of JStr s \<Rightarrow> governed_ref s | _ \<Rightarrow> False) GOVERNED_KEYS"
  "path_prefix_ok (JStr ''/v1/lookup'')"
  by code_simp+

lemma sample_json: "canonical_json (sample_document ''DO_NOT_FOLLOW'') = Inr (canonical_text (sample_document ''DO_NOT_FOLLOW''))"
  "canonical_json (sample_document ''REVALIDATE_WITHIN_PROVIDER_ALLOWLIST'') =
     Inr (canonical_text (sample_document ''REVALIDATE_WITHIN_PROVIDER_ALLOWLIST''))"
  by (rule small_json; simp add: sample_document_def MAX_STR_DIGITS_def list_all_iff MAX_CANONICAL_BYTES_def COPY_BUDGET_def)+

lemma sample_loads_policy:
  assumes "r = ''DO_NOT_FOLLOW'' \<or> r = ''REVALIDATE_WITHIN_PROVIDER_ALLOWLIST''"
  shows "load_policy no_idna no_int (sample_document r) = Inr (sample_policy r)"
proof -
  have "canonical_json (sample_document r) = Inr (canonical_text (sample_document r))" using assms sample_json by auto
  with sample_fields(1,2) [of r] show ?thesis
    using assms
    apply (simp add: load_policy_def sample_document_def jget_def one_of_def METHODS_def INDICATOR_TYPES_def PROVIDER_CATEGORIES_def
      REDIRECT_POLICIES_def int_like_def is_bool_def sample_host_canonical credential_ok_def PARSER_VERSIONS_def load_proxy_def
      sample_policy_def text_at_def at_key_def as_text_def valid_if_def sample_fields(3))
    done
qed

section \<open>A world\<close>

text \<open>
  Time is the world. The name resolves to one public address, the peer is the address asked for, and every
  exchange gives the same response. URLs with a bracket do not parse.
\<close>

definition PUBLIC_ADDRESS :: string where
  "PUBLIC_ADDRESS = ''93.184.216.34''"

definition sample_seams :: "response \<Rightarrow> int seams" where
  "sample_seams re =
     \<lparr>sm_clock = (\<lambda>w. (w, w + 1)), sm_resolve = (\<lambda>h t w. (Inr (Some [Some PUBLIC_ADDRESS]), w + 10)),
      sm_connect = (\<lambda>c t w. (Inr (Some (cn_address c)), w + 10)), sm_exchange = (\<lambda>c m q t n w. (Inr re, w + 100)),
      sm_sleep = (\<lambda>d w. w + d), sm_now = (\<lambda>w. (w, w))\<rparr>"

definition sample_answer :: json where
  "sample_answer = JObj
     [(''schema_version'', JStr ''1.0.0''), (''provider_ref'', JStr ''fixture''),
      (''indicator'', JObj [(''type'', JStr ''HOSTNAME''), (''value'', JStr ''shop.example.net'')]),
      (''observed_at'', JStr ''2025-01-01T00:00:00Z''), (''entry'', JStr ''FOUND''), (''reputation'', JStr ''MALICIOUS''),
      (''allowlist'', JStr ''NOT_ALLOWLISTED''), (''brand_match'', JStr ''UNKNOWN'')]"

definition plain_url :: "string \<Rightarrow> url_parts option" where
  "plain_url s =
     (if CHR ''['' \<in> set s then None
      else Some \<lparr>up_scheme = [], up_netloc = [], up_hostname = None, up_port = Some None, up_path = s, up_query = [],
             up_username = None, up_password = None\<rparr>)"

definition sample_libraries :: libraries_net where
  "sample_libraries =
     \<lparr>ln_sha256 = zeros, ln_idna = no_idna, ln_strict_json = (\<lambda>_. Some sample_answer), ln_inflate = (\<lambda>_ _ _. ZlibError),
      ln_instant = (\<lambda>_. Some 0), ln_stamp = (\<lambda>_. ''2025-01-01T00:00:00.000000Z''), ln_urlsplit = plain_url,
      ln_urljoin = (\<lambda>_ loc. Some loc), ln_is_global = (\<lambda>_. True)\<rparr>"

definition sample_adapter :: "response \<Rightarrow> int adapter" where
  "sample_adapter re =
     \<lparr>ap_seams = sample_seams re, ap_lib = sample_libraries, ap_limits = LOCAL_TEST_PROFILE,
      ap_credential_of = (\<lambda>_. None), ap_correlation = ''c-1'', ap_metadata = []\<rparr>"

definition url_indicator :: indicator_data where
  "url_indicator = \<lparr>id_type = ''HOSTNAME'', id_value = ''shop.example.net''\<rparr>"

definition found_response :: response where
  "found_response = \<lparr>re_status = 200, re_headers = [(''content-type'', ''application/json'')], re_body = ''{}''\<rparr>"

definition bracket_redirect :: response where
  "bracket_redirect = \<lparr>re_status = 302, re_headers = [(''location'', ''//['')], re_body = []\<rparr>"

definition sample_lookup_request :: request where
  "sample_lookup_request = \<lparr>qr_host = ''api.example.org'', qr_target = ''/v1/lookup?q=shop.example.net'', qr_body = None,
     qr_headers = [(''Host'', ''api.example.org''), (''Accept'', ''application/json''), (''User-Agent'', USER_AGENT),
       (''X-Correlation-Id'', ''c-1'')]\<rparr>"

lemma sample_limits: "limits_ok LOCAL_TEST_PROFILE"
  by (simp add: limits_ok_def LOCAL_TEST_PROFILE_def second_def)

lemma public_permitted: "address_permitted (\<lambda>_. True) [] PUBLIC_ADDRESS"
  by code_simp

lemma sample_quotes: "percent_quote ''q'' = ''q''" "percent_quote ''shop.example.net'' = ''shop.example.net''"
  "list_all clean_header (qr_headers sample_lookup_request)"
  by code_simp+

lemma sample_lookup_prepares: "prepare_request (sample_adapter re) (sample_policy r) url_indicator = Inr sample_lookup_request"
  using sample_quotes
  by (simp add: prepare_request_def sample_adapter_def sample_policy_def url_indicator_def INDICATOR_TYPES_def
    sample_libraries_def sample_host_canonical sample_lookup_request_def host_header_def)

text \<open>One exchange of the sample world.\<close>

definition sample_connection :: connection where
  "sample_connection = \<lparr>cn_address = PUBLIC_ADDRESS, cn_port = 443, cn_server = ''api.example.org'', cn_proxy = None\<rparr>"

lemma sample_exchange:
  assumes "w + 1000 < d"
  shows "exchange_once (sample_adapter re) (sample_policy r) sample_lookup_request ''api.example.org'' t d (w, log) =
    (Inr re, (w + 124, log @
      [Resolve ''api.example.org'' (min 3000 (d - w)), Connect sample_connection (min 3000 (d - (12 + w))),
       Exchange sample_connection ''GET'' (sample_lookup_request\<lparr>qr_target := t\<rparr>) (min 5000 (d - (23 + w)))]))"
  using assms
  by (simp add: Let_def exchange_once_def resolve_validated_def remaining_def net_bind_def world_step_def note_event_def net_return_def
    check_net_def transported_def sample_adapter_def sample_seams_def sample_policy_def permitted_def answer_ok_def
    public_permitted sample_libraries_def or_empty_def sample_connection_def LOCAL_TEST_PROFILE_def second_def)

lemma sample_parts:
  "ap_lib (sample_adapter re) = sample_libraries" "ap_limits (sample_adapter re) = LOCAL_TEST_PROFILE"
  "ap_seams (sample_adapter re) = sample_seams re" "ln_strict_json sample_libraries t = Some sample_answer"
  by (simp_all add: sample_adapter_def sample_libraries_def)

lemma sample_media: "media_type_ok (Some ''application/json'') ''application/json''"
  by code_simp

lemma sample_parse: "run_parser sample_libraries sample_answer (sample_policy r) url_indicator now HTTP_2XX =
    (if now + 300000 < 0 then Inl (Refused SCHEMA_INVALID_RESPONSE HTTP_2XX)
     else Inr \<lparr>np_outcome = ''FOUND'', np_reputation = ''MALICIOUS'', np_allowlist = ''NOT_ALLOWLISTED'', np_brand = ''UNKNOWN'',
       np_observed = ''2025-01-01T00:00:00Z''\<rparr>)"
proof -
  have "rfc3339 ''2025-01-01T00:00:00Z''" by code_simp
  then show ?thesis
    by (simp add: run_parser_def PARSER_VERSIONS_def fixture_parser_def Let_def sample_answer_def has_exactly_def at_key_def
      jget_def RESPONSE_KEYS_def is_string_def text_at_def sample_policy_def url_indicator_def sample_libraries_def
      second_def enum_triple_ok_def ALLOWED_def insert_commute)
qed

lemma sample_accepts:
  assumes "w + 1000 < d" "0 < w"
  shows "\<exists>res. accept_payload (sample_adapter found_response) (sample_policy r) url_indicator d n found_response (w, log) =
      (Inr res, (w + 2, log)) \<and> lr_outcome res = FOUND \<and> lr_reputation res = ''MALICIOUS'' \<and> lr_attempts res = n"
  using assms
  by (simp add: accept_payload_def Let_def net_bind_def check_net_def net_return_def found_response_def sample_media
    decode_body_def lift_net_def remaining_def world_step_def sample_parts sample_seams_def sample_parse
    LOCAL_TEST_PROFILE_def status_category_def)

lemma sample_hops: "nat (li_hops LOCAL_TEST_PROFILE + 1) = Suc (Suc (Suc 0))" "li_overall LOCAL_TEST_PROFILE = 10000"
  "li_attempts LOCAL_TEST_PROFILE = 2"
  by (simp_all add: LOCAL_TEST_PROFILE_def second_def)

lemma sample_responses: "re_status found_response = 200" "re_status bracket_redirect = 302"
  "map_of (re_headers bracket_redirect) ''location'' = Some ''//[''" "pp_redirects (sample_policy r) = r"
  by (simp_all add: found_response_def bracket_redirect_def sample_policy_def)

text \<open>The log of one exchange that starts at \<open>w\<close>.\<close>

definition sample_log :: "int \<Rightarrow> int \<Rightarrow> net_event list" where
  "sample_log w d = [Resolve ''api.example.org'' (min 3000 (d - w)), Connect sample_connection (min 3000 (d - (12 + w))),
       Exchange sample_connection ''GET'' sample_lookup_request (min 5000 (d - (23 + w)))]"

lemma sample_same: "sample_lookup_request\<lparr>qr_target := ''/v1/lookup?q=shop.example.net''\<rparr> = sample_lookup_request"
  "qr_host sample_lookup_request = ''api.example.org''" "qr_target sample_lookup_request = ''/v1/lookup?q=shop.example.net''"
  by (simp_all add: sample_lookup_request_def)

lemma sample_found:
  "\<exists>res w'. lookup (sample_adapter found_response) (sample_policy r) url_indicator 1 = (Inr res, (w', sample_log 3 10001)) \<and>
     lr_outcome res = FOUND \<and> lr_reputation res = ''MALICIOUS'' \<and> lr_attempts res = 1"
proof -
  obtain res where res: "accept_payload (sample_adapter found_response) (sample_policy r) url_indicator 10001 1 found_response
      (128, sample_log 3 10001) = (Inr res, (130, sample_log 3 10001))"
      "lr_outcome res = FOUND" "lr_reputation res = ''MALICIOUS''" "lr_attempts res = 1"
    using sample_accepts [of 128 10001 r 1 "sample_log 3 10001"] by auto
  have x: "exchange_once (sample_adapter found_response) (sample_policy r) sample_lookup_request ''api.example.org''
      ''/v1/lookup?q=shop.example.net'' 10001 (3, []) = (Inr found_response, (127, sample_log 3 10001))"
    using sample_exchange [of 3 10001 found_response r "''/v1/lookup?q=shop.example.net''" "[]"] by (simp add: sample_log_def sample_same)
  have "try_once (sample_adapter found_response) (sample_policy r) url_indicator sample_lookup_request 10001 1 (2, []) =
      (Some (Inr res), (130, sample_log 3 10001))"
    using res x
    by (simp add: try_once_def attempt_lookup_def net_bind_def world_step_def sample_parts sample_seams_def check_net_def
      net_return_def sample_hops sample_same remaining_def sample_responses)
  then show ?thesis using res
    by (simp add: lookup_def read_time_def sample_parts sample_lookup_prepares sample_hops lookup_loop.simps sample_seams_def)
qed

lemma sample_escape:
  "lookup (sample_adapter bracket_redirect) (sample_policy ''REVALIDATE_WITHIN_PROVIDER_ALLOWLIST'') url_indicator 1 =
     (Inl (ValueError ''Invalid IPv6 URL''), (128, sample_log 3 10001))"
proof -
  let ?p = "sample_policy ''REVALIDATE_WITHIN_PROVIDER_ALLOWLIST''"
  have x: "exchange_once (sample_adapter bracket_redirect) ?p sample_lookup_request ''api.example.org''
      ''/v1/lookup?q=shop.example.net'' 10001 (3, []) = (Inr bracket_redirect, (127, sample_log 3 10001))"
    using sample_exchange [of 3 10001 bracket_redirect _ "''/v1/lookup?q=shop.example.net''" "[]"] by (simp add: sample_log_def sample_same)
  have t: "redirect_target sample_libraries ?p host target (Some ''//['') = Inl (Uncaught (ValueError ''Invalid IPv6 URL''))"
    for host target
    by (simp add: redirect_target_def Let_def or_empty_def parsed_url_def sample_libraries_def plain_url_def)
  have "try_once (sample_adapter bracket_redirect) ?p url_indicator sample_lookup_request 10001 1 (2, []) =
      (Some (Inl (ValueError ''Invalid IPv6 URL'')), (128, sample_log 3 10001))"
    using x t
    by (simp add: try_once_def attempt_lookup_def net_bind_def world_step_def sample_parts sample_seams_def check_net_def
      net_return_def sample_hops sample_same remaining_def sample_responses lift_net_def)
  then show ?thesis
    by (simp add: lookup_def read_time_def sample_parts sample_lookup_prepares sample_hops lookup_loop.simps sample_seams_def)
qed

end
