(* ===== verification/TextView.thy ===== *)
theory TextView
  imports Loader
begin

text \<open>
  extraction.py, what extract_text does up to the findings: decoding, the refusals, the offset-preserving
  normalisation, the language assessment, and the support status that goes to the detection runtime. Text is a list
  of code points; the Unicode database is the record \<open>unicode\<close>. The letters of \<open>CONFUSABLES\<close> all have a script.
\<close>

type_synonym utext = "int list"

record unicode =
  uc_space :: "int \<Rightarrow> bool"
  uc_category :: "int \<Rightarrow> string"
  uc_nfkc :: "utext \<Rightarrow> utext"
  uc_lower :: "utext \<Rightarrow> utext"
  uc_alpha :: "int \<Rightarrow> bool"
  uc_name :: "int \<Rightarrow> string"

definition text_codes :: "string \<Rightarrow> utext" where
  "text_codes s = map of_char s"

section \<open>Normalisation\<close>

definition invisible :: "unicode \<Rightarrow> int \<Rightarrow> bool" where
  "invisible u ch \<longleftrightarrow> uc_category u ch = ''Cf''"

definition malformed_control :: "unicode \<Rightarrow> int \<Rightarrow> bool" where
  "malformed_control u ch \<longleftrightarrow> uc_category u ch = ''Cc'' \<and> \<not> uc_space u ch"

definition combining :: "unicode \<Rightarrow> int \<Rightarrow> bool" where
  "combining u ch \<longleftrightarrow> starts_with ''M'' (uc_category u ch)"

definition LINE_BREAKS :: utext where
  "LINE_BREAKS = [0x0A, 0x0D, 0x2028, 0x2029, 0x0B, 0x0C, 0x85]"

text \<open>The characters a whitespace run goes over once it has begun.\<close>

definition in_run :: "unicode \<Rightarrow> int \<Rightarrow> bool" where
  "in_run u ch \<longleftrightarrow> uc_space u ch \<or> invisible u ch"

type_synonym origin = "(nat \<times> nat) list"

text \<open>
  The loop at position \<open>i\<close>, with the text from there on, the output and its origin, and the pending whitespace.
\<close>

definition flush :: "(int \<times> nat \<times> nat) option \<Rightarrow> utext \<times> origin \<Rightarrow> utext \<times> origin" where
  "flush pending st = (case pending of None \<Rightarrow> st | Some (c, r) \<Rightarrow> (fst st @ [c], snd st @ [r]))"

function normalize_loop :: "unicode \<Rightarrow> nat \<Rightarrow> utext \<Rightarrow> utext \<times> origin \<Rightarrow> (int \<times> nat \<times> nat) option \<Rightarrow> utext \<times> origin" where
  "normalize_loop u i [] st pending = st"
| "normalize_loop u i (ch # cs) st pending =
     (if uc_space u ch
      then let run = takeWhile (in_run u) (ch # cs); j = i + length run;
               newline = list_ex (\<lambda>c. c \<in> set LINE_BREAKS) run
           in normalize_loop u j (drop (length run) (ch # cs)) st
                (if fst st \<noteq> [] then Some (if newline then 0x0A else 0x20, i, j) else pending)
      else if invisible u ch then normalize_loop u (i + 1) cs st pending
      else let marks = takeWhile (combining u) cs; j = i + 1 + length marks; piece = uc_nfkc u (ch # marks);
               st' = flush pending st
           in normalize_loop u j (drop (length marks) cs) (fst st' @ piece, snd st' @ replicate (length piece) (i, j)) None)"
  by pat_completeness auto
termination
  by (relation "measure (\<lambda>(_, _, cs, _, _). length cs)") (auto simp: in_run_def)

declare normalize_loop.simps(2) [simp del]

definition normalize :: "unicode \<Rightarrow> utext \<Rightarrow> utext \<times> origin" where
  "normalize u raw = normalize_loop u 0 raw ([], []) None"

text \<open>\<open>raw_of\<close>: the raw text a span of the normalised text comes from.\<close>

definition slice :: "nat \<Rightarrow> nat \<Rightarrow> 'a list \<Rightarrow> 'a list" where
  "slice a b xs = take (b - a) (drop a xs)"

definition raw_of :: "utext \<Rightarrow> origin \<Rightarrow> nat \<Rightarrow> nat \<Rightarrow> utext" where
  "raw_of raw orig a b = slice (fst (orig ! a)) (snd (orig ! (b - 1))) raw"

section \<open>Script and language\<close>

definition SCRIPT_PREFIXES :: "(string \<times> string) list" where
  "SCRIPT_PREFIXES =
     [(''LATIN'', ''Latn''), (''CYRILLIC'', ''Cyrl''), (''GREEK'', ''Grek''), (''DEVANAGARI'', ''Deva''), (''TAMIL'', ''Taml''),
      (''BENGALI'', ''Beng''), (''TELUGU'', ''Telu''), (''KANNADA'', ''Knda''), (''MALAYALAM'', ''Mlym''),
      (''GUJARATI'', ''Gujr''), (''GURMUKHI'', ''Guru''), (''ORIYA'', ''Orya''), (''ARABIC'', ''Arab''), (''HEBREW'', ''Hebr''),
      (''THAI'', ''Thai''), (''HANGUL'', ''Hang''), (''HIRAGANA'', ''Hira''), (''KATAKANA'', ''Kana''), (''CJK'', ''Hani'')]"

definition script_of :: "unicode \<Rightarrow> int \<Rightarrow> string option" where
  "script_of u ch =
     (if \<not> uc_alpha u ch then None
      else case find (\<lambda>(p, _). starts_with p (uc_name u ch)) SCRIPT_PREFIXES of
             None \<Rightarrow> Some ''Zzzz'' | Some (_, code) \<Rightarrow> Some code)"

definition CONFUSABLES :: "(int \<times> int) list" where
  "CONFUSABLES =
     [(0x410, 0x41), (0x412, 0x42), (0x415, 0x45), (0x41A, 0x4B), (0x41C, 0x4D), (0x41D, 0x48),
      (0x41E, 0x4F), (0x420, 0x50), (0x421, 0x43), (0x422, 0x54), (0x425, 0x58), (0x430, 0x61),
      (0x435, 0x65), (0x43E, 0x6F), (0x440, 0x70), (0x441, 0x63), (0x443, 0x79), (0x445, 0x78),
      (0x456, 0x69), (0x458, 0x6A), (0x455, 0x73), (0x501, 0x64), (0x391, 0x41), (0x392, 0x42),
      (0x395, 0x45), (0x396, 0x5A), (0x397, 0x48), (0x399, 0x49), (0x39A, 0x4B), (0x39C, 0x4D),
      (0x39D, 0x4E), (0x39F, 0x4F), (0x3A1, 0x50), (0x3A4, 0x54), (0x3A5, 0x59), (0x3A7, 0x58),
      (0x3BF, 0x6F), (0x3BD, 0x76)]"

definition EN_WORDS :: "string list" where
  "EN_WORDS = concat (map (split_on CHR '' '')
     [''a about above account after again all also am an and any anyone app are as asap at avoid'',
      ''balance bank be been before being below blocked by call can cancel card case click code complete confirm connect could'',
      ''customer day dear deposit details did do does done due earn email enter expires for from get give go has have he hello'',
      ''help her here hi his holdings how i if immediately in install is it its just kindly know let like link login make may me'',
      ''message money more my need never new no not now number of on once one only open or order other otp our out over own'',
      ''paid parcel pay payment pending phone pin please process receive received refund reply report request requested right'',
      ''safe scam scan screen secure send service session share she should sms so some soon start still such support sure team'',
      ''than thank thanks that the their them then there these they this those through to today tomorrow tonight transaction'',
      ''transfer under unlock until up update upi us use verify very via video videos wallet want was we well were what when'',
      ''where which while who why will with within withdrawal won would yes you your yours'',
      ''able across activate active address after afternoon ago agent alert already always amount another answer anything apply'',
      ''apps april around ask asked attached august available away back bad bill birthday book boss both bring brother bonus'',
      ''business but buy calling came cannot cash cashback change changed charge charges check child children city claim close'',
      ''closed come coming company contact counter course credit credited cvv daily data date daughter days debit debited delay'',
      ''delivered delivery dinner direct does doing door down download during each early easy either else end enough even evening'',
      ''ever every everything expected expire expiry family fast father fee few file final find fine first follow food forget form'',
      ''found free friday friend friends front full fund funds getting given going good great group had happy hard has having'',
      ''head hear held help here high hold holiday home hope hour hours house however id important inform information inside'',
      ''instead into issue item job join keep kids kyc last late later least leave left less life limit line little live load'',
      ''local log long look lost lot made mail main many market meeting member messages minutes miss mobile monday month monthly'',
      ''months morning most mother move much must name near need needed net next nice night nothing notice off offer office'',
      ''officer official often old online open order others owner page parcel part party password past people per period person'',
      ''phone photo photos pick place plan play point police policy possible post power price prize problem profile project'',
      ''provide put quick quickly rate rather read ready real really reason receipt register registered remember rent request'',
      ''reset rest return returns review reward room run said same saturday saw say says school second see seen sell sent set'',
      ''shop shopping short show sign since sir site small someone something son sorry speak special staff stop store sunday'',
      ''system take talk tax telegram tell test text thing things think thursday time times told too top total town trust try'',
      ''tuesday turn two type unable unusual upload urgent usual value verified visit wait waiting walk weekend wednesday week'',
      ''weeks whatsapp whole win without work working world write wrong year years yesterday young youtube''])"

definition HI_WORDS :: "string list" where
  "HI_WORDS = concat (map (split_on CHR '' '')
     [''hai hain kya aap aapka aapke aapki apna apne apni nahi nahin karo kare karein kijiye bhejo bhej'',
      ''mein mujhe ko ka ki ke se ho hoga hogi jaldi abhi paisa paise yeh woh tum tumhara mera meri bhai ji warna band jayega'',
      ''batao bataye diya diye liye''])"

definition EU_WORDS :: "string list" where
  "EU_WORDS = concat (map (split_on CHR '' '')
     [''el la los las que por para usted su sus favor ahora codigo cuenta und der die das nicht ist ihr'',
      ''ihre bitte jetzt le les vous est pour avec votre une des sie conta seu sua voce agora''])"

text \<open>\<open>[a-z]+(?:'[a-z]+)?\<close>, all matches.\<close>

definition letter_code :: "int \<Rightarrow> bool" where
  "letter_code c \<longleftrightarrow> 0x61 \<le> c \<and> c \<le> 0x7A"

definition apostrophe_tail :: "utext \<Rightarrow> utext" where
  "apostrophe_tail cs =
     (case cs of [] \<Rightarrow> [] | c # rest \<Rightarrow> if c = 0x27 \<and> takeWhile letter_code rest \<noteq> [] then c # takeWhile letter_code rest else [])"

function tokens_of :: "utext \<Rightarrow> utext list" where
  "tokens_of [] = []"
| "tokens_of (c # cs) =
     (if letter_code c
      then let w = takeWhile letter_code (c # cs); t = apostrophe_tail (drop (length w) (c # cs)) in
           (w @ t) # tokens_of (drop (length (w @ t)) (c # cs))
      else tokens_of cs)"
  by pat_completeness auto
termination
  by (relation "measure length") auto

definition count_in :: "string list \<Rightarrow> utext list \<Rightarrow> nat" where
  "count_in ws ts = length (filter (\<lambda>t. t \<in> set (map text_codes ws)) ts)"

record assessment =
  as_language :: "string list"
  as_script :: "string list"
  as_confidence :: string
  as_supported :: bool
  as_words :: nat
  as_folded :: bool
  as_match :: utext
  as_short :: bool

definition MIN_WORDS :: nat where
  "MIN_WORDS = 3"

text \<open>The counter of scripts, a dict in insertion order; the confusable letters are counted apart.\<close>

definition counted :: "nat dict \<Rightarrow> string \<Rightarrow> nat" where
  "counted counts k = (case map_of counts k of None \<Rightarrow> 0 | Some n \<Rightarrow> n)"

definition count_script :: "unicode \<Rightarrow> int \<Rightarrow> nat dict \<Rightarrow> nat dict" where
  "count_script u ch counts =
     (case script_of u ch of None \<Rightarrow> counts | Some code \<Rightarrow> AList.update code (counted counts code + 1) counts)"

definition is_confusable :: "int \<Rightarrow> bool" where
  "is_confusable ch \<longleftrightarrow> map_of CONFUSABLES ch \<noteq> None"

definition fold_char :: "int \<Rightarrow> int" where
  "fold_char ch = (case map_of CONFUSABLES ch of None \<Rightarrow> ch | Some c \<Rightarrow> c)"

definition assessed :: "string \<Rightarrow> string list \<Rightarrow> string \<Rightarrow> bool \<Rightarrow> nat \<Rightarrow> bool \<Rightarrow> utext \<Rightarrow> bool \<Rightarrow> assessment" where
  "assessed lang scripts conf supported n folded m short =
     \<lparr>as_language = [lang], as_script = scripts, as_confidence = conf, as_supported = supported, as_words = n,
      as_folded = folded, as_match = m, as_short = short\<rparr>"

text \<open>The floating-point ratios are compared as fractions: 0.3, 0.25 and 0.4 of the counts.\<close>

definition assess_language :: "unicode \<Rightarrow> utext \<Rightarrow> assessment" where
  "assess_language u normalized =
     (let confusable = length (filter is_confusable normalized);
          counts = fold (count_script u) (filter (\<lambda>c. \<not> is_confusable c) normalized) [];
          latin = counted counts ''Latn'';
          foreign = list_ex (\<lambda>(k, _). k \<noteq> ''Latn'') counts;
          folded = (0 < confusable \<and> \<not> foreign \<and> 0 < latin \<and> 10 * confusable \<le> 3 * (latin + confusable));
          m = (if folded then map fold_char normalized else normalized);
          all_counts = (if \<not> folded then fold (count_script u) (filter is_confusable normalized) counts else counts);
          tokens = tokens_of (uc_lower u m);
          n = length tokens;
          scripts = (if all_counts = [] then [''Zyyy'']
                     else sort_key (\<lambda>k. (- int (counted all_counts k), k)) (map fst all_counts));
          en = count_in EN_WORDS tokens; hi = count_in HI_WORDS tokens; eu = count_in EU_WORDS tokens
      in if list_ex (\<lambda>(k, _). k \<noteq> ''Latn'') all_counts \<or> latin = 0
         then assessed ''und'' scripts ''LOW'' False n False m False
         else if 2 \<le> hi \<and> en \<le> hi * 2 then assessed ''hi'' [''Latn''] ''LOW'' False n folded m False
         else if 2 \<le> eu \<and> en < eu then assessed ''und'' [''Latn''] ''LOW'' False n folded m False
         else if tokens \<noteq> [] \<and> (3 \<le> en \<or> n \<le> 4 * en)
         then assessed ''en'' [''Latn''] (if 2 * n \<le> 5 * en \<and> \<not> folded then ''HIGH'' else ''MEDIUM'') True n folded m False
         else assessed ''und'' [''Latn''] ''LOW'' False n folded m (n < MIN_WORDS \<and> hi < 2 \<and> eu < 2))"

section \<open>Reading the submitted bytes\<close>

text \<open>\<open>bytes.decode("utf-8")\<close>, strict: no overlong form, no surrogate, nothing above \<open>0x10FFFF\<close>.\<close>

definition continuation :: "int \<Rightarrow> bool" where
  "continuation b \<longleftrightarrow> 0x80 \<le> b \<and> b \<le> 0xBF"

definition second_ok :: "int \<Rightarrow> int \<Rightarrow> bool" where
  "second_ok b0 b1 \<longleftrightarrow> continuation b1 \<and> (b0 = 0xE0 \<longrightarrow> 0xA0 \<le> b1) \<and> (b0 = 0xED \<longrightarrow> b1 \<le> 0x9F) \<and>
     (b0 = 0xF0 \<longrightarrow> 0x90 \<le> b1) \<and> (b0 = 0xF4 \<longrightarrow> b1 \<le> 0x8F)"

fun decode_utf8 :: "int list \<Rightarrow> utext option" where
  "decode_utf8 [] = Some []"
| "decode_utf8 (b0 # bs) =
     (if 0 \<le> b0 \<and> b0 < 0x80 then map_option ((#) b0) (decode_utf8 bs)
      else if 0xC2 \<le> b0 \<and> b0 \<le> 0xDF then
        (case bs of b1 # bs' \<Rightarrow>
           if continuation b1 then map_option ((#) ((b0 - 0xC0) * 64 + (b1 - 0x80))) (decode_utf8 bs') else None
         | _ \<Rightarrow> None)
      else if 0xE0 \<le> b0 \<and> b0 \<le> 0xEF then
        (case bs of b1 # b2 # bs' \<Rightarrow>
           if second_ok b0 b1 \<and> continuation b2
           then map_option ((#) (((b0 - 0xE0) * 64 + (b1 - 0x80)) * 64 + (b2 - 0x80))) (decode_utf8 bs') else None
         | _ \<Rightarrow> None)
      else if 0xF0 \<le> b0 \<and> b0 \<le> 0xF4 then
        (case bs of b1 # b2 # b3 # bs' \<Rightarrow>
           if second_ok b0 b1 \<and> continuation b2 \<and> continuation b3
           then map_option ((#) ((((b0 - 0xF0) * 64 + (b1 - 0x80)) * 64 + (b2 - 0x80)) * 64 + (b3 - 0x80))) (decode_utf8 bs')
           else None
         | _ \<Rightarrow> None)
      else None)"

definition INPUT_TYPES :: "string list" where
  "INPUT_TYPES = [''TEXT'', ''SMS'', ''CHAT_MESSAGE'', ''EMAIL'', ''URL'', ''OCR_TEXT'', ''SCREENSHOT_DERIVED_TEXT'',
     ''DOCUMENT_TEXT'', ''USER_NARRATIVE'']"

text \<open>\<open>[A-Za-z0-9][A-Za-z0-9_.:-]{1,100}\<close>\<close>

definition id_alnum :: "char \<Rightarrow> bool" where
  "id_alnum c \<longleftrightarrow> (CHR ''A'' \<le> c \<and> c \<le> CHR ''Z'') \<or> (CHR ''a'' \<le> c \<and> c \<le> CHR ''z'') \<or> (CHR ''0'' \<le> c \<and> c \<le> CHR ''9'')"

definition input_id_ok :: "string \<Rightarrow> bool" where
  "input_id_ok s = (case s of [] \<Rightarrow> False
     | c # cs \<Rightarrow> id_alnum c \<and> list_all (\<lambda>d. id_alnum d \<or> d \<in> set ''_.:-'') cs \<and> 1 \<le> length cs \<and> length cs \<le> 100)"

definition MAX_TEXT_BYTES :: nat where
  "MAX_TEXT_BYTES = 64 * 1024"

record text_input =
  ti_raw :: utext
  ti_normalized :: utext
  ti_origin :: origin
  ti_assessment :: assessment
  ti_notes :: "string list"

text \<open>A refusal of the caller, the input of an extraction error with its code, or a text that is read.\<close>

datatype read_result = Not_Extractable string | Error_Input string | Text_Input text_input

definition drop_bom :: "utext \<Rightarrow> utext" where
  "drop_bom t = (case t of c # cs \<Rightarrow> if c = 0xFEFF then cs else t | [] \<Rightarrow> [])"

definition text_notes :: "unicode \<Rightarrow> utext \<Rightarrow> utext \<Rightarrow> assessment \<Rightarrow> string list" where
  "text_notes u raw normalized a =
     (if normalized \<noteq> raw then [''UNICODE_NORMALIZED_OR_WHITESPACE_COLLAPSED''] else []) @
     (if list_ex (invisible u) raw then [''INVISIBLE_FORMAT_CHARACTERS_REMOVED''] else []) @
     (if as_folded a then [''MIXED_SCRIPT_CONFUSABLES_FOLDED_FOR_MATCHING''] else [])"

definition read_text :: "unicode \<Rightarrow> string \<Rightarrow> string \<Rightarrow> int list \<Rightarrow> read_result" where
  "read_text u input_type input_id data =
     (if input_type \<notin> set INPUT_TYPES then Not_Extractable ''UNSUPPORTED_INPUT_TYPE''
      else if \<not> input_id_ok input_id then Not_Extractable ''INVALID_INPUT_ID''
      else if MAX_TEXT_BYTES < length data then Error_Input ''INPUT_TOO_LARGE''
      else case decode_utf8 data of
        None \<Rightarrow> Error_Input ''INVALID_UTF8''
      | Some t \<Rightarrow>
          let raw = drop_bom t in
          if list_ex (malformed_control u) raw then Error_Input ''CONTROL_CHARACTERS''
          else let (normalized, orig) = normalize u raw; a = assess_language u normalized in
            Text_Input \<lparr>ti_raw = raw, ti_normalized = normalized, ti_origin = orig, ti_assessment = a,
              ti_notes = text_notes u raw normalized a\<rparr>)"

text \<open>The support status, given whether indicators were extracted and support gaps reported.\<close>

definition input_status :: "unicode \<Rightarrow> utext \<Rightarrow> assessment \<Rightarrow> bool \<Rightarrow> bool \<Rightarrow> string" where
  "input_status u normalized a indicators gaps =
     (if \<not> list_ex (uc_alpha u) normalized then ''INSUFFICIENT_INFORMATION''
      else if as_short a then ''INSUFFICIENT_INFORMATION''
      else if \<not> as_supported a then ''UNSUPPORTED''
      else if as_words a < MIN_WORDS \<and> \<not> indicators then ''INSUFFICIENT_INFORMATION''
      else if gaps then ''PARTIALLY_SUPPORTED''
      else ''SUPPORTED'')"

end
