(* ===== verification/TextViewProps.thy ===== *)
theory TextViewProps
  imports TextView
begin

text \<open>
  What the normalisation keeps: every character of its output has the range of the submitted text it comes from,
  the ranges are in order, and no visible character is lost. What a supported language assessment means. The
  decoded text is the submitted bytes.
\<close>

section \<open>Origins\<close>

text \<open>Ranges of a text of length \<open>n\<close> in order, two of them equal or apart.\<close>

definition origin_ok :: "nat \<Rightarrow> origin \<Rightarrow> bool" where
  "origin_ok n orig \<longleftrightarrow>
     (\<forall>(s, e)\<in>set orig. s < e \<and> e \<le> n) \<and> sorted_wrt (\<lambda>r q. r = q \<or> snd r \<le> fst q) orig"

text \<open>A character comes from the cluster of its range, or stands for a run of whitespace.\<close>

definition comes_from :: "unicode \<Rightarrow> utext \<Rightarrow> nat \<times> nat \<Rightarrow> int \<Rightarrow> bool" where
  "comes_from u raw r c \<longleftrightarrow>
     (let src = slice (fst r) (snd r) raw in
      (c \<in> {0x20, 0x0A} \<and> list_all (in_run u) src) \<or>
      (c \<in> set (uc_nfkc u src) \<and> \<not> in_run u (hd src) \<and> list_all (combining u) (tl src)))"

definition covered :: "origin \<Rightarrow> nat \<Rightarrow> bool" where
  "covered orig p \<longleftrightarrow> (\<exists>(s, e)\<in>set orig. s \<le> p \<and> p < e)"

definition visible_kept :: "unicode \<Rightarrow> utext \<Rightarrow> nat \<Rightarrow> origin \<Rightarrow> bool" where
  "visible_kept u raw i orig \<longleftrightarrow> (\<forall>p<i. \<not> in_run u (raw ! p) \<longrightarrow> covered orig p)"

section \<open>One step\<close>

lemma sorted_replicate: "sorted_wrt (\<lambda>r q. r = q \<or> P r q) (replicate n r)"
  by (induction n) auto

lemma origin_ok_append:
  assumes "origin_ok i orig" "i \<le> s" "s < e"
  shows "origin_ok e (orig @ replicate n (s, e))"
proof -
  have "x < y \<and> y \<le> s" if "(x, y) \<in> set orig" for x y
    using that assms(1,2) by (fastforce simp: origin_ok_def)
  then have "\<forall>r\<in>set orig. fst r < snd r \<and> snd r \<le> s" by auto
  moreover have "sorted_wrt (\<lambda>r q. r = q \<or> snd r \<le> fst q) orig" using assms(1) by (simp add: origin_ok_def)
  ultimately show ?thesis
    using assms(3) by (auto simp: origin_ok_def sorted_wrt_append sorted_replicate)
qed

lemma origin_ok_mono: "origin_ok i orig \<Longrightarrow> i \<le> j \<Longrightarrow> origin_ok j orig"
  by (fastforce simp: origin_ok_def)

lemma slice_here: "raw = pre @ cs \<Longrightarrow> slice (length pre) (length pre + n) raw = take n cs"
  by (simp add: slice_def)

definition text_grounded :: "unicode \<Rightarrow> utext \<Rightarrow> utext \<times> origin \<Rightarrow> bool" where
  "text_grounded u raw st \<longleftrightarrow> list_all2 (comes_from u raw) (snd st) (fst st)"

lemma list_all2_same_left: "list_all2 P (replicate (length ys) r) ys \<longleftrightarrow> (\<forall>y\<in>set ys. P r y)"
  by (induction ys) auto

lemma text_grounded_append:
  "text_grounded u raw st \<Longrightarrow> (\<And>c. c \<in> set piece \<Longrightarrow> comes_from u raw r c) \<Longrightarrow>
     text_grounded u raw (fst st @ piece, snd st @ replicate (length piece) r)"
  unfolding text_grounded_def fst_conv snd_conv by (rule list_all2_appendI) (simp_all add: list_all2_same_left)

text \<open>What a pending whitespace may be at position \<open>i\<close>, after the output \<open>orig\<close>.\<close>

definition pending_ok :: "unicode \<Rightarrow> utext \<Rightarrow> nat \<Rightarrow> origin \<Rightarrow> (int \<times> nat \<times> nat) option \<Rightarrow> bool" where
  "pending_ok u raw i orig pending \<longleftrightarrow>
     (case pending of None \<Rightarrow> origin_ok i orig
      | Some (c, s, e) \<Rightarrow> origin_ok s orig \<and> s < e \<and> e \<le> i \<and> comes_from u raw (s, e) c)"

lemma pending_ok_mono: "pending_ok u raw i orig pending \<Longrightarrow> i \<le> j \<Longrightarrow> pending_ok u raw j orig pending"
  by (auto simp: pending_ok_def intro: origin_ok_mono split: option.splits)

lemma pending_ok_origin: "pending_ok u raw i orig pending \<Longrightarrow> origin_ok i orig"
  by (auto simp: pending_ok_def intro: origin_ok_mono split: option.splits)

lemma flush_ok:
  assumes "pending_ok u raw i (snd st) pending" "text_grounded u raw st"
  shows "origin_ok i (snd (flush pending st))" "text_grounded u raw (flush pending st)"
    "set (snd st) \<subseteq> set (snd (flush pending st))"
proof -
  show "set (snd st) \<subseteq> set (snd (flush pending st))" by (auto simp: flush_def split: option.splits)
  show "origin_ok i (snd (flush pending st))" "text_grounded u raw (flush pending st)"
    using assms origin_ok_append [of _ "snd st" _ _ 1] text_grounded_append [OF assms(2), of "[_]"]
    by (auto simp: flush_def pending_ok_def intro: origin_ok_mono split: option.splits)
qed

lemma visible_more: "visible_kept u raw i orig \<Longrightarrow> set orig \<subseteq> set orig' \<Longrightarrow>
    (\<And>p. i \<le> p \<Longrightarrow> p < j \<Longrightarrow> in_run u (raw ! p) \<or> covered orig' p) \<Longrightarrow> visible_kept u raw j orig'"
  unfolding visible_kept_def covered_def by (metis (no_types, lifting) not_le_imp_less subsetD)

section \<open>The loop\<close>

lemma normalize_loop_ok:
  assumes "raw = pre @ cs" "pending_ok u raw (length pre) (snd st) pending" "text_grounded u raw st"
    and "normalize_loop u (length pre) cs st pending = res"
  shows "origin_ok (length raw) (snd res) \<and> text_grounded u raw res \<and>
    ((\<forall>s. s \<noteq> [] \<longrightarrow> uc_nfkc u s \<noteq> []) \<longrightarrow> visible_kept u raw (length pre) (snd st) \<longrightarrow> visible_kept u raw (length raw) (snd res))"
  using assms
proof (induction u "length pre" cs st pending arbitrary: pre rule: normalize_loop.induct)
  case (1 u st pending)
  then show ?case by (auto dest: pending_ok_origin)
next
  case (2 u ch cs st pending)
  note raw = "2.prems"(1) and pend = "2.prems"(2) and gr = "2.prems"(3) and res = "2.prems"(4)
  let ?n = "length pre" and ?loop = "normalize_loop u"
  have origin: "origin_ok ?n (snd st)" by (rule pending_ok_origin [OF pend])
  have here: "slice ?n (?n + k) raw = take k (ch # cs)" for k by (rule slice_here [OF raw])
  have at: "raw ! (?n + k) = (ch # cs) ! k" for k using raw by simp
  consider "uc_space u ch" | "\<not> uc_space u ch" "invisible u ch" | "\<not> uc_space u ch" "\<not> invisible u ch" by blast
  then show ?case
  proof cases
    case 1
    let ?run = "takeWhile (in_run u) (ch # cs)"
    let ?pre = "pre @ ?run" and ?j = "?n + length ?run"
    define c :: int where "c = (if list_ex (\<lambda>c. c \<in> set LINE_BREAKS) ?run then 0x0A else 0x20)"
    let ?pending = "if fst st \<noteq> [] then Some (c, ?n, length ?pre) else pending"
    have run: "?run \<noteq> []" using 1 by (simp add: in_run_def)
    have raw': "raw = ?pre @ drop (length ?run) (ch # cs)"
      using raw by (simp only: dropWhile_eq_drop [symmetric] append_assoc takeWhile_dropWhile_id)
    have "comes_from u raw (?n, ?j) c"
      using set_takeWhileD [of _ "in_run u" "ch # cs"]
      by (auto simp: comes_from_def Let_def here c_def takeWhile_eq_take [symmetric] list_all_iff)
    then have pend': "pending_ok u raw (length ?pre) (snd st) ?pending"
      using origin run pending_ok_mono [OF pend, of ?j] by (simp add: pending_ok_def)
    have step: "?loop (length ?pre) (drop (length ?run) (ch # cs)) st ?pending = res"
      using res unfolding c_def by (simp only: normalize_loop.simps(2) Let_def 1 if_True length_append)
    have "visible_kept u raw ?n (snd st) \<Longrightarrow> visible_kept u raw (length ?pre) (snd st)"
    proof (erule visible_more [OF _ order_refl])
      fix p assume p: "?n \<le> p" "p < length ?pre"
      then obtain k where k: "p = ?n + k" "k < length ?run" using le_Suc_ex [of ?n p] by auto
      then have "?run ! k = raw ! p" using at [of k] takeWhile_nth [OF k(2)] by (simp only:)
      moreover have "in_run u (?run ! k)" using set_takeWhileD [OF nth_mem [OF k(2)]] by simp
      ultimately show "in_run u (raw ! p) \<or> covered (snd st) p" by simp
    qed
    with "2.hyps"(1) [OF 1 refl _ refl raw' pend' [unfolded c_def] gr step [unfolded c_def]] show ?thesis
      by simp
  next
    case 2
    let ?pre = "pre @ [ch]"
    have step: "?loop (length ?pre) cs st pending = res"
      using res 2 by (simp add: normalize_loop.simps(2))
    have "visible_kept u raw ?n (snd st) \<Longrightarrow> visible_kept u raw (length ?pre) (snd st)"
      using at [of 0] 2 by (auto simp: visible_kept_def less_Suc_eq in_run_def)
    with "2.hyps"(2) [OF 2, of ?pre] raw pending_ok_mono [OF pend, of "length ?pre"] gr step show ?thesis by simp
  next
    case 3
    let ?marks = "takeWhile (combining u) cs"
    let ?pre = "pre @ ch # ?marks" and ?piece = "uc_nfkc u (ch # ?marks)" and ?st = "flush pending st"
    let ?j = "length ?pre"
    let ?next = "(fst ?st @ ?piece, snd ?st @ replicate (length ?piece) (?n, ?j))"
    note fl = flush_ok [OF pend gr]
    have raw': "raw = ?pre @ drop (length ?marks) cs"
      using raw takeWhile_dropWhile_id [of "combining u" cs] by (simp add: dropWhile_eq_drop)
    have src: "slice ?n ?j raw = ch # ?marks"
      using here [of "1 + length ?marks"] by (simp add: takeWhile_eq_take [symmetric])
    have "comes_from u raw (?n, ?j) c" if "c \<in> set ?piece" for c
      using that 3 set_takeWhileD [of _ "combining u" cs]
      unfolding comes_from_def Let_def fst_conv snd_conv src by (auto simp: in_run_def list_all_iff)
    then have gr': "text_grounded u raw ?next" by (rule text_grounded_append [OF fl(2)])
    have ok': "origin_ok ?j (snd ?next)" using origin_ok_append [OF fl(1), of ?n ?j] by simp
    have step: "?loop (length ?pre) (drop (length ?marks) cs) ?next None = res"
      using res 3 by (simp add: normalize_loop.simps(2) Let_def)
    have "visible_kept u raw ?n (snd st) \<Longrightarrow> ?piece \<noteq> [] \<Longrightarrow> visible_kept u raw (length ?pre) (snd ?next)"
      by (rule visible_more [of _ _ ?n "snd st"]) (use fl(3) in \<open>auto simp: covered_def\<close>)
    then show ?thesis
      using "2.hyps"(3) [OF 3 refl _ refl refl raw' _ gr' step] ok' by (simp add: pending_ok_def)
  qed
qed

text \<open>The normalised text, its length that of its origin.\<close>

lemma normalize_ok:
  assumes "normalize u raw = (out, orig)"
  shows "length orig = length out" "origin_ok (length raw) orig" "list_all2 (comes_from u raw) orig out"
    "(\<And>s. s \<noteq> [] \<Longrightarrow> uc_nfkc u s \<noteq> []) \<Longrightarrow> p < length raw \<Longrightarrow> \<not> in_run u (raw ! p) \<Longrightarrow> covered orig p"
proof -
  have "pending_ok u raw 0 [] None" by (simp add: pending_ok_def origin_ok_def)
  moreover have "text_grounded u raw ([], [])" by (simp add: text_grounded_def)
  moreover have "visible_kept u raw 0 []" by (simp add: visible_kept_def)
  ultimately have r: "origin_ok (length raw) orig" "text_grounded u raw (out, orig)"
      "(\<forall>s. s \<noteq> [] \<longrightarrow> uc_nfkc u s \<noteq> []) \<longrightarrow> visible_kept u raw (length raw) orig"
    using normalize_loop_ok [of raw "[]" raw u "([], [])" None "(out, orig)"] assms by (simp_all add: normalize_def)
  then show "origin_ok (length raw) orig" "list_all2 (comes_from u raw) orig out" by (simp_all add: text_grounded_def)
  then show "length orig = length out" by (auto dest: list_all2_lengthD)
  show "covered orig p" if "\<And>s. s \<noteq> [] \<Longrightarrow> uc_nfkc u s \<noteq> []" "p < length raw" "\<not> in_run u (raw ! p)"
    using r(3) that by (auto simp: visible_kept_def)
qed

text \<open>A span of the normalised text is a non-empty piece of the submitted text.\<close>

lemma raw_span:
  assumes "normalize u raw = (out, orig)" "a < b" "b \<le> length out"
  shows "fst (orig ! a) < snd (orig ! (b - 1))" "snd (orig ! (b - 1)) \<le> length raw" "raw_of raw orig a b \<noteq> []"
proof -
  note n = normalize_ok(1,2) [OF assms(1)]
  have ab: "a \<le> b - 1" "b - 1 < length orig" using assms(2,3) n(1) by auto
  have ends: "fst (orig ! k) < snd (orig ! k) \<and> snd (orig ! k) \<le> length raw" if "k < length orig" for k
    using n(2) nth_mem [OF that] by (auto simp: origin_ok_def case_prod_unfold)
  show lt: "fst (orig ! a) < snd (orig ! (b - 1))"
  proof (cases "a = b - 1")
    case True
    then show ?thesis using ends ab by simp
  next
    case False
    then have "orig ! a = orig ! (b - 1) \<or> snd (orig ! a) \<le> fst (orig ! (b - 1))"
      using n(2) ab by (auto simp: origin_ok_def sorted_wrt_iff_nth_less)
    then show ?thesis using ends [of a] ends [of "b - 1"] ab by auto
  qed
  show le: "snd (orig ! (b - 1)) \<le> length raw" using ends ab by simp
  show "raw_of raw orig a b \<noteq> []" using lt le by (simp add: raw_of_def slice_def)
qed

section \<open>Language\<close>

lemma counted_keys: "fst ` set (count_script u c counts) = set_option (script_of u c) \<union> fst ` set counts"
  by (auto simp: count_script_def dom_update split: option.splits)

lemma fold_keys: "fst ` set (fold (count_script u) cs counts) = (\<Union>c\<in>set cs. set_option (script_of u c)) \<union> fst ` set counts"
  by (induction cs arbitrary: counts) (auto simp: counted_keys)

lemma match_length: "length (as_match (assess_language u t)) = length t"
  by (simp add: assess_language_def assessed_def Let_def)

definition latin_only :: "unicode \<Rightarrow> utext \<Rightarrow> bool" where
  "latin_only u t \<longleftrightarrow> list_all (\<lambda>c. script_of u c = None \<or> script_of u c = Some ''Latn'') t"

lemma keys_latin:
  "fst ` set (fold (count_script u) cs counts) \<subseteq> {''Latn''} \<longleftrightarrow> latin_only u cs \<and> fst ` set counts \<subseteq> {''Latn''}"
proof -
  have "set_option (script_of u c) \<subseteq> {''Latn''} \<longleftrightarrow> script_of u c = None \<or> script_of u c = Some ''Latn''" for c
    by (cases "script_of u c") auto
  then show ?thesis by (simp add: fold_keys latin_only_def list_all_iff UN_subset_iff)
qed

lemma foreign_keys: "\<not> list_ex (\<lambda>(k, _). k \<noteq> ''Latn'') xs \<longleftrightarrow> fst ` set xs \<subseteq> {''Latn''}"
  by (auto simp: list_ex_iff)

lemma counted_step: "counted (count_script u c counts) k \<le> counted counts k + 1"
  by (auto simp: count_script_def counted_def update_conv' split: option.splits)

lemma counted_fold: "counted (fold (count_script u) cs counts) k \<le> counted counts k + length cs"
proof (induction cs arbitrary: counts)
  case (Cons c cs)
  have "counted (fold (count_script u) (c # cs) counts) k \<le> counted (count_script u c counts) k + length cs"
    using Cons by simp
  also have "\<dots> \<le> counted counts k + length (c # cs)" using counted_step [of u c counts k] by simp
  finally show ?case .
qed simp

text \<open>The fold applies where the assessment says so.\<close>

definition folds :: "unicode \<Rightarrow> utext \<Rightarrow> bool" where
  "folds u t \<longleftrightarrow>
     (let x = length (filter is_confusable t); counts = fold (count_script u) (filter (\<lambda>c. \<not> is_confusable c) t) [] in
      0 < x \<and> \<not> list_ex (\<lambda>(k, _). k \<noteq> ''Latn'') counts \<and> 0 < counted counts ''Latn'' \<and> 10 * x \<le> 3 * (counted counts ''Latn'' + x))"

lemma supported_pick:
  assumes "as_supported r"
    and "r = (if A then assessed l1 s1 c1 False n1 f1 m1 b1 else if B then assessed l2 s2 c2 False n2 f2 m2 b2
      else if C then assessed l3 s3 c3 False n3 f3 m3 b3 else if D then assessed l s c True n f m b
      else assessed l4 s4 c4 False n4 f4 m4 b4)"
  shows "\<not> A" "r = assessed l s c True n f m b" "D \<and> \<not> B \<and> \<not> C"
  using assms by (auto simp: assessed_def split: if_splits)

text \<open>What the words of a text assessed as English show.\<close>

definition english_evidence :: "utext list \<Rightarrow> bool" where
  "english_evidence ts \<longleftrightarrow>
     (let en = count_in EN_WORDS ts; hi = count_in HI_WORDS ts; eu = count_in EU_WORDS ts in
      ts \<noteq> [] \<and> (3 \<le> en \<or> length ts \<le> 4 * en) \<and> (hi < 2 \<or> 2 * hi < en) \<and> (eu < 2 \<or> eu \<le> en))"

lemma supported_words:
  assumes "as_supported (assess_language u t)"
  defines "ts \<equiv> tokens_of (uc_lower u (as_match (assess_language u t)))"
  shows "english_evidence ts" "as_words (assess_language u t) = length ts"
proof -
  note p = supported_pick [OF assms(1) assess_language_def [unfolded Let_def, of u t]]
  have m: "as_match (assess_language u t) = (if folds u t then map fold_char t else t)"
    unfolding folds_def Let_def p(2) by (simp only: assessed_def assessment.select_convs)
  show "english_evidence ts"
    using p(3) unfolding ts_def m english_evidence_def folds_def Let_def by (simp only: not_le not_less mult.commute de_Morgan_conj simp_thms)
  show "as_words (assess_language u t) = length ts"
    unfolding ts_def m folds_def Let_def p(2) by (simp only: assessed_def assessment.select_convs)
qed

lemma supported_facts:
  assumes "as_supported (assess_language u t)"
  defines "a \<equiv> assess_language u t"
  shows "as_language a = [''en'']" "as_script a = [''Latn'']" "as_folded a = folds u t"
    "as_match a = (if folds u t then map fold_char t else t)"
    "\<not> list_ex (\<lambda>(k, _). k \<noteq> ''Latn'')
        (if \<not> folds u t then fold (count_script u) (filter is_confusable t)
           (fold (count_script u) (filter (\<lambda>c. \<not> is_confusable c) t) [])
         else fold (count_script u) (filter (\<lambda>c. \<not> is_confusable c) t) [])"
proof -
  note p = supported_pick [OF assms(1) assess_language_def [unfolded Let_def, of u t]]
  show "as_language a = [''en'']" "as_script a = [''Latn'']" "as_folded a = folds u t"
    "as_match a = (if folds u t then map fold_char t else t)"
    unfolding a_def folds_def Let_def p(2) by (simp_all only: assessed_def assessment.select_convs)
  show "\<not> list_ex (\<lambda>(k, _). k \<noteq> ''Latn'')
        (if \<not> folds u t then fold (count_script u) (filter is_confusable t)
           (fold (count_script u) (filter (\<lambda>c. \<not> is_confusable c) t) [])
         else fold (count_script u) (filter (\<lambda>c. \<not> is_confusable c) t) [])"
    using p(1) unfolding folds_def Let_def by (simp only: de_Morgan_disj simp_thms)
qed

lemma share_bound: "(c::nat) \<le> p \<Longrightarrow> p + x = n \<Longrightarrow> 10 * x \<le> 3 * (c + x) \<Longrightarrow> 10 * x \<le> 3 * n"
  by simp

lemma folds_share: "folds u t \<Longrightarrow> 10 * length (filter is_confusable t) \<le>
    3 * (counted (fold (count_script u) (filter (\<lambda>c. \<not> is_confusable c) t) []) ''Latn'' + length (filter is_confusable t))"
  by (simp only: folds_def Let_def)

lemma supported_language:
  assumes "as_supported (assess_language u t)"
  defines "a \<equiv> assess_language u t"
  shows "as_language a = [''en''] \<and> as_script a = [''Latn''] \<and> latin_only u (filter (\<lambda>c. \<not> is_confusable c) t) \<and>
    (if as_folded a then as_match a = map fold_char t \<and> 10 * length (filter is_confusable t) \<le> 3 * length t
     else as_match a = t \<and> latin_only u t)"
proof -
  let ?x = "filter is_confusable t" and ?p = "filter (\<lambda>c. \<not> is_confusable c) t"
  note f = supported_facts [OF assms(1), folded a_def]
  have plain: "latin_only u ?p" using f(5) by (auto simp: foreign_keys keys_latin split: if_splits)
  have "latin_only u t" if "\<not> folds u t"
    using that f(5) plain by (auto simp: foreign_keys keys_latin latin_only_def list_all_iff)
  moreover have "10 * length ?x \<le> 3 * length t" if "folds u t"
    by (rule share_bound [where p = "length ?p", OF _ _ folds_share [OF that]])
      (use counted_fold [of u ?p "[]" "''Latn''"] sum_length_filter_compl [of is_confusable t] in \<open>simp_all add: counted_def add.commute\<close>)
  ultimately show ?thesis using f(1-4) plain by simp
qed

section \<open>Decoding\<close>

text \<open>The UTF-8 form of a code point, as a reference.\<close>

definition utf8_char :: "int \<Rightarrow> int list" where
  "utf8_char c =
     (if c < 0x80 then [c]
      else if c < 0x800 then [0xC0 + c div 64, 0x80 + c mod 64]
      else if c < 0x10000 then [0xE0 + c div 64 div 64, 0x80 + c div 64 mod 64, 0x80 + c mod 64]
      else [0xF0 + c div 64 div 64 div 64, 0x80 + c div 64 div 64 mod 64, 0x80 + c div 64 mod 64, 0x80 + c mod 64])"

definition utf8_text :: "utext \<Rightarrow> int list" where
  "utf8_text t = concat (map utf8_char t)"

definition scalar :: "int \<Rightarrow> bool" where
  "scalar c \<longleftrightarrow> 0 \<le> c \<and> c \<le> 0x10FFFF \<and> \<not> (0xD800 \<le> c \<and> c \<le> 0xDFFF)"

lemma digits: "0 \<le> y \<Longrightarrow> y < 64 \<Longrightarrow> (x * 64 + y) div 64 = x" "0 \<le> y \<Longrightarrow> y < 64 \<Longrightarrow> (x * 64 + y) mod 64 = (y::int)"
  by simp_all

lemma continuation_range: "continuation b \<Longrightarrow> 0 \<le> b - 0x80 \<and> b - 0x80 < 64"
  by (simp add: continuation_def)

lemma utf8_two:
  assumes "2 \<le> x" "x < 32" "0 \<le> y" "y < 64"
  shows "utf8_char (x * 64 + y) = [0xC0 + x, 0x80 + y] \<and> scalar (x * 64 + y)"
proof -
  have "0x80 \<le> x * 64 + y" "x * 64 + y < 0x800" using assms by linarith+
  then show ?thesis using digits [OF assms(3,4), of x] by (simp add: utf8_char_def scalar_def)
qed

lemma utf8_three:
  assumes "0x20 \<le> d" "d < 0x400" "d < 0x360 \<or> 0x380 \<le> d" "0 \<le> y" "y < 64"
  shows "utf8_char (d * 64 + y) = [0xE0 + d div 64, 0x80 + d mod 64, 0x80 + y] \<and> scalar (d * 64 + y)"
proof -
  have "0x800 \<le> d * 64 + y" "d * 64 + y < 0x10000" "d * 64 + y < 0xD800 \<or> 0xDFFF < d * 64 + y"
    using assms by linarith+
  then show ?thesis using digits [OF assms(4,5), of d] by (auto simp: utf8_char_def scalar_def)
qed

lemma utf8_four:
  assumes "0x10 \<le> e" "e < 0x110" "0 \<le> z" "z < 64" "0 \<le> y" "y < 64"
  shows "utf8_char ((e * 64 + z) * 64 + y) = [0xF0 + e div 64, 0x80 + e mod 64, 0x80 + z, 0x80 + y] \<and>
    scalar ((e * 64 + z) * 64 + y)"
proof -
  define c where "c = (e * 64 + z) * 64 + y"
  have "0x10000 \<le> c" "c \<le> 0x10FFFF" unfolding c_def distrib_right using assms by simp_all
  moreover have "c div 64 = e * 64 + z" "c mod 64 = y" unfolding c_def by (rule digits [OF assms(5,6)])+
  ultimately show ?thesis
    unfolding c_def [symmetric] using digits [OF assms(3,4), of e] by (simp add: utf8_char_def scalar_def)
qed

text \<open>The sequences the decoder accepts.\<close>

lemma accepted_two:
  assumes "0xC2 \<le> b0" "b0 \<le> 0xDF" "continuation b1"
  shows "utf8_char ((b0 - 0xC0) * 64 + (b1 - 0x80)) = [b0, b1] \<and> scalar ((b0 - 0xC0) * 64 + (b1 - 0x80))"
  using utf8_two [of "b0 - 0xC0" "b1 - 0x80"] assms continuation_range [OF assms(3)] by simp

lemma accepted_three:
  assumes "0xE0 \<le> b0" "b0 \<le> 0xEF" "second_ok b0 b1" "continuation b2"
  shows "utf8_char (((b0 - 0xE0) * 64 + (b1 - 0x80)) * 64 + (b2 - 0x80)) = [b0, b1, b2] \<and>
    scalar (((b0 - 0xE0) * 64 + (b1 - 0x80)) * 64 + (b2 - 0x80))"
proof -
  define d where "d = (b0 - 0xE0) * 64 + (b1 - 0x80)"
  have b1: "continuation b1" using assms(3) by (simp add: second_ok_def)
  have "0x20 \<le> d \<and> d < 0x400 \<and> (d < 0x360 \<or> 0x380 \<le> d)"
    using assms(1-3) unfolding d_def by (cases "b0 = 0xE0"; cases "b0 = 0xED"; auto simp: second_ok_def continuation_def)
  moreover have "d div 64 = b0 - 0xE0" "d mod 64 = b1 - 0x80"
    unfolding d_def using digits continuation_range [OF b1] by blast+
  ultimately show ?thesis
    using utf8_three [of d "b2 - 0x80"] continuation_range [OF assms(4)] unfolding d_def [symmetric] by simp
qed

lemma accepted_four:
  assumes "0xF0 \<le> b0" "b0 \<le> 0xF4" "second_ok b0 b1" "continuation b2" "continuation b3"
  shows "utf8_char ((((b0 - 0xF0) * 64 + (b1 - 0x80)) * 64 + (b2 - 0x80)) * 64 + (b3 - 0x80)) = [b0, b1, b2, b3] \<and>
    scalar ((((b0 - 0xF0) * 64 + (b1 - 0x80)) * 64 + (b2 - 0x80)) * 64 + (b3 - 0x80))"
proof -
  define e where "e = (b0 - 0xF0) * 64 + (b1 - 0x80)"
  have b1: "continuation b1" using assms(3) by (simp add: second_ok_def)
  have "0x10 \<le> e \<and> e < 0x110"
    using assms(1-3) unfolding e_def by (cases "b0 = 0xF0"; cases "b0 = 0xF4"; auto simp: second_ok_def continuation_def)
  moreover have "e div 64 = b0 - 0xF0" "e mod 64 = b1 - 0x80"
    unfolding e_def using digits continuation_range [OF b1] by blast+
  ultimately show ?thesis
    using utf8_four [of e "b2 - 0x80" "b3 - 0x80"] continuation_range [OF assms(4)] continuation_range [OF assms(5)]
    unfolding e_def [symmetric] by simp
qed

lemma utf8_Cons: "utf8_text (c # t) = utf8_char c @ utf8_text t"
  by (simp add: utf8_text_def)

text \<open>The decoded text is made of scalar values, and its UTF-8 form is the bytes it was decoded from.\<close>

lemma decode_utf8_sound: "decode_utf8 bs = Some t \<Longrightarrow> utf8_text t = bs \<and> list_all scalar t"
proof (induction bs arbitrary: t rule: decode_utf8.induct)
  case 1
  then show ?case by (simp add: utf8_text_def)
next
  case (2 b0 bs)
  consider "0 \<le> b0" "b0 < 0x80" | "0xC2 \<le> b0" "b0 \<le> 0xDF" | "0xE0 \<le> b0" "b0 \<le> 0xEF" | "0xF0 \<le> b0" "b0 \<le> 0xF4"
    using "2.prems" by (auto split: if_splits)
  then show ?case
  proof cases
    case 1
    then show ?thesis using "2.prems" "2.IH"(1) by (auto simp: utf8_Cons utf8_char_def scalar_def)
  next
    case two: 2
    then show ?thesis using "2.prems" "2.IH"(2) accepted_two [OF two]
      by (auto simp: utf8_Cons split: list.splits if_splits)
  next
    case 3
    then show ?thesis using "2.prems" "2.IH"(3) accepted_three [OF 3]
      by (auto simp: utf8_Cons split: list.splits if_splits)
  next
    case 4
    then show ?thesis using "2.prems" "2.IH"(4) accepted_four [OF 4]
      by (auto simp: utf8_Cons split: list.splits if_splits)
  qed
qed

section \<open>The text that is read\<close>

lemma read_text_cases:
  assumes "read_text u ty iid data = Text_Input g"
  obtains t where "decode_utf8 data = Some t" "length data \<le> MAX_TEXT_BYTES" "ti_raw g = drop_bom t"
    "list_all (\<lambda>c. \<not> malformed_control u c) (ti_raw g)" "normalize u (ti_raw g) = (ti_normalized g, ti_origin g)"
    "ti_assessment g = assess_language u (ti_normalized g)"
  using assms
  by (auto simp: read_text_def Let_def list_ex_iff list_all_iff split: if_splits option.splits prod.splits)

lemma drop_bom_bytes: "utf8_text t = utf8_text (drop_bom t) \<or> utf8_text t = utf8_text (0xFEFF # drop_bom t)"
  by (auto simp: drop_bom_def split: list.splits)

lemma drop_bom_scalar: "list_all scalar t \<Longrightarrow> list_all scalar (drop_bom t)"
  by (auto simp: drop_bom_def split: list.splits)

lemma status_supported:
  "input_status u t a indicators gaps \<in> {''SUPPORTED'', ''PARTIALLY_SUPPORTED''} \<Longrightarrow>
     as_supported a \<and> list_ex (uc_alpha u) t \<and> (MIN_WORDS \<le> as_words a \<or> indicators)"
  by (auto simp: input_status_def split: if_splits)

lemma read_text_ok:
  assumes "read_text u ty iid data = Text_Input g"
  shows "data = utf8_text (ti_raw g) \<or> data = utf8_text (0xFEFF # ti_raw g)"
    "list_all (\<lambda>c. scalar c \<and> \<not> malformed_control u c) (ti_raw g)"
    "normalize u (ti_raw g) = (ti_normalized g, ti_origin g)"
    "ti_assessment g = assess_language u (ti_normalized g)"
proof -
  obtain t where t: "decode_utf8 data = Some t" "ti_raw g = drop_bom t"
      "list_all (\<lambda>c. \<not> malformed_control u c) (ti_raw g)" "normalize u (ti_raw g) = (ti_normalized g, ti_origin g)"
      "ti_assessment g = assess_language u (ti_normalized g)"
    by (rule read_text_cases [OF assms])
  note d = decode_utf8_sound [OF t(1)]
  show "data = utf8_text (ti_raw g) \<or> data = utf8_text (0xFEFF # ti_raw g)"
    using d drop_bom_bytes [of t] unfolding t(2) by simp
  show "list_all (\<lambda>c. scalar c \<and> \<not> malformed_control u c) (ti_raw g)"
    using d t(3) drop_bom_scalar [of t] unfolding t(2) by (simp add: list_all_iff)
  show "normalize u (ti_raw g) = (ti_normalized g, ti_origin g)" "ti_assessment g = assess_language u (ti_normalized g)"
    by (rule t)+
qed

lemma read_text_back:
  assumes "read_text u ty iid data = Text_Input g" "\<And>s. s \<noteq> [] \<Longrightarrow> uc_nfkc u s \<noteq> []"
  shows "length (ti_origin g) = length (ti_normalized g) \<and> origin_ok (length (ti_raw g)) (ti_origin g) \<and>
    list_all2 (comes_from u (ti_raw g)) (ti_origin g) (ti_normalized g) \<and>
    (\<forall>p<length (ti_raw g). \<not> in_run u (ti_raw g ! p) \<longrightarrow> covered (ti_origin g) p) \<and>
    (\<forall>a b. a < b \<and> b \<le> length (ti_normalized g) \<longrightarrow> raw_of (ti_raw g) (ti_origin g) a b \<noteq> [])"
  using normalize_ok [OF read_text_ok(3) [OF assms(1)]] assms(2) raw_span(3) [OF read_text_ok(3) [OF assms(1)]] by blast

lemma status_language:
  assumes "read_text u ty iid data = Text_Input g"
    and "input_status u (ti_normalized g) (ti_assessment g) indicators gaps \<in> {''SUPPORTED'', ''PARTIALLY_SUPPORTED''}"
  defines "a \<equiv> ti_assessment g" and "t \<equiv> ti_normalized g"
  shows "as_language a = [''en'']" "as_script a = [''Latn'']" "list_ex (uc_alpha u) t"
    "MIN_WORDS \<le> as_words a \<or> indicators"
    "latin_only u (filter (\<lambda>c. \<not> is_confusable c) t)" "english_evidence (tokens_of (uc_lower u (as_match a)))"
    "length (as_match a) = length t"
    "if as_folded a then as_match a = map fold_char t \<and> 10 * length (filter is_confusable t) \<le> 3 * length t
     else as_match a = t \<and> latin_only u t"
proof -
  note st = status_supported [OF assms(2), folded a_def t_def]
  have a: "a = assess_language u t" unfolding a_def t_def by (rule read_text_ok(4) [OF assms(1)])
  have sup: "as_supported (assess_language u t)" using st a by simp
  show "list_ex (uc_alpha u) t" "MIN_WORDS \<le> as_words a \<or> indicators" using st by simp_all
  show "as_language a = [''en'']" "as_script a = [''Latn'']" "latin_only u (filter (\<lambda>c. \<not> is_confusable c) t)"
    "if as_folded a then as_match a = map fold_char t \<and> 10 * length (filter is_confusable t) \<le> 3 * length t
     else as_match a = t \<and> latin_only u t"
    using supported_language [OF sup] unfolding a by blast+
  show "english_evidence (tokens_of (uc_lower u (as_match a)))" "length (as_match a) = length t"
    unfolding a by (rule supported_words(1) [OF sup], rule match_length)
qed

end
