(* ===== verification/TextSamples.thy ===== *)
theory TextSamples
  imports TextViewProps
begin

text \<open>A Unicode database for the letters of the samples, and a message with a look-alike letter.\<close>

definition sample_upper :: "int \<Rightarrow> bool" where
  "sample_upper c \<longleftrightarrow> 0x41 \<le> c \<and> c \<le> 0x5A"

definition sample_cyrillic :: "int \<Rightarrow> bool" where
  "sample_cyrillic c \<longleftrightarrow> 0x400 \<le> c \<and> c \<le> 0x4FF"

definition sample_unicode :: unicode where
  "sample_unicode =
     \<lparr>uc_space = (\<lambda>c. c = 0x20 \<or> 0x09 \<le> c \<and> c \<le> 0x0D),
      uc_category = (\<lambda>c. if c < 0x20 \<or> c = 0x7F then ''Cc'' else if c = 0x200B \<or> c = 0xFEFF then ''Cf''
                         else if 0x300 \<le> c \<and> c \<le> 0x36F then ''Mn'' else ''Lo''),
      uc_nfkc = (\<lambda>t. t),
      uc_lower = map (\<lambda>c. if sample_upper c then c + 0x20 else c),
      uc_alpha = (\<lambda>c. sample_upper c \<or> letter_code c \<or> sample_cyrillic c),
      uc_name = (\<lambda>c. if sample_cyrillic c then ''CYRILLIC LETTER'' else ''LATIN LETTER'')\<rparr>"

text \<open>A byte order mark, two spaces, a zero-width space and a Cyrillic letter: ``is it you''.\<close>

definition sample_bytes :: "int list" where
  "sample_bytes = [0xEF, 0xBB, 0xBF, 0x69, 0x73, 0x20, 0x20, 0x69, 0xE2, 0x80, 0x8B, 0x74, 0x20, 0x79, 0xD0, 0xBE, 0x75]"

definition sample_text :: text_input where
  "sample_text =
     \<lparr>ti_raw = [0x69, 0x73, 0x20, 0x20, 0x69, 0x200B, 0x74, 0x20, 0x79, 0x43E, 0x75],
      ti_normalized = [0x69, 0x73, 0x20, 0x69, 0x74, 0x20, 0x79, 0x43E, 0x75],
      ti_origin = [(0, 1), (1, 2), (2, 4), (4, 5), (6, 7), (7, 8), (8, 9), (9, 10), (10, 11)],
      ti_assessment = assessed ''en'' [''Latn''] ''MEDIUM'' True 3 True (text_codes ''is it you'') False,
      ti_notes = [''UNICODE_NORMALIZED_OR_WHITESPACE_COLLAPSED'', ''INVISIBLE_FORMAT_CHARACTERS_REMOVED'',
                  ''MIXED_SCRIPT_CONFUSABLES_FOLDED_FOR_MATCHING'']\<rparr>"

lemma sample_decodes: "decode_utf8 sample_bytes = Some (0xFEFF # ti_raw sample_text)"
  by code_simp

lemma sample_normalizes: "normalize sample_unicode (ti_raw sample_text) = (ti_normalized sample_text, ti_origin sample_text)"
  by code_simp

lemma sample_assessed: "assess_language sample_unicode (ti_normalized sample_text) = ti_assessment sample_text"
  by code_simp

lemma sample_prologue:
  "''SMS'' \<in> set INPUT_TYPES" "input_id_ok ''in-1''" "\<not> MAX_TEXT_BYTES < length sample_bytes"
  "drop_bom (0xFEFF # ti_raw sample_text) = ti_raw sample_text"
  "\<not> list_ex (malformed_control sample_unicode) (ti_raw sample_text)"
  "text_notes sample_unicode (ti_raw sample_text) (ti_normalized sample_text) (ti_assessment sample_text) = ti_notes sample_text"
  by code_simp+

lemma sample_reads: "read_text sample_unicode ''SMS'' ''in-1'' sample_bytes = Text_Input sample_text"
  by (simp add: read_text_def sample_prologue sample_decodes sample_normalizes sample_assessed Let_def)

lemma sample_supported: "input_status sample_unicode (ti_normalized sample_text) (ti_assessment sample_text) False False = ''SUPPORTED''"
  by code_simp

lemma sample_nfkc: "s \<noteq> [] \<Longrightarrow> uc_nfkc sample_unicode s \<noteq> []"
  by (simp add: sample_unicode_def)

lemma sample_bom: "sample_bytes \<noteq> utf8_text (ti_raw sample_text)" "sample_bytes = utf8_text (0xFEFF # ti_raw sample_text)"
  by code_simp+

lemma sample_folded: "as_folded (ti_assessment sample_text)"
  by code_simp

end
