(* ===== verification/Spec2Isabelle.thy ===== *)
theory Spec2Isabelle
  imports FurtherProps LoaderSamples SessionProps IdempotencyProps AuditChainProps AiSamples FakeProvider
    AdmissionProps EgressSamples TextSamples
begin

text \<open>
  A verification library for TrustLens: the detection runtime (the Python package under
  src/knowledge/runtime/), which decides from governed observations of a message whether a published scam
  pattern matches, and how much risk, confidence and corroboration that decision carries; and parts of the
  backend that serves it (src/apps/backend/trustlens_backend/).

  THE PROGRAM. loader.py turns a directory, the published bundle, into the immutable RuntimeKnowledge, or
  fails. For a message, the extractor (extraction.py) normalises the text, decides whether its language is
  supported, and delivers indicator observations and the normalised observations they refer to. The runtime validates them (observations.py), evaluates every published rule in three-valued
  logic (kleene.py, evaluator.py), applies the rule-level suppression effects and severity caps
  (suppression.py), folds the rule results into one decision (aggregation.py), explains it and derives the
  recommended actions (explanation.py), and assembles the detection result (result.py, engine.py). Every
  stage isolates a failing rule as a NOT_APPLICABLE result and never lets a failure look like a clearance.
  An AI provider may propose further observations: knowledge/ai/ validates its response against the text it
  was given, caps what it accepts and merges it with the deterministic evidence, or falls back to that alone
  (validation.py, integration.py), and can replay a recorded extraction (replay.py).
  The backend limits the rate of requests (admission.py), authenticates browsers and keeps their sign-ins and
  sessions in memory (sessions.py), executes an unsafe request once per idempotency key (idempotency.py),
  chains its audit events by hash (audit.py), and asks reputation providers about an indicator through one
  adapter that reaches only the destination of a governed policy (egress.py).

  THE THEORIES, in the order of the code:
    Prelude        exceptions, the error-propagating bind, JSON values, dicts, canonical arrays
    Kleene         kleene.py: the values, all_of, any_of, n_of as the source's short-circuiting loops
    Conditions     operands (indexes.py) and _eval_condition (evaluator.py) over arbitrary JSON
    Observations   observations.py: snapshot, decoding, structural verdict, the validated context
    Knowledge      runtime_knowledge.py: the records and indexes and their lookups
    Evaluator      evaluator.py: gate, occurrences, truth maps, overrides, suppressors, provenance
    RuleEvaluation evaluator.py: composite and suppression rules, isolation, the entry points
    Stage          the interface of a per-item stage that isolates failures (locales isolated_stage,
                   rule_stage), interpreted on the evaluator and on the suppression stage
    Suppression    suppression.py
    UnionFind      _UnionFind of aggregation.py, with the interface disjoint_sets and its interpretation
    Matching       _max_bipartite_matching of aggregation.py
    Aggregation    the rest of aggregation.py
    CanonicalJson  the canonical JSON text explanation.py sorts and compares by
    Explanation    explanation.py: the trust boundary, the governed actions, the explanation
    Result         result.py and engine.py: provenance, semantic invariants, reconciliation, the entry point
    Shapes         errors.py, and the shape and duplicate-id checks of indexes.py over arbitrary JSON
    Components     the typed view of the parsed members of a bundle
    Indexes        build_indexes and validate_references of indexes.py, and dimensions.py
    Loader         loader.py
    Sessions       sessions.py, with the interface expiring of its two stores
    Idempotency    idempotency.py over its table, with the index and the trigger of its migration
    Governance     knowledge/ai/governance.py: the bounded copy and the canonical JSON with its digest
    AuditChain     audit.py: validation, hashing, append, the sink, verification
    AiValidation   knowledge/ai/validation.py and the response schema: every stage of the validation
    AiRequest      knowledge/ai/provider.py and governance.py: configuration, request, run audit
    AiIntegration  knowledge/ai/integration.py and replay.py: mapping, fallback, merge, snapshots
    FakeProvider   knowledge/ai/fake_provider.py, interpreting the interface typed_provider
    Admission      admission.py: token buckets, the middleware, runs of requests
    Addresses      egress.py: addresses, networks, address_permitted
    EgressPolicy   egress.py: failures, host names, limits, provider policies, paths, indicators
    Egress         egress.py: the seams, preparing, resolving, responses, the governed parser
    EgressLookup   egress.py: redirects, one attempt, the retries, lookup
    TextView       extraction.py: reading the bytes, normalisation with origins, language, support status
  and, of lemmas: EvaluatorProps (faults, live evidence, truth maps), MatchSafety (what a match means),
  SuppressionProps (outcomes of the suppression stage), Independence (the corroboration count),
  DecisionProps and DecisionSafety (the decision), OrderIndependence (permutations of the results),
  Pipeline (the stages composed), ExplanationProps and ExplanationContent (what is explained and cited),
  ResultProps and Detection (the result of the entry point), IndexProps (what the indexes hold),
  LoaderProps (what a load establishes), LoaderErrors (how it fails), DigestProps (the digest identifies
  the members), SessionProps (the locale credential_store: where the entries of a store come from, and the
  agreement of sign-in and callback), IdempotencyProps (events of concurrent requests), AuditChainProps
  (chains and tampering), AiValidationProps and AiIntegrationProps (grounding, errors, fallback, replay),
  AdmissionProps (windows of takes), AddressProps (networks as intervals), EgressProps (what reaches the
  network, results, exceptions, termination), TextViewProps (origins, decoding, languages), FurtherProps; Samples, ReleaseSamples, LoaderSamples,
  AiSamples, EgressSamples and TextSamples hold the bundles, messages, directories, responses and worlds of the witnesses.

  HOW THE STATE CORRESPONDS. A Python dict is an association list in insertion order; frozen dataclasses
  are records; a rule result, a dict of optional keys in the code, is the record rule_result, with None
  for an absent scalar key and [] for an absent list key. Exceptions are values of exc, a function that
  may raise returns exc + 'a, and each try block is a case on the result; the loader's own errors are
  load_error, which also says when an exception of another kind leaks. Enumerations the schema fixes are
  datatypes. The evaluation profile and the loaded knowledge, the fields of the Python objects, are
  arguments. A member of a bundle is an arbitrary JSON value until the shape checks have passed; then the
  indexes are built over its typed view, in which a field of a type no check demands reads as absent. The
  operations of a store of sessions.py hold its lock, so a run is a list of operations with clock readings.

  BOUNDS. The two while loops of _UnionFind.find are partial functions into option, and uf_find_spec
  shows they return on every forest the code can build. The recursive augmenting search takes as fuel the
  number of distinct components, because every recursive call marks one more of them as seen; matching
  returns with that fuel for every graph. The retry loop of a lookup and the eviction of a bucket store are
  functions with a measure (attempts left, keys over the bound); the hops of an attempt count down from
  max_redirect_hops + 1. Everything else is structurally recursive. Floats of admission.py are exact
  rationals, times of egress.py whole ticks; a float in a JSON value is its printed text. Python integers are
  unbounded and are int or nat. Characters are code points below 256, except in TextView, where a text is a
  list of code points; its ratios 0.3, 0.25 and 0.4 are compared as fractions.

  PARAMETERS. The JSON Schema validators of the jsonschema package are predicates (io_ok, obs_ok on
  inputs, ok on rule results, eok on whole-evaluation errors, det_ok on detection results; in the record
  libraries those of the bundle); nothing is assumed of them except in the theorems that a result is
  returned, which assume that they accept consistent results, and in the one on the loader's errors, which
  assumes that the manifest schema demands the fields the loader reads. datetime.fromisoformat, SHA-256
  and json.loads are functions, the file system of a bundle is the record directory. SHA-256 is assumed
  not to collide where a theorem says so, on the strings that are hashed. The AI provider is a function of
  the request. Of the lookup, the clock, the resolver, the transport and the sleep act on a world of any
  type; urlsplit, urljoin, the idna codec, zlib, strict JSON and the registry behind is_global are functions; of a text, the
  Unicode database and str.lower.

  NOT MODELLED. evaluate_candidate_rule_from_governed (a diagnostic path that validates a caller-supplied
  rule with jsonschema); message texts of exceptions are abbreviated, because no control flow reads them;
  the freezing of containers, which has no effect on immutable values. The routes of the backend, its SQL
  (cases.py, evidence.py, history.py, evaluation.py, enrichment.py), the patterns and findings of extraction.py, the live sockets of
  egress.py, OIDC, configuration and the command-line tools are outside this library: they are I/O around
  the operations modelled here, or third-party calls. The validation suites are tests.
\<close>

text \<open>
  C1: End-to-end safety of the detection runtime: a SCAM_PATTERN_SUSPECTED or SCAM_PATTERN_DETECTED
  decision of evaluate_decision_from_governed is governed by a rule of the bundle that is PUBLISHED
  and COMPOSITE, it reports at least one matched positive indicator, and every reported one has an
  occurrence in the validated input that is observed, confident, positive and backed only by live
  (affirmed, first-party, non-descriptive) observations.
\<close>

theorem scam_decision_rests_on_live_evidence:
  assumes "wf_knowledge rk" "list_all (\<lambda>(_, r). governed_condition r) (rules_by_id rk)"
    and "evaluate_decision_from_governed io_ok obs_ok ok eok rk pf inds obs support lang scr we = Inr d"
    and "dr_classification d \<in> {CL_SCAM_PATTERN_SUSPECTED, CL_SCAM_PATTERN_DETECTED}"
  shows "\<exists>ctx gid r. build_validated_context io_ok obs_ok inds obs lang scr = Inr ctx \<and>
    dr_governing d = Some gid \<and> rk_rule rk gid = Some r \<and> ru_status r = Some ''PUBLISHED'' \<and>
    ru_kind r = COMPOSITE \<and> dr_positive d \<noteq> [] \<and>
    (\<forall>p\<in>set (dr_positive d). \<exists>io\<in>set (observations_for ctx p). live_evidence pf ctx [] io)"
  by (rule pipeline_scam [OF assms])

theorem scam_decision_rests_on_live_evidence_witness:
  "\<exists>ctx. build_validated_context any_json any_json negative_inds sample_observations ''en'' ''Latn'' = Inr ctx \<and>
     (\<exists>io\<in>set (observations_for ctx ''IND-B''). live_evidence DEFAULT_PROFILE ctx [] io)"
  using scam_decision_rests_on_live_evidence [OF sample_wf sample_conditions sample_pipeline]
  by (auto simp: sample_decision_def)

text \<open>
  C2: A NO_SCAM_PATTERN decision is never a default: the input was evaluable, no whole-evaluation
  error was reported, every published rule of the bundle was evaluated exactly once in id order, and
  none of the results is an eligible match, degraded by an error, or an unresolved harmful rule,
  while at least one composite rule affirmatively did not fire.
\<close>

theorem no_scam_decision_needs_every_rule_clear:
  assumes "wf_knowledge rk"
    and "evaluate_decision_from_governed io_ok obs_ok ok eok rk pf inds obs support lang scr we = Inr d"
    and "dr_classification d = CL_NO_SCAM_PATTERN"
  shows "\<exists>qs. evaluate_rules_with_suppression_from_governed io_ok obs_ok rk pf inds obs lang scr = Inr qs \<and>
    map rr_rule_id qs = published_rule_ids rk \<and> we = [] \<and>
    (support = S_SUPPORTED \<or> support = S_PARTIALLY_SUPPORTED) \<and>
    (\<forall>q\<in>set qs. \<not> is_eligible_matched q \<and> \<not> is_degraded q \<and> \<not> is_unresolved_harmful q) \<and>
    (\<exists>q\<in>set qs. is_benign_clear q)"
  using pipeline_clear [OF assms] by simp

theorem no_scam_decision_needs_every_rule_clear_witness:
  "\<exists>qs. evaluate_rules_with_suppression_from_governed any_json any_json override_knowledge DEFAULT_PROFILE
       neutral_inds sample_observations ''en'' ''Latn'' = Inr qs \<and> (\<exists>q\<in>set qs. is_benign_clear q)"
  using no_scam_decision_needs_every_rule_clear [OF sample_wf sample_clear_pipeline] by (auto simp: clear_classification)



text \<open>
  C4: The support-first gate: when the input support status is UNSUPPORTED, INSUFFICIENT_INFORMATION
  or ERROR, the outcome does not depend on the indicator observations and observations at all, and a
  returned result carries no rule results, no matched rules, no risk, and the refusal classification
  of that status: a skipped evaluation is never reported as NO_SCAM_PATTERN.
\<close>

theorem refused_input_never_reaches_the_rules:
  assumes "map_of SUPPORT_VALUES st = Some support" "support \<notin> set EVALUABLE_SUPPORT"
  shows "evaluate_detection_from_governed fi io_ok obs_ok ok eok det_ok rk inds obs eid ts iid lang scr st we =
      evaluate_detection_from_governed fi io_ok obs_ok ok eok det_ok rk inds' obs' eid ts iid lang scr st we \<and>
    (\<forall>r. evaluate_detection_from_governed fi io_ok obs_ok ok eok det_ok rk inds obs eid ts iid lang scr st we = Inr r \<longrightarrow>
       de_classification r =
         (if support = S_ERROR then CL_ERROR else if support = S_UNSUPPORTED then CL_UNSUPPORTED
          else CL_INSUFFICIENT_EVIDENCE) \<and>
       de_results r = [] \<and> de_matched_rules r = [] \<and> de_risk r = NONE \<and> de_support r = support \<and> de_confidence r = None)"
proof (intro conjI allI impI)
  show "evaluate_detection_from_governed fi io_ok obs_ok ok eok det_ok rk inds obs eid ts iid lang scr st we =
     evaluate_detection_from_governed fi io_ok obs_ok ok eok det_ok rk inds' obs' eid ts iid lang scr st we"
    by (rule detection_gate_closed) (use assms in auto)
next
  fix r
  assume "evaluate_detection_from_governed fi io_ok obs_ok ok eok det_ok rk inds obs eid ts iid lang scr st we = Inr r"
  note refusal = detection_refusal [OF this assms]
  show "de_classification r = (if support = S_ERROR then CL_ERROR else if support = S_UNSUPPORTED then CL_UNSUPPORTED
      else CL_INSUFFICIENT_EVIDENCE)"
    using refusal by (cases support) simp_all
  show "de_results r = []" "de_matched_rules r = []" "de_risk r = NONE" "de_support r = support" "de_confidence r = None"
    using refusal by simp_all
qed

theorem refused_input_never_reaches_the_rules_witness:
  "\<exists>r. detect release_knowledge ''UNSUPPORTED'' = Inr r \<and> de_classification r = CL_UNSUPPORTED"
  using release_refused refused_input_never_reaches_the_rules [OF release_seq(4,6)] by fastforce

text \<open>
  C5: Whatever bundle and input, a returned DetectionResult passed the result schema, violates none
  of the promoted cross-field invariants, has no probability-like key, and pins the content digest
  and commit of the loaded bundle, the engine version, the production profile and the action-policy
  version the bundle carries.
\<close>

theorem returned_results_are_consistent:
  assumes "evaluate_detection_from_governed fi io_ok obs_ok ok eok det_ok rk inds obs eid ts iid lang scr st we = Inr r"
  shows "semantic_violations r = [] \<and> probability_keys (keyed_document r) [] = [] \<and> det_ok r \<and>
    pv_content_digest (de_provenance r) = md_content_digest (rk_meta rk) \<and>
    pv_commit_sha (de_provenance r) = md_commit_sha (rk_meta rk) \<and>
    pv_engine_version (de_provenance r) = ENGINE_VERSION \<and>
    pv_profile (de_provenance r) = DEFAULT_PROFILE \<and>
    map_of (pv_components (de_provenance r)) ''action_policy'' = action_policy_version rk"
  by (rule detection_consistent_all [OF assms])

theorem returned_results_are_consistent_witness:
  "\<exists>r. detect release_knowledge ''SUPPORTED'' = Inr r \<and> semantic_violations r = []"
  using release_detected returned_results_are_consistent by blast

text \<open>
  C6: Whatever decision a caller hands in, forged or not: if build_explanation returns, every rule
  that contributes a finding or an action is a PUBLISHED rule of the bundle, a scam classification
  and an eligible matched result come together, and the sources a matched result quotes are, with
  multiplicity, exactly the governed sources of that rule.
\<close>

theorem explained_findings_are_published:
  assumes "wf_knowledge rk" "build_explanation ok eok rk d obs = Inr er"
  shows "(\<forall>rid\<in>set (contributing_rule_ids d). \<exists>r. rk_rule rk rid = Some r \<and> ru_status r = Some ''PUBLISHED'') \<and>
    (dr_classification d \<in> {CL_SCAM_PATTERN_DETECTED, CL_SCAM_PATTERN_SUSPECTED} \<longleftrightarrow>
       (\<exists>q\<in>set (dr_results d). is_eligible_matched q)) \<and>
    (\<forall>q\<in>set (dr_results d). is_eligible_matched q \<longrightarrow>
       (\<exists>r. rk_published_rule rk (rr_rule_id q) = Some r \<and> mset (rr_sources q) = mset (map echo_source (ru_sources r))))"
  by (rule explanation_published [OF assms])

theorem explained_findings_are_published_witness:
  "\<exists>d er. build_explanation (\<lambda>_. True) (\<lambda>_. True) release_knowledge d None = Inr er \<and>
     (\<forall>rid\<in>set (contributing_rule_ids d). \<exists>r. rk_rule release_knowledge rid = Some r \<and> ru_status r = Some ''PUBLISHED'')"
proof -
  obtain d er where er: "build_explanation (\<lambda>_. True) (\<lambda>_. True) release_knowledge d None = Inr er"
    using release_explained by blast
  from explained_findings_are_published [OF release_wf this] er show ?thesis by blast
qed

text \<open>
  C7: A recommended action is exactly what the governed policy justifies: its code is in the
  promoted vocabulary, some policy entry for that code fires on the decision, its rule reasons,
  indicator reasons, override reasons and evidence references are precisely those of the firing
  entries, and every reason is drawn from the contributing rules, the matched negatives and the
  active overrides of the decision.
\<close>

theorem actions_are_exactly_justified:
  assumes "a \<in> set (recommended_actions rk live d)"
  shows "ac_code a \<in> set ACTION_ORDER \<and>
    (\<exists>e\<in>set (action_policy_entries rk). contribution rk live d (ac_code a) e \<noteq> None) \<and>
    set (ac_rules a) = {x. \<exists>e\<in>set (action_policy_entries rk). \<exists>R I V.
       contribution rk live d (ac_code a) e = Some (R, I, V) \<and> x \<in> set R} \<and>
    set (ac_indicators a) = {x. \<exists>e\<in>set (action_policy_entries rk). \<exists>R I V.
       contribution rk live d (ac_code a) e = Some (R, I, V) \<and> x \<in> set I} \<and>
    set (ac_overrides a) = {x. \<exists>e\<in>set (action_policy_entries rk). \<exists>R I V.
       contribution rk live d (ac_code a) e = Some (R, I, V) \<and> x \<in> set V} \<and>
    set (ac_evidence a) = {x. \<exists>e\<in>set (action_policy_entries rk).
       contribution rk live d (ac_code a) e \<noteq> None \<and> x \<in> set (ap_evidence e)} \<and>
    set (ac_rules a) \<subseteq> set (contributing_rule_ids d) \<and> set (ac_indicators a) \<subseteq> set (dr_negative d) \<and>
    set (ac_overrides a) \<subseteq> set (dr_overrides d)"
  by (rule action_reasons_exact [OF assms])

theorem actions_are_exactly_justified_witness:
  "(\<exists>a\<in>set (recommended_actions release_knowledge True sample_decision). ac_code a = ''VERIFY_INDEPENDENTLY'') \<and>
   ''VERIFY_INDEPENDENTLY'' \<in> set ACTION_ORDER"
  using release_action actions_are_exactly_justified by (metis (no_types))

text \<open>
  C8: The aggregation is deterministic in the documented sense: any permutation of the rule results
  gives the same decision, field by field, including the governing rule, the corroboration count and
  the error list.
\<close>

theorem decision_independent_of_result_order:
  assumes "aggregate_decision ok eok rk pf support rs we = Inr d" "mset rs = mset rs'"
  shows "aggregate_decision ok eok rk pf support rs' we = Inr d"
  by (rule aggregate_perm [OF assms])

theorem decision_independent_of_result_order_witness:
  "aggregate_decision (\<lambda>_. True) (\<lambda>_. True) override_knowledge DEFAULT_PROFILE S_SUPPORTED [wp4_2, wp4_1] [] =
     Inr sample_decision"
  by (rule decision_independent_of_result_order [OF sample_aggregate]) simp

text \<open>
  C9: The classification of a decision, in terms of the rule results that came in: errors first,
  then the unsupported and insufficient inputs, then a match (SUSPECTED exactly when the confidence
  is LOW), then degradation and unresolved harm as INSUFFICIENT_EVIDENCE, and NO_SCAM_PATTERN only
  after an affirmative benign result.
\<close>

theorem classification_follows_precedence:
  assumes "aggregate_decision ok eok rk pf support rs we = Inr d"
  shows "dr_classification d =
     (if we \<noteq> [] \<or> support = S_ERROR then CL_ERROR
      else if support = S_UNSUPPORTED then CL_UNSUPPORTED
      else if support = S_INSUFFICIENT_INFORMATION then CL_INSUFFICIENT_EVIDENCE
      else if list_ex is_eligible_matched rs then
        (if dr_confidence d = Some C_LOW then CL_SCAM_PATTERN_SUSPECTED else CL_SCAM_PATTERN_DETECTED)
      else if list_ex is_degraded rs \<or> list_ex is_unresolved_harmful rs then CL_INSUFFICIENT_EVIDENCE
      else if list_ex is_benign_clear rs then CL_NO_SCAM_PATTERN
      else CL_INSUFFICIENT_EVIDENCE)"
  using aggregate_classification [OF assms] by (simp add: expected_classification_def)

theorem classification_follows_precedence_witness:
  "dr_classification sample_decision = CL_SCAM_PATTERN_DETECTED \<and> list_ex is_eligible_matched [wp4_1, wp4_2]"
  using classification_follows_precedence [OF sample_aggregate] sample_eligible
  by (simp add: sample_decision_def)

text \<open>
  C10: The disjoint-set forest with path compression and lexical linking implements connectivity:
  for every list of reference groups the merging returns, keeps exactly the mentioned references,
  and two references have the same representative exactly when a chain of groups connects them.
\<close>

theorem merging_computes_connectivity:
  "\<exists>p. merge_groups uf_find uf_union groups [] = Some p \<and> uf_ok p \<and>
     dom (map_of p) = \<Union> (set (map set groups)) \<and>
     (\<forall>x y. uf_rep p x = uf_rep p y \<longleftrightarrow> UnionFind.connected groups x y)"
  by (rule uf_merge_groups)

text \<open>
  C11: A composite rule whose condition has the schema's shape matches only if its combination is
  TRUE, the distinct evidence classes of its matched indicators reach min_evidence_classes, and at
  least one indicator matched; every matched indicator has a live occurrence that no unblockable
  suppressor touches.
\<close>

theorem match_needs_live_diverse_evidence:
  assumes "evaluate_composite rk pf r rid rver ctx = Inr res" "rr_state res = MATCHED"
    and "governed_condition r"
  shows "rr_required res = TRUE \<and> rr_matched_positive res \<noteq> [] \<and>
    (\<exists>m. rr_min_classes res = Some m \<and> m \<le> int (length (rr_classes res))) \<and>
    (\<forall>p\<in>set (rr_matched_positive res). \<exists>io\<in>set (observations_for ctx p).
       live_evidence pf ctx (hard_suppressors rk pf ctx (rr_matched_negative res) p) io)"
proof -
  obtain logic where l: "ru_logic r = JObj logic" by (rule composite_cases [OF assms(1)]) blast
  then have "wf_condition (jget logic ''require'')" using assms(3) by (simp add: governed_condition_def)
  from composite_matched_operand [OF assms(1,2) l this] composite_matched [OF assms(1,2)]
    composite_matched_positive [OF assms(1)]
  show ?thesis by blast
qed

theorem match_needs_live_diverse_evidence_witness:
  "rr_required wp3_1 = TRUE \<and>
     (\<exists>io\<in>set (observations_for (sample_ctx ''NEG-R'') ''IND-A''). live_evidence DEFAULT_PROFILE (sample_ctx ''NEG-R'')
       (hard_suppressors override_knowledge DEFAULT_PROFILE (sample_ctx ''NEG-R'') [''NEG-R''] ''IND-A'') io)"
  using match_needs_live_diverse_evidence [OF sample_composite_1 _ sample_condition_1]
  by (auto simp: wp3_1_def result_1_def)

text \<open>
  C12: What a load accepts is what the manifest pins. The content digest is the digest of the listed
  files, every required member is listed, no path is listed twice, and every listed member is a
  known member at a plain path that resolves inside the bundle root, whose bytes on disk have the
  length and the SHA-256 the manifest gives; the metadata of the knowledge is that of this manifest.
\<close>

theorem loaded_bundle_is_authentic:
  assumes "load_bundle lib d = Inr rk"
  shows "\<exists>m. load_manifest lib d = Inr m \<and> rk_meta rk = load_metadata m \<and>
    canonical_content_digest (lb_sha256 lib) (mf_files m) = mf_digest m \<and>
    set REQUIRED_MEMBERS \<subseteq> set (member_paths m) \<and> distinct (member_paths m) \<and>
    list_all (authentic_member lib d) (mf_files m)"
proof -
  obtain m verified raw where l: "loads lib d m verified raw rk" using load_bundle_loads [OF assms] .
  note v = loads_bundle [OF l]
  have "list_all (authentic_member lib d) (mf_files m)" using bundle_authentic [OF v] by (simp add: list_all_iff)
  with verify_bundle_ok(4) [OF v] loads_paths(2) [OF l] loads_contracts(4) [OF l] loads_required [OF l] l
  show ?thesis by (auto simp: loads_def)
qed

theorem loaded_bundle_is_authentic_witness:
  "\<exists>m. load_manifest (small_libraries small_files) (small_bundle ''commit-1'') = Inr m \<and>
    list_all (authentic_member (small_libraries small_files) (small_bundle ''commit-1'')) (mf_files m)"
proof -
  obtain rk where "load_bundle (small_libraries small_files) (small_bundle ''commit-1'') = Inr rk"
    using succeeds_ex [OF small_ok] by blast
  from loaded_bundle_is_authentic [OF this] show ?thesis by blast
qed

text \<open>
  C13: The content digest identifies the knowledge. If two directories load with the same content
  digest, the loaded rules, indicators and every other index are the same, whatever their manifests
  say besides; only the metadata may differ. SHA-256 is assumed not to collide, and to print no
  newline, on the strings the two loads hash.
\<close>

theorem content_digest_pins_the_knowledge:
  assumes "load_bundle lib d = Inr rk" "load_bundle lib d' = Inr rk'" "hash_sound lib d d'"
    and "md_content_digest (rk_meta rk) = md_content_digest (rk_meta rk')"
  shows "rk\<lparr>rk_meta := rk_meta rk'\<rparr> = rk'"
proof -
  obtain m verified raw where l: "loads lib d m verified raw rk" using load_bundle_loads [OF assms(1)] .
  obtain m' verified' raw' where l': "loads lib d' m' verified' raw' rk'" using load_bundle_loads [OF assms(2)] .
  have "mf_digest m = mf_digest m'"
    using assms(4) loads_contracts(4) [OF l] loads_contracts(4) [OF l'] by (simp add: load_metadata_def)
  then show ?thesis by (rule digest_pins [OF l l' assms(3)])
qed

theorem content_digest_pins_the_knowledge_witness:
  "\<exists>rk rk'. load_bundle (small_libraries small_files) (small_bundle ''commit-1'') = Inr rk \<and>
    load_bundle (small_libraries small_files) (small_bundle ''commit-2'') = Inr rk' \<and> rk\<lparr>rk_meta := rk_meta rk'\<rparr> = rk'"
proof -
  obtain rk rk' where l: "load_bundle (small_libraries small_files) (small_bundle ''commit-1'') = Inr rk"
      "load_bundle (small_libraries small_files) (small_bundle ''commit-2'') = Inr rk'"
    using succeeds_ex [OF small_ok] succeeds_ex [OF small_ok'] by blast
  with content_digest_pins_the_knowledge [OF l small_hashes small_same_digest [OF l]] show ?thesis by blast
qed

text \<open>
  C14: The contracts the detection stages rely on hold of every loaded bundle: published rules are
  exactly the shipped rules with that status, filed under their ids; every reverse index holds
  exactly the rules, negative indicators and overrides its definition selects; and no reference
  dangles: the triggers of a COMPOSITE rule are positive and those of a SUPPRESSION rule negative
  indicators of the bundle, published rules name no deprecated suppressor, manual evidence belongs
  to the source that cites it, and overrides, negative indicators, families and evidence refer to
  shipped records only.
\<close>

theorem loaded_knowledge_is_sound:
  assumes "load_bundle lib d = Inr rk"
  shows "wf_knowledge rk \<and> exact_indexes rk \<and> references_resolve rk \<and>
    (has_action_policy rk \<longleftrightarrow> md_manifest_schema_version (rk_meta rk) = ''1.1.0'')"
proof -
  obtain m verified raw where l: "loads lib d m verified raw rk" using load_bundle_loads [OF assms] .
  show ?thesis using loads_contracts [OF l] by (simp add: load_metadata_def)
qed

theorem loaded_knowledge_is_sound_witness:
  "\<exists>rk. load_bundle (small_libraries small_files) (small_bundle ''commit-1'') = Inr rk \<and>
    exact_indexes rk \<and> references_resolve rk"
proof -
  obtain rk where l: "load_bundle (small_libraries small_files) (small_bundle ''commit-1'') = Inr rk"
    using succeeds_ex [OF small_ok] by blast
  with loaded_knowledge_is_sound [OF l] show ?thesis by blast
qed




text \<open>
  C17: The structural check of a parsed bundle, over members of any JSON shape: it fails with a
  typed error only, and when it accepts, the ids of taxonomy nodes, dimension terms, indicators,
  negative indicators and rules are pairwise different across all five kinds, and the ids of
  families, overrides, sources and evidence records are different within theirs.
\<close>

theorem accepted_shapes_have_unique_ids:
  "case check_shapes_and_duplicates c of
     Inl e \<Rightarrow> typed e
   | Inr _ \<Rightarrow> distinct (map fst (global_claims c)) \<and>
       distinct (record_ids ''family_id'' (elements (jfield (raw_families c) ''families''))) \<and>
       distinct (record_ids ''override_id'' (elements (jfield (raw_negatives c) ''overrides''))) \<and>
       distinct (record_ids ''id'' (elements (jfield (raw_sources c) ''sources''))) \<and>
       distinct (record_ids ''evidence_id'' (elements (jfield (raw_evidence c) ''records'')))"
  using typed_check_shapes [of c] shapes_global_ids [of c] shapes_record_ids [of c]
  by (simp add: typed_errors_def split: sum.split)

text \<open>
  C18: Whatever bytes are submitted, a text that is read is theirs: its UTF-8 form, with or without
  the byte order mark, is the submitted bytes, and it has scalar values only, none a malformed
  control character. The normalised text the detection works on maps back to it: one range per
  character, in order and inside the text, each character comes from the normal form of the cluster
  at its range or stands for a run of blanks, no visible character of the text is lost, and a span
  of the normalised text is a non-empty piece of the raw text. The normal form is assumed not to be
  empty.
\<close>

theorem read_text_maps_back_to_the_bytes:
  assumes "read_text u ty iid data = Text_Input g" "\<And>s. s \<noteq> [] \<Longrightarrow> uc_nfkc u s \<noteq> []"
  shows "(data = utf8_text (ti_raw g) \<or> data = utf8_text (0xFEFF # ti_raw g)) \<and>
    list_all (\<lambda>c. scalar c \<and> \<not> malformed_control u c) (ti_raw g) \<and>
    length (ti_origin g) = length (ti_normalized g) \<and> origin_ok (length (ti_raw g)) (ti_origin g) \<and>
    list_all2 (comes_from u (ti_raw g)) (ti_origin g) (ti_normalized g) \<and>
    (\<forall>p<length (ti_raw g). \<not> in_run u (ti_raw g ! p) \<longrightarrow> covered (ti_origin g) p) \<and>
    (\<forall>a b. a < b \<and> b \<le> length (ti_normalized g) \<longrightarrow> raw_of (ti_raw g) (ti_origin g) a b \<noteq> [])"
  using read_text_ok(1,2) [OF assms(1)] read_text_back [OF assms] by simp

theorem read_text_maps_back_to_the_bytes_witness:
  "read_text sample_unicode ''SMS'' ''in-1'' sample_bytes = Text_Input sample_text \<and>
   sample_bytes \<noteq> utf8_text (ti_raw sample_text) \<and> sample_bytes = utf8_text (0xFEFF # ti_raw sample_text) \<and>
   list_all2 (comes_from sample_unicode (ti_raw sample_text)) (ti_origin sample_text) (ti_normalized sample_text)"
  using read_text_maps_back_to_the_bytes [OF sample_reads sample_nfkc] sample_reads sample_bom by simp

text \<open>
  C19: Only English reaches the rules: when a text that is read gets the status SUPPORTED or
  PARTIALLY_SUPPORTED, whatever was found in it, its language is English in Latin script, every
  letter of it that is no look-alike is Latin, look-alike letters are folded for matching only where
  they are at most three in ten characters and are themselves Latin otherwise, the view that is
  matched is as long as the text, the words of that view show English and outweigh the Hindi and the
  European ones, and the text has letters and either three words or an indicator.
\<close>

theorem supported_text_is_latin_english:
  assumes "read_text u ty iid data = Text_Input g"
    and "input_status u (ti_normalized g) (ti_assessment g) indicators gaps \<in> {''SUPPORTED'', ''PARTIALLY_SUPPORTED''}"
  shows "let a = ti_assessment g; t = ti_normalized g in
    as_language a = [''en''] \<and> as_script a = [''Latn''] \<and> list_ex (uc_alpha u) t \<and>
    (MIN_WORDS \<le> as_words a \<or> indicators) \<and> latin_only u (filter (\<lambda>c. \<not> is_confusable c) t) \<and>
    english_evidence (tokens_of (uc_lower u (as_match a))) \<and> length (as_match a) = length t \<and>
    (if as_folded a then as_match a = map fold_char t \<and> 10 * length (filter is_confusable t) \<le> 3 * length t
     else as_match a = t \<and> latin_only u t)"
  unfolding Let_def using status_language [OF assms] by blast

theorem supported_text_is_latin_english_witness:
  "input_status sample_unicode (ti_normalized sample_text) (ti_assessment sample_text) False False = ''SUPPORTED'' \<and>
   english_evidence (tokens_of (uc_lower sample_unicode (as_match (ti_assessment sample_text)))) \<and>
   10 * length (filter is_confusable (ti_normalized sample_text)) \<le> 3 * length (ti_normalized sample_text)"
proof -
  have s: "input_status sample_unicode (ti_normalized sample_text) (ti_assessment sample_text) False False
      \<in> {''SUPPORTED'', ''PARTIALLY_SUPPORTED''}"
    by (simp only: sample_supported insert_iff simp_thms)
  from supported_text_is_latin_english [OF sample_reads s] show ?thesis
    unfolding Let_def if_P [OF sample_folded] sample_supported by blast
qed

text \<open>
  C20: A login transaction is one-time: in every run of the transaction store from its start, with
  sign-ins that draw different states, at most one callback is answered with the transaction of a
  given state, whatever expires, is swept or is replayed in between.
\<close>

theorem login_is_accepted_once:
  assumes "fresh_states digest es"
  shows "length (accepted_at lifetime capacity digest es k) \<le> 1"
  by (rule accepted_once [OF assms])

theorem login_is_accepted_once_witness:
  "length (accepted_at 600 10 sample_digest sample_logins (sample_digest ''s1'')) \<le> 1 \<and>
   accepted_at 600 10 sample_digest sample_logins (sample_digest ''s1'') = [1]"
  by (rule conjI [OF login_is_accepted_once [OF sample_fresh]]) code_simp

text \<open>
  C21: A session that a request is answered with was created in the run, for the principal it names
  and under an identifier with the digest of the presented one; it is younger than the absolute
  lifetime; and since its creation no sign-out named it, no sign-in replaced it and its principal
  was not revoked.
\<close>

theorem session_is_authorized:
  assumes "i < length es" "output_at (se_step lt digest) [] es i = Got (Some s)"
  shows "session_authorized lt digest es i s"
  by (rule session_agreement [OF assms])

theorem session_is_authorized_witness:
  "session_authorized sample_lifetimes sample_digest sample_sessions 1
     ((new_session 0 (sample_sign_in ''i1''))\<lparr>se_last_seen := 3\<rparr>)"
proof (rule session_is_authorized)
  show "1 < length sample_sessions" by code_simp
  show "output_at (se_step sample_lifetimes sample_digest) [] sample_sessions 1 =
      Got (Some ((new_session 0 (sample_sign_in ''i1''))\<lparr>se_last_seen := 3\<rparr>))" by code_simp
qed

text \<open>
  C22: API idempotency under concurrency. Requests on the same or different keys run their claim
  statements and their finishing updates in any interleaving, retry, stall or vanish; as long as
  each effect commits within the 30-second lease of its claim, no idempotency record ever has more
  than one committed effect.
\<close>

theorem idempotent_effects_commit_once:
  assumes "prompt_run supers es empty_world"
  shows "distinct (committed_effects (idem_run supers es empty_world))"
  by (rule prompt_safe [OF assms])

theorem idempotent_effects_commit_once_witness:
  "distinct (committed_effects (idem_run True retry_run empty_world)) \<and>
   committed_effects (idem_run True retry_run empty_world) = [''r1'']"
  by (rule conjI [OF idempotent_effects_commit_once [OF retry_prompt]]) code_simp

text \<open>
  C23: A replayed answer is never invented and never another request's: in every run, on time or
  not, the outcome a request is answered with was committed as the terminal outcome of a record of
  the same principal, operation, target and key, claimed with the same request digest.
\<close>

theorem replays_are_recorded_outcomes:
  assumes "w = idem_run supers es empty_world" "map_of (wd_requests w) tok = Some q"
    and "rq_point q = Done (Answered (Replayed out))"
  shows "\<exists>c\<in>set (wd_log w). cm_state c \<in> {COMPLETED, FAILED_TERMINAL} \<and> cm_outcome c = out \<and>
    (\<exists>r\<in>set (wd_table w). ir_id r = cm_id c \<and> ir_scope r = rq_scope q \<and> ir_digest r = rq_digest q)"
  using run_faithful [of supers es] assms by (auto simp: faithful_def recorded_def)

theorem replays_are_recorded_outcomes_witness:
  "\<exists>c\<in>set (wd_log (idem_run True retry_run empty_world)). cm_outcome c = created ''c1''"
proof -
  obtain q where "map_of (wd_requests (idem_run True retry_run empty_world)) ''t2'' = Some q"
      "rq_point q = Done (Answered (Replayed (created ''c1'')))"
    using retry_replayed by blast
  from replays_are_recorded_outcomes [OF refl this] show ?thesis by blast
qed


text \<open>
  C25: In every reachable table at most one record governs a scope, and a claim whose statements are
  not interrupted does what that record prescribes: claim afresh without one, supersede an expired
  one, refuse another request's key, replay a terminal outcome, wait for a live lease, take over a
  released or lapsed claim; the other records stay as they are.
\<close>

theorem claims_follow_the_governing_record:
  "distinct (map ir_scope (filter (\<lambda>r. \<not> ir_superseded r) (wd_table (idem_run supers es empty_world)))) \<and>
   claim True now scope digest tok rid rid' (wd_table (idem_run supers es empty_world)) =
     claim_spec now scope digest tok rid rid' (wd_table (idem_run supers es empty_world))"
  using run_governing [of supers es] by (simp add: one_governing_def claim_meets_spec)

text \<open>
  C26: The request digest under which an idempotency key is claimed identifies the request: equal
  digests come from the same operation on the same target with bodies that differ in the order of
  object keys at most. SHA-256 is assumed not to collide on the two texts.
\<close>

theorem fingerprint_identifies_the_request:
  assumes "semantic_digest sha op tgt body = Inr h" "semantic_digest sha op' tgt' body' = Inr h"
    and "inj_on sha {canonical_text (JObj [(''operation_id'', JStr op), (''target_resource_scope'', JStr tgt),
        (''body'', body), (''headers'', JObj [])]),
      canonical_text (JObj [(''operation_id'', JStr op'), (''target_resource_scope'', JStr tgt'),
        (''body'', body'), (''headers'', JObj [])])}"
  shows "op = op' \<and> tgt = tgt' \<and> sort_keys body = sort_keys body'"
  by (rule semantic_digest_same [OF assms])

theorem fingerprint_identifies_the_request_witness:
  "\<exists>h. semantic_digest id ''createCase'' ''/cases'' (JObj [(''a'', JInt 1), (''b'', JNull)]) = Inr h \<and>
     sort_keys (JObj [(''b'', JNull), (''a'', JInt 1)]) = sort_keys (JObj [(''a'', JInt 1), (''b'', JNull)])"
proof -
  obtain h where h: "semantic_digest id ''createCase'' ''/cases'' (JObj [(''a'', JInt 1), (''b'', JNull)]) = Inr h"
      "semantic_digest id ''createCase'' ''/cases'' (JObj [(''b'', JNull), (''a'', JInt 1)]) = Inr h"
    using sample_fingerprint by blast
  show ?thesis using fingerprint_identifies_the_request [OF h(2,1)] h(1) by simp
qed

text \<open>
  C27: Whatever is appended, accepted or refused, the stored chain passes its own verification, and
  it carries no content: every row has an enabled event type, and each value of its metadata is a
  string of the closed form (category, UUID, reference, digest or deployment name) that the
  allowlist gives its key.
\<close>

theorem audit_runs_verify:
  "verify_rows sha (ac_rows (audit_run sha accepts es)) (ac_head (audit_run sha accepts es)) =
     Inr (length (ac_rows (audit_run sha accepts es))) \<and>
   list_all content_free (ac_rows (audit_run sha accepts es))"
  using run_verifies run_content_free by simp

text \<open>
  C28: Tamper evidence: rows that verify against the head of an audit run are the events the run
  appended, column by column and in order; only the order of the metadata keys may differ. Changing,
  removing, inserting or reordering rows below an intact head is detected. SHA-256 is assumed to
  give 64 characters and not to collide on the hashed texts.
\<close>

theorem audit_tampering_is_detected:
  assumes "c = audit_run sha accepts es" "verify_rows sha rows (ac_head c) = Inr n"
    and "chain_hash_sound sha (ac_rows c) rows"
  shows "list_all2 same_event (ac_rows c) rows"
  by (rule tampering_detected [OF assms])

theorem audit_tampering_is_detected_witness:
  "list_all2 same_event [sample_row] [reordered sample_row]"
proof -
  have "list_all2 same_event (ac_rows (audit_run sample_hash (\<lambda>_. True) sample_appends)) [reordered sample_row]"
    by (rule audit_tampering_is_detected [OF refl]) (simp_all add: sample_chain reordered_verifies sample_chain_sound)
  then show ?thesis by (simp add: sample_chain)
qed

text \<open>
  C29: The trust boundary around a provider: whatever text a provider returns, if
  validate_ai_extraction accepts it then every proposed observation is about the expected input and
  anchored at a non-empty range inside its submitted text, with an excerpt, if any, that is exactly
  the anchored slice; every proposed indicator is a live one of the loaded knowledge with the
  polarity it has there and refers only to observations of the same response, to at least one if it
  claims to be observed; and nothing the caller receives carries a decision-owned field at any
  depth.
\<close>

theorem accepted_proposals_are_grounded:
  assumes "validate_ai_extraction parse raw request input inputs rk = Inr v"
  shows "\<exists>data normalized. parse (rw_text raw) = Some data \<and> map_of inputs input = Some normalized \<and>
    va_observations v = map drop_excerpt (items_at data ''observations'') \<and> va_indicators v = items_at data ''indicators'' \<and>
    list_all (grounded input normalized) (items_at data ''observations'') \<and>
    list_all (supported rk input (va_observations v)) (va_indicators v) \<and>
    list_all decision_free (va_observations v @ va_indicators v)"
  by (rule validated_from [OF assms])

theorem accepted_proposals_are_grounded_witness:
  "\<exists>data normalized. sample_loads ''good'' = Some data \<and>
     list_all (grounded ''in-1'' normalized) (items_at data ''observations'')"
  using accepted_proposals_are_grounded [OF good_validates] by (auto simp: sample_raw_def)


text \<open>
  C31: Error behaviour of the evaluation with optional AI over the offline provider, for every
  registered outcome and every response text: it fails only with the input error of the host's own
  data, with an exception of the authoritative engine, or with the TypeError of a float offset.
  Every other failure of the provider, of validation, of governance and of mapping is turned into a
  fallback.
\<close>

theorem only_the_slice_error_escapes_a_typed_provider:
  assumes "evaluate_with_optional_ai lib engine rk enabled call h = Inl e" "ac_provider call = Some (fake_extract fp)"
  shows "e = AIIntegrationInputError \<or> (\<exists>a x. engine a = Inl x \<and> e = Raised x) \<or>
    e = Raised (TypeError ''slice indices must be integers'')"
  by (rule fake.evaluation_escapes [OF assms])

theorem only_the_slice_error_escapes_a_typed_provider_witness:
  "Raised (KeyError ''k'') = AIIntegrationInputError \<or>
    (\<exists>(a::host_input) x. (Inl (KeyError ''k'') :: exc + detection_result) = Inl x \<and> Raised (KeyError ''k'') = Raised x) \<or>
    Raised (KeyError ''k'') = Raised (TypeError ''slice indices must be integers'')"
proof (rule only_the_slice_error_escapes_a_typed_provider)
  show "evaluate_with_optional_ai sample_lib (\<lambda>_. Inl (KeyError ''k'')) ai_knowledge False
      ((replying ''junk'')\<lparr>ac_provider := Some (fake_extract new_provider)\<rparr>) sample_host = Inl (Raised (KeyError ''k''))"
    by (simp add: evaluate_with_optional_ai_def optional_ai_def sample_host_text(1))
  show "ac_provider ((replying ''junk'')\<lparr>ac_provider := Some (fake_extract new_provider)\<rparr>) = Some (fake_extract new_provider)"
    by simp
qed

text \<open>
  C32: Optional AI never degrades the deterministic path: whenever an evaluation returns without an
  accepted extraction, for whatever reason of the provider, its detection, the artifact it consumed
  and everything else but the two fields that report the attempt are those of the same evaluation
  with the AI switched off.
\<close>

theorem ai_failure_falls_back_to_deterministic:
  assumes "evaluate_with_optional_ai lib engine rk enabled call h = Inr oc" "oc_replay oc = None"
  shows "evaluate_with_optional_ai lib engine rk False call h = Inr (oc\<lparr>oc_attempted := False, oc_reason := Some AI_DISABLED\<rparr>)"
  by (rule fallback_deterministic [OF assms])

theorem ai_failure_falls_back_to_deterministic_witness:
  "\<exists>oc. evaluate_with_optional_ai sample_lib sample_engine ai_knowledge False (replying ''junk'') sample_host = Inr oc \<and>
     oc_reason oc = Some AI_DISABLED"
proof -
  obtain oc where "evaluate_with_optional_ai sample_lib sample_engine ai_knowledge True (replying ''junk'') sample_host = Inr oc"
    "oc_replay oc = None" using unreadable_outcome by blast
  from ai_failure_falls_back_to_deterministic [OF this] show ?thesis by simp
qed

text \<open>
  C33: An accepted extraction only adds evidence: the artifact the engine consumed is the host's own
  data, unchanged and first, followed by one observation and one indicator per accepted proposal,
  with the structure and the anchor of that proposal, at most MEDIUM confidence and the provenance
  of the configured adapter; the proposals are grounded and known, the attempt was enabled on an
  evaluable host, and the replay snapshot pins exactly this artifact.
\<close>

theorem ai_only_adds_capped_evidence:
  assumes "evaluate_with_optional_ai lib engine rk enabled call h = Inr oc" "oc_replay oc = Some sn"
  shows "\<exists>input content c v obs inds. hi_input_id h = JStr input \<and> ac_content call = Some content \<and>
    ac_config call = Some c \<and> acceptable rk input content v \<and> oc_artifact oc = combined h obs inds \<and>
    list_all2 (contributed_observation (al_sha256 lib) c) (va_observations v) obs \<and>
    list_all2 (contributed_indicator (al_sha256 lib) c) (va_indicators v) inds \<and>
    enabled \<and> host_evaluable h \<and> sn_artifact sn = host_dict (oc_artifact oc) \<and> engine (oc_artifact oc) = Inr (oc_detection oc)"
  by (rule accepted_evidence [OF assms])

theorem ai_only_adds_capped_evidence_witness:
  "\<exists>oc obs inds. evaluate_with_optional_ai sample_lib sample_engine ai_knowledge True (replying ''good'') sample_host = Inr oc \<and>
     oc_artifact oc = combined sample_host obs inds"
proof -
  obtain oc where "evaluate_with_optional_ai sample_lib sample_engine ai_knowledge True (replying ''good'') sample_host = Inr oc"
    "oc_replay oc = Some sample_snapshot" using good_outcome by blast
  from ai_only_adds_capped_evidence [OF this] this(1) show ?thesis by blast
qed

text \<open>
  C34: Egress confinement of an indicator lookup. Under any policy the loader accepts, whatever the
  clock, the resolver, the peers and the responses do, the network sees only this: names resolved
  are the policy host; every connection goes to an address the address policy permits, on the port,
  the name and the proxy of the policy, within the connect timeout; every exchange goes over such a
  connection with the prepared headers and body, to the prepared target or, after a redirect, to a
  path within the approved prefix; and there are at most max_attempts * (max_redirect_hops + 1)
  exchanges. A request that could not be prepared sends nothing.
\<close>

theorem lookups_reach_only_the_approved_destination:
  assumes "load_policy (ln_idna (ap_lib ad)) ints doc = Inr pol" "limits_ok (ap_limits ad)"
    and "lookup ad pol i w = (r, w', events)"
  shows "events = [] \<or> (\<exists>q. prepare_request ad pol i = Inr q \<and> list_all (event_ok ad pol q) events \<and>
    int (length (filter is_exchange events)) \<le> li_attempts (ap_limits ad) * (li_hops (ap_limits ad) + 1))"
  by (rule lookup_log [OF assms(2) _ assms(3)]) (use loaded_policy [OF assms(1)] in \<open>simp add: governed_policy_def\<close>)

theorem lookups_reach_only_the_approved_destination_witness:
  "list_all (event_ok (sample_adapter found_response) (sample_policy ''DO_NOT_FOLLOW'') sample_lookup_request) (sample_log 3 10001) \<and>
     length (sample_log 3 10001) = 3"
proof -
  obtain res w' where l: "lookup (sample_adapter found_response) (sample_policy ''DO_NOT_FOLLOW'') url_indicator 1 =
      (Inr res, w', sample_log 3 10001)" using sample_found by blast
  have "load_policy (ln_idna (ap_lib (sample_adapter found_response))) no_int (sample_document ''DO_NOT_FOLLOW'') =
      Inr (sample_policy ''DO_NOT_FOLLOW'')"
    using sample_loads_policy by (simp add: sample_parts sample_libraries_def)
  from lookups_reach_only_the_approved_destination [OF this _ l] show ?thesis
    by (auto simp: sample_parts sample_limits sample_lookup_prepares sample_log_def)
qed

text \<open>
  C35: What a lookup result may say, whatever the provider and the network do: within the attempts
  of the profile, either a success with a 2XX response whose reputation, allowlist and brand values
  are allowed for its entry, or a failure with the outcome and status its category governs, no
  artifact, and NOT_EVALUATED, NOT_EVALUATED, UNKNOWN. No failure carries a reputation.
\<close>

theorem lookup_results_are_validated_or_silent:
  assumes "limits_ok (ap_limits ad)" "lookup ad pol i w = (Inr r, s)"
  shows "0 \<le> lr_attempts r \<and> lr_attempts r \<le> li_attempts (ap_limits ad) \<and>
    (case lr_category r of
       None \<Rightarrow>
         lr_status r = SUCCEEDED \<and> lr_response r = HTTP_2XX \<and>
         enum_triple_ok (if lr_outcome r = FOUND then ''FOUND'' else ''NOT_FOUND'') (lr_reputation r) (lr_allowlist r) (lr_brand r) \<and>
         lr_outcome r \<in> {FOUND, NOT_FOUND}
     | Some c \<Rightarrow>
         lr_outcome r = fa_outcome (FAILURES c) \<and> lr_status r = fa_status (FAILURES c) \<and> lr_artifact r = None \<and>
         lr_reputation r = ''NOT_EVALUATED'' \<and> lr_allowlist r = ''NOT_EVALUATED'' \<and> lr_brand r = ''UNKNOWN'')"
  using lookup_result [OF assms] by (simp only: result_ok_def)

theorem lookup_results_are_validated_or_silent_witness:
  "\<exists>r s. lookup (sample_adapter found_response) (sample_policy ''DO_NOT_FOLLOW'') url_indicator 1 = (Inr r, s) \<and>
     lr_outcome r = FOUND \<and> lr_reputation r = ''MALICIOUS'' \<and> lr_attempts r \<le> 2"
proof -
  obtain r w' where l: "lookup (sample_adapter found_response) (sample_policy ''DO_NOT_FOLLOW'') url_indicator 1 =
      (Inr r, w', sample_log 3 10001)" "lr_outcome r = FOUND" "lr_reputation r = ''MALICIOUS''" using sample_found by blast
  from lookup_results_are_validated_or_silent [OF _ l(1)] have "lr_attempts r \<le> 2"
    by (simp add: sample_parts sample_limits sample_hops)
  with l show ?thesis by blast
qed

text \<open>
  C36: The address policy of the lookup, as intervals: an address text that passes parses, is global
  by the registry of the interpreter, and lies in none of the forbidden ranges, given by their first
  and last address: loopback, private, shared, link-local (the metadata service among them),
  multicast, documentation, benchmarking, reserved and unspecified IPv4, and the IPv6 ranges that
  embed IPv4, tunnel it, document, discard, or are local or multicast.
\<close>

theorem permitted_addresses_are_public:
  assumes "address_permitted is_global extra txt"
  shows "\<exists>a. parse_address txt = Some a \<and> is_global a \<and> list_all (\<lambda>r. \<not> in_range_of a r) FORBIDDEN_RANGES"
proof -
  obtain a where a: "parse_address txt = Some a" "is_global a" using permitted_parses [OF assms] by blast
  with permitted_is_outside [OF assms a(1)] show ?thesis by (auto simp: list_all_iff list_ex_iff)
qed

theorem permitted_addresses_are_public_witness:
  "\<exists>a. parse_address PUBLIC_ADDRESS = Some a \<and> list_all (\<lambda>r. \<not> in_range_of a r) FORBIDDEN_RANGES"
  using permitted_addresses_are_public [OF public_permitted] by blast

text \<open>
  C37: Termination of the retry loop of a lookup: whatever the clock, the sleep and the network do,
  max_attempts passes of the loop body are enough for it to return, and it returns what the
  unbounded loop returns.
\<close>

theorem lookups_end_within_their_attempts:
  assumes "limits_ok (ap_limits ad)"
  shows "passes (nat (li_attempts (ap_limits ad))) ad pol i q deadline 1 s = Some (lookup_loop ad pol i q deadline 1 s)"
  by (rule loop_ends [OF assms])

theorem lookups_end_within_their_attempts_witness:
  "passes 2 (sample_adapter bracket_redirect) (sample_policy ''DO_NOT_FOLLOW'') url_indicator sample_lookup_request 10001 1 (2, []) =
     Some (lookup_loop (sample_adapter bracket_redirect) (sample_policy ''DO_NOT_FOLLOW'') url_indicator sample_lookup_request 10001 1 (2, []))"
  using lookups_end_within_their_attempts [of "sample_adapter bracket_redirect" "sample_policy ''DO_NOT_FOLLOW''" url_indicator
      sample_lookup_request 10001 "(2, [])"]
  by (simp add: sample_parts sample_limits sample_hops)



text \<open>
  C39: The sign-in limit over any run of the application: from empty buckets, whatever paths, peers,
  methods, headers and sessions the requests of a window have, at most 20 + (t1 - t0) / 3 of those
  on the sign-in paths pass, the two connection classes together (10 tokens and one per six seconds
  each). No choice of peer address gets a caller a fresh bucket, and no bucket is evicted by it.
\<close>

theorem sign_ins_are_rate_limited:
  assumes "arrivals_within t0 t1 rs" "ad_sign_in ad = []"
  shows "of_nat (sign_ins rs (fst (run_requests is_loopback rs (ad, sessions)))) \<le> 20 + (t1 - t0) / 3"
  by (rule sign_ins_bounded [OF assms])

theorem sign_ins_are_rate_limited_witness:
  "let r = (0, None, \<lparr>rq_peer = None, rq_path = ''/auth/login'', rq_method = ''GET'', rq_cookie = None\<rparr>) in
     rat_of_nat (sign_ins (replicate 30 r) (fst (run_requests (\<lambda>_. None) (replicate 30 r) (\<lparr>ad_sign_in = [], ad_api_write = []\<rparr>, [])))) \<le> 20"
  using sign_ins_are_rate_limited [of 0 0 "replicate 30 (0, None, \<lparr>rq_peer = None, rq_path = ''/auth/login'', rq_method = ''GET'', rq_cookie = None\<rparr>)"
      "\<lparr>ad_sign_in = [], ad_api_write = []\<rparr>" "\<lambda>_. None" "[]"]
  by (simp add: arrivals_within_def Let_def)



end
